(* ===== verification/Prelude.thy ===== *)
theory Prelude
  imports Main "HOL-Library.Product_Lexorder" "HOL-Library.List_Lexorder" "HOL-Library.Char_ord"
begin

text \<open>
  Shared vocabulary of the development: an exception-and-state type for operations that run
  inside a database session, the invariant calculus used by every component, table helpers
  (a table is the list of its rows), and the collections of proof hints.

  An operation is a function from the session's state to a result (a raised error or a value)
  and the new state. A raise keeps the state it was raised in: SQLAlchemy does not undo pending
  work at a \<open>raise\<close>; only the enclosing transaction (\<open>transaction\<close> below, the code's
  \<open>get_session\<close> and \<open>with session_factory()\<close> blocks) rolls back.
\<close>

named_theorems run \<open>equations that run an operation\<close>
named_theorems keep \<open>an operation keeps an invariant\<close>

subsection \<open>Operations that may raise\<close>

type_synonym ('s, 'e, 'a) action = "'s \<Rightarrow> ('e + 'a) \<times> 's"

definition ret :: "'a \<Rightarrow> ('s, 'e, 'a) action" where
  "ret x = (\<lambda>s. (Inr x, s))"

definition throw :: "'e \<Rightarrow> ('s, 'e, 'a) action" where
  "throw e = (\<lambda>s. (Inl e, s))"

definition bnd :: "('s, 'e, 'a) action \<Rightarrow> ('a \<Rightarrow> ('s, 'e, 'b) action) \<Rightarrow> ('s, 'e, 'b) action" where
  "bnd m f = (\<lambda>s. case m s of (Inl e, s') \<Rightarrow> (Inl e, s') | (Inr x, s') \<Rightarrow> f x s')"

definition andthen :: "('s, 'e, 'a) action \<Rightarrow> ('s, 'e, 'b) action \<Rightarrow> ('s, 'e, 'b) action" where
  "andthen m k = bnd m (\<lambda>_. k)"

definition asks :: "('s \<Rightarrow> 'a) \<Rightarrow> ('s, 'e, 'a) action" where
  "asks f = (\<lambda>s. (Inr (f s), s))"

definition modify :: "('s \<Rightarrow> 's) \<Rightarrow> ('s, 'e, unit) action" where
  "modify f = (\<lambda>s. (Inr (), f s))"

definition require :: "bool \<Rightarrow> 'e \<Rightarrow> ('s, 'e, unit) action" where
  "require b e = (if b then ret () else throw e)"

definition catch :: "('s, 'e, 'a) action \<Rightarrow> ('e \<Rightarrow> ('s, 'e, 'a) action) \<Rightarrow> ('s, 'e, 'a) action" where
  "catch m h = (\<lambda>s. case m s of (Inl e, s') \<Rightarrow> h e s' | (Inr x, s') \<Rightarrow> (Inr x, s'))"

definition transaction :: "('s, 'e, 'a) action \<Rightarrow> ('s, 'e, 'a) action" where
  \<comment> \<open>commit on success, roll back and re-raise on an error\<close>
  "transaction m = (\<lambda>s. case m s of (Inl e, _) \<Rightarrow> (Inl e, s) | (Inr x, s') \<Rightarrow> (Inr x, s'))"

lemma ret_run [run]: "ret x s = (Inr x, s)"
  by (simp add: ret_def)

lemma throw_run [run]: "throw e s = (Inl e, s)"
  by (simp add: throw_def)

lemma bnd_run [run]:
  "bnd m f s = (case m s of (r, s') \<Rightarrow> (case r of Inl e \<Rightarrow> (Inl e, s') | Inr x \<Rightarrow> f x s'))"
  by (auto simp: bnd_def split: prod.splits sum.splits)

lemma andthen_run [run]:
  "andthen m k s = (case m s of (r, s') \<Rightarrow> (case r of Inl e \<Rightarrow> (Inl e, s') | Inr x \<Rightarrow> k s'))"
  by (simp add: andthen_def bnd_run)

lemma asks_run [run]: "asks f s = (Inr (f s), s)"
  by (simp add: asks_def)

lemma modify_run [run]: "modify f s = (Inr (), f s)"
  by (simp add: modify_def)

lemma require_run [run]: "require b e s = (if b then (Inr (), s) else (Inl e, s))"
  by (simp add: require_def run)

lemma catch_run [run]:
  "catch m h s = (case m s of (r, s') \<Rightarrow> (case r of Inl e \<Rightarrow> h e s' | Inr x \<Rightarrow> (Inr x, s')))"
  by (auto simp: catch_def split: prod.splits sum.splits)

lemma transaction_run [run]:
  "transaction m s = (case m s of (r, s') \<Rightarrow> (case r of Inl e \<Rightarrow> (Inl e, s) | Inr x \<Rightarrow> (Inr x, s')))"
  by (auto simp: transaction_def split: prod.splits sum.splits)

lemma transaction_rolls_back: "fst (transaction m s) = Inl e \<Longrightarrow> snd (transaction m s) = s"
  by (auto simp: transaction_run split: prod.splits sum.splits)

lemma transaction_commits: "m s = (Inr x, s') \<Longrightarrow> transaction m s = (Inr x, s')"
  by (simp add: transaction_run)

definition lift_error :: "('e \<Rightarrow> 'f) \<Rightarrow> ('s, 'e, 'a) action \<Rightarrow> ('s, 'f, 'a) action" where
  "lift_error f m = (\<lambda>s. case m s of (Inl e, s') \<Rightarrow> (Inl (f e), s') | (Inr x, s') \<Rightarrow> (Inr x, s'))"

lemma lift_error_run [run]:
  "lift_error f m s = (case m s of (r, s') \<Rightarrow> (case r of Inl e \<Rightarrow> (Inl (f e), s') | Inr x \<Rightarrow> (Inr x, s')))"
  by (auto simp: lift_error_def split: prod.splits sum.splits)

subsection \<open>Invariants of operations\<close>

text \<open>
  \<open>ensures P m Q\<close>: from a state satisfying \<open>P\<close> the operation ends in a state satisfying
  \<open>Q r\<close> of its result \<open>r\<close>, whether it returns or raises.
\<close>

definition ensures ::
    "('s \<Rightarrow> bool) \<Rightarrow> ('s, 'e, 'a) action \<Rightarrow> ('e + 'a \<Rightarrow> 's \<Rightarrow> bool) \<Rightarrow> bool" where
  "ensures P m Q \<longleftrightarrow> (\<forall>s. P s \<longrightarrow> Q (fst (m s)) (snd (m s)))"

definition keeps :: "('s \<Rightarrow> bool) \<Rightarrow> ('s, 'e, 'a) action \<Rightarrow> bool" where
  "keeps I m \<longleftrightarrow> (\<forall>s. I s \<longrightarrow> I (snd (m s)))"

lemma keepsI: "(\<And>s. I s \<Longrightarrow> I (snd (m s))) \<Longrightarrow> keeps I m"
  by (simp add: keeps_def)

lemma keepsD: "keeps I m \<Longrightarrow> I s \<Longrightarrow> I (snd (m s))"
  by (simp add: keeps_def)

lemma keepsD_eq: "keeps I m \<Longrightarrow> I s \<Longrightarrow> m s = (r, s') \<Longrightarrow> I s'"
  by (auto simp: keeps_def dest!: spec [of _ s])

lemma keeps_ret [keep]: "keeps I (ret x)"
  by (simp add: keeps_def run)

lemma keeps_throw [keep]: "keeps I (throw e)"
  by (simp add: keeps_def run)

lemma keeps_asks [keep]: "keeps I (asks f)"
  by (simp add: keeps_def run)

lemma keeps_require [keep]: "keeps I (require b e)"
  by (simp add: keeps_def run)

lemma keeps_modify: "(\<And>s. I s \<Longrightarrow> I (f s)) \<Longrightarrow> keeps I (modify f)"
  by (simp add: keeps_def run)

lemma keeps_bnd [keep]: "keeps I m \<Longrightarrow> (\<And>x. keeps I (f x)) \<Longrightarrow> keeps I (bnd m f)"
  by (fastforce simp: keeps_def bnd_run split: prod.splits sum.splits)

lemma keeps_andthen [keep]: "keeps I m \<Longrightarrow> keeps I k \<Longrightarrow> keeps I (andthen m k)"
  by (simp add: andthen_def keeps_bnd)

lemma keeps_catch [keep]: "keeps I m \<Longrightarrow> (\<And>e. keeps I (h e)) \<Longrightarrow> keeps I (catch m h)"
  by (fastforce simp: keeps_def catch_run split: prod.splits sum.splits)

lemma keeps_transaction [keep]: "keeps I m \<Longrightarrow> keeps I (transaction m)"
  by (fastforce simp: keeps_def transaction_run split: prod.splits sum.splits)

lemma keeps_guard: "(b \<Longrightarrow> keeps I k) \<Longrightarrow> keeps I (andthen (require b e) k)"
  by (auto simp: keeps_def run)

lemma keeps_lift [keep]: "keeps I m \<Longrightarrow> keeps I (lift_error f m)"
  by (fastforce simp: keeps_def lift_error_run split: prod.splits sum.splits)

lemma keeps_if [keep]: "(b \<Longrightarrow> keeps I m) \<Longrightarrow> (\<not> b \<Longrightarrow> keeps I k) \<Longrightarrow> keeps I (if b then m else k)"
  by simp

lemma keeps_option [keep]:
  "keeps I m \<Longrightarrow> (\<And>x. keeps I (f x)) \<Longrightarrow> keeps I (case z of None \<Rightarrow> m | Some x \<Rightarrow> f x)"
  by (simp split: option.splits)

lemma keeps_conj: "keeps I m \<Longrightarrow> keeps J m \<Longrightarrow> keeps (\<lambda>s. I s \<and> J s) m"
  by (simp add: keeps_def)

subsection \<open>Relations every operation respects\<close>

text \<open>
  \<open>steps R m\<close>: the state after the operation, however it ends, is \<open>R\<close>-related to the state before.
  The locale proves once, for any reflexive and transitive relation, that composing operations
  respects it; components interpret it with the relations they promise (what stays, what only grows).
\<close>

definition steps :: "('s \<Rightarrow> 's \<Rightarrow> bool) \<Rightarrow> ('s, 'e, 'a) action \<Rightarrow> bool" where
  "steps R m \<longleftrightarrow> (\<forall>s. R s (snd (m s)))"

lemma stepsI: "(\<And>s. R s (snd (m s))) \<Longrightarrow> steps R m"
  by (simp add: steps_def)

lemma stepsD: "steps R m \<Longrightarrow> R s (snd (m s))"
  by (simp add: steps_def)

lemma stepsD_eq: "steps R m \<Longrightarrow> m s = (r, t) \<Longrightarrow> R s t"
  by (metis snd_conv stepsD)

locale frame_relation =
  fixes R :: "'s \<Rightarrow> 's \<Rightarrow> bool"
  assumes refl: "R s s" and trans: "R s t \<Longrightarrow> R t u \<Longrightarrow> R s u"
begin

lemma ret: "steps R (ret x)" and throw: "steps R (throw e)" and asks: "steps R (asks f)"
  and require: "steps R (require b err)"
  by (simp_all add: steps_def run refl)

lemma modify: "(\<And>s. R s (f s)) \<Longrightarrow> steps R (modify f)"
  by (simp add: steps_def run)

lemma bnd:
  assumes "steps R m" and "\<And>x. steps R (f x)"
  shows "steps R (bnd m f)"
proof (rule stepsI)
  fix s
  show "R s (snd (bnd m f s))"
  proof (cases "m s")
    case (Pair r s')
    with assms(1) have "R s s'" by (metis stepsD snd_conv)
    with Pair assms(2) show ?thesis by (cases r) (auto simp: bnd_run intro: trans stepsD)
  qed
qed

lemma andthen: "steps R m \<Longrightarrow> steps R k \<Longrightarrow> steps R (andthen m k)"
  by (simp add: andthen_def bnd)

lemma catch:
  assumes "steps R m" and "\<And>e. steps R (h e)"
  shows "steps R (catch m h)"
proof (rule stepsI)
  fix s
  show "R s (snd (catch m h s))"
  proof (cases "m s")
    case (Pair r s')
    with assms(1) have "R s s'" by (metis stepsD snd_conv)
    with Pair assms(2) show ?thesis by (cases r) (auto simp: catch_run intro: trans stepsD)
  qed
qed

lemma transaction: "steps R m \<Longrightarrow> steps R (transaction m)"
  by (rule stepsI) (auto simp: transaction_run refl dest: stepsD_eq split: prod.splits sum.splits)

lemma lift: "steps R m \<Longrightarrow> steps R (lift_error f m)"
  by (rule stepsI) (auto simp: lift_error_run dest: stepsD_eq split: prod.splits sum.splits)

lemma bnd_asks: "(\<And>s. R s (snd (g (f s) s))) \<Longrightarrow> steps R (bnd (asks f) g)"
  by (simp add: steps_def run)

lemma if_then_else: "(b \<Longrightarrow> steps R m) \<Longrightarrow> (\<not> b \<Longrightarrow> steps R k) \<Longrightarrow> steps R (if b then m else k)"
  by simp

lemma option: "steps R m \<Longrightarrow> (\<And>x. steps R (f x)) \<Longrightarrow> steps R (case z of None \<Rightarrow> m | Some x \<Rightarrow> f x)"
  by (simp split: option.splits)

lemma keeps: "steps R m \<Longrightarrow> (\<And>s t. I s \<Longrightarrow> R s t \<Longrightarrow> I t) \<Longrightarrow> keeps I m"
  by (auto simp: keeps_def dest: stepsD)

lemmas rules = ret throw asks require bnd andthen catch transaction lift if_then_else option

end

text \<open>\<open>yields E Q m\<close>: every error of \<open>m\<close> satisfies \<open>E\<close> and every value it returns satisfies \<open>Q\<close>.\<close>

definition yields :: "('e \<Rightarrow> bool) \<Rightarrow> ('a \<Rightarrow> bool) \<Rightarrow> ('s, 'e, 'a) action \<Rightarrow> bool" where
  "yields E Q m \<longleftrightarrow> (\<forall>s. case fst (m s) of Inl e \<Rightarrow> E e | Inr x \<Rightarrow> Q x)"

lemma yieldsI: "(\<And>s e t. m s = (Inl e, t) \<Longrightarrow> E e) \<Longrightarrow> (\<And>s x t. m s = (Inr x, t) \<Longrightarrow> Q x) \<Longrightarrow> yields E Q m"
  unfolding yields_def by (metis prod.collapse sum.case_eq_if sum.collapse)

lemma yieldsD: "yields E Q m \<Longrightarrow> m s = (Inr x, t) \<Longrightarrow> Q x"
  by (auto simp: yields_def dest: spec [of _ s])

lemma yieldsE: "yields E Q m \<Longrightarrow> m s = (Inl e, t) \<Longrightarrow> E e"
  by (auto simp: yields_def dest: spec [of _ s])

lemma yields_ret: "Q x \<Longrightarrow> yields E Q (ret x)"
  and yields_throw: "E e \<Longrightarrow> yields E Q' (throw e)"
  and yields_asks: "(\<And>s. R (f s)) \<Longrightarrow> yields E R (asks f)"
  and yields_modify: "V () \<Longrightarrow> yields E V (modify g)"
  and yields_require: "(\<not> b \<Longrightarrow> E e) \<Longrightarrow> V () \<Longrightarrow> yields E V (require b e)"
  by (simp_all add: yields_def run)

lemma yields_bnd: "yields E P m \<Longrightarrow> (\<And>x. P x \<Longrightarrow> yields E Q (f x)) \<Longrightarrow> yields E Q (bnd m f)"
  by (rule yieldsI) (auto simp: bnd_run split: prod.splits sum.splits dest: yieldsD yieldsE)

lemma yields_andthen: "yields E P m \<Longrightarrow> yields E Q k \<Longrightarrow> yields E Q (andthen m k)"
  unfolding andthen_def by (rule yields_bnd)

lemma yields_catch: "yields F Q m \<Longrightarrow> (\<And>e. F e \<Longrightarrow> yields E Q (h e)) \<Longrightarrow> yields E Q (catch m h)"
  by (rule yieldsI) (auto simp: catch_run split: prod.splits sum.splits dest: yieldsD yieldsE)

lemma yields_transaction: "yields E Q m \<Longrightarrow> yields E Q (transaction m)"
  by (rule yieldsI) (auto simp: transaction_run split: prod.splits sum.splits dest: yieldsD yieldsE)

lemma yields_if: "(b \<Longrightarrow> yields E Q m) \<Longrightarrow> (\<not> b \<Longrightarrow> yields E Q k) \<Longrightarrow> yields E Q (if b then m else k)"
  by simp

lemma yields_option: "(z = None \<Longrightarrow> yields E Q m) \<Longrightarrow> (\<And>x. z = Some x \<Longrightarrow> yields E Q (f x)) \<Longrightarrow> yields E Q (case z of None \<Rightarrow> m | Some x \<Rightarrow> f x)"
  by (cases z) auto

abbreviation any :: "'a \<Rightarrow> bool" where "any \<equiv> \<lambda>_. True"

lemmas through = yields_ret yields_throw yields_asks yields_modify yields_require yields_bnd [where P = any] yields_andthen [where P = any] yields_transaction yields_if yields_option

lemma ensuresI: "(\<And>s r s'. P s \<Longrightarrow> m s = (r, s') \<Longrightarrow> Q r s') \<Longrightarrow> ensures P m Q"
  by (simp add: ensures_def)

lemma ensuresD: "ensures P m Q \<Longrightarrow> P s \<Longrightarrow> m s = (r, s') \<Longrightarrow> Q r s'"
  by (auto simp: ensures_def dest!: spec [of _ s])

lemma ensures_bnd:
  assumes "ensures P m R"
    and "\<And>e s. R (Inl e) s \<Longrightarrow> Q (Inl e) s"
    and "\<And>x. ensures (R (Inr x)) (f x) Q"
  shows "ensures P (bnd m f) Q"
  using assms by (fastforce simp: ensures_def bnd_run split: prod.splits sum.splits)

lemma bnd_Inr_iff:
  "bnd m f s = (Inr y, t) \<longleftrightarrow> (\<exists>x u. m s = (Inr x, u) \<and> f x u = (Inr y, t))"
  by (auto simp: bnd_run split: prod.splits sum.splits)

lemma andthen_Inr_iff:
  "andthen m k s = (Inr y, t) \<longleftrightarrow> (\<exists>x u. m s = (Inr x, u) \<and> k u = (Inr y, t))"
  by (simp add: andthen_def bnd_Inr_iff)

lemma ret_Inr_iff: "ret x s = (Inr y, t) \<longleftrightarrow> y = x \<and> t = s"
  by (auto simp: ret_run)

lemma throw_Inr_iff: "throw e s = (Inr y, t) \<longleftrightarrow> False"
  by (simp add: throw_run)

lemma asks_Inr_iff: "asks f s = (Inr y, t) \<longleftrightarrow> y = f s \<and> t = s"
  by (auto simp: asks_run)

lemma modify_Inr_iff: "modify f s = (Inr y, t) \<longleftrightarrow> t = f s"
  by (auto simp: modify_run)

lemma require_Inr_iff: "require b e s = (Inr y, t) \<longleftrightarrow> b \<and> t = s"
  by (auto simp: require_run)

lemmas returns = bnd_Inr_iff andthen_Inr_iff ret_Inr_iff throw_Inr_iff asks_Inr_iff
  modify_Inr_iff require_Inr_iff

subsection \<open>Tables as lists of rows\<close>

definition row_by :: "('r \<Rightarrow> 'k) \<Rightarrow> 'k \<Rightarrow> 'r list \<Rightarrow> 'r option" where
  \<comment> \<open>\<open>session.get(Model, key)\<close>\<close>
  "row_by key k rows = find (\<lambda>r. key r = k) rows"

definition update_where :: "('r \<Rightarrow> bool) \<Rightarrow> ('r \<Rightarrow> 'r) \<Rightarrow> 'r list \<Rightarrow> 'r list" where
  \<comment> \<open>\<open>UPDATE ... WHERE p\<close>, or an ORM write to the rows satisfying \<open>p\<close>\<close>
  "update_where p f rows = map (\<lambda>r. if p r then f r else r) rows"

definition delete_where :: "('r \<Rightarrow> bool) \<Rightarrow> 'r list \<Rightarrow> 'r list" where
  "delete_where p rows = filter (\<lambda>r. \<not> p r) rows"

definition rowcount :: "('r \<Rightarrow> bool) \<Rightarrow> 'r list \<Rightarrow> nat" where
  "rowcount p rows = length (filter p rows)"

lemma row_by_Some: "row_by key k rows = Some r \<Longrightarrow> r \<in> set rows \<and> key r = k"
  by (auto simp: row_by_def find_Some_iff)

lemma row_by_None: "row_by key k rows = None \<longleftrightarrow> k \<notin> key ` set rows"
  by (auto simp: row_by_def find_None_iff)

lemma row_by_unique:
  "distinct (map key rows) \<Longrightarrow> r \<in> set rows \<Longrightarrow> row_by key (key r) rows = Some r"
proof (induction rows)
  case Nil
  then show ?case by simp
next
  case (Cons a rows)
  then show ?case by (cases "key a = key r") (auto simp: row_by_def rev_image_eqI)
qed

lemma set_update_where:
  "x \<in> set (update_where p f rows) \<longleftrightarrow> (\<exists>r \<in> set rows. x = (if p r then f r else r))"
  by (auto simp: update_where_def)

lemma set_delete_where [simp]: "set (delete_where p rows) = {r \<in> set rows. \<not> p r}"
  by (auto simp: delete_where_def)

lemma map_update_where:
  "(\<And>r. r \<in> set rows \<Longrightarrow> p r \<Longrightarrow> g (f r) = g r) \<Longrightarrow> map g (update_where p f rows) = map g rows"
  by (simp add: update_where_def)

lemma length_update_where [simp]: "length (update_where p f rows) = length rows"
  by (simp add: update_where_def)

lemma update_where_Nil [simp]: "update_where p f [] = []"
  by (simp add: update_where_def)

lemma update_where_Cons [simp]:
  "update_where p f (r # rows) = (if p r then f r else r) # update_where p f rows"
  by (simp add: update_where_def)

lemma update_where_none: "(\<And>r. r \<in> set rows \<Longrightarrow> \<not> p r) \<Longrightarrow> update_where p f rows = rows"
  by (induction rows) auto

lemma distinct_delete_where:
  "distinct (map g rows) \<Longrightarrow> distinct (map g (delete_where p rows))"
  by (simp add: delete_where_def distinct_map_filter)

lemma rowcount_zero: "rowcount p rows = 0 \<longleftrightarrow> (\<forall>r \<in> set rows. \<not> p r)"
  by (auto simp: rowcount_def filter_empty_conv)

lemma rowcount_key_le_1:
  assumes "distinct (map key rows)" and "\<And>r. p r \<Longrightarrow> key r = k"
  shows "rowcount p rows \<le> 1"
proof -
  have "distinct (map key (filter p rows))"
    using assms(1) by (rule distinct_map_filter)
  moreover have "set (map key (filter p rows)) \<subseteq> {k}"
    using assms(2) by auto
  ultimately have "card (set (map key (filter p rows))) = length (filter p rows)"
    and "card (set (map key (filter p rows))) \<le> 1"
    by (metis distinct_card length_map, metis card_mono card.empty card_insert_disjoint
        empty_iff finite.emptyI finite.insertI One_nat_def)
  then show ?thesis by (simp add: rowcount_def)
qed

lemma row_by_update_where:
  assumes "\<And>r. key (f r) = key r"
  shows "row_by key k (update_where p f rows) = map_option (\<lambda>r. if p r then f r else r) (row_by key k rows)"
  by (induction rows) (auto simp: row_by_def assms)

lemma row_by_filter: "(\<And>r. r \<in> set rows \<Longrightarrow> key r = k \<Longrightarrow> q r) \<Longrightarrow> row_by key k (filter q rows) = row_by key k rows"
  by (induction rows) (auto simp: row_by_def)

definition put_row :: "('r \<Rightarrow> 'k) \<Rightarrow> 'r \<Rightarrow> 'r list \<Rightarrow> 'r list" where
  \<comment> \<open>flushing a loaded and changed row: it replaces the row with its key\<close>
  "put_row key r rows = update_where (\<lambda>x. key x = key r) (\<lambda>_. r) rows"

lemma put_row_simps [simp]:
  "put_row key r [] = []"
  "put_row key r (x # rows) = (if key x = key r then r else x) # put_row key r rows"
  by (simp_all add: put_row_def)

lemma row_by_put_row [simp]:
  "row_by key k (put_row key r rows) =
     (case row_by key k rows of None \<Rightarrow> None | Some q \<Rightarrow> Some (if key r = k then r else q))"
  by (induction rows) (auto simp: row_by_def)

lemma set_put_row: "x \<in> set (put_row key r rows) \<Longrightarrow> x = r \<or> (x \<in> set rows \<and> key x \<noteq> key r)"
  by (induction rows) (auto split: if_splits)

lemma map_key_put_row [simp]: "map key (put_row key r rows) = map key rows"
  by (induction rows) auto

lemma length_put_row [simp]: "length (put_row key r rows) = length rows"
  by (simp add: put_row_def)

lemma find_append: "find P (xs @ ys) = (case find P xs of None \<Rightarrow> find P ys | Some x \<Rightarrow> Some x)"
  by (induction xs) auto

lemma find_some_mem: "find P xs = Some x \<Longrightarrow> x \<in> set xs \<and> P x"
  by (auto simp: find_Some_iff)

lemma row_by_append:
  "row_by key k (rows @ [r]) = (case row_by key k rows of None \<Rightarrow> (if key r = k then Some r else None) | Some q \<Rightarrow> Some q)"
  by (simp add: row_by_def find_append split: option.split)

lemma row_by_append_new:
  "key r \<notin> key ` set rows \<Longrightarrow> row_by key k (rows @ [r]) = (if key r = k then Some r else row_by key k rows)"
  using row_by_None [of key "key r" rows] by (auto simp: row_by_append split: option.split)

lemma distinct_put_row:
  assumes "distinct (map key rows)" and "distinct (map g rows)"
    and "\<And>x. x \<in> set rows \<Longrightarrow> key x \<noteq> key r \<Longrightarrow> g x \<noteq> g r"
  shows "distinct (map g (put_row key r rows))"
  using assms
proof (induction rows)
  case Nil
  then show ?case by simp
next
  case (Cons a rows)
  have IH: "distinct (map g (put_row key r rows))" using Cons by auto
  have old: "key x \<noteq> key a" "g x \<noteq> g a" if "x \<in> set rows" for x
    using Cons.prems(1,2) that by (auto simp: rev_image_eqI)
  show ?case
  proof (cases "key a = key r")
    case True
    have "put_row key r rows = rows"
      unfolding put_row_def by (rule update_where_none) (use old(1) True in auto)
    moreover have "g x \<noteq> g r" if "x \<in> set rows" for x
      using Cons.prems(3) [of x] old(1) [OF that] that True by simp
    then have "g r \<notin> g ` set rows" by force
    ultimately show ?thesis using IH True by simp
  next
    case False
    then have "g a \<noteq> g r" using Cons.prems(3) [of a] by simp
    then have "g x \<noteq> g a" if "x \<in> set (put_row key r rows)" for x
      using set_put_row [OF that] old(2) by auto
    then have "g a \<notin> g ` set (put_row key r rows)" by (metis imageE)
    with IH False show ?thesis by simp
  qed
qed

lemma map_insort_key: "insort_key g (f x) (map f xs) = map f (insort_key (g \<circ> f) x xs)"
  by (induction xs) auto

lemma map_sort_key: "sort_key g (map f xs) = map f (sort_key (g \<circ> f) xs)"
  by (induction xs) (simp_all add: map_insort_key comp_def)

subsection \<open>Time\<close>

text \<open>
  Instants are microseconds since the epoch in UTC, the resolution of \<open>datetime\<close> and of MySQL
  \<open>DATETIME(6)\<close>. All stored and computed datetimes of the service are UTC, naive or aware,
  and \<open>ensure_utc\<close> and \<open>replace(tzinfo=None)\<close> only change the marker, so both are the
  identity here.
\<close>

type_synonym time = int

definition secs :: "int \<Rightarrow> int" where
  "secs n = n * 1000000"

definition days :: "int \<Rightarrow> int" where
  "days n = n * 86400 * 1000000"

definition is_expired :: "time \<Rightarrow> time \<Rightarrow> bool" where
  "is_expired expires_at now \<longleftrightarrow> expires_at \<le> now"

lemma secs_pos: "0 < n \<Longrightarrow> 0 < secs n"
  by (simp add: secs_def)

lemma secs_mono: "m \<le> n \<Longrightarrow> secs m \<le> secs n"
  by (simp add: secs_def)

subsection \<open>Ordered choice\<close>

text \<open>
  \<open>ORDER BY key LIMIT 1\<close>: the first row, in list order, among those with the least key.
\<close>

fun least_by :: "('r \<Rightarrow> 'k::linorder) \<Rightarrow> 'r list \<Rightarrow> 'r option" where
  "least_by key [] = None"
| "least_by key (r # rows) =
     (case least_by key rows of None \<Rightarrow> Some r | Some q \<Rightarrow> Some (if key q < key r then q else r))"

lemma least_by_None [simp]: "least_by key rows = None \<longleftrightarrow> rows = []"
  by (cases rows) (auto split: option.splits)

lemma least_by_mem: "least_by key rows = Some r \<Longrightarrow> r \<in> set rows"
  by (induction rows arbitrary: r) (auto split: option.splits if_splits)

lemma least_by_least: "least_by key rows = Some r \<Longrightarrow> q \<in> set rows \<Longrightarrow> key r \<le> key q"
proof (induction rows arbitrary: r)
  case Nil
  then show ?case by simp
next
  case (Cons a rows)
  show ?case
  proof (cases "least_by key rows")
    case None
    with Cons.prems show ?thesis by auto
  next
    case (Some m)
    have "key m \<le> key q" if "q \<in> set rows" using Cons.IH [OF Some that] .
    with Cons.prems Some show ?thesis by (auto split: if_splits)
  qed
qed

end
