(* ===== verification/PollCapacity.thy ===== *)
theory PollCapacity
  imports Prelude
begin

text \<open>
  \<open>mailbox_service/verification_poll_capacity.py\<close>: in-process admission of verification-code
  long polls by a global semaphore and two dictionaries of active polls, per client and per
  lease. The context manager \<open>acquire_verification_poll_slot\<close> is split at its \<open>yield\<close>:
  \<open>poll_enter\<close> is the part before it, with the \<open>finally\<close> block that also runs when the
  admission itself raises, and \<open>poll_leave\<close> is the \<open>finally\<close> block of an admitted poll.
\<close>

subsection \<open>Counting dictionaries\<close>

definition active :: "(string \<rightharpoonup> nat) \<Rightarrow> string \<Rightarrow> nat" where
  \<comment> \<open>\<open>counts.get(key, 0)\<close>\<close>
  "active counts k = (case counts k of None \<Rightarrow> 0 | Some n \<Rightarrow> n)"

definition count_up :: "string \<Rightarrow> (string \<rightharpoonup> nat) \<Rightarrow> (string \<rightharpoonup> nat)" where
  "count_up k counts = counts(k \<mapsto> active counts k + 1)"

definition count_down :: "string \<Rightarrow> (string \<rightharpoonup> nat) \<Rightarrow> (string \<rightharpoonup> nat)" where
  "count_down k counts =
     (if active counts k \<le> 1 then counts(k := None) else counts(k \<mapsto> active counts k - 1))"

text \<open>The contract of a counting dictionary, and what any client of it may rely on.\<close>

locale tally =
  fixes cnt :: "'s \<Rightarrow> 'k \<Rightarrow> nat" and up :: "'k \<Rightarrow> 's \<Rightarrow> 's" and down :: "'k \<Rightarrow> 's \<Rightarrow> 's"
  assumes cnt_up: "cnt (up k s) j = (if j = k then cnt s j + 1 else cnt s j)"
    and cnt_down: "cnt (down k s) j = (if j = k then cnt s j - 1 else cnt s j)"
begin

lemma cnt_down_up: "cnt (down k (up k s)) j = cnt s j"
  by (simp add: cnt_up cnt_down)

lemma up_tracks:
  "\<lbrakk>\<And>j. cnt s j = count_list hs j\<rbrakk> \<Longrightarrow> cnt (up k s) j = count_list (k # hs) j"
  by (simp add: cnt_up)

lemma count_list_remove1: "count_list (remove1 k hs) j = (if j = k then count_list hs j - 1 else count_list hs j)"
  by (induction hs) (auto simp: count_list_0_iff)

lemma down_tracks:
  "\<lbrakk>\<And>j. cnt s j = count_list hs j\<rbrakk> \<Longrightarrow> cnt (down k s) j = count_list (remove1 k hs) j"
  by (simp add: cnt_down count_list_remove1)

lemma up_below:
  assumes "\<And>j. cnt s j \<le> count_list hs j"
  shows "cnt (up k s) j \<le> count_list (k # hs) j"
  using assms [of j] by (cases "j = k") (simp_all add: cnt_up)

lemma down_below:
  "\<lbrakk>\<And>j. cnt s j \<le> count_list hs j\<rbrakk> \<Longrightarrow> cnt (down k s) j \<le> count_list (remove1 k hs) j"
  by (simp add: cnt_down count_list_remove1 diff_le_mono)

lemma down_alone_below:
  assumes "\<And>j. cnt s j \<le> count_list hs j"
  shows "cnt (down k s) j \<le> count_list hs j"
  using assms [of j] by (cases "j = k") (simp_all add: cnt_down)

end

interpretation dict: tally active count_up count_down
  by unfold_locales (auto simp: active_def count_up_def count_down_def split: option.splits)

subsection \<open>The shared buckets and their operations\<close>

record buckets =
  permits :: nat                      \<comment> \<open>free permits of \<open>global_semaphore\<close>\<close>
  per_client_limit :: nat
  per_lease_limit :: nat
  per_client_counts :: "string \<rightharpoonup> nat"
  per_lease_counts :: "string \<rightharpoonup> nat"

datatype poll_scope = GlobalScope | ClientScope | LeaseScope

definition get_capacity :: "nat \<Rightarrow> nat \<Rightarrow> nat \<Rightarrow> buckets option \<Rightarrow> buckets" where
  \<comment> \<open>the first use builds the buckets from the settings; later settings are ignored\<close>
  "get_capacity max_global per_client per_lease cap =
     (case cap of
        None \<Rightarrow> \<lparr>permits = max_global, per_client_limit = per_client, per_lease_limit = per_lease,
                 per_client_counts = Map.empty, per_lease_counts = Map.empty\<rparr>
      | Some b \<Rightarrow> b)"

definition poll_leave :: "string \<Rightarrow> string \<Rightarrow> buckets \<Rightarrow> buckets" where
  "poll_leave client lease b =
     b\<lparr>per_client_counts := count_down client (per_client_counts b),
       per_lease_counts := count_down lease (per_lease_counts b),
       permits := permits b + 1\<rparr>"

definition poll_enter :: "string \<Rightarrow> string \<Rightarrow> (buckets, poll_scope, unit) action" where
  "poll_enter client lease b =
     (if permits b = 0 then (Inl GlobalScope, b)
      else let b1 = b\<lparr>permits := permits b - 1\<rparr>
           in if per_client_limit b1 \<le> active (per_client_counts b1) client
              then (Inl ClientScope, poll_leave client lease b1)
              else if per_lease_limit b1 \<le> active (per_lease_counts b1) lease
              then (Inl LeaseScope, poll_leave client lease b1)
              else (Inr (),
                b1\<lparr>per_client_counts := count_up client (per_client_counts b1),
                   per_lease_counts := count_up lease (per_lease_counts b1)\<rparr>))"

subsection \<open>The system: buckets and the polls in progress\<close>

record poll_system =
  caps :: buckets
  polls :: "(string \<times> string) list"   \<comment> \<open>client and lease of every admitted poll\<close>

inductive poll_step :: "poll_system \<Rightarrow> poll_system \<Rightarrow> bool" where
  admitted: "poll_enter c l (caps s) = (Inr (), b) \<Longrightarrow> poll_step s \<lparr>caps = b, polls = (c, l) # polls s\<rparr>"
| denied: "poll_enter c l (caps s) = (Inl e, b) \<Longrightarrow> poll_step s \<lparr>caps = b, polls = polls s\<rparr>"
| finished: "(c, l) \<in> set (polls s) \<Longrightarrow>
     poll_step s \<lparr>caps = poll_leave c l (caps s), polls = remove1 (c, l) (polls s)\<rparr>"

inductive poll_reachable :: "nat \<Rightarrow> nat \<Rightarrow> nat \<Rightarrow> poll_system \<Rightarrow> bool" for g pc pl where
  initial: "poll_reachable g pc pl \<lparr>caps = get_capacity g pc pl None, polls = []\<rparr>"
| onward: "poll_reachable g pc pl s \<Longrightarrow> poll_step s t \<Longrightarrow> poll_reachable g pc pl t"

inductive_cases poll_stepE: "poll_step s t"

lemmas poll_defs = poll_enter_def poll_leave_def get_capacity_def

lemma poll_enter_admits:
  "poll_enter c l b = (Inr (), b') \<longleftrightarrow>
     0 < permits b \<and> active (per_client_counts b) c < per_client_limit b
     \<and> active (per_lease_counts b) l < per_lease_limit b
     \<and> b' = b\<lparr>permits := permits b - 1, per_client_counts := count_up c (per_client_counts b),
              per_lease_counts := count_up l (per_lease_counts b)\<rparr>"
  by (auto simp: poll_enter_def Let_def)

lemma poll_enter_limits:
  "per_client_limit (snd (poll_enter c l b)) = per_client_limit b"
  "per_lease_limit (snd (poll_enter c l b)) = per_lease_limit b"
  by (auto simp: poll_defs Let_def)

lemma poll_enter_denied_permits: "poll_enter c l b = (Inl e, b') \<Longrightarrow> permits b' = permits b"
  by (auto simp: poll_defs Let_def split: if_splits)

definition poll_inv :: "nat \<Rightarrow> nat \<Rightarrow> nat \<Rightarrow> poll_system \<Rightarrow> bool" where
  "poll_inv g pc pl s \<longleftrightarrow>
     permits (caps s) + length (polls s) = g
     \<and> per_client_limit (caps s) = pc \<and> per_lease_limit (caps s) = pl
     \<and> (\<forall>c. active (per_client_counts (caps s)) c \<le> count_list (map fst (polls s)) c)
     \<and> (\<forall>l. active (per_lease_counts (caps s)) l \<le> count_list (map snd (polls s)) l)"

lemma count_map_remove1:
  "x \<in> set xs \<Longrightarrow> count_list (map f (remove1 x xs)) j = count_list (remove1 (f x) (map f xs)) j"
proof (induction xs)
  case (Cons a xs)
  then have "f x \<in> set (map f xs)" if "x \<noteq> a" using that by auto
  then have "count_list (map f xs) (f x) \<noteq> 0" if "x \<noteq> a" using that by (simp add: count_list_0_iff)
  then show ?case using Cons by (auto simp: dict.count_list_remove1)
qed simp

lemma length_remove1_add: "x \<in> set xs \<Longrightarrow> Suc (length (remove1 x xs)) = length xs"
  by (simp add: length_remove1) (metis Suc_pred length_pos_if_in_set)

lemma poll_leave_below:
  assumes "\<forall>c. active (per_client_counts b) c \<le> count_list cs c"
    and "\<forall>l. active (per_lease_counts b) l \<le> count_list ls l"
  shows "active (per_client_counts (poll_leave x y b)) c \<le> count_list (remove1 x cs) c"
    and "active (per_lease_counts (poll_leave x y b)) l \<le> count_list (remove1 y ls) l"
    and "active (per_client_counts (poll_leave x y b)) c \<le> count_list cs c"
    and "active (per_lease_counts (poll_leave x y b)) l \<le> count_list ls l"
  using assms dict.down_below [of "per_client_counts b" cs x c] dict.down_alone_below [of "per_client_counts b" cs x c]
    dict.down_below [of "per_lease_counts b" ls y l] dict.down_alone_below [of "per_lease_counts b" ls y l]
  by (simp_all add: poll_leave_def)

lemma poll_step_inv: "poll_step s t \<Longrightarrow> poll_inv g pc pl s \<Longrightarrow> poll_inv g pc pl t"
proof (induction rule: poll_step.induct)
  case (admitted c l s b)
  then show ?case
    by (auto simp: poll_inv_def poll_enter_admits dict.cnt_up intro: le_SucI)
next
  case (denied c l s e b)
  then show ?case
    using poll_leave_below [of "(caps s)\<lparr>permits := permits (caps s) - 1\<rparr>" "map fst (polls s)" "map snd (polls s)"]
    by (auto simp: poll_inv_def poll_enter_def Let_def poll_leave_def split: if_splits)
next
  case (finished c l s)
  have "permits (poll_leave c l (caps s)) + length (remove1 (c, l) (polls s)) = g"
    using finished length_remove1_add [OF finished.hyps] by (auto simp: poll_inv_def poll_leave_def)
  then show ?case
    using finished.prems poll_leave_below [of "caps s" "map fst (polls s)" "map snd (polls s)"]
    by (auto simp: poll_inv_def count_map_remove1 [OF finished.hyps] poll_leave_def)
qed

lemma poll_reachable_inv: "poll_reachable g pc pl s \<Longrightarrow> poll_inv g pc pl s"
proof (induction rule: poll_reachable.induct)
  case initial
  show ?case by (simp add: poll_inv_def get_capacity_def active_def)
next
  case (onward s t)
  then show ?case by (blast intro: poll_step_inv)
qed

subsection \<open>Properties\<close>

text \<open>Introduction rules for concrete systems, with the successor given by its fields.\<close>

lemma reach_admitted:
  "\<lbrakk>poll_reachable g pc pl s; poll_enter c l (caps s) = (Inr (), caps t); polls t = (c, l) # polls s\<rbrakk>
     \<Longrightarrow> poll_reachable g pc pl (t :: poll_system)"
  using poll_reachable.onward poll_step.admitted by (metis poll_system.surjective old.unit.exhaust)

lemma reach_denied:
  "\<lbrakk>poll_reachable g pc pl s; poll_enter c l (caps s) = (Inl e, caps t); polls t = polls s\<rbrakk>
     \<Longrightarrow> poll_reachable g pc pl (t :: poll_system)"
  using poll_reachable.onward poll_step.denied by (metis poll_system.surjective old.unit.exhaust)

text \<open>
  C40. The global limit holds in every interleaving of admissions, denials and completions: the
  polls in progress never exceed \<open>mail_poll_max_concurrency\<close>, and no permit is lost or
  created.
\<close>

theorem poll_global_bound:
  assumes "poll_reachable g pc pl s"
  shows "length (polls s) \<le> g \<and> permits (caps s) = g - length (polls s)"
  using poll_reachable_inv [OF assms] by (auto simp: poll_inv_def)

lemma poll_two_reachable:
  "poll_reachable 2 1 5 \<lparr>caps = \<lparr>permits = 1, per_client_limit = 1, per_lease_limit = 5,
     per_client_counts = [''k'' \<mapsto> 1], per_lease_counts = [''a'' \<mapsto> 1]\<rparr>, polls = [(''k'', ''a'')]\<rparr>"
  by (rule reach_admitted [OF poll_reachable.initial])
    (simp_all add: poll_enter_admits get_capacity_def active_def count_up_def)

theorem poll_global_bound_witness:
  "poll_reachable 2 1 5 \<lparr>caps = \<lparr>permits = 1, per_client_limit = 1, per_lease_limit = 5,
     per_client_counts = [''k'' \<mapsto> 1], per_lease_counts = [''a'' \<mapsto> 1]\<rparr>, polls = [(''k'', ''a'')]\<rparr>
   \<and> length [(''k'', ''a'')] \<le> 2"
  using poll_two_reachable poll_global_bound [OF poll_two_reachable] by simp

text \<open>
  A denial is never spurious: a poll refused for its client or its lease finds at least the
  configured number of polls of that client or lease in progress.
\<close>

theorem poll_denial_sound:
  assumes "poll_reachable g pc pl s" and "poll_enter c l (caps s) = (Inl e, b)"
  shows "case e of GlobalScope \<Rightarrow> length (polls s) = g
     | ClientScope \<Rightarrow> pc \<le> count_list (map fst (polls s)) c
     | LeaseScope \<Rightarrow> pl \<le> count_list (map snd (polls s)) l"
proof -
  have inv: "poll_inv g pc pl s" using assms(1) by (rule poll_reachable_inv)
  then have "active (per_client_counts (caps s)) c \<le> count_list (map fst (polls s)) c"
    and "active (per_lease_counts (caps s)) l \<le> count_list (map snd (polls s)) l"
    by (auto simp: poll_inv_def)
  then show ?thesis
    using inv assms(2)
    by (auto simp: poll_inv_def poll_enter_def Let_def split: if_splits intro: le_trans)
qed

theorem poll_denial_sound_witness:
  "poll_enter ''k'' ''b'' \<lparr>permits = 1, per_client_limit = 1, per_lease_limit = 5,
      per_client_counts = [''k'' \<mapsto> 1], per_lease_counts = [''a'' \<mapsto> 1]\<rparr>
     = (Inl ClientScope, \<lparr>permits = 1, per_client_limit = 1, per_lease_limit = 5,
          per_client_counts = Map.empty, per_lease_counts = [''a'' \<mapsto> 1]\<rparr>)
   \<and> 1 \<le> count_list (map fst [(''k'', ''a'')]) ''k''"
proof -
  have e: "poll_enter ''k'' ''b'' \<lparr>permits = 1, per_client_limit = 1, per_lease_limit = 5,
      per_client_counts = [''k'' \<mapsto> 1], per_lease_counts = [''a'' \<mapsto> 1]\<rparr>
     = (Inl ClientScope, \<lparr>permits = 1, per_client_limit = 1, per_lease_limit = 5,
          per_client_counts = Map.empty, per_lease_counts = [''a'' \<mapsto> 1]\<rparr>)"
    by (simp add: poll_enter_def poll_leave_def active_def count_down_def fun_eq_iff)
  show ?thesis
    using e poll_denial_sound [OF poll_two_reachable, of "''k''" "''b''" ClientScope] by simp
qed

text \<open>
  The per-client limit is not a bound on the polls of a client. The \<open>finally\<close> block runs
  for a denied poll too and decrements a count the poll never incremented, so one refused attempt
  frees a slot that is still in use: with a limit of one, two polls of one client are in progress
  after an admission, a denial and a second admission.
\<close>

theorem poll_client_limit_bypassed:
  "\<exists>s. poll_reachable 2 1 5 s \<and> count_list (map fst (polls s)) ''k'' = 2"
proof -
  have d: "poll_reachable 2 1 5 \<lparr>caps = \<lparr>permits = 1, per_client_limit = 1, per_lease_limit = 5,
     per_client_counts = Map.empty, per_lease_counts = [''a'' \<mapsto> 1]\<rparr>, polls = [(''k'', ''a'')]\<rparr>"
    by (rule reach_denied [OF poll_two_reachable, where c = "''k''" and l = "''b''" and e = ClientScope])
      (simp_all add: poll_enter_def poll_leave_def active_def count_down_def fun_eq_iff)
  have "poll_reachable 2 1 5 \<lparr>caps = \<lparr>permits = 0, per_client_limit = 1, per_lease_limit = 5,
     per_client_counts = [''k'' \<mapsto> 1], per_lease_counts = [''a'' \<mapsto> 1, ''b'' \<mapsto> 1]\<rparr>,
     polls = [(''k'', ''b''), (''k'', ''a'')]\<rparr>"
    by (rule reach_admitted [OF d, where c = "''k''" and l = "''b''"])
      (simp_all add: poll_enter_admits active_def count_up_def fun_eq_iff)
  then show ?thesis by (auto intro!: exI)
qed

inductive quiet_reachable :: "nat \<Rightarrow> nat \<Rightarrow> nat \<Rightarrow> poll_system \<Rightarrow> bool" for g pc pl where
  quiet_initial: "quiet_reachable g pc pl \<lparr>caps = get_capacity g pc pl None, polls = []\<rparr>"
| quiet_admitted: "quiet_reachable g pc pl s \<Longrightarrow> poll_enter c l (caps s) = (Inr (), b) \<Longrightarrow>
     quiet_reachable g pc pl \<lparr>caps = b, polls = (c, l) # polls s\<rparr>"
| quiet_finished: "quiet_reachable g pc pl s \<Longrightarrow> (c, l) \<in> set (polls s) \<Longrightarrow>
     quiet_reachable g pc pl \<lparr>caps = poll_leave c l (caps s), polls = remove1 (c, l) (polls s)\<rparr>"

definition counts_exact :: "poll_system \<Rightarrow> bool" where
  "counts_exact s \<longleftrightarrow>
     (\<forall>c. active (per_client_counts (caps s)) c = count_list (map fst (polls s)) c)
     \<and> (\<forall>l. active (per_lease_counts (caps s)) l = count_list (map snd (polls s)) l)"

lemma quiet_exact:
  "quiet_reachable g pc pl s \<Longrightarrow> counts_exact s
     \<and> per_client_limit (caps s) = pc \<and> per_lease_limit (caps s) = pl
     \<and> (\<forall>c. active (per_client_counts (caps s)) c \<le> pc)
     \<and> (\<forall>l. active (per_lease_counts (caps s)) l \<le> pl)"
proof (induction rule: quiet_reachable.induct)
  case quiet_initial
  show ?case by (simp add: counts_exact_def get_capacity_def active_def)
next
  case (quiet_admitted s c l b)
  then show ?case
    by (auto simp: counts_exact_def poll_enter_admits dict.cnt_up)
next
  case (quiet_finished s c l)
  have "active (count_down k d) j \<le> n" if "\<forall>j. active d j \<le> n" for k d j n
    using spec [OF that, of j] by (cases "j = k") (simp_all add: dict.cnt_down)
  then have "active (per_client_counts (poll_leave c l (caps s))) j \<le> pc"
    and "active (per_lease_counts (poll_leave c l (caps s))) j \<le> pl" for j
    using quiet_finished.IH by (simp_all add: poll_leave_def)
  then show ?case
    using quiet_finished
    by (auto simp: counts_exact_def count_map_remove1 [OF quiet_finished.hyps(2)] poll_leave_def dict.down_tracks)
qed

text \<open>
  The limits do hold as long as no poll is denied: over admissions and completions only, both
  dictionaries count the polls in progress exactly, and no client or lease exceeds its limit.
\<close>

theorem poll_limits_without_denials:
  assumes "quiet_reachable g pc pl s"
  shows "counts_exact s \<and> count_list (map fst (polls s)) c \<le> pc \<and> count_list (map snd (polls s)) l \<le> pl"
  using quiet_exact [OF assms] by (auto simp: counts_exact_def)

theorem poll_limits_without_denials_witness:
  "counts_exact \<lparr>caps = \<lparr>permits = 1, per_client_limit = 1, per_lease_limit = 5,
     per_client_counts = [''k'' \<mapsto> 1], per_lease_counts = [''a'' \<mapsto> 1]\<rparr>, polls = [(''k'', ''a'')]\<rparr>"
proof -
  have "quiet_reachable 2 1 5 \<lparr>caps = \<lparr>permits = 1, per_client_limit = 1, per_lease_limit = 5,
     per_client_counts = [''k'' \<mapsto> 1], per_lease_counts = [''a'' \<mapsto> 1]\<rparr>, polls = [(''k'', ''a'')]\<rparr>"
    by (rule quiet_admitted [OF quiet_initial, where c = "''k''" and l = "''a''", simplified poll_system.simps])
      (simp add: poll_enter_admits get_capacity_def active_def count_up_def)
  from poll_limits_without_denials [OF this] show ?thesis by blast
qed

end
