(* ===== verification/Deadline.thy ===== *)
theory Deadline
  imports Complex_Main Prelude
begin

text \<open>
  \<open>mailbox_service/operation_deadline.py\<close>: a deadline on the monotonic clock. Clock readings
  and timeouts are real numbers (the rounding of Python floats is not modelled); the \<open>clock\<close>
  argument of every method is the reading it returns, \<open>clk\<close>.
\<close>

record deadline =
  deadline_monotonic :: real
  started_monotonic :: real

datatype deadline_error = NegativeTimeout | NonPositiveTimeout | DeadlineExceeded

definition from_timeout_seconds :: "real \<Rightarrow> real \<Rightarrow> deadline_error + deadline" where
  "from_timeout_seconds timeout clk =
     (if timeout < 0 then Inl NegativeTimeout
      else Inr \<lparr>deadline_monotonic = clk + timeout, started_monotonic = clk\<rparr>)"

definition remaining_seconds :: "deadline \<Rightarrow> real \<Rightarrow> real" where
  "remaining_seconds d clk = max 0 (deadline_monotonic d - clk)"

definition deadline_is_expired :: "deadline \<Rightarrow> real \<Rightarrow> bool" where
  "deadline_is_expired d clk \<longleftrightarrow> deadline_monotonic d \<le> clk"

definition elapsed_seconds :: "deadline \<Rightarrow> real \<Rightarrow> real" where
  "elapsed_seconds d clk = max 0 (clk - started_monotonic d)"

definition bounded_timeout_seconds :: "deadline \<Rightarrow> real \<Rightarrow> real \<Rightarrow> real \<Rightarrow> deadline_error + real" where
  "bounded_timeout_seconds d configured minimum clk =
     (if configured \<le> 0 then Inl NonPositiveTimeout
      else let remaining = remaining_seconds d clk
           in if remaining \<le> 0 then Inl DeadlineExceeded
              else let bounded = min configured remaining
                   in if bounded < minimum then Inl DeadlineExceeded else Inr bounded)"

definition default_minimum_seconds :: real where
  "default_minimum_seconds = 5 / 100"

definition raise_if_expired :: "deadline \<Rightarrow> real \<Rightarrow> deadline_error + unit" where
  "raise_if_expired d clk = (if deadline_is_expired d clk then Inl DeadlineExceeded else Inr ())"

lemmas deadline_defs = from_timeout_seconds_def remaining_seconds_def deadline_is_expired_def
  elapsed_seconds_def bounded_timeout_seconds_def raise_if_expired_def

lemma remaining_zero_iff: "remaining_seconds d clk = 0 \<longleftrightarrow> deadline_is_expired d clk"
  by (auto simp: deadline_defs)

lemma bounded_Inr_iff:
  "bounded_timeout_seconds d c m clk = Inr t \<longleftrightarrow>
     0 < c \<and> clk < deadline_monotonic d \<and> t = min c (deadline_monotonic d - clk) \<and> m \<le> t"
  by (auto simp: deadline_defs Let_def max_def min_def)

text \<open>
  A loop that reads the clock, asks for a bounded timeout and then blocks for at most that long,
  as the polling code does: the clock readings of its iterations.
\<close>

fun waits_from :: "deadline \<Rightarrow> real \<Rightarrow> real \<Rightarrow> real \<Rightarrow> real list \<Rightarrow> bool" where
  "waits_from d c m clk [] = True"
| "waits_from d c m clk (w # ws) =
     (case bounded_timeout_seconds d c m clk of
        Inl _ \<Rightarrow> False
      | Inr t \<Rightarrow> 0 \<le> w \<and> w \<le> t \<and> waits_from d c m (clk + w) ws)"

lemma waits_sum:
  "waits_from d c m clk ws \<Longrightarrow> clk \<le> deadline_monotonic d \<Longrightarrow> clk + sum_list ws \<le> deadline_monotonic d"
proof (induction ws arbitrary: clk)
  case Nil
  then show ?case by simp
next
  case (Cons w ws)
  then obtain t where t: "bounded_timeout_seconds d c m clk = Inr t" "w \<le> t"
    and rest: "waits_from d c m (clk + w) ws"
    by (auto split: sum.splits)
  then have "clk + w \<le> deadline_monotonic d" by (auto simp: bounded_Inr_iff)
  then have "(clk + w) + sum_list ws \<le> deadline_monotonic d" by (rule Cons.IH [OF rest])
  then show ?case by (simp add: add.assoc)
qed

text \<open>
  A timeout handed to a network call never outlives the deadline: if every wait of a loop
  takes at most the bounded timeout it was given, the whole loop ends within the time the
  deadline was created with.
\<close>

theorem bounded_waits_within_deadline:
  assumes "from_timeout_seconds timeout clk = Inr d" and "waits_from d c m clk ws"
  shows "sum_list ws \<le> timeout \<and> elapsed_seconds d (clk + sum_list ws) \<le> timeout"
proof -
  have d: "d = \<lparr>deadline_monotonic = clk + timeout, started_monotonic = clk\<rparr>" and "0 \<le> timeout"
    using assms(1) by (auto simp: deadline_defs split: if_splits)
  then have "clk + sum_list ws \<le> clk + timeout"
    using waits_sum [OF assms(2)] by simp
  then show ?thesis using d \<open>0 \<le> timeout\<close> by (simp add: elapsed_seconds_def)
qed

theorem bounded_waits_within_deadline_witness:
  "from_timeout_seconds 10 100 = Inr \<lparr>deadline_monotonic = 110, started_monotonic = 100\<rparr>
   \<and> waits_from \<lparr>deadline_monotonic = 110, started_monotonic = 100\<rparr> 4 (1/20) 100 [4, 4, 2]
   \<and> sum_list [4, 4, 2 :: real] \<le> 10"
proof -
  have 1: "from_timeout_seconds 10 100 = Inr \<lparr>deadline_monotonic = 110, started_monotonic = 100\<rparr>"
    by (simp add: deadline_defs)
  have 2: "waits_from \<lparr>deadline_monotonic = 110, started_monotonic = 100\<rparr> 4 (1/20) 100 [4, 4, 2]"
    by (simp add: deadline_defs)
  show ?thesis using 1 2 bounded_waits_within_deadline [OF 1 2] by blast
qed

text \<open>
  The bounded timeout is exact on every branch: it is refused for a non-positive configured
  timeout, refused once the deadline has passed or less than the minimum is left, and is
  otherwise the smaller of the configured timeout and the time remaining, which is positive and at
  least the minimum.
\<close>

theorem bounded_timeout_cases:
  "bounded_timeout_seconds d c m clk =
     (if c \<le> 0 then Inl NonPositiveTimeout
      else if deadline_is_expired d clk \<or> min c (deadline_monotonic d - clk) < m then Inl DeadlineExceeded
      else Inr (min c (deadline_monotonic d - clk)))"
  by (auto simp: deadline_defs Let_def max_def min_def)

end
