(* ===== verification/TxRetry.thy ===== *)
theory TxRetry
  imports Complex_Main Prelude
begin

text \<open>
  \<open>mailbox_service/transaction_retry.py\<close>: replaying a short transaction on the MySQL errors
  1205 (lock wait timeout) and 1213 (deadlock). An exception is a node of an object graph: its
  \<open>args\<close>, the wrapped driver error \<open>orig\<close> and its \<open>__cause__\<close>, each a reference
  into the list of exception objects; references may form a cycle.
\<close>

subsection \<open>Finding the MySQL error code\<close>

datatype pyarg = ArgInt int | ArgSeq "pyarg list" | ArgOther

record exn_obj =
  exn_args :: "pyarg list"
  exn_orig :: "nat option"     \<comment> \<open>\<open>orig\<close>, when it is an exception\<close>
  exn_cause :: "nat option"    \<comment> \<open>\<open>__cause__\<close>\<close>

definition code_of_args :: "pyarg list \<Rightarrow> int option" where
  "code_of_args args =
     (case args of
        ArgInt n # _ \<Rightarrow> Some n
      | ArgSeq (ArgInt n # _) # _ \<Rightarrow> Some n
      | _ \<Rightarrow> None)"

function extract_from :: "exn_obj list \<Rightarrow> nat list \<Rightarrow> nat option \<Rightarrow> int option" where
  "extract_from heap visited cur =
     (case cur of
        None \<Rightarrow> None
      | Some i \<Rightarrow>
          if i \<in> set visited \<or> length heap \<le> i then None
          else (case code_of_args (exn_args (heap ! i)) of
                  Some n \<Rightarrow> Some n
                | None \<Rightarrow>
                    (case exn_orig (heap ! i) of
                       Some j \<Rightarrow> extract_from heap (i # visited) (Some j)
                     | None \<Rightarrow> extract_from heap (i # visited) (exn_cause (heap ! i)))))"
  by pat_completeness auto
termination
proof (relation "measure (\<lambda>(heap, visited, cur). card ({..<length heap} - set visited))")
  have less: "card ({..<n} - insert i (set v)) < card ({..<n} - set v)"
    if "\<not> (i \<in> set v \<or> n \<le> i)" for n :: nat and i v
  proof (rule psubset_card_mono)
    have "i \<in> {..<n} - set v" and "i \<notin> {..<n} - insert i (set v)" using that by auto
    then show "{..<n} - insert i (set v) \<subset> {..<n} - set v" by blast
  qed simp
  show "((heap, i # visited, Some j), heap, visited, cur)
      \<in> measure (\<lambda>(heap, visited, cur). card ({..<length heap} - set visited))"
    if "\<not> (i \<in> set visited \<or> length heap \<le> i)"
    for heap :: "exn_obj list" and visited cur i and j
    using less [OF that] by simp
  show "((heap, i # visited, exn_cause (heap ! i)), heap, visited, cur)
      \<in> measure (\<lambda>(heap, visited, cur). card ({..<length heap} - set visited))"
    if "\<not> (i \<in> set visited \<or> length heap \<le> i)"
    for heap :: "exn_obj list" and visited cur i
    using less [OF that] by simp
qed simp

declare extract_from.simps [simp del]

definition extract_mysql_error_code :: "exn_obj list \<Rightarrow> nat \<Rightarrow> int option" where
  "extract_mysql_error_code heap error = extract_from heap [] (Some error)"

definition retryable_mysql_error_codes :: "int list" where
  "retryable_mysql_error_codes = [1205, 1213]"

definition is_retryable_code :: "int option \<Rightarrow> bool" where
  \<comment> \<open>\<open>mysql_error_code in RETRYABLE_MYSQL_ERROR_CODES\<close>\<close>
  "is_retryable_code c = (case c of None \<Rightarrow> False | Some n \<Rightarrow> n \<in> set retryable_mysql_error_codes)"

definition is_retryable_mysql_lock_error :: "exn_obj list \<Rightarrow> nat \<Rightarrow> bool" where
  \<comment> \<open>both branches of the \<open>isinstance\<close> test compute the same value\<close>
  "is_retryable_mysql_lock_error heap error = is_retryable_code (extract_mysql_error_code heap error)"

lemma is_retryable_code_iff: "is_retryable_code c \<longleftrightarrow> c = Some 1205 \<or> c = Some 1213"
  by (auto simp: is_retryable_code_def retryable_mysql_error_codes_def split: option.splits)

subsection \<open>The retry loop\<close>

text \<open>
  The operation is an action on the database; its argument is the number of the attempt, which
  stands for what the other sessions hold locked at that moment. Its errors carry the code that
  \<open>extract_mysql_error_code\<close> finds in them, \<open>code_of\<close>. The random jitter of each attempt is
  the parameter \<open>jitter\<close>; the delays slept are collected.
\<close>

datatype 'e retry_error = BadMaxAttempts | BackoffIndexError | RetryExhausted "int option" nat 'e | Reraised 'e

function retry_from ::
    "('e \<Rightarrow> int option) \<Rightarrow> nat \<Rightarrow> real list \<Rightarrow> (nat \<Rightarrow> real) \<Rightarrow> (nat \<Rightarrow> ('s, 'e, 'a) action)
      \<Rightarrow> nat \<Rightarrow> real list \<Rightarrow> 's \<Rightarrow> ('e retry_error + 'a) \<times> 's \<times> real list" where
  "retry_from code_of max_attempts backoff jitter oper attempt_index slept s =
     (case oper (Suc attempt_index) s of
        (Inr x, s') \<Rightarrow> (Inr x, s', slept)
      | (Inl e, s') \<Rightarrow>
          if \<not> is_retryable_code (code_of e) \<or> max_attempts \<le> Suc attempt_index
          then (if is_retryable_code (code_of e)
                then (Inl (RetryExhausted (code_of e) (Suc attempt_index) e), s', slept)
                else (Inl (Reraised e), s', slept))
          else if backoff = [] then (Inl BackoffIndexError, s', slept)
          else retry_from code_of max_attempts backoff jitter oper (Suc attempt_index)
                 (slept @ [backoff ! min attempt_index (length backoff - 1) + jitter (Suc attempt_index)]) s')"
  by pat_completeness auto
termination
  by (relation "measure (\<lambda>(_, max_attempts, _, _, _, attempt_index, _, _). max_attempts - attempt_index)")
    auto

declare retry_from.simps [simp del]

definition run_with_mysql_lock_retry ::
    "('e \<Rightarrow> int option) \<Rightarrow> nat \<Rightarrow> real list \<Rightarrow> (nat \<Rightarrow> real) \<Rightarrow> (nat \<Rightarrow> ('s, 'e, 'a) action)
      \<Rightarrow> 's \<Rightarrow> ('e retry_error + 'a) \<times> 's \<times> real list" where
  "run_with_mysql_lock_retry code_of max_attempts backoff jitter oper s =
     (if max_attempts < 1 then (Inl BadMaxAttempts, s, [])
      else retry_from code_of max_attempts backoff jitter oper 0 [] s)"

definition default_backoff :: "real list" where
  "default_backoff = [25/1000, 75/1000, 225/1000]"

definition default_max_attempts :: nat where
  "default_max_attempts = 3"

text \<open>
  The contract the callable must meet (\<open>"commit or roll back completely"\<close>): an attempt that
  raises leaves the database as it found it. Under it the loop as a whole is one attempt.
\<close>

locale atomic_attempts =
  fixes oper :: "nat \<Rightarrow> ('s, 'e, 'a) action"
  assumes rolls_back: "oper k s = (Inl e, t) \<Longrightarrow> t = s"
begin

lemma retry_one_attempt:
  assumes "retry_from code_of n b j oper i sl s = (r, t, sl')" and "i < n" and "b \<noteq> []"
  shows "\<exists>k. i < k \<and> k \<le> n \<and> length sl' = length sl + (k - i - 1)
     \<and> (\<forall>m. i < m \<and> m < k \<longrightarrow> (\<exists>e. oper m s = (Inl e, s) \<and> is_retryable_code (code_of e)))
     \<and> (case r of Inr x \<Rightarrow> oper k s = (Inr x, t)
        | Inl (Reraised e) \<Rightarrow> oper k s = (Inl e, s) \<and> t = s \<and> \<not> is_retryable_code (code_of e)
        | Inl (RetryExhausted c m e) \<Rightarrow> oper k s = (Inl e, s) \<and> t = s \<and> k = n \<and> m = n
            \<and> c = code_of e \<and> is_retryable_code c
        | Inl _ \<Rightarrow> False)"
  using assms
proof (induction "n - i" arbitrary: i sl)
  case 0
  then show ?case by simp
next
  case (Suc d)
  show ?case
  proof (cases "oper (Suc i) s")
    case (Pair q s')
    show ?thesis
    proof (cases q)
      case (Inr x)
      with Pair Suc.prems show ?thesis
        by (intro exI [of _ "Suc i"]) (auto simp: retry_from.simps [of code_of n b j oper i sl s])
    next
      case (Inl e)
      with Pair have [simp]: "s' = s" by (simp add: rolls_back)
      show ?thesis
      proof (cases "\<not> is_retryable_code (code_of e) \<or> n \<le> Suc i")
        case True
        with Pair Inl Suc.prems show ?thesis
          by (intro exI [of _ "Suc i"])
            (auto simp: retry_from.simps [of code_of n b j oper i sl s] split: if_splits)
      next
        case False
        define sl1 where "sl1 = sl @ [b ! min i (length b - 1) + j (Suc i)]"
        have "retry_from code_of n b j oper (Suc i) sl1 s = (r, t, sl')"
          using False Pair Inl Suc.prems
          by (simp add: retry_from.simps [of code_of n b j oper i sl s] sl1_def)
        moreover have "d = n - Suc i" and "Suc i < n" using Suc.hyps(2) False by auto
        ultimately obtain k where k: "Suc i < k" "k \<le> n" "length sl' = length sl1 + (k - Suc i - 1)"
          "\<forall>m. Suc i < m \<and> m < k \<longrightarrow> (\<exists>e. oper m s = (Inl e, s) \<and> is_retryable_code (code_of e))"
          and res: "case r of Inr x \<Rightarrow> oper k s = (Inr x, t)
            | Inl (Reraised e) \<Rightarrow> oper k s = (Inl e, s) \<and> t = s \<and> \<not> is_retryable_code (code_of e)
            | Inl (RetryExhausted c m e) \<Rightarrow> oper k s = (Inl e, s) \<and> t = s \<and> k = n \<and> m = n
                \<and> c = code_of e \<and> is_retryable_code c
            | Inl _ \<Rightarrow> False"
          using Suc.hyps(1) [of "Suc i" sl1] Suc.prems(3) by blast
        have "\<exists>e. oper m s = (Inl e, s) \<and> is_retryable_code (code_of e)" if "i < m" "m < k" for m
          using that k(4) Pair Inl False by (cases "m = Suc i") auto
        with k res show ?thesis by (intro exI [of _ k]) (auto simp: sl1_def)
      qed
    qed
  qed
qed

end

text \<open>
  The database transactions of the service meet the contract: \<open>get_session\<close> and every
  \<open>with session_factory() as session\<close> block roll back on any exception.
\<close>

interpretation txn: atomic_attempts "\<lambda>k. transaction (m k)" for m :: "nat \<Rightarrow> ('s, 'e, 'a) action"
  by unfold_locales (auto simp: transaction_run split: prod.splits sum.splits)

subsection \<open>Properties\<close>

text \<open>
  A retried transaction takes effect at most once. The loop runs at most
  \<open>max_attempts\<close> transactions; it sleeps between attempts only; if it returns, the database
  is the result of exactly one successful attempt on the original state, all earlier attempts
  having failed with 1205 or 1213; if it raises, the database is unchanged, and the error is
  either the non-lock error of the last attempt or the exhaustion of all attempts.
\<close>

theorem retry_applies_once:
  assumes "run_with_mysql_lock_retry code_of n b j (\<lambda>k. transaction (m k)) s = (r, t, slept)"
    and "1 \<le> n" and "b \<noteq> []"
  shows "\<exists>k. 1 \<le> k \<and> k \<le> n \<and> length slept = k - 1
     \<and> (\<forall>i. 0 < i \<and> i < k \<longrightarrow> (\<exists>e. transaction (m i) s = (Inl e, s) \<and> is_retryable_code (code_of e)))
     \<and> (case r of Inr x \<Rightarrow> m k s = (Inr x, t)
        | Inl (Reraised e) \<Rightarrow> fst (m k s) = Inl e \<and> t = s \<and> \<not> is_retryable_code (code_of e)
        | Inl (RetryExhausted c i e) \<Rightarrow> fst (m k s) = Inl e \<and> t = s \<and> k = n \<and> i = n
            \<and> c = code_of e \<and> is_retryable_code c
        | Inl _ \<Rightarrow> False)"
proof -
  have "retry_from code_of n b j (\<lambda>k. transaction (m k)) 0 [] s = (r, t, slept)" and "0 < n"
    using assms by (simp_all add: run_with_mysql_lock_retry_def split: if_splits)
  from txn.retry_one_attempt [OF this assms(3)] obtain k where k: "0 < k" "k \<le> n" "length slept = k - 1"
    "\<forall>i. 0 < i \<and> i < k \<longrightarrow> (\<exists>e. transaction (m i) s = (Inl e, s) \<and> is_retryable_code (code_of e))"
    and res: "case r of Inr x \<Rightarrow> transaction (m k) s = (Inr x, t)
        | Inl (Reraised e) \<Rightarrow> transaction (m k) s = (Inl e, s) \<and> t = s \<and> \<not> is_retryable_code (code_of e)
        | Inl (RetryExhausted c i e) \<Rightarrow> transaction (m k) s = (Inl e, s) \<and> t = s \<and> k = n \<and> i = n
            \<and> c = code_of e \<and> is_retryable_code c
        | Inl _ \<Rightarrow> False"
    by auto
  have "(transaction (m k) s = (Inr x, t)) = (m k s = (Inr x, t))" for x
    by (auto simp: transaction_run split: prod.splits sum.splits)
  moreover have "transaction (m k) s = (Inl e, s) \<Longrightarrow> fst (m k s) = Inl e" for e
    by (auto simp: transaction_run split: prod.splits sum.splits)
  ultimately have "case r of Inr x \<Rightarrow> m k s = (Inr x, t)
        | Inl (Reraised e) \<Rightarrow> fst (m k s) = Inl e \<and> t = s \<and> \<not> is_retryable_code (code_of e)
        | Inl (RetryExhausted c i e) \<Rightarrow> fst (m k s) = Inl e \<and> t = s \<and> k = n \<and> i = n
            \<and> c = code_of e \<and> is_retryable_code c
        | Inl _ \<Rightarrow> False"
    using res by (auto split: sum.splits retry_error.splits)
  with k show ?thesis by (intro exI [of _ k]) auto
qed

theorem retry_applies_once_witness:
  "run_with_mysql_lock_retry Some 3 default_backoff (\<lambda>_. 0)
     (\<lambda>k. transaction (\<lambda>s. if k < 2 then (Inl 1213, s + 7) else (Inr (), s + 1))) (10 :: nat)
     = (Inr (), 11, [25/1000])
   \<and> (\<exists>k. 1 \<le> k \<and> k \<le> (3::nat) \<and> k - 1 = 1)"
proof -
  have run: "run_with_mysql_lock_retry Some 3 default_backoff (\<lambda>_. 0)
     (\<lambda>k. transaction (\<lambda>s. if k < 2 then (Inl 1213, s + 7) else (Inr (), s + 1))) (10 :: nat)
     = (Inr (), 11, [25/1000])"
    by (simp add: run_with_mysql_lock_retry_def retry_from.simps [of _ _ _ _ _ 0]
        retry_from.simps [of _ _ _ _ _ "Suc 0"] transaction_run is_retryable_code_iff default_backoff_def)
  from retry_applies_once [OF run] show ?thesis using run by (auto simp: default_backoff_def)
qed

lemma extract_from_sound:
  "extract_from heap visited cur = Some n \<Longrightarrow>
     \<exists>i < length heap. code_of_args (exn_args (heap ! i)) = Some n"
proof (induction heap visited cur rule: extract_from.induct)
  case (1 heap visited cur)
  show ?case
  proof (cases cur)
    case None
    with 1 show ?thesis by (simp add: extract_from.simps [of heap visited None])
  next
    case (Some i)
    show ?thesis
    proof (cases "i \<in> set visited \<or> length heap \<le> i")
      case True
      with Some 1 show ?thesis by (simp add: extract_from.simps [of heap visited "Some i"])
    next
      case False
      with Some 1 show ?thesis
        by (cases "code_of_args (exn_args (heap ! i))"; cases "exn_orig (heap ! i)")
          (auto simp: extract_from.simps [of heap visited "Some i"] not_le)
    qed
  qed
qed

text \<open>
  Looking for the error code terminates on every exception graph, cyclic ones included, and a
  code it reports is carried by an exception of the graph, as the first argument or as the first
  element of the first argument.
\<close>

theorem extract_mysql_error_code_sound:
  assumes "extract_mysql_error_code heap error = Some n"
  shows "\<exists>x \<in> set heap. \<exists>rest. exn_args x = ArgInt n # rest \<or> (\<exists>more. exn_args x = ArgSeq (ArgInt n # more) # rest)"
proof -
  obtain i where i: "i < length heap" "code_of_args (exn_args (heap ! i)) = Some n"
    using extract_from_sound [OF assms [unfolded extract_mysql_error_code_def]] by blast
  then have "\<exists>rest. exn_args (heap ! i) = ArgInt n # rest \<or> (\<exists>more. exn_args (heap ! i) = ArgSeq (ArgInt n # more) # rest)"
    by (auto simp: code_of_args_def split: list.splits pyarg.splits)
  with i(1) show ?thesis using nth_mem by blast
qed

theorem extract_mysql_error_code_sound_witness:
  "extract_mysql_error_code
     [\<lparr>exn_args = [ArgOther], exn_orig = Some 1, exn_cause = None\<rparr>,
      \<lparr>exn_args = [ArgSeq [ArgInt 1213, ArgOther]], exn_orig = None, exn_cause = Some 0\<rparr>] 0 = Some 1213
   \<and> (\<exists>x \<in> set [\<lparr>exn_args = [ArgOther], exn_orig = Some 1, exn_cause = None\<rparr>,
      \<lparr>exn_args = [ArgSeq [ArgInt 1213, ArgOther]], exn_orig = None, exn_cause = Some 0\<rparr>].
        \<exists>rest. exn_args x = ArgInt 1213 # rest \<or> (\<exists>more. exn_args x = ArgSeq (ArgInt 1213 # more) # rest))"
proof -
  have e: "extract_mysql_error_code
     [\<lparr>exn_args = [ArgOther], exn_orig = Some 1, exn_cause = None\<rparr>,
      \<lparr>exn_args = [ArgSeq [ArgInt 1213, ArgOther]], exn_orig = None, exn_cause = Some 0\<rparr>] 0 = Some 1213"
    by (simp add: extract_mysql_error_code_def extract_from.simps code_of_args_def)
  show ?thesis using e extract_mysql_error_code_sound [OF e] by blast
qed

end
