(* ===== verification/JobLease.thy ===== *)
theory JobLease
  imports Prelude
begin

text \<open>
  \<open>mailbox_service/scheduler_lease_repository.py\<close>: cluster-wide ownership of scheduler jobs
  with fencing tokens. The table \<open>scheduled_job_leases\<close> is a list of rows with distinct
  \<open>job_name\<close>; every operation runs under the row lock its \<open>with_for_update\<close> takes, so the
  operations of different instances are interleaved whole.
\<close>

record job_lease =
  jl_job_name :: string
  jl_owner_id :: string
  jl_lease_until :: time
  jl_fencing_token :: int
  jl_updated_at :: time

record job_handle =
  jh_job_name :: string
  jh_owner_id :: string
  jh_fencing_token :: int

type_synonym job_table = "job_lease list"

definition job_row :: "string \<Rightarrow> job_table \<Rightarrow> job_lease option" where
  "job_row = row_by jl_job_name"

definition put_job :: "job_lease \<Rightarrow> job_table \<Rightarrow> job_table" where
  "put_job row = update_where (\<lambda>r. jl_job_name r = jl_job_name row) (\<lambda>_. row)"

definition try_acquire :: "string \<Rightarrow> string \<Rightarrow> int \<Rightarrow> time \<Rightarrow> job_table \<Rightarrow> job_handle option \<times> job_table" where
  "try_acquire job_name owner_id lease_seconds now tbl =
     (case job_row job_name tbl of
        None \<Rightarrow>
          (Some \<lparr>jh_job_name = job_name, jh_owner_id = owner_id, jh_fencing_token = 1\<rparr>,
           tbl @ [\<lparr>jl_job_name = job_name, jl_owner_id = owner_id, jl_lease_until = now + secs lease_seconds,
                   jl_fencing_token = 1, jl_updated_at = now\<rparr>])
      | Some lease \<Rightarrow>
          if \<not> is_expired (jl_lease_until lease) now \<and> jl_owner_id lease \<noteq> owner_id then (None, tbl)
          else
            let token = (if jl_owner_id lease \<noteq> owner_id then jl_fencing_token lease + 1
                         else jl_fencing_token lease);
                row = lease\<lparr>jl_fencing_token := token, jl_owner_id := owner_id,
                            jl_lease_until := now + secs lease_seconds, jl_updated_at := now\<rparr>
            in (Some \<lparr>jh_job_name = job_name, jh_owner_id = owner_id, jh_fencing_token = token\<rparr>,
                put_job row tbl))"

definition owns :: "job_handle \<Rightarrow> job_lease \<Rightarrow> bool" where
  "owns h lease \<longleftrightarrow> jl_owner_id lease = jh_owner_id h \<and> jl_fencing_token lease = jh_fencing_token h"

definition renew :: "job_handle \<Rightarrow> int \<Rightarrow> time \<Rightarrow> job_table \<Rightarrow> bool \<times> job_table" where
  "renew h lease_seconds now tbl =
     (case job_row (jh_job_name h) tbl of
        None \<Rightarrow> (False, tbl)
      | Some lease \<Rightarrow>
          if \<not> owns h lease then (False, tbl)
          else (True, put_job (lease\<lparr>jl_lease_until := now + secs lease_seconds, jl_updated_at := now\<rparr>) tbl))"

definition release :: "job_handle \<Rightarrow> time \<Rightarrow> job_table \<Rightarrow> job_table" where
  "release h now tbl =
     (case job_row (jh_job_name h) tbl of
        None \<Rightarrow> tbl
      | Some lease \<Rightarrow>
          if \<not> owns h lease then tbl
          else put_job (lease\<lparr>jl_lease_until := now, jl_updated_at := now\<rparr>) tbl)"

lemmas job_defs = try_acquire_def renew_def release_def

subsection \<open>The table\<close>

lemma job_row_put:
  "job_row k (put_job row tbl) =
     (if k = jl_job_name row then map_option (\<lambda>_. row) (job_row k tbl) else job_row k tbl)"
  unfolding job_row_def put_job_def
  by (induction tbl) (auto simp: row_by_def)

lemma job_row_append:
  "job_row k (tbl @ [row]) =
     (case job_row k tbl of Some r \<Rightarrow> Some r | None \<Rightarrow> if jl_job_name row = k then Some row else None)"
  unfolding job_row_def by (induction tbl) (auto simp: row_by_def)

lemma job_row_name: "job_row k tbl = Some r \<Longrightarrow> jl_job_name r = k"
  by (auto simp: job_row_def dest: row_by_Some)

lemma put_job_names: "map jl_job_name (put_job row tbl) = map jl_job_name tbl"
  by (simp add: put_job_def map_update_where)

subsection \<open>Histories\<close>

text \<open>
  A history is the table and the handles granted so far, by any instance at any time. A handle is
  never taken back: its holder may still believe in it after another instance has taken over.
\<close>

datatype job_event =
    Acquire string string int time
  | Renew job_handle int time
  | Release job_handle time

record history =
  jobs :: job_table
  granted :: "job_handle list"

fun job_step :: "history \<Rightarrow> job_event \<Rightarrow> history" where
  "job_step s (Acquire job owner ttl now) =
     (case try_acquire job owner ttl now (jobs s) of
        (None, t) \<Rightarrow> s\<lparr>jobs := t\<rparr>
      | (Some h, t) \<Rightarrow> \<lparr>jobs = t, granted = h # granted s\<rparr>)"
| "job_step s (Renew h ttl now) = s\<lparr>jobs := snd (renew h ttl now (jobs s))\<rparr>"
| "job_step s (Release h now) = s\<lparr>jobs := release h now (jobs s)\<rparr>"

definition job_run :: "job_event list \<Rightarrow> history" where
  "job_run es = foldl job_step \<lparr>jobs = [], granted = []\<rparr> es"

text \<open>
  What keeps old owners out: a granted token is never above the token of its row, the row's
  current token was granted to the row's current owner only, and two grants of one job with the
  same token went to the same owner.
\<close>

definition held_below :: "job_table \<Rightarrow> job_handle \<Rightarrow> bool" where
  "held_below tbl h \<longleftrightarrow> (\<exists>r. job_row (jh_job_name h) tbl = Some r
     \<and> jh_fencing_token h \<le> jl_fencing_token r
     \<and> (jh_fencing_token h = jl_fencing_token r \<longrightarrow> jh_owner_id h = jl_owner_id r))"

definition unique_owners :: "job_handle list \<Rightarrow> bool" where
  "unique_owners hs \<longleftrightarrow> (\<forall>h \<in> set hs. \<forall>g \<in> set hs.
     jh_job_name h = jh_job_name g \<longrightarrow> jh_fencing_token h = jh_fencing_token g \<longrightarrow> jh_owner_id h = jh_owner_id g)"

definition fenced :: "history \<Rightarrow> bool" where
  "fenced s \<longleftrightarrow> (\<forall>h \<in> set (granted s). held_below (jobs s) h) \<and> unique_owners (granted s)"

lemma unique_ownersD:
  "unique_owners hs \<Longrightarrow> h \<in> set hs \<Longrightarrow> g \<in> set hs \<Longrightarrow> jh_job_name h = jh_job_name g
     \<Longrightarrow> jh_fencing_token h = jh_fencing_token g \<Longrightarrow> jh_owner_id h = jh_owner_id g"
  unfolding unique_owners_def by blast

lemma unique_owners_Cons:
  assumes "unique_owners hs"
    and "\<And>g. g \<in> set hs \<Longrightarrow> jh_job_name g = jh_job_name h \<Longrightarrow> jh_fencing_token g = jh_fencing_token h
      \<Longrightarrow> jh_owner_id g = jh_owner_id h"
  shows "unique_owners (h # hs)"
  using assms unfolding unique_owners_def by (metis set_ConsD)

text \<open>The contract of a fenced table, which the three operations share: rows keep their name,
  tokens only grow, and the owner changes only together with the token.\<close>

locale fencing =
  fixes oper :: "job_table \<Rightarrow> job_table"
  assumes monotone: "job_row k tbl = Some r \<Longrightarrow> \<exists>r'. job_row k (oper tbl) = Some r'
     \<and> jl_fencing_token r \<le> jl_fencing_token r'
     \<and> (jl_fencing_token r = jl_fencing_token r' \<longrightarrow> jl_owner_id r = jl_owner_id r')"
begin

lemma row_survives: "held_below tbl h \<Longrightarrow> held_below (oper tbl) h"
proof -
  assume "held_below tbl h"
  then obtain r where r: "job_row (jh_job_name h) tbl = Some r" "jh_fencing_token h \<le> jl_fencing_token r"
    "jh_fencing_token h = jl_fencing_token r \<longrightarrow> jh_owner_id h = jl_owner_id r"
    unfolding held_below_def by blast
  obtain r' where r': "job_row (jh_job_name h) (oper tbl) = Some r'" "jl_fencing_token r \<le> jl_fencing_token r'"
    "jl_fencing_token r = jl_fencing_token r' \<longrightarrow> jl_owner_id r = jl_owner_id r'"
    using monotone [OF r(1)] by blast
  show ?thesis unfolding held_below_def using r r' by (intro exI [of _ r']) simp
qed

lemma keeps_fenced: "fenced s \<Longrightarrow> fenced (s\<lparr>jobs := oper (jobs s)\<rparr>)"
  unfolding fenced_def by (simp add: row_survives)

lemma stale_stays_stale:
  assumes "job_row k tbl = Some r" and "n < jl_fencing_token r"
  shows "\<exists>r'. job_row k (oper tbl) = Some r' \<and> n < jl_fencing_token r'"
  using monotone [OF assms(1)] assms(2) by auto

end

lemma job_row_put_named:
  "job_row j tbl = Some x \<Longrightarrow> jl_job_name row = jl_job_name x \<Longrightarrow>
     job_row k (put_job row tbl) = (if k = j then Some row else job_row k tbl)"
  using job_row_name [of j tbl x] by (simp add: job_row_put)

interpretation acq: fencing "\<lambda>tbl. snd (try_acquire job owner ttl now tbl)" for job owner ttl now
proof (unfold_locales, goal_cases)
  case (1 k tbl r)
  then show ?case
    by (cases "job_row job tbl")
      (auto simp: try_acquire_def job_row_put_named job_row_append Let_def)
qed

interpretation ren: fencing "\<lambda>tbl. snd (renew h ttl now tbl)" for h ttl now
proof (unfold_locales, goal_cases)
  case (1 k tbl r)
  then show ?case
    by (cases "job_row (jh_job_name h) tbl") (auto simp: renew_def job_row_put_named)
qed

interpretation rel: fencing "\<lambda>tbl. release h now tbl" for h now
proof (unfold_locales, goal_cases)
  case (1 k tbl r)
  then show ?case
    by (cases "job_row (jh_job_name h) tbl") (auto simp: release_def job_row_put_named)
qed

lemma granted_current:
  assumes "try_acquire job owner ttl now tbl = (Some h, t)"
  shows "jh_job_name h = job \<and> jh_owner_id h = owner
     \<and> (\<exists>r. job_row job t = Some r \<and> owns h r \<and> jl_lease_until r = now + secs ttl)
     \<and> (\<forall>r. job_row job tbl = Some r \<longrightarrow>
          (if jl_owner_id r = owner then jh_fencing_token h = jl_fencing_token r
           else jh_fencing_token h = jl_fencing_token r + 1 \<and> is_expired (jl_lease_until r) now))"
proof (cases "job_row job tbl")
  case None
  with assms show ?thesis by (auto simp: try_acquire_def job_row_append owns_def)
next
  case (Some r)
  with assms show ?thesis
    by (auto simp: try_acquire_def job_row_put_named owns_def Let_def split: if_splits)
qed

lemma grant_fenced:
  assumes s: "fenced s" and a: "try_acquire job owner ttl now (jobs s) = (Some h, t)"
  shows "fenced \<lparr>jobs = t, granted = h # granted s\<rparr>"
proof -
  have t: "fenced (s\<lparr>jobs := t\<rparr>)" using acq.keeps_fenced [OF s, of job owner ttl now] a by simp
  from granted_current [OF a] have g: "jh_job_name h = job" "jh_owner_id h = owner"
    and cur: "\<exists>r. job_row job t = Some r \<and> owns h r"
    and old: "\<And>r. job_row job (jobs s) = Some r \<Longrightarrow>
        (if jl_owner_id r = owner then jh_fencing_token h = jl_fencing_token r
         else jh_fencing_token h = jl_fencing_token r + 1)"
    by (auto split: if_splits)
  have "jh_owner_id f = jh_owner_id h"
    if f: "f \<in> set (granted s)" "jh_job_name f = jh_job_name h" "jh_fencing_token f = jh_fencing_token h" for f
  proof -
    from s f(1) have "held_below (jobs s) f" by (simp add: fenced_def)
    then obtain r where r: "job_row job (jobs s) = Some r" "jh_fencing_token f \<le> jl_fencing_token r"
      "jh_fencing_token f = jl_fencing_token r \<longrightarrow> jh_owner_id f = jl_owner_id r"
      using f(2) g(1) by (auto simp: held_below_def)
    from old [OF r(1)] r(2,3) f(3) g(2) show ?thesis by (auto split: if_splits)
  qed
  then have "unique_owners (h # granted s)" using s by (auto simp: fenced_def intro: unique_owners_Cons)
  moreover have "held_below t h" using cur g by (auto simp: held_below_def owns_def)
  ultimately show ?thesis using t by (simp add: fenced_def)
qed

lemma job_step_fenced: "fenced s \<Longrightarrow> fenced (job_step s e)"
proof (cases e)
  case (Acquire job owner ttl now)
  assume s: "fenced s"
  then have "fenced (s\<lparr>jobs := snd (try_acquire job owner ttl now (jobs s))\<rparr>)" by (rule acq.keeps_fenced)
  with s show ?thesis using Acquire by (auto split: prod.split option.split intro: grant_fenced)
qed (simp_all add: ren.keeps_fenced rel.keeps_fenced)

lemma job_run_snoc: "job_run (es @ [e]) = job_step (job_run es) e"
  by (simp add: job_run_def)

lemma job_run_fenced: "fenced (job_run es)"
proof (induction es rule: rev_induct)
  case Nil
  show ?case by (simp add: job_run_def fenced_def unique_owners_def)
next
  case (snoc e es)
  then show ?case by (simp add: job_run_snoc job_step_fenced)
qed

subsection \<open>Properties\<close>

lemma foldl_token_ge:
  assumes "job_row k (jobs s) = Some r" and "n < jl_fencing_token r"
  shows "\<exists>r'. job_row k (jobs (foldl job_step s es)) = Some r' \<and> n < jl_fencing_token r'"
  using assms
proof (induction es arbitrary: s r)
  case Nil
  then show ?case by auto
next
  case (Cons e es)
  have "\<exists>r'. job_row k (jobs (job_step s e)) = Some r' \<and> n < jl_fencing_token r'"
  proof (cases e)
    case (Acquire job owner ttl now)
    then have "jobs (job_step s e) = snd (try_acquire job owner ttl now (jobs s))"
      by (simp split: prod.split option.split)
    then show ?thesis using acq.stale_stays_stale [OF Cons.prems] by simp
  qed (simp_all add: ren.stale_stays_stale [OF Cons.prems] rel.stale_stays_stale [OF Cons.prems])
  then show ?case using Cons.IH by auto
qed

text \<open>
  A superseded owner is powerless for good: once another owner has been granted a later
  token, the old handle's renewal reports failure and its release changes nothing, after any
  further history.
\<close>

lemma superseded_owner_powerless:
  assumes "h \<in> set (granted (job_run es))" and "g \<in> set (granted (job_run es))"
    and "jh_job_name h = jh_job_name g" and "jh_fencing_token h < jh_fencing_token g"
  shows "renew h ttl now (jobs (job_run (es @ later))) = (False, jobs (job_run (es @ later)))
     \<and> release h now (jobs (job_run (es @ later))) = jobs (job_run (es @ later))"
proof -
  obtain r where "job_row (jh_job_name h) (jobs (job_run es)) = Some r" "jh_fencing_token h < jl_fencing_token r"
  proof -
    have "held_below (jobs (job_run es)) g" using job_run_fenced [of es] assms(2) by (simp add: fenced_def)
    then show ?thesis using that assms(3,4) by (auto simp: held_below_def)
  qed
  then have "\<exists>r. job_row (jh_job_name h) (jobs (job_run (es @ later))) = Some r \<and> jh_fencing_token h < jl_fencing_token r"
    using foldl_token_ge [of _ "job_run es"] by (simp add: job_run_def)
  then show ?thesis by (auto simp: renew_def release_def owns_def)
qed

text \<open>
  C39. Fencing. However the acquisitions, renewals and releases of all instances interleave: of two handles granted for one
  job, either both carry the same token, and then they were granted to the same owner, or the one with the lower token -
  also when its owner has meanwhile taken the job again - is powerless from then on: whatever happens later, its renewal
  reports failure and changes nothing, and its release changes nothing.
\<close>

theorem single_effective_owner:
  assumes "h \<in> set (granted (job_run es))" and "g \<in> set (granted (job_run es))" and "jh_job_name h = jh_job_name g"
  shows "if jh_fencing_token h = jh_fencing_token g then jh_owner_id h = jh_owner_id g
     else let old = (if jh_fencing_token h < jh_fencing_token g then h else g); table = jobs (job_run (es @ later)) in
       renew old ttl now table = (False, table) \<and> release old now' table = table"
proof (cases "jh_fencing_token h = jh_fencing_token g")
  case True
  with assms show ?thesis using job_run_fenced [of es] unique_ownersD by (auto simp: fenced_def)
next
  case False
  then show ?thesis
    using superseded_owner_powerless [OF assms] superseded_owner_powerless [OF assms(2,1) assms(3) [symmetric]]
    by (simp add: Let_def)
qed

theorem single_effective_owner_witness:
  "let es = [Acquire ''j'' ''a'' 30 0, Acquire ''j'' ''b'' 30 (secs 40), Acquire ''j'' ''a'' 30 (secs 80)];
       old = \<lparr>jh_job_name = ''j'', jh_owner_id = ''a'', jh_fencing_token = 1\<rparr>;
       new = \<lparr>jh_job_name = ''j'', jh_owner_id = ''a'', jh_fencing_token = 3\<rparr>
   in granted (job_run es) = [new, \<lparr>jh_job_name = ''j'', jh_owner_id = ''b'', jh_fencing_token = 2\<rparr>, old]
     \<and> \<not> fst (renew old 30 (secs 81) (jobs (job_run es))) \<and> fst (renew new 30 (secs 81) (jobs (job_run es)))"
proof -
  let ?es = "[Acquire ''j'' ''a'' 30 0, Acquire ''j'' ''b'' 30 (secs 40), Acquire ''j'' ''a'' 30 (secs 80)]"
  let ?old = "\<lparr>jh_job_name = ''j'', jh_owner_id = ''a'', jh_fencing_token = 1\<rparr>"
  let ?new = "\<lparr>jh_job_name = ''j'', jh_owner_id = ''a'', jh_fencing_token = 3\<rparr>"
  have granted: "granted (job_run ?es) = [?new, \<lparr>jh_job_name = ''j'', jh_owner_id = ''b'', jh_fencing_token = 2\<rparr>, ?old]"
    by code_simp
  then have "?old \<in> set (granted (job_run ?es))" "?new \<in> set (granted (job_run ?es))" by simp_all
  from single_effective_owner [OF this, of "[]" 30 "secs 81" 0]
  have "\<not> fst (renew ?old 30 (secs 81) (jobs (job_run ?es)))" by (simp add: Let_def)
  moreover have "fst (renew ?new 30 (secs 81) (jobs (job_run ?es)))" by code_simp
  ultimately show ?thesis unfolding Let_def using granted by blast
qed

text \<open>
  Acquisition is exact: an unowned job and a job whose lease has run out are granted to
  whoever asks, a live lease is granted again only to its own owner (keeping the token), a live
  lease of another owner is refused with the table unchanged, and a change of owner always takes
  the next token.
\<close>

theorem try_acquire_decides:
  "case job_row job tbl of
     None \<Rightarrow> fst (try_acquire job owner ttl now tbl) =
               Some \<lparr>jh_job_name = job, jh_owner_id = owner, jh_fencing_token = 1\<rparr>
   | Some r \<Rightarrow>
       if jl_owner_id r = owner then
         fst (try_acquire job owner ttl now tbl) =
           Some \<lparr>jh_job_name = job, jh_owner_id = owner, jh_fencing_token = jl_fencing_token r\<rparr>
       else if now < jl_lease_until r then try_acquire job owner ttl now tbl = (None, tbl)
       else fst (try_acquire job owner ttl now tbl) =
           Some \<lparr>jh_job_name = job, jh_owner_id = owner, jh_fencing_token = jl_fencing_token r + 1\<rparr>"
  by (auto simp: try_acquire_def is_expired_def Let_def split: option.splits)

end
