(* ===== verification/PyText.thy ===== *)
theory PyText
  imports Prelude
begin

text \<open>
  The Python string operations the source uses. A \<open>string\<close> is a list of code points, and a
  \<open>char\<close> is one of the 256 code points U+0000 to U+00FF: on that range \<open>str.isspace\<close>,
  \<open>str.isdigit\<close> and \<open>str.lower\<close> are written out in full. Code points above U+00FF are
  outside the model; the addresses, codes, scopes and identifiers the service compares are ASCII.
  \<open>str.upper\<close> agrees with Python except at U+00B5, U+00DF and U+00FF, whose upper case is not
  one code point of the range; it is used on ASCII alphanumerics and to look for the label
  \<open>XAI\<close>, which none of those three can begin.
\<close>

subsection \<open>Character classes and case\<close>

abbreviation char_code :: "char \<Rightarrow> nat" where
  "char_code c \<equiv> of_char c"

definition is_space :: "char \<Rightarrow> bool" where
  "is_space c \<longleftrightarrow> (9 \<le> char_code c \<and> char_code c \<le> 13) \<or> (28 \<le> char_code c \<and> char_code c \<le> 32)
     \<or> char_code c = 133 \<or> char_code c = 160"

definition is_ascii_digit :: "char \<Rightarrow> bool" where
  "is_ascii_digit c \<longleftrightarrow> 48 \<le> char_code c \<and> char_code c \<le> 57"

definition is_digit :: "char \<Rightarrow> bool" where
  \<comment> \<open>\<open>str.isdigit\<close> also accepts the superscripts two, three and one\<close>
  "is_digit c \<longleftrightarrow> is_ascii_digit c \<or> char_code c = 178 \<or> char_code c = 179 \<or> char_code c = 185"

definition is_upper_ascii :: "char \<Rightarrow> bool" where
  "is_upper_ascii c \<longleftrightarrow> 65 \<le> char_code c \<and> char_code c \<le> 90"

definition is_lower_ascii :: "char \<Rightarrow> bool" where
  "is_lower_ascii c \<longleftrightarrow> 97 \<le> char_code c \<and> char_code c \<le> 122"

definition lower_char :: "char \<Rightarrow> char" where
  "lower_char c =
     (if (65 \<le> char_code c \<and> char_code c \<le> 90) \<or> (192 \<le> char_code c \<and> char_code c \<le> 222 \<and> char_code c \<noteq> 215)
      then char_of (char_code c + 32) else c)"

definition upper_char :: "char \<Rightarrow> char" where
  "upper_char c =
     (if (97 \<le> char_code c \<and> char_code c \<le> 122) \<or> (224 \<le> char_code c \<and> char_code c \<le> 254 \<and> char_code c \<noteq> 247)
      then char_of (char_code c - 32) else c)"

lemma code_lt [simp]: "char_code c < 256"
  using of_char_mod_256 [of c, where 'a = nat] by (metis mod_less_divisor zero_less_numeral)

lemma code_char_of: "n < 256 \<Longrightarrow> char_code (char_of n) = n"
  by (simp add: of_char_of)

lemma code_lower_char:
  "char_code (lower_char c) =
     (if (65 \<le> char_code c \<and> char_code c \<le> 90) \<or> (192 \<le> char_code c \<and> char_code c \<le> 222 \<and> char_code c \<noteq> 215)
      then char_code c + 32 else char_code c)"
  by (auto simp: lower_char_def code_char_of)

lemma lower_char_fix:
  "\<not> ((65 \<le> char_code c \<and> char_code c \<le> 90) \<or> (192 \<le> char_code c \<and> char_code c \<le> 222 \<and> char_code c \<noteq> 215))
     \<Longrightarrow> lower_char c = c"
  unfolding lower_char_def by (rule if_not_P)

lemma lower_char_idem [simp]: "lower_char (lower_char c) = lower_char c"
  by (rule lower_char_fix) (auto simp: code_lower_char)

lemma is_space_lower [simp]: "is_space (lower_char c) = is_space c"
  by (auto simp: is_space_def code_lower_char)

lemma not_upper_lower: "\<not> is_upper_ascii (lower_char c)"
  by (auto simp: is_upper_ascii_def code_lower_char)

subsection \<open>Strings\<close>

definition lower_str :: "string \<Rightarrow> string" where
  "lower_str = map lower_char"

definition upper_str :: "string \<Rightarrow> string" where
  "upper_str = map upper_char"

definition lstrip :: "string \<Rightarrow> string" where
  "lstrip = dropWhile is_space"

definition rstrip :: "string \<Rightarrow> string" where
  "rstrip s = rev (dropWhile is_space (rev s))"

definition strip :: "string \<Rightarrow> string" where
  "strip s = rstrip (lstrip s)"

definition strip_lower :: "string \<Rightarrow> string" where
  \<comment> \<open>\<open>value.strip().lower()\<close>\<close>
  "strip_lower s = lower_str (strip s)"

definition starts_with :: "string \<Rightarrow> string \<Rightarrow> bool" where
  "starts_with s p \<longleftrightarrow> take (length p) s = p"

fun contains :: "string \<Rightarrow> string \<Rightarrow> bool" where
  \<comment> \<open>\<open>p in s\<close>\<close>
  "contains [] p = (p = [])"
| "contains (c # s) p = (starts_with (c # s) p \<or> contains s p)"

fun find_first :: "string \<Rightarrow> string \<Rightarrow> nat option" where
  \<comment> \<open>\<open>s.find(p)\<close>, \<open>None\<close> for -1\<close>
  "find_first [] p = (if p = [] then Some 0 else None)"
| "find_first (c # s) p = (if starts_with (c # s) p then Some 0 else map_option Suc (find_first s p))"

definition before :: "char \<Rightarrow> string \<Rightarrow> string" where
  \<comment> \<open>the first component of \<open>s.partition(c)\<close> and of \<open>s.split(c, 1)\<close>\<close>
  "before c = takeWhile (\<lambda>x. x \<noteq> c)"

definition after :: "char \<Rightarrow> string \<Rightarrow> string" where
  \<comment> \<open>the last component of \<open>s.partition(c)\<close>: empty when \<open>c\<close> does not occur\<close>
  "after c s = drop 1 (dropWhile (\<lambda>x. x \<noteq> c) s)"

lemma length_lower_str [simp]: "length (lower_str s) = length s"
  by (simp add: lower_str_def)

lemma lower_str_idem [simp]: "lower_str (lower_str s) = lower_str s"
  by (simp add: lower_str_def)

lemma dropWhile_space_lower: "dropWhile is_space (map lower_char s) = map lower_char (dropWhile is_space s)"
  by (induction s) auto

lemma lstrip_lower: "lstrip (lower_str s) = lower_str (lstrip s)"
  by (simp add: lstrip_def lower_str_def dropWhile_space_lower)

lemma rstrip_lower: "rstrip (lower_str s) = lower_str (rstrip s)"
  by (simp add: rstrip_def lower_str_def rev_map dropWhile_space_lower)

lemma strip_lower_str: "strip (lower_str s) = lower_str (strip s)"
  by (simp add: strip_def lstrip_lower rstrip_lower)

lemma lstrip_rstrip: "lstrip s = s \<Longrightarrow> lstrip (rstrip s) = rstrip s"
proof (cases s)
  case (Cons c t)
  assume "lstrip s = s"
  then have c: "\<not> is_space c" using Cons
    by (metis dropWhile.simps(2) dropWhile_eq_self_iff list.sel(1) list.simps(3) lstrip_def)
  have "rstrip s \<noteq> [] \<and> hd (rstrip s) = c"
  proof -
    obtain u where u: "dropWhile is_space (rev s) = u" by simp
    have "u \<noteq> []" using Cons c u by (auto simp: dropWhile_eq_Nil_conv)
    then have "last u = last (rev s)" using u
      by (metis last_appendR takeWhile_dropWhile_id)
    then show ?thesis using \<open>u \<noteq> []\<close> u Cons by (simp add: rstrip_def hd_rev)
  qed
  then show ?thesis using c by (cases "rstrip s") (auto simp: lstrip_def)
qed (simp add: rstrip_def lstrip_def)

lemma lstrip_idem [simp]: "lstrip (lstrip s) = lstrip s"
  by (simp add: lstrip_def)

lemma rstrip_idem [simp]: "rstrip (rstrip s) = rstrip s"
  by (simp add: rstrip_def)

lemma strip_idem [simp]: "strip (strip s) = strip s"
  by (simp add: strip_def lstrip_rstrip)

lemma strip_lower_idem [simp]: "strip_lower (strip_lower s) = strip_lower s"
  by (simp add: strip_lower_def strip_lower_str)

lemma lower_strip_lower [simp]: "lower_str (strip_lower s) = strip_lower s"
  by (simp add: strip_lower_def)

lemma strip_strip_lower [simp]: "strip (strip_lower s) = strip_lower s"
  by (simp add: strip_lower_def strip_lower_str)

lemma partition_parts: "c \<in> set s \<Longrightarrow> before c s @ c # after c s = s"
proof (induction s)
  case (Cons x s)
  then show ?case by (cases "x = c") (auto simp: before_def after_def)
qed simp

lemma before_notin [simp]: "c \<notin> set (before c s)"
  by (auto simp: before_def dest: set_takeWhileD)

lemma before_append: "c \<notin> set a \<Longrightarrow> before c (a @ c # b) = a"
  by (induction a) (auto simp: before_def)

lemma after_append: "c \<notin> set a \<Longrightarrow> after c (a @ c # b) = b"
  by (induction a) (auto simp: after_def)

lemma contains_iff: "contains s p \<longleftrightarrow> (\<exists>u v. s = u @ p @ v)"
proof (induction s)
  case Nil
  then show ?case by auto
next
  case (Cons c s)
  show ?case
  proof
    assume "contains (c # s) p"
    then consider "starts_with (c # s) p" | "contains s p" by auto
    then show "\<exists>u v. c # s = u @ p @ v"
    proof cases
      case 1
      then have "c # s = [] @ p @ drop (length p) (c # s)"
        by (metis append_Nil append_take_drop_id starts_with_def)
      then show ?thesis by blast
    next
      case 2
      then obtain u v where "s = u @ p @ v" using Cons.IH by blast
      then have "c # s = (c # u) @ p @ v" by simp
      then show ?thesis by blast
    qed
  next
    assume "\<exists>u v. c # s = u @ p @ v"
    then obtain u v where uv: "c # s = u @ p @ v" by blast
    show "contains (c # s) p"
    proof (cases u)
      case Nil
      with uv have "starts_with (c # s) p" by (simp add: starts_with_def)
      then show ?thesis by simp
    next
      case (Cons d u')
      with uv have "s = u' @ p @ v" by simp
      then show ?thesis using Cons.IH by auto
    qed
  qed
qed

definition utf8_bytes :: "char \<Rightarrow> nat list" where
  "utf8_bytes c = (let n = char_code c in if n < 128 then [n] else [192 + n div 64, 128 + n mod 64])"

subsection \<open>De-duplication\<close>

fun dedup :: "'a list \<Rightarrow> 'a list" where
  \<comment> \<open>\<open>list(dict.fromkeys(xs))\<close>\<close>
  "dedup [] = []"
| "dedup (x # xs) = x # filter (\<lambda>y. y \<noteq> x) (dedup xs)"

lemma set_dedup [simp]: "set (dedup xs) = set xs"
  by (induction xs) auto

lemma distinct_dedup [simp]: "distinct (dedup xs)"
  by (induction xs) auto

lemma dedup_distinct: "distinct xs \<Longrightarrow> dedup xs = xs"
  by (induction xs) (auto simp: filter_id_conv)

lemma dedup_Nil_iff [simp]: "dedup xs = [] \<longleftrightarrow> xs = []"
  by (cases xs) auto

subsection \<open>Strings that are already stripped\<close>

lemma dropWhile_length_eq:
  assumes "length (dropWhile P s) = length s"
  shows "dropWhile P s = s"
proof -
  have "length (takeWhile P s) + length (dropWhile P s) = length s"
    by (metis length_append takeWhile_dropWhile_id)
  with assms have "takeWhile P s = []" by simp
  then show ?thesis by (metis append_Nil takeWhile_dropWhile_id)
qed

lemma dropWhile_fixed: "dropWhile P s = s \<longleftrightarrow> s = [] \<or> \<not> P (hd s)"
proof (cases s)
  case (Cons a s')
  have "dropWhile P s' \<noteq> a # s'"
    using length_dropWhile_le [of P s'] by (metis Suc_n_not_le_n length_Cons)
  with Cons show ?thesis by simp
qed simp

lemma lstrip_fixed: "lstrip s = s \<longleftrightarrow> s = [] \<or> \<not> is_space (hd s)"
  by (simp add: lstrip_def dropWhile_fixed)

lemma rstrip_fixed: "rstrip s = s \<longleftrightarrow> s = [] \<or> \<not> is_space (last s)"
proof -
  have "rstrip s = s \<longleftrightarrow> dropWhile is_space (rev s) = rev s"
    by (metis rstrip_def rev_rev_ident)
  then show ?thesis by (simp add: dropWhile_fixed hd_rev)
qed

lemma length_lstrip: "length (lstrip s) \<le> length s"
  by (simp add: lstrip_def length_dropWhile_le)

lemma length_rstrip: "length (rstrip s) \<le> length s"
  using length_dropWhile_le [of is_space "rev s"] by (simp add: rstrip_def)

lemma strip_fixed: "strip s = s \<longleftrightarrow> s = [] \<or> (\<not> is_space (hd s) \<and> \<not> is_space (last s))"
proof
  assume "strip s = s"
  then have "length s \<le> length (lstrip s)" using length_rstrip [of "lstrip s"] by (simp add: strip_def)
  then have "lstrip s = s"
    using length_lstrip [of s] by (simp add: lstrip_def dropWhile_length_eq)
  with \<open>strip s = s\<close> show "s = [] \<or> (\<not> is_space (hd s) \<and> \<not> is_space (last s))"
    using lstrip_fixed [of s] rstrip_fixed [of s] by (auto simp: strip_def)
next
  assume "s = [] \<or> (\<not> is_space (hd s) \<and> \<not> is_space (last s))"
  then show "strip s = s" using lstrip_fixed [of s] rstrip_fixed [of s] by (auto simp: strip_def)
qed

lemma strip_lower_fixed: "strip_lower s = s \<longleftrightarrow> strip s = s \<and> lower_str s = s"
proof
  assume a: "strip_lower s = s"
  then have "length (strip s) = length s" by (metis strip_lower_def length_lower_str)
  then have "length s \<le> length (lstrip s)" using length_rstrip [of "lstrip s"] by (simp add: strip_def)
  then have l: "lstrip s = s" using length_lstrip [of s] by (simp add: lstrip_def dropWhile_length_eq)
  with \<open>length (strip s) = length s\<close> have "length (dropWhile is_space (rev s)) = length (rev s)"
    by (simp add: strip_def rstrip_def)
  then have "rstrip s = s" by (simp add: rstrip_def dropWhile_length_eq)
  with l have "strip s = s" by (simp add: strip_def)
  with a show "strip s = s \<and> lower_str s = s" by (simp add: strip_lower_def)
qed (simp add: strip_lower_def)

lemma lower_str_append [simp]: "lower_str (a @ b) = lower_str a @ lower_str b"
  by (simp add: lower_str_def)

end
