(* ===== verification/Json.thy ===== *)
theory Json
  imports Complex_Main PyText
begin

text \<open>
  JSON values as \<open>json.loads\<close> returns them and as the audit log and the provider payloads
  hold them: an object is its list of key and value pairs, keys distinct.
\<close>

datatype json =
    JNull
  | JBool bool
  | JInt int
  | JReal real
  | JStr string
  | JArr "json list"
  | JObj "(string \<times> json) list"

fun jget :: "json \<Rightarrow> string \<Rightarrow> json" where
  \<comment> \<open>\<open>payload.get(key)\<close> of a dict, \<open>JNull\<close> for a missing key\<close>
  "jget (JObj kvs) k = (case map_of kvs k of None \<Rightarrow> JNull | Some v \<Rightarrow> v)"
| "jget _ k = JNull"

fun truthy :: "json \<Rightarrow> bool" where
  \<comment> \<open>\<open>bool(value)\<close>\<close>
  "truthy JNull = False"
| "truthy (JBool b) = b"
| "truthy (JInt n) = (n \<noteq> 0)"
| "truthy (JReal x) = (x \<noteq> 0)"
| "truthy (JStr s) = (s \<noteq> [])"
| "truthy (JArr xs) = (xs \<noteq> [])"
| "truthy (JObj kvs) = (kvs \<noteq> [])"

fun first_truthy :: "json list \<Rightarrow> json \<Rightarrow> json" where
  \<comment> \<open>\<open>a or b or ... or d\<close>\<close>
  "first_truthy [] d = d"
| "first_truthy (x # xs) d = (if truthy x then x else first_truthy xs d)"

definition is_dict :: "json \<Rightarrow> bool" where
  "is_dict v = (case v of JObj _ \<Rightarrow> True | _ \<Rightarrow> False)"

definition jopt :: "string option \<Rightarrow> json" where
  "jopt s = (case s of None \<Rightarrow> JNull | Some x \<Rightarrow> JStr x)"

fun split_ws_from :: "string \<Rightarrow> string \<Rightarrow> string list" where
  \<comment> \<open>\<open>str.split()\<close>: the maximal runs of non-space characters\<close>
  "split_ws_from cur [] = (if cur = [] then [] else [cur])"
| "split_ws_from cur (c # s) =
     (if is_space c then (if cur = [] then split_ws_from [] s else cur # split_ws_from [] s)
      else split_ws_from (cur @ [c]) s)"

definition split_ws :: "string \<Rightarrow> string list" where
  "split_ws = split_ws_from []"

fun join_with :: "string \<Rightarrow> string list \<Rightarrow> string" where
  \<comment> \<open>\<open>sep.join(parts)\<close>\<close>
  "join_with sep [] = []"
| "join_with sep [p] = p"
| "join_with sep (p # q # ps) = p @ sep @ join_with sep (q # ps)"

lemma split_ws_from_words:
  "\<forall>c \<in> set cur. \<not> is_space c \<Longrightarrow> w \<in> set (split_ws_from cur s) \<Longrightarrow> w \<noteq> [] \<and> (\<forall>c \<in> set w. \<not> is_space c)"
proof (induction s arbitrary: cur)
  case Nil
  then show ?case by (cases "cur = []") auto
next
  case (Cons c s)
  show ?case
  proof (cases "is_space c")
    case True
    then have "(w = cur \<and> cur \<noteq> []) \<or> w \<in> set (split_ws_from [] s)"
      using Cons.prems(2) by (cases "cur = []") auto
    then show ?thesis
    proof
      assume "w = cur \<and> cur \<noteq> []"
      with Cons.prems(1) show ?thesis by simp
    next
      assume "w \<in> set (split_ws_from [] s)"
      then show ?thesis by (rule Cons.IH [rotated]) simp
    qed
  next
    case False
    with Cons.prems have "w \<in> set (split_ws_from (cur @ [c]) s)" by simp
    then show ?thesis by (rule Cons.IH [rotated]) (use Cons.prems(1) False in auto)
  qed
qed

lemma split_ws_words: "w \<in> set (split_ws s) \<Longrightarrow> w \<noteq> [] \<and> (\<forall>c \<in> set w. \<not> is_space c)"
  unfolding split_ws_def by (rule split_ws_from_words) auto

lemma split_ws_from_word: "\<forall>c \<in> set w. \<not> is_space c \<Longrightarrow> split_ws_from cur (w @ s) = split_ws_from (cur @ w) s"
  by (induction w arbitrary: cur) auto

lemma split_ws_join:
  "\<forall>w \<in> set ws. w \<noteq> [] \<and> (\<forall>c \<in> set w. \<not> is_space c) \<Longrightarrow> split_ws (join_with '' '' ws) = ws"
proof (induction "'' '' :: string" ws rule: join_with.induct)
  case 1
  then show ?case by (simp add: split_ws_def)
next
  case (2 p)
  then show ?case using split_ws_from_word [of p "[]" "[]"] by (simp add: split_ws_def)
next
  case (3 p q ps)
  have sp: "is_space (CHR '' '')" by (simp add: is_space_def)
  have "split_ws (p @ '' '' @ join_with '' '' (q # ps)) = p # split_ws (join_with '' '' (q # ps))"
    using 3 sp split_ws_from_word [of p "[]"] by (simp add: split_ws_def)
  with 3 show ?case by simp
qed

end
