(* ===== verification/TokenScopes.thy ===== *)
theory TokenScopes
  imports Json
begin

text \<open>
  \<open>mailbox_service/access_token_scopes.py\<close>: which mail channel (IMAP or Graph) an access token
  serves, read off its scope string. The base64 and JSON decoding of a JWT segment is the
  parameter \<open>loads\<close>, with \<open>None\<close> for each of its exceptions. \<open>casefold\<close> is
  \<open>lower_str\<close>: the two agree on the ASCII scope strings of Microsoft.
\<close>

datatype channel = IMAP | GRAPH

definition graph_mail_read_scope :: string where
  "graph_mail_read_scope = ''https://graph.microsoft.com/Mail.Read offline_access''"

definition imap_scope_markers :: "string list" where
  "imap_scope_markers = [''imap.accessasuser'', ''outlook.office.com'', ''outlook.office365.com'',
     ''https://outlook.office.com/'']"

definition graph_scope_markers :: "string list" where
  "graph_scope_markers = [''graph.microsoft.com'', ''mail.read'', ''mail.readwrite'', ''mail.readbasic'',
     ''https://graph.microsoft.com/'']"

definition graph_audience_markers :: "string list" where
  "graph_audience_markers = [''graph.microsoft.com'', ''https://graph.microsoft.com/'']"

definition outlook_audience_markers :: "string list" where
  "outlook_audience_markers = [''outlook.office.com'', ''outlook.office365.com'', ''https://outlook.office.com/'']"

definition decode_jwt_payload :: "(string \<Rightarrow> json option) \<Rightarrow> string \<Rightarrow> json option" where
  "decode_jwt_payload loads access_token =
     (let payload_segment = before (CHR ''.'') (after (CHR ''.'') access_token);
          padding = replicate ((4 - length payload_segment mod 4) mod 4) (CHR ''='')
      in case loads (payload_segment @ padding) of
           None \<Rightarrow> None
         | Some payload \<Rightarrow> if is_dict payload then Some payload else None)"

fun role_scopes :: "json list \<Rightarrow> string list" where
  "role_scopes [] = []"
| "role_scopes (JStr r # rs) = (if strip r \<noteq> [] then strip r # role_scopes rs else role_scopes rs)"
| "role_scopes (_ # rs) = role_scopes rs"

definition extract_oauth_scopes :: "(string \<Rightarrow> json option) \<Rightarrow> string \<Rightarrow> string option" where
  "extract_oauth_scopes loads access_token =
     (if access_token = [] \<or> count_list access_token (CHR ''.'') < 2 then None
      else case decode_jwt_payload loads access_token of
             None \<Rightarrow> None
           | Some payload \<Rightarrow>
               let scp = (case jget payload ''scp'' of JStr s \<Rightarrow> split_ws s | _ \<Rightarrow> []);
                   roles = (case jget payload ''roles'' of JArr rs \<Rightarrow> role_scopes rs | _ \<Rightarrow> []);
                   unique_scopes = dedup (scp @ roles)
               in if unique_scopes = [] then None else Some (join_with '' '' unique_scopes))"

definition has_marker :: "string list \<Rightarrow> string option \<Rightarrow> bool" where
  "has_marker markers scope =
     (let normalized = lower_str (case scope of None \<Rightarrow> [] | Some s \<Rightarrow> s)
      in list_ex (contains normalized) markers)"

definition infer_mail_access_channel_preference :: "string option \<Rightarrow> channel list" where
  "infer_mail_access_channel_preference scope =
     (let hints_imap = has_marker imap_scope_markers scope;
          hints_graph = has_marker graph_scope_markers scope
      in if hints_imap \<and> \<not> hints_graph then [IMAP, GRAPH]
         else if hints_graph \<and> \<not> hints_imap then [GRAPH, IMAP]
         else [IMAP, GRAPH])"

definition resolve_oauth_refresh_scope :: "channel option \<Rightarrow> string option" where
  "resolve_oauth_refresh_scope ch = (if ch = Some GRAPH then Some graph_mail_read_scope else None)"

definition cached_token_matches :: "string option \<Rightarrow> channel \<Rightarrow> bool" where
  "cached_token_matches scope ch =
     (let has_graph = has_marker graph_audience_markers scope;
          has_outlook = has_marker outlook_audience_markers scope
      in case ch of
           GRAPH \<Rightarrow> has_graph
         | IMAP \<Rightarrow> \<not> (has_graph \<and> \<not> has_outlook))"

lemmas marker_defs = imap_scope_markers_def graph_scope_markers_def graph_audience_markers_def
  outlook_audience_markers_def

lemma has_marker_subset: "set ms \<subseteq> set ns \<Longrightarrow> has_marker ms scope \<Longrightarrow> has_marker ns scope"
  by (auto simp: has_marker_def Let_def list_ex_iff)

text \<open>
  Every stored scope serves at least one channel, so a usable cached token is never refused on
  both. The probe order tries both channels, each once, and starts with Graph exactly when the scope
  hints at Graph and at no IMAP audience.
\<close>

theorem cached_token_serves_some_channel:
  "(cached_token_matches scope IMAP \<or> cached_token_matches scope GRAPH)
   \<and> distinct (infer_mail_access_channel_preference scope)
   \<and> set (infer_mail_access_channel_preference scope) = {IMAP, GRAPH}
   \<and> (hd (infer_mail_access_channel_preference scope) = GRAPH)
        = (has_marker graph_scope_markers scope \<and> \<not> has_marker imap_scope_markers scope)"
proof -
  have "has_marker graph_audience_markers scope \<Longrightarrow> has_marker graph_scope_markers scope"
    by (rule has_marker_subset, auto simp: marker_defs)
  then show ?thesis
    by (auto simp: cached_token_matches_def infer_mail_access_channel_preference_def Let_def)
qed

text \<open>
  The re-audience round trip: a token refreshed with the scope chosen for Graph is accepted for
  Graph and refused for IMAP (it is a pure Graph audience), while IMAP refreshes name no scope and
  a mailbox without a stored scope stays usable for IMAP only.
\<close>

theorem refresh_scope_roundtrip:
  "resolve_oauth_refresh_scope (Some GRAPH) = Some graph_mail_read_scope
   \<and> cached_token_matches (resolve_oauth_refresh_scope (Some GRAPH)) GRAPH
   \<and> \<not> cached_token_matches (resolve_oauth_refresh_scope (Some GRAPH)) IMAP
   \<and> resolve_oauth_refresh_scope (Some IMAP) = None
   \<and> cached_token_matches (resolve_oauth_refresh_scope (Some IMAP)) IMAP
   \<and> \<not> cached_token_matches (resolve_oauth_refresh_scope (Some IMAP)) GRAPH"
  by code_simp

lemma role_scopes_nonempty: "w \<in> set (role_scopes rs) \<Longrightarrow> w \<noteq> []"
  by (induction rs rule: role_scopes.induct) (auto split: if_splits)

text \<open>
  The scope string extracted from a token is canonical: splitting it again gives back distinct,
  non-empty scopes without white space, in the order of the claims, when no role contains a space.
\<close>

theorem extracted_scopes_roundtrip:
  assumes "extract_oauth_scopes loads tok = Some scope"
    and "decode_jwt_payload loads tok = Some payload"
    and "\<forall>rs. jget payload ''roles'' = JArr rs \<longrightarrow> (\<forall>w \<in> set (role_scopes rs). \<forall>c \<in> set w. \<not> is_space c)"
  shows "scope \<noteq> [] \<and> distinct (split_ws scope)
     \<and> split_ws scope = dedup ((case jget payload ''scp'' of JStr s \<Rightarrow> split_ws s | _ \<Rightarrow> [])
          @ (case jget payload ''roles'' of JArr rs \<Rightarrow> role_scopes rs | _ \<Rightarrow> []))"
proof -
  define ws where "ws = (case jget payload ''scp'' of JStr s \<Rightarrow> split_ws s | _ \<Rightarrow> [])
          @ (case jget payload ''roles'' of JArr rs \<Rightarrow> role_scopes rs | _ \<Rightarrow> [])"
  have scope: "ws \<noteq> []" "scope = join_with '' '' (dedup ws)"
    using assms(1,2) by (auto simp: extract_oauth_scopes_def Let_def ws_def split: if_splits)
  have "w \<noteq> [] \<and> (\<forall>c \<in> set w. \<not> is_space c)" if "w \<in> set ws" for w
  proof -
    from that consider (scp) s where "w \<in> set (split_ws s)"
      | (role) rs where "jget payload ''roles'' = JArr rs" "w \<in> set (role_scopes rs)"
      by (cases "jget payload ''scp''"; cases "jget payload ''roles''") (auto simp: ws_def)
    then show ?thesis
    proof cases
      case scp
      then show ?thesis by (rule split_ws_words)
    next
      case role
      with assms(3) role_scopes_nonempty [OF role(2)] show ?thesis by auto
    qed
  qed
  then have rt: "split_ws scope = dedup ws" unfolding scope(2) by (intro split_ws_join) auto
  have "scope \<noteq> []"
  proof
    assume "scope = []"
    with rt have "dedup ws = []" by (simp add: split_ws_def)
    with scope(1) show False by simp
  qed
  with rt show ?thesis by (simp add: ws_def)
qed

theorem extracted_scopes_roundtrip_witness:
  "split_ws ''Mail.Read IMAP.AccessAsUser.All'' = [''Mail.Read'', ''IMAP.AccessAsUser.All'']"
proof -
  let ?p = "JObj [(''scp'', JStr ''Mail.Read IMAP.AccessAsUser.All Mail.Read'')]"
  let ?l = "\<lambda>s. if s = ''body'' then Some ?p else None"
  have 1: "extract_oauth_scopes ?l ''h.body.s'' = Some ''Mail.Read IMAP.AccessAsUser.All''"
    by code_simp
  have 2: "decode_jwt_payload ?l ''h.body.s'' = Some ?p"
    by code_simp
  have 3: "jget ?p ''scp'' = JStr ''Mail.Read IMAP.AccessAsUser.All Mail.Read''"
    "jget ?p ''roles'' = JNull" by simp_all
  have 4: "dedup (split_ws ''Mail.Read IMAP.AccessAsUser.All Mail.Read'') = [''Mail.Read'', ''IMAP.AccessAsUser.All'']"
    by code_simp
  show ?thesis using extracted_scopes_roundtrip [OF 1 2] 3 4 by simp
qed

end
