(* ===== verification/CodeMatcher.thy ===== *)
theory CodeMatcher
  imports PyText
begin

text \<open>
  \<open>mailbox_service/verification_code_matcher.py\<close>: the bounded scanners that find a verification
  code in a mail. The loops keep the source's index arithmetic; the reference definitions they
  are proved equivalent to work on the list of maximal runs of a tx.
\<close>

subsection \<open>Options\<close>

datatype pattern_type = Digits | Alphanumeric | Xai

record pattern_options =
  pattern_type :: pattern_type
  minimum_length :: nat
  maximum_length :: nat
  prefix_opt :: "string option"

datatype matcher_error = LengthOutOfRange | LengthOrder | PrefixTooLong | UnknownPreset

definition validate_options :: "pattern_options \<Rightarrow> matcher_error + pattern_options" where
  \<comment> \<open>the field bounds and \<open>validate_length_order\<close>\<close>
  "validate_options opts =
     (if \<not> (4 \<le> minimum_length opts \<and> minimum_length opts \<le> 16
             \<and> 4 \<le> maximum_length opts \<and> maximum_length opts \<le> 16) then Inl LengthOutOfRange
      else if (case prefix_opt opts of None \<Rightarrow> False | Some p \<Rightarrow> 32 < length p) then Inl PrefixTooLong
      else if maximum_length opts < minimum_length opts then Inl LengthOrder
      else Inr (case prefix_opt opts of
                  None \<Rightarrow> opts
                | Some p \<Rightarrow> opts\<lparr>prefix_opt := (if strip p = [] then None else Some (strip p))\<rparr>))"

definition safe_code_regex_presets :: "(string \<times> pattern_type) list" where
  \<comment> \<open>the backslash of the raw strings is the code point 92\<close>
  "safe_code_regex_presets =
     (let bs = [char_of (92 :: nat)]
      in [(bs @ ''b('' @ bs @ ''d{4,8})'' @ bs @ ''b'', Digits),
          (bs @ ''d{4,8}'', Digits),
          (''digits'', Digits),
          (''alphanumeric'', Alphanumeric),
          (''xai'', Xai),
          (bs @ ''b([A-Z0-9]{3}-[A-Z0-9]{3})'' @ bs @ ''b'', Xai)])"

definition from_deprecated_code_regex :: "string option \<Rightarrow> matcher_error + pattern_options option" where
  "from_deprecated_code_regex code_regex =
     (case code_regex of
        None \<Rightarrow> Inr None
      | Some r \<Rightarrow>
          if strip r = [] then Inr None
          else case map_of safe_code_regex_presets (strip r) of
                 None \<Rightarrow> Inl UnknownPreset
               | Some t \<Rightarrow>
                   map_sum id Some (validate_options
                     \<lparr>pattern_type = t, minimum_length = (if t \<noteq> Xai then 4 else 7),
                      maximum_length = (if t \<noteq> Xai then 8 else 7), prefix_opt = None\<rparr>))"

subsection \<open>Character classes\<close>

definition is_alphanumeric :: "char \<Rightarrow> bool" where
  "is_alphanumeric c \<longleftrightarrow> is_ascii_digit c \<or> is_upper_ascii c \<or> is_lower_ascii c"

definition is_code_char :: "pattern_type \<Rightarrow> char \<Rightarrow> bool" where
  "is_code_char t c = (if t = Digits then is_digit c else is_alphanumeric c)"

subsection \<open>Scanning\<close>

function skip_while :: "(char \<Rightarrow> bool) \<Rightarrow> string \<Rightarrow> nat \<Rightarrow> nat" where
  \<comment> \<open>\<open>while index < text_length and p(text[index]): index += 1\<close>\<close>
  "skip_while p tx index =
     (if index < length tx \<and> p (tx ! index) then skip_while p tx (Suc index) else index)"
  by pat_completeness auto
termination by (relation "measure (\<lambda>(p, tx, index). length tx - index)") auto

declare skip_while.simps [simp del]

definition slice :: "string \<Rightarrow> nat \<Rightarrow> nat \<Rightarrow> string" where
  \<comment> \<open>\<open>text[i:j]\<close> with \<open>0 <= i\<close>\<close>
  "slice tx i j = take (j - i) (drop i tx)"

lemma skip_while_ge: "index \<le> skip_while p tx index"
  by (induction p tx index rule: skip_while.induct) (subst skip_while.simps, auto)

lemma skip_while_eq:
  "skip_while p tx index = index + length (takeWhile p (drop index tx))"
proof (induction p tx index rule: skip_while.induct)
  case (1 p tx index)
  show ?case
  proof (cases "index < length tx \<and> p (tx ! index)")
    case True
    with 1 have "skip_while p tx (Suc index) = Suc index + length (takeWhile p (drop (Suc index) tx))"
      by blast
    with True show ?thesis
      by (simp add: skip_while.simps [of p tx index] Cons_nth_drop_Suc [symmetric])
  next
    case False
    then have "takeWhile p (drop index tx) = []"
      by (cases "index < length tx") (auto simp: Cons_nth_drop_Suc [symmetric])
    with False show ?thesis by (subst skip_while.simps) auto
  qed
qed

lemma slice_skip: "slice tx i (skip_while p tx i) = takeWhile p (drop i tx)"
  by (simp add: slice_def skip_while_eq takeWhile_eq_take [symmetric])

lemma drop_skip: "drop (skip_while p tx i) tx = dropWhile p (drop i tx)"
  by (simp add: skip_while_eq dropWhile_eq_drop add.commute)

lemma skip_while_le: "i \<le> length tx \<Longrightarrow> skip_while p tx i \<le> length tx"
  using length_takeWhile_le [of p "drop i tx"] by (simp add: skip_while_eq)

lemma skip_while_stops: "skip_while p tx i < length tx \<Longrightarrow> i \<le> length tx \<Longrightarrow> \<not> p (tx ! skip_while p tx i)"
proof -
  assume "skip_while p tx i < length tx"
  then have "dropWhile p (drop i tx) = tx ! skip_while p tx i # drop (Suc (skip_while p tx i)) tx"
    by (metis Cons_nth_drop_Suc drop_skip)
  then show ?thesis by (metis hd_dropWhile list.discI list.sel(1))
qed

lemma skip_while_progress: "i < length tx \<Longrightarrow> p (tx ! i) \<Longrightarrow> i < skip_while p tx i"
  using skip_while_ge [of "Suc i" p tx] by (simp add: skip_while.simps [of p tx i])

function search_token_from :: "pattern_options \<Rightarrow> string \<Rightarrow> nat \<Rightarrow> string option" where
  "search_token_from opts tx index =
     (let p = is_code_char (pattern_type opts)
      in if index < length tx
         then if \<not> p (tx ! index) then search_token_from opts tx (Suc index)
              else
                let start_index = index;
                    index = skip_while p tx index;
                    token = slice tx start_index index
                in if minimum_length opts \<le> length token \<and> length token \<le> maximum_length opts
                   then if 0 < start_index \<and> p (tx ! (start_index - 1)) then search_token_from opts tx index
                        else if index < length tx \<and> p (tx ! index) then search_token_from opts tx index
                        else Some token
                   else search_token_from opts tx index
         else None)"
  by pat_completeness auto
termination
  by (relation "measure (\<lambda>(opts, tx, index). length tx - index)")
    (auto simp: skip_while_progress diff_less_mono2)

declare search_token_from.simps [simp del]

definition search_token :: "pattern_options \<Rightarrow> string \<Rightarrow> string option" where
  "search_token opts tx = search_token_from opts tx 0"

definition read_code_at :: "pattern_options \<Rightarrow> string \<Rightarrow> nat \<Rightarrow> string option" where
  "read_code_at opts tx start_index =
     (let code_start = skip_while is_space tx start_index;
          index = skip_while (is_code_char (pattern_type opts)) tx code_start;
          token = slice tx code_start index
      in if minimum_length opts \<le> length token \<and> length token \<le> maximum_length opts then Some token else None)"

definition find_at :: "string \<Rightarrow> string \<Rightarrow> nat \<Rightarrow> nat option" where
  \<comment> \<open>\<open>text.find(p, start)\<close>\<close>
  "find_at tx p start = (if length tx < start then None else map_option (\<lambda>i. i + start) (find_first (drop start tx) p))"

lemma find_first_bound: "find_first s p = Some i \<Longrightarrow> i \<le> length s"
  by (induction s arbitrary: i) (auto split: if_splits)

lemma find_at_bounds: "find_at tx p start = Some i \<Longrightarrow> start \<le> i \<and> i \<le> length tx"
  by (auto simp: find_at_def split: if_splits dest!: find_first_bound)

function search_with_prefix_from :: "pattern_options \<Rightarrow> string \<Rightarrow> string \<Rightarrow> nat \<Rightarrow> string option" where
  "search_with_prefix_from opts tx pre search_from =
     (case find_at (lower_str tx) (lower_str pre) search_from of
        None \<Rightarrow> None
      | Some prefix_index \<Rightarrow>
          (case read_code_at opts tx (prefix_index + length pre) of
             Some found \<Rightarrow> Some found
           | None \<Rightarrow> search_with_prefix_from opts tx pre (Suc prefix_index)))"
  by pat_completeness auto
termination
  by (relation "measure (\<lambda>(opts, tx, pre, search_from). Suc (length tx) - search_from)")
    (auto dest!: find_at_bounds)

declare search_with_prefix_from.simps [simp del]

definition search_with_prefix :: "pattern_options \<Rightarrow> string \<Rightarrow> string \<Rightarrow> string option" where
  "search_with_prefix opts tx pre = search_with_prefix_from opts tx pre 0"

definition xai_label_follows :: "string \<Rightarrow> bool" where
  \<comment> \<open>the \<open>require_xai_label\<close> checks on \<open>text[index:]\<close>\<close>
  "xai_label_follows rest =
     (let remaining = lstrip rest
      in starts_with (upper_str remaining) ''XAI'' \<and> upper_str (take 3 remaining) = ''XAI''
         \<and> \<not> (3 < length remaining \<and> is_alphanumeric (remaining ! 3)))"

function match_xai_from :: "string \<Rightarrow> bool \<Rightarrow> nat \<Rightarrow> string option" where
  "match_xai_from tx require_xai_label index =
     (if index < length tx
      then if \<not> is_alphanumeric (tx ! index) then match_xai_from tx require_xai_label (Suc index)
           else
             let start_index = index;
                 index = skip_while is_alphanumeric tx index;
                 first_segment = slice tx start_index index
             in if length first_segment \<noteq> 3 then match_xai_from tx require_xai_label index
                else if length tx \<le> index \<or> tx ! index \<noteq> CHR ''-'' then match_xai_from tx require_xai_label index
                else
                  let second_start = Suc index;
                      index = skip_while is_alphanumeric tx second_start;
                      second_segment = slice tx second_start index
                  in if length second_segment \<noteq> 3 then match_xai_from tx require_xai_label index
                     else if (if require_xai_label then \<not> xai_label_follows (drop index tx)
                              else (0 < start_index \<and> is_alphanumeric (tx ! (start_index - 1)))
                                   \<or> (index < length tx \<and> is_alphanumeric (tx ! index)))
                     then match_xai_from tx require_xai_label index
                     else Some (upper_str first_segment @ ''-'' @ upper_str second_segment)
      else None)"
  by pat_completeness auto
termination
  apply (relation "measure (\<lambda>(tx, require, index). length tx - index)")
        apply (auto simp: skip_while_progress diff_less_mono2)
  apply (meson diff_less_mono2 less_trans less_Suc_eq_le skip_while_ge skip_while_progress order_less_le_trans lessI)+
  done

declare match_xai_from.simps [simp del]

definition joined :: "string \<Rightarrow> string \<Rightarrow> string" where
  \<comment> \<open>\<open>"\n".join(part for part in [subject, body] if part)\<close>\<close>
  "joined subject body =
     (if subject = [] then body else if body = [] then subject else subject @ [char_of (10 :: nat)] @ body)"

definition search_xai :: "string \<Rightarrow> string \<Rightarrow> string option" where
  "search_xai subject body =
     (case match_xai_from subject True 0 of
        Some found \<Rightarrow> Some found
      | None \<Rightarrow> match_xai_from (joined subject body) False 0)"

definition search :: "pattern_options \<Rightarrow> string \<Rightarrow> string \<Rightarrow> string option" where
  "search opts subject body =
     (if pattern_type opts = Xai then search_xai subject body
      else case prefix_opt opts of
             None \<Rightarrow> search_token opts (joined subject body)
           | Some pre \<Rightarrow> if pre = [] then search_token opts (joined subject body)
                         else search_with_prefix opts (joined subject body) pre)"

subsection \<open>Reference definitions\<close>

function runs_of :: "(char \<Rightarrow> bool) \<Rightarrow> string \<Rightarrow> string list" where
  \<comment> \<open>the maximal runs of characters satisfying \<open>p\<close>, from left to right\<close>
  "runs_of p [] = []"
| "runs_of p (c # s) = (if p c then (c # takeWhile p s) # runs_of p (dropWhile p s) else runs_of p s)"
  by pat_completeness auto
termination
  by (relation "measure (\<lambda>(p, s). length s)") (auto simp: le_imp_less_Suc length_dropWhile_le)

definition good_length :: "pattern_options \<Rightarrow> string \<Rightarrow> bool" where
  "good_length opts w \<longleftrightarrow> minimum_length opts \<le> length w \<and> length w \<le> maximum_length opts"

lemma runs_of_drop:
  assumes "i < length tx"
  shows "runs_of p (drop i tx) =
     (if p (tx ! i) then takeWhile p (drop i tx) # runs_of p (dropWhile p (drop i tx))
      else runs_of p (drop (Suc i) tx))"
  using assms by (simp add: Cons_nth_drop_Suc [symmetric])

lemma runs_of_run: "w \<in> set (runs_of p s) \<Longrightarrow> w \<noteq> [] \<and> (\<forall>c \<in> set w. p c) \<and> (\<exists>u v. s = u @ w @ v)"
proof (induction p s rule: runs_of.induct)
  case (1 p)
  then show ?case by simp
next
  case (2 p c s)
  show ?case
  proof (cases "p c")
    case False
    with 2 have "w \<noteq> [] \<and> (\<forall>c \<in> set w. p c) \<and> (\<exists>u v. s = u @ w @ v)" by simp
    then show ?thesis by (metis append_Cons)
  next
    case True
    then consider "w = c # takeWhile p s" | "w \<in> set (runs_of p (dropWhile p s))"
      using 2(3) by auto
    then show ?thesis
    proof cases
      case 1
      have "c # s = [] @ w @ dropWhile p s" using 1 by simp
      then have "\<exists>u v. c # s = u @ w @ v" by blast
      with 1 True show ?thesis by (metis list.distinct(1) set_ConsD set_takeWhileD)
    next
      case 2
      with \<open>p c\<close> "2.IH"(1) have w: "w \<noteq> []" "\<forall>c \<in> set w. p c" and "\<exists>u v. dropWhile p s = u @ w @ v" by auto
      then obtain u v where "dropWhile p s = u @ w @ v" by blast
      then have "c # s = (c # takeWhile p s @ u) @ w @ v"
        by (metis append_Cons append_assoc takeWhile_dropWhile_id)
      with w show ?thesis by blast
    qed
  qed
qed

lemma search_token_from_runs:
  assumes "i = 0 \<or> length tx \<le> i \<or> \<not> is_code_char (pattern_type opts) (tx ! (i - 1))
    \<or> \<not> is_code_char (pattern_type opts) (tx ! i)"
  shows "search_token_from opts tx i =
     find (good_length opts) (runs_of (is_code_char (pattern_type opts)) (drop i tx))"
  using assms
proof (induction "length tx - i" arbitrary: i rule: less_induct)
  case less
  define p where "p = is_code_char (pattern_type opts)"
  have IH: "search_token_from opts tx j = find (good_length opts) (runs_of p (drop j tx))"
    if "i < j" "i < length tx" "j = 0 \<or> length tx \<le> j \<or> \<not> p (tx ! (j - 1)) \<or> \<not> p (tx ! j)" for j
    using less.hyps [of j] that by (auto simp: p_def)
  note unfold = search_token_from.simps [of opts tx i, folded p_def]
  show ?case
  proof (cases "i < length tx")
    case False
    then show ?thesis by (simp add: unfold)
  next
    case inside: True
    show ?thesis
    proof (cases "p (tx ! i)")
      case False
      with inside IH [of "Suc i"] show ?thesis by (simp add: unfold runs_of_drop p_def)
    next
      case True
      define k where "k = skip_while p tx i"
      define w where "w = takeWhile p (drop i tx)"
      have w: "slice tx i k = w" by (simp add: k_def w_def slice_skip)
      have stop: "\<not> (k < length tx \<and> p (tx ! k))"
        using skip_while_stops [of p tx i] inside by (auto simp: k_def)
      have start: "\<not> (0 < i \<and> p (tx ! (i - 1)))" using less.prems True inside by (auto simp: p_def)
      have runs: "runs_of p (drop i tx) = w # runs_of p (drop k tx)"
        using inside True by (simp add: runs_of_drop w_def k_def drop_skip)
      have "i < k" using skip_while_progress [of i tx p] inside True by (simp add: k_def)
      then have rest: "search_token_from opts tx k = find (good_length opts) (runs_of p (drop k tx))"
        using IH [of k] inside stop by auto
      have step: "search_token_from opts tx i =
          (if good_length opts w then Some w else search_token_from opts tx k)"
        unfolding unfold [unfolded Let_def] k_def [symmetric] w good_length_def using inside True start stop by auto
      show ?thesis using step rest runs by (simp add: p_def [symmetric])
    qed
  qed
qed

lemma find_shift: "find P (map f xs) = map_option f (find (P \<circ> f) xs)"
  by (induction xs) auto

lemma upt_0_Suc: "[0..<Suc n] = 0 # map Suc [0..<n]"
  by (simp add: map_Suc_upt upt_conv_Cons del: upt_Suc)

lemma find_first_find: "find_first s p = find (\<lambda>i. starts_with (drop i s) p) [0..<Suc (length s)]"
proof (induction s)
  case Nil
  then show ?case by (auto simp: starts_with_def)
next
  case (Cons c s)
  then show ?case
    by (simp add: upt_0_Suc [of "Suc (length s)"] find_shift comp_def del: upt_Suc)
qed

lemma find_at_find:
  "find_at tx p start = find (\<lambda>i. starts_with (drop i tx) p) [start..<Suc (length tx)]"
proof (cases "start \<le> length tx")
  case True
  have "[start..<Suc (length tx)] = map (\<lambda>i. i + start) [0..<Suc (length tx - start)]"
    using True map_add_upt [of start "Suc (length tx - start)"] by (simp add: add.commute Suc_diff_le del: upt_Suc)
  then show ?thesis using True
    by (simp add: find_at_def find_first_find find_shift comp_def add.commute del: upt_Suc)
qed (simp add: find_at_def)

lemma find_upt_Some:
  assumes "find P [i..<n] = Some k"
  shows "i \<le> k \<and> k < n \<and> P k \<and> find Q [i..<n] = (case find Q [i..<k] of Some j \<Rightarrow> Some j | None \<Rightarrow> find Q [k..<n])"
proof -
  from assms have k: "i \<le> k" "k < n" "P k" by (auto simp: find_Some_iff)
  then have "[i..<n] = [i..<k] @ [k..<n]" by (metis le_add_diff_inverse less_imp_le_nat upt_add_eq_append)
  moreover have "find Q (xs @ ys) = (case find Q xs of Some j \<Rightarrow> Some j | None \<Rightarrow> find Q ys)" for xs ys
    by (induction xs) auto
  ultimately show ?thesis using k by simp
qed

lemma find_none_before:
  assumes "find P [i..<n] = Some k" and "\<And>j. Q j \<Longrightarrow> P j"
  shows "find Q [i..<k] = None"
proof -
  obtain m where m: "m < n - i" "k = i + m" "\<forall>j < m. \<not> P (i + j)"
    using assms(1) by (auto simp: find_Some_iff nth_upt)
  have "\<not> Q j" if "i \<le> j" "j < k" for j
    using m(3) [rule_format, of "j - i"] that m(2) assms(2) [of j] by auto
  then show ?thesis by (auto simp: find_None_iff)
qed

definition prefix_hit :: "pattern_options \<Rightarrow> string \<Rightarrow> string \<Rightarrow> nat \<Rightarrow> bool" where
  \<comment> \<open>the prefix occurs at \<open>i\<close>, ignoring case, and a code of good length follows it\<close>
  "prefix_hit opts tx pre i \<longleftrightarrow>
     starts_with (drop i (lower_str tx)) (lower_str pre) \<and> read_code_at opts tx (i + length pre) \<noteq> None"

lemma search_with_prefix_from_find:
  "search_with_prefix_from opts tx pre start =
     (case find (prefix_hit opts tx pre) [start..<Suc (length tx)] of
        None \<Rightarrow> None | Some i \<Rightarrow> read_code_at opts tx (i + length pre))"
proof (induction opts tx pre start rule: search_with_prefix_from.induct)
  case (1 opts tx pre start)
  define P where "P = (\<lambda>i. starts_with (drop i (lower_str tx)) (lower_str pre))"
  let ?n = "Suc (length tx)"
  have at: "find_at (lower_str tx) (lower_str pre) start = find P [start..<?n]"
    by (simp add: find_at_find P_def)
  note unfold = search_with_prefix_from.simps [of opts tx pre start, unfolded at]
  show ?case
  proof (cases "find P [start..<?n]")
    case None
    then have "find (prefix_hit opts tx pre) [start..<?n] = None"
      by (auto simp: find_None_iff prefix_hit_def P_def)
    with None show ?thesis by (simp add: unfold del: upt_Suc)
  next
    case (Some k)
    have k: "k < ?n" "P k" using find_upt_Some [OF Some] by blast+
    have split: "find (prefix_hit opts tx pre) [start..<?n] = find (prefix_hit opts tx pre) [k..<?n]"
      using find_upt_Some [OF Some, of "prefix_hit opts tx pre"]
        find_none_before [OF Some, of "prefix_hit opts tx pre"] by (simp add: prefix_hit_def P_def del: upt_Suc)
    have up: "[k..<?n] = k # [Suc k..<?n]" using k(1) by (simp add: upt_conv_Cons del: upt_Suc)
    show ?thesis
    proof (cases "read_code_at opts tx (k + length pre)")
      case None
      then have "\<not> prefix_hit opts tx pre k" by (simp add: prefix_hit_def)
      with None Some split up 1 [unfolded at, OF Some None] show ?thesis
        by (simp add: unfold del: upt_Suc)
    next
      case (Some found)
      then have "prefix_hit opts tx pre k" using k(2) by (simp add: prefix_hit_def P_def)
      with Some \<open>find P [start..<?n] = Some k\<close> split up show ?thesis
        by (simp add: unfold del: upt_Suc)
    qed
  qed
qed

subsection \<open>Properties\<close>

text \<open>
  The token scan is the reference search: it returns the first maximal run of code characters
  whose length lies between the configured bounds, and nothing when there is none. In particular
  it terminates on every text, never returns part of a longer run, and misses no acceptable run.
\<close>

theorem search_token_is_first_good_run:
  "search_token opts tx = find (good_length opts) (runs_of (is_code_char (pattern_type opts)) tx)"
  by (simp add: search_token_def search_token_from_runs)

text \<open>
  The prefix search is the reference search: it returns the code after the leftmost
  occurrence of the prefix (ignoring case) that is followed, after white space, by a run of code
  characters of acceptable length.
\<close>

theorem search_with_prefix_is_leftmost_hit:
  "search_with_prefix opts tx pre =
     (case find (prefix_hit opts tx pre) [0..<Suc (length tx)] of
        None \<Rightarrow> None | Some i \<Rightarrow> read_code_at opts tx (i + length pre))"
  by (simp add: search_with_prefix_def search_with_prefix_from_find del: upt_Suc)

lemma slice_part: "\<exists>u v. tx = u @ slice tx i j @ v"
  by (metis append_take_drop_id slice_def)

lemma read_code_at_sound:
  "read_code_at opts tx i = Some w \<Longrightarrow>
     good_length opts w \<and> (\<forall>c \<in> set w. is_code_char (pattern_type opts) c) \<and> (\<exists>u v. tx = u @ w @ v)"
  using slice_part [of tx]
  by (auto simp: read_code_at_def Let_def good_length_def slice_skip dest: set_takeWhileD split: if_splits)
    (metis slice_skip)+

definition xai_shape :: "string \<Rightarrow> string \<Rightarrow> bool" where
  "xai_shape tx w \<longleftrightarrow> (\<exists>a b u v. w = upper_str a @ ''-'' @ upper_str b \<and> length a = 3 \<and> length b = 3
     \<and> (\<forall>c \<in> set (a @ b). is_alphanumeric c) \<and> tx = u @ a @ ''-'' @ b @ v)"

lemma match_xai_shape: "match_xai_from tx lab i = Some w \<Longrightarrow> xai_shape tx w"
proof (induction "length tx - i" arbitrary: i rule: less_induct)
  case less
  define k where "k = skip_while is_alphanumeric tx i"
  define m where "m = skip_while is_alphanumeric tx (Suc k)"
  define a where "a = slice tx i k"
  define b where "b = slice tx (Suc k) m"
  have IH: "match_xai_from tx lab j = Some w \<Longrightarrow> xai_shape tx w" if "i < j" "i < length tx" for j
    using less.hyps [of j] that by auto
  have km: "i < k" if "i < length tx" "is_alphanumeric (tx ! i)"
    using that skip_while_progress [of i tx is_alphanumeric] by (simp add: k_def)
  have mk: "k < m" using skip_while_ge [of "Suc k" is_alphanumeric tx] by (simp add: m_def)
  note unfold = match_xai_from.simps [of tx lab i, unfolded Let_def, folded k_def, folded m_def a_def, folded b_def]
  show ?case
  proof (cases "i < length tx \<and> is_alphanumeric (tx ! i) \<and> length a = 3 \<and> k < length tx
      \<and> tx ! k = CHR ''-'' \<and> length b = 3 \<and> w = upper_str a @ ''-'' @ upper_str b")
    case True
    have alnum: "\<forall>c \<in> set (a @ b). is_alphanumeric c"
      by (auto simp: a_def b_def k_def m_def slice_skip dest: set_takeWhileD)
    have ab: "drop i tx = a @ drop k tx" "drop (Suc k) tx = b @ drop m tx"
      by (simp_all add: a_def b_def k_def m_def slice_skip drop_skip)
    have "drop k tx = CHR ''-'' # drop (Suc k) tx" using True by (metis Cons_nth_drop_Suc)
    with ab have "tx = take i tx @ a @ ''-'' @ b @ drop m tx"
      by (metis append_Cons append_Nil append_take_drop_id)
    with True alnum show ?thesis unfolding xai_shape_def by blast
  next
    case False
    have "i < length tx" using less.prems by (simp add: unfold split: if_splits)
    consider "match_xai_from tx lab (Suc i) = Some w"
      | "is_alphanumeric (tx ! i)" "match_xai_from tx lab k = Some w"
      | "is_alphanumeric (tx ! i)" "match_xai_from tx lab m = Some w"
      using less.prems False unfolding unfold by (auto split: if_splits)
    then show ?thesis
      using IH [of "Suc i"] IH [of k] IH [of m] km mk \<open>i < length tx\<close> by cases auto
  qed
qed

text \<open>
  Every code the matcher returns is really in the mail: without the XAI pattern it is a
  contiguous piece of the subject and body joined by a newline, made of code characters only and
  within the length bounds; with the XAI pattern it is the upper-cased form of three
  alphanumerics, a dash and three alphanumerics found in the subject or the joined text.
\<close>

theorem search_returns_code_of_text:
  assumes "search opts subject body = Some w"
  shows "if pattern_type opts = Xai then xai_shape subject w \<or> xai_shape (joined subject body) w
     else good_length opts w \<and> (\<forall>c \<in> set w. is_code_char (pattern_type opts) c)
          \<and> contains (joined subject body) w"
proof -
  have tok: "good_length opts w \<and> (\<forall>c \<in> set w. is_code_char (pattern_type opts) c) \<and> contains tx w"
    if "search_token opts tx = Some w" for tx
    using that by (auto simp: search_token_is_first_good_run find_Some_iff contains_iff
        dest!: runs_of_run [OF nth_mem])
  have pre: "good_length opts w \<and> (\<forall>c \<in> set w. is_code_char (pattern_type opts) c) \<and> contains tx w"
    if "search_with_prefix opts tx pre = Some w" for tx pre
    using that read_code_at_sound
    by (auto simp: search_with_prefix_is_leftmost_hit contains_iff split: option.splits simp del: upt_Suc)
  show ?thesis
    using assms tok pre match_xai_shape
    by (auto simp: search_def search_xai_def split: option.splits if_splits)
qed

theorem search_returns_code_of_text_witness:
  "search \<lparr>pattern_type = Digits, minimum_length = 4, maximum_length = 8, prefix_opt = None\<rparr>
     ''Your code'' ''is 482913, id 77'' = Some ''482913''
   \<and> contains (joined ''Your code'' ''is 482913, id 77'') ''482913''"
proof -
  have s: "search \<lparr>pattern_type = Digits, minimum_length = 4, maximum_length = 8, prefix_opt = None\<rparr>
     ''Your code'' ''is 482913, id 77'' = Some ''482913''"
    by code_simp
  show ?thesis using s search_returns_code_of_text [OF s] by simp
qed

text \<open>
  The deprecated \<open>code_regex\<close> never reaches a regex engine: any string that is not blank and
  not a registered preset is an error, and a registered preset yields validated options whose
  bounds lie between 4 and 16.
\<close>

theorem deprecated_regex_is_preset_or_error:
  "case from_deprecated_code_regex r of
     Inl e \<Rightarrow> e = UnknownPreset \<and> (\<exists>x. r = Some x \<and> strip x \<notin> fst ` set safe_code_regex_presets)
   | Inr None \<Rightarrow> r = None \<or> (\<exists>x. r = Some x \<and> strip x = [])
   | Inr (Some opts) \<Rightarrow> (\<exists>x. r = Some x \<and> map_of safe_code_regex_presets (strip x) = Some (pattern_type opts))
       \<and> validate_options opts = Inr opts"
proof (cases r)
  case (Some x)
  show ?thesis
  proof (cases "strip x = []")
    case True
    with Some show ?thesis by (simp add: from_deprecated_code_regex_def)
  next
    case nonblank: False
    show ?thesis
    proof (cases "map_of safe_code_regex_presets (strip x)")
      case None
      then have "strip x \<notin> fst ` set safe_code_regex_presets" by (metis map_of_eq_None_iff)
      with None nonblank Some show ?thesis by (simp add: from_deprecated_code_regex_def)
    next
      case (Some t)
      with nonblank \<open>r = Some x\<close> show ?thesis
        by (simp add: from_deprecated_code_regex_def validate_options_def)
    qed
  qed
qed (simp add: from_deprecated_code_regex_def)

text \<open>
  The digits pattern is not limited to the digits 0 to 9: \<open>str.isdigit\<close> accepts superscript
  digits, so a run such as 12 followed by a superscript two and 4 is returned as a code.
\<close>

theorem digits_pattern_accepts_superscript:
  "search \<lparr>pattern_type = Digits, minimum_length = 4, maximum_length = 8, prefix_opt = None\<rparr>
     [] (''12'' @ [char_of (178 :: nat)] @ ''4'') = Some (''12'' @ [char_of (178 :: nat)] @ ''4'')
   \<and> \<not> is_ascii_digit (char_of (178 :: nat))"
  by code_simp

end
