(* ===== verification/Tables.thy ===== *)
theory Tables
  imports Prelude Json
begin

text \<open>
  The persisted model (\<open>models.py\<close>): one datatype per enumeration, one record per table, and the
  database as the record of its tables, each the list of its rows. Field names carry the table's
  initials in front of the column's name. Ciphertexts are strings and stay opaque; a nullable column
  is an option. Columns that no modelled operation reads or writes are left out: an audit row's and a
  health event's own id and creation time.
  \<open>write_audit_event\<close> is the one writer shared by all components.
\<close>

subsection \<open>Enumerations\<close>

datatype mailbox_status = MbActive | MbDisabled | MbInvalid | MbCooldown

datatype proxy_protocol = HttpConnect | Socks5

datatype proxy_status = PxHealthy | PxCooldown | PxUnknown

datatype lease_mode = RefreshToken | AccessToken | MailRead

datatype mailbox_capability = CapImap | CapGraph | CapUnusable | CapUnknown

datatype resource_lifecycle = Available | Claimed | Releasing | ResCooldown | ReleaseUnknown | Retired

datatype resource_readiness = Ready | NotReady | ReadinessUnknown

datatype operation_type = Replenish | Release | Reconcile

datatype operation_status = OpPending | OpRunning | OpSucceeded | OpFailed | OpUnknown

subsection \<open>Rows\<close>

record mailbox =
  mb_id :: string
  mb_provider_type :: string
  mb_primary_email :: string
  mb_status :: mailbox_status
  mb_client_id :: "string option"
  mb_mail_password_ciphertext :: "string option"
  mb_refresh_token_ciphertext :: "string option"
  mb_refresh_token_updated_at :: "time option"
  mb_refresh_token_expires_at :: "time option"
  mb_access_token_ciphertext :: "string option"
  mb_access_token_expires_at :: "time option"
  mb_access_token_refreshed_at :: "time option"
  mb_access_token_source_version :: "int option"
  mb_scope :: "string option"
  mb_capability :: "mailbox_capability option"
  mb_capability_probed_at :: "time option"
  mb_capability_probe_error :: "string option"
  mb_last_verification_code :: "string option"
  mb_last_code_checked_at :: "time option"
  mb_last_code_message_id :: "string option"
  mb_provider_config_json :: "json option"
  mb_token_version :: int
  mb_token_refresh_claim_id :: "string option"
  mb_token_refresh_claim_expires_at :: "time option"
  mb_egress_proxy_id :: "string option"
  mb_proxy_bound_at :: "time option"
  mb_proxy_last_switch_at :: "time option"
  mb_created_at :: time
  mb_updated_at :: time

record egress_proxy =
  px_id :: string
  px_name :: string
  px_protocol :: proxy_protocol
  px_host :: string
  px_port :: int
  px_username_ciphertext :: "string option"
  px_password_ciphertext :: "string option"
  px_credential_fingerprint :: string
  px_enabled :: bool
  px_priority :: int
  px_status :: proxy_status
  px_consecutive_failure_count :: int
  px_cooldown_until :: "time option"
  px_last_success_at :: "time option"
  px_last_failure_at :: "time option"
  px_last_error_summary :: "string option"
  px_last_observed_at :: "time option"
  px_health_version :: int
  px_created_at :: time
  px_updated_at :: time

record proxy_policy =
  pp_enabled :: bool
  pp_required :: bool
  pp_allowed_protocols :: "string list"   \<comment> \<open>a JSON list of protocol values\<close>
  pp_connect_timeout_seconds :: int
  pp_read_timeout_seconds :: int
  pp_health_check_interval_seconds :: int
  pp_failure_threshold :: int
  pp_cooldown_seconds :: int
  pp_switch_minimum_interval_seconds :: int
  pp_allow_direct_development :: bool
  pp_updated_at :: time

record client_key =
  ck_id :: string
  ck_name :: string
  ck_secret_digest :: string
  ck_scopes :: "string list"
  ck_enabled :: bool
  ck_expires_at :: "time option"
  ck_last_used_at :: "time option"
  ck_created_at :: time
  ck_updated_at :: time

record lease_claim =
  lc_lease_id :: string
  lc_mailbox_id :: "string option"
  lc_provider_resource_id :: "string option"
  lc_client_key_id :: "string option"
  lc_mode :: lease_mode
  lc_allocated_email :: "string option"
  lc_expires_at :: time
  lc_created_at :: time

record lease =
  ls_id :: string
  ls_mailbox_id :: "string option"
  ls_provider_resource_id :: "string option"
  ls_client_key_id :: "string option"
  ls_client_tag :: "string option"
  ls_purpose :: "string option"
  ls_allocated_email :: "string option"
  ls_mode :: lease_mode
  ls_provider_type :: string
  ls_provider_instance_id :: "string option"
  ls_provider_config_revision :: "string option"
  ls_expires_at :: time
  ls_released_at :: "time option"
  ls_created_at :: time

record provider_resource =
  pr_id :: string
  pr_provider_type :: string
  pr_provider_instance_id :: string
  pr_external_resource_id :: string
  pr_primary_email :: string
  pr_lifecycle_state :: resource_lifecycle
  pr_readiness :: resource_readiness
  pr_state_version :: int
  pr_resource_generation :: int
  pr_encrypted_secret :: "string option"
  pr_metadata_json :: "json option"
  pr_last_verification_code :: "string option"
  pr_last_code_checked_at :: "time option"
  pr_last_code_message_id :: "string option"
  pr_created_at :: time
  pr_updated_at :: time

record provider_operation =
  po_id :: string
  po_operation_type :: operation_type
  po_provider_type :: string
  po_provider_instance_id :: string
  po_mailbox_id :: "string option"
  po_provider_resource_id :: "string option"
  po_lease_id :: "string option"
  po_external_resource_id :: "string option"
  po_resource_generation :: "int option"
  po_expected_state_version :: "int option"
  po_status :: operation_status
  po_idempotency_key :: string
  po_attempt_count :: int
  po_last_error_class :: "string option"
  po_result_summary_json :: "json option"
  po_created_at :: time
  po_updated_at :: time

record instance_row =
  ir_provider_type :: string
  ir_instance_id :: string
  ir_enabled :: bool
  ir_api_base :: "string option"
  ir_api_key_ciphertext :: "string option"
  ir_secrets_ciphertext :: "string option"
  ir_service_code :: "string option"
  ir_domain :: "string option"
  ir_max_price :: "real option"
  ir_request_timeout_seconds :: real
  ir_config_json :: json   \<comment> \<open>\<open>JNull\<close> for NULL\<close>
  ir_created_at :: time
  ir_updated_at :: time

record usage_site =
  us_code :: string
  us_display_name :: string
  us_enabled :: bool
  us_created_at :: time

record email_site_usage =
  eu_id :: string
  eu_allocated_email :: string
  eu_usage_site_code :: string
  eu_mailbox_id :: "string option"
  eu_lease_id :: "string option"
  eu_client_key_id :: "string option"
  eu_created_at :: time
  eu_revoked_at :: "time option"
  eu_updated_at :: time

record proxy_health_event =
  he_id :: string
  he_operation_id :: string
  he_proxy_id :: string
  he_outcome :: string
  he_observed_at :: time
  he_latency_ms :: "int option"
  he_error_summary :: "string option"

record audit_log =
  au_actor_type :: string
  au_actor_id :: "string option"
  au_event_type :: string
  au_target_type :: string
  au_target_id :: "string option"
  au_operation_id :: "string option"
  au_metadata :: json

subsection \<open>The database\<close>

record db =
  mailboxes :: "mailbox list"
  proxies :: "egress_proxy list"
  policies :: "proxy_policy option"
  client_keys :: "client_key list"
  claims :: "lease_claim list"
  leases :: "lease list"
  resources :: "provider_resource list"
  operations :: "provider_operation list"
  instance_settings :: "instance_row list"
  usage_sites :: "usage_site list"
  site_usages :: "email_site_usage list"
  health_events :: "proxy_health_event list"
  audit_logs :: "audit_log list"

definition empty_db :: db where
  "empty_db = \<lparr>mailboxes = [], proxies = [], policies = None, client_keys = [], claims = [], leases = [],
     resources = [], operations = [], instance_settings = [], usage_sites = [], site_usages = [], health_events = [], audit_logs = []\<rparr>"

definition add_audit :: "audit_log \<Rightarrow> (db, 'e, unit) action" where
  "add_audit a = modify (\<lambda>s. s\<lparr>audit_logs := audit_logs s @ [a]\<rparr>)"

definition write_audit_event ::
    "string \<Rightarrow> string option \<Rightarrow> string \<Rightarrow> string \<Rightarrow> string option \<Rightarrow> json option \<Rightarrow> string option \<Rightarrow> (db, 'e, unit) action" where
  "write_audit_event actor_type actor_id event_type target_type target_id metadata operation_id =
     add_audit \<lparr>au_actor_type = actor_type, au_actor_id = actor_id, au_event_type = event_type,
       au_target_type = target_type, au_target_id = target_id, au_operation_id = operation_id,
       au_metadata = (case metadata of None \<Rightarrow> JObj [] | Some m \<Rightarrow> m)\<rparr>"

lemma add_audit_run [run]: "add_audit a s = (Inr (), s\<lparr>audit_logs := audit_logs s @ [a]\<rparr>)"
  by (simp add: add_audit_def run)

lemma add_audit_Inr_iff: "add_audit a s = (Inr y, t) \<longleftrightarrow> t = s\<lparr>audit_logs := audit_logs s @ [a]\<rparr>"
  by (auto simp: add_audit_run)

subsection \<open>Keys and constraints of the schema\<close>

text \<open>
  The primary keys and unique constraints the migrations declare. An insert that violates one is
  refused by the database; the operations below raise in that case, so the constraints are an
  invariant of every operation.
\<close>

definition some_values :: "'a option list \<Rightarrow> 'a list" where
  \<comment> \<open>the values a unique index on a nullable column compares: the ones that are not NULL\<close>
  "some_values = List.map_filter (\<lambda>x. x)"

lemma some_values_simps [simp]:
  "some_values [] = []" "some_values (None # xs) = some_values xs"
  "some_values (Some x # xs) = x # some_values xs"
  by (simp_all add: some_values_def List.map_filter_simps)

lemma some_values_append [simp]: "some_values (xs @ ys) = some_values xs @ some_values ys"
  by (induction xs) (auto simp: some_values_def List.map_filter_simps split: option.splits)

lemma set_some_values [simp]: "x \<in> set (some_values xs) \<longleftrightarrow> Some x \<in> set xs"
  by (induction xs) (auto simp: some_values_def List.map_filter_simps split: option.splits)

lemma distinct_some_values_filter:
  "distinct (some_values (map f xs)) \<Longrightarrow> distinct (some_values (map f (filter P xs)))"
proof (induction xs)
  case Nil
  then show ?case by simp
next
  case (Cons a xs)
  then show ?case by (cases "f a") (auto simp: image_iff)
qed

definition constraints :: "db \<Rightarrow> bool" where
  "constraints s \<longleftrightarrow>
     distinct (map mb_id (mailboxes s)) \<and> distinct (map mb_primary_email (mailboxes s))
     \<and> distinct (map ck_id (client_keys s)) \<and> distinct (map ck_name (client_keys s))
     \<and> distinct (map ck_secret_digest (client_keys s))
     \<and> distinct (map lc_lease_id (claims s)) \<and> distinct (some_values (map lc_allocated_email (claims s)))
     \<and> distinct (map ls_id (leases s)) \<and> distinct (map pr_id (resources s))
     \<and> distinct (map (\<lambda>r. (pr_provider_instance_id r, pr_external_resource_id r)) (resources s))
     \<and> distinct (map po_id (operations s)) \<and> distinct (map po_idempotency_key (operations s))
     \<and> distinct (map us_code (usage_sites s)) \<and> distinct (map eu_id (site_usages s))
     \<and> distinct (map (\<lambda>u. (eu_allocated_email u, eu_usage_site_code u)) (site_usages s))
     \<and> distinct (map px_id (proxies s)) \<and> distinct (map he_operation_id (health_events s))"

end
