(* ===== verification/Catalog.thy ===== *)
theory Catalog
  imports Tables
begin

text \<open>
  The static provider catalog (\<open>providers/catalog.py\<close>), the normalization of provider ids and the
  registry of descriptors (\<open>providers/registry.py\<close>), and the Microsoft-only guards
  (\<open>providers/microsoft_guards.py\<close>). Display names, labels and notes are left out: nothing computes
  with them.
\<close>

datatype field_type = FieldText | FieldPassword | FieldNumber | FieldBool | FieldList

datatype supply_mode = InventoryImport | InventoryReplenish | OnDemand

record field_schema =
  fs_key :: string
  fs_field_type :: field_type
  fs_required :: bool
  fs_secret :: bool
  fs_default :: "json option"

record provider_definition =
  pd_provider_type :: string
  pd_supply_mode :: supply_mode
  pd_supported_modes :: "lease_mode list"
  pd_configurable_in_ui :: bool
  pd_requires_acquire_scope :: bool
  pd_primary_secret_key :: string
  pd_fields :: "field_schema list"

definition field :: "field_type \<Rightarrow> string \<Rightarrow> bool \<Rightarrow> json option \<Rightarrow> field_schema" where
  \<comment> \<open>\<open>_text\<close>, \<open>_secret\<close>, \<open>_list\<close>, \<open>_bool\<close> and \<open>_number\<close>: only \<open>_secret\<close> marks a secret\<close>
  "field k key required d = \<lparr>fs_key = key, fs_field_type = k, fs_required = required,
     fs_secret = (k = FieldPassword), fs_default = d\<rparr>"

definition provider_definitions :: "provider_definition list" where
  "provider_definitions = [
   \<lparr>pd_provider_type = ''microsoft'', pd_supply_mode = InventoryImport, pd_supported_modes = [AccessToken, RefreshToken, MailRead],
      pd_configurable_in_ui = False, pd_requires_acquire_scope = False, pd_primary_secret_key = ''api_key'',
      pd_fields = []\<rparr>,
   \<lparr>pd_provider_type = ''smsbower_gmail'', pd_supply_mode = InventoryReplenish, pd_supported_modes = [MailRead],
      pd_configurable_in_ui = True, pd_requires_acquire_scope = True, pd_primary_secret_key = ''api_key'',
      pd_fields = [field FieldText ''api_base'' False (Some (JStr ''https://smsbower.page/api/mail'')),
        field FieldPassword ''api_key'' True None,
        field FieldText ''service'' False (Some (JStr ''openai'')),
        field FieldText ''domain'' False (Some (JStr ''gmail.com'')),
        field FieldNumber ''max_price'' False None,
        field FieldNumber ''request_timeout_seconds'' False (Some (JInt 30))]\<rparr>,
   \<lparr>pd_provider_type = ''cloudflare_temp_email'', pd_supply_mode = OnDemand, pd_supported_modes = [MailRead],
      pd_configurable_in_ui = True, pd_requires_acquire_scope = True, pd_primary_secret_key = ''admin_password'',
      pd_fields = [field FieldText ''api_base'' True None,
        field FieldPassword ''admin_password'' True None,
        field FieldList ''domain'' True None,
        field FieldNumber ''request_timeout_seconds'' False (Some (JInt 30))]\<rparr>,
   \<lparr>pd_provider_type = ''ddg_mail'', pd_supply_mode = OnDemand, pd_supported_modes = [MailRead],
      pd_configurable_in_ui = True, pd_requires_acquire_scope = True, pd_primary_secret_key = ''ddg_token'',
      pd_fields = [field FieldPassword ''ddg_token'' True None,
        field FieldText ''api_base'' True None,
        field FieldPassword ''cf_inbox_jwt'' False None,
        field FieldPassword ''admin_password'' False None,
        field FieldPassword ''cf_api_key'' False None,
        field FieldText ''cf_auth_mode'' False (Some (JStr ''none'')),
        field FieldList ''cf_domain'' False None,
        field FieldText ''cf_create_path'' False (Some (JStr ''/api/new_address'')),
        field FieldText ''cf_messages_path'' False (Some (JStr ''/api/mails'')),
        field FieldNumber ''request_timeout_seconds'' False (Some (JInt 30))]\<rparr>,
   \<lparr>pd_provider_type = ''cloudmail_gen'', pd_supply_mode = OnDemand, pd_supported_modes = [MailRead],
      pd_configurable_in_ui = True, pd_requires_acquire_scope = True, pd_primary_secret_key = ''admin_password'',
      pd_fields = [field FieldText ''api_base'' True None,
        field FieldText ''admin_email'' True None,
        field FieldPassword ''admin_password'' True None,
        field FieldList ''domain'' True None,
        field FieldList ''subdomain'' False None,
        field FieldText ''email_prefix'' False None,
        field FieldNumber ''request_timeout_seconds'' False (Some (JInt 30))]\<rparr>,
   \<lparr>pd_provider_type = ''tempmail_lol'', pd_supply_mode = OnDemand, pd_supported_modes = [MailRead],
      pd_configurable_in_ui = True, pd_requires_acquire_scope = True, pd_primary_secret_key = ''api_key'',
      pd_fields = [field FieldPassword ''api_key'' False None,
        field FieldList ''domain'' False None,
        field FieldNumber ''request_timeout_seconds'' False (Some (JInt 30))]\<rparr>,
   \<lparr>pd_provider_type = ''duckmail'', pd_supply_mode = OnDemand, pd_supported_modes = [MailRead],
      pd_configurable_in_ui = True, pd_requires_acquire_scope = True, pd_primary_secret_key = ''api_key'',
      pd_fields = [field FieldPassword ''api_key'' True None,
        field FieldText ''default_domain'' False (Some (JStr ''duckmail.sbs'')),
        field FieldNumber ''request_timeout_seconds'' False (Some (JInt 30))]\<rparr>,
   \<lparr>pd_provider_type = ''gptmail'', pd_supply_mode = OnDemand, pd_supported_modes = [MailRead],
      pd_configurable_in_ui = True, pd_requires_acquire_scope = True, pd_primary_secret_key = ''api_key'',
      pd_fields = [field FieldPassword ''api_key'' True None,
        field FieldText ''default_domain'' False None,
        field FieldNumber ''request_timeout_seconds'' False (Some (JInt 30))]\<rparr>,
   \<lparr>pd_provider_type = ''moemail'', pd_supply_mode = OnDemand, pd_supported_modes = [MailRead],
      pd_configurable_in_ui = True, pd_requires_acquire_scope = True, pd_primary_secret_key = ''api_key'',
      pd_fields = [field FieldText ''api_base'' True None,
        field FieldPassword ''api_key'' True None,
        field FieldList ''domain'' False None,
        field FieldNumber ''expiry_time'' False (Some (JInt 0)),
        field FieldNumber ''request_timeout_seconds'' False (Some (JInt 30))]\<rparr>,
   \<lparr>pd_provider_type = ''inbucket'', pd_supply_mode = OnDemand, pd_supported_modes = [MailRead],
      pd_configurable_in_ui = True, pd_requires_acquire_scope = True, pd_primary_secret_key = ''api_key'',
      pd_fields = [field FieldText ''api_base'' True None,
        field FieldList ''domain'' True None,
        field FieldBool ''random_subdomain'' False (Some (JBool True)),
        field FieldNumber ''request_timeout_seconds'' False (Some (JInt 30))]\<rparr>,
   \<lparr>pd_provider_type = ''yyds_mail'', pd_supply_mode = OnDemand, pd_supported_modes = [MailRead],
      pd_configurable_in_ui = True, pd_requires_acquire_scope = True, pd_primary_secret_key = ''api_key'',
      pd_fields = [field FieldText ''api_base'' False (Some (JStr ''https://maliapi.215.im/v1'')),
        field FieldPassword ''api_key'' True None,
        field FieldList ''domain'' False None,
        field FieldText ''subdomain'' False None,
        field FieldBool ''wildcard'' False (Some (JBool False)),
        field FieldNumber ''request_timeout_seconds'' False (Some (JInt 30))]\<rparr>]"

definition all_provider_types :: "string list" where
  "all_provider_types = map pd_provider_type provider_definitions"

definition on_demand_provider_types :: "string list" where
  "on_demand_provider_types = map pd_provider_type (filter (\<lambda>d. pd_supply_mode d = OnDemand) provider_definitions)"

definition inventory_provider_types :: "string list" where
  "inventory_provider_types =
     map pd_provider_type (filter (\<lambda>d. pd_supply_mode d \<in> {InventoryImport, InventoryReplenish}) provider_definitions)"

datatype provider_error = ProviderTypeRequired | ProviderTypeTooLong | ProviderTypeInvalid string
  | UnknownProvider string | DuplicateProvider string | NotMicrosoft

definition get_provider_definition :: "string \<Rightarrow> provider_error + provider_definition" where
  "get_provider_definition t =
     (case row_by pd_provider_type t provider_definitions of
        None \<Rightarrow> Inl (UnknownProvider t) | Some d \<Rightarrow> Inr d)"

definition requires_acquire_scope :: "string \<Rightarrow> bool" where
  \<comment> \<open>\<open>PROVIDER_DEFINITION_BY_TYPE[t].requires_acquire_scope\<close>, for a type of the catalog\<close>
  "requires_acquire_scope t =
     (case row_by pd_provider_type t provider_definitions of None \<Rightarrow> False | Some d \<Rightarrow> pd_requires_acquire_scope d)"

subsection \<open>Provider ids\<close>

definition default_provider_type :: string where
  "default_provider_type = ''microsoft''"

definition provider_char :: "char \<Rightarrow> bool" where
  "provider_char c \<longleftrightarrow> is_lower_ascii c \<or> is_ascii_digit c \<or> c \<in> set ''_-''"

definition normalize_provider_type :: "string \<Rightarrow> provider_error + string" where
  "normalize_provider_type raw =
     (let tx = strip_lower raw
      in if tx = [] then Inl ProviderTypeRequired
         else if 64 < length tx then Inl ProviderTypeTooLong
         else if \<not> list_all provider_char tx then Inl (ProviderTypeInvalid raw)
         else Inr tx)"

definition is_microsoft_provider :: "string option \<Rightarrow> provider_error + bool" where
  "is_microsoft_provider t =
     (case t of None \<Rightarrow> Inr True
      | Some raw \<Rightarrow> if raw = [] then Inr True
          else (case normalize_provider_type raw of Inl e \<Rightarrow> Inl e | Inr tx \<Rightarrow> Inr (tx = default_provider_type)))"

definition require_microsoft_mailbox :: "mailbox option \<Rightarrow> provider_error + mailbox" where
  "require_microsoft_mailbox m =
     (case m of None \<Rightarrow> Inl NotMicrosoft
      | Some mb \<Rightarrow>
          (case normalize_provider_type
                  (if mb_provider_type mb = [] then default_provider_type else mb_provider_type mb) of
             Inl e \<Rightarrow> Inl e
           | Inr tx \<Rightarrow> if tx \<noteq> default_provider_type then Inl NotMicrosoft else Inr mb))"

subsection \<open>The registry\<close>

record descriptor =
  ds_provider_type :: string
  ds_supported_lease_modes :: "string list"
  ds_supply_mode :: string
  ds_has_evidence_source :: bool
  ds_has_on_demand_provisioner :: bool

type_synonym registry = "string \<rightharpoonup> descriptor"

definition register :: "descriptor \<Rightarrow> registry \<Rightarrow> provider_error + registry" where
  "register d reg =
     (case normalize_provider_type (ds_provider_type d) of
        Inl e \<Rightarrow> Inl e
      | Inr t \<Rightarrow> if reg t \<noteq> None then Inl (DuplicateProvider t)
          else Inr (reg(t \<mapsto> d\<lparr>ds_provider_type := t\<rparr>)))"

definition registry_get :: "registry \<Rightarrow> string \<Rightarrow> provider_error + descriptor" where
  "registry_get reg raw =
     (case normalize_provider_type raw of
        Inl e \<Rightarrow> Inl e
      | Inr t \<Rightarrow> (case reg t of None \<Rightarrow> Inl (UnknownProvider t) | Some d \<Rightarrow> Inr d))"

definition is_on_demand :: "registry \<Rightarrow> string \<Rightarrow> provider_error + bool" where
  "is_on_demand reg raw =
     (case normalize_provider_type raw of
        Inl e \<Rightarrow> Inl e
      | Inr t \<Rightarrow> Inr (t \<in> set on_demand_provider_types
            \<or> (case reg t of None \<Rightarrow> False | Some d \<Rightarrow> ds_supply_mode d = ''on_demand'')))"

subsection \<open>Facts about the catalog\<close>

lemma all_provider_types_eq:
  "all_provider_types = [''microsoft'', ''smsbower_gmail'', ''cloudflare_temp_email'', ''ddg_mail'',
     ''cloudmail_gen'', ''tempmail_lol'', ''duckmail'', ''gptmail'', ''moemail'', ''inbucket'', ''yyds_mail'']"
  by code_simp

lemma on_demand_provider_types_eq:
  "on_demand_provider_types = [''cloudflare_temp_email'', ''ddg_mail'', ''cloudmail_gen'', ''tempmail_lol'',
     ''duckmail'', ''gptmail'', ''moemail'', ''inbucket'', ''yyds_mail'']"
  by code_simp

lemma catalog_scopes:
  "list_all (\<lambda>d. pd_requires_acquire_scope d = (pd_provider_type d \<noteq> default_provider_type)) provider_definitions"
  by code_simp

lemma requires_acquire_scope_iff:
  "requires_acquire_scope t \<longleftrightarrow> t \<in> set all_provider_types \<and> t \<noteq> default_provider_type"
  using catalog_scopes row_by_Some [of pd_provider_type t provider_definitions]
    row_by_None [of pd_provider_type t provider_definitions]
  by (auto simp: requires_acquire_scope_def all_provider_types_def list_all_iff split: option.split)

lemma on_demand_scopes: "list_all requires_acquire_scope on_demand_provider_types"
  by code_simp

lemma on_demand_requires_scope: "t \<in> set on_demand_provider_types \<Longrightarrow> requires_acquire_scope t"
  using on_demand_scopes by (simp only: list_all_iff)

lemma normalize_idem: "normalize_provider_type raw = Inr t \<Longrightarrow> normalize_provider_type t = Inr t"
  by (auto simp: normalize_provider_type_def Let_def strip_lower_idem split: if_splits)

text \<open>
  Registering a descriptor makes it retrievable under every spelling of its id that normalizes
  to the same key, with the normalized id in it, leaves every other id as it was, and refuses a
  second registration of the same key.
\<close>

theorem registry_roundtrip:
  assumes "register d reg = Inr reg'" and "normalize_provider_type raw = normalize_provider_type (ds_provider_type d)"
  shows "\<exists>t. normalize_provider_type raw = Inr t \<and> registry_get reg' raw = Inr (d\<lparr>ds_provider_type := t\<rparr>)
     \<and> normalize_provider_type t = Inr t
     \<and> register (d\<lparr>ds_provider_type := raw\<rparr>) reg' = Inl (DuplicateProvider t)
     \<and> (\<forall>other. normalize_provider_type other \<noteq> Inr t \<longrightarrow> registry_get reg' other = registry_get reg other)"
proof -
  obtain t where t: "normalize_provider_type (ds_provider_type d) = Inr t"
    "reg' = reg(t \<mapsto> d\<lparr>ds_provider_type := t\<rparr>)"
    using assms(1) by (auto simp: register_def split: sum.splits if_splits)
  have "registry_get reg' other = registry_get reg other" if "normalize_provider_type other \<noteq> Inr t" for other
    using that t(2) by (auto simp: registry_get_def split: sum.split)
  then show ?thesis
    using t assms(2) normalize_idem [OF t(1)] by (auto simp: registry_get_def register_def)
qed

theorem registry_roundtrip_witness:
  "\<exists>t. normalize_provider_type '' MoeMail'' = Inr t"
proof -
  let ?d = "\<lparr>ds_provider_type = ''moemail'', ds_supported_lease_modes = [''mail_read''], ds_supply_mode = ''on_demand'',
    ds_has_evidence_source = True, ds_has_on_demand_provisioner = True\<rparr>"
  have n: "normalize_provider_type ''moemail'' = Inr ''moemail''" by code_simp
  have m: "normalize_provider_type '' MoeMail'' = Inr ''moemail''" by code_simp
  have "register ?d Map.empty = Inr (Map.empty(''moemail'' \<mapsto> ?d))" by (simp add: register_def n)
  from registry_roundtrip [OF this, of "'' MoeMail''"] show ?thesis by (auto simp: m n)
qed

end
