(* ===== verification/ClientKeys.thy ===== *)
theory ClientKeys
  imports Catalog
begin

text \<open>
  Client API keys (\<open>client_key_service.py\<close>): creation, constant-time authentication, disabling and
  updating. The SHA-256 digest, the fresh uuid and the fresh secret are parameters; constant-time
  comparison is equality.
\<close>

record principal =
  client_key_id :: string
  principal_name :: string
  scopes :: "string list"

datatype client_key_error = AuthenticationFailed | ScopeMissing string | KeyNotFound | NameEmpty
  | UnsupportedScopes "string list" | NoScopes | NameTaken | KeyIntegrity

definition provider_acquire_scope :: "string \<Rightarrow> string" where
  "provider_acquire_scope t = ''providers:'' @ t @ '':acquire''"

definition provider_acquire_scopes :: "string list" where
  "provider_acquire_scopes =
     map (\<lambda>d. provider_acquire_scope (pd_provider_type d)) (filter pd_requires_acquire_scope provider_definitions)"

definition allowed_client_key_scopes :: "string list" where
  "allowed_client_key_scopes =
     [''leases:acquire'', ''leases:release'', ''tokens:access:read'', ''tokens:refresh:read'',
      ''tokens:refresh:write'', ''mailboxes:acquire'', ''mailboxes:reacquire'', ''mail:verification-code:read'']
     @ provider_acquire_scopes"

definition require_scope :: "(string \<Rightarrow> 'e) \<Rightarrow> principal \<Rightarrow> string \<Rightarrow> ('s, 'e, unit) action" where
  \<comment> \<open>the first argument embeds \<open>ClientKeyScopeError\<close> in the caller's errors\<close>
  "require_scope denied p scope = require (scope \<in> set (scopes p)) (denied scope)"

definition check_scopes :: "string list \<Rightarrow> client_key_error + string list" where
  "check_scopes raw =
     (let normalized = dedup raw;
          unsupported = filter (\<lambda>s. s \<notin> set allowed_client_key_scopes) normalized
      in if unsupported \<noteq> [] then Inl (UnsupportedScopes (sort unsupported))
         else if normalized = [] then Inl NoScopes
         else Inr normalized)"

definition insert_client_key :: "client_key \<Rightarrow> (db, client_key_error, unit) action" where
  \<comment> \<open>\<open>session.add\<close> and \<open>flush\<close>: the unique constraints of \<open>client_keys\<close>\<close>
  "insert_client_key k =
     bnd (asks client_keys) (\<lambda>ks.
     andthen (require (ck_id k \<notin> ck_id ` set ks \<and> ck_name k \<notin> ck_name ` set ks
                \<and> ck_secret_digest k \<notin> ck_secret_digest ` set ks) KeyIntegrity)
       (modify (\<lambda>s. s\<lparr>client_keys := client_keys s @ [k]\<rparr>)))"

definition create_client_key ::
    "(string \<Rightarrow> string) \<Rightarrow> string \<Rightarrow> string \<Rightarrow> time \<Rightarrow> string \<Rightarrow> string list \<Rightarrow> time option
       \<Rightarrow> (db, client_key_error, client_key \<times> string) action" where
  "create_client_key digest new_id secret now name raw_scopes expires_at =
     (let normalized_name = strip name in
      andthen (require (normalized_name \<noteq> []) NameEmpty)
        (case check_scopes raw_scopes of
           Inl e \<Rightarrow> throw e
         | Inr normalized_scopes \<Rightarrow>
             (let k = \<lparr>ck_id = new_id, ck_name = normalized_name, ck_secret_digest = digest secret,
                       ck_scopes = normalized_scopes, ck_enabled = True, ck_expires_at = expires_at,
                       ck_last_used_at = None, ck_created_at = now, ck_updated_at = now\<rparr>
              in andthen (insert_client_key k) (ret (k, ''mbx_'' @ new_id @ ''.'' @ secret)))))"

definition parse_api_key :: "string option \<Rightarrow> (string \<times> string) option" where
  "parse_api_key api_key =
     (case api_key of None \<Rightarrow> None
      | Some key \<Rightarrow>
          if key = [] \<or> \<not> starts_with key ''mbx_'' \<or> CHR ''.'' \<notin> set key then None
          else (let identifier = before (CHR ''.'') key; secret = after (CHR ''.'') key;
                    kid = (if starts_with identifier ''mbx_'' then drop 4 identifier else identifier)
                in if kid = [] \<or> secret = [] then None else Some (kid, secret)))"

definition key_row :: "string \<Rightarrow> db \<Rightarrow> client_key option" where
  "key_row k s = row_by ck_id k (client_keys s)"

definition write_key :: "client_key \<Rightarrow> db \<Rightarrow> db" where
  "write_key k s = s\<lparr>client_keys := put_row ck_id k (client_keys s)\<rparr>"

definition no_digest :: string where
  "no_digest = replicate 64 (CHR ''0'')"

definition authenticate ::
    "(string \<Rightarrow> string) \<Rightarrow> time \<Rightarrow> string option \<Rightarrow> (db, client_key_error, principal) action" where
  "authenticate digest now api_key =
     (case parse_api_key api_key of
        None \<Rightarrow> throw AuthenticationFailed
      | Some (kid, secret) \<Rightarrow>
          bnd (asks (key_row kid)) (\<lambda>row.
            let candidate = digest secret;
                stored = (case row of None \<Rightarrow> no_digest | Some k \<Rightarrow> ck_secret_digest k);
                matches = (stored = candidate);
                active = (case row of None \<Rightarrow> False | Some k \<Rightarrow> ck_enabled k);
                expired = (case row of None \<Rightarrow> False
                           | Some k \<Rightarrow> (case ck_expires_at k of None \<Rightarrow> False | Some e \<Rightarrow> is_expired e now))
            in case row of
                 None \<Rightarrow> throw AuthenticationFailed
               | Some k \<Rightarrow>
                   if \<not> matches \<or> \<not> active \<or> expired then throw AuthenticationFailed
                   else andthen (modify (write_key (k\<lparr>ck_last_used_at := Some now\<rparr>)))
                          (ret \<lparr>client_key_id = ck_id k, principal_name = ck_name k, scopes = ck_scopes k\<rparr>)))"

definition disable_client_key :: "time \<Rightarrow> string \<Rightarrow> (db, client_key_error, client_key) action" where
  "disable_client_key now kid =
     bnd (asks (key_row kid)) (\<lambda>row. case row of
        None \<Rightarrow> throw KeyNotFound
      | Some k \<Rightarrow> let k' = k\<lparr>ck_enabled := False, ck_updated_at := now\<rparr>
                  in andthen (modify (write_key k')) (ret k'))"

definition update_client_key ::
    "time \<Rightarrow> string \<Rightarrow> string \<Rightarrow> string list \<Rightarrow> (db, client_key_error, client_key) action" where
  "update_client_key now kid name raw_scopes =
     bnd (asks (key_row kid)) (\<lambda>row. case row of
        None \<Rightarrow> throw KeyNotFound
      | Some k \<Rightarrow>
          let normalized_name = strip name in
          andthen (require (normalized_name \<noteq> []) NameEmpty)
            (case check_scopes raw_scopes of
               Inl e \<Rightarrow> throw e
             | Inr normalized_scopes \<Rightarrow>
                 bnd (asks (\<lambda>s. \<exists>r \<in> set (client_keys s). ck_name r = normalized_name \<and> ck_id r \<noteq> kid)) (\<lambda>taken.
                 andthen (require (normalized_name = ck_name k \<or> \<not> taken) NameTaken)
                   (let k' = k\<lparr>ck_name := normalized_name, ck_scopes := normalized_scopes, ck_updated_at := now\<rparr>
                    in andthen (modify (write_key k')) (ret k')))))"

definition list_client_keys :: "db \<Rightarrow> client_key list" where
  \<comment> \<open>newest first\<close>
  "list_client_keys s = rev (sort_key ck_created_at (rev (client_keys s)))"

subsection \<open>The key table\<close>

lemma key_row_id: "key_row kid s = Some k \<Longrightarrow> ck_id k = kid \<and> k \<in> set (client_keys s)"
  by (auto simp: key_row_def dest: row_by_Some)

lemma key_row_write_key:
  "key_row kid (write_key k s) =
     (case key_row kid s of None \<Rightarrow> None | Some r \<Rightarrow> Some (if ck_id k = kid then k else r))"
  by (simp add: key_row_def write_key_def)

lemma key_row_insert:
  "key_row kid (s\<lparr>client_keys := client_keys s @ [k]\<rparr>) =
     (case key_row kid s of None \<Rightarrow> (if ck_id k = kid then Some k else None) | Some r \<Rightarrow> Some r)"
  by (simp add: key_row_def row_by_append)

definition key_ok :: "client_key \<Rightarrow> bool" where
  "key_ok k \<longleftrightarrow> ck_name k \<noteq> [] \<and> ck_scopes k \<noteq> [] \<and> distinct (ck_scopes k)
     \<and> set (ck_scopes k) \<subseteq> set allowed_client_key_scopes"

definition keys_ok :: "db \<Rightarrow> bool" where
  "keys_ok s \<longleftrightarrow> distinct (map ck_id (client_keys s)) \<and> distinct (map ck_name (client_keys s))
     \<and> distinct (map ck_secret_digest (client_keys s)) \<and> list_all key_ok (client_keys s)"

lemma check_scopes_ok:
  "check_scopes raw = Inr ss \<Longrightarrow> ss = dedup raw \<and> ss \<noteq> [] \<and> distinct ss \<and> set ss \<subseteq> set allowed_client_key_scopes"
  by (auto simp: check_scopes_def Let_def distinct_dedup filter_empty_conv split: if_splits)

lemma write_key_keeps_ok:
  assumes "keys_ok s" and "key_row (ck_id k) s = Some r" and "key_ok k" and "ck_secret_digest k = ck_secret_digest r"
    and "\<And>q. q \<in> set (client_keys s) \<Longrightarrow> ck_id q \<noteq> ck_id k \<Longrightarrow> ck_name q \<noteq> ck_name k"
  shows "keys_ok (write_key k s)"
proof -
  have r: "r \<in> set (client_keys s)" "ck_id r = ck_id k" using key_row_id [OF assms(2)] by auto
  have d: "distinct (map ck_id (client_keys s))" "distinct (map ck_name (client_keys s))"
    "distinct (map ck_secret_digest (client_keys s))" "list_all key_ok (client_keys s)"
    using assms(1) by (simp_all add: keys_ok_def)
  have "ck_secret_digest q \<noteq> ck_secret_digest k" if "q \<in> set (client_keys s)" "ck_id q \<noteq> ck_id k" for q
    using d(3) r that assms(4) by (metis distinct_map inj_onD)
  then show ?thesis
    using d assms(3,5)
    by (auto simp: keys_ok_def write_key_def distinct_put_row list_all_iff dest: set_put_row)
qed

lemma insert_client_key_ok:
  assumes "key_ok k"
  shows "keeps keys_ok (insert_client_key k)"
  using assms by (intro keepsI) (auto simp: insert_client_key_def run keys_ok_def list_all_iff)

lemma create_client_key_ok: "keeps keys_ok (create_client_key digest new_id secret now name raw e)"
  by (cases "check_scopes raw")
    (auto simp: create_client_key_def Let_def key_ok_def
      intro!: keeps_guard keeps_andthen keeps_throw keeps_ret insert_client_key_ok dest!: check_scopes_ok)

lemma keys_okD: "keys_ok s \<Longrightarrow> k \<in> set (client_keys s) \<Longrightarrow> key_ok k"
  by (simp add: keys_ok_def list_all_iff)

lemma same_name:
  "keys_ok s \<Longrightarrow> k \<in> set (client_keys s) \<Longrightarrow> q \<in> set (client_keys s) \<Longrightarrow> ck_id q \<noteq> ck_id k \<Longrightarrow> ck_name q \<noteq> ck_name k"
  by (auto simp: keys_ok_def distinct_map dest: inj_onD)

lemma authenticate_ok: "keeps keys_ok (authenticate digest now api_key)"
proof (rule keepsI)
  fix s
  assume s: "keys_ok s"
  have "keys_ok (write_key (k\<lparr>ck_last_used_at := Some now\<rparr>) s)" if "key_row kid s = Some k" for kid k
    using key_row_id [OF that] that s keys_okD [OF s, of k]
    by (intro write_key_keeps_ok [of s _ k]) (auto simp: key_ok_def dest: same_name)
  then show "keys_ok (snd (authenticate digest now api_key s))"
    using s by (auto simp: authenticate_def run Let_def split: option.splits)
qed

lemma disable_ok: "keeps keys_ok (disable_client_key now kid)"
proof (rule keepsI)
  fix s
  assume s: "keys_ok s"
  have "keys_ok (write_key (k\<lparr>ck_enabled := False, ck_updated_at := now\<rparr>) s)" if "key_row kid s = Some k" for k
    using key_row_id [OF that] that s keys_okD [OF s, of k]
    by (intro write_key_keeps_ok [of s _ k]) (auto simp: key_ok_def dest: same_name)
  then show "keys_ok (snd (disable_client_key now kid s))"
    using s by (auto simp: disable_client_key_def run Let_def split: option.splits)
qed

lemma update_ok: "keeps keys_ok (update_client_key now kid name raw)"
proof (rule keepsI)
  fix s
  assume s: "keys_ok s"
  have "keys_ok (write_key (k\<lparr>ck_name := strip name, ck_scopes := ss, ck_updated_at := now\<rparr>) s)"
    if "key_row kid s = Some k" "strip name \<noteq> []" "check_scopes raw = Inr ss"
      "strip name = ck_name k \<or> \<not> (\<exists>r \<in> set (client_keys s). ck_name r = strip name \<and> ck_id r \<noteq> kid)" for k ss
    using key_row_id [OF that(1)] that s keys_okD [OF s, of k] check_scopes_ok [OF that(3)]
    by (intro write_key_keeps_ok [of s _ k]) (auto simp: key_ok_def dest: same_name)
  then show "keys_ok (snd (update_client_key now kid name raw s))"
    using s by (auto simp: update_client_key_def run Let_def split: option.splits sum.splits)
qed

text \<open>
  C22. Every operation on the key table keeps it consistent: ids, names and secret digests stay unique
  and every key has a non-blank name and a non-empty list of distinct, allowed scopes.
\<close>

theorem client_keys_consistent:
  "keeps keys_ok (create_client_key digest new_id secret now name raw_scopes expires_at)
   \<and> keeps keys_ok (authenticate digest now api_key)
   \<and> keeps keys_ok (disable_client_key now kid)
   \<and> keeps keys_ok (update_client_key now kid name raw_scopes)"
  using create_client_key_ok authenticate_ok disable_ok update_ok by blast

subsection \<open>Authentication\<close>

lemma parse_created:
  assumes "CHR ''.'' \<notin> set kid" and "kid \<noteq> []" and "secret \<noteq> []"
  shows "parse_api_key (Some (''mbx_'' @ kid @ ''.'' @ secret)) = Some (kid, secret)"
  using assms by (simp add: parse_api_key_def starts_with_def Let_def before_append [of "CHR ''.''" "''mbx_'' @ kid" secret, simplified]
      after_append [of "CHR ''.''" "''mbx_'' @ kid" secret, simplified])

text \<open>
  C23. A key authenticates with the API key its creation returned, until it expires, and the
  principal carries the normalized name and the de-duplicated scopes.
\<close>

theorem created_key_authenticates:
  assumes "create_client_key digest new_id secret now name raw_scopes expires_at s = (Inr (k, api_key), s')"
    and "CHR ''.'' \<notin> set new_id" and "new_id \<noteq> []" and "secret \<noteq> []"
    and "expires_at = None \<or> (\<exists>e. expires_at = Some e \<and> later < e)"
  shows "fst (authenticate digest later (Some api_key) s') =
     Inr \<lparr>client_key_id = new_id, principal_name = strip name, scopes = dedup raw_scopes\<rparr>"
proof -
  obtain ss where ss: "check_scopes raw_scopes = Inr ss" and k: "key_row new_id s = None"
    and s': "s' = s\<lparr>client_keys := client_keys s @ [k]\<rparr>" "api_key = ''mbx_'' @ new_id @ ''.'' @ secret"
    and kf: "k = \<lparr>ck_id = new_id, ck_name = strip name, ck_secret_digest = digest secret,
        ck_scopes = ss, ck_enabled = True, ck_expires_at = expires_at,
        ck_last_used_at = None, ck_created_at = now, ck_updated_at = now\<rparr>"
    using assms(1) by (auto simp: create_client_key_def Let_def insert_client_key_def returns key_row_def row_by_None
        split: sum.splits if_splits)
  have "key_row new_id s' = Some k" using k by (simp add: s' key_row_insert kf)
  moreover have "parse_api_key (Some api_key) = Some (new_id, secret)"
    unfolding s'(2) using assms(2-4) by (rule parse_created)
  ultimately show ?thesis
    using assms(5) check_scopes_ok [OF ss]
    by (auto simp: authenticate_def run Let_def kf is_expired_def)
qed

theorem created_key_authenticates_witness:
  "fst (authenticate (\<lambda>x. x) 5 (Some ''mbx_a-1.zz'')
      (snd (create_client_key (\<lambda>x. x) ''a-1'' ''zz'' 0 '' bot '' [''leases:acquire'', ''leases:acquire''] (Some 9) empty_db)))
   = Inr \<lparr>client_key_id = ''a-1'', principal_name = ''bot'', scopes = [''leases:acquire'']\<rparr>"
proof -
  let ?m = "create_client_key (\<lambda>x. x) ''a-1'' ''zz'' 0 '' bot '' [''leases:acquire'', ''leases:acquire''] (Some 9)"
  let ?k = "\<lparr>ck_id = ''a-1'', ck_name = ''bot'', ck_secret_digest = ''zz'', ck_scopes = [''leases:acquire''],
    ck_enabled = True, ck_expires_at = Some 9, ck_last_used_at = None, ck_created_at = 0, ck_updated_at = 0\<rparr>"
  have c: "check_scopes [''leases:acquire'', ''leases:acquire''] = Inr [''leases:acquire'']" by code_simp
  have n: "strip '' bot '' = ''bot''" by code_simp
  have "?m empty_db = (Inr (?k, ''mbx_a-1.zz''), snd (?m empty_db))"
    by (simp add: create_client_key_def n c insert_client_key_def run empty_db_def Let_def)
  from created_key_authenticates [OF this] show ?thesis by (simp add: n)
qed

text \<open>
  Authentication is exact: it yields a principal precisely when the API key parses, its row
  exists, is enabled and unexpired, and the digest of the presented secret is the stored one.
\<close>

theorem authenticate_decides:
  "(fst (authenticate digest now api_key s) = Inr p) =
   (\<exists>kid secret k. parse_api_key api_key = Some (kid, secret) \<and> key_row kid s = Some k
      \<and> digest secret = ck_secret_digest k \<and> ck_enabled k
      \<and> ck_expires_at k \<notin> Some ` {e. e \<le> now}
      \<and> p = \<lparr>client_key_id = kid, principal_name = ck_name k, scopes = ck_scopes k\<rparr>)"
  by (auto simp: authenticate_def run Let_def is_expired_def key_row_id split: option.splits if_splits)

subsection \<open>Disabling\<close>

datatype key_event =
    CreateKey string string time string "string list" "time option"
  | AuthenticateKey time "string option"
  | DisableKey time string
  | UpdateKey time string string "string list"

fun key_event_run :: "(string \<Rightarrow> string) \<Rightarrow> db \<Rightarrow> key_event \<Rightarrow> db" where
  \<comment> \<open>one request: its session commits on success and rolls back otherwise\<close>
  "key_event_run digest s (CreateKey i sec now name ss e) = snd (transaction (create_client_key digest i sec now name ss e) s)"
| "key_event_run digest s (AuthenticateKey now key) = snd (transaction (authenticate digest now key) s)"
| "key_event_run digest s (DisableKey now i) = snd (transaction (disable_client_key now i) s)"
| "key_event_run digest s (UpdateKey now i name ss) = snd (transaction (update_client_key now i name ss) s)"

definition locked_out :: "string \<Rightarrow> db \<Rightarrow> bool" where
  "locked_out kid s \<longleftrightarrow> (\<exists>k. key_row kid s = Some k \<and> \<not> ck_enabled k)"

lemma locked_out_write:
  "locked_out kid s \<Longrightarrow> key_row (ck_id r) s = Some r \<Longrightarrow> ck_id k = ck_id r \<Longrightarrow> (ck_enabled k \<Longrightarrow> ck_enabled r)
     \<Longrightarrow> locked_out kid (write_key k s)"
  by (auto simp: locked_out_def key_row_write_key split: if_splits)

lemma locked_out_insert: "locked_out kid s \<Longrightarrow> locked_out kid (s\<lparr>client_keys := client_keys s @ [k]\<rparr>)"
  by (auto simp: locked_out_def key_row_insert)

lemma create_locked: "keeps (locked_out kid) (create_client_key digest i sec now name ss e)"
  by (intro keepsI) (auto simp: create_client_key_def Let_def insert_client_key_def run locked_out_insert split: sum.splits)

lemma authenticate_locked: "keeps (locked_out kid) (authenticate digest now key)"
  by (intro keepsI) (auto simp: authenticate_def Let_def run split: option.splits
      intro!: locked_out_write dest: key_row_id)

lemma disable_locked: "keeps (locked_out kid) (disable_client_key now i)"
  by (intro keepsI) (auto simp: disable_client_key_def Let_def run split: option.splits
      intro!: locked_out_write dest: key_row_id)

lemma update_locked: "keeps (locked_out kid) (update_client_key now i name ss)"
  by (intro keepsI) (auto simp: update_client_key_def Let_def run split: option.splits sum.splits
      intro!: locked_out_write dest: key_row_id)

lemmas locked_rules = create_locked authenticate_locked disable_locked update_locked

lemma key_event_locked: "locked_out kid s \<Longrightarrow> locked_out kid (key_event_run digest s e)"
  by (cases e) (simp_all add: keepsD [OF keeps_transaction] locked_rules)

lemma key_events_locked: "locked_out kid s \<Longrightarrow> locked_out kid (foldl (key_event_run digest) s es)"
  by (induction es arbitrary: s) (auto simp: key_event_locked)

lemma locked_out_rejects: "locked_out kid s \<Longrightarrow> fst (authenticate digest now key s) = Inr p \<Longrightarrow> client_key_id p \<noteq> kid"
  by (auto simp: authenticate_def run Let_def locked_out_def split: option.splits if_splits)
    (use key_row_id in fastforce)+

text \<open>
  Disabling is final: whatever requests follow (creations, updates, authentications, further
  disablings), no API key ever authenticates as the disabled client again.
\<close>

theorem disabled_key_stays_out:
  assumes "disable_client_key now kid s = (Inr k, s')"
    and "fst (authenticate digest later api_key (foldl (key_event_run digest) s' es)) = Inr p"
  shows "client_key_id p \<noteq> kid"
proof -
  have "locked_out kid s'"
    using assms(1) by (auto simp: disable_client_key_def Let_def returns locked_out_def key_row_write_key
        split: option.splits dest: key_row_id)
  then show ?thesis using assms(2) key_events_locked locked_out_rejects by metis
qed

theorem disabled_key_stays_out_witness:
  "client_key_id \<lparr>client_key_id = ''b'', principal_name = ''n'', scopes = [''leases:acquire'']\<rparr> \<noteq> ''a''"
proof -
  let ?a = "\<lparr>ck_id = ''a'', ck_name = ''m'', ck_secret_digest = ''x'', ck_scopes = [''leases:acquire''],
    ck_enabled = True, ck_expires_at = None, ck_last_used_at = None, ck_created_at = 0, ck_updated_at = 0\<rparr>"
  let ?b = "\<lparr>ck_id = ''b'', ck_name = ''n'', ck_secret_digest = ''y'', ck_scopes = [''leases:acquire''],
    ck_enabled = True, ck_expires_at = None, ck_last_used_at = None, ck_created_at = 0, ck_updated_at = 0\<rparr>"
  let ?s = "empty_db\<lparr>client_keys := [?a, ?b]\<rparr>"
  have d: "disable_client_key 3 ''a'' ?s =
      (Inr (?a\<lparr>ck_enabled := False, ck_updated_at := 3\<rparr>), write_key (?a\<lparr>ck_enabled := False, ck_updated_at := 3\<rparr>) ?s)"
    by (simp add: disable_client_key_def run key_row_def row_by_def Let_def)
  have p: "parse_api_key (Some ''mbx_b.y'') = Some (''b'', ''y'')" by code_simp
  have a: "fst (authenticate (\<lambda>x. x) 4 (Some ''mbx_b.y'')
      (foldl (key_event_run (\<lambda>x. x)) (write_key (?a\<lparr>ck_enabled := False, ck_updated_at := 3\<rparr>) ?s) []))
    = Inr \<lparr>client_key_id = ''b'', principal_name = ''n'', scopes = [''leases:acquire'']\<rparr>"
    by (simp add: authenticate_def p run key_row_def row_by_def write_key_def Let_def)
  show ?thesis by (rule disabled_key_stays_out [OF d a])
qed

end
