(* ===== verification/ProviderOps.thy ===== *)
theory ProviderOps
  imports Catalog
begin

text \<open>
  Durable provider operations (\<open>provider_operation_service.py\<close>): idempotent creation, running and
  finalizing an operation, inserting a replenished resource, and the two database halves of a
  remote release. Fresh uuids and the clock are parameters.
\<close>

datatype ops_error = ProviderResourceMissing | OperationIntegrity

record operation_snapshot =
  os_operation_id :: string
  os_operation_type :: operation_type
  os_provider_type :: string
  os_provider_instance_id :: string
  os_status :: operation_status
  os_mailbox_id :: "string option"
  os_provider_resource_id :: "string option"
  os_lease_id :: "string option"
  os_external_resource_id :: "string option"
  os_resource_generation :: "int option"
  os_expected_state_version :: "int option"
  os_idempotency_key :: string

definition to_snapshot :: "provider_operation \<Rightarrow> operation_snapshot" where
  "to_snapshot o1 = \<lparr>os_operation_id = po_id o1, os_operation_type = po_operation_type o1,
     os_provider_type = po_provider_type o1, os_provider_instance_id = po_provider_instance_id o1,
     os_status = po_status o1, os_mailbox_id = po_mailbox_id o1, os_provider_resource_id = po_provider_resource_id o1,
     os_lease_id = po_lease_id o1, os_external_resource_id = po_external_resource_id o1,
     os_resource_generation = po_resource_generation o1, os_expected_state_version = po_expected_state_version o1,
     os_idempotency_key = po_idempotency_key o1\<rparr>"

definition resource_row :: "string \<Rightarrow> db \<Rightarrow> provider_resource option" where
  "resource_row i s = row_by pr_id i (resources s)"

definition write_resource :: "provider_resource \<Rightarrow> db \<Rightarrow> db" where
  "write_resource r s = s\<lparr>resources := put_row pr_id r (resources s)\<rparr>"

definition operation_row :: "string \<Rightarrow> db \<Rightarrow> provider_operation option" where
  "operation_row i s = row_by po_id i (operations s)"

definition write_operation :: "provider_operation \<Rightarrow> db \<Rightarrow> db" where
  "write_operation o1 s = s\<lparr>operations := put_row po_id o1 (operations s)\<rparr>"

definition operation_by_key :: "string \<Rightarrow> db \<Rightarrow> provider_operation option" where
  "operation_by_key k s = row_by po_idempotency_key k (operations s)"

record operation_request =
  oq_operation_type :: operation_type
  oq_provider_type :: string
  oq_provider_instance_id :: string
  oq_idempotency_key :: string
  oq_mailbox_id :: "string option"
  oq_provider_resource_id :: "string option"
  oq_lease_id :: "string option"
  oq_external_resource_id :: "string option"
  oq_resource_generation :: "int option"
  oq_expected_state_version :: "int option"

definition insert_operation :: "provider_operation \<Rightarrow> (db, ops_error, unit) action" where
  "insert_operation o1 =
     bnd (asks operations) (\<lambda>os.
     andthen (require (po_id o1 \<notin> po_id ` set os \<and> po_idempotency_key o1 \<notin> po_idempotency_key ` set os) OperationIntegrity)
       (modify (\<lambda>s. s\<lparr>operations := operations s @ [o1]\<rparr>)))"

definition create_pending_operation ::
    "string \<Rightarrow> time \<Rightarrow> operation_request \<Rightarrow> (db, ops_error, operation_snapshot) action" where
  "create_pending_operation new_id now q =
     bnd (asks (operation_by_key (oq_idempotency_key q))) (\<lambda>existing. case existing of
       Some o1 \<Rightarrow> ret (to_snapshot o1)
     | None \<Rightarrow>
         (let o1 = \<lparr>po_id = new_id, po_operation_type = oq_operation_type q, po_provider_type = oq_provider_type q,
                    po_provider_instance_id = oq_provider_instance_id q, po_mailbox_id = oq_mailbox_id q,
                    po_provider_resource_id = oq_provider_resource_id q, po_lease_id = oq_lease_id q,
                    po_external_resource_id = oq_external_resource_id q,
                    po_resource_generation = oq_resource_generation q,
                    po_expected_state_version = oq_expected_state_version q, po_status = OpPending,
                    po_idempotency_key = oq_idempotency_key q, po_attempt_count = 0, po_last_error_class = None,
                    po_result_summary_json = None, po_created_at = now, po_updated_at = now\<rparr>
          in andthen (insert_operation o1) (ret (to_snapshot o1))))"

definition mark_running :: "time \<Rightarrow> string \<Rightarrow> (db, ops_error, operation_snapshot option) action" where
  "mark_running now i =
     bnd (asks (operation_row i)) (\<lambda>row. case row of
       None \<Rightarrow> ret None
     | Some o1 \<Rightarrow>
         (let o2 = o1\<lparr>po_status := OpRunning, po_attempt_count := po_attempt_count o1 + 1, po_updated_at := now\<rparr>
          in andthen (modify (write_operation o2)) (ret (Some (to_snapshot o2)))))"

definition finalize_operation ::
    "time \<Rightarrow> string \<Rightarrow> operation_status \<Rightarrow> string option \<Rightarrow> json option \<Rightarrow> (db, ops_error, operation_snapshot option) action" where
  "finalize_operation now i status error_class result_summary =
     bnd (asks (operation_row i)) (\<lambda>row. case row of
       None \<Rightarrow> ret None
     | Some o1 \<Rightarrow>
         (let o2 = o1\<lparr>po_status := status, po_last_error_class := error_class, po_result_summary_json := result_summary,
                     po_updated_at := now\<rparr>
          in andthen (modify (write_operation o2)) (ret (Some (to_snapshot o2)))))"

definition resource_by_external :: "string \<Rightarrow> string \<Rightarrow> db \<Rightarrow> provider_resource option" where
  "resource_by_external inst ext s =
     find (\<lambda>r. pr_provider_instance_id r = inst \<and> pr_external_resource_id r = ext) (resources s)"

definition jreal :: "real option \<Rightarrow> json" where
  "jreal x = (case x of None \<Rightarrow> JNull | Some r \<Rightarrow> JReal r)"

definition insert_resource :: "(db, 'e, unit) action \<Rightarrow> provider_resource \<Rightarrow> (db, 'e, unit) action" where
  \<comment> \<open>\<open>session.add\<close> and \<open>flush\<close>; the first argument is what a violated constraint raises\<close>
  "insert_resource clash r =
     bnd (asks resources) (\<lambda>rs.
       if pr_id r \<in> pr_id ` set rs
          \<or> (\<exists>x \<in> set rs. pr_provider_instance_id x = pr_provider_instance_id r
                        \<and> pr_external_resource_id x = pr_external_resource_id r)
       then clash
       else modify (\<lambda>s. s\<lparr>resources := resources s @ [r]\<rparr>))"

definition finalize_smsbower_replenish_success ::
    "string \<Rightarrow> time \<Rightarrow> string \<Rightarrow> string \<Rightarrow> string \<Rightarrow> string \<Rightarrow> string option \<Rightarrow> real option \<Rightarrow> string
       \<Rightarrow> (db, ops_error, string) action" where
  "finalize_smsbower_replenish_success new_id now operation_id inst ext email secret cost actor_id =
     bnd (asks (resource_by_external inst ext)) (\<lambda>existing. case existing of
       Some r \<Rightarrow>
         andthen (finalize_operation now operation_id OpSucceeded None
             (Some (JObj [(''provider_resource_id'', JStr (pr_id r)), (''external_resource_id'', JStr ext),
                          (''deduplicated'', JBool True), (''cost'', jreal cost)])))
           (ret (pr_id r))
     | None \<Rightarrow>
         andthen (insert_resource (throw OperationIntegrity)
             \<lparr>pr_id = new_id, pr_provider_type = ''smsbower_gmail'', pr_provider_instance_id = inst,
              pr_external_resource_id = ext, pr_primary_email = strip_lower email, pr_lifecycle_state = Available,
              pr_readiness = Ready, pr_state_version = 0, pr_resource_generation = 0, pr_encrypted_secret = secret,
              pr_metadata_json = (case cost of None \<Rightarrow> None | Some c \<Rightarrow> Some (JObj [(''cost'', JReal c)])), pr_last_verification_code = None, pr_last_code_checked_at = None, pr_last_code_message_id = None,
              pr_created_at = now, pr_updated_at = now\<rparr>)
        (andthen (write_audit_event ''admin'' (Some actor_id) ''provider.replenish.succeeded'' ''provider_resource''
             (Some new_id) (Some (JObj [(''operation_id'', JStr operation_id), (''provider_type'', JStr ''smsbower_gmail''),
               (''provider_instance_id'', JStr inst), (''external_resource_id'', JStr ext),
               (''primary_email'', JStr (strip_lower email)), (''cost'', jreal cost)])) None)
        (bnd (asks (operation_row operation_id)) (\<lambda>row.
         andthen (case row of
             None \<Rightarrow> ret ()
           | Some o1 \<Rightarrow> modify (write_operation (o1\<lparr>po_provider_resource_id := Some new_id, po_mailbox_id := None,
               po_external_resource_id := Some ext, po_status := OpSucceeded,
               po_result_summary_json := Some (JObj [(''provider_resource_id'', JStr new_id),
                 (''external_resource_id'', JStr ext), (''cost'', jreal cost)]),
               po_updated_at := now\<rparr>)))
           (ret new_id)))))"

fun nat_digits :: "nat \<Rightarrow> string" where
  "nat_digits n = (if n < 10 then [char_of (48 + n)] else nat_digits (n div 10) @ [char_of (48 + n mod 10)])"

definition show_int :: "int \<Rightarrow> string" where
  "show_int k = (if k < 0 then CHR ''-'' # nat_digits (nat (- k)) else nat_digits (nat k))"

definition release_key :: "string \<Rightarrow> int \<Rightarrow> string" where
  "release_key lease_id generation = ''release:'' @ lease_id @ '':'' @ show_int generation"

definition begin_release_operation ::
    "string \<Rightarrow> time \<Rightarrow> string \<Rightarrow> string \<Rightarrow> string \<Rightarrow> string \<Rightarrow> string \<Rightarrow> int \<Rightarrow> int \<Rightarrow> string option \<Rightarrow> string option
       \<Rightarrow> (db, ops_error, operation_snapshot) action" where
  "begin_release_operation new_id now lease_id resource_id provider_type inst ext generation expected_version
       principal_id mailbox_id =
     bnd (asks (operation_by_key (release_key lease_id generation))) (\<lambda>existing. case existing of
       Some o1 \<Rightarrow> ret (to_snapshot o1)
     | None \<Rightarrow>
         bnd (asks (resource_row resource_id)) (\<lambda>row. case row of
           None \<Rightarrow> throw ProviderResourceMissing
         | Some r \<Rightarrow>
             andthen (modify (write_resource (r\<lparr>pr_lifecycle_state := Releasing,
                 pr_state_version := pr_state_version r + 1, pr_updated_at := now\<rparr>)))
            (bnd (create_pending_operation new_id now
                   \<lparr>oq_operation_type = Release, oq_provider_type = provider_type, oq_provider_instance_id = inst,
                    oq_idempotency_key = release_key lease_id generation, oq_mailbox_id = mailbox_id,
                    oq_provider_resource_id = Some resource_id, oq_lease_id = Some lease_id,
                    oq_external_resource_id = Some ext, oq_resource_generation = Some generation,
                    oq_expected_state_version = Some expected_version\<rparr>) (\<lambda>snapshot.
             andthen (write_audit_event ''client'' principal_id ''provider.release.pending'' ''lease'' (Some lease_id)
                 (Some (JObj [(''operation_id'', JStr (os_operation_id snapshot)), (''provider_resource_id'', JStr resource_id),
                   (''external_resource_id'', JStr ext), (''resource_generation'', JInt generation)])) None)
               (ret snapshot)))))"

datatype release_outcome = OutcomeSucceeded | OutcomeFailed | OutcomeOther

definition finalize_release_cas ::
    "time \<Rightarrow> string \<Rightarrow> string \<Rightarrow> int \<Rightarrow> int \<Rightarrow> release_outcome \<Rightarrow> bool \<Rightarrow> (db, ops_error, bool) action" where
  \<comment> \<open>\<open>expected_state_version\<close> is a parameter that the code never looks at\<close>
  "finalize_release_cas now operation_id resource_id expected_generation expected_state_version outcome clear_secret =
     bnd (asks (resource_row resource_id)) (\<lambda>rrow.
     bnd (asks (operation_row operation_id)) (\<lambda>orow.
       case (rrow, orow) of
         (Some r, Some o1) \<Rightarrow>
           if pr_resource_generation r \<noteq> expected_generation then ret False
           else if pr_lifecycle_state r \<notin> {Releasing, ReleaseUnknown}
           then ret (po_status o1 \<in> {OpSucceeded, OpFailed})
           else
             andthen
               (case outcome of
                  OutcomeSucceeded \<Rightarrow>
                    andthen (modify (write_resource (r\<lparr>pr_lifecycle_state := Available, pr_readiness := Ready,
                        pr_resource_generation := pr_resource_generation r + 1, pr_state_version := pr_state_version r + 1,
                        pr_encrypted_secret := (if clear_secret then None else pr_encrypted_secret r), pr_updated_at := now\<rparr>)))
                      (modify (write_operation (o1\<lparr>po_status := OpSucceeded, po_updated_at := now\<rparr>)))
                | OutcomeFailed \<Rightarrow>
                    andthen (modify (write_resource (r\<lparr>pr_lifecycle_state := ResCooldown, pr_readiness := NotReady,
                        pr_state_version := pr_state_version r + 1, pr_updated_at := now\<rparr>)))
                      (modify (write_operation (o1\<lparr>po_status := OpFailed, po_last_error_class := Some ''remote_failed'',
                        po_updated_at := now\<rparr>)))
                | OutcomeOther \<Rightarrow>
                    andthen (modify (write_resource (r\<lparr>pr_lifecycle_state := ReleaseUnknown, pr_readiness := NotReady,
                        pr_state_version := pr_state_version r + 1, pr_updated_at := now\<rparr>)))
                      (modify (write_operation (o1\<lparr>po_status := OpUnknown, po_last_error_class := Some ''remote_unknown'',
                        po_updated_at := now\<rparr>))))
               (ret True)
       | _ \<Rightarrow> ret False))"

subsection \<open>Rows after a write\<close>

lemma resource_row_write [simp]:
  "resource_row i (write_resource r s) =
     (case resource_row i s of None \<Rightarrow> None | Some q \<Rightarrow> Some (if pr_id r = i then r else q))"
  by (simp add: resource_row_def write_resource_def)

lemma operation_row_write [simp]:
  "operation_row i (write_operation o1 s) =
     (case operation_row i s of None \<Rightarrow> None | Some q \<Rightarrow> Some (if po_id o1 = i then o1 else q))"
  by (simp add: operation_row_def write_operation_def)

lemma rows_of_other_tables [simp]:
  "resource_row i (write_operation o1 s) = resource_row i s"
  "operation_row i (write_resource r s) = operation_row i s"
  "operation_by_key k (write_resource r s) = operation_by_key k s"
  "resource_row i (s\<lparr>audit_logs := a\<rparr>) = resource_row i s"
  "operation_row i (s\<lparr>audit_logs := a\<rparr>) = operation_row i s"
  "operation_by_key k (s\<lparr>audit_logs := a\<rparr>) = operation_by_key k s"
  "resource_row i (s\<lparr>operations := p\<rparr>) = resource_row i s"
  by (simp_all add: resource_row_def operation_row_def operation_by_key_def write_operation_def write_resource_def)

lemma resource_row_id: "resource_row i s = Some r \<Longrightarrow> pr_id r = i \<and> r \<in> set (resources s)"
  by (auto simp: resource_row_def dest: row_by_Some)

lemma operation_row_id: "operation_row i s = Some o1 \<Longrightarrow> po_id o1 = i \<and> o1 \<in> set (operations s)"
  by (auto simp: operation_row_def dest: row_by_Some)

lemma resource_row_insert:
  "pr_id r \<notin> pr_id ` set (resources s) \<Longrightarrow>
     resource_row i (s\<lparr>resources := resources s @ [r]\<rparr>) = (if pr_id r = i then Some r else resource_row i s)"
  by (simp add: resource_row_def row_by_append_new)


lemmas ops_run = run finalize_operation_def Let_def

subsection \<open>Generations fence old finalizers off\<close>

text \<open>
  Every writer promises that the generation of a resource never goes back. The finalizer of an older
  generation relies on it: it can no longer touch the resource.
\<close>

locale generation_writer =
  fixes put :: "db \<Rightarrow> db"
  assumes generation_grows: "resource_row i s = Some r \<Longrightarrow>
    \<exists>r'. resource_row i (put s) = Some r' \<and> pr_resource_generation r \<le> pr_resource_generation r'"
begin

lemma old_finalizer_changes_nothing:
  assumes "resource_row i s = Some r" and "g < pr_resource_generation r"
  shows "finalize_release_cas now oid i g v outcome clear (put s) = (Inr False, put s)"
proof -
  obtain r' where "resource_row i (put s) = Some r'" "g < pr_resource_generation r'"
    using generation_grows [OF assms(1)] assms(2) by auto
  then show ?thesis by (cases "operation_row oid (put s)") (auto simp: finalize_release_cas_def run)
qed

end

lemma insert_operation_rows: "resource_row i (snd (insert_operation o1 s)) = resource_row i s"
  by (simp add: insert_operation_def run)

lemma create_pending_rows: "resource_row i (snd (create_pending_operation n now q s)) = resource_row i s"
  by (auto simp: create_pending_operation_def insert_operation_def run Let_def split: option.split)

interpretation begin_release: generation_writer
    "\<lambda>s. snd (begin_release_operation n now lease i' pt inst ext g v pid mid s)"
  for n now lease i' pt inst ext g v pid mid
proof
  fix i s r
  assume r: "resource_row i s = Some r"
  show "\<exists>r'. resource_row i (snd (begin_release_operation n now lease i' pt inst ext g v pid mid s)) = Some r'
      \<and> pr_resource_generation r \<le> pr_resource_generation r'"
  proof (cases "operation_by_key (release_key lease g) s")
    case None
    show ?thesis
    proof (cases "resource_row i' s")
      case (Some q)
      with None r show ?thesis
        by (auto simp: begin_release_operation_def run write_audit_event_def create_pending_operation_def
            insert_operation_def Let_def resource_row_id)
    qed (use None r in \<open>simp add: begin_release_operation_def run\<close>)
  qed (use r in \<open>simp add: begin_release_operation_def run\<close>)
qed

interpretation finalize_release: generation_writer
    "\<lambda>s. snd (finalize_release_cas now oid i' g v outcome clear s)" for now oid i' g v outcome clear
proof
  fix i s r
  assume "resource_row i s = Some r"
  then show "\<exists>r'. resource_row i (snd (finalize_release_cas now oid i' g v outcome clear s)) = Some r'
      \<and> pr_resource_generation r \<le> pr_resource_generation r'"
    using resource_row_id [of i' s]
    by (cases "resource_row i' s"; cases "operation_row oid s"; cases outcome; cases "i = i'")
      (auto simp: finalize_release_cas_def run)
qed

interpretation finalize_op: generation_writer "\<lambda>s. snd (finalize_operation now oid st err res s)" for now oid st err res
  by unfold_locales (auto simp: finalize_operation_def run Let_def split: option.split)

interpretation running: generation_writer "\<lambda>s. snd (mark_running now oid s)" for now oid
  by unfold_locales (auto simp: mark_running_def run Let_def split: option.split)

interpretation replenish: generation_writer
    "\<lambda>s. snd (finalize_smsbower_replenish_success n now oid inst ext email secret cost actor s)"
  for n now oid inst ext email secret cost actor
  by unfold_locales
    (auto simp: finalize_smsbower_replenish_success_def insert_resource_def finalize_operation_def write_audit_event_def
      run Let_def resource_row_insert split: option.split dest: resource_row_id)

subsection \<open>A release from begin to end\<close>

lemma operation_by_key_append:
  "operation_by_key k s = None \<Longrightarrow> po_idempotency_key o1 = k \<Longrightarrow>
     operation_by_key k (s\<lparr>operations := operations s @ [o1]\<rparr>) = Some o1"
  by (simp add: operation_by_key_def row_by_append)

lemma operation_row_append:
  "n \<notin> po_id ` set (operations s) \<Longrightarrow> po_id o1 = n \<Longrightarrow>
     operation_row n (s\<lparr>operations := operations s @ [o1]\<rparr>) = Some o1"
  by (simp add: operation_row_def row_by_append_new)

lemma write_resource_tables [simp]:
  "operations (write_resource r s) = operations s" "audit_logs (write_resource r s) = audit_logs s"
  "claims (write_resource r s) = claims s" "leases (write_resource r s) = leases s"
  "mailboxes (write_resource r s) = mailboxes s"
  by (simp_all add: write_resource_def)

definition release_operation ::
    "string \<Rightarrow> time \<Rightarrow> string \<Rightarrow> string \<Rightarrow> string \<Rightarrow> string \<Rightarrow> string \<Rightarrow> int \<Rightarrow> int \<Rightarrow> string option \<Rightarrow> provider_operation" where
  \<comment> \<open>the row a release leaves\<close>
  "release_operation n now lease i pt inst ext g v mid =
     \<lparr>po_id = n, po_operation_type = Release, po_provider_type = pt, po_provider_instance_id = inst, po_mailbox_id = mid,
      po_provider_resource_id = Some i, po_lease_id = Some lease, po_external_resource_id = Some ext,
      po_resource_generation = Some g, po_expected_state_version = Some v, po_status = OpPending,
      po_idempotency_key = release_key lease g, po_attempt_count = 0, po_last_error_class = None,
      po_result_summary_json = None, po_created_at = now, po_updated_at = now\<rparr>"

lemma release_operation_fields [simp]:
  "po_id (release_operation n now lease i pt inst ext g v mid) = n"
  "po_idempotency_key (release_operation n now lease i pt inst ext g v mid) = release_key lease g"
  "po_status (release_operation n now lease i pt inst ext g v mid) = OpPending"
  by (simp_all add: release_operation_def)

lemma begin_release_new:
  assumes "operation_by_key (release_key lease g) s = None" and "resource_row i s = Some r"
  shows "begin_release_operation n now lease i pt inst ext g v pid mid s =
    (let s1 = write_resource (r\<lparr>pr_lifecycle_state := Releasing, pr_state_version := pr_state_version r + 1, pr_updated_at := now\<rparr>) s;
         o1 = release_operation n now lease i pt inst ext g v mid
     in if n \<in> po_id ` set (operations s) then (Inl OperationIntegrity, s1)
        else (Inr (to_snapshot o1), s1\<lparr>operations := operations s @ [o1], audit_logs := audit_logs s @
             [\<lparr>au_actor_type = ''client'', au_actor_id = pid, au_event_type = ''provider.release.pending'',
               au_target_type = ''lease'', au_target_id = Some lease, au_operation_id = None,
               au_metadata = JObj [(''operation_id'', JStr n), (''provider_resource_id'', JStr i),
                 (''external_resource_id'', JStr ext), (''resource_generation'', JInt g)]\<rparr>]\<rparr>))"
proof -
  have "release_key lease g \<notin> po_idempotency_key ` set (operations s)"
    using assms(1) by (simp add: operation_by_key_def row_by_None)
  then show ?thesis using assms
    by (simp add: begin_release_operation_def run create_pending_operation_def insert_operation_def write_audit_event_def
        Let_def to_snapshot_def release_operation_def)
qed

text \<open>
  Beginning a release is idempotent per lease and resource generation: a second request, with
  whatever other arguments and at any later time, answers with the operation of the first and changes
  nothing, so the remote side effect has one operation row.
\<close>

theorem begin_release_idempotent:
  assumes "begin_release_operation n now lease i pt inst ext g v pid mid s = (Inr snap, t)"
  shows "begin_release_operation n' now' lease i' pt' inst' ext' g v' pid' mid' t = (Inr snap, t)"
proof (cases "operation_by_key (release_key lease g) s")
  case (Some o1)
  with assms have "t = s" "snap = to_snapshot o1" by (simp_all add: begin_release_operation_def run)
  with Some show ?thesis by (simp add: begin_release_operation_def run)
next
  case None
  with assms obtain r where r: "resource_row i s = Some r"
    by (auto simp: begin_release_operation_def run split: option.splits)
  let ?o = "release_operation n now lease i pt inst ext g v mid"
  have t: "snap = to_snapshot ?o" "operations t = operations s @ [?o]"
    using assms begin_release_new [OF None r] by (auto simp: Let_def split: if_splits)
  have "operation_by_key (release_key lease g) t = Some ?o"
    using None by (simp add: operation_by_key_def t(2) row_by_append)
  then show ?thesis by (simp add: begin_release_operation_def run t(1))
qed

theorem begin_release_idempotent_witness:
  "\<exists>t snap. begin_release_operation ''o1'' 5 ''l'' ''r'' ''smsbower_gmail'' ''d'' ''x'' 1 0 None None
      (empty_db\<lparr>resources := [\<lparr>pr_id = ''r'', pr_provider_type = ''smsbower_gmail'', pr_provider_instance_id = ''d'',
         pr_external_resource_id = ''x'', pr_primary_email = ''a@g.com'', pr_lifecycle_state = Claimed, pr_readiness = Ready,
         pr_state_version = 0, pr_resource_generation = 1, pr_encrypted_secret = None, pr_metadata_json = None, pr_last_verification_code = None, pr_last_code_checked_at = None, pr_last_code_message_id = None,
         pr_created_at = 0, pr_updated_at = 0\<rparr>]\<rparr>) = (Inr snap, t)
    \<and> begin_release_operation ''o2'' 6 ''l'' ''r'' ''smsbower_gmail'' ''d'' ''x'' 1 0 None None t = (Inr snap, t)"
proof -
  let ?r = "\<lparr>pr_id = ''r'', pr_provider_type = ''smsbower_gmail'', pr_provider_instance_id = ''d'',
         pr_external_resource_id = ''x'', pr_primary_email = ''a@g.com'', pr_lifecycle_state = Claimed, pr_readiness = Ready,
         pr_state_version = 0, pr_resource_generation = 1, pr_encrypted_secret = None, pr_metadata_json = None, pr_last_verification_code = None, pr_last_code_checked_at = None, pr_last_code_message_id = None,
         pr_created_at = 0, pr_updated_at = 0\<rparr>"
  let ?s = "empty_db\<lparr>resources := [?r]\<rparr>"
  have "operation_by_key (release_key ''l'' 1) ?s = None" and "resource_row ''r'' ?s = Some ?r"
    by (simp_all add: operation_by_key_def row_by_def resource_row_def empty_db_def)
  from begin_release_new [OF this] obtain snap t
    where b: "begin_release_operation ''o1'' 5 ''l'' ''r'' ''smsbower_gmail'' ''d'' ''x'' 1 0 None None ?s = (Inr snap, t)"
    by (simp add: Let_def empty_db_def)
  from b begin_release_idempotent [OF b] show ?thesis by blast
qed

text \<open>
  A release that was begun is finalized once: success makes the resource available again under
  the next generation (dropping its secret on request) and completes the operation, failure retires
  it to cooldown; a second finalization of the same generation then changes nothing.
\<close>

theorem release_cycle:
  assumes "begin_release_operation n now lease i pt inst ext g v pid mid s = (Inr snap, t)"
    and "operation_by_key (release_key lease g) s = None" and "resource_row i s = Some r" and "pr_resource_generation r = g"
    and "finalize_release_cas later n i g v' outcome clear t = (Inr ok, u)"
  shows "ok \<and> (\<exists>r' o'. resource_row i u = Some r' \<and> operation_row n u = Some o'
     \<and> (outcome = OutcomeSucceeded) = (pr_lifecycle_state r' = Available \<and> pr_readiness r' = Ready
            \<and> pr_resource_generation r' = g + 1 \<and> po_status o' = OpSucceeded
            \<and> pr_encrypted_secret r' = (if clear then None else pr_encrypted_secret r))
     \<and> (outcome = OutcomeFailed) = (pr_lifecycle_state r' = ResCooldown \<and> pr_resource_generation r' = g \<and> po_status o' = OpFailed)
     \<and> (outcome = OutcomeOther) = (pr_lifecycle_state r' = ReleaseUnknown \<and> po_status o' = OpUnknown))
     \<and> (outcome = OutcomeOther \<or> snd (finalize_release_cas later' n i g v'' outcome' clear' u) = u)"
proof -
  let ?o = "release_operation n now lease i pt inst ext g v mid"
  let ?r = "r\<lparr>pr_lifecycle_state := Releasing, pr_state_version := pr_state_version r + 1, pr_updated_at := now\<rparr>"
  have fresh: "n \<notin> po_id ` set (operations s)" and t: "operations t = operations s @ [?o]" "resources t = resources (write_resource ?r s)"
    using assms(1) begin_release_new [OF assms(2,3)] by (auto simp: Let_def split: if_splits)
  have id: "pr_id r = i" using resource_row_id [OF assms(3)] by simp
  have rt: "resource_row i t = Some ?r"
    using assms(3) id resource_row_write [of i ?r s] by (simp add: resource_row_def t(2))
  have ot: "operation_row n t = Some ?o"
    using fresh by (simp add: operation_row_def t(1) row_by_append_new)
  show ?thesis
    using assms(4,5) rt ot id by (cases outcome) (auto simp: finalize_release_cas_def run)
qed

theorem release_cycle_witness:
  "\<exists>u r'. resource_row ''r'' u = Some r' \<and> pr_lifecycle_state r' = Available \<and> pr_resource_generation r' = 2"
proof -
  let ?r = "\<lparr>pr_id = ''r'', pr_provider_type = ''smsbower_gmail'', pr_provider_instance_id = ''d'',
         pr_external_resource_id = ''x'', pr_primary_email = ''a@g.com'', pr_lifecycle_state = Claimed, pr_readiness = Ready,
         pr_state_version = 0, pr_resource_generation = 1, pr_encrypted_secret = None, pr_metadata_json = None, pr_last_verification_code = None, pr_last_code_checked_at = None, pr_last_code_message_id = None,
         pr_created_at = 0, pr_updated_at = 0\<rparr>"
  let ?s = "empty_db\<lparr>resources := [?r]\<rparr>"
  have s: "operation_by_key (release_key ''l'' 1) ?s = None" "resource_row ''r'' ?s = Some ?r"
    by (simp_all add: operation_by_key_def row_by_def resource_row_def empty_db_def)
  from begin_release_new [OF s] obtain snap t
    where b: "begin_release_operation ''o1'' 5 ''l'' ''r'' ''smsbower_gmail'' ''d'' ''x'' 1 0 None None ?s = (Inr snap, t)"
    by (simp add: Let_def empty_db_def)
  have inr: "\<exists>ok. fst (finalize_release_cas 9 ''o1'' ''r'' 1 0 OutcomeSucceeded True t) = Inr ok"
    by (auto simp: finalize_release_cas_def run split: option.split)
  then obtain ok u where f: "finalize_release_cas 9 ''o1'' ''r'' 1 0 OutcomeSucceeded True t = (Inr ok, u)"
    by (metis prod.collapse)
  have g: "pr_resource_generation ?r = 1" by simp
  from release_cycle [OF b s g f, of 0 0 OutcomeFailed True] show ?thesis by auto
qed

text \<open>
  The compare-and-swap of \<open>finalize_release_cas\<close> does not compare the state version it is given:
  the finalization is applied to a resource whose version is not the expected one.
\<close>

theorem finalize_ignores_expected_state_version:
  "\<exists>s r t. resource_row ''r'' s = Some r \<and> pr_state_version r \<noteq> 7
     \<and> finalize_release_cas 9 ''o'' ''r'' 1 7 OutcomeSucceeded True s = (Inr True, t)
     \<and> (\<exists>r'. resource_row ''r'' t = Some r' \<and> pr_lifecycle_state r' = Available)"
proof -
  let ?r = "\<lparr>pr_id = ''r'', pr_provider_type = ''smsbower_gmail'', pr_provider_instance_id = ''d'',
         pr_external_resource_id = ''x'', pr_primary_email = ''a@g.com'', pr_lifecycle_state = Releasing, pr_readiness = Ready,
         pr_state_version = 3, pr_resource_generation = 1, pr_encrypted_secret = None, pr_metadata_json = None, pr_last_verification_code = None, pr_last_code_checked_at = None, pr_last_code_message_id = None,
         pr_created_at = 0, pr_updated_at = 0\<rparr>"
  let ?o = "release_operation ''o'' 5 ''l'' ''r'' ''smsbower_gmail'' ''d'' ''x'' 1 7 None"
  let ?s = "empty_db\<lparr>resources := [?r], operations := [?o]\<rparr>"
  have r: "resource_row ''r'' ?s = Some ?r"
    by (simp add: resource_row_def row_by_def)
  have f: "fst (finalize_release_cas 9 ''o'' ''r'' 1 7 OutcomeSucceeded True ?s) = Inr True"
    by (simp add: finalize_release_cas_def run resource_row_def operation_row_def row_by_def)
  have a: "\<exists>r'. resource_row ''r'' (snd (finalize_release_cas 9 ''o'' ''r'' 1 7 OutcomeSucceeded True ?s)) = Some r'
      \<and> pr_lifecycle_state r' = Available"
    by (simp add: finalize_release_cas_def run resource_row_def operation_row_def row_by_def write_resource_def write_operation_def)
  show ?thesis
    by (rule exI [of _ ?s], rule exI [of _ ?r], rule exI [of _ "snd (finalize_release_cas 9 ''o'' ''r'' 1 7 OutcomeSucceeded True ?s)"])
      (use r f a in \<open>simp add: prod_eq_iff\<close>)
qed

end
