(* ===== verification/SiteUsage.thy ===== *)
theory SiteUsage
  imports ClientKeys ProviderOps
begin

text \<open>
  The errors of the lease service, its audit helper, and the registration sites: the whitelist of
  usage sites and the global occupancy of business addresses per site
  (\<open>lease_service.py\<close>, from \<open>_resolve_enabled_usage_site\<close> to \<open>revoke_email_site_usage\<close>).
  Every operation gets one clock reading \<open>now\<close> and the uuids it draws as parameters; the code reads
  the clock again at each helper call of the same request.
\<close>

datatype token_failure = TokInvalidGrant | TokOAuth | TokNotMicrosoft | TokOther
  \<comment> \<open>the classes of a token service's exceptions that the interface tells apart\<close>

datatype lease_error =
    ScopeDenied string
  | LeaseNotFound
  | LeaseUnavailable bool \<comment> \<open>whether a failed flush has left the session unusable\<close>
  | LeaseInactive
  | LeaseModeMismatch
  | LeaseVersionConflict
  | LeaseEmailNotFound
  | LeaseMailboxBusy
  | LeaseUsageSite
  | LeaseEmailSiteConflict
  | UsageSiteNotFound
  | UsageSiteConflict
  | UsageSiteInUse nat
  | LeaseProviderNotConfigured
  | LeaseProviderUnsupported
  | LeaseValueError
  | ClaimConflict \<comment> \<open>the \<open>IntegrityError\<close> that \<open>_upsert_lease_claim\<close> raises itself\<close>
  | FlushConflict \<comment> \<open>a unique constraint refused a flush\<close>
  | PendingRollback \<comment> \<open>a session used again after a failed flush\<close>
  | CredentialUnreadable
  | TokenFailure token_failure
  | ReleaseFailure ops_error

definition audit_target_type :: "string \<Rightarrow> string" where
  "audit_target_type event_type =
     (if starts_with event_type ''email_site_usage.'' then ''email_site_usage''
      else if starts_with event_type ''lease.'' then ''lease'' else ''mailbox'')"

definition write_audit_log :: "principal \<Rightarrow> string \<Rightarrow> string \<Rightarrow> json \<Rightarrow> (db, lease_error, unit) action" where
  "write_audit_log p event_type target_id metadata =
     write_audit_event ''client'' (Some (client_key_id p)) event_type (audit_target_type event_type) (Some target_id)
       (Some metadata) None"

definition site_row :: "string \<Rightarrow> db \<Rightarrow> usage_site option" where
  "site_row code s = row_by us_code code (usage_sites s)"

definition write_site :: "usage_site \<Rightarrow> db \<Rightarrow> db" where
  "write_site u s = s\<lparr>usage_sites := put_row us_code u (usage_sites s)\<rparr>"

definition usage_row :: "string \<Rightarrow> string \<Rightarrow> db \<Rightarrow> email_site_usage option" where
  "usage_row email code s = row_by (\<lambda>u. (eu_allocated_email u, eu_usage_site_code u)) (email, code) (site_usages s)"

definition write_usage :: "email_site_usage \<Rightarrow> db \<Rightarrow> db" where
  "write_usage u s = s\<lparr>site_usages := put_row eu_id u (site_usages s)\<rparr>"

definition resolve_enabled_usage_site :: "string \<Rightarrow> (db, lease_error, string) action" where
  "resolve_enabled_usage_site usage_site =
     (let code = strip_lower usage_site in
      andthen (require (code \<noteq> []) LeaseUsageSite)
     (bnd (asks (site_row code)) (\<lambda>row. case row of
        None \<Rightarrow> throw LeaseUsageSite
      | Some u \<Rightarrow> if us_enabled u then ret (us_code u) else throw LeaseUsageSite)))"

definition has_active_email_site_usage :: "string \<Rightarrow> string \<Rightarrow> db \<Rightarrow> bool" where
  "has_active_email_site_usage email code s \<longleftrightarrow>
     list_ex (\<lambda>u. eu_allocated_email u = strip_lower email \<and> eu_usage_site_code u = code \<and> eu_revoked_at u = None)
       (site_usages s)"

definition mailbox_has_active_site_usage :: "string \<Rightarrow> string \<Rightarrow> db \<Rightarrow> bool" where
  "mailbox_has_active_site_usage primary code s =
     (case row_by mb_primary_email (strip_lower primary) (mailboxes s) of
        None \<Rightarrow> False
      | Some m \<Rightarrow>
          list_ex (\<lambda>u. eu_mailbox_id u = Some (mb_id m) \<and> eu_usage_site_code u = code \<and> eu_revoked_at u = None)
            (site_usages s))"

definition record_email_site_usage ::
    "string \<Rightarrow> time \<Rightarrow> principal \<Rightarrow> string \<Rightarrow> string \<Rightarrow> string option \<Rightarrow> string \<Rightarrow> (db, lease_error, unit) action" where
  "record_email_site_usage new_id now p allocated code mailbox_id lease_id =
     (let email = strip_lower allocated in
      bnd (asks (usage_row email code)) (\<lambda>row. case row of
        None \<Rightarrow>
          andthen (modify (\<lambda>s. s\<lparr>site_usages := site_usages s @
              [\<lparr>eu_id = new_id, eu_allocated_email = email, eu_usage_site_code = code, eu_mailbox_id = mailbox_id,
                eu_lease_id = Some lease_id, eu_client_key_id = Some (client_key_id p), eu_created_at = now,
                eu_revoked_at = None, eu_updated_at = now\<rparr>]\<rparr>))
            (write_audit_log p ''email_site_usage.recorded'' lease_id
              (JObj [(''allocated_email'', JStr email), (''usage_site'', JStr code), (''mailbox_id'', jopt mailbox_id),
                     (''reactivated'', JBool False)]))
      | Some u \<Rightarrow>
          if eu_revoked_at u = None then throw LeaseEmailSiteConflict
          else andthen (modify (write_usage (u\<lparr>eu_revoked_at := None, eu_mailbox_id := mailbox_id,
                   eu_lease_id := Some lease_id, eu_client_key_id := Some (client_key_id p), eu_updated_at := now\<rparr>)))
                 (write_audit_log p ''email_site_usage.reactivated'' lease_id
                   (JObj [(''allocated_email'', JStr email), (''usage_site'', JStr code), (''mailbox_id'', jopt mailbox_id),
                          (''usage_id'', JStr (eu_id u)), (''reactivated'', JBool True)]))))"

definition list_enabled_usage_sites :: "principal \<Rightarrow> (db, lease_error, usage_site list) action" where
  "list_enabled_usage_sites p =
     andthen (require_scope ScopeDenied p ''mailboxes:acquire'')
       (asks (\<lambda>s. sort_key us_code (filter us_enabled (usage_sites s))))"

definition list_usage_sites_for_admin :: "bool \<Rightarrow> db \<Rightarrow> usage_site list" where
  "list_usage_sites_for_admin include_disabled s =
     sort_key us_code (filter (\<lambda>u. include_disabled \<or> us_enabled u) (usage_sites s))"

definition count_active_email_site_usages :: "string \<Rightarrow> db \<Rightarrow> nat" where
  "count_active_email_site_usages code s =
     rowcount (\<lambda>u. eu_usage_site_code u = strip_lower code \<and> eu_revoked_at u = None) (site_usages s)"

definition create_usage_site ::
    "time \<Rightarrow> string \<Rightarrow> string \<Rightarrow> bool \<Rightarrow> string \<Rightarrow> (db, lease_error, usage_site) action" where
  "create_usage_site now code display_name enabled actor_id =
     (let normalized = strip_lower code in
      andthen (require (normalized \<noteq> []) LeaseValueError)
     (bnd (asks (site_row normalized)) (\<lambda>existing.
      andthen (require (existing = None) UsageSiteConflict)
        (let u = \<lparr>us_code = normalized, us_display_name = strip display_name, us_enabled = enabled, us_created_at = now\<rparr>
         in andthen (modify (\<lambda>s. s\<lparr>usage_sites := usage_sites s @ [u]\<rparr>))
           (andthen (write_audit_event ''admin'' (Some actor_id) ''usage_site.created'' ''usage_site'' (Some normalized)
               (Some (JObj [(''code'', JStr normalized), (''display_name'', JStr (us_display_name u)),
                            (''enabled'', JBool enabled)])) None)
             (ret u))))))"

definition update_usage_site ::
    "string \<Rightarrow> string option \<Rightarrow> bool option \<Rightarrow> string \<Rightarrow> (db, lease_error, usage_site) action" where
  "update_usage_site code display_name enabled actor_id =
     (let normalized = strip_lower code in
      bnd (asks (site_row normalized)) (\<lambda>row. case row of
        None \<Rightarrow> throw UsageSiteNotFound
      | Some u \<Rightarrow>
          andthen (require (\<not> (display_name = None \<and> enabled = None)) LeaseValueError)
            (let u1 = (case display_name of None \<Rightarrow> u | Some d \<Rightarrow> u\<lparr>us_display_name := strip d\<rparr>);
                 u2 = (case enabled of None \<Rightarrow> u1 | Some b \<Rightarrow> u1\<lparr>us_enabled := b\<rparr>);
                 changes = (case display_name of None \<Rightarrow> [] | Some d \<Rightarrow> [(''display_name'', JStr (strip d))])
                   @ (case enabled of None \<Rightarrow> [] | Some b \<Rightarrow> [(''enabled'', JBool b)])
             in andthen (modify (write_site u2))
               (andthen (write_audit_event ''admin'' (Some actor_id) ''usage_site.updated'' ''usage_site'' (Some normalized)
                   (Some (JObj changes)) None)
                 (ret u2)))))"

definition delete_usage_site :: "string \<Rightarrow> string \<Rightarrow> (db, lease_error, unit) action" where
  "delete_usage_site code actor_id =
     (let normalized = strip_lower code in
      bnd (asks (site_row normalized)) (\<lambda>row. case row of
        None \<Rightarrow> throw UsageSiteNotFound
      | Some u \<Rightarrow>
          bnd (asks (count_active_email_site_usages normalized)) (\<lambda>n.
          andthen (require (n = 0) (UsageSiteInUse n))
         (bnd (asks (\<lambda>s. rowcount (\<lambda>x. eu_usage_site_code x = normalized) (site_usages s))) (\<lambda>deleted.
          andthen (modify (\<lambda>s. s\<lparr>site_usages := delete_where (\<lambda>x. eu_usage_site_code x = normalized) (site_usages s),
                                usage_sites := delete_where (\<lambda>x. us_code x = us_code u) (usage_sites s)\<rparr>))
            (write_audit_event ''admin'' (Some actor_id) ''usage_site.deleted'' ''usage_site'' (Some normalized)
               (Some (JObj [(''code'', JStr normalized), (''display_name'', JStr (us_display_name u)),
                            (''deleted_revoked_usage_count'', JInt (int deleted))])) None))))))"

definition usage_filter :: "string option \<Rightarrow> string option \<Rightarrow> bool \<Rightarrow> email_site_usage \<Rightarrow> bool" where
  "usage_filter email site include_revoked u \<longleftrightarrow>
     (case email of None \<Rightarrow> True | Some e \<Rightarrow> e = [] \<or> eu_allocated_email u = strip_lower e)
     \<and> (case site of None \<Rightarrow> True | Some c \<Rightarrow> c = [] \<or> eu_usage_site_code u = strip_lower c)
     \<and> (include_revoked \<or> eu_revoked_at u = None)"

definition list_email_site_usages ::
    "string option \<Rightarrow> string option \<Rightarrow> bool \<Rightarrow> nat \<Rightarrow> nat \<Rightarrow> db \<Rightarrow> email_site_usage list \<times> nat" where
  \<comment> \<open>\<open>page\<close> counts from 1; the API admits no smaller one\<close>
  "list_email_site_usages email site include_revoked page page_size s =
     (let rows = filter (usage_filter email site include_revoked) (site_usages s)
      in (take page_size (drop ((page - 1) * page_size) (sort_key (\<lambda>u. - eu_created_at u) rows)), length rows))"

definition revoke_email_site_usage :: "time \<Rightarrow> string \<Rightarrow> string \<Rightarrow> (db, lease_error, email_site_usage) action" where
  "revoke_email_site_usage now usage_id actor_id =
     bnd (asks (\<lambda>s. row_by eu_id usage_id (site_usages s))) (\<lambda>row. case row of
       None \<Rightarrow> throw LeaseNotFound
     | Some u \<Rightarrow>
         if eu_revoked_at u \<noteq> None then ret u
         else (let u1 = u\<lparr>eu_revoked_at := Some now, eu_updated_at := now\<rparr>
               in andthen (modify (write_usage u1))
                 (andthen (write_audit_event ''admin'' (Some actor_id) ''email_site_usage.revoked'' ''email_site_usage''
                     (Some (eu_id u))
                     (Some (JObj [(''allocated_email'', JStr (eu_allocated_email u)), (''usage_site'', JStr (eu_usage_site_code u)),
                                  (''mailbox_id'', jopt (eu_mailbox_id u)), (''lease_id'', jopt (eu_lease_id u))])) None)
                   (ret u1))))"

subsection \<open>Consistency of the site tables\<close>

definition sites_ok :: "db \<Rightarrow> bool" where
  "sites_ok s \<longleftrightarrow> distinct (map us_code (usage_sites s)) \<and> distinct (map eu_id (site_usages s))
     \<and> distinct (map (\<lambda>u. (eu_allocated_email u, eu_usage_site_code u)) (site_usages s))
     \<and> (\<forall>u \<in> set (site_usages s). eu_usage_site_code u \<in> us_code ` set (usage_sites s)
          \<and> strip_lower (eu_allocated_email u) = eu_allocated_email u)"

lemma site_row_code: "site_row c s = Some u \<Longrightarrow> us_code u = c \<and> u \<in> set (usage_sites s)"
  by (auto simp: site_row_def dest: row_by_Some)

lemma usage_row_key:
  "usage_row e c s = Some u \<Longrightarrow> eu_allocated_email u = e \<and> eu_usage_site_code u = c \<and> u \<in> set (site_usages s)"
  by (auto simp: usage_row_def dest: row_by_Some)

lemma usage_row_None:
  "usage_row e c s = None \<longleftrightarrow> (e, c) \<notin> (\<lambda>u. (eu_allocated_email u, eu_usage_site_code u)) ` set (site_usages s)"
  by (simp add: usage_row_def row_by_None)

lemma sites_ok_audit [simp]: "sites_ok (s\<lparr>audit_logs := a\<rparr>) = sites_ok s"
  by (simp add: sites_ok_def)

lemma sites_ok_write_usage:
  assumes "sites_ok s" and "u \<in> set (site_usages s)" and "eu_id v = eu_id u"
    and "eu_allocated_email v = eu_allocated_email u" and "eu_usage_site_code v = eu_usage_site_code u"
  shows "sites_ok (write_usage v s)"
proof -
  have "distinct (map (\<lambda>x. (eu_allocated_email x, eu_usage_site_code x)) (put_row eu_id v (site_usages s)))"
  proof (rule distinct_put_row)
    fix x
    assume x: "x \<in> set (site_usages s)" "eu_id x \<noteq> eu_id v"
    then have "x \<noteq> u" using assms(3) by auto
    moreover have "inj_on (\<lambda>x. (eu_allocated_email x, eu_usage_site_code x)) (set (site_usages s))"
      using assms(1) by (simp add: sites_ok_def distinct_map)
    ultimately show "(eu_allocated_email x, eu_usage_site_code x) \<noteq> (eu_allocated_email v, eu_usage_site_code v)"
      using x(1) assms(2,4,5) by (auto dest: inj_onD)
  qed (use assms(1) in \<open>simp_all add: sites_ok_def\<close>)
  then show ?thesis
    using assms by (auto simp: sites_ok_def write_usage_def dest!: set_put_row)
qed

lemma sites_ok_append:
  assumes "sites_ok s" and "new_id \<notin> eu_id ` set (site_usages s)" and "c \<in> us_code ` set (usage_sites s)"
    and "(strip_lower e, c) \<notin> (\<lambda>u. (eu_allocated_email u, eu_usage_site_code u)) ` set (site_usages s)"
  shows "sites_ok (s\<lparr>site_usages := site_usages s @ [\<lparr>eu_id = new_id, eu_allocated_email = strip_lower e,
    eu_usage_site_code = c, eu_mailbox_id = mb, eu_lease_id = l, eu_client_key_id = k, eu_created_at = x,
    eu_revoked_at = y, eu_updated_at = z\<rparr>]\<rparr>)"
  using assms by (auto simp: sites_ok_def strip_lower_idem)

lemma record_keeps_sites:
  assumes "sites_ok s" and "new_id \<notin> eu_id ` set (site_usages s)" and "c \<in> us_code ` set (usage_sites s)"
  shows "sites_ok (snd (record_email_site_usage new_id now p e c mb l s))"
proof (cases "usage_row (strip_lower e) c s")
  case None
  let ?r = "\<lparr>eu_id = new_id, eu_allocated_email = strip_lower e, eu_usage_site_code = c, eu_mailbox_id = mb,
    eu_lease_id = Some l, eu_client_key_id = Some (client_key_id p), eu_created_at = now, eu_revoked_at = None, eu_updated_at = now\<rparr>"
  from None have eq: "snd (record_email_site_usage new_id now p e c mb l s) = s\<lparr>site_usages := site_usages s @ [?r],
      audit_logs := audit_logs (snd (record_email_site_usage new_id now p e c mb l s))\<rparr>"
    by (simp add: record_email_site_usage_def Let_def run write_audit_log_def write_audit_event_def)
  have "(strip_lower e, c) \<notin> (\<lambda>u. (eu_allocated_email u, eu_usage_site_code u)) ` set (site_usages s)"
    using None by (simp add: usage_row_None)
  then show ?thesis by (subst eq) (simp add: sites_ok_append assms)
next
  case (Some u)
  with assms(1) usage_row_key [OF Some] show ?thesis
    by (auto simp: record_email_site_usage_def Let_def run write_audit_log_def write_audit_event_def
        intro!: sites_ok_write_usage [where u = u])
qed

lemma create_site_keeps: "keeps sites_ok (create_usage_site now c d b a)"
  by (intro keepsI)
    (auto simp: create_usage_site_def Let_def run write_audit_event_def sites_ok_def site_row_def row_by_None)

lemma update_site_keeps: "keeps sites_ok (update_usage_site c d b a)"
proof (intro keepsI)
  fix s
  assume s: "sites_ok s"
  have "sites_ok (write_site v s)" if "x \<in> set (usage_sites s)" "us_code v = us_code x" for v x
  proof -
    have "us_code ` set (put_row us_code v (usage_sites s)) = us_code ` set (usage_sites s)"
      by (metis map_key_put_row list.set_map)
    then show ?thesis using s by (simp add: sites_ok_def write_site_def)
  qed
  then show "sites_ok (snd (update_usage_site c d b a s))"
    using s by (auto simp: update_usage_site_def Let_def run write_audit_event_def dest!: site_row_code split: option.splits)
qed

lemma delete_site_keeps: "keeps sites_ok (delete_usage_site c a)"
proof (intro keepsI)
  fix s
  assume s: "sites_ok s"
  have "sites_ok (s\<lparr>site_usages := delete_where (\<lambda>x. eu_usage_site_code x = k) (site_usages s),
                    usage_sites := delete_where (\<lambda>x. us_code x = k) (usage_sites s)\<rparr>)" for k
    using s by (auto simp: sites_ok_def distinct_delete_where image_iff)
  then show "sites_ok (snd (delete_usage_site c a s))"
    using s by (auto simp: delete_usage_site_def Let_def run write_audit_event_def dest!: site_row_code split: option.split)
qed

lemma revoke_keeps: "keeps sites_ok (revoke_email_site_usage now i a)"
proof (intro keepsI)
  fix s
  assume s: "sites_ok s"
  have "sites_ok (write_usage (u\<lparr>eu_revoked_at := Some now, eu_updated_at := now\<rparr>) s)"
    if "row_by eu_id i (site_usages s) = Some u" for u
    using s row_by_Some [OF that] by (intro sites_ok_write_usage [where u = u]) auto
  then show "sites_ok (snd (revoke_email_site_usage now i a s))"
    using s by (auto simp: revoke_email_site_usage_def Let_def run write_audit_event_def split: option.split)
qed

text \<open>
  The site tables stay consistent under every administrative operation: site codes and occupancy
  ids are unique, an address has one occupancy row per site, every row's site exists (a deleted site
  takes its revoked rows along and is refused while an active one remains) and addresses are stored
  normalized.
\<close>

theorem usage_sites_consistent:
  "keeps sites_ok (create_usage_site now code_in name enabled actor)
   \<and> keeps sites_ok (update_usage_site code_in name_opt enabled_opt actor)
   \<and> keeps sites_ok (delete_usage_site code_in actor)
   \<and> keeps sites_ok (revoke_email_site_usage now usage_id actor)"
  using create_site_keeps update_site_keeps delete_site_keeps revoke_keeps by blast

subsection \<open>One registration per address and site\<close>

lemma active_usage_row:
  assumes "sites_ok s"
  shows "has_active_email_site_usage e c s \<longleftrightarrow> (\<exists>u. usage_row (strip_lower e) c s = Some u \<and> eu_revoked_at u = None)"
proof
  assume "has_active_email_site_usage e c s"
  then obtain u where u: "u \<in> set (site_usages s)" "eu_allocated_email u = strip_lower e" "eu_usage_site_code u = c"
    "eu_revoked_at u = None" by (auto simp: has_active_email_site_usage_def list_ex_iff)
  then have "usage_row (strip_lower e) c s = Some u"
    using assms row_by_unique [of "\<lambda>u. (eu_allocated_email u, eu_usage_site_code u)" "site_usages s" u]
    by (simp add: usage_row_def sites_ok_def)
  with u(4) show "\<exists>u. usage_row (strip_lower e) c s = Some u \<and> eu_revoked_at u = None" by blast
qed (auto simp: has_active_email_site_usage_def list_ex_iff dest!: usage_row_key)

lemma usage_row_write:
  assumes "sites_ok s" and "usage_row e c s = Some u" and "eu_id v = eu_id u"
    and "eu_allocated_email v = e" and "eu_usage_site_code v = c"
  shows "usage_row e c (write_usage v s) = Some v"
proof -
  have u: "u \<in> set (site_usages s)" "eu_allocated_email u = e" "eu_usage_site_code u = c"
    using usage_row_key [OF assms(2)] by auto
  have "sites_ok (write_usage v s)" using assms u by (intro sites_ok_write_usage [OF assms(1) u(1)]) auto
  moreover have "v \<in> set (site_usages (write_usage v s))"
    using u(1) assms(3) by (auto simp: write_usage_def put_row_def set_update_where intro: bexI [of _ u])
  ultimately show ?thesis
    using row_by_unique [of "\<lambda>u. (eu_allocated_email u, eu_usage_site_code u)" "site_usages (write_usage v s)" v] assms
    by (simp add: usage_row_def sites_ok_def)
qed

lemma usage_row_audit [simp]: "usage_row e c (s\<lparr>audit_logs := a\<rparr>) = usage_row e c s"
  by (simp add: usage_row_def)

lemma record_decides:
  assumes "sites_ok s"
  shows "fst (record_email_site_usage new_id now p e c mb l s) =
      (if has_active_email_site_usage e c s then Inl LeaseEmailSiteConflict else Inr ())"
  using active_usage_row [OF assms, of e c]
  by (cases "usage_row (strip_lower e) c s")
    (auto simp: record_email_site_usage_def Let_def run write_audit_log_def write_audit_event_def)

lemma record_activates:
  assumes "sites_ok s" and "fst (record_email_site_usage new_id now p e c mb l s) = Inr ()"
  shows "\<exists>u. usage_row (strip_lower e) c (snd (record_email_site_usage new_id now p e c mb l s)) = Some u
      \<and> eu_revoked_at u = None \<and> eu_client_key_id u = Some (client_key_id p) \<and> eu_lease_id u = Some l"
proof (cases "usage_row (strip_lower e) c s")
  case None
  then show ?thesis
    by (auto simp: record_email_site_usage_def Let_def run write_audit_log_def write_audit_event_def
        usage_row_def row_by_append)
next
  case (Some u)
  let ?v = "u\<lparr>eu_revoked_at := None, eu_mailbox_id := mb, eu_lease_id := Some l,
    eu_client_key_id := Some (client_key_id p), eu_updated_at := now\<rparr>"
  have "usage_row (strip_lower e) c (write_usage ?v s) = Some ?v"
    using usage_row_key [OF Some] by (intro usage_row_write [OF assms(1) Some]) auto
  with Some assms(2) show ?thesis
    by (auto simp: record_email_site_usage_def Let_def run write_audit_log_def write_audit_event_def split: if_splits)
qed

text \<open>
  An address registers once per site: a registration succeeds exactly when the pair has no active
  occupancy, and afterwards every further registration of the pair, by any client and lease, is
  refused as a conflict.
\<close>

theorem registration_is_exclusive:
  assumes "sites_ok s" and "new_id \<notin> eu_id ` set (site_usages s)" and "site \<in> us_code ` set (usage_sites s)"
    and "record_email_site_usage new_id now p email site mb l s = (Inr (), t)"
  shows "\<not> has_active_email_site_usage email site s \<and> has_active_email_site_usage email site t
    \<and> fst (record_email_site_usage id2 later q email site mb2 l2 t) = Inl LeaseEmailSiteConflict"
proof -
  have t: "t = snd (record_email_site_usage new_id now p email site mb l s)"
    and f: "fst (record_email_site_usage new_id now p email site mb l s) = Inr ()"
    using assms(4) by simp_all
  have ok: "sites_ok t" unfolding t by (rule record_keeps_sites [OF assms(1-3)])
  have "has_active_email_site_usage email site t"
    using record_activates [OF assms(1) f] active_usage_row [OF ok] unfolding t by blast
  moreover have "\<not> has_active_email_site_usage email site s"
    using record_decides [OF assms(1)] f by (metis Inl_Inr_False)
  ultimately show ?thesis using record_decides [OF ok] by simp
qed

theorem registration_is_exclusive_witness:
  "\<exists>t. fst (record_email_site_usage ''u2'' 9 \<lparr>client_key_id = ''k2'', principal_name = ''n'', scopes = []\<rparr>
      ''A@x.com'' ''shop'' None ''l2'' t) = Inl LeaseEmailSiteConflict"
proof -
  let ?s = "empty_db\<lparr>usage_sites := [\<lparr>us_code = ''shop'', us_display_name = ''Shop'', us_enabled = True, us_created_at = 0\<rparr>]\<rparr>"
  let ?p = "\<lparr>client_key_id = ''k1'', principal_name = ''m'', scopes = []\<rparr>"
  have ok: "sites_ok ?s" by (simp add: sites_ok_def empty_db_def)
  have "fst (record_email_site_usage ''u1'' 5 ?p ''A@x.com'' ''shop'' None ''l1'' ?s) = Inr ()"
    unfolding record_decides [OF ok] by (simp add: has_active_email_site_usage_def empty_db_def)
  then obtain t where t: "record_email_site_usage ''u1'' 5 ?p ''A@x.com'' ''shop'' None ''l1'' ?s = (Inr (), t)"
    by (metis prod.collapse)
  have "''u1'' \<notin> eu_id ` set (site_usages ?s)" "''shop'' \<in> us_code ` set (usage_sites ?s)"
    by (simp_all add: empty_db_def)
  from registration_is_exclusive [OF ok this t] show ?thesis by blast
qed

text \<open>
  Revoking makes room again: after an occupancy row is revoked its address is free on its site
  and the next registration succeeds, reusing the same row.
\<close>

theorem revoked_registration_is_reusable:
  assumes "sites_ok s" and "row_by eu_id i (site_usages s) = Some u" and "revoke_email_site_usage now i actor s = (Inr v, t)"
  shows "\<not> has_active_email_site_usage (eu_allocated_email u) (eu_usage_site_code u) t
    \<and> (\<exists>w. fst (record_email_site_usage new_id later p (eu_allocated_email u) (eu_usage_site_code u) mb l t) = Inr ()
        \<and> usage_row (eu_allocated_email u) (eu_usage_site_code u)
            (snd (record_email_site_usage new_id later p (eu_allocated_email u) (eu_usage_site_code u) mb l t)) = Some w
        \<and> eu_revoked_at w = None \<and> length (site_usages t) = length (site_usages s))"
proof -
  have u: "u \<in> set (site_usages s)" "eu_id u = i" using row_by_Some [OF assms(2)] by auto
  have norm: "strip_lower (eu_allocated_email u) = eu_allocated_email u" using assms(1) u(1) by (simp add: sites_ok_def)
  have row: "usage_row (eu_allocated_email u) (eu_usage_site_code u) s = Some u"
    using assms(1) u(1) row_by_unique [of "\<lambda>u. (eu_allocated_email u, eu_usage_site_code u)" "site_usages s" u]
    by (simp add: usage_row_def sites_ok_def)
  have ok: "sites_ok t" using keepsD_eq [OF revoke_keeps assms(1,3)] .
  have "\<exists>x. usage_row (eu_allocated_email u) (eu_usage_site_code u) t = Some x \<and> eu_revoked_at x \<noteq> None
      \<and> length (site_usages t) = length (site_usages s)"
  proof (cases "eu_revoked_at u")
    case None
    let ?v = "u\<lparr>eu_revoked_at := Some now, eu_updated_at := now\<rparr>"
    have "usage_row (eu_allocated_email u) (eu_usage_site_code u) (write_usage ?v s) = Some ?v"
      by (rule usage_row_write [OF assms(1) row]) simp_all
    with None assms(2,3) show ?thesis
      by (auto simp: revoke_email_site_usage_def Let_def run write_audit_event_def write_usage_def)
  next
    case (Some r)
    with assms(2,3) row show ?thesis by (auto simp: revoke_email_site_usage_def run)
  qed
  then obtain x where x: "usage_row (eu_allocated_email u) (eu_usage_site_code u) t = Some x" "eu_revoked_at x \<noteq> None"
      "length (site_usages t) = length (site_usages s)" by blast
  then have free: "\<not> has_active_email_site_usage (eu_allocated_email u) (eu_usage_site_code u) t"
    using active_usage_row [OF ok] norm by auto
  then have f: "fst (record_email_site_usage new_id later p (eu_allocated_email u) (eu_usage_site_code u) mb l t) = Inr ()"
    using record_decides [OF ok] by simp
  from record_activates [OF ok f] free f x(3) norm show ?thesis by auto
qed

theorem revoked_registration_is_reusable_witness:
  "\<exists>t. fst (record_email_site_usage ''u2'' 9 \<lparr>client_key_id = ''k2'', principal_name = ''n'', scopes = []\<rparr>
      ''a@x.com'' ''shop'' None ''l2'' t) = Inr ()"
proof -
  let ?u = "\<lparr>eu_id = ''u1'', eu_allocated_email = ''a@x.com'', eu_usage_site_code = ''shop'', eu_mailbox_id = None,
    eu_lease_id = None, eu_client_key_id = None, eu_created_at = 0, eu_revoked_at = None, eu_updated_at = 0\<rparr>"
  let ?s = "empty_db\<lparr>usage_sites := [\<lparr>us_code = ''shop'', us_display_name = ''Shop'', us_enabled = True, us_created_at = 0\<rparr>],
    site_usages := [?u]\<rparr>"
  have n: "strip_lower ''a@x.com'' = ''a@x.com''" by code_simp
  have ok: "sites_ok ?s" by (simp add: sites_ok_def n)
  have r: "row_by eu_id ''u1'' (site_usages ?s) = Some ?u" by (simp add: row_by_def)
  obtain t v where "revoke_email_site_usage 5 ''u1'' ''admin'' ?s = (Inr v, t)"
    using r by (simp add: revoke_email_site_usage_def Let_def run write_audit_event_def)
  from revoked_registration_is_reusable [OF ok r this, of "''u2''" 9 "\<lparr>client_key_id = ''k2'', principal_name = ''n'', scopes = []\<rparr>" None "''l2''"]
  show ?thesis by auto
qed

text \<open>
  Paging is complete: the first \<open>n\<close> pages of the occupancy list, put together, are the first
  \<open>n * page_size\<close> rows of the filtered list in order of creation, newest first, so no row is skipped
  or repeated, and the reported total is the length of that list.
\<close>

theorem usage_pages_cover:
  "concat (map (\<lambda>k. fst (list_email_site_usages email site inc (Suc k) psize s)) [0..<n]) =
     take (n * psize) (sort_key (\<lambda>u. - eu_created_at u) (filter (usage_filter email site inc) (site_usages s)))
   \<and> snd (list_email_site_usages email site inc page psize s)
       = length (filter (usage_filter email site inc) (site_usages s))"
proof -
  have "concat (map (\<lambda>k. take psize (drop (k * psize) rows)) [0..<n]) = take (n * psize) rows" for rows :: "email_site_usage list"
    by (induction n) (simp_all add: take_add [symmetric] add.commute)
  then show ?thesis by (simp add: list_email_site_usages_def Let_def)
qed

end
