(* ===== verification/TokenRepo.thy ===== *)
theory TokenRepo
  imports Tables
begin

text \<open>
  The database side of the token refresh (\<open>token_repository.py\<close>): the refresh claim, the
  compare-and-swap writes of the refresh token and the finalizing writes of a refresh. Fresh claim
  ids, the clock and decryption are parameters; each definition is one short transaction under the
  mailbox's row lock, so it is one atomic step here.
\<close>

datatype token_error = VersionConflict | AlreadyClaimed string string time | ActiveRefreshTokenLease
  | MailboxNotFound | MailboxIsInvalid | MissingCredentials | RotationWithoutStamps | DecryptionFailed

record refresh_claim =
  rc_claim_id :: string
  rc_mailbox_id :: string
  rc_primary_email :: string
  rc_client_id :: string
  rc_refresh_token :: string
  rc_expected_token_version :: int
  rc_expires_at :: time

subsection \<open>Mailbox rows\<close>

definition mailbox_row :: "string \<Rightarrow> db \<Rightarrow> mailbox option" where
  "mailbox_row i s = row_by mb_id i (mailboxes s)"

definition update_mailboxes :: "(mailbox \<Rightarrow> bool) \<Rightarrow> (mailbox \<Rightarrow> mailbox) \<Rightarrow> (db, 'e, nat) action" where
  \<comment> \<open>\<open>session.execute(update(Mailbox).where(p).values(f))\<close>, with its rowcount\<close>
  "update_mailboxes p f =
     (\<lambda>s. (Inr (rowcount p (mailboxes s)), s\<lparr>mailboxes := update_where p f (mailboxes s)\<rparr>))"

definition clear_access_token_cache :: "mailbox \<Rightarrow> mailbox" where
  "clear_access_token_cache m = m\<lparr>mb_access_token_ciphertext := None, mb_access_token_expires_at := None,
     mb_access_token_refreshed_at := None, mb_access_token_source_version := None\<rparr>"

subsection \<open>Replacing the refresh token\<close>

definition put_refresh_token :: "string \<Rightarrow> time \<Rightarrow> time \<Rightarrow> bool \<Rightarrow> int \<Rightarrow> mailbox \<Rightarrow> mailbox" where
  \<comment> \<open>the values both writers set\<close>
  "put_refresh_token encrypted updated_at expires_at clear_cache version m =
     (if clear_cache then clear_access_token_cache m else m)
       \<lparr>mb_refresh_token_ciphertext := Some encrypted, mb_refresh_token_updated_at := Some updated_at,
        mb_refresh_token_expires_at := Some expires_at, mb_token_version := version, mb_updated_at := updated_at\<rparr>"

definition compare_and_swap_refresh_token ::
    "string \<Rightarrow> int \<Rightarrow> string \<Rightarrow> time \<Rightarrow> time \<Rightarrow> bool \<Rightarrow> (db, token_error, int) action" where
  "compare_and_swap_refresh_token mailbox_id expected encrypted updated_at expires_at clear_cache =
     bnd (update_mailboxes (\<lambda>m. mb_id m = mailbox_id \<and> mb_token_version m = expected)
           (put_refresh_token encrypted updated_at expires_at clear_cache (expected + 1))) (\<lambda>n.
     andthen (require (n = 1) VersionConflict) (ret (expected + 1)))"

definition increment_token_version_under_lock ::
    "string \<Rightarrow> string \<Rightarrow> time \<Rightarrow> time \<Rightarrow> bool \<Rightarrow> (db, token_error, int) action" where
  "increment_token_version_under_lock mailbox_id encrypted updated_at expires_at clear_cache =
     bnd (update_mailboxes (\<lambda>m. mb_id m = mailbox_id)
           (\<lambda>m. put_refresh_token encrypted updated_at expires_at clear_cache (mb_token_version m + 1) m)) (\<lambda>_.
     bnd (asks (mailbox_row mailbox_id)) (\<lambda>row. case row of
       None \<Rightarrow> throw MailboxNotFound
     | Some m \<Rightarrow> ret (mb_token_version m)))"

subsection \<open>The refresh claim\<close>

definition has_active_refresh_token_lease_claim :: "string \<Rightarrow> time \<Rightarrow> db \<Rightarrow> bool" where
  "has_active_refresh_token_lease_claim mailbox_id now s \<longleftrightarrow>
     list_ex (\<lambda>c. lc_mailbox_id c = Some mailbox_id \<and> lc_mode c = RefreshToken \<and> now < lc_expires_at c) (claims s)"

definition live_refresh_claim :: "mailbox \<Rightarrow> time \<Rightarrow> (string \<times> time) option" where
  "live_refresh_claim m now =
     (case (mb_token_refresh_claim_id m, mb_token_refresh_claim_expires_at m) of
        (Some c, Some e) \<Rightarrow> if is_expired e now then None else Some (c, e)
      | _ \<Rightarrow> None)"

definition claimable :: "string \<Rightarrow> time \<Rightarrow> mailbox \<Rightarrow> bool" where
  \<comment> \<open>the WHERE clause of the conditional UPDATE\<close>
  "claimable mailbox_id now r \<longleftrightarrow> mb_id r = mailbox_id
     \<and> (mb_token_refresh_claim_id r = None \<or> mb_token_refresh_claim_expires_at r = None
        \<or> the (mb_token_refresh_claim_expires_at r) \<le> now)"

definition install_refresh_claim :: "string \<Rightarrow> time \<Rightarrow> time \<Rightarrow> mailbox \<Rightarrow> mailbox" where
  "install_refresh_claim claim_id expires_at now r =
     r\<lparr>mb_token_refresh_claim_id := Some claim_id, mb_token_refresh_claim_expires_at := Some expires_at,
       mb_updated_at := now\<rparr>"

definition claim_token_refresh ::
    "(string \<Rightarrow> string option) \<Rightarrow> string \<Rightarrow> time \<Rightarrow> string \<Rightarrow> int \<Rightarrow> bool \<Rightarrow> (db, token_error, refresh_claim) action" where
  "claim_token_refresh decrypt claim_id now mailbox_id ttl skip_lease_check =
     bnd (asks (mailbox_row mailbox_id)) (\<lambda>row. case row of
       None \<Rightarrow> throw MailboxNotFound
     | Some m \<Rightarrow>
         andthen (require (mb_status m \<noteq> MbInvalid) MailboxIsInvalid)
        (andthen (require (mb_client_id m \<notin> {None, Some []} \<and> mb_refresh_token_ciphertext m \<notin> {None, Some []})
                   MissingCredentials)
         (case live_refresh_claim m now of
            Some (c, e) \<Rightarrow> throw (AlreadyClaimed mailbox_id c e)
          | None \<Rightarrow>
              bnd (asks (has_active_refresh_token_lease_claim mailbox_id now)) (\<lambda>leased.
              andthen (require (skip_lease_check \<or> \<not> leased) ActiveRefreshTokenLease)
             (bnd (update_mailboxes (claimable mailbox_id now) (install_refresh_claim claim_id (now + secs ttl) now)) (\<lambda>n.
              bnd (asks (mailbox_row mailbox_id)) (\<lambda>row'. case row' of
                None \<Rightarrow> throw MailboxNotFound
              | Some m' \<Rightarrow>
                  if n \<noteq> 1
                  then throw (AlreadyClaimed mailbox_id
                         (case mb_token_refresh_claim_id m' of None \<Rightarrow> ''unknown'' | Some c \<Rightarrow> if c = [] then ''unknown'' else c)
                         (case mb_token_refresh_claim_expires_at m' of None \<Rightarrow> now | Some e \<Rightarrow> e))
                  else (case decrypt (the (mb_refresh_token_ciphertext m')) of
                          None \<Rightarrow> throw DecryptionFailed
                        | Some token \<Rightarrow>
                            ret \<lparr>rc_claim_id = claim_id, rc_mailbox_id = mb_id m', rc_primary_email = mb_primary_email m',
                                 rc_client_id = the (mb_client_id m'), rc_refresh_token = token,
                                 rc_expected_token_version = mb_token_version m', rc_expires_at = now + secs ttl\<rparr>))))))))"

subsection \<open>Finalizing a refresh\<close>

record refresh_outcome =
  ro_encrypted_access_token :: string
  ro_access_token_expires_at :: time
  ro_access_token_refreshed_at :: time
  ro_scope :: "string option"
  ro_encrypted_refresh_token :: "string option"
  ro_refresh_token_rotated :: bool
  ro_refresh_token_updated_at :: "time option"
  ro_refresh_token_expires_at :: "time option"

definition claim_matches :: "refresh_claim \<Rightarrow> mailbox \<Rightarrow> bool" where
  "claim_matches c m \<longleftrightarrow> mb_id m = rc_mailbox_id c \<and> mb_token_version m = rc_expected_token_version c
     \<and> mb_token_refresh_claim_id m = Some (rc_claim_id c)"

definition clear_refresh_claim :: "mailbox \<Rightarrow> mailbox" where
  "clear_refresh_claim m = m\<lparr>mb_token_refresh_claim_id := None, mb_token_refresh_claim_expires_at := None\<rparr>"

definition store_access_token :: "refresh_outcome \<Rightarrow> int \<Rightarrow> mailbox \<Rightarrow> mailbox" where
  "store_access_token ro source m =
     clear_refresh_claim (m\<lparr>mb_access_token_ciphertext := Some (ro_encrypted_access_token ro),
       mb_access_token_expires_at := Some (ro_access_token_expires_at ro),
       mb_access_token_refreshed_at := Some (ro_access_token_refreshed_at ro),
       mb_access_token_source_version := Some source, mb_scope := ro_scope ro,
       mb_updated_at := ro_access_token_refreshed_at ro,
       mb_refresh_token_updated_at := ro_refresh_token_updated_at ro,
       mb_refresh_token_expires_at := ro_refresh_token_expires_at ro\<rparr>)"

definition confirm_completed_token_version :: "refresh_claim \<Rightarrow> int \<Rightarrow> int \<Rightarrow> db \<Rightarrow> int option" where
  "confirm_completed_token_version c expected_source expected_version s =
     (case mailbox_row (rc_mailbox_id c) s of
        None \<Rightarrow> None
      | Some m \<Rightarrow>
          if mb_token_version m = expected_version \<and> mb_access_token_source_version m = Some expected_source
             \<and> mb_token_refresh_claim_id m = None \<and> mb_access_token_ciphertext m \<noteq> None
          then Some expected_version else None)"

definition complete_token_refresh :: "refresh_claim \<Rightarrow> refresh_outcome \<Rightarrow> (db, token_error, int option) action" where
  "complete_token_refresh c ro =
     (if ro_refresh_token_rotated ro then
        andthen (require (ro_encrypted_refresh_token ro \<noteq> None \<and> ro_refresh_token_updated_at ro \<noteq> None
                   \<and> ro_refresh_token_expires_at ro \<noteq> None) RotationWithoutStamps)
       (bnd (update_mailboxes (claim_matches c)
              (\<lambda>m. store_access_token ro (rc_expected_token_version c + 1)
                     (m\<lparr>mb_refresh_token_ciphertext := ro_encrypted_refresh_token ro,
                        mb_token_version := rc_expected_token_version c + 1\<rparr>))) (\<lambda>n.
        if n = 1 then ret (Some (rc_expected_token_version c + 1))
        else asks (confirm_completed_token_version c (rc_expected_token_version c + 1) (rc_expected_token_version c + 1))))
      else
        bnd (update_mailboxes (claim_matches c) (store_access_token ro (rc_expected_token_version c))) (\<lambda>n.
        if n = 1 then ret (Some (rc_expected_token_version c))
        else asks (confirm_completed_token_version c (rc_expected_token_version c) (rc_expected_token_version c))))"

definition fail_token_refresh_invalid_grant :: "refresh_claim \<Rightarrow> time \<Rightarrow> (db, token_error, bool) action" where
  "fail_token_refresh_invalid_grant c now =
     bnd (update_mailboxes (claim_matches c)
           (\<lambda>m. clear_refresh_claim (m\<lparr>mb_status := MbInvalid, mb_updated_at := now\<rparr>))) (\<lambda>n.
     ret (n = 1))"

definition release_token_refresh_claim :: "refresh_claim \<Rightarrow> time \<Rightarrow> (db, token_error, unit) action" where
  "release_token_refresh_claim c now =
     bnd (update_mailboxes
           (\<lambda>m. mb_id m = rc_mailbox_id c \<and> mb_token_refresh_claim_id m = Some (rc_claim_id c))
           (\<lambda>m. clear_refresh_claim (m\<lparr>mb_updated_at := now\<rparr>))) (\<lambda>_.
     ret ())"

subsection \<open>Rows after an update\<close>

lemma update_mailboxes_run [run]:
  "update_mailboxes p f s = (Inr (rowcount p (mailboxes s)), s\<lparr>mailboxes := update_where p f (mailboxes s)\<rparr>)"
  by (simp add: update_mailboxes_def)

lemma mailbox_row_id: "mailbox_row i s = Some m \<Longrightarrow> mb_id m = i \<and> m \<in> set (mailboxes s)"
  by (auto simp: mailbox_row_def dest: row_by_Some)

lemma mailbox_row_update [simp]:
  "(\<And>m. mb_id (f m) = mb_id m) \<Longrightarrow>
     mailbox_row i (s\<lparr>mailboxes := update_where p f (mailboxes s)\<rparr>)
       = map_option (\<lambda>m. if p m then f m else m) (mailbox_row i s)"
  by (simp add: mailbox_row_def row_by_update_where)

lemma store_fields [simp]:
  "mb_id (store_access_token ro v m) = mb_id m" "mb_token_version (store_access_token ro v m) = mb_token_version m"
  "mb_refresh_token_ciphertext (store_access_token ro v m) = mb_refresh_token_ciphertext m"
  "mb_token_refresh_claim_id (store_access_token ro v m) = None"
  "mb_access_token_source_version (store_access_token ro v m) = Some v"
  "mb_access_token_ciphertext (store_access_token ro v m) = Some (ro_encrypted_access_token ro)"
  "mb_status (store_access_token ro v m) = mb_status m"
  "mb_id (put_refresh_token enc u e clear v m) = mb_id m" "mb_token_version (put_refresh_token enc u e clear v m) = v"
  "mb_refresh_token_ciphertext (put_refresh_token enc u e clear v m) = Some enc"
  "mb_token_refresh_claim_id (put_refresh_token enc u e clear v m) = mb_token_refresh_claim_id m"
  "mb_token_refresh_claim_expires_at (put_refresh_token enc u e clear v m) = mb_token_refresh_claim_expires_at m"
  "mb_access_token_source_version (put_refresh_token enc u e clear v m)
     = (if clear then None else mb_access_token_source_version m)"
  "mb_id (install_refresh_claim cid x now m) = mb_id m"
  "mb_token_version (install_refresh_claim cid x now m) = mb_token_version m"
  "mb_refresh_token_ciphertext (install_refresh_claim cid x now m) = mb_refresh_token_ciphertext m"
  "mb_token_refresh_claim_id (install_refresh_claim cid x now m) = Some cid"
  "mb_token_refresh_claim_expires_at (install_refresh_claim cid x now m) = Some x"
  "mb_id (clear_refresh_claim m) = mb_id m" "mb_token_version (clear_refresh_claim m) = mb_token_version m"
  "mb_refresh_token_ciphertext (clear_refresh_claim m) = mb_refresh_token_ciphertext m"
  "mb_token_refresh_claim_id (clear_refresh_claim m) = None"
  "mb_access_token_source_version (clear_refresh_claim m) = mb_access_token_source_version m"
  "mb_id (clear_access_token_cache m) = mb_id m" "mb_token_version (clear_access_token_cache m) = mb_token_version m"
  "mb_access_token_source_version (clear_access_token_cache m) = None"
  "mb_token_refresh_claim_id (clear_access_token_cache m) = mb_token_refresh_claim_id m"
  "mb_token_refresh_claim_expires_at (clear_access_token_cache m) = mb_token_refresh_claim_expires_at m"
  by (simp_all add: store_access_token_def clear_refresh_claim_def clear_access_token_cache_def put_refresh_token_def
      install_refresh_claim_def)

lemma swap_run [run]:
  "compare_and_swap_refresh_token i n enc u e clear s =
     (if rowcount (\<lambda>r. mb_id r = i \<and> mb_token_version r = n) (mailboxes s) = 1 then Inr (n + 1) else Inl VersionConflict,
      s\<lparr>mailboxes := update_where (\<lambda>r. mb_id r = i \<and> mb_token_version r = n)
          (put_refresh_token enc u e clear (n + 1)) (mailboxes s)\<rparr>)"
  by (simp add: compare_and_swap_refresh_token_def bnd_run andthen_run update_mailboxes_run require_run ret_run)

lemma swap_Inr_rowcount:
  assumes "compare_and_swap_refresh_token i n enc u e clear s = (Inr v, t)"
  shows "rowcount (\<lambda>r. mb_id r = i \<and> mb_token_version r = n) (mailboxes s) = 1 \<and> v = n + 1"
  using assms unfolding swap_run by (simp split: if_splits)

lemma swap_state:
  assumes "compare_and_swap_refresh_token i n enc u e clear s = (r, t)"
  shows "t = s\<lparr>mailboxes := update_where (\<lambda>r. mb_id r = i \<and> mb_token_version r = n)
          (put_refresh_token enc u e clear (n + 1)) (mailboxes s)\<rparr>"
  using assms unfolding swap_run by (rule conjunct2 [OF iffD1 [OF prod.inject], symmetric])

definition mailbox_ids_unique :: "db \<Rightarrow> bool" where
  "mailbox_ids_unique s \<longleftrightarrow> distinct (map mb_id (mailboxes s))"

lemma rowcount_by_id:
  assumes "mailbox_ids_unique s" and "\<And>m. p m \<Longrightarrow> mb_id m = i"
  shows "rowcount p (mailboxes s) = (case mailbox_row i s of None \<Rightarrow> 0 | Some m \<Rightarrow> if p m then 1 else 0)"
proof -
  have le: "rowcount p (mailboxes s) \<le> 1"
    using assms by (intro rowcount_key_le_1 [of mb_id]) (auto simp: mailbox_ids_unique_def)
  have zero: "rowcount p (mailboxes s) = 0" if "\<And>m. mailbox_row i s = Some m \<Longrightarrow> \<not> p m"
  proof -
    have "\<not> p m" if "m \<in> set (mailboxes s)" for m
      using that \<open>\<And>m. mailbox_row i s = Some m \<Longrightarrow> \<not> p m\<close> [of m] assms(2) [of m]
        row_by_unique [of mb_id "mailboxes s" m] assms(1)
      by (auto simp: mailbox_row_def mailbox_ids_unique_def)
    then show ?thesis by (simp add: rowcount_zero)
  qed
  show ?thesis
  proof (cases "mailbox_row i s")
    case (Some m)
    have "rowcount p (mailboxes s) \<noteq> 0" if "p m"
      using mailbox_row_id [OF Some] that by (auto simp: rowcount_zero)
    with le zero Some show ?thesis by (cases "p m") auto
  qed (use zero in simp)
qed

lemma unique_update [simp]:
  "(\<And>m. mb_id (f m) = mb_id m) \<Longrightarrow> mailbox_ids_unique (s\<lparr>mailboxes := update_where p f (mailboxes s)\<rparr>) = mailbox_ids_unique s"
  by (simp add: mailbox_ids_unique_def map_update_where)

subsection \<open>The contract of a versioned refresh token\<close>

text \<open>
  Every writer promises the same law about a mailbox row: its version never goes back, and while it
  stands still so does the refresh token. Whoever writes by compare-and-swap relies on this law of
  all the others.
\<close>

definition rt_advance :: "mailbox \<Rightarrow> mailbox \<Rightarrow> bool" where
  "rt_advance m m' \<longleftrightarrow> mb_token_version m \<le> mb_token_version m'
     \<and> (mb_token_version m' = mb_token_version m \<longrightarrow> mb_refresh_token_ciphertext m' = mb_refresh_token_ciphertext m)"

lemma rt_advance_refl [simp]: "rt_advance m m"
  by (simp add: rt_advance_def)

lemma rt_advance_trans: "rt_advance a b \<Longrightarrow> rt_advance b c \<Longrightarrow> rt_advance a c"
  by (auto simp: rt_advance_def)

locale versioned_writer =
  fixes put :: "db \<Rightarrow> db"
  assumes row_advances: "mailbox_row i s = Some m \<Longrightarrow> \<exists>m'. mailbox_row i (put s) = Some m' \<and> rt_advance m m'"
    and ids_stay: "mailbox_ids_unique s \<Longrightarrow> mailbox_ids_unique (put s)"
begin

lemma swap_replaces_what_was_read:
  assumes "mailbox_ids_unique s" and "mailbox_row i s = Some m"
    and "compare_and_swap_refresh_token i (mb_token_version m) enc u e clear (put s) = (Inr v, t)"
  shows "\<exists>m' m''. mailbox_row i (put s) = Some m'
     \<and> mb_refresh_token_ciphertext m' = mb_refresh_token_ciphertext m \<and> mb_token_version m' = mb_token_version m
     \<and> mailbox_row i t = Some m'' \<and> mb_refresh_token_ciphertext m'' = Some enc \<and> mb_token_version m'' = mb_token_version m + 1
     \<and> v = mb_token_version m + 1 \<and> mailbox_ids_unique t"
proof -
  obtain m' where m': "mailbox_row i (put s) = Some m'" "rt_advance m m'" using row_advances [OF assms(2)] by blast
  let ?p = "\<lambda>r. mb_id r = i \<and> mb_token_version r = mb_token_version m"
  have n: "rowcount ?p (mailboxes (put s)) = (if ?p m' then 1 else 0)"
    using rowcount_by_id [OF ids_stay [OF assms(1)], of ?p i] m'(1) by simp
  let ?f = "put_refresh_token enc u e clear (mb_token_version m + 1)"
  have f: "mb_id (?f r) = mb_id r" for r by simp
  have ver: "mb_token_version m' = mb_token_version m"
  proof (rule ccontr)
    assume "mb_token_version m' \<noteq> mb_token_version m"
    with n swap_Inr_rowcount [OF assms(3)] show False by (metis zero_neq_one)
  qed
  have "mailbox_row i t = Some (?f m')"
    using m'(1) mailbox_row_id [OF m'(1)] ver
    unfolding swap_state [OF assms(3)] by (subst mailbox_row_update [OF f]) simp
  moreover have "mailbox_ids_unique t"
    unfolding swap_state [OF assms(3)] unique_update [OF f] by (rule ids_stay [OF assms(1)])
  ultimately show ?thesis using m' ver swap_Inr_rowcount [OF assms(3)] by (simp add: rt_advance_def)
qed

lemma swap_conflicts_once_moved:
  assumes "mailbox_ids_unique s" and "mailbox_row i s = Some m" and "n < mb_token_version m"
  shows "fst (compare_and_swap_refresh_token i n enc u e clear (put s)) = Inl VersionConflict"
proof -
  obtain m' where m': "mailbox_row i (put s) = Some m'" "rt_advance m m'" using row_advances [OF assms(2)] by blast
  then have "rowcount (\<lambda>r. mb_id r = i \<and> mb_token_version r = n) (mailboxes (put s)) = 0"
    using rowcount_by_id [OF ids_stay [OF assms(1)], of "\<lambda>r. mb_id r = i \<and> mb_token_version r = n" i] assms(3)
    by (simp add: rt_advance_def)
  then show ?thesis by (simp add: swap_run)
qed

end

lemma versioned_update:
  assumes "\<And>m. mb_id (f m) = mb_id m" and "\<And>m. p m \<Longrightarrow> rt_advance m (f m)"
  shows "mailbox_row i s = Some m \<Longrightarrow>
      \<exists>m'. mailbox_row i (s\<lparr>mailboxes := update_where p f (mailboxes s)\<rparr>) = Some m' \<and> rt_advance m m'"
    and "mailbox_ids_unique s \<Longrightarrow> mailbox_ids_unique (s\<lparr>mailboxes := update_where p f (mailboxes s)\<rparr>)"
  using assms by auto

lemma snd_claim:
  "snd (claim_token_refresh decrypt cid now i ttl skip s) = s \<or>
   snd (claim_token_refresh decrypt cid now i ttl skip s) =
     s\<lparr>mailboxes := update_where (claimable i now) (install_refresh_claim cid (now + secs ttl) now) (mailboxes s)\<rparr>"
  by (auto simp: claim_token_refresh_def run split: option.splits prod.splits)

interpretation swap: versioned_writer "\<lambda>s. snd (compare_and_swap_refresh_token i n enc u e clear s)" for i n enc u e clear
  by unfold_locales (auto simp: compare_and_swap_refresh_token_def run rt_advance_def split: if_splits)

interpretation replace: versioned_writer "\<lambda>s. snd (increment_token_version_under_lock i enc u e clear s)" for i enc u e clear
  by unfold_locales (auto simp: increment_token_version_under_lock_def run rt_advance_def split: if_splits option.splits)

interpretation claim: versioned_writer "\<lambda>s. snd (claim_token_refresh decrypt cid now i ttl skip s)" for decrypt cid now i ttl skip
proof unfold_locales
  fix j s m
  assume "mailbox_row j s = Some m"
  then show "\<exists>m'. mailbox_row j (snd (claim_token_refresh decrypt cid now i ttl skip s)) = Some m' \<and> rt_advance m m'"
    using snd_claim [of decrypt cid now i ttl skip s] by (auto simp: rt_advance_def)
next
  fix s
  assume "mailbox_ids_unique s"
  then show "mailbox_ids_unique (snd (claim_token_refresh decrypt cid now i ttl skip s))"
    using snd_claim [of decrypt cid now i ttl skip s] by auto
qed

interpretation complete: versioned_writer "\<lambda>s. snd (complete_token_refresh c ro s)" for c ro
  by unfold_locales
    (auto simp: complete_token_refresh_def run rt_advance_def claim_matches_def split: if_splits)

interpretation fail: versioned_writer "\<lambda>s. snd (fail_token_refresh_invalid_grant c now s)" for c now
  by unfold_locales (auto simp: fail_token_refresh_invalid_grant_def run rt_advance_def)

interpretation drop: versioned_writer "\<lambda>s. snd (release_token_refresh_claim c now s)" for c now
  by unfold_locales (auto simp: release_token_refresh_claim_def run rt_advance_def)

subsection \<open>Histories of writers\<close>

datatype token_event =
    EvClaim string time string int bool
  | EvComplete refresh_claim refresh_outcome
  | EvInvalidGrant refresh_claim time
  | EvRelease refresh_claim time
  | EvSwap string int string time time bool
  | EvReplace string string time time bool

fun token_step :: "(string \<Rightarrow> string option) \<Rightarrow> db \<Rightarrow> token_event \<Rightarrow> db" where
  \<comment> \<open>one writer's short transaction\<close>
  "token_step decrypt s (EvClaim cid now i ttl skip) = snd (transaction (claim_token_refresh decrypt cid now i ttl skip) s)"
| "token_step decrypt s (EvComplete c ro) = snd (transaction (complete_token_refresh c ro) s)"
| "token_step decrypt s (EvInvalidGrant c now) = snd (transaction (fail_token_refresh_invalid_grant c now) s)"
| "token_step decrypt s (EvRelease c now) = snd (transaction (release_token_refresh_claim c now) s)"
| "token_step decrypt s (EvSwap i n enc u e clear) = snd (transaction (compare_and_swap_refresh_token i n enc u e clear) s)"
| "token_step decrypt s (EvReplace i enc u e clear) = snd (transaction (increment_token_version_under_lock i enc u e clear) s)"

lemma snd_transaction: "snd (transaction m s) = s \<or> snd (transaction m s) = snd (m s)"
  by (auto simp: transaction_run split: prod.splits sum.splits)

lemma token_step_cases:
  "token_step decrypt s ev = s \<or> token_step decrypt s ev =
     (case ev of
        EvClaim cid now i ttl skip \<Rightarrow> snd (claim_token_refresh decrypt cid now i ttl skip s)
      | EvComplete c ro \<Rightarrow> snd (complete_token_refresh c ro s)
      | EvInvalidGrant c now \<Rightarrow> snd (fail_token_refresh_invalid_grant c now s)
      | EvRelease c now \<Rightarrow> snd (release_token_refresh_claim c now s)
      | EvSwap i n enc u e clear \<Rightarrow> snd (compare_and_swap_refresh_token i n enc u e clear s)
      | EvReplace i enc u e clear \<Rightarrow> snd (increment_token_version_under_lock i enc u e clear s))"
  by (cases ev) (simp_all only: token_step.simps token_event.case snd_transaction)

interpretation event: versioned_writer "\<lambda>s. token_step decrypt s ev" for decrypt ev
proof unfold_locales
  fix i s m
  assume m: "mailbox_row i s = Some m"
  then show "\<exists>m'. mailbox_row i (token_step decrypt s ev) = Some m' \<and> rt_advance m m'"
    using token_step_cases [of decrypt s ev]
    by (cases ev) (metis (no_types, lifting) m rt_advance_refl token_event.case claim.row_advances [OF m]
        complete.row_advances [OF m] fail.row_advances [OF m] drop.row_advances [OF m] swap.row_advances [OF m]
        replace.row_advances [OF m])+
next
  fix s
  assume u: "mailbox_ids_unique s"
  then show "mailbox_ids_unique (token_step decrypt s ev)"
    using token_step_cases [of decrypt s ev]
    by (cases ev) (metis (no_types, lifting) u token_event.case claim.ids_stay [OF u] complete.ids_stay [OF u]
        fail.ids_stay [OF u] drop.ids_stay [OF u] swap.ids_stay [OF u] replace.ids_stay [OF u])+
qed

lemma history_advances:
  "mailbox_row i s = Some m \<Longrightarrow> \<exists>m'. mailbox_row i (foldl (token_step decrypt) s es) = Some m' \<and> rt_advance m m'"
proof (induction es arbitrary: s m)
  case (Cons e es)
  obtain a where a: "mailbox_row i (token_step decrypt s e) = Some a" "rt_advance m a"
    using event.row_advances [OF Cons.prems] by blast
  from Cons.IH [OF a(1)] a(2) show ?case by (auto intro: rt_advance_trans)
qed simp

lemma history_ids: "mailbox_ids_unique s \<Longrightarrow> mailbox_ids_unique (foldl (token_step decrypt) s es)"
  by (induction es arbitrary: s) (simp_all add: event.ids_stay)

interpretation history: versioned_writer "\<lambda>s. foldl (token_step decrypt) s es" for decrypt es
  by unfold_locales (simp_all add: history_advances history_ids)

text \<open>
  C20. No refresh token is lost. Read a mailbox's version at any moment, let any history of refresh
  claims, completions, failures and replacements of any workers pass, and write by compare-and-swap
  with that version: if the write succeeds it replaced exactly the token that was there at the read,
  and no other writer holding the same version can succeed afterwards, whatever happens in between.
\<close>

theorem no_lost_refresh_token:
  assumes "mailbox_ids_unique s" and "mailbox_row i s = Some m"
    and "compare_and_swap_refresh_token i (mb_token_version m) enc u e clear (foldl (token_step decrypt) s es) = (Inr v, t)"
  shows "(\<exists>m'. mailbox_row i (foldl (token_step decrypt) s es) = Some m'
        \<and> mb_refresh_token_ciphertext m' = mb_refresh_token_ciphertext m)
     \<and> (\<exists>m''. mailbox_row i t = Some m'' \<and> mb_refresh_token_ciphertext m'' = Some enc \<and> mb_token_version m'' = v)
     \<and> fst (compare_and_swap_refresh_token i (mb_token_version m) enc' u' e' clear'
              (foldl (token_step decrypt) t later)) = Inl VersionConflict"
proof -
  obtain m' m'' where w: "mailbox_row i (foldl (token_step decrypt) s es) = Some m'"
      "mb_refresh_token_ciphertext m' = mb_refresh_token_ciphertext m"
      "mailbox_row i t = Some m''" "mb_refresh_token_ciphertext m'' = Some enc"
      "mb_token_version m'' = mb_token_version m + 1" "v = mb_token_version m + 1" "mailbox_ids_unique t"
    using history.swap_replaces_what_was_read [OF assms] by blast
  have "mb_token_version m < mb_token_version m''" using w(5) by simp
  from history.swap_conflicts_once_moved [OF w(7) w(3) this] w show ?thesis by simp
qed

definition sample_mailbox :: "string \<Rightarrow> mailbox" where
  \<comment> \<open>an importable Microsoft mailbox, for the concrete runs below\<close>
  "sample_mailbox i = \<lparr>mb_id = i, mb_provider_type = ''microsoft'', mb_primary_email = i @ ''@x.com'', mb_status = MbActive,
     mb_client_id = Some ''cid'', mb_mail_password_ciphertext = None, mb_refresh_token_ciphertext = Some ''rt0'',
     mb_refresh_token_updated_at = None, mb_refresh_token_expires_at = None, mb_access_token_ciphertext = None,
     mb_access_token_expires_at = None, mb_access_token_refreshed_at = None, mb_access_token_source_version = None,
     mb_scope = None, mb_capability = Some CapImap, mb_capability_probed_at = None, mb_capability_probe_error = None,
     mb_last_verification_code = None, mb_last_code_checked_at = None, mb_last_code_message_id = None,
     mb_provider_config_json = None, mb_token_version = 1, mb_token_refresh_claim_id = None, mb_token_refresh_claim_expires_at = None,
     mb_egress_proxy_id = None, mb_proxy_bound_at = None, mb_proxy_last_switch_at = None, mb_created_at = 0, mb_updated_at = 0\<rparr>"

lemma sample_fields:
  "mb_id (sample_mailbox i) = i" "mb_status (sample_mailbox i) = MbActive" "mb_client_id (sample_mailbox i) = Some ''cid''"
  "mb_refresh_token_ciphertext (sample_mailbox i) = Some ''rt0''" "mb_token_version (sample_mailbox i) = 1"
  "mb_primary_email (sample_mailbox i) = i @ ''@x.com''" "mb_token_refresh_claim_id (sample_mailbox i) = None"
  "mb_token_refresh_claim_expires_at (sample_mailbox i) = None" "mb_provider_type (sample_mailbox i) = ''microsoft''"
  "mb_capability (sample_mailbox i) = Some CapImap"
  by (simp_all add: sample_mailbox_def)

theorem no_lost_refresh_token_witness:
  "fst (compare_and_swap_refresh_token ''m'' 1 ''rt2'' 7 8 True
      (snd (compare_and_swap_refresh_token ''m'' 1 ''rt1'' 5 6 True (empty_db\<lparr>mailboxes := [sample_mailbox ''m'']\<rparr>)))) =
    Inl VersionConflict"
proof -
  let ?s = "empty_db\<lparr>mailboxes := [sample_mailbox ''m'']\<rparr>"
  have u: "mailbox_ids_unique ?s" by (simp add: mailbox_ids_unique_def)
  have r: "mailbox_row ''m'' ?s = Some (sample_mailbox ''m'')"
    by (simp add: mailbox_row_def row_by_def sample_mailbox_def)
  have v: "mb_token_version (sample_mailbox ''m'') = 1" by (simp add: sample_mailbox_def)
  have "rowcount (\<lambda>r. mb_id r = ''m'' \<and> mb_token_version r = 1) (mailboxes ?s) = 1"
    by (simp add: rowcount_def sample_mailbox_def)
  then have c: "compare_and_swap_refresh_token ''m'' 1 ''rt1'' 5 6 True (foldl (token_step Some) ?s []) =
      (Inr 2, snd (compare_and_swap_refresh_token ''m'' 1 ''rt1'' 5 6 True ?s))"
    by (simp add: swap_run)
  from no_lost_refresh_token [OF u r, of "''rt1''" 5 6 True Some "[]" 2 _ "''rt2''" 7 8 True "[]"] c v
  show ?thesis by simp
qed

subsection \<open>Single flight\<close>

definition row_claimed :: "string \<Rightarrow> string \<Rightarrow> time \<Rightarrow> db \<Rightarrow> bool" where
  "row_claimed i cid e s \<longleftrightarrow> (\<exists>m. mailbox_row i s = Some m \<and> mb_token_refresh_claim_id m = Some cid
     \<and> mb_token_refresh_claim_expires_at m = Some e)"

fun foreign :: "string \<Rightarrow> time \<Rightarrow> token_event \<Rightarrow> bool" where
  \<comment> \<open>not a finalization by the holder of the claim, and a claim attempt only before the expiry\<close>
  "foreign cid e (EvClaim _ now _ _ _) = (now < e)"
| "foreign cid e (EvComplete c _) = (rc_claim_id c \<noteq> cid)"
| "foreign cid e (EvInvalidGrant c _) = (rc_claim_id c \<noteq> cid)"
| "foreign cid e (EvRelease c _) = (rc_claim_id c \<noteq> cid)"
| "foreign cid e (EvSwap _ _ _ _ _ _) = True"
| "foreign cid e (EvReplace _ _ _ _ _) = True"

lemma row_claimed_update:
  assumes "row_claimed i cid e s" and "\<And>m. mb_id (f m) = mb_id m"
    and "\<And>m. p m \<Longrightarrow> mb_token_refresh_claim_id m = Some cid \<Longrightarrow> mb_token_refresh_claim_expires_at m = Some e \<Longrightarrow>
      mb_token_refresh_claim_id (f m) = Some cid \<and> mb_token_refresh_claim_expires_at (f m) = Some e"
  shows "row_claimed i cid e (s\<lparr>mailboxes := update_where p f (mailboxes s)\<rparr>)"
proof -
  obtain m where m: "mailbox_row i s = Some m" "mb_token_refresh_claim_id m = Some cid"
    "mb_token_refresh_claim_expires_at m = Some e" using assms(1) by (auto simp: row_claimed_def)
  then show ?thesis using assms(2) assms(3) [of m] by (cases "p m") (auto simp: row_claimed_def)
qed

lemma claim_keeps_claim:
  assumes "row_claimed i cid e s" and "now < e"
  shows "row_claimed i cid e (snd (claim_token_refresh decrypt c' now j ttl skip s))"
  using snd_claim [of decrypt c' now j ttl skip s] assms
  by (auto simp: claimable_def intro!: row_claimed_update)

lemma finalizers_keep_claim:
  assumes "row_claimed i cid e s" and "rc_claim_id c \<noteq> cid"
  shows "row_claimed i cid e (snd (complete_token_refresh c ro s))"
    and "row_claimed i cid e (snd (fail_token_refresh_invalid_grant c now s))"
    and "row_claimed i cid e (snd (release_token_refresh_claim c now s))"
  using assms
  by (auto simp: complete_token_refresh_def fail_token_refresh_invalid_grant_def release_token_refresh_claim_def
      run claim_matches_def intro!: row_claimed_update)

lemma writers_keep_claim:
  assumes "row_claimed i cid e s"
  shows "row_claimed i cid e (snd (compare_and_swap_refresh_token j n enc u x clear s))"
    and "row_claimed i cid e (snd (increment_token_version_under_lock j enc u x clear s))"
  using assms
  by (auto simp: swap_run increment_token_version_under_lock_def run intro!: row_claimed_update split: option.splits)

lemma foreign_keeps_claim:
  assumes "row_claimed i cid e s" and "foreign cid e ev"
  shows "row_claimed i cid e (token_step decrypt s ev)"
  using token_step_cases [of decrypt s ev] assms
  by (cases ev) (auto simp: claim_keeps_claim finalizers_keep_claim writers_keep_claim)

lemma foreign_history_keeps_claim:
  "row_claimed i cid e s \<Longrightarrow> list_all (foreign cid e) es \<Longrightarrow> row_claimed i cid e (foldl (token_step decrypt) s es)"
  by (induction es arbitrary: s) (auto simp: foreign_keeps_claim)

lemma claim_blocked:
  "row_claimed i cid e s \<Longrightarrow> now < e \<Longrightarrow> \<exists>err. fst (claim_token_refresh decrypt c' now i ttl skip s) = Inl err"
  by (auto simp: row_claimed_def claim_token_refresh_def run live_refresh_claim_def is_expired_def)

lemma claim_returns:
  assumes "claim_token_refresh decrypt cid now i ttl skip s = (Inr c, t)"
  obtains m m' where "mailbox_row i s = Some m" and "live_refresh_claim m now = None"
    and "rowcount (claimable i now) (mailboxes s) = 1"
    and "t = s\<lparr>mailboxes := update_where (claimable i now) (install_refresh_claim cid (now + secs ttl) now) (mailboxes s)\<rparr>"
    and "mailbox_row i t = Some m'" and "decrypt (the (mb_refresh_token_ciphertext m')) = Some (rc_refresh_token c)"
    and "rc_claim_id c = cid" and "rc_mailbox_id c = mb_id m'" and "rc_expected_token_version c = mb_token_version m'"
proof -
  from assms obtain m where m: "mailbox_row i s = Some m" "live_refresh_claim m now = None"
    by (auto simp: claim_token_refresh_def returns split: option.splits)
  with assms obtain n m' where n: "(if n \<noteq> 1 then throw (AlreadyClaimed i
               (case mb_token_refresh_claim_id m' of None \<Rightarrow> ''unknown'' | Some c \<Rightarrow> if c = [] then ''unknown'' else c)
               (case mb_token_refresh_claim_expires_at m' of None \<Rightarrow> now | Some e \<Rightarrow> e))
          else (case decrypt (the (mb_refresh_token_ciphertext m')) of
                  None \<Rightarrow> throw DecryptionFailed
                | Some token \<Rightarrow>
                    ret \<lparr>rc_claim_id = cid, rc_mailbox_id = mb_id m', rc_primary_email = mb_primary_email m',
                         rc_client_id = the (mb_client_id m'), rc_refresh_token = token,
                         rc_expected_token_version = mb_token_version m', rc_expires_at = now + secs ttl\<rparr>))
        (s\<lparr>mailboxes := update_where (claimable i now) (install_refresh_claim cid (now + secs ttl) now) (mailboxes s)\<rparr>)
        = (Inr c, t)"
    "n = rowcount (claimable i now) (mailboxes s)"
    "mailbox_row i (s\<lparr>mailboxes := update_where (claimable i now) (install_refresh_claim cid (now + secs ttl) now) (mailboxes s)\<rparr>) = Some m'"
    by (auto simp: claim_token_refresh_def run simp del: mailbox_row_update split: option.splits if_splits)
  from n(1) obtain token where "n = 1" "decrypt (the (mb_refresh_token_ciphertext m')) = Some token"
    "c = \<lparr>rc_claim_id = cid, rc_mailbox_id = mb_id m', rc_primary_email = mb_primary_email m',
          rc_client_id = the (mb_client_id m'), rc_refresh_token = token,
          rc_expected_token_version = mb_token_version m', rc_expires_at = now + secs ttl\<rparr>"
    "t = s\<lparr>mailboxes := update_where (claimable i now) (install_refresh_claim cid (now + secs ttl) now) (mailboxes s)\<rparr>"
    by (cases "n = 1"; cases "decrypt (the (mb_refresh_token_ciphertext m'))") (simp_all add: throw_run ret_run)
  with m n(2,3) that [of m m'] show thesis by simp
qed

lemma claim_installs:
  assumes "mailbox_ids_unique s" and "claim_token_refresh decrypt cid now i ttl skip s = (Inr c, t)"
  shows "row_claimed i cid (now + secs ttl) t \<and> rc_claim_id c = cid \<and> rc_mailbox_id c = i \<and> mailbox_ids_unique t
     \<and> (\<exists>m. mailbox_row i s = Some m \<and> live_refresh_claim m now = None
          \<and> rc_expected_token_version c = mb_token_version m \<and> decrypt (the (mb_refresh_token_ciphertext m)) = Some (rc_refresh_token c))"
proof -
  obtain m m' where m: "mailbox_row i s = Some m" "live_refresh_claim m now = None"
      "rowcount (claimable i now) (mailboxes s) = 1"
      "t = s\<lparr>mailboxes := update_where (claimable i now) (install_refresh_claim cid (now + secs ttl) now) (mailboxes s)\<rparr>"
      "mailbox_row i t = Some m'" "decrypt (the (mb_refresh_token_ciphertext m')) = Some (rc_refresh_token c)"
      "rc_claim_id c = cid" "rc_mailbox_id c = mb_id m'" "rc_expected_token_version c = mb_token_version m'"
    by (rule claim_returns [OF assms(2)])
  have "claimable i now m"
    using m(1,3) rowcount_by_id [OF assms(1), of "claimable i now" i] by (auto simp: claimable_def split: if_splits)
  then have m': "m' = install_refresh_claim cid (now + secs ttl) now m" using m(1,4,5) by simp
  have "mailbox_ids_unique t" unfolding m(4) by (simp add: assms(1))
  then show ?thesis using m(1,2,5-9) m' mailbox_row_id [OF m(1)] by (auto simp: row_claimed_def)
qed

text \<open>
  C21. Single flight. A granted refresh claim is granted on a mailbox without a live claim, and until
  it expires or its own holder finalizes it, every other attempt to claim the mailbox is refused,
  whatever token replacements and finalizations by others happen in between.
\<close>

theorem refresh_single_flight:
  assumes "mailbox_ids_unique s" and "claim_token_refresh decrypt cid now i ttl skip s = (Inr c, t)"
    and "list_all (foreign cid (now + secs ttl)) es" and "later < now + secs ttl"
  shows "(\<exists>m. mailbox_row i s = Some m \<and> live_refresh_claim m now = None)
     \<and> (\<exists>err. fst (claim_token_refresh decrypt cid' later i ttl' skip' (foldl (token_step decrypt) t es)) = Inl err)"
  using claim_installs [OF assms(1,2)] foreign_history_keeps_claim [OF _ assms(3)] claim_blocked [OF _ assms(4)] by blast

theorem refresh_single_flight_witness:
  "\<exists>err. fst (claim_token_refresh Some ''c2'' 30 ''m'' 60 True
      (snd (claim_token_refresh Some ''c1'' 0 ''m'' 60 True (empty_db\<lparr>mailboxes := [sample_mailbox ''m'']\<rparr>)))) = Inl err"
proof -
  let ?s = "empty_db\<lparr>mailboxes := [sample_mailbox ''m'']\<rparr>"
  let ?c = "\<lparr>rc_claim_id = ''c1'', rc_mailbox_id = ''m'', rc_primary_email = ''m@x.com'', rc_client_id = ''cid'',
    rc_refresh_token = ''rt0'', rc_expected_token_version = 1, rc_expires_at = secs 60\<rparr>"
  have u: "mailbox_ids_unique ?s" by (simp add: mailbox_ids_unique_def)
  have r: "mailbox_row ''m'' ?s = Some (sample_mailbox ''m'')"
    by (simp add: mailbox_row_def row_by_def sample_mailbox_def)
  have n: "rowcount (claimable ''m'' 0) [sample_mailbox ''m''] = 1"
    by (simp add: rowcount_def claimable_def sample_fields)
  have "fst (claim_token_refresh Some ''c1'' 0 ''m'' 60 True ?s) = Inr ?c"
    using r n by (simp add: claim_token_refresh_def run live_refresh_claim_def sample_fields)
      (simp add: claimable_def install_refresh_claim_def sample_fields)
  then have c: "claim_token_refresh Some ''c1'' 0 ''m'' 60 True ?s = (Inr ?c, snd (claim_token_refresh Some ''c1'' 0 ''m'' 60 True ?s))"
    by (metis prod.collapse)
  have "list_all (foreign ''c1'' (0 + secs 60)) []" and "30 < 0 + secs 60" by (simp_all add: secs_def)
  from refresh_single_flight [OF u c this] show ?thesis by simp
qed

subsection \<open>Late finishers\<close>

definition claim_gone :: "string \<Rightarrow> db \<Rightarrow> bool" where
  \<comment> \<open>no mailbox carries the claim any more: it was finalized, or it expired and was taken over\<close>
  "claim_gone cid s \<longleftrightarrow> (\<forall>m \<in> set (mailboxes s). mb_token_refresh_claim_id m \<noteq> Some cid)"

fun issues_claim :: "string \<Rightarrow> token_event \<Rightarrow> bool" where
  "issues_claim cid (EvClaim c _ _ _ _) = (c = cid)"
| "issues_claim cid _ = False"

lemma claim_gone_update:
  "claim_gone cid s \<Longrightarrow> (\<And>m. mb_token_refresh_claim_id m \<noteq> Some cid \<Longrightarrow> mb_token_refresh_claim_id (f m) \<noteq> Some cid)
     \<Longrightarrow> claim_gone cid (s\<lparr>mailboxes := update_where p f (mailboxes s)\<rparr>)"
  by (auto simp: claim_gone_def set_update_where split: if_splits)

lemma claim_gone_step:
  assumes "claim_gone cid s" and "\<not> issues_claim cid ev"
  shows "claim_gone cid (token_step decrypt s ev)"
proof -
  have "claim_gone cid (snd (claim_token_refresh decrypt c' now i ttl skip s))" if "c' \<noteq> cid" for c' now i ttl skip
    using snd_claim [of decrypt c' now i ttl skip s] that assms(1) by (auto intro!: claim_gone_update)
  moreover have "claim_gone cid (snd (complete_token_refresh c ro s))" for c ro
    using assms(1) by (auto simp: complete_token_refresh_def run intro!: claim_gone_update)
  moreover have "claim_gone cid (snd (fail_token_refresh_invalid_grant c now s))"
      and "claim_gone cid (snd (release_token_refresh_claim c now s))" for c now
    using assms(1) by (auto simp: fail_token_refresh_invalid_grant_def release_token_refresh_claim_def run intro!: claim_gone_update)
  moreover have "claim_gone cid (snd (compare_and_swap_refresh_token j n enc u x clear s))"
      and "claim_gone cid (snd (increment_token_version_under_lock j enc u x clear s))" for j n enc u x clear
    using assms(1) by (auto simp: swap_run increment_token_version_under_lock_def run intro!: claim_gone_update split: option.splits)
  ultimately show ?thesis using token_step_cases [of decrypt s ev] assms by (cases ev) auto
qed

lemma claim_gone_history:
  "claim_gone cid s \<Longrightarrow> \<forall>ev \<in> set es. \<not> issues_claim cid ev \<Longrightarrow> claim_gone cid (foldl (token_step decrypt) s es)"
  by (induction es arbitrary: s) (auto simp: claim_gone_step)

lemma no_row_no_update:
  "(\<And>m. m \<in> set (mailboxes s) \<Longrightarrow> \<not> p m) \<Longrightarrow> s\<lparr>mailboxes := update_where p f (mailboxes s)\<rparr> = s"
  by (simp add: update_where_none)

lemma gone_finalizers_change_nothing:
  assumes "claim_gone (rc_claim_id c) s"
  shows "snd (complete_token_refresh c ro s) = s"
    and "snd (fail_token_refresh_invalid_grant c now s) = s"
    and "snd (release_token_refresh_claim c now s) = s"
proof -
  have none: "\<not> claim_matches c m" "\<not> (mb_id m = rc_mailbox_id c \<and> mb_token_refresh_claim_id m = Some (rc_claim_id c))"
    if "m \<in> set (mailboxes s)" for m using assms that by (auto simp: claim_gone_def claim_matches_def)
  show "snd (complete_token_refresh c ro s) = s"
    using no_row_no_update [of s "claim_matches c", OF none(1)]
    by (auto simp: complete_token_refresh_def run)
  show "snd (fail_token_refresh_invalid_grant c now s) = s"
    using no_row_no_update [of s "claim_matches c", OF none(1)]
    by (auto simp: fail_token_refresh_invalid_grant_def run)
  show "snd (release_token_refresh_claim c now s) = s"
    by (simp add: release_token_refresh_claim_def run no_row_no_update [OF none(2)])
qed

text \<open>
  A late finisher is harmless: once its claim is gone from the database, nothing it does (storing
  a token, declaring the mailbox invalid, dropping the claim) changes the database, after any further
  history in which fresh claims get other ids.
\<close>

theorem late_finisher_changes_nothing:
  assumes "claim_gone (rc_claim_id c) s" and "\<forall>ev \<in> set es. \<not> issues_claim (rc_claim_id c) ev"
  shows "snd (complete_token_refresh c ro (foldl (token_step decrypt) s es)) = foldl (token_step decrypt) s es
     \<and> snd (fail_token_refresh_invalid_grant c now (foldl (token_step decrypt) s es)) = foldl (token_step decrypt) s es
     \<and> snd (release_token_refresh_claim c now (foldl (token_step decrypt) s es)) = foldl (token_step decrypt) s es"
  using gone_finalizers_change_nothing [OF claim_gone_history [OF assms]] by blast

theorem late_finisher_changes_nothing_witness:
  "snd (release_token_refresh_claim \<lparr>rc_claim_id = ''c1'', rc_mailbox_id = ''m'', rc_primary_email = ''m@x.com'',
      rc_client_id = ''cid'', rc_refresh_token = ''rt0'', rc_expected_token_version = 1, rc_expires_at = 60\<rparr> 5
      (empty_db\<lparr>mailboxes := [sample_mailbox ''m'']\<rparr>)) = empty_db\<lparr>mailboxes := [sample_mailbox ''m'']\<rparr>"
proof -
  let ?c = "\<lparr>rc_claim_id = ''c1'', rc_mailbox_id = ''m'', rc_primary_email = ''m@x.com'',
      rc_client_id = ''cid'', rc_refresh_token = ''rt0'', rc_expected_token_version = 1, rc_expires_at = 60\<rparr>"
  have "claim_gone (rc_claim_id ?c) (empty_db\<lparr>mailboxes := [sample_mailbox ''m'']\<rparr>)"
    by (simp add: claim_gone_def sample_mailbox_def)
  from late_finisher_changes_nothing [OF this, of "[]"] show ?thesis by simp
qed

text \<open>
  Yet a late finisher may be told that it finished. When its compare-and-swap misses, the
  completion looks at the row again, and the row left by the worker that took the expired claim over
  passes that check: the version, the token's source version and the cleared claim are the same. The
  completion then returns a version, although its access token is not the one that is stored.
\<close>

theorem late_completion_reported_as_done:
  "\<exists>s c ro v t. claim_gone (rc_claim_id c) s \<and> complete_token_refresh c ro s = (Inr (Some v), t) \<and> t = s
     \<and> (\<exists>m. mailbox_row (rc_mailbox_id c) t = Some m
          \<and> mb_access_token_ciphertext m \<noteq> Some (ro_encrypted_access_token ro))"
proof -
  let ?m = "(sample_mailbox ''m'')\<lparr>mb_access_token_ciphertext := Some ''at-b'', mb_access_token_source_version := Some 1\<rparr>"
  let ?s = "empty_db\<lparr>mailboxes := [?m]\<rparr>"
  let ?c = "\<lparr>rc_claim_id = ''a'', rc_mailbox_id = ''m'', rc_primary_email = ''m@x.com'',
      rc_client_id = ''cid'', rc_refresh_token = ''rt0'', rc_expected_token_version = 1, rc_expires_at = 60\<rparr>"
  let ?ro = "\<lparr>ro_encrypted_access_token = ''at-a'', ro_access_token_expires_at = 9, ro_access_token_refreshed_at = 5,
      ro_scope = None, ro_encrypted_refresh_token = None, ro_refresh_token_rotated = False,
      ro_refresh_token_updated_at = Some 5, ro_refresh_token_expires_at = Some 99\<rparr>"
  have gone: "claim_gone (rc_claim_id ?c) ?s" by (simp add: claim_gone_def sample_mailbox_def)
  have row: "mailbox_row ''m'' ?s = Some ?m" by (simp add: mailbox_row_def row_by_def sample_mailbox_def)
  have none: "rowcount (claim_matches ?c) [?m] = 0"
    by (simp add: rowcount_def claim_matches_def sample_mailbox_def)
  have confirm: "confirm_completed_token_version ?c 1 1 ?s = Some 1"
    unfolding confirm_completed_token_version_def by (simp add: row) (simp add: sample_mailbox_def)
  have "fst (complete_token_refresh ?c ?ro ?s) = Inr (Some 1)"
    using none confirm gone_finalizers_change_nothing(1) [OF gone, of ?ro]
    by (simp add: complete_token_refresh_def run)
  with gone_finalizers_change_nothing(1) [OF gone, of ?ro]
  have "complete_token_refresh ?c ?ro ?s = (Inr (Some 1), ?s)" by (metis prod.collapse)
  with gone row show ?thesis by (intro exI [of _ ?s] exI [of _ ?c] exI [of _ ?ro]) auto
qed

end
