(* ===== verification/LeaseClaims.thy ===== *)
theory LeaseClaims
  imports SiteUsage TokenRepo
begin

text \<open>
  Lease and claim rows, the occupancy rule \<open>_upsert_lease_claim\<close> enforces, ownership-checked loading
  and the plus-alias addresses (the helpers of \<open>lease_service.py\<close>).
\<close>

subsection \<open>Rows\<close>

definition lease_row :: "string \<Rightarrow> db \<Rightarrow> lease option" where
  "lease_row i s = row_by ls_id i (leases s)"

definition write_lease :: "lease \<Rightarrow> db \<Rightarrow> db" where
  "write_lease l s = s\<lparr>leases := put_row ls_id l (leases s)\<rparr>"

definition claim_row :: "string \<Rightarrow> db \<Rightarrow> lease_claim option" where
  "claim_row i s = row_by lc_lease_id i (claims s)"

definition write_mailbox :: "mailbox \<Rightarrow> db \<Rightarrow> db" where
  "write_mailbox m s = s\<lparr>mailboxes := put_row mb_id m (mailboxes s)\<rparr>"

definition present :: "string option \<Rightarrow> bool" where
  \<comment> \<open>truthiness of a nullable id\<close>
  "present x \<longleftrightarrow> (case x of None \<Rightarrow> False | Some v \<Rightarrow> v \<noteq> [])"

definition lease_active :: "time \<Rightarrow> lease \<Rightarrow> bool" where
  "lease_active now l \<longleftrightarrow> ls_released_at l = None \<and> now < ls_expires_at l"

definition claim_live :: "time \<Rightarrow> lease_claim \<Rightarrow> bool" where
  "claim_live now c \<longleftrightarrow> now < lc_expires_at c"

subsection \<open>The occupancy claim of a lease\<close>

definition same_holder :: "string option \<Rightarrow> string option \<Rightarrow> lease_claim \<Rightarrow> bool" where
  \<comment> \<open>the claims of the lease's mailbox, or else of its provider resource\<close>
  "same_holder mailbox_id resource_id c \<longleftrightarrow>
     (if present mailbox_id then lc_mailbox_id c = mailbox_id
      else present resource_id \<and> lc_provider_resource_id c = resource_id)"

definition holder_primary :: "string option \<Rightarrow> string option \<Rightarrow> db \<Rightarrow> string" where
  "holder_primary mailbox_id resource_id s =
     (if present mailbox_id
      then (case mailbox_row (the mailbox_id) s of None \<Rightarrow> [] | Some m \<Rightarrow> mb_primary_email m)
      else if present resource_id
      then (case resource_row (the resource_id) s of None \<Rightarrow> [] | Some r \<Rightarrow> pr_primary_email r)
      else [])"

definition plus_alias_lease :: "lease_mode \<Rightarrow> string option \<Rightarrow> string \<Rightarrow> bool" where
  "plus_alias_lease mode allocated primary \<longleftrightarrow>
     mode = MailRead \<and> (case allocated of None \<Rightarrow> False | Some a \<Rightarrow> strip_lower a \<noteq> strip_lower primary)"

definition insert_claim :: "lease_claim \<Rightarrow> (db, lease_error, unit) action" where
  \<comment> \<open>\<open>add\<close> and \<open>flush\<close>, under the primary key and the unique index on the allocated address\<close>
  "insert_claim c =
     bnd (asks claims) (\<lambda>cs.
       if lc_lease_id c \<in> lc_lease_id ` set cs
          \<or> (lc_allocated_email c \<noteq> None \<and> lc_allocated_email c \<in> lc_allocated_email ` set cs)
       then throw FlushConflict
       else modify (\<lambda>s. s\<lparr>claims := claims s @ [c]\<rparr>))"

definition upsert_lease_claim :: "time \<Rightarrow> lease \<Rightarrow> string option \<Rightarrow> (db, lease_error, unit) action" where
  "upsert_lease_claim now l allocated =
     (let here = same_holder (ls_mailbox_id l) (ls_provider_resource_id l) in
      andthen (modify (\<lambda>s. s\<lparr>claims := delete_where (\<lambda>c. here c \<and> \<not> claim_live now c) (claims s)\<rparr>))
     (bnd (asks (holder_primary (ls_mailbox_id l) (ls_provider_resource_id l))) (\<lambda>primary.
      andthen (modify (\<lambda>s. s\<lparr>claims := delete_where (\<lambda>c. lc_lease_id c = ls_id l) (claims s)\<rparr>))
     (bnd (asks (\<lambda>s. list_ex (\<lambda>c. here c \<and> lc_lease_id c \<noteq> ls_id l \<and> claim_live now c) (claims s))) (\<lambda>conflict.
      andthen (require (plus_alias_lease (ls_mode l) allocated primary \<or> \<not> conflict) ClaimConflict)
        (insert_claim \<lparr>lc_lease_id = ls_id l, lc_mailbox_id = ls_mailbox_id l,
           lc_provider_resource_id = ls_provider_resource_id l, lc_client_key_id = ls_client_key_id l,
           lc_mode = ls_mode l, lc_allocated_email = allocated, lc_expires_at = ls_expires_at l,
           lc_created_at = ls_created_at l\<rparr>))))))"

definition delete_lease_claim_for_lease :: "lease \<Rightarrow> (db, lease_error, unit) action" where
  "delete_lease_claim_for_lease l =
     modify (\<lambda>s. s\<lparr>claims := delete_where (\<lambda>c. lc_lease_id c = ls_id l) (claims s)\<rparr>)"

subsection \<open>Loading a lease of the caller\<close>

definition owned_lease :: "principal \<Rightarrow> string \<Rightarrow> db \<Rightarrow> lease option" where
  "owned_lease p lease_id s =
     find (\<lambda>l. ls_id l = lease_id \<and> ls_client_key_id l = Some (client_key_id p)) (leases s)"

definition load_owned_lease :: "time \<Rightarrow> principal \<Rightarrow> string \<Rightarrow> bool \<Rightarrow> (db, lease_error, lease) action" where
  "load_owned_lease now p lease_id require_active =
     bnd (asks (owned_lease p lease_id)) (\<lambda>row. case row of
       None \<Rightarrow> throw LeaseNotFound
     | Some l \<Rightarrow>
         if require_active \<and> (ls_released_at l \<noteq> None \<or> is_expired (ls_expires_at l) now) then throw LeaseInactive
         else ret l)"

definition load_owned_lease_mailbox_first ::
    "time \<Rightarrow> principal \<Rightarrow> string \<Rightarrow> bool \<Rightarrow> (db, lease_error, lease) action" where
  "load_owned_lease_mailbox_first now p lease_id require_active =
     bnd (asks (owned_lease p lease_id)) (\<lambda>preview. case preview of
       None \<Rightarrow> throw LeaseNotFound
     | Some l0 \<Rightarrow>
         bnd (asks (\<lambda>s. if present (ls_mailbox_id l0) then mailbox_row (the (ls_mailbox_id l0)) s \<noteq> None
                        else if present (ls_provider_resource_id l0)
                             then resource_row (the (ls_provider_resource_id l0)) s \<noteq> None
                             else False)) (\<lambda>holder_exists.
         andthen (require holder_exists LeaseNotFound)
        (bnd (asks (owned_lease p lease_id)) (\<lambda>row. case row of
           None \<Rightarrow> throw LeaseNotFound
         | Some l \<Rightarrow>
             if present (ls_mailbox_id l0) \<and> ls_mailbox_id l \<noteq> ls_mailbox_id l0 then throw LeaseNotFound
             else if present (ls_provider_resource_id l0) \<and> ls_provider_resource_id l \<noteq> ls_provider_resource_id l0
             then throw LeaseNotFound
             else if require_active \<and> (ls_released_at l \<noteq> None \<or> is_expired (ls_expires_at l) now) then throw LeaseInactive
             else ret l))))"

subsection \<open>Business addresses\<close>

datatype address_kind = PrimaryAddress | PlusAlias

definition classify_address_kind :: "string \<Rightarrow> string option \<Rightarrow> address_kind option" where
  "classify_address_kind primary allocated =
     (case allocated of None \<Rightarrow> None
      | Some a \<Rightarrow> Some (if strip_lower a = strip_lower primary then PrimaryAddress else PlusAlias))"

definition alias_char :: "char \<Rightarrow> bool" where
  "alias_char c \<longleftrightarrow> is_lower_ascii c \<or> is_ascii_digit c"

definition max_plus_alias_generation_attempts :: nat where
  "max_plus_alias_generation_attempts = 32"

definition is_allocated_email_in_use :: "time \<Rightarrow> string \<Rightarrow> db \<Rightarrow> bool" where
  "is_allocated_email_in_use now a s \<longleftrightarrow>
     list_ex (\<lambda>l. ls_allocated_email l = Some (strip_lower a) \<and> lease_active now l) (leases s)"

definition alias_address :: "string \<Rightarrow> string \<Rightarrow> string" where
  \<comment> \<open>base local part, plus sign, suffix, at sign and the lower-cased domain of a stripped primary address\<close>
  "alias_address primary suffix =
     before (CHR ''+'') (before (CHR ''@'') primary) @ ''+'' @ suffix @ ''@'' @ lower_str (after (CHR ''@'') primary)"

definition valid_address :: "string \<Rightarrow> bool" where
  \<comment> \<open>\<open>partition("@")\<close> finds a separator and two non-empty parts\<close>
  "valid_address e \<longleftrightarrow> CHR ''@'' \<in> set e \<and> before (CHR ''@'') e \<noteq> [] \<and> after (CHR ''@'') e \<noteq> []"

fun random_alias_from :: "(nat \<Rightarrow> string) \<Rightarrow> (string \<Rightarrow> bool) \<Rightarrow> string \<Rightarrow> nat \<Rightarrow> nat \<Rightarrow> string option" where
  \<comment> \<open>the generation loop: \<open>draw\<close> gives the suffix of each attempt, \<open>taken\<close> the two uniqueness checks\<close>
  "random_alias_from draw taken primary k 0 = None"
| "random_alias_from draw taken primary k (Suc left) =
     (let candidate = alias_address primary (draw k)
      in if taken candidate then random_alias_from draw taken primary (Suc k) left else Some candidate)"

definition allocate_plus_alias ::
    "(nat \<Rightarrow> string) \<Rightarrow> time \<Rightarrow> string \<Rightarrow> string option \<Rightarrow> string option \<Rightarrow> bool \<Rightarrow> (db, lease_error, string) action" where
  "allocate_plus_alias draw now primary_email preferred_suffix site explicit =
     (let primary = strip primary_email in
      andthen (require (valid_address primary) LeaseValueError)
        (case preferred_suffix of
           Some raw \<Rightarrow>
             (let suffix = strip_lower raw; candidate = alias_address primary suffix in
              andthen (require (suffix \<noteq> []) LeaseValueError)
             (andthen (require (list_all alias_char suffix) LeaseValueError)
             (andthen (require (length suffix \<le> 32) LeaseValueError)
             (bnd (asks (is_allocated_email_in_use now candidate)) (\<lambda>in_use.
              andthen (require (\<not> in_use) (LeaseUnavailable False))
             (bnd (asks (\<lambda>s. present site \<and> has_active_email_site_usage candidate (the site) s)) (\<lambda>used.
              andthen (require (\<not> used) (if explicit then LeaseEmailSiteConflict else LeaseUnavailable False))
                (ret candidate))))))))
         | None \<Rightarrow>
             bnd (asks (\<lambda>s. random_alias_from draw
                     (\<lambda>c. is_allocated_email_in_use now c s \<or> (present site \<and> has_active_email_site_usage c (the site) s))
                     primary 0 max_plus_alias_generation_attempts)) (\<lambda>found. case found of
               None \<Rightarrow> throw (LeaseUnavailable False)
             | Some c \<Rightarrow> ret c)))"

definition mailbox_by_email :: "string \<Rightarrow> db \<Rightarrow> mailbox option" where
  "mailbox_by_email e s = row_by mb_primary_email e (mailboxes s)"

definition resolve_reacquire_email :: "string \<Rightarrow> (db, lease_error, string \<times> string \<times> address_kind) action" where
  "resolve_reacquire_email email =
     (let local = before (CHR ''@'') email; domain = after (CHR ''@'') email;
          base_local = before (CHR ''+'') local; suffix = after (CHR ''+'') local in
      andthen (require (valid_address email) LeaseValueError)
     (andthen (require (CHR '' '' \<notin> set email) LeaseValueError)
     (bnd (asks (mailbox_by_email email)) (\<lambda>primary. case primary of
        Some m \<Rightarrow> ret (mb_id m, email, PrimaryAddress)
      | None \<Rightarrow>
          andthen (require (CHR ''+'' \<in> set local) LeaseEmailNotFound)
         (andthen (require (base_local \<noteq> [] \<and> suffix \<noteq> []) LeaseEmailNotFound)
         (andthen (require (list_all alias_char suffix) LeaseValueError)
         (andthen (require (length suffix \<le> 32) LeaseValueError)
         (bnd (asks (mailbox_by_email (base_local @ ''@'' @ domain))) (\<lambda>base. case base of
            None \<Rightarrow> throw LeaseEmailNotFound
          | Some m \<Rightarrow> ret (mb_id m, email, PlusAlias))))))))))"

definition client_has_mail_read_history :: "string \<Rightarrow> string \<Rightarrow> db \<Rightarrow> bool" where
  "client_has_mail_read_history kid a s \<longleftrightarrow>
     list_ex (\<lambda>l. ls_client_key_id l = Some kid \<and> ls_allocated_email l = Some a \<and> ls_mode l = MailRead) (leases s)"

subsection \<open>At most one exclusive live claim per mailbox and per resource\<close>

definition exclusive_claim :: "db \<Rightarrow> lease_claim \<Rightarrow> bool" where
  "exclusive_claim s c \<longleftrightarrow> \<not> plus_alias_lease (lc_mode c) (lc_allocated_email c)
     (holder_primary (lc_mailbox_id c) (lc_provider_resource_id c) s)"

definition held_together :: "lease_claim \<Rightarrow> lease_claim \<Rightarrow> bool" where
  \<comment> \<open>two claims on the same mailbox, or on the same resource\<close>
  "held_together c d \<longleftrightarrow> same_holder (lc_mailbox_id c) (lc_provider_resource_id c) d
     \<and> same_holder (lc_mailbox_id d) (lc_provider_resource_id d) c"

definition claims_ok :: "time \<Rightarrow> db \<Rightarrow> bool" where
  "claims_ok now s \<longleftrightarrow>
     distinct (map lc_lease_id (claims s)) \<and> distinct (some_values (map lc_allocated_email (claims s)))
     \<and> (\<forall>c \<in> set (claims s). \<forall>d \<in> set (claims s).
          lc_lease_id c \<noteq> lc_lease_id d \<and> held_together c d \<and> claim_live now c \<and> claim_live now d
          \<longrightarrow> \<not> (exclusive_claim s c \<and> exclusive_claim s d))"

definition same_primaries :: "db \<Rightarrow> db \<Rightarrow> bool" where
  \<comment> \<open>the addresses of the holders of the claims are the same\<close>
  "same_primaries s t \<longleftrightarrow> (\<forall>c \<in> set (claims s).
     holder_primary (lc_mailbox_id c) (lc_provider_resource_id c) t = holder_primary (lc_mailbox_id c) (lc_provider_resource_id c) s)"

lemma claims_ok_cong:
  assumes "claims_ok now s" and "claims t = claims s" and "same_primaries s t"
  shows "claims_ok now t"
  using assms by (auto simp: claims_ok_def same_primaries_def exclusive_claim_def)

lemma claims_ok_later: "claims_ok now s \<Longrightarrow> now \<le> now' \<Longrightarrow> claims_ok now' s"
  by (fastforce simp: claims_ok_def claim_live_def)

lemma exclusive_claim_claims [simp]: "exclusive_claim (s\<lparr>claims := cs\<rparr>) c = exclusive_claim s c"
  by (simp add: exclusive_claim_def holder_primary_def mailbox_row_def resource_row_def)

lemma claims_ok_filter:
  "claims_ok now s \<Longrightarrow> claims_ok now (s\<lparr>claims := delete_where p (claims s)\<rparr>)"
  by (auto simp: claims_ok_def distinct_map_filter distinct_some_values_filter delete_where_def)

lemma holder_primary_claims [simp]: "holder_primary m r (s\<lparr>claims := cs\<rparr>) = holder_primary m r s"
  by (simp add: holder_primary_def mailbox_row_def resource_row_def)

definition claim_of_lease :: "lease \<Rightarrow> string option \<Rightarrow> lease_claim" where
  "claim_of_lease l allocated = \<lparr>lc_lease_id = ls_id l, lc_mailbox_id = ls_mailbox_id l,
     lc_provider_resource_id = ls_provider_resource_id l, lc_client_key_id = ls_client_key_id l,
     lc_mode = ls_mode l, lc_allocated_email = allocated, lc_expires_at = ls_expires_at l, lc_created_at = ls_created_at l\<rparr>"

lemma claim_of_lease_fields [simp]:
  "lc_lease_id (claim_of_lease l a) = ls_id l" "lc_mailbox_id (claim_of_lease l a) = ls_mailbox_id l"
  "lc_provider_resource_id (claim_of_lease l a) = ls_provider_resource_id l"
  "lc_client_key_id (claim_of_lease l a) = ls_client_key_id l" "lc_mode (claim_of_lease l a) = ls_mode l"
  "lc_allocated_email (claim_of_lease l a) = a" "lc_expires_at (claim_of_lease l a) = ls_expires_at l"
  by (simp_all add: claim_of_lease_def)

definition claims_without :: "time \<Rightarrow> lease \<Rightarrow> db \<Rightarrow> lease_claim list" where
  \<comment> \<open>what the upsert leaves of the other claims: no expired claim of the holder, none of the lease\<close>
  "claims_without now l s =
     delete_where (\<lambda>c. lc_lease_id c = ls_id l)
       (delete_where (\<lambda>c. same_holder (ls_mailbox_id l) (ls_provider_resource_id l) c \<and> \<not> claim_live now c) (claims s))"

definition blocking_claim :: "time \<Rightarrow> lease \<Rightarrow> db \<Rightarrow> bool" where
  "blocking_claim now l s \<longleftrightarrow> (\<exists>c \<in> set (claims s). same_holder (ls_mailbox_id l) (ls_provider_resource_id l) c
     \<and> lc_lease_id c \<noteq> ls_id l \<and> claim_live now c)"

lemma upsert_run:
  "upsert_lease_claim now l allocated s =
     (if \<not> plus_alias_lease (ls_mode l) allocated (holder_primary (ls_mailbox_id l) (ls_provider_resource_id l) s)
         \<and> blocking_claim now l s
      then (Inl ClaimConflict, s\<lparr>claims := claims_without now l s\<rparr>)
      else if allocated \<noteq> None \<and> allocated \<in> lc_allocated_email ` set (claims_without now l s)
      then (Inl FlushConflict, s\<lparr>claims := claims_without now l s\<rparr>)
      else (Inr (), s\<lparr>claims := claims_without now l s @ [claim_of_lease l allocated]\<rparr>))"
proof -
  have "list_ex (\<lambda>c. same_holder (ls_mailbox_id l) (ls_provider_resource_id l) c \<and> lc_lease_id c \<noteq> ls_id l \<and> claim_live now c)
      (claims_without now l s) = blocking_claim now l s"
    by (auto simp: claims_without_def blocking_claim_def list_ex_iff)
  moreover have "ls_id l \<notin> lc_lease_id ` set (claims_without now l s)"
    by (auto simp: claims_without_def)
  ultimately show ?thesis
    by (simp add: upsert_lease_claim_def Let_def run insert_claim_def claim_of_lease_def claims_without_def [symmetric])
qed

lemma claims_without_ok: "claims_ok now s \<Longrightarrow> claims_ok now (s\<lparr>claims := claims_without now l s\<rparr>)"
proof -
  assume s: "claims_ok now s"
  let ?p = "\<lambda>c. same_holder (ls_mailbox_id l) (ls_provider_resource_id l) c \<and> \<not> claim_live now c"
  have "claims_ok now (s\<lparr>claims := delete_where ?p (claims s)\<rparr>)" by (rule claims_ok_filter [OF s])
  from claims_ok_filter [OF this, of "\<lambda>c. lc_lease_id c = ls_id l"] show ?thesis by (simp add: claims_without_def)
qed

lemma claims_ok_append:
  assumes ok: "claims_ok now (s\<lparr>claims := cs\<rparr>)" and id: "lc_lease_id c \<notin> lc_lease_id ` set cs"
    and email: "lc_allocated_email c = None \<or> lc_allocated_email c \<notin> lc_allocated_email ` set cs"
    and new: "\<And>d. d \<in> set cs \<Longrightarrow> held_together d c \<or> held_together c d \<Longrightarrow> claim_live now d \<Longrightarrow>
      \<not> (exclusive_claim s d \<and> exclusive_claim s c)"
  shows "claims_ok now (s\<lparr>claims := cs @ [c]\<rparr>)"
proof -
  have "distinct (map lc_lease_id (cs @ [c]))" using ok id by (simp add: claims_ok_def)
  moreover have "distinct (some_values (map lc_allocated_email (cs @ [c])))"
  proof (cases "lc_allocated_email c")
    case (Some a)
    with email have "Some a \<notin> set (map lc_allocated_email cs)" by simp
    then have "a \<notin> set (some_values (map lc_allocated_email cs))" by (simp only: set_some_values) simp
    with Some ok show ?thesis by (simp add: claims_ok_def)
  qed (use ok in \<open>simp add: claims_ok_def\<close>)
  moreover have "\<not> (exclusive_claim s x \<and> exclusive_claim s y)"
    if "x \<in> set (cs @ [c])" "y \<in> set (cs @ [c])" "lc_lease_id x \<noteq> lc_lease_id y" "held_together x y"
      "claim_live now x" "claim_live now y" for x y
  proof -
    from that(1-3) consider "x \<in> set cs \<and> y \<in> set cs" | "x \<in> set cs \<and> y = c" | "x = c \<and> y \<in> set cs" by auto
    then show ?thesis
    proof cases
      case 1
      have "\<forall>c \<in> set cs. \<forall>d \<in> set cs. lc_lease_id c \<noteq> lc_lease_id d \<and> held_together c d \<and> claim_live now c
          \<and> claim_live now d \<longrightarrow> \<not> (exclusive_claim s c \<and> exclusive_claim s d)"
        using ok by (simp add: claims_ok_def)
      with 1 that(3-6) show ?thesis by blast
    qed (use new that in blast)+
  qed
  ultimately show ?thesis by (simp add: claims_ok_def)
qed

lemma upsert_keeps_claims: "keeps (claims_ok now) (upsert_lease_claim now l allocated)"
proof (rule keepsI)
  fix s
  assume s: "claims_ok now s"
  let ?cs = "claims_without now l s"
  let ?c = "claim_of_lease l allocated"
  let ?plus = "plus_alias_lease (ls_mode l) allocated (holder_primary (ls_mailbox_id l) (ls_provider_resource_id l) s)"
  have cs: "claims_ok now (s\<lparr>claims := ?cs\<rparr>)" by (rule claims_without_ok [OF s])
  have excl: "exclusive_claim s ?c = (\<not> ?plus)" by (simp add: exclusive_claim_def)
  have sub: "c \<in> set (claims s) \<and> lc_lease_id c \<noteq> ls_id l" if "c \<in> set ?cs" for c
    using that by (auto simp: claims_without_def)
  have new: "claims_ok now (s\<lparr>claims := ?cs @ [?c]\<rparr>)"
    if "?plus \<or> \<not> blocking_claim now l s" "allocated = None \<or> allocated \<notin> lc_allocated_email ` set ?cs"
  proof -
    have new: "\<not> (exclusive_claim s c \<and> exclusive_claim s ?c)"
      if "c \<in> set ?cs" "held_together c ?c \<or> held_together ?c c" "claim_live now c" for c
      using sub [OF that(1)] that(2,3) \<open>?plus \<or> \<not> blocking_claim now l s\<close> excl
      by (auto simp: blocking_claim_def held_together_def)
    have "lc_lease_id ?c \<notin> lc_lease_id ` set ?cs" using sub by force
    moreover have "lc_allocated_email ?c = None \<or> lc_allocated_email ?c \<notin> lc_allocated_email ` set ?cs"
      using that(2) by simp
    ultimately show ?thesis using new by (rule claims_ok_append [OF cs])
  qed
  show "claims_ok now (snd (upsert_lease_claim now l allocated s))"
    using cs new by (auto simp: upsert_run)
qed

lemma delete_claim_keeps_claims: "keeps (claims_ok now) (delete_lease_claim_for_lease l)"
  by (auto simp: delete_lease_claim_for_lease_def intro!: keeps_modify claims_ok_filter)

subsection \<open>Operations that leave the occupancy alone\<close>

definition same_occupancy :: "db \<Rightarrow> db \<Rightarrow> bool" where
  "same_occupancy s t \<longleftrightarrow> claims t = claims s
     \<and> (\<forall>i. map_option mb_primary_email (mailbox_row i t) = map_option mb_primary_email (mailbox_row i s))
     \<and> (\<forall>i. map_option pr_primary_email (resource_row i t) = map_option pr_primary_email (resource_row i s))"

interpretation occ: frame_relation same_occupancy
  by unfold_locales (simp_all add: same_occupancy_def)

lemma map_option_eq_case:
  "map_option f x = map_option f y \<Longrightarrow> (case x of None \<Rightarrow> d | Some v \<Rightarrow> f v) = (case y of None \<Rightarrow> d | Some v \<Rightarrow> f v)"
  by (cases x; cases y) auto

lemma same_occupancy_primary:
  assumes "same_occupancy s t"
  shows "holder_primary m r t = holder_primary m r s"
proof -
  have "map_option mb_primary_email (mailbox_row (the m) t) = map_option mb_primary_email (mailbox_row (the m) s)"
    and "map_option pr_primary_email (resource_row (the r) t) = map_option pr_primary_email (resource_row (the r) s)"
    using assms by (simp_all add: same_occupancy_def)
  then show ?thesis
    using map_option_eq_case [of mb_primary_email "mailbox_row (the m) t" "mailbox_row (the m) s" "[]"]
      map_option_eq_case [of pr_primary_email "resource_row (the r) t" "resource_row (the r) s" "[]"]
    by (simp add: holder_primary_def)
qed

lemma same_occupancy_claims_ok: "claims_ok now s \<Longrightarrow> same_occupancy s t \<Longrightarrow> claims_ok now t"
  by (rule claims_ok_cong [of now s]) (simp_all add: same_primaries_def same_occupancy_primary, simp add: same_occupancy_def)

lemma occ_keeps: "steps same_occupancy m \<Longrightarrow> keeps (claims_ok now) m"
  by (rule occ.keeps) (auto intro: same_occupancy_claims_ok)

lemma same_occupancyI:
  "claims t = claims s \<Longrightarrow> mailboxes t = mailboxes s \<Longrightarrow> resources t = resources s \<Longrightarrow> same_occupancy s t"
  by (simp add: same_occupancy_def mailbox_row_def resource_row_def)

lemma same_occupancy_put_resource:
  assumes "resource_row (pr_id r) s = Some q" and "pr_primary_email r = pr_primary_email q"
    and "claims t = claims s" and "mailboxes t = mailboxes s" and "resources t = resources (write_resource r s)"
  shows "same_occupancy s t"
proof -
  have "resource_row i t = resource_row i (write_resource r s)" for i using assms(5) by (simp add: resource_row_def)
  with assms(1-4) show ?thesis by (auto simp: same_occupancy_def mailbox_row_def split: option.split)
qed

lemma same_occupancy_put_mailbox:
  assumes "mailbox_row (mb_id m) s = Some q" and "mb_primary_email m = mb_primary_email q"
  shows "same_occupancy s (write_mailbox m s)"
proof -
  have "mailbox_row i (write_mailbox m s) = (case mailbox_row i s of None \<Rightarrow> None | Some x \<Rightarrow> Some (if mb_id m = i then m else x))" for i
    by (simp add: mailbox_row_def write_mailbox_def)
  moreover have "resource_row i (write_mailbox m s) = resource_row i s" "claims (write_mailbox m s) = claims s" for i
    by (simp_all add: resource_row_def write_mailbox_def)
  ultimately show ?thesis using assms by (auto simp: same_occupancy_def split: option.split)
qed

lemma occ_update_mailboxes:
  "(\<And>m. mb_id (f m) = mb_id m) \<Longrightarrow> (\<And>m. mb_primary_email (f m) = mb_primary_email m) \<Longrightarrow> steps same_occupancy (update_mailboxes p f)"
  by (rule stepsI) (auto simp: same_occupancy_def run option.map_comp comp_def resource_row_def if_distrib
      intro!: option.map_cong0)

lemma occ_audit: "steps same_occupancy (add_audit a)" "steps same_occupancy (write_audit_event x1 x2 x3 x4 x5 x6 x7)"
    "steps same_occupancy (write_audit_log p ev i md)"
  by (auto intro!: stepsI same_occupancyI simp: write_audit_log_def write_audit_event_def run)

lemma occ_write_lease: "steps same_occupancy (modify (write_lease l))"
  by (auto intro!: stepsI same_occupancyI simp: write_lease_def run)

lemma occ_loads: "steps same_occupancy (load_owned_lease now p i b)" "steps same_occupancy (load_owned_lease_mailbox_first now p i b)"
  unfolding load_owned_lease_def load_owned_lease_mailbox_first_def by (intro occ.rules)+

lemma occ_scope: "steps same_occupancy (require_scope e p sc)"
  unfolding require_scope_def by (rule occ.require)

lemmas occ_rules = occ.rules occ_audit occ_write_lease occ_loads occ_scope occ_update_mailboxes

subsection \<open>Plus aliases and back\<close>

lemma alias_char_not: "alias_char c \<Longrightarrow> c \<noteq> CHR ''@'' \<and> c \<noteq> CHR '' '' \<and> c \<noteq> CHR ''+''"
  by (auto simp: alias_char_def is_lower_ascii_def is_ascii_digit_def)

lemma alias_chars_not:
  "list_all alias_char w \<Longrightarrow> CHR ''@'' \<notin> set w \<and> CHR '' '' \<notin> set w \<and> CHR ''+'' \<notin> set w"
  by (auto simp: list_all_iff dest: alias_char_not)

lemma random_alias_sound:
  "random_alias_from draw taken primary k n = Some c \<Longrightarrow> \<not> taken c \<and> (\<exists>j. c = alias_address primary (draw j))"
  by (induction n arbitrary: k) (auto simp: Let_def split: if_splits)

lemma allocate_sound:
  assumes "allocate_plus_alias draw now primary_email preferred site explicit s = (Inr a, t)"
    and "\<And>k. draw k \<noteq> [] \<and> list_all alias_char (draw k) \<and> length (draw k) \<le> 32"
  shows "t = s \<and> valid_address (strip primary_email) \<and> \<not> is_allocated_email_in_use now a s
     \<and> (present site \<longrightarrow> \<not> has_active_email_site_usage a (the site) s)
     \<and> (\<exists>suffix. a = alias_address (strip primary_email) suffix \<and> suffix \<noteq> [] \<and> list_all alias_char suffix \<and> length suffix \<le> 32)"
proof (cases preferred)
  case None
  then have "random_alias_from draw (\<lambda>c. is_allocated_email_in_use now c s \<or> (present site \<and> has_active_email_site_usage c (the site) s))
        (strip primary_email) 0 max_plus_alias_generation_attempts = Some a"
    and "t = s" "valid_address (strip primary_email)"
    using assms(1) by (auto simp: allocate_plus_alias_def Let_def returns split: option.splits)
  with random_alias_sound [OF this(1)] assms(2) show ?thesis by auto
next
  case (Some raw)
  with assms(1) show ?thesis
    by (auto simp: allocate_plus_alias_def Let_def returns)
qed

lemma before_plain: "c \<notin> set a \<Longrightarrow> before c a = a"
  by (induction a) (auto simp: before_def)

lemma mailbox_by_email_unique:
  "distinct (map mb_primary_email (mailboxes s)) \<Longrightarrow> m \<in> set (mailboxes s) \<Longrightarrow> mailbox_by_email (mb_primary_email m) s = Some m"
  by (simp add: mailbox_by_email_def row_by_unique)

text \<open>
  C25. Handing out a plus alias and asking for it again are inverse. Let the primary addresses of the mailboxes be
  distinct, let the stored address of the mailbox be normalized, without a space and without a plus sign of its own, and let
  no mailbox be stored under the alias address itself. Then an alias allocated under the mailbox - the caller's suffix
  or a drawn one of at most 32 alias characters - resolves, when it is re-acquired, to the same mailbox and to the
  kind plus alias, and at allocation no active lease held it.
\<close>

theorem plus_alias_roundtrip:
  assumes "allocate_plus_alias draw now (mb_primary_email m) preferred site explicit s = (Inr a, t)"
    and "\<And>k. draw k \<noteq> [] \<and> list_all alias_char (draw k) \<and> length (draw k) \<le> 32"
    and "m \<in> set (mailboxes s)" and "distinct (map mb_primary_email (mailboxes s))"
    and "strip_lower (mb_primary_email m) = mb_primary_email m" and "CHR '' '' \<notin> set (mb_primary_email m)"
    and "CHR ''+'' \<notin> set (before (CHR ''@'') (mb_primary_email m))"
    and "mailbox_by_email a s = None"
  shows "resolve_reacquire_email a s = (Inr (mb_id m, a, PlusAlias), s)
     \<and> classify_address_kind (mb_primary_email m) (Some a) = Some PlusAlias
     \<and> \<not> is_allocated_email_in_use now a s"
proof -
  define p where "p = mb_primary_email m"
  define l where "l = before (CHR ''@'') p"
  define d where "d = after (CHR ''@'') p"
  have st: "strip p = p" "lower_str p = p" using assms(5) by (simp_all add: strip_lower_fixed p_def)
  obtain suffix where sf: "a = alias_address p suffix" "suffix \<noteq> []" "list_all alias_char suffix" "length suffix \<le> 32"
    and valid: "valid_address p" and free: "\<not> is_allocated_email_in_use now a s"
    using allocate_sound [OF assms(1,2)] st(1) by (auto simp: p_def)
  have p: "p = l @ CHR ''@'' # d" and ld: "l \<noteq> []" "d \<noteq> []"
    using valid by (simp_all add: valid_address_def partition_parts l_def d_def)
  have low: "lower_str d = d"
  proof -
    have "lower_str l @ lower_str (CHR ''@'' # d) = l @ (CHR ''@'' # d)" using st(2) p by (metis lower_str_append)
    then show ?thesis by (simp add: lower_str_def)
  qed
  have plus: "CHR ''+'' \<notin> set l" using assms(7) by (simp add: l_def p_def)
  have "CHR '' '' \<notin> set p" using assms(6) by (simp add: p_def)
  then have space: "CHR '' '' \<notin> set l" "CHR '' '' \<notin> set d" by (simp_all add: p)
  have a: "a = (l @ CHR ''+'' # suffix) @ CHR ''@'' # d"
    using sf(1) plus low by (simp add: alias_address_def before_plain l_def [symmetric] d_def [symmetric])
  have "CHR ''@'' \<notin> set l" by (simp add: l_def)
  then have noat: "CHR ''@'' \<notin> set (l @ CHR ''+'' # suffix)" using alias_chars_not [OF sf(3)] by simp
  have parts: "before (CHR ''@'') a = l @ CHR ''+'' # suffix" "after (CHR ''@'') a = d"
    unfolding a by (rule before_append [OF noat], rule after_append [OF noat])
  have lp: "before (CHR ''+'') (l @ CHR ''+'' # suffix) = l" "after (CHR ''+'') (l @ CHR ''+'' # suffix) = suffix"
    using before_append [OF plus] after_append [OF plus] by simp_all
  have base: "mailbox_by_email (l @ ''@'' @ d) s = Some m"
    using mailbox_by_email_unique [OF assms(4,3)] p by (simp add: p_def)
  have "valid_address a" using ld(2) by (simp add: valid_address_def parts) (simp add: a)
  moreover have "CHR '' '' \<notin> set a" using space alias_chars_not [OF sf(3)] by (simp add: a)
  ultimately have r: "resolve_reacquire_email a s = (Inr (mb_id m, a, PlusAlias), s)"
    using assms(8) base sf(2-4) ld(1) by (simp add: resolve_reacquire_email_def Let_def run parts lp)
  have "hd a = hd p" "last a = last p" "a \<noteq> []" "p \<noteq> []" using ld by (simp_all add: a p)
  then have "strip a = a" using st(1) by (simp add: strip_fixed)
  then have "length (strip_lower a) = length a" by (simp add: strip_lower_def)
  then have "strip_lower a \<noteq> p" by (auto simp: a p dest: arg_cong [where f = length])
  then show ?thesis using r free assms(5) by (simp add: classify_address_kind_def p_def)
qed

lemma alias_of_sample:
  "allocate_plus_alias draw now p (Some ''zz'') None True s =
     (if \<not> valid_address (strip p) then (Inl LeaseValueError, s)
      else if is_allocated_email_in_use now (alias_address (strip p) ''zz'') s then (Inl (LeaseUnavailable False), s)
      else (Inr (alias_address (strip p) ''zz''), s))"
proof -
  have "strip_lower ''zz'' = ''zz''" "list_all alias_char ''zz''" by code_simp+
  then show ?thesis by (simp add: allocate_plus_alias_def Let_def run present_def)
qed

theorem plus_alias_roundtrip_witness:
  "fst (resolve_reacquire_email ''m+zz@x.com'' (empty_db\<lparr>mailboxes := [sample_mailbox ''m'']\<rparr>)) = Inr (''m'', ''m+zz@x.com'', PlusAlias)"
proof -
  let ?s = "empty_db\<lparr>mailboxes := [sample_mailbox ''m'']\<rparr>"
  have e: "strip ''m@x.com'' = ''m@x.com''" "valid_address ''m@x.com''" "alias_address ''m@x.com'' ''zz'' = ''m+zz@x.com''"
    "strip_lower ''m@x.com'' = ''m@x.com''" "before (CHR ''@'') ''m@x.com'' = ''m''"
    "list_all alias_char ''zz''" by code_simp+
  have al: "allocate_plus_alias (\<lambda>_. ''zz'') 0 (mb_primary_email (sample_mailbox ''m'')) (Some ''zz'') None True ?s = (Inr ''m+zz@x.com'', ?s)"
    unfolding alias_of_sample by (simp add: sample_fields e is_allocated_email_in_use_def empty_db_def)
  have h: "sample_mailbox ''m'' \<in> set (mailboxes ?s)" "distinct (map mb_primary_email (mailboxes ?s))"
    "strip_lower (mb_primary_email (sample_mailbox ''m'')) = mb_primary_email (sample_mailbox ''m'')"
    "CHR '' '' \<notin> set (mb_primary_email (sample_mailbox ''m''))"
    "CHR ''+'' \<notin> set (before (CHR ''@'') (mb_primary_email (sample_mailbox ''m'')))"
    "mailbox_by_email ''m+zz@x.com'' ?s = None"
    by (simp_all add: sample_fields e mailbox_by_email_def row_by_def)
  from plus_alias_roundtrip [OF al _ h] e(6) show ?thesis by (simp add: sample_fields)
qed

text \<open>
  The round trip breaks for a mailbox whose own address has a plus sign, which the import accepts:
  its aliases drop that part of the address, so re-acquiring one resolves to another mailbox when the
  shortened address exists.
\<close>

theorem plus_primary_alias_resolves_elsewhere:
  "\<exists>s m a other. m \<in> set (mailboxes s) \<and> mb_status m = MbActive
     \<and> allocate_plus_alias draw now (mb_primary_email m) (Some ''zz'') None True s = (Inr a, s)
     \<and> fst (resolve_reacquire_email a s) = Inr (other, a, PlusAlias) \<and> other \<noteq> mb_id m"
proof -
  let ?m = "(sample_mailbox ''m'')\<lparr>mb_primary_email := ''a+b@x.com''\<rparr>"
  let ?o = "(sample_mailbox ''o'')\<lparr>mb_primary_email := ''a@x.com''\<rparr>"
  let ?s = "empty_db\<lparr>mailboxes := [?m, ?o]\<rparr>"
  have e: "strip ''a+b@x.com'' = ''a+b@x.com''" "valid_address ''a+b@x.com''"
    "alias_address ''a+b@x.com'' ''zz'' = ''a+zz@x.com''" "valid_address ''a+zz@x.com''"
    "before (CHR ''@'') ''a+zz@x.com'' = ''a+zz''" "after (CHR ''@'') ''a+zz@x.com'' = ''x.com''"
    "before (CHR ''+'') ''a+zz'' = ''a''" "after (CHR ''+'') ''a+zz'' = ''zz''" "list_all alias_char ''zz''"
    by code_simp+
  have a: "allocate_plus_alias draw now (mb_primary_email ?m) (Some ''zz'') None True ?s = (Inr ''a+zz@x.com'', ?s)"
    unfolding alias_of_sample by (simp add: e is_allocated_email_in_use_def empty_db_def)
  have r: "fst (resolve_reacquire_email ''a+zz@x.com'' ?s) = Inr (''o'', ''a+zz@x.com'', PlusAlias)"
    using e by (simp add: resolve_reacquire_email_def run mailbox_by_email_def row_by_def sample_fields)
  show ?thesis
    by (rule exI [of _ ?s], rule exI [of _ ?m], rule exI [of _ "''a+zz@x.com''"], rule exI [of _ "''o''"])
      (use a r in \<open>simp add: sample_fields\<close>)
qed

end
