(* ===== verification/LeaseRelease.thy ===== *)
theory LeaseRelease
  imports LeaseClaims
begin

text \<open>
  Releasing a lease and the credential operations of an owned lease (\<open>lease_service.py\<close>:
  \<open>release_lease\<close>, \<open>_release_lease_internal\<close>, \<open>get_access_token\<close>, \<open>load_active_mail_read_lease\<close>,
  \<open>update_refresh_token\<close>). The token service is a parameter where it is called.
\<close>

record lease_release_result =
  rr_lease_id :: string
  rr_released_at :: time

definition retire_resource :: "time \<Rightarrow> provider_resource \<Rightarrow> provider_resource" where
  "retire_resource now r = r\<lparr>pr_lifecycle_state := Retired, pr_readiness := NotReady,
     pr_state_version := pr_state_version r + 1, pr_encrypted_secret := None, pr_updated_at := now\<rparr>"

definition lease_resource :: "lease \<Rightarrow> db \<Rightarrow> provider_resource option" where
  "lease_resource l s = (if present (ls_provider_resource_id l) then resource_row (the (ls_provider_resource_id l)) s else None)"

definition release_provider_side :: "string \<Rightarrow> time \<Rightarrow> principal \<Rightarrow> lease \<Rightarrow> (db, lease_error, unit) action" where
  \<comment> \<open>the provider-specific middle of \<open>_release_lease_internal\<close>\<close>
  "release_provider_side operation_id now p l =
     (let provider_type = (if ls_provider_type l = [] then default_provider_type else ls_provider_type l) in
      bnd (asks (lease_resource l)) (\<lambda>row.
        if provider_type = ''smsbower_gmail'' then
          (case row of
             None \<Rightarrow> ret ()
           | Some r \<Rightarrow>
               if pr_lifecycle_state r \<in> {Claimed, Available}
               then bnd (lift_error ReleaseFailure (begin_release_operation operation_id now (ls_id l) (pr_id r)
                      (if ls_provider_type l = [] then ''smsbower_gmail'' else ls_provider_type l)
                      (case ls_provider_instance_id l of None \<Rightarrow> pr_provider_instance_id r
                        | Some i \<Rightarrow> if i = [] then pr_provider_instance_id r else i)
                      (pr_external_resource_id r) (pr_resource_generation r) (pr_state_version r)
                      (Some (client_key_id p)) None)) (\<lambda>_. ret ())
               else ret ())
        else if provider_type \<in> set on_demand_provider_types then
          (case row of None \<Rightarrow> ret () | Some r \<Rightarrow> modify (write_resource (retire_resource now r)))
        else ret ()))"

definition release_lease_internal ::
    "string \<Rightarrow> time \<Rightarrow> principal \<Rightarrow> string \<Rightarrow> (db, lease_error, lease_release_result) action" where
  "release_lease_internal operation_id now p lease_id =
     bnd (load_owned_lease_mailbox_first now p lease_id False) (\<lambda>l. case ls_released_at l of
       Some released \<Rightarrow> ret \<lparr>rr_lease_id = ls_id l, rr_released_at = released\<rparr>
     | None \<Rightarrow>
         andthen (modify (write_lease (l\<lparr>ls_released_at := Some now\<rparr>)))
        (andthen (delete_lease_claim_for_lease l)
        (andthen (release_provider_side operation_id now p l)
        (andthen (write_audit_log p ''lease.released'' (ls_id l)
            (JObj [(''mailbox_id'', jopt (ls_mailbox_id l)), (''provider_resource_id'', jopt (ls_provider_resource_id l))]))
          (ret \<lparr>rr_lease_id = ls_id l, rr_released_at = now\<rparr>)))))"

definition release_lease :: "string \<Rightarrow> time \<Rightarrow> principal \<Rightarrow> string \<Rightarrow> (db, lease_error, lease_release_result) action" where
  "release_lease operation_id now p lease_id =
     andthen (require_scope ScopeDenied p ''leases:release'') (release_lease_internal operation_id now p lease_id)"

record access_token_result =
  at_access_token :: string
  at_expires_at :: time
  at_refreshed :: bool
  at_token_version :: int

definition get_access_token ::
    "(string \<Rightarrow> (db, lease_error, access_token_result) action) \<Rightarrow> time \<Rightarrow> principal \<Rightarrow> string
       \<Rightarrow> (db, lease_error, access_token_result) action" where
  "get_access_token ensure_access_token now p lease_id =
     andthen (require_scope ScopeDenied p ''tokens:access:read'')
    (bnd (load_owned_lease now p lease_id True) (\<lambda>l.
     andthen (require (ls_mode l = AccessToken) LeaseModeMismatch)
    (bnd (asks (\<lambda>s. case ls_mailbox_id l of None \<Rightarrow> None | Some i \<Rightarrow> mailbox_row i s)) (\<lambda>row. case row of
       None \<Rightarrow> throw LeaseInactive
     | Some m \<Rightarrow> if mb_status m \<noteq> MbActive then throw LeaseInactive else ensure_access_token (mb_id m)))))"

record mail_identity =
  \<comment> \<open>what verification reads off the mailbox or its detached stand-in\<close>
  mi_id :: string
  mi_provider_type :: string
  mi_primary_email :: string
  mi_status :: mailbox_status

definition load_active_mail_read_lease ::
    "time \<Rightarrow> principal \<Rightarrow> string \<Rightarrow> (db, lease_error, lease \<times> mail_identity) action" where
  "load_active_mail_read_lease now p lease_id =
     andthen (require_scope ScopeDenied p ''mail:verification-code:read'')
    (bnd (load_owned_lease now p lease_id True) (\<lambda>l.
     andthen (require (ls_mode l = MailRead) LeaseModeMismatch)
       (if present (ls_mailbox_id l) then
          bnd (asks (mailbox_row (the (ls_mailbox_id l)))) (\<lambda>row. case row of
            None \<Rightarrow> throw LeaseInactive
          | Some m \<Rightarrow>
              if mb_status m \<noteq> MbActive then throw LeaseInactive
              else ret (l, \<lparr>mi_id = mb_id m, mi_provider_type = mb_provider_type m,
                            mi_primary_email = mb_primary_email m, mi_status = mb_status m\<rparr>))
        else if \<not> present (ls_provider_resource_id l) then throw LeaseInactive
        else
          bnd (asks (resource_row (the (ls_provider_resource_id l)))) (\<lambda>row. case row of
            None \<Rightarrow> throw LeaseInactive
          | Some r \<Rightarrow>
              if pr_lifecycle_state r \<noteq> Claimed then throw LeaseInactive
              else ret (l, \<lparr>mi_id = pr_id r, mi_provider_type = pr_provider_type r,
                            mi_primary_email = pr_primary_email r, mi_status = MbActive\<rparr>)))))"

record refresh_token_update_result =
  ru_lease_id :: string
  ru_mailbox_id :: string
  ru_updated :: bool
  ru_token_version :: int

definition replace_leased_refresh_token :: "string \<Rightarrow> time \<Rightarrow> time \<Rightarrow> mailbox \<Rightarrow> mailbox" where
  \<comment> \<open>the values of the UPDATE; the source version of the dropped access token stays\<close>
  "replace_leased_refresh_token encrypted now expires m =
     m\<lparr>mb_refresh_token_ciphertext := Some encrypted, mb_refresh_token_updated_at := Some now,
       mb_refresh_token_expires_at := Some expires, mb_access_token_ciphertext := None,
       mb_access_token_expires_at := None, mb_access_token_refreshed_at := None,
       mb_token_version := mb_token_version m + 1, mb_updated_at := now\<rparr>"

definition update_refresh_token ::
    "(string \<Rightarrow> string option) \<Rightarrow> (string \<Rightarrow> string) \<Rightarrow> int \<Rightarrow> time \<Rightarrow> principal \<Rightarrow> string \<Rightarrow> int \<Rightarrow> string
       \<Rightarrow> (db, lease_error, refresh_token_update_result) action" where
  "update_refresh_token decrypt encrypt lifetime_days now p lease_id expected refresh_token =
     andthen (require_scope ScopeDenied p ''tokens:refresh:write'')
    (bnd (load_owned_lease_mailbox_first now p lease_id True) (\<lambda>l.
     andthen (require (ls_mode l = RefreshToken) LeaseModeMismatch)
    (bnd (asks (\<lambda>s. case ls_mailbox_id l of None \<Rightarrow> None | Some i \<Rightarrow> mailbox_row i s)) (\<lambda>row. case row of
       None \<Rightarrow> throw LeaseInactive
     | Some m \<Rightarrow>
         andthen (require (mb_status m = MbActive) LeaseInactive)
        (andthen (require (mb_token_version m = expected) LeaseVersionConflict)
          (case decrypt (case mb_refresh_token_ciphertext m of None \<Rightarrow> [] | Some c \<Rightarrow> c) of
             None \<Rightarrow> throw CredentialUnreadable
           | Some existing \<Rightarrow>
               if existing = refresh_token
               then ret \<lparr>ru_lease_id = ls_id l, ru_mailbox_id = mb_id m, ru_updated = False,
                         ru_token_version = mb_token_version m\<rparr>
               else
                 bnd (update_mailboxes (\<lambda>x. mb_id x = mb_id m \<and> mb_token_version x = expected)
                        (replace_leased_refresh_token (encrypt refresh_token) now (now + days lifetime_days))) (\<lambda>n.
                 andthen (require (n = 1) LeaseVersionConflict)
                (andthen (write_audit_log p ''mailbox.refresh_token.updated'' (mb_id m)
                    (JObj [(''lease_id'', JStr (ls_id l)), (''token_version'', JInt (expected + 1))]))
                  (ret \<lparr>ru_lease_id = ls_id l, ru_mailbox_id = mb_id m, ru_updated = True,
                        ru_token_version = expected + 1\<rparr>)))))))))"

subsection \<open>Releasing keeps the occupancy rule\<close>

lemma begin_release_occ: "steps same_occupancy (begin_release_operation n now lease i pt inst ext g v pid mid)"
proof (rule stepsI)
  fix s
  show "same_occupancy s (snd (begin_release_operation n now lease i pt inst ext g v pid mid s))"
  proof (cases "operation_by_key (release_key lease g) s")
    case (Some o1)
    then show ?thesis by (simp add: begin_release_operation_def run occ.refl)
  next
    case None
    show ?thesis
    proof (cases "resource_row i s")
      case (Some r)
      have "pr_id r = i" using resource_row_id [OF Some] by simp
      then have "same_occupancy s (write_resource (r\<lparr>pr_lifecycle_state := Releasing,
          pr_state_version := pr_state_version r + 1, pr_updated_at := now\<rparr>) s)"
        using Some by (intro same_occupancy_put_resource [where q = r]) simp_all
      then show ?thesis
        by (auto simp: begin_release_new [OF None Some] Let_def write_resource_def
            elim!: occ.trans intro!: same_occupancyI)
    next
      case None2: None
      with None show ?thesis by (simp add: begin_release_operation_def run occ.refl)
    qed
  qed
qed

lemma lease_resource_row: "lease_resource l s = Some r \<Longrightarrow> resource_row (pr_id r) s = Some r"
  using resource_row_id by (fastforce simp: lease_resource_def split: if_splits)

lemma retire_occ:
  assumes "lease_resource l s = Some r"
  shows "same_occupancy s (write_resource (retire_resource now r) s)"
  using lease_resource_row [OF assms]
  by (intro same_occupancy_put_resource [where q = r]) (simp_all add: retire_resource_def)

lemma release_provider_occ: "steps same_occupancy (release_provider_side op now p l)"
proof -
  have remote: "steps same_occupancy (bnd (lift_error ReleaseFailure
      (begin_release_operation op now (ls_id l) i pt inst ext g v pid mid)) (\<lambda>_. ret ()))" for i pt inst ext g v pid mid
    by (intro occ.rules begin_release_occ)
  show ?thesis
    unfolding release_provider_side_def Let_def
    by (intro occ.bnd_asks)
      (auto simp: ret_run modify_run occ.refl retire_occ split: option.split intro: stepsD [OF remote])
qed

lemma release_keeps_claims: "keeps (claims_ok now) (release_lease_internal op now' p i)"
  unfolding release_lease_internal_def
  by (intro keeps_bnd keeps_andthen keeps_option keeps_ret delete_claim_keeps_claims
      occ_keeps [OF occ_write_lease] occ_keeps [OF release_provider_occ] occ_keeps [OF occ_audit(3)]
      occ_keeps [OF occ_loads(2)])

subsection \<open>Releasing twice\<close>

lemma owned_leaseD:
  "owned_lease p i s = Some l \<Longrightarrow> ls_id l = i \<and> ls_client_key_id l = Some (client_key_id p) \<and> l \<in> set (leases s)"
  by (auto simp: owned_lease_def find_Some_iff)

lemma owned_lease_write:
  assumes "owned_lease p i s = Some l" and "ls_id l' = i" and "ls_client_key_id l' = Some (client_key_id p)"
  shows "owned_lease p i (write_lease l' s) = Some l'"
proof -
  have "find (\<lambda>l. ls_id l = i \<and> ls_client_key_id l = Some (client_key_id p)) (put_row ls_id l' rows) = Some l'"
    if "find (\<lambda>l. ls_id l = i \<and> ls_client_key_id l = Some (client_key_id p)) rows = Some l" for rows
    using that assms(2,3) by (induction rows) (auto split: if_splits)
  with assms(1) show ?thesis by (simp add: owned_lease_def write_lease_def)
qed

definition lease_tables_same :: "db \<Rightarrow> db \<Rightarrow> bool" where
  \<comment> \<open>leases, claims and mailboxes are untouched and no resource row disappears\<close>
  "lease_tables_same s t \<longleftrightarrow> leases t = leases s \<and> claims t = claims s \<and> mailboxes t = mailboxes s
     \<and> (\<forall>i. resource_row i s \<noteq> None \<longrightarrow> resource_row i t \<noteq> None)"

interpretation lts: frame_relation lease_tables_same
  by unfold_locales (auto simp: lease_tables_same_def)

lemma lts_write_resource: "lease_tables_same s (write_resource r s)"
  by (auto simp: lease_tables_same_def split: option.split)

lemma lts_audit: "steps lease_tables_same (write_audit_event x1 x2 x3 x4 x5 x6 x7)" "steps lease_tables_same (write_audit_log p ev i md)"
  by (auto intro!: stepsI simp: lease_tables_same_def write_audit_log_def write_audit_event_def run)

lemma lts_create: "steps lease_tables_same (create_pending_operation n now q)"
  by (rule stepsI) (auto simp: create_pending_operation_def insert_operation_def run Let_def lease_tables_same_def split: option.split)

lemma begin_release_lts: "steps lease_tables_same (begin_release_operation n now lease i pt inst ext g v pid mid)"
  unfolding begin_release_operation_def
  by (intro lts.rules lts_create lts_audit lts.modify lts_write_resource)

lemma release_provider_lts: "steps lease_tables_same (release_provider_side op now p l)"
  unfolding release_provider_side_def Let_def
  by (intro lts.rules begin_release_lts lts.modify lts_write_resource)

lemma load_mailbox_first_state: "load_owned_lease_mailbox_first now p i b s = (r, t) \<Longrightarrow> t = s"
  by (auto simp: load_owned_lease_mailbox_first_def run split: option.splits if_splits)

lemma load_mailbox_first_Inr:
  "load_owned_lease_mailbox_first now p i b s = (Inr l, t) \<longleftrightarrow>
     t = s \<and> owned_lease p i s = Some l
     \<and> (if present (ls_mailbox_id l) then mailbox_row (the (ls_mailbox_id l)) s \<noteq> None
        else present (ls_provider_resource_id l) \<and> resource_row (the (ls_provider_resource_id l)) s \<noteq> None)
     \<and> (b \<longrightarrow> ls_released_at l = None \<and> now < ls_expires_at l)"
  by (auto simp: load_owned_lease_mailbox_first_def run is_expired_def split: option.splits if_splits)

lemma release_internal_result:
  assumes "release_lease_internal op now p i s = (Inr res, t)"
  shows "\<exists>l. owned_lease p i t = Some l \<and> ls_released_at l = Some (rr_released_at res) \<and> rr_lease_id res = i
     \<and> release_lease_internal op' later p i t = (Inr res, t)
     \<and> (\<forall>l0. owned_lease p i s = Some l0 \<longrightarrow> ls_released_at l0 = None \<longrightarrow>
          rr_released_at res = now \<and> claim_row i t = None)"
proof -
  obtain l where l: "load_owned_lease_mailbox_first now p i False s = (Inr l, s)"
    using assms load_mailbox_first_state by (auto simp: release_lease_internal_def returns)
  note own = l [unfolded load_mailbox_first_Inr]
  then have id: "ls_id l = i" "ls_client_key_id l = Some (client_key_id p)" using owned_leaseD by blast+
  show ?thesis
  proof (cases "ls_released_at l")
    case (Some x)
    then have "release_lease_internal op'' n p i s = (Inr \<lparr>rr_lease_id = i, rr_released_at = x\<rparr>, s)" for op'' n
    proof -
      have "load_owned_lease_mailbox_first n p i False s = (Inr l, s)" using own by (simp add: load_mailbox_first_Inr)
      with Some id show ?thesis by (simp add: release_lease_internal_def bnd_run ret_run)
    qed
    with assms own Some show ?thesis by auto
  next
    case None
    let ?l = "l\<lparr>ls_released_at := Some now\<rparr>"
    let ?s1 = "write_lease ?l s"
    let ?s2 = "?s1\<lparr>claims := delete_where (\<lambda>c. lc_lease_id c = i) (claims ?s1)\<rparr>"
    obtain u where u: "release_provider_side op now p l ?s2 = (Inr (), u)"
        "write_audit_log p ''lease.released'' i (JObj [(''mailbox_id'', jopt (ls_mailbox_id l)),
           (''provider_resource_id'', jopt (ls_provider_resource_id l))]) u = (Inr (), t)"
        "res = \<lparr>rr_lease_id = i, rr_released_at = now\<rparr>"
      using assms l None id
      by (auto simp: release_lease_internal_def bnd_Inr_iff andthen_Inr_iff modify_Inr_iff ret_Inr_iff delete_lease_claim_for_lease_def)
    have lts: "lease_tables_same ?s2 t"
      using lts.trans [OF stepsD_eq [OF release_provider_lts u(1)] stepsD_eq [OF lts_audit(2) u(2)]] .
    have own1: "owned_lease p i ?s1 = Some ?l"
      using own id by (intro owned_lease_write [of p i s l]) auto
    have tl: "leases t = leases ?s1" "claims t = claims ?s2" "mailboxes t = mailboxes s"
      using lts by (auto simp: lease_tables_same_def write_lease_def)
    have own2: "owned_lease p i t = Some ?l" using own1 by (simp add: owned_lease_def tl(1))
    have res: "resource_row j t \<noteq> None" if "resource_row j s \<noteq> None" for j
      using lts that by (simp add: lease_tables_same_def write_lease_def resource_row_def)
    have "load_owned_lease_mailbox_first later p i False t = (Inr ?l, t)"
      using own own2 res tl(3) by (auto simp: load_mailbox_first_Inr mailbox_row_def split: if_splits)
    then have again: "release_lease_internal op' later p i t = (Inr res, t)"
      using u(3) id by (simp add: release_lease_internal_def bnd_run ret_run)
    have "claim_row i t = None" by (auto simp: claim_row_def tl(2) row_by_None)
    with again own2 u(3) show ?thesis by simp
  qed
qed

text \<open>
  Releasing is idempotent and final: after a release the lease is marked released with the
  reported time and its claim is gone, and every further release of it, however much later, answers
  with the same time and changes nothing in the database.
\<close>

theorem release_is_idempotent:
  assumes "release_lease op now p i s = (Inr res, t)"
  shows "release_lease op' later p i t = (Inr res, t)
     \<and> (\<exists>l. owned_lease p i t = Some l \<and> ls_released_at l = Some (rr_released_at res))
     \<and> (\<exists>l0. owned_lease p i s = Some l0 \<and> (ls_released_at l0 \<noteq> None \<or> (claim_row i t = None \<and> rr_released_at res = now)))"
proof -
  from assms have sc: "''leases:release'' \<in> set (scopes p)" and r: "release_lease_internal op now p i s = (Inr res, t)"
    by (auto simp: release_lease_def require_scope_def returns)
  obtain l0 where "owned_lease p i s = Some l0"
    using r by (auto simp: release_lease_internal_def bnd_Inr_iff load_mailbox_first_Inr)
  with release_internal_result [OF r, of op' later] sc show ?thesis
    by (auto simp: release_lease_def require_scope_def run)
qed

definition sample_lease :: "string \<Rightarrow> string \<Rightarrow> lease_mode \<Rightarrow> lease" where
  \<comment> \<open>a lease of client \<open>k\<close> on a mailbox, for the concrete runs below\<close>
  "sample_lease i mb mode = \<lparr>ls_id = i, ls_mailbox_id = Some mb, ls_provider_resource_id = None, ls_client_key_id = Some ''k'',
     ls_client_tag = None, ls_purpose = None, ls_allocated_email = None, ls_mode = mode, ls_provider_type = ''microsoft'',
     ls_provider_instance_id = None, ls_provider_config_revision = None, ls_expires_at = 100, ls_released_at = None,
     ls_created_at = 0\<rparr>"

lemma sample_lease_fields [simp]:
  "ls_id (sample_lease i mb mode) = i" "ls_mailbox_id (sample_lease i mb mode) = Some mb"
  "ls_provider_resource_id (sample_lease i mb mode) = None" "ls_client_key_id (sample_lease i mb mode) = Some ''k''"
  "ls_mode (sample_lease i mb mode) = mode" "ls_released_at (sample_lease i mb mode) = None"
  "ls_expires_at (sample_lease i mb mode) = 100" "ls_provider_type (sample_lease i mb mode) = ''microsoft''"
  by (simp_all add: sample_lease_def)

definition sample_principal :: principal where
  "sample_principal = \<lparr>client_key_id = ''k'', principal_name = ''n'',
     scopes = [''leases:release'', ''leases:acquire'', ''tokens:access:read'', ''tokens:refresh:write'', ''mailboxes:acquire'',
       ''mailboxes:reacquire'', ''mail:verification-code:read'']\<rparr>"

lemma sample_principal_fields [simp]:
  "client_key_id sample_principal = ''k''"
  "scopes sample_principal = [''leases:release'', ''leases:acquire'', ''tokens:access:read'', ''tokens:refresh:write'',
     ''mailboxes:acquire'', ''mailboxes:reacquire'', ''mail:verification-code:read'']"
  by (simp_all add: sample_principal_def)

lemma microsoft_not_on_demand: "''microsoft'' \<notin> set on_demand_provider_types"
  by code_simp

theorem release_is_idempotent_witness:
  "\<exists>t. release_lease ''o1'' 5 sample_principal ''l'' (empty_db\<lparr>mailboxes := [sample_mailbox ''m''], leases := [sample_lease ''l'' ''m'' AccessToken]\<rparr>)
        = (Inr \<lparr>rr_lease_id = ''l'', rr_released_at = 5\<rparr>, t)
     \<and> release_lease ''o2'' 9 sample_principal ''l'' t = (Inr \<lparr>rr_lease_id = ''l'', rr_released_at = 5\<rparr>, t)"
proof -
  let ?s = "empty_db\<lparr>mailboxes := [sample_mailbox ''m''], leases := [sample_lease ''l'' ''m'' AccessToken]\<rparr>"
  have m: "mailbox_row ''m'' ?s \<noteq> None" and o1: "owned_lease sample_principal ''l'' ?s = Some (sample_lease ''l'' ''m'' AccessToken)"
    by (simp_all add: mailbox_row_def row_by_def sample_fields owned_lease_def)
  have ld: "load_owned_lease_mailbox_first 5 sample_principal ''l'' False ?s = (Inr (sample_lease ''l'' ''m'' AccessToken), ?s)"
    using m o1 by (simp add: load_mailbox_first_Inr present_def)
  have "fst (release_lease ''o1'' 5 sample_principal ''l'' ?s) = Inr \<lparr>rr_lease_id = ''l'', rr_released_at = 5\<rparr>"
    by (simp add: release_lease_def require_scope_def release_lease_internal_def andthen_run bnd_run require_run ld
        modify_run ret_run delete_lease_claim_for_lease_def release_provider_side_def asks_run Let_def
        microsoft_not_on_demand write_audit_log_def write_audit_event_def add_audit_run)
  then obtain t where t: "release_lease ''o1'' 5 sample_principal ''l'' ?s = (Inr \<lparr>rr_lease_id = ''l'', rr_released_at = 5\<rparr>, t)"
    by (metis prod.collapse)
  from t release_is_idempotent [OF t] show ?thesis by blast
qed

subsection \<open>Credentials of a lease\<close>

lemma replace_leased_fields [simp]:
  "mb_id (replace_leased_refresh_token enc now e m) = mb_id m"
  "mb_token_version (replace_leased_refresh_token enc now e m) = mb_token_version m + 1"
  "mb_refresh_token_ciphertext (replace_leased_refresh_token enc now e m) = Some enc"
  "mb_access_token_ciphertext (replace_leased_refresh_token enc now e m) = None"
  "mb_primary_email (replace_leased_refresh_token enc now e m) = mb_primary_email m"
  "mb_status (replace_leased_refresh_token enc now e m) = mb_status m"
  by (simp_all add: replace_leased_refresh_token_def)

lemma update_refresh_token_cases:
  obtains (same) r where "update_refresh_token dec enc dys now p i v rt s = (r, s)"
      and "\<And>res. r = Inr res \<Longrightarrow> \<not> ru_updated res"
  | (swapped) l m r where "owned_lease p i s = Some l" and "ls_mailbox_id l = Some (mb_id m)" and "mailbox_row (mb_id m) s = Some m"
      and "ls_mode l = RefreshToken" and "lease_active now l" and "mb_status m = MbActive" and "mb_token_version m = v"
      and "update_refresh_token dec enc dys now p i v rt s =
        (if rowcount (\<lambda>x. mb_id x = mb_id m \<and> mb_token_version x = v) (mailboxes s) = 1
         then Inr \<lparr>ru_lease_id = ls_id l, ru_mailbox_id = mb_id m, ru_updated = True, ru_token_version = v + 1\<rparr>
         else Inl LeaseVersionConflict, r)"
      and "mailboxes r = update_where (\<lambda>x. mb_id x = mb_id m \<and> mb_token_version x = v)
            (replace_leased_refresh_token (enc rt) now (now + days dys)) (mailboxes s)"
      and "leases r = leases s" and "claims r = claims s" and "resources r = resources s"
proof -
  obtain r u where ld: "load_owned_lease_mailbox_first now p i True s = (r, u)" by (metis surj_pair)
  have u: "u = s" using load_mailbox_first_state [OF ld] .
  let ?f = "update_refresh_token dec enc dys now p i v rt"
  note def = update_refresh_token_def require_scope_def
  have sc: thesis if "''tokens:refresh:write'' \<notin> set (scopes p)"
    using that by (intro same [of "Inl (ScopeDenied ''tokens:refresh:write'')"]) (simp_all add: def run)
  show thesis
  proof (cases "''tokens:refresh:write'' \<in> set (scopes p)")
    case scope: True
    show thesis
    proof (cases r)
      case (Inl e)
      with scope ld u show thesis by (intro same [of "Inl e"]) (simp_all add: def run)
    next
      case (Inr l)
      note own = ld [unfolded Inr load_mailbox_first_Inr]
      let ?row = "case ls_mailbox_id l of None \<Rightarrow> None | Some i \<Rightarrow> mailbox_row i s"
      show thesis
      proof (cases "ls_mode l = RefreshToken \<and> (\<exists>m. ?row = Some m \<and> mb_status m = MbActive \<and> mb_token_version m = v
          \<and> (\<exists>old. dec (case mb_refresh_token_ciphertext m of None \<Rightarrow> [] | Some c \<Rightarrow> c) = Some old \<and> old \<noteq> rt))")
        case True
        then obtain m old where m: "ls_mode l = RefreshToken" "?row = Some m" "mb_status m = MbActive" "mb_token_version m = v"
          "dec (case mb_refresh_token_ciphertext m of None \<Rightarrow> [] | Some c \<Rightarrow> c) = Some old" "old \<noteq> rt" by blast
        then have id: "ls_mailbox_id l = Some (mb_id m)" "mailbox_row (mb_id m) s = Some m"
          using mailbox_row_id by (auto split: option.splits)
        let ?t = "snd (?f s)"
        have "?f s = (if rowcount (\<lambda>x. mb_id x = mb_id m \<and> mb_token_version x = v) (mailboxes s) = 1
           then Inr \<lparr>ru_lease_id = ls_id l, ru_mailbox_id = mb_id m, ru_updated = True, ru_token_version = v + 1\<rparr>
           else Inl LeaseVersionConflict, ?t)"
          using scope ld Inr u m id by (simp add: def run write_audit_log_def write_audit_event_def)
        moreover have "mailboxes ?t = update_where (\<lambda>x. mb_id x = mb_id m \<and> mb_token_version x = v)
            (replace_leased_refresh_token (enc rt) now (now + days dys)) (mailboxes s)"
          "leases ?t = leases s" "claims ?t = claims s" "resources ?t = resources s"
          using scope ld Inr u m id by (simp_all add: def run write_audit_log_def write_audit_event_def)
        ultimately show thesis
          using own id m by (intro swapped [of l m ?t]) (simp_all add: lease_active_def)
      next
        case False
        have "?f s = (fst (?f s), s) \<and> (\<forall>res. fst (?f s) = Inr res \<longrightarrow> \<not> ru_updated res)"
          using scope ld Inr u False
          by (cases ?row; cases "dec (case mb_refresh_token_ciphertext (the ?row) of None \<Rightarrow> [] | Some c \<Rightarrow> c)")
            (auto simp: def run)
        then show thesis by (intro same [of "fst (?f s)"]) auto
      qed
    qed
  qed (use sc in simp)
qed

interpretation leased: versioned_writer "\<lambda>s. snd (update_refresh_token dec enc dys now p j v rt s)" for dec enc dys now p j v rt
proof
  fix i s m
  assume m: "mailbox_row i s = Some m"
  show "\<exists>m'. mailbox_row i (snd (update_refresh_token dec enc dys now p j v rt s)) = Some m' \<and> rt_advance m m'"
  proof (cases rule: update_refresh_token_cases [of dec enc dys now p j v rt s])
    case (same r)
    with m show ?thesis by simp
  next
    case (swapped l q r)
    have "mailbox_row i r = mailbox_row i (s\<lparr>mailboxes := mailboxes r\<rparr>)" by (simp add: mailbox_row_def)
    with m swapped(8,9) show ?thesis by (auto simp: rt_advance_def)
  qed
next
  fix s
  assume "mailbox_ids_unique s"
  then show "mailbox_ids_unique (snd (update_refresh_token dec enc dys now p j v rt s))"
    by (cases rule: update_refresh_token_cases [of dec enc dys now p j v rt s])
      (auto simp: mailbox_ids_unique_def map_update_where)
qed

lemma update_needs_row:
  assumes "update_refresh_token dec enc dys now p i v rt s = (Inr res, u)"
    and "load_owned_lease_mailbox_first now p i True s = (Inr l, s)"
  shows "\<exists>m. (case ls_mailbox_id l of None \<Rightarrow> None | Some j \<Rightarrow> mailbox_row j s) = Some m \<and> mb_status m = MbActive \<and> mb_token_version m = v"
proof -
  let ?row = "case ls_mailbox_id l of None \<Rightarrow> None | Some j \<Rightarrow> mailbox_row j s"
  have "?row \<noteq> None \<and> mb_status (the ?row) = MbActive \<and> mb_token_version (the ?row) = v"
  proof (rule ccontr)
    assume "\<not> ?thesis"
    then have "\<exists>e. fst (update_refresh_token dec enc dys now p i v rt s) = Inl e"
      using assms(2) by (cases ?row) (auto simp: update_refresh_token_def require_scope_def run)
    with assms(1) show False by auto
  qed
  then show ?thesis by auto
qed

lemma update_needs_version:
  assumes "update_refresh_token dec enc dys now p i v rt s = (Inr res, u)"
  obtains l m where "owned_lease p i s = Some l"
    and "(case ls_mailbox_id l of None \<Rightarrow> None | Some j \<Rightarrow> mailbox_row j s) = Some m" and "mb_token_version m = v"
proof -
  obtain l where ld: "load_owned_lease_mailbox_first now p i True s = (Inr l, s)"
    using assms load_mailbox_first_state
    by (auto simp: update_refresh_token_def bnd_Inr_iff andthen_Inr_iff require_scope_def require_Inr_iff)
  with update_needs_row [OF assms ld] that show thesis by (auto simp: load_mailbox_first_Inr)
qed

lemma one_row:
  assumes "mailbox_ids_unique s" and "mailbox_row i s = Some m" and "mb_token_version m = v"
  shows "rowcount (\<lambda>x. mb_id x = i \<and> mb_token_version x = v) (mailboxes s) = 1"
proof -
  have d: "distinct (mailboxes s)" using assms(1) by (simp add: mailbox_ids_unique_def distinct_map)
  have "x = m" if "x \<in> set (mailboxes s)" "mb_id x = i" for x
    using that assms(1) mailbox_row_id [OF assms(2)] by (auto simp: mailbox_ids_unique_def distinct_map dest: inj_onD)
  then have "set (filter (\<lambda>x. mb_id x = i \<and> mb_token_version x = v) (mailboxes s)) = {m}"
    using mailbox_row_id [OF assms(2)] assms(3) by auto
  with distinct_card [OF distinct_filter [OF d, of "\<lambda>x. mb_id x = i \<and> mb_token_version x = v"]] show ?thesis
    by (simp add: rowcount_def)
qed

lemma update_unreported:
  assumes "update_refresh_token dec enc dys now p i v rt s = (Inr res, t)" and "\<not> ru_updated res"
  shows "\<exists>l m. owned_lease p i s = Some l \<and> lease_active now l \<and> ls_mode l = RefreshToken
     \<and> ls_mailbox_id l = Some (mb_id m) \<and> mailbox_row (mb_id m) s = Some m \<and> mb_status m = MbActive \<and> mb_token_version m = v
     \<and> dec (case mb_refresh_token_ciphertext m of None \<Rightarrow> [] | Some c \<Rightarrow> c) = Some rt \<and> ru_token_version res = v \<and> t = s"
proof -
  obtain l where ld: "load_owned_lease_mailbox_first now p i True s = (Inr l, s)"
    using assms(1) load_mailbox_first_state
    by (auto simp: update_refresh_token_def bnd_Inr_iff andthen_Inr_iff require_scope_def require_Inr_iff)
  have mode: "ls_mode l = RefreshToken"
    using assms(1) by (rule contrapos_pp) (use ld in \<open>simp add: update_refresh_token_def require_scope_def run\<close>)
  let ?row = "case ls_mailbox_id l of None \<Rightarrow> None | Some j \<Rightarrow> mailbox_row j s"
  obtain m where m: "?row = Some m" "mb_status m = MbActive" "mb_token_version m = v"
    using update_needs_row [OF assms(1) ld] by blast
  then have id: "ls_mailbox_id l = Some (mb_id m)" "mailbox_row (mb_id m) s = Some m"
    using mailbox_row_id by (auto split: option.splits)
  have own: "owned_lease p i s = Some l" "lease_active now l" using ld by (simp_all add: load_mailbox_first_Inr lease_active_def)
  have "''tokens:refresh:write'' \<in> set (scopes p)"
    using assms(1) by (rule contrapos_pp) (simp add: update_refresh_token_def require_scope_def run)
  then have sc: "require_scope ScopeDenied p ''tokens:refresh:write'' s = (Inr (), s)" by (simp add: require_scope_def run)
  have "dec (case mb_refresh_token_ciphertext m of None \<Rightarrow> [] | Some c \<Rightarrow> c) = Some rt \<and> ru_token_version res = v \<and> t = s"
    using assms ld mode m sc
    by (auto simp: update_refresh_token_def run write_audit_log_def write_audit_event_def split: option.splits if_splits)
  with own mode id m show ?thesis by blast
qed

text \<open>
  C24. A leaseholder's refresh token update is a compare-and-swap under an active refresh-token lease of the
  caller on an active mailbox whose stored token has the expected version. A reported update stored the encrypted
  token under the next version and dropped the cached access token, and no later call with the old version
  succeeds. A reported non-update changed nothing, and the stored token already is the presented one. A refusal
  changed nothing either.
\<close>

theorem leased_refresh_token_update:
  assumes "mailbox_ids_unique s" and "update_refresh_token dec enc dys now p i v rt s = (r, t)"
  shows "case r of
      Inl e \<Rightarrow> t = s
    | Inr res \<Rightarrow> \<exists>l m. owned_lease p i s = Some l \<and> lease_active now l \<and> ls_mode l = RefreshToken
        \<and> ls_mailbox_id l = Some (mb_id m) \<and> mailbox_row (mb_id m) s = Some m \<and> mb_status m = MbActive \<and> mb_token_version m = v
        \<and> (if ru_updated res
           then (\<exists>m'. mailbox_row (mb_id m) t = Some m' \<and> mb_refresh_token_ciphertext m' = Some (enc rt) \<and> mb_token_version m' = v + 1
                 \<and> mb_access_token_ciphertext m' = None) \<and> ru_token_version res = v + 1
              \<and> fst (update_refresh_token dec enc dys later p i v rt' t) \<notin> Inr ` UNIV
           else t = s \<and> dec (case mb_refresh_token_ciphertext m of None \<Rightarrow> [] | Some c \<Rightarrow> c) = Some rt \<and> ru_token_version res = v)"
proof (cases rule: update_refresh_token_cases [of dec enc dys now p i v rt s])
  case (same x)
  show ?thesis
  proof (cases r)
    case (Inl e)
    moreover have "t = s" using same(1) assms(2) by simp
    ultimately show ?thesis by simp
  next
    case (Inr res)
    with same assms(2) have "\<not> ru_updated res" by simp
    with update_unreported [OF assms(2) [unfolded Inr] this] show ?thesis by (simp add: Inr) blast
  qed
next
  case (swapped l m x)
  have r: "t = x" "r = Inr \<lparr>ru_lease_id = ls_id l, ru_mailbox_id = mb_id m, ru_updated = True, ru_token_version = v + 1\<rparr>"
    using swapped(8) assms(2) one_row [OF assms(1) swapped(3,7)] by simp_all
  let ?m = "replace_leased_refresh_token (enc rt) now (now + days dys) m"
  have "mailbox_row (mb_id m) t = mailbox_row (mb_id m) (s\<lparr>mailboxes := mailboxes x\<rparr>)" by (simp add: mailbox_row_def r(1))
  then have row: "mailbox_row (mb_id m) t = Some ?m" using swapped(3,7,9) by simp
  have "fst (update_refresh_token dec enc dys later p i v rt' t) \<notin> Inr ` UNIV"
  proof
    assume "fst (update_refresh_token dec enc dys later p i v rt' t) \<in> Inr ` UNIV"
    then obtain res' where "fst (update_refresh_token dec enc dys later p i v rt' t) = Inr res'" by blast
    then obtain u where "update_refresh_token dec enc dys later p i v rt' t = (Inr res', u)" by (metis prod.collapse)
    then obtain l' m' where "owned_lease p i t = Some l'"
      "(case ls_mailbox_id l' of None \<Rightarrow> None | Some j \<Rightarrow> mailbox_row j t) = Some m'" "mb_token_version m' = v"
      by (rule update_needs_version)
    moreover have "owned_lease p i t = Some l" using swapped(1,10) by (simp add: owned_lease_def r(1))
    moreover have "mb_token_version ?m = v + 1" by (simp add: swapped(7))
    ultimately show False using row swapped(2) by auto
  qed
  with swapped row show ?thesis unfolding r(2) by (simp, intro exI [of _ m]) simp
qed

theorem leased_refresh_token_update_witness:
  "\<exists>t m'. update_refresh_token Some (\<lambda>x. x) 90 5 sample_principal ''l'' 1 ''rt1''
        (empty_db\<lparr>mailboxes := [sample_mailbox ''m''], leases := [sample_lease ''l'' ''m'' RefreshToken]\<rparr>)
      = (Inr \<lparr>ru_lease_id = ''l'', ru_mailbox_id = ''m'', ru_updated = True, ru_token_version = 2\<rparr>, t)
    \<and> mailbox_row ''m'' t = Some m' \<and> mb_refresh_token_ciphertext m' = Some ''rt1'' \<and> mb_token_version m' = 2"
proof -
  let ?s = "empty_db\<lparr>mailboxes := [sample_mailbox ''m''], leases := [sample_lease ''l'' ''m'' RefreshToken]\<rparr>"
  have u: "mailbox_ids_unique ?s" by (simp add: mailbox_ids_unique_def)
  have m: "mailbox_row ''m'' ?s = Some (sample_mailbox ''m'')"
    and o1: "owned_lease sample_principal ''l'' ?s = Some (sample_lease ''l'' ''m'' RefreshToken)"
    by (simp_all add: mailbox_row_def row_by_def sample_fields owned_lease_def)
  have ld: "load_owned_lease_mailbox_first 5 sample_principal ''l'' True ?s = (Inr (sample_lease ''l'' ''m'' RefreshToken), ?s)"
    using m o1 by (simp add: load_mailbox_first_Inr present_def)
  have n: "rowcount (\<lambda>x. mb_id x = ''m'' \<and> mb_token_version x = 1) [sample_mailbox ''m''] = 1"
    by (simp add: rowcount_def sample_fields)
  have "fst (update_refresh_token Some (\<lambda>x. x) 90 5 sample_principal ''l'' 1 ''rt1'' ?s) =
      Inr \<lparr>ru_lease_id = ''l'', ru_mailbox_id = ''m'', ru_updated = True, ru_token_version = 2\<rparr>"
    using ld m n by (simp add: update_refresh_token_def require_scope_def run sample_fields write_audit_log_def write_audit_event_def)
  then obtain t where t: "update_refresh_token Some (\<lambda>x. x) 90 5 sample_principal ''l'' 1 ''rt1'' ?s =
      (Inr \<lparr>ru_lease_id = ''l'', ru_mailbox_id = ''m'', ru_updated = True, ru_token_version = 2\<rparr>, t)"
    by (metis prod.collapse)
  from leased_refresh_token_update [OF u t, of 9 "''rt2''"] t show ?thesis using o1 by auto
qed

end
