(* ===== verification/ProviderSelect.thy ===== *)
theory ProviderSelect
  imports LeaseRelease
begin

text \<open>
  Which provider types a \<open>mail_read\<close> acquire may draw from (\<open>lease_service.py\<close>:
  \<open>_normalize_provider_input_list\<close> and \<open>_resolve_mail_read_provider_candidates\<close>).
\<close>

datatype provider_input = NoProvider | OneProvider string | ManyProviders "string list"

definition provider_tokens :: "provider_input \<Rightarrow> string list" where
  "provider_tokens v = (case v of NoProvider \<Rightarrow> [] | OneProvider t \<Rightarrow> [t] | ManyProviders ts \<Rightarrow> ts)"

definition normalize_provider_input_list :: "provider_input \<Rightarrow> string list" where
  "normalize_provider_input_list v =
     dedup (filter (\<lambda>t. t \<noteq> [] \<and> t \<noteq> ''all'') (map strip_lower (provider_tokens v)))"

definition catalog_order :: "string list" where
  \<comment> \<open>microsoft first, then alphabetical\<close>
  "catalog_order = sort_key (\<lambda>t. (t \<noteq> default_provider_type, t)) all_provider_types"

fun requested_types :: "string list \<Rightarrow> string list \<Rightarrow> lease_error + string list" where
  \<comment> \<open>the loop over an explicit list; the second argument collects \<open>base_candidates\<close>\<close>
  "requested_types [] base = Inr base"
| "requested_types (raw # rest) base =
     (case normalize_provider_type raw of
        Inl e \<Rightarrow> Inl LeaseProviderUnsupported
      | Inr t \<Rightarrow>
          if t \<notin> set all_provider_types then Inl LeaseProviderUnsupported
          else requested_types rest (if t \<in> set base then base else base @ [t]))"

fun authorized_types :: "bool \<Rightarrow> principal \<Rightarrow> string list \<Rightarrow> lease_error + string list" where
  \<comment> \<open>the loop over \<open>filtered\<close>; the flag is \<open>explicit_provider_request and provider is not None\<close>\<close>
  "authorized_types explicit p [] = Inr []"
| "authorized_types explicit p (t # rest) =
     (if t \<notin> set all_provider_types then authorized_types explicit p rest
      else if requires_acquire_scope t \<and> provider_acquire_scope t \<notin> set (scopes p)
      then (if explicit then Inl (ScopeDenied (provider_acquire_scope t)) else authorized_types explicit p rest)
      else (case authorized_types explicit p rest of Inl e \<Rightarrow> Inl e | Inr ts \<Rightarrow> Inr (t # ts)))"

definition resolve_mail_read_provider_candidates ::
    "principal \<Rightarrow> provider_input \<Rightarrow> provider_input \<Rightarrow> bool \<Rightarrow> lease_error + string list" where
  "resolve_mail_read_provider_candidates p provider exclude explicit_request =
     (let excluded = normalize_provider_input_list exclude;
          raw_list = normalize_provider_input_list provider
      in if \<not> list_all (\<lambda>t. t \<in> set all_provider_types) excluded then Inl LeaseProviderUnsupported
         else
           case (if provider = NoProvider \<or> provider = ManyProviders [] \<or> raw_list = [] then Inr catalog_order
                 else requested_types raw_list []) of
             Inl e \<Rightarrow> Inl e
           | Inr base \<Rightarrow>
               (let filtered = filter (\<lambda>t. t \<notin> set excluded) base
                in if filtered = [] then Inl LeaseProviderUnsupported
                   else case authorized_types (explicit_request \<and> provider \<noteq> NoProvider) p filtered of
                          Inl e \<Rightarrow> Inl e
                        | Inr authorized \<Rightarrow> if authorized = [] then Inl LeaseProviderUnsupported else Inr authorized))"

subsection \<open>What comes out\<close>

lemma distinct_catalog: "distinct all_provider_types"
  by code_simp

lemma catalog_order_perm: "set catalog_order = set all_provider_types \<and> distinct catalog_order"
  by (simp only: catalog_order_def set_sort distinct_sort distinct_catalog simp_thms)

lemma requested_types_sound:
  "requested_types raws base = Inr out \<Longrightarrow> distinct base \<Longrightarrow> (\<forall>t \<in> set base. t \<in> set all_provider_types) \<Longrightarrow>
     distinct out \<and> (\<forall>t \<in> set out. t \<in> set all_provider_types)
     \<and> (\<forall>t. t \<in> set out \<longleftrightarrow> t \<in> set base \<or> (\<exists>raw \<in> set raws. normalize_provider_type raw = Inr t))"
proof (induction raws arbitrary: base)
  case (Cons raw rest)
  obtain t where n: "normalize_provider_type raw = Inr t"
    using Cons.prems(1) by (cases "normalize_provider_type raw") simp_all
  have k: "t \<in> set all_provider_types"
    using Cons.prems(1) n by (cases "t \<in> set all_provider_types") simp_all
  have t: "normalize_provider_type raw = Inr t" "t \<in> set all_provider_types"
    "requested_types rest (if t \<in> set base then base else base @ [t]) = Inr out"
    using Cons.prems(1) n k by simp_all
  let ?b = "if t \<in> set base then base else base @ [t]"
  have b: "distinct ?b" "\<forall>x \<in> set ?b. x \<in> set all_provider_types" "\<And>x. x \<in> set ?b \<longleftrightarrow> x \<in> set base \<or> x = t"
    using Cons.prems(2,3) t(2) by (cases "t \<in> set base"; simp; blast)+
  have ih: "distinct out" "\<forall>x \<in> set out. x \<in> set all_provider_types"
    "\<And>x. x \<in> set out \<longleftrightarrow> x \<in> set ?b \<or> (\<exists>raw \<in> set rest. normalize_provider_type raw = Inr x)"
    using Cons.IH [OF t(3) b(1,2)] by blast+
  have "x \<in> set out \<longleftrightarrow> x \<in> set base \<or> (\<exists>raw \<in> set (raw # rest). normalize_provider_type raw = Inr x)" for x
    unfolding ih(3) b(3) using t(1) by auto
  with ih(1,2) show ?case by blast
qed simp

definition may_acquire :: "principal \<Rightarrow> string \<Rightarrow> bool" where
  "may_acquire p t \<longleftrightarrow> requires_acquire_scope t \<longrightarrow> provider_acquire_scope t \<in> set (scopes p)"

lemma authorized_types_sound:
  "authorized_types explicit p ts = Inr out \<Longrightarrow>
     out = filter (\<lambda>t. t \<in> set all_provider_types \<and> may_acquire p t) ts
     \<and> (explicit \<longrightarrow> (\<forall>t \<in> set ts. t \<in> set all_provider_types \<longrightarrow> may_acquire p t))"
proof (induction ts arbitrary: out)
  case (Cons t rest)
  then show ?case
    by (cases "t \<in> set all_provider_types"; cases "may_acquire p t"; cases "authorized_types explicit p rest")
      (auto simp: may_acquire_def split: if_splits)
qed simp

text \<open>
  The candidate pool is exactly what the caller asked for and may have: provider types of the
  catalog, each once, none of the excluded ones, each either free of a scope or covered by the
  client's scopes; an explicit list is served whole (minus exclusions) or refused, never silently
  trimmed for lack of a scope, and without a list every permitted type of the catalog is in the pool.
\<close>

theorem provider_candidates_exact:
  assumes "resolve_mail_read_provider_candidates p provider exclude explicit_request = Inr cs"
  shows "cs \<noteq> [] \<and> distinct cs \<and> set cs \<subseteq> set all_provider_types
     \<and> set cs \<inter> set (normalize_provider_input_list exclude) = {}
     \<and> (\<forall>t \<in> set cs. t = default_provider_type \<or> provider_acquire_scope t \<in> set (scopes p))
     \<and> (normalize_provider_input_list provider = [] \<longrightarrow>
          (\<forall>t \<in> set all_provider_types. t \<in> set cs \<longleftrightarrow> t \<notin> set (normalize_provider_input_list exclude)
             \<and> (t = default_provider_type \<or> provider_acquire_scope t \<in> set (scopes p))))
     \<and> (normalize_provider_input_list provider \<noteq> [] \<and> explicit_request \<longrightarrow>
          set cs = {t. \<exists>raw \<in> set (normalize_provider_input_list provider). normalize_provider_type raw = Inr t}
                   - set (normalize_provider_input_list exclude))"
proof -
  let ?ex = "set (normalize_provider_input_list exclude)"
  let ?raw = "normalize_provider_input_list provider"
  obtain base where base: "(if provider = NoProvider \<or> provider = ManyProviders [] \<or> ?raw = [] then Inr catalog_order
        else requested_types ?raw []) = Inr base"
    and auth: "authorized_types (explicit_request \<and> provider \<noteq> NoProvider) p (filter (\<lambda>t. t \<notin> ?ex) base) = Inr cs"
    and ne: "cs \<noteq> []"
    using assms by (auto simp: resolve_mail_read_provider_candidates_def Let_def split: if_splits sum.splits)
  have empty: "?raw = []" if "provider = NoProvider \<or> provider = ManyProviders []"
    using that by (auto simp: normalize_provider_input_list_def provider_tokens_def)
  have b: "distinct base \<and> (\<forall>t \<in> set base. t \<in> set all_provider_types)"
  proof (cases "?raw = []")
    case True
    with base catalog_order_perm show ?thesis by auto
  next
    case False
    with base empty requested_types_sound [of ?raw "[]" base] show ?thesis by (auto split: if_splits)
  qed
  have all: "set base = set all_provider_types" if "?raw = []"
    using base that catalog_order_perm by simp
  have listed: "set base = {t. \<exists>raw \<in> set ?raw. normalize_provider_type raw = Inr t}" if "?raw \<noteq> []"
    using base that empty requested_types_sound [of ?raw "[]" base] by (auto split: if_splits)
  have ma: "may_acquire p t \<longleftrightarrow> t = default_provider_type \<or> provider_acquire_scope t \<in> set (scopes p)"
    if "t \<in> set all_provider_types" for t
    using that by (auto simp: may_acquire_def requires_acquire_scope_iff)
  have cs: "cs = filter (\<lambda>t. t \<in> set all_provider_types \<and> may_acquire p t) (filter (\<lambda>t. t \<notin> ?ex) base)"
    and full: "explicit_request \<and> provider \<noteq> NoProvider \<Longrightarrow> \<forall>t \<in> set base. t \<notin> ?ex \<longrightarrow> may_acquire p t"
    using authorized_types_sound [OF auth] b by auto
  have "distinct cs" "set cs \<subseteq> set all_provider_types" "set cs \<inter> ?ex = {}"
    "\<forall>t \<in> set cs. t = default_provider_type \<or> provider_acquire_scope t \<in> set (scopes p)"
    using b ma unfolding cs by auto
  moreover have "\<forall>t \<in> set all_provider_types. t \<in> set cs \<longleftrightarrow> t \<notin> ?ex
      \<and> (t = default_provider_type \<or> provider_acquire_scope t \<in> set (scopes p))" if "?raw = []"
    using all [OF that] ma unfolding cs by auto
  moreover have "set cs = {t. \<exists>raw \<in> set ?raw. normalize_provider_type raw = Inr t} - ?ex"
    if "?raw \<noteq> []" "explicit_request"
  proof -
    have "provider \<noteq> NoProvider" using that(1) empty by blast
    with full that(2) b show ?thesis unfolding listed [OF that(1), symmetric] cs by auto
  qed
  ultimately show ?thesis using ne by blast
qed

theorem provider_candidates_exact_witness:
  "set (normalize_provider_input_list (OneProvider ''all'')) = {}
   \<and> ''microsoft'' \<notin> set (normalize_provider_input_list (ManyProviders ['' SMSBower_Gmail '']))"
proof -
  let ?p = "\<lparr>client_key_id = ''k'', principal_name = ''n'', scopes = [''providers:smsbower_gmail:acquire'']\<rparr>"
  have n: "normalize_provider_input_list (ManyProviders ['' SMSBower_Gmail '']) = [''smsbower_gmail'']"
    "normalize_provider_input_list (OneProvider ''microsoft'') = [''microsoft'']"
    "normalize_provider_type ''smsbower_gmail'' = Inr ''smsbower_gmail''" by code_simp+
  have m: "''smsbower_gmail'' \<in> set all_provider_types" "''microsoft'' \<in> set all_provider_types"
    "provider_acquire_scope ''smsbower_gmail'' = ''providers:smsbower_gmail:acquire''" by code_simp+
  have "resolve_mail_read_provider_candidates ?p (ManyProviders ['' SMSBower_Gmail '']) (OneProvider ''microsoft'') True = Inr [''smsbower_gmail'']"
    by (simp add: resolve_mail_read_provider_candidates_def n m Let_def)
  from provider_candidates_exact [OF this] have "set [''smsbower_gmail''] \<inter> {''microsoft''} = {}" by (simp only: n list.set)
  moreover have "normalize_provider_input_list (OneProvider ''all'') = []" by code_simp
  ultimately show ?thesis by (simp add: n)
qed

end
