(* ===== verification/LeaseAcquire.thy ===== *)
theory LeaseAcquire
  imports ProviderSelect
begin

text \<open>
  Acquiring a lease (\<open>lease_service.py\<close>: \<open>acquire_lease\<close> and the functions below it): the selection
  of a mailbox, the SMSBower and on-demand paths, the access-token path with its compensation, and the
  search over several provider types. What the code draws from outside is one record: clock, fresh
  ids, the rows other transactions hold locked, random suffixes and shuffles, the cipher, the token
  service and the provisioning hook. Deadlocks are not modelled here, so \<open>run_with_mysql_lock_retry\<close>
  runs its body once (its own behaviour is in TxRetry).
\<close>

record provision_result =
  pv_address :: "string option"
  pv_external_resource_id :: "string option"
  pv_secret_payload :: "json option"
  pv_metadata :: "json option"

datatype provision_error = OnDemandError string | OtherProvisionError

record acquire_env =
  ae_now :: time
  ae_lease_id :: string
  ae_resource_id :: string
  ae_usage_id :: string
  ae_operation_id :: string
  ae_locked :: "string list"
  ae_draw :: "nat \<Rightarrow> string"
  ae_decrypt :: "string \<Rightarrow> string option"
  ae_encrypt :: "string \<Rightarrow> string"
  ae_dumps :: "json \<Rightarrow> string"
  ae_str :: "json \<Rightarrow> string"
  ae_ensure_access_token :: "string \<Rightarrow> (db, lease_error, access_token_result) action"
  ae_provision :: "(string \<Rightarrow> provision_error + provision_result) option"

record acquire_request =
  aq_mode :: lease_mode
  aq_ttl_seconds :: int
  aq_preferred_email :: "string option"
  aq_client_tag :: "string option"
  aq_purpose :: "string option"
  aq_use_plus_alias :: bool
  aq_preferred_alias_suffix :: "string option"
  aq_usage_site :: "string option"
  aq_provider :: provider_input
  aq_exclude_providers :: provider_input
  aq_explicit_provider_request :: bool

record acquire_result =
  ar_lease_id :: string
  ar_primary_email :: string
  ar_mode :: lease_mode
  ar_expires_at :: time
  ar_created_at :: time
  ar_mailbox_id :: "string option"
  ar_provider_resource_id :: "string option"
  ar_allocated_email :: "string option"
  ar_address_kind :: "address_kind option"
  ar_usage_site :: "string option"
  ar_provider_type :: "string option"
  ar_provider_instance_id :: "string option"
  ar_access_token :: "access_token_result option"
  ar_client_id :: "string option"
  ar_refresh_token :: "string option"
  ar_token_version :: "int option"

definition mode_value :: "lease_mode \<Rightarrow> string" where
  "mode_value m = (case m of RefreshToken \<Rightarrow> ''refresh_token'' | AccessToken \<Rightarrow> ''access_token'' | MailRead \<Rightarrow> ''mail_read'')"

definition kind_value :: "address_kind option \<Rightarrow> json" where
  "kind_value k = (case k of None \<Rightarrow> JNull | Some PrimaryAddress \<Rightarrow> JStr ''primary'' | Some PlusAlias \<Rightarrow> JStr ''plus_alias'')"

subsection \<open>Selecting a mailbox\<close>

definition mailbox_free :: "time \<Rightarrow> string \<Rightarrow> db \<Rightarrow> bool" where
  "mailbox_free now i s \<longleftrightarrow>
     \<not> list_ex (\<lambda>l. ls_mailbox_id l = Some i \<and> lease_active now l) (leases s)
     \<and> \<not> list_ex (\<lambda>c. lc_mailbox_id c = Some i \<and> claim_live now c) (claims s)"

definition normalized_preferred :: "string option \<Rightarrow> string option" where
  \<comment> \<open>\<open>None\<close> also for a preferred address that is empty, before or after normalization\<close>
  "normalized_preferred e =
     (case e of None \<Rightarrow> None | Some x \<Rightarrow> if strip_lower x = [] then None else Some (strip_lower x))"

definition mailbox_eligible ::
    "time \<Rightarrow> lease_mode \<Rightarrow> string \<Rightarrow> bool \<Rightarrow> string option \<Rightarrow> string option \<Rightarrow> db \<Rightarrow> mailbox \<Rightarrow> bool" where
  \<comment> \<open>the conjunction of the query's WHERE clauses\<close>
  "mailbox_eligible now mode provider_type wants_plus site preferred s m \<longleftrightarrow>
     mb_status m = MbActive \<and> mb_provider_type m = provider_type
     \<and> (wants_plus \<or> mailbox_free now (mb_id m) s)
     \<and> (provider_type = default_provider_type \<longrightarrow>
          mb_client_id m \<noteq> None \<and> mb_refresh_token_ciphertext m \<noteq> None)
     \<and> (mode = MailRead \<and> provider_type = default_provider_type \<longrightarrow>
          mb_capability m \<in> {Some CapImap, Some CapGraph}
          \<and> (present site \<and> \<not> wants_plus \<longrightarrow>
               \<not> list_ex (\<lambda>u. eu_allocated_email u = mb_primary_email m \<and> eu_usage_site_code u = the site
                              \<and> eu_revoked_at u = None) (site_usages s)))
     \<and> (case preferred of None \<Rightarrow> True | Some e \<Rightarrow> mb_primary_email m = e)"

definition select_mailbox :: "string list \<Rightarrow> (mailbox \<Rightarrow> bool) \<Rightarrow> db \<Rightarrow> mailbox option" where
  \<comment> \<open>\<open>ORDER BY updated_at, primary_email FOR UPDATE SKIP LOCKED\<close>, first row\<close>
  "select_mailbox locked p s =
     least_by (\<lambda>m. (mb_updated_at m, mb_primary_email m)) (filter (\<lambda>m. p m \<and> mb_id m \<notin> set locked) (mailboxes s))"

definition insert_lease :: "lease \<Rightarrow> (db, lease_error, unit) action" where
  "insert_lease l =
     bnd (asks leases) (\<lambda>ls.
     andthen (require (ls_id l \<notin> ls_id ` set ls) FlushConflict) (modify (\<lambda>s. s\<lparr>leases := leases s @ [l]\<rparr>)))"

definition unavailable_on_conflict :: "(db, lease_error, unit) action \<Rightarrow> (db, lease_error, unit) action" where
  \<comment> \<open>\<open>except IntegrityError as error: raise LeaseUnavailableError\<close>\<close>
  "unavailable_on_conflict m =
     catch m (\<lambda>e. if e = ClaimConflict then throw (LeaseUnavailable False)
                  else if e = FlushConflict then throw (LeaseUnavailable True) else throw e)"

subsection \<open>SMSBower: an available inventory resource\<close>

definition resource_available :: "string option \<Rightarrow> provider_resource \<Rightarrow> bool" where
  "resource_available preferred r \<longleftrightarrow>
     pr_provider_type r = ''smsbower_gmail'' \<and> pr_lifecycle_state r = Available \<and> pr_readiness r = Ready
     \<and> (case preferred of None \<Rightarrow> True | Some e \<Rightarrow> pr_primary_email r = e)"

definition select_resource :: "string list \<Rightarrow> string option \<Rightarrow> db \<Rightarrow> provider_resource option" where
  "select_resource locked preferred s =
     least_by (\<lambda>r. (pr_updated_at r, pr_primary_email r))
       (filter (\<lambda>r. resource_available preferred r \<and> pr_id r \<notin> set locked) (resources s))"

definition claim_resource :: "time \<Rightarrow> provider_resource \<Rightarrow> provider_resource" where
  "claim_resource now r = r\<lparr>pr_lifecycle_state := Claimed, pr_resource_generation := pr_resource_generation r + 1,
     pr_state_version := pr_state_version r + 1, pr_updated_at := now\<rparr>"

definition resource_lease :: "acquire_env \<Rightarrow> acquire_request \<Rightarrow> principal \<Rightarrow> string \<Rightarrow> string \<Rightarrow> string \<Rightarrow> string \<Rightarrow> lease" where
  \<comment> \<open>the lease of a non-owned resource\<close>
  "resource_lease env q p resource_id provider_type inst allocated =
     \<lparr>ls_id = ae_lease_id env, ls_mailbox_id = None, ls_provider_resource_id = Some resource_id,
      ls_client_key_id = Some (client_key_id p), ls_client_tag = aq_client_tag q, ls_purpose = aq_purpose q,
      ls_allocated_email = Some allocated, ls_mode = MailRead, ls_provider_type = provider_type,
      ls_provider_instance_id = Some inst, ls_provider_config_revision = None,
      ls_expires_at = ae_now env + secs (aq_ttl_seconds q), ls_released_at = None, ls_created_at = ae_now env\<rparr>"

definition resource_result :: "lease \<Rightarrow> string \<Rightarrow> string \<Rightarrow> string option \<Rightarrow> acquire_result" where
  "resource_result l resource_id allocated site =
     \<lparr>ar_lease_id = ls_id l, ar_primary_email = allocated, ar_mode = MailRead, ar_expires_at = ls_expires_at l,
      ar_created_at = ls_created_at l, ar_mailbox_id = None, ar_provider_resource_id = Some resource_id,
      ar_allocated_email = Some allocated, ar_address_kind = Some PrimaryAddress, ar_usage_site = site,
      ar_provider_type = Some (ls_provider_type l), ar_provider_instance_id = ls_provider_instance_id l,
      ar_access_token = None, ar_client_id = None, ar_refresh_token = None, ar_token_version = None\<rparr>"

definition record_optional_site ::
    "acquire_env \<Rightarrow> principal \<Rightarrow> string option \<Rightarrow> string \<Rightarrow> string \<Rightarrow> (db, lease_error, unit) action" where
  \<comment> \<open>\<open>if usage_site: try ... except Exception: pass\<close>\<close>
  "record_optional_site env p site allocated lease_id =
     (if \<not> present site then ret ()
      else catch (bnd (resolve_enabled_usage_site (the site)) (\<lambda>c.
                  record_email_site_usage (ae_usage_id env) (ae_now env) p allocated c None lease_id))
                 (\<lambda>_. ret ()))"

definition audit_resource_acquired :: "principal \<Rightarrow> lease \<Rightarrow> string \<Rightarrow> string \<Rightarrow> (db, lease_error, unit) action" where
  "audit_resource_acquired p l resource_id allocated =
     write_audit_log p ''lease.acquired'' (ls_id l)
       (JObj [(''provider_resource_id'', JStr resource_id), (''mode'', JStr ''mail_read''),
              (''provider_type'', JStr (ls_provider_type l)), (''allocated_email'', JStr allocated),
              (''expires_at'', JInt (ls_expires_at l))])"

definition acquire_smsbower_mail_read_lease ::
    "acquire_env \<Rightarrow> acquire_request \<Rightarrow> principal \<Rightarrow> string option \<Rightarrow> (db, lease_error, acquire_result) action" where
  "acquire_smsbower_mail_read_lease env q p site =
     bnd (asks (select_resource (ae_locked env) (normalized_preferred (aq_preferred_email q)))) (\<lambda>row. case row of
       None \<Rightarrow> throw (LeaseUnavailable False)
     | Some r \<Rightarrow>
         (let allocated = strip_lower (pr_primary_email r);
              l = resource_lease env q p (pr_id r) ''smsbower_gmail'' (pr_provider_instance_id r) allocated
          in andthen (modify (write_resource (claim_resource (ae_now env) r)))
            (andthen (insert_lease l)
            (andthen (unavailable_on_conflict (upsert_lease_claim (ae_now env) l (Some allocated)))
            (andthen (record_optional_site env p site allocated (ls_id l))
            (andthen (audit_resource_acquired p l (pr_id r) allocated)
              (ret (resource_result l (pr_id r) allocated site))))))))"

subsection \<open>On demand: a mailbox provisioned for the lease\<close>

definition provision_failure :: "provision_error \<Rightarrow> lease_error" where
  "provision_failure e =
     (case e of
        OnDemandError message \<Rightarrow>
          if contains message ''not enabled'' \<or> contains message ''missing required'' \<or> contains message ''not configured''
          then LeaseProviderNotConfigured else LeaseUnavailable False
      | OtherProvisionError \<Rightarrow> LeaseUnavailable False)"

definition provisioned_instance :: "(json \<Rightarrow> string) \<Rightarrow> json option \<Rightarrow> string" where
  "provisioned_instance str_of payload =
     (case payload of
        Some (JObj kvs) \<Rightarrow>
          (let v = jget (JObj kvs) ''instance_id''
           in if truthy v then (case v of JStr x \<Rightarrow> x | _ \<Rightarrow> str_of v) else ''default'')
      | _ \<Rightarrow> ''default'')"

definition acquire_on_demand_mail_read_lease ::
    "acquire_env \<Rightarrow> acquire_request \<Rightarrow> principal \<Rightarrow> string \<Rightarrow> string option \<Rightarrow> db \<Rightarrow> (db, lease_error, acquire_result) action" where
  \<comment> \<open>\<open>base\<close> is the database at the start of the session's transaction, where \<open>session.rollback()\<close> returns\<close>
  "acquire_on_demand_mail_read_lease env q p provider_type site base =
     (case ae_provision env of
        None \<Rightarrow> throw LeaseProviderNotConfigured
      | Some hook \<Rightarrow>
          (case hook provider_type of
             Inl e \<Rightarrow> throw (provision_failure e)
           | Inr v \<Rightarrow>
               (let address = strip_lower (case pv_address v of None \<Rightarrow> [] | Some a \<Rightarrow> a);
                    inst = provisioned_instance (ae_str env) (pv_secret_payload v);
                    r = \<lparr>pr_id = ae_resource_id env, pr_provider_type = provider_type, pr_provider_instance_id = inst,
                         pr_external_resource_id = (case pv_external_resource_id v of None \<Rightarrow> address
                            | Some x \<Rightarrow> if x = [] then address else x),
                         pr_primary_email = address, pr_lifecycle_state = Claimed, pr_readiness = Ready,
                         pr_state_version = 1, pr_resource_generation = 1,
                         pr_encrypted_secret = Some (ae_encrypt env (ae_dumps env
                            (case pv_secret_payload v of None \<Rightarrow> JObj [] | Some j \<Rightarrow> if truthy j then j else JObj []))),
                         pr_metadata_json = pv_metadata v, pr_last_verification_code = None, pr_last_code_checked_at = None, pr_last_code_message_id = None, pr_created_at = ae_now env, pr_updated_at = ae_now env\<rparr>;
                    l = resource_lease env q p (pr_id r) provider_type inst address
                in andthen (require (address \<noteq> [] \<and> CHR ''@'' \<in> set address) (LeaseUnavailable False))
                  (andthen (catch (andthen (insert_resource (throw FlushConflict) r)
                                  (andthen (insert_lease l) (upsert_lease_claim (ae_now env) l (Some address))))
                             (\<lambda>e. if e \<in> {FlushConflict, ClaimConflict}
                                  then andthen (modify (\<lambda>_. base)) (throw (LeaseUnavailable False)) else throw e))
                  (andthen (record_optional_site env p site address (ls_id l))
                  (andthen (audit_resource_acquired p l (pr_id r) address)
                    (ret (resource_result l (pr_id r) address site))))))))"

subsection \<open>An owned mailbox\<close>

definition mailbox_lease :: "acquire_env \<Rightarrow> acquire_request \<Rightarrow> principal \<Rightarrow> string \<Rightarrow> mailbox \<Rightarrow> string option \<Rightarrow> lease" where
  "mailbox_lease env q p provider_type m allocated =
     \<lparr>ls_id = ae_lease_id env, ls_mailbox_id = Some (mb_id m), ls_provider_resource_id = None,
      ls_client_key_id = Some (client_key_id p), ls_client_tag = aq_client_tag q, ls_purpose = aq_purpose q,
      ls_allocated_email = allocated, ls_mode = aq_mode q,
      ls_provider_type = (if mb_provider_type m \<noteq> [] then mb_provider_type m
                          else if provider_type \<noteq> [] then provider_type else default_provider_type),
      ls_provider_instance_id = None, ls_provider_config_revision = None,
      ls_expires_at = ae_now env + secs (aq_ttl_seconds q), ls_released_at = None, ls_created_at = ae_now env\<rparr>"

definition mailbox_result :: "lease \<Rightarrow> mailbox \<Rightarrow> string option \<Rightarrow> string option \<Rightarrow> acquire_result" where
  "mailbox_result l m allocated site =
     \<lparr>ar_lease_id = ls_id l, ar_primary_email = mb_primary_email m, ar_mode = ls_mode l, ar_expires_at = ls_expires_at l,
      ar_created_at = ls_created_at l, ar_mailbox_id = Some (mb_id m), ar_provider_resource_id = None,
      ar_allocated_email = allocated, ar_address_kind = classify_address_kind (mb_primary_email m) allocated,
      ar_usage_site = site, ar_provider_type = Some (ls_provider_type l),
      ar_provider_instance_id = ls_provider_instance_id l, ar_access_token = None, ar_client_id = None,
      ar_refresh_token = None, ar_token_version = None\<rparr>"

definition credential_result ::
    "acquire_env \<Rightarrow> bool \<Rightarrow> mailbox \<Rightarrow> acquire_result \<Rightarrow> (db, lease_error, acquire_result) action" where
  \<comment> \<open>the mode-specific credential of the result\<close>
  "credential_result env defer m res =
     (case ar_mode res of
        AccessToken \<Rightarrow>
          if defer then ret res
          else bnd (ae_ensure_access_token env (mb_id m)) (\<lambda>tk.
               ret (res\<lparr>ar_access_token := Some tk, ar_token_version := Some (at_token_version tk)\<rparr>))
      | RefreshToken \<Rightarrow>
          (case ae_decrypt env (case mb_refresh_token_ciphertext m of None \<Rightarrow> [] | Some c \<Rightarrow> c) of
             None \<Rightarrow> throw CredentialUnreadable
           | Some rt \<Rightarrow> ret (res\<lparr>ar_client_id := mb_client_id m, ar_refresh_token := Some rt,
                                 ar_token_version := Some (mb_token_version m)\<rparr>))
      | MailRead \<Rightarrow> ret res)"

definition allocate_address ::
    "acquire_env \<Rightarrow> acquire_request \<Rightarrow> bool \<Rightarrow> string option \<Rightarrow> mailbox \<Rightarrow> (db, lease_error, string option) action" where
  "allocate_address env q wants_plus site m =
     (if aq_mode q \<noteq> MailRead then ret None
      else if wants_plus
      then bnd (allocate_plus_alias (ae_draw env) (ae_now env) (mb_primary_email m) (aq_preferred_alias_suffix q) site
                  (aq_preferred_alias_suffix q \<noteq> None)) (\<lambda>a. ret (Some a))
      else ret (Some (strip_lower (mb_primary_email m))))"

definition audit_mailbox_acquired ::
    "principal \<Rightarrow> lease \<Rightarrow> mailbox \<Rightarrow> string option \<Rightarrow> string option \<Rightarrow> acquire_result \<Rightarrow> (db, lease_error, unit) action" where
  "audit_mailbox_acquired p l m allocated site res =
     write_audit_log p ''lease.acquired'' (ls_id l)
       (JObj [(''mailbox_id'', JStr (mb_id m)), (''mode'', JStr (mode_value (ls_mode l))),
              (''allocated_email'', jopt allocated), (''address_kind'', kind_value (ar_address_kind res)),
              (''usage_site'', jopt site), (''expires_at'', JInt (ls_expires_at l))])"

definition occupy_mailbox ::
    "acquire_env \<Rightarrow> acquire_request \<Rightarrow> principal \<Rightarrow> bool \<Rightarrow> string option \<Rightarrow> bool \<Rightarrow> string \<Rightarrow> mailbox
       \<Rightarrow> (db, lease_error, acquire_result) action" where
  \<comment> \<open>what follows the selection: address, lease, claim, site registration, credential, audit\<close>
  "occupy_mailbox env q p wants_plus site defer provider_type m =
     bnd (allocate_address env q wants_plus site m) (\<lambda>allocated.
     (let l = mailbox_lease env q p provider_type m allocated in
      andthen (modify (write_mailbox (m\<lparr>mb_updated_at := ae_now env\<rparr>)))
     (andthen (insert_lease l)
     (andthen (unavailable_on_conflict (upsert_lease_claim (ae_now env) l allocated))
     (andthen (if aq_mode q = MailRead \<and> present site \<and> present allocated
               then record_email_site_usage (ae_usage_id env) (ae_now env) p (the allocated) (the site) (Some (mb_id m)) (ls_id l)
               else ret ())
     (bnd (credential_result env defer m (mailbox_result l m allocated site)) (\<lambda>res.
      andthen (audit_mailbox_acquired p l m allocated site res) (ret res))))))))"

definition acquire_lease_body ::
    "acquire_env \<Rightarrow> acquire_request \<Rightarrow> principal \<Rightarrow> bool \<Rightarrow> string option \<Rightarrow> bool \<Rightarrow> string
       \<Rightarrow> (db, lease_error, acquire_result) action" where
  "acquire_lease_body env q p wants_plus site defer provider_type =
     (if provider_type = ''smsbower_gmail'' then
        andthen (require (aq_mode q = MailRead) LeaseModeMismatch)
       (andthen (require (\<not> wants_plus) LeaseModeMismatch)
         (acquire_smsbower_mail_read_lease env q p site))
      else
        (let preferred = normalized_preferred (aq_preferred_email q) in
         bnd (asks (\<lambda>s. select_mailbox (ae_locked env)
                          (mailbox_eligible (ae_now env) (aq_mode q) provider_type wants_plus site preferred s) s)) (\<lambda>row. case row of
           None \<Rightarrow>
             bnd (asks (\<lambda>s. aq_mode q = MailRead \<and> preferred \<noteq> None \<and> present site \<and> \<not> wants_plus
                            \<and> has_active_email_site_usage (the preferred) (the site) s)) (\<lambda>registered.
             throw (if registered then LeaseEmailSiteConflict else LeaseUnavailable False))
         | Some m \<Rightarrow> occupy_mailbox env q p wants_plus site defer provider_type m)))"

subsection \<open>The access token mode\<close>

definition access_token_result_of :: "acquire_result \<Rightarrow> access_token_result \<Rightarrow> acquire_result" where
  \<comment> \<open>the result is rebuilt from the reserved one and carries no provider or address fields\<close>
  "access_token_result_of reserved tk =
     reserved\<lparr>ar_mode := AccessToken, ar_provider_resource_id := None, ar_allocated_email := None, ar_address_kind := None,
       ar_usage_site := None, ar_provider_type := None, ar_provider_instance_id := None,
       ar_access_token := Some tk, ar_token_version := Some (at_token_version tk)\<rparr>"

definition acquire_access_token_lease ::
    "bool \<Rightarrow> acquire_env \<Rightarrow> acquire_request \<Rightarrow> principal \<Rightarrow> (db, lease_error, acquire_result) action" where
  \<comment> \<open>the flag: an independent session factory is available, so reserving and compensating commit on their own\<close>
  "acquire_access_token_lease factory env q p =
     (let own = (\<lambda>m. if factory then transaction m else m);
          release = (\<lambda>lease_id. andthen (if factory
             then transaction (bnd (release_lease_internal (ae_operation_id env) (ae_now env) p lease_id) (\<lambda>_. ret ()))
             else bnd (release_lease_internal (ae_operation_id env) (ae_now env) p lease_id) (\<lambda>_. ret ())) (ret ()))
      in bnd (own (acquire_lease_body env (q\<lparr>aq_mode := AccessToken, aq_use_plus_alias := False, aq_preferred_alias_suffix := None\<rparr>)
                     p False None True default_provider_type)) (\<lambda>reserved.
         bnd (catch (ae_ensure_access_token env (the (ar_mailbox_id reserved)))
                (\<lambda>e. andthen (release (ar_lease_id reserved)) (throw e))) (\<lambda>tk.
         ret (access_token_result_of reserved tk))))"

subsection \<open>One provider, and the search over several\<close>

definition resolve_request_site ::
    "lease_mode \<Rightarrow> string \<Rightarrow> bool \<Rightarrow> string option \<Rightarrow> (db, lease_error, string option) action" where
  "resolve_request_site mode provider_type wants_plus usage_site =
     (let given = (case usage_site of None \<Rightarrow> False | Some u \<Rightarrow> strip u \<noteq> []) in
      if mode = MailRead \<and> provider_type = default_provider_type then
        (if \<not> wants_plus then
           andthen (require given LeaseUsageSite)
             (bnd (resolve_enabled_usage_site (the usage_site)) (\<lambda>c. ret (Some c)))
         else if given then bnd (resolve_enabled_usage_site (the usage_site)) (\<lambda>c. ret (Some c))
         else ret None)
      else ret None)"

definition acquire_single_provider_lease ::
    "bool \<Rightarrow> acquire_env \<Rightarrow> acquire_request \<Rightarrow> principal \<Rightarrow> string \<Rightarrow> db \<Rightarrow> (db, lease_error, acquire_result) action" where
  "acquire_single_provider_lease factory env q p provider_type base =
     (let wants_plus = (aq_use_plus_alias q \<or> present (aq_preferred_alias_suffix q));
          given = (case aq_usage_site q of None \<Rightarrow> False | Some u \<Rightarrow> strip u \<noteq> [])
      in andthen (require (provider_type \<in> set all_provider_types) LeaseProviderUnsupported)
        (andthen (require (provider_type = default_provider_type \<or> \<not> wants_plus) LeaseModeMismatch)
        (bnd (resolve_request_site (aq_mode q) provider_type wants_plus (aq_usage_site q)) (\<lambda>site.
          if aq_mode q = AccessToken then acquire_access_token_lease factory env q p
          else if aq_mode q = MailRead \<and> provider_type \<in> set on_demand_provider_types
          then acquire_on_demand_mail_read_lease env q p provider_type (if given then site else None) base
          else acquire_lease_body env q p wants_plus site False provider_type))))"

definition plus_options_for_provider :: "acquire_request \<Rightarrow> string \<Rightarrow> acquire_request" where
  \<comment> \<open>alias options reach a candidate only when it is microsoft and the request wants an alias\<close>
  "plus_options_for_provider q provider_type =
     (if provider_type = default_provider_type \<and> (aq_use_plus_alias q \<or> present (aq_preferred_alias_suffix q))
      then q\<lparr>aq_use_plus_alias := True\<rparr>
      else q\<lparr>aq_use_plus_alias := False, aq_preferred_alias_suffix := None\<rparr>)"

fun try_providers ::
    "(nat \<Rightarrow> acquire_env) \<Rightarrow> bool \<Rightarrow> acquire_request \<Rightarrow> principal \<Rightarrow> db \<Rightarrow> nat \<Rightarrow> lease_error option \<Rightarrow> string list
       \<Rightarrow> (db, lease_error, acquire_result) action" where
  \<comment> \<open>both search loops: the candidate list is already shuffled, \<open>k\<close> counts the attempts\<close>
  "try_providers env factory q p base k prev [] =
     throw (case prev of None \<Rightarrow> LeaseUnavailable False | Some e \<Rightarrow> e)"
| "try_providers env factory q p base k prev (t # rest) =
     (if prev = Some (LeaseUnavailable True) then throw PendingRollback
      else catch (acquire_single_provider_lease factory (env k) (plus_options_for_provider q t) p t base)
        (\<lambda>e. case e of
           LeaseUnavailable b \<Rightarrow> try_providers env factory q p base (Suc k) (Some (LeaseUnavailable b)) rest
         | LeaseUsageSite \<Rightarrow> try_providers env factory q p base (Suc k) (Some LeaseUsageSite) rest
         | LeaseProviderNotConfigured \<Rightarrow> try_providers env factory q p base (Suc k) (Some LeaseProviderNotConfigured) rest
         | _ \<Rightarrow> throw e))"

definition single_mode_provider :: "provider_input \<Rightarrow> lease_error + string" where
  \<comment> \<open>the provider of an access- or refresh-token request\<close>
  "single_mode_provider v =
     (case v of
        ManyProviders ts \<Rightarrow> if length ts \<noteq> 1 then Inl LeaseProviderUnsupported
          else if hd ts = [] then Inr default_provider_type
          else (case normalize_provider_type (hd ts) of Inl _ \<Rightarrow> Inl LeaseProviderUnsupported | Inr t \<Rightarrow> Inr t)
      | OneProvider raw \<Rightarrow> if raw = [] then Inr default_provider_type
          else (case normalize_provider_type raw of Inl _ \<Rightarrow> Inl LeaseProviderUnsupported | Inr t \<Rightarrow> Inr t)
      | NoProvider \<Rightarrow> Inr default_provider_type)"

definition input_given :: "provider_input \<Rightarrow> bool" where
  \<comment> \<open>truthiness of a \<open>str | list | None\<close>\<close>
  "input_given v = (case v of NoProvider \<Rightarrow> False | OneProvider t \<Rightarrow> t \<noteq> [] | ManyProviders ts \<Rightarrow> ts \<noteq> [])"

definition acquire_lease ::
    "(nat \<Rightarrow> acquire_env) \<Rightarrow> (string list \<Rightarrow> string list) \<Rightarrow> bool \<Rightarrow> acquire_request \<Rightarrow> principal
       \<Rightarrow> (db, lease_error, acquire_result) action" where
  "acquire_lease env shuffle factory q p =
     bnd (asks (\<lambda>s. s)) (\<lambda>base.
     if aq_mode q \<noteq> MailRead then
       andthen (require_scope ScopeDenied p ''leases:acquire'')
      (andthen (require_scope ScopeDenied p
                  (if aq_mode q = AccessToken then ''tokens:access:read'' else ''tokens:refresh:read''))
      (andthen (require (\<not> aq_use_plus_alias q \<and> \<not> present (aq_preferred_alias_suffix q)) LeaseModeMismatch)
      (andthen (require (\<not> present (aq_usage_site q)) LeaseModeMismatch)
      (andthen (require (\<not> input_given (aq_exclude_providers q)) LeaseModeMismatch)
        (case single_mode_provider (aq_provider q) of
           Inl e \<Rightarrow> throw e
         | Inr t \<Rightarrow>
             andthen (require (t = default_provider_type) LeaseProviderUnsupported)
               (acquire_single_provider_lease factory (env 0)
                  (q\<lparr>aq_use_plus_alias := False, aq_preferred_alias_suffix := None, aq_usage_site := None\<rparr>) p t base))))))
     else
       andthen (require_scope ScopeDenied p ''mailboxes:acquire'')
         (case resolve_mail_read_provider_candidates p (aq_provider q) (aq_exclude_providers q)
                 (aq_explicit_provider_request q) of
            Inl e \<Rightarrow> throw e
          | Inr candidates \<Rightarrow>
              if length candidates = 1
              then acquire_single_provider_lease factory (env 0) (plus_options_for_provider q (hd candidates)) p (hd candidates) base
              else try_providers env factory q p base 0 None (shuffle candidates)))"

subsection \<open>Fields of the rows and results built above\<close>

lemma present_simps [simp]: "present None = False" "present (Some v) = (v \<noteq> [])"
  by (simp_all add: present_def)

lemma mailbox_lease_fields [simp]:
  "ls_id (mailbox_lease env q p t m a) = ae_lease_id env" "ls_mailbox_id (mailbox_lease env q p t m a) = Some (mb_id m)"
  "ls_provider_resource_id (mailbox_lease env q p t m a) = None" "ls_released_at (mailbox_lease env q p t m a) = None"
  "ls_client_key_id (mailbox_lease env q p t m a) = Some (client_key_id p)" "ls_mode (mailbox_lease env q p t m a) = aq_mode q"
  "ls_allocated_email (mailbox_lease env q p t m a) = a"
  "ls_expires_at (mailbox_lease env q p t m a) = ae_now env + secs (aq_ttl_seconds q)"
  by (simp_all add: mailbox_lease_def)

lemma resource_lease_fields [simp]:
  "ls_id (resource_lease env q p i t inst a) = ae_lease_id env" "ls_mailbox_id (resource_lease env q p i t inst a) = None"
  "ls_provider_resource_id (resource_lease env q p i t inst a) = Some i" "ls_released_at (resource_lease env q p i t inst a) = None"
  "ls_client_key_id (resource_lease env q p i t inst a) = Some (client_key_id p)"
  "ls_mode (resource_lease env q p i t inst a) = MailRead" "ls_allocated_email (resource_lease env q p i t inst a) = Some a"
  "ls_expires_at (resource_lease env q p i t inst a) = ae_now env + secs (aq_ttl_seconds q)"
  by (simp_all add: resource_lease_def)

lemma mailbox_result_fields [simp]:
  "ar_lease_id (mailbox_result l m a site) = ls_id l" "ar_mailbox_id (mailbox_result l m a site) = Some (mb_id m)"
  "ar_mode (mailbox_result l m a site) = ls_mode l" "ar_expires_at (mailbox_result l m a site) = ls_expires_at l"
  "ar_allocated_email (mailbox_result l m a site) = a"
  by (simp_all add: mailbox_result_def)

lemma resource_result_fields [simp]:
  "ar_lease_id (resource_result l i a site) = ls_id l" "ar_mailbox_id (resource_result l i a site) = None"
  "ar_provider_resource_id (resource_result l i a site) = Some i" "ar_expires_at (resource_result l i a site) = ls_expires_at l"
  by (simp_all add: resource_result_def)

end
