(* ===== verification/LeaseReacquire.thy ===== *)
theory LeaseReacquire
  imports LeaseAcquire
begin

text \<open>
  Re-opening a mail-read lease on an address the client held before
  (\<open>lease_service.py\<close>: \<open>reacquire_lease_by_email\<close>): the history gate, the rules for addresses in use,
  renewal of the caller's own active lease and the new lease otherwise.
\<close>

fun scan_active_leases :: "string \<Rightarrow> string \<Rightarrow> bool \<Rightarrow> lease option \<Rightarrow> lease list \<Rightarrow> lease_error + lease option" where
  \<comment> \<open>the loop over the mailbox's active leases; the third argument: the address is a plus alias\<close>
  "scan_active_leases client allocated alias own [] = Inr own"
| "scan_active_leases client allocated alias own (l # rest) =
     (let same_owner = (ls_client_key_id l = Some client);
          same_mode = (ls_mode l = MailRead);
          same_allocated = (strip_lower (case ls_allocated_email l of None \<Rightarrow> [] | Some a \<Rightarrow> a) = allocated)
      in if same_owner \<and> same_mode \<and> same_allocated then scan_active_leases client allocated alias (Some l) rest
         else if same_allocated then Inl LeaseMailboxBusy
         else if alias then scan_active_leases client allocated alias own rest
         else Inl LeaseMailboxBusy)"

definition active_leases_of :: "time \<Rightarrow> string \<Rightarrow> db \<Rightarrow> lease list" where
  "active_leases_of now i s = filter (\<lambda>l. ls_mailbox_id l = Some i \<and> lease_active now l) (leases s)"

definition reacquirable_mailbox :: "string list \<Rightarrow> string \<Rightarrow> (db, lease_error, mailbox) action" where
  \<comment> \<open>the locked mailbox row and the checks on it\<close>
  "reacquirable_mailbox locked i =
     bnd (asks (mailbox_row i)) (\<lambda>row. case row of
       None \<Rightarrow> throw LeaseEmailNotFound
     | Some m \<Rightarrow>
         andthen (require (i \<notin> set locked) LeaseMailboxBusy)
        (andthen (require (mb_status m = MbActive) (LeaseUnavailable False))
        (andthen (require (mb_capability m \<in> {Some CapImap, Some CapGraph}) (LeaseUnavailable False))
        (andthen (require (mb_client_id m \<noteq> None \<and> present (mb_refresh_token_ciphertext m)) (LeaseUnavailable False))
          (ret m)))))"

definition renewed_lease :: "time \<Rightarrow> int \<Rightarrow> string option \<Rightarrow> string option \<Rightarrow> lease \<Rightarrow> lease" where
  "renewed_lease now ttl_seconds client_tag purpose l =
     l\<lparr>ls_expires_at := now + secs ttl_seconds,
       ls_client_tag := (case client_tag of None \<Rightarrow> ls_client_tag l | Some x \<Rightarrow> Some x),
       ls_purpose := (case purpose of None \<Rightarrow> ls_purpose l | Some x \<Rightarrow> Some x)\<rparr>"

definition reopened_lease :: "acquire_env \<Rightarrow> principal \<Rightarrow> int \<Rightarrow> string option \<Rightarrow> string option \<Rightarrow> mailbox \<Rightarrow> string \<Rightarrow> lease" where
  "reopened_lease env p ttl_seconds client_tag purpose m allocated =
     \<lparr>ls_id = ae_lease_id env, ls_mailbox_id = Some (mb_id m), ls_provider_resource_id = None,
      ls_client_key_id = Some (client_key_id p), ls_client_tag = client_tag, ls_purpose = purpose,
      ls_allocated_email = Some allocated, ls_mode = MailRead,
      ls_provider_type = (if mb_provider_type m \<noteq> [] then mb_provider_type m else ''microsoft''),
      ls_provider_instance_id = None, ls_provider_config_revision = None,
      ls_expires_at = ae_now env + secs ttl_seconds, ls_released_at = None, ls_created_at = ae_now env\<rparr>"

definition reacquire_result :: "lease \<Rightarrow> mailbox \<Rightarrow> string \<Rightarrow> address_kind \<Rightarrow> acquire_result" where
  \<comment> \<open>no provider fields, no usage site and no token\<close>
  "reacquire_result l m allocated kind =
     \<lparr>ar_lease_id = ls_id l, ar_primary_email = mb_primary_email m, ar_mode = MailRead, ar_expires_at = ls_expires_at l,
      ar_created_at = ls_created_at l, ar_mailbox_id = Some (mb_id m), ar_provider_resource_id = None,
      ar_allocated_email = Some allocated, ar_address_kind = Some kind, ar_usage_site = None, ar_provider_type = None,
      ar_provider_instance_id = None, ar_access_token = None, ar_client_id = None, ar_refresh_token = None,
      ar_token_version = None\<rparr>"

definition audit_reacquired :: "principal \<Rightarrow> lease \<Rightarrow> mailbox \<Rightarrow> string \<Rightarrow> address_kind \<Rightarrow> bool \<Rightarrow> (db, lease_error, unit) action" where
  "audit_reacquired p l m allocated kind renewed =
     write_audit_log p ''lease.reacquired'' (ls_id l)
       (JObj [(''mailbox_id'', JStr (mb_id m)), (''mode'', JStr (mode_value (ls_mode l))),
              (''allocated_email'', JStr allocated), (''address_kind'', kind_value (Some kind)),
              (''renewed'', JBool renewed), (''expires_at'', JInt (ls_expires_at l))])"

definition reacquire_lease_by_email ::
    "acquire_env \<Rightarrow> principal \<Rightarrow> string \<Rightarrow> int \<Rightarrow> string option \<Rightarrow> string option
       \<Rightarrow> (db, lease_error, acquire_result) action" where
  "reacquire_lease_by_email env p email ttl_seconds client_tag purpose =
     (let normalized = strip_lower email in
      andthen (require_scope ScopeDenied p ''mailboxes:reacquire'')
     (andthen (require (normalized \<noteq> []) LeaseValueError)
     (bnd (resolve_reacquire_email normalized) (\<lambda>(mailbox_id, allocated, kind).
      bnd (asks (client_has_mail_read_history (client_key_id p) allocated)) (\<lambda>history.
      andthen (require history LeaseEmailNotFound)
     (bnd (reacquirable_mailbox (ae_locked env) mailbox_id) (\<lambda>m.
      bnd (asks (\<lambda>s. scan_active_leases (client_key_id p) allocated (kind = PlusAlias) None
                       (active_leases_of (ae_now env) (mb_id m) s))) (\<lambda>scan. case scan of
        Inl e \<Rightarrow> throw e
      | Inr (Some own) \<Rightarrow>
          (let l = renewed_lease (ae_now env) ttl_seconds client_tag purpose own in
           andthen (modify (write_lease l))
          (andthen (upsert_lease_claim (ae_now env) l (Some allocated))
          (andthen (audit_reacquired p l m allocated kind True)
            (ret (reacquire_result l m allocated kind)))))
      | Inr None \<Rightarrow>
          (let l = reopened_lease env p ttl_seconds client_tag purpose m allocated in
           andthen (insert_lease l)
          (andthen (upsert_lease_claim (ae_now env) l (Some allocated))
          (andthen (audit_reacquired p l m allocated kind False)
            (ret (reacquire_result l m allocated kind)))))))))))))"

lemma reopened_lease_fields [simp]:
  "ls_id (reopened_lease env p ttl tag pur m a) = ae_lease_id env" "ls_mailbox_id (reopened_lease env p ttl tag pur m a) = Some (mb_id m)"
  "ls_provider_resource_id (reopened_lease env p ttl tag pur m a) = None" "ls_released_at (reopened_lease env p ttl tag pur m a) = None"
  "ls_client_key_id (reopened_lease env p ttl tag pur m a) = Some (client_key_id p)" "ls_mode (reopened_lease env p ttl tag pur m a) = MailRead"
  "ls_allocated_email (reopened_lease env p ttl tag pur m a) = Some a"
  "ls_expires_at (reopened_lease env p ttl tag pur m a) = ae_now env + secs ttl"
  by (simp_all add: reopened_lease_def)

lemma renewed_lease_fields [simp]:
  "ls_id (renewed_lease now ttl tag pur l) = ls_id l" "ls_mailbox_id (renewed_lease now ttl tag pur l) = ls_mailbox_id l"
  "ls_provider_resource_id (renewed_lease now ttl tag pur l) = ls_provider_resource_id l"
  "ls_released_at (renewed_lease now ttl tag pur l) = ls_released_at l"
  "ls_client_key_id (renewed_lease now ttl tag pur l) = ls_client_key_id l" "ls_mode (renewed_lease now ttl tag pur l) = ls_mode l"
  "ls_allocated_email (renewed_lease now ttl tag pur l) = ls_allocated_email l"
  "ls_expires_at (renewed_lease now ttl tag pur l) = now + secs ttl"
  by (simp_all add: renewed_lease_def)

lemma reacquire_result_fields [simp]:
  "ar_lease_id (reacquire_result l m a k) = ls_id l" "ar_mailbox_id (reacquire_result l m a k) = Some (mb_id m)"
  "ar_expires_at (reacquire_result l m a k) = ls_expires_at l" "ar_allocated_email (reacquire_result l m a k) = Some a"
  "ar_address_kind (reacquire_result l m a k) = Some k"
  by (simp_all add: reacquire_result_def)

end
