(* ===== verification/LeaseOccupancy.thy ===== *)
theory LeaseOccupancy
  imports LeaseReacquire
begin

text \<open>
  The occupancy invariant of the lease tables and that acquiring, re-acquiring and releasing keep it:
  at most one exclusive live claim per mailbox or resource (\<open>claims_ok\<close>), every claim on an existing
  holder, and every claim the exact image of an unreleased lease.
\<close>

definition holder_exists :: "string option \<Rightarrow> string option \<Rightarrow> db \<Rightarrow> bool" where
  "holder_exists mailbox_id resource_id s \<longleftrightarrow>
     (if present mailbox_id then mailbox_row (the mailbox_id) s \<noteq> None
      else present resource_id \<longrightarrow> resource_row (the resource_id) s \<noteq> None)"

definition lease_backs :: "lease \<Rightarrow> lease_claim \<Rightarrow> bool" where
  "lease_backs l c \<longleftrightarrow> ls_id l = lc_lease_id c \<and> ls_released_at l = None \<and> ls_expires_at l = lc_expires_at c
     \<and> ls_mailbox_id l = lc_mailbox_id c \<and> ls_provider_resource_id l = lc_provider_resource_id c
     \<and> ls_client_key_id l = lc_client_key_id c \<and> ls_mode l = lc_mode c"

definition occupancy_ok :: "time \<Rightarrow> db \<Rightarrow> bool" where
  "occupancy_ok now s \<longleftrightarrow> claims_ok now s \<and> distinct (map ls_id (leases s))
     \<and> distinct (map mb_id (mailboxes s)) \<and> [] \<notin> mb_id ` set (mailboxes s) \<and> distinct (map pr_id (resources s))
     \<and> (\<forall>c \<in> set (claims s). holder_exists (lc_mailbox_id c) (lc_provider_resource_id c) s
          \<and> (\<exists>l \<in> set (leases s). lease_backs l c))"

lemma occupancy_ok_claims: "occupancy_ok now s \<Longrightarrow> claims_ok now s"
  by (simp add: occupancy_ok_def)

lemma occupancy_claim:
  assumes "occupancy_ok now s" and "c \<in> set (claims s)"
  shows "holder_exists (lc_mailbox_id c) (lc_provider_resource_id c) s"
    and "\<exists>l \<in> set (leases s). lease_backs l c"
  using assms by (simp_all add: occupancy_ok_def)

lemma occupancy_ids: "occupancy_ok now s \<Longrightarrow> mailbox_row i s = Some m \<Longrightarrow> i \<noteq> []"
  by (auto simp: occupancy_ok_def rev_image_eqI dest!: mailbox_row_id)

lemma occupancy_ok_later: "occupancy_ok now s \<Longrightarrow> now \<le> now' \<Longrightarrow> occupancy_ok now' s"
  using claims_ok_later by (auto simp: occupancy_ok_def)

lemma claim_has_lease:
  assumes "occupancy_ok now s" and "c \<in> set (claims s)" and "l \<in> set (leases s)" and "ls_id l = lc_lease_id c"
  shows "lease_backs l c"
proof -
  obtain l' where l': "l' \<in> set (leases s)" "lease_backs l' c" using assms(1,2) by (auto simp: occupancy_ok_def)
  have "distinct (map ls_id (leases s))" using assms(1) by (simp add: occupancy_ok_def)
  with l' assms(3,4) have "l' = l" by (metis distinct_map inj_onD lease_backs_def)
  with l' show ?thesis by simp
qed

subsection \<open>Quiet operations: holders keep their addresses, claims and leases stay\<close>

definition keys_kept :: "db \<Rightarrow> db \<Rightarrow> bool" where
  "keys_kept s t \<longleftrightarrow> (distinct (map mb_id (mailboxes s)) \<longrightarrow> distinct (map mb_id (mailboxes t)))
     \<and> ([] \<notin> mb_id ` set (mailboxes s) \<longrightarrow> [] \<notin> mb_id ` set (mailboxes t))
     \<and> (distinct (map pr_id (resources s)) \<longrightarrow> distinct (map pr_id (resources t)))"

interpretation ky: frame_relation keys_kept
  by unfold_locales (auto simp: keys_kept_def)

lemma put_row_keys [simp]: "key ` set (put_row key r rows) = key ` set rows"
  by (metis list.set_map map_key_put_row)

lemma ky_writes: "keys_kept s (write_mailbox m s)" "keys_kept s (write_resource r s)"
  by (simp_all add: keys_kept_def write_mailbox_def write_resource_def)

lemma ky_same: "mailboxes t = mailboxes s \<Longrightarrow> resources t = resources s \<Longrightarrow> keys_kept s t"
  by (simp add: keys_kept_def)

definition quiet :: "db \<Rightarrow> db \<Rightarrow> bool" where
  "quiet s t \<longleftrightarrow> claims t = claims s \<and> leases t = leases s \<and> keys_kept s t
     \<and> (\<forall>i m. mailbox_row i s = Some m \<longrightarrow> (\<exists>m'. mailbox_row i t = Some m' \<and> mb_primary_email m' = mb_primary_email m))
     \<and> (\<forall>i r. resource_row i s = Some r \<longrightarrow> (\<exists>r'. resource_row i t = Some r' \<and> pr_primary_email r' = pr_primary_email r))"

interpretation qt: frame_relation quiet
  by unfold_locales (simp add: quiet_def ky.refl, fastforce simp: quiet_def dest: ky.trans)

lemma quiet_holder: "quiet s t \<Longrightarrow> holder_exists m r s \<Longrightarrow> holder_exists m r t"
  by (fastforce simp: quiet_def holder_exists_def split: if_splits)

lemma quiet_primary:
  assumes "quiet s t" and "holder_exists m r s"
  shows "holder_primary m r t = holder_primary m r s"
proof (cases "present m")
  case True
  with assms(2) obtain x where "mailbox_row (the m) s = Some x" by (auto simp: holder_exists_def)
  moreover then obtain y where "mailbox_row (the m) t = Some y" "mb_primary_email y = mb_primary_email x"
    using assms(1) by (fastforce simp: quiet_def)
  ultimately show ?thesis using True by (simp add: holder_primary_def)
next
  case False
  show ?thesis
  proof (cases "present r")
    case True
    with False assms(2) obtain x where "resource_row (the r) s = Some x" by (auto simp: holder_exists_def)
    moreover then obtain y where "resource_row (the r) t = Some y" "pr_primary_email y = pr_primary_email x"
      using assms(1) by (fastforce simp: quiet_def)
    ultimately show ?thesis using True False by (simp add: holder_primary_def)
  qed (use False in \<open>simp add: holder_primary_def\<close>)
qed

lemma quiet_occupancy: "occupancy_ok now s \<Longrightarrow> quiet s t \<Longrightarrow> occupancy_ok now t"
proof -
  assume s: "occupancy_ok now s" and q: "quiet s t"
  have eq: "claims t = claims s" "leases t = leases s" using q by (simp_all add: quiet_def)
  have "claims_ok now t"
    by (rule claims_ok_cong [of now s]) (use s q eq in \<open>auto simp: occupancy_ok_def same_primaries_def intro: quiet_primary\<close>)
  moreover have "keys_kept s t" using q by (simp add: quiet_def)
  ultimately show ?thesis using s q eq by (auto simp: occupancy_ok_def keys_kept_def intro: quiet_holder)
qed

lemma quiet_of_occupancy: "same_occupancy s t \<Longrightarrow> leases t = leases s \<Longrightarrow> keys_kept s t \<Longrightarrow> quiet s t"
  unfolding same_occupancy_def quiet_def by (metis option.map_disc_iff option.map_sel not_None_eq option.sel)

lemma steps_quiet: "steps same_occupancy m \<Longrightarrow> steps lease_tables_same m \<Longrightarrow> steps keys_kept m \<Longrightarrow> steps quiet m"
  by (rule stepsI) (auto intro!: quiet_of_occupancy dest: stepsD simp: lease_tables_same_def)

lemma quietI:
  "claims t = claims s \<Longrightarrow> leases t = leases s \<Longrightarrow> mailboxes t = mailboxes s \<Longrightarrow> resources t = resources s \<Longrightarrow> quiet s t"
  by (simp add: quiet_def mailbox_row_def resource_row_def ky_same)

lemma ky_audit: "steps keys_kept (write_audit_event x1 x2 x3 x4 x5 x6 x7)" "steps keys_kept (write_audit_log p ev i md)"
  by (auto intro!: stepsI ky_same simp: write_audit_log_def write_audit_event_def run)

lemma ky_create: "steps keys_kept (create_pending_operation n now q)"
  by (rule stepsI) (auto simp: create_pending_operation_def insert_operation_def run Let_def intro: ky_same split: option.split)

lemma ky_release_provider: "steps keys_kept (release_provider_side op now p l)"
  unfolding release_provider_side_def begin_release_operation_def Let_def
  by (intro ky.rules ky_create ky_audit ky.modify ky_writes)

lemma qt_audit: "steps quiet (write_audit_event x1 x2 x3 x4 x5 x6 x7)" "steps quiet (write_audit_log p ev i md)"
  by (auto intro!: steps_quiet occ_audit lts_audit ky_audit)

lemma qt_scope: "steps quiet (require_scope e p sc)"
  unfolding require_scope_def by (rule qt.require)

lemma qt_write_mailbox: "mailbox_row (mb_id m) s = Some q \<Longrightarrow> mb_primary_email m = mb_primary_email q \<Longrightarrow> quiet s (write_mailbox m s)"
  by (rule quiet_of_occupancy, rule same_occupancy_put_mailbox, assumption+)
    (simp_all add: write_mailbox_def keys_kept_def)

lemma qt_write_resource: "resource_row (pr_id r) s = Some q \<Longrightarrow> pr_primary_email r = pr_primary_email q \<Longrightarrow> quiet s (write_resource r s)"
  by (rule quiet_of_occupancy, rule same_occupancy_put_resource [of r s q]) (simp_all add: write_resource_def keys_kept_def)

lemma qt_insert_resource: "steps quiet (insert_resource (throw e) r)"
proof (rule stepsI)
  fix s
  show "quiet s (snd (insert_resource (throw e) r s))"
    by (auto simp: insert_resource_def run quiet_def keys_kept_def mailbox_row_def resource_row_def row_by_append)
qed

lemma qt_release_provider: "steps quiet (release_provider_side op now p l)"
  by (intro steps_quiet release_provider_occ release_provider_lts ky_release_provider)

lemma qt_resolve_site: "steps quiet (resolve_enabled_usage_site x)"
  unfolding resolve_enabled_usage_site_def Let_def by (intro qt.rules)

lemma qt_record_site: "steps quiet (record_email_site_usage n now p a c mb l)"
  unfolding record_email_site_usage_def Let_def
  by (intro qt.rules qt.modify qt_audit) (auto intro: quietI simp: write_usage_def)

lemma qt_record_optional: "steps quiet (record_optional_site env p site a l)"
  unfolding record_optional_site_def by (intro qt.rules qt_resolve_site qt_record_site)

lemma qt_plus_alias: "steps quiet (allocate_plus_alias draw now e sfx site explicit)"
  unfolding allocate_plus_alias_def Let_def by (intro qt.rules)

lemma qt_loads: "steps quiet (load_owned_lease now p i b)" "steps quiet (load_owned_lease_mailbox_first now p i b)"
  unfolding load_owned_lease_def load_owned_lease_mailbox_first_def by (intro qt.rules)+

lemmas quiet_rules = qt.rules qt_audit qt_scope qt_resolve_site qt_record_site qt_record_optional
  qt_plus_alias qt_loads qt_release_provider qt_insert_resource

subsection \<open>Creating a lease with its claim\<close>

definition claimable :: "(db \<Rightarrow> bool) \<Rightarrow> principal \<Rightarrow> lease \<Rightarrow> db \<Rightarrow> bool" where
  \<comment> \<open>the invariant, and a running lease of the caller with its holder in its table\<close>
  "claimable I p l s \<longleftrightarrow> I s \<and> ls_released_at l = None \<and> ls_client_key_id l = Some (client_key_id p)
     \<and> holder_exists (ls_mailbox_id l) (ls_provider_resource_id l) s"

lemma insert_lease_run [run]:
  "insert_lease l s = (if ls_id l \<in> ls_id ` set (leases s) then (Inl FlushConflict, s)
     else (Inr (), s\<lparr>leases := leases s @ [l]\<rparr>))"
  by (simp add: insert_lease_def run)

lemma claims_ok_leases [simp]: "claims_ok now (s\<lparr>leases := ls\<rparr>) = claims_ok now s"
  by (simp add: claims_ok_def exclusive_claim_def holder_primary_def mailbox_row_def resource_row_def)

lemma holder_exists_tables [simp]:
  "holder_exists m r (s\<lparr>leases := ls\<rparr>) = holder_exists m r s" "holder_exists m r (s\<lparr>claims := cs\<rparr>) = holder_exists m r s"
  by (simp_all add: holder_exists_def mailbox_row_def resource_row_def)

lemma upsert_occupancy:
  assumes s: "occupancy_ok now s" and l: "l \<in> set (leases s)" "ls_released_at l = None"
    and holder: "holder_exists (ls_mailbox_id l) (ls_provider_resource_id l) s"
  shows "occupancy_ok now (snd (upsert_lease_claim now l a s))"
proof -
  let ?t = "snd (upsert_lease_claim now l a s)"
  have ok: "claims_ok now ?t" by (rule keepsD [OF upsert_keeps_claims]) (use s in \<open>simp add: occupancy_ok_def\<close>)
  have new: "c = claim_of_lease l a \<or> c \<in> set (claims s)" if "c \<in> set (claims ?t)" for c
    using that by (auto simp: upsert_run claims_without_def split: if_splits)
  have t: "leases ?t = leases s" "mailboxes ?t = mailboxes s" "resources ?t = resources s"
    "holder_exists m r ?t = holder_exists m r s" for m r
    by (simp_all add: upsert_run)
  have "holder_exists (lc_mailbox_id c) (lc_provider_resource_id c) ?t \<and> (\<exists>l \<in> set (leases ?t). lease_backs l c)"
    if "c \<in> set (claims ?t)" for c
    using new [OF that] s l holder by (auto simp: t occupancy_ok_def lease_backs_def)
  with ok s show ?thesis by (simp add: occupancy_ok_def t)
qed

lemma unavailable_state: "snd (unavailable_on_conflict m s) = snd (m s)"
  by (auto simp: unavailable_on_conflict_def run split: prod.split sum.split)

subsection \<open>Rows the requests select and change\<close>

lemma keeps_asks_then: "(\<And>s. I s \<Longrightarrow> I (snd (g (f s) s))) \<Longrightarrow> keeps I (bnd (asks f) g)"
  by (simp add: keeps_def run)

lemma modify_then: "snd (andthen (modify f) k s) = snd (k (f s))"
  by (simp add: run)

lemma least_row: "select_mailbox locked p s = Some m \<Longrightarrow> m \<in> set (mailboxes s) \<and> p m \<and> mb_id m \<notin> set locked"
  by (auto simp: select_mailbox_def dest!: least_by_mem)

lemma least_resource: "select_resource locked e s = Some r \<Longrightarrow> r \<in> set (resources s) \<and> resource_available e r"
  by (auto simp: select_resource_def dest!: least_by_mem)

lemma occupancy_rows:
  assumes "occupancy_ok now s"
  shows "m \<in> set (mailboxes s) \<Longrightarrow> mailbox_row (mb_id m) s = Some m"
    and "r \<in> set (resources s) \<Longrightarrow> resource_row (pr_id r) s = Some r"
  using assms by (auto simp: occupancy_ok_def mailbox_row_def resource_row_def intro: row_by_unique)

lemma insert_resource_exists:
  "insert_resource (throw e) r s = (Inr x, t) \<Longrightarrow> resource_row (pr_id r) t \<noteq> None"
  by (auto simp: insert_resource_def run resource_row_def row_by_append split: if_splits option.splits)

lemma qt_credential:
  assumes "\<And>i. steps quiet (ae_ensure_access_token env i)"
  shows "steps quiet (credential_result env defer m res)"
  unfolding credential_result_def by (cases "ar_mode res") (auto intro!: quiet_rules assms)

lemma qt_allocate: "steps quiet (allocate_address env q wants_plus site m)"
  unfolding allocate_address_def by (intro quiet_rules)

lemma qt_audit_acquired: "steps quiet (audit_mailbox_acquired p l m a site res)"
  unfolding audit_mailbox_acquired_def by (rule quiet_rules)

lemma leases_put_other:
  assumes "distinct (map ls_id ls)" and "l \<in> set ls" and "ls_id l' = ls_id l" and "l0 \<in> set ls" and "ls_id l0 \<noteq> ls_id l"
  shows "l0 \<in> set (put_row ls_id l' ls)"
  using assms by (auto simp: put_row_def set_update_where intro: bexI [of _ l0])

lemma release_state_ok:
  assumes "occupancy_ok now s" and "l \<in> set (leases s)" and "ls_id l' = ls_id l"
  shows "occupancy_ok now ((write_lease l' s)\<lparr>claims := delete_where (\<lambda>c. lc_lease_id c = ls_id l) (claims s)\<rparr>)"
proof -
  let ?t = "(write_lease l' s)\<lparr>claims := delete_where (\<lambda>c. lc_lease_id c = ls_id l) (claims s)\<rparr>"
  have "claims_ok now (s\<lparr>claims := delete_where (\<lambda>c. lc_lease_id c = ls_id l) (claims s)\<rparr>)"
    using assms(1) by (intro claims_ok_filter) (simp add: occupancy_ok_def)
  moreover have "?t = (s\<lparr>claims := delete_where (\<lambda>c. lc_lease_id c = ls_id l) (claims s)\<rparr>)
      \<lparr>leases := put_row ls_id l' (leases s)\<rparr>" by (simp add: write_lease_def)
  ultimately have ok: "claims_ok now ?t" by (simp only: claims_ok_leases)
  have d: "distinct (map ls_id (leases s))" using assms(1) by (simp add: occupancy_ok_def)
  have "\<exists>l0 \<in> set (leases ?t). lease_backs l0 c" if "c \<in> set (claims s)" "lc_lease_id c \<noteq> ls_id l" for c
  proof -
    from occupancy_claim(2) [OF assms(1) that(1)] obtain l0 where l0: "l0 \<in> set (leases s)" "lease_backs l0 c" ..
    then have "l0 \<in> set (put_row ls_id l' (leases s))"
      using that(2) by (intro leases_put_other [OF d assms(2,3)]) (auto simp: lease_backs_def)
    with l0 show ?thesis by (auto simp: write_lease_def)
  qed
  note backed = this
  have t: "holder_exists m r ?t = holder_exists m r s" "mailboxes ?t = mailboxes s" "resources ?t = resources s"
    "map ls_id (leases ?t) = map ls_id (leases s)" "c \<in> set (claims ?t) \<Longrightarrow> c \<in> set (claims s) \<and> lc_lease_id c \<noteq> ls_id l" for m r c
    by (simp_all add: holder_exists_def write_lease_def mailbox_row_def resource_row_def)
  have s: "distinct (map mb_id (mailboxes s)) \<and> [] \<notin> mb_id ` set (mailboxes s)" "distinct (map pr_id (resources s))"
    "c \<in> set (claims s) \<Longrightarrow> holder_exists (lc_mailbox_id c) (lc_provider_resource_id c) s" for c
    using assms(1) by (simp_all add: occupancy_ok_def)
  have "holder_exists (lc_mailbox_id c) (lc_provider_resource_id c) ?t \<and> (\<exists>l0 \<in> set (leases ?t). lease_backs l0 c)"
    if "c \<in> set (claims ?t)" for c
  proof -
    have c: "c \<in> set (claims s)" "lc_lease_id c \<noteq> ls_id l" using t(5) [OF that] by simp_all
    show ?thesis unfolding t(1) using s(3) [OF c(1)] backed [OF c] by (rule conjI)
  qed
  then show ?thesis unfolding occupancy_ok_def t(2-4) using ok d s(1,2) by blast
qed

lemma upsert_own_dropped:
  "upsert_lease_claim now l a (s\<lparr>claims := delete_where (\<lambda>c. lc_lease_id c = ls_id l) (claims s)\<rparr>) = upsert_lease_claim now l a s"
proof -
  let ?t = "s\<lparr>claims := delete_where (\<lambda>c. lc_lease_id c = ls_id l) (claims s)\<rparr>"
  have "claims_without now l ?t = claims_without now l s"
    by (simp add: claims_without_def delete_where_def conj_commute conj_left_commute)
  moreover have "blocking_claim now l ?t = blocking_claim now l s" by (auto simp: blocking_claim_def)
  ultimately show ?thesis by (simp add: upsert_run)
qed

lemma scan_own:
  "scan_active_leases client a alias own ls = Inr (Some l) \<Longrightarrow> own = None
     \<Longrightarrow> l \<in> set ls \<and> ls_client_key_id l = Some client \<and> ls_mode l = MailRead
         \<and> strip_lower (case ls_allocated_email l of None \<Rightarrow> [] | Some e \<Rightarrow> e) = a"
proof -
  have "scan_active_leases client a alias own ls = Inr (Some l) \<Longrightarrow> own = Some l \<or> (l \<in> set ls \<and> ls_client_key_id l = Some client
      \<and> ls_mode l = MailRead \<and> strip_lower (case ls_allocated_email l of None \<Rightarrow> [] | Some e \<Rightarrow> e) = a)" for own
    by (induction ls arbitrary: own) (auto simp: Let_def split: if_splits)
  then show "scan_active_leases client a alias own ls = Inr (Some l) \<Longrightarrow> own = None \<Longrightarrow> ?thesis" by blast
qed

lemma reacquirable_Inr:
  "reacquirable_mailbox locked i s = (r, t) \<Longrightarrow> t = s \<and> (\<forall>m. r = Inr m \<longrightarrow> mailbox_row (mb_id m) s = Some m \<and> mb_id m = i
     \<and> i \<notin> set locked \<and> mb_status m = MbActive \<and> mb_capability m \<in> {Some CapImap, Some CapGraph})"
  using mailbox_row_id by (fastforce simp: reacquirable_mailbox_def run split: option.splits if_splits)

lemma qt_resolve_email: "steps quiet (resolve_reacquire_email e)"
  unfolding resolve_reacquire_email_def Let_def by (intro quiet_rules)

lemma keepsD_then: "I (snd (m s)) \<Longrightarrow> keeps I k \<Longrightarrow> I (snd (andthen m k s))"
  by (auto simp: andthen_run keeps_def split: prod.split sum.split)

lemma qt_update_refresh: "steps quiet (update_refresh_token dec enc dys now p i v rt)"
proof (rule stepsI)
  fix s
  show "quiet s (snd (update_refresh_token dec enc dys now p i v rt s))"
  proof (cases rule: update_refresh_token_cases [of dec enc dys now p i v rt s])
    case (same r)
    then show ?thesis by (simp add: qt.refl)
  next
    case (swapped l m r)
    have row: "mailbox_row j r = map_option (\<lambda>x. if mb_id x = mb_id m \<and> mb_token_version x = v
        then replace_leased_refresh_token (enc rt) now (now + days dys) x else x) (mailbox_row j s)" for j
      by (simp add: mailbox_row_def swapped(9) row_by_update_where)
    have "map mb_id (mailboxes r) = map mb_id (mailboxes s)" by (simp add: swapped(9) map_update_where)
    moreover from this have "mb_id ` set (mailboxes r) = mb_id ` set (mailboxes s)" by (metis list.set_map)
    ultimately have "keys_kept s r" using swapped(12) by (simp add: keys_kept_def)
    with row show ?thesis using swapped(8,10-12) by (auto simp: quiet_def resource_row_def)
  qed
qed

end
