(* ===== verification/LeaseInvariant.thy ===== *)
theory LeaseInvariant
  imports LeaseOccupancy
begin

text \<open>
  The interface between the requests of the lease service and the invariants of its tables: a locale
  whose laws say what five primitive changes must keep (a change that leaves leases and claims alone,
  inserting a lease, claiming for it, ending or renewing an owned lease that is not released). Inside it every request
  is shown to keep the invariant once; it is interpreted on the occupancy rule, on the claim another
  client holds and on a released lease.
\<close>

locale request_invariant =
  fixes I :: "db \<Rightarrow> bool" and now :: time and p :: principal
  assumes occupancy: "I s \<Longrightarrow> occupancy_ok now s"
    and calm: "I s \<Longrightarrow> quiet s t \<Longrightarrow> I t"
    and insert: "I s \<Longrightarrow> ls_id l \<notin> ls_id ` set (leases s) \<Longrightarrow> ls_client_key_id l = Some (client_key_id p)
      \<Longrightarrow> I (s\<lparr>leases := leases s @ [l]\<rparr>)"
    and claim: "I s \<Longrightarrow> l \<in> set (leases s) \<Longrightarrow> ls_client_key_id l = Some (client_key_id p) \<Longrightarrow> ls_released_at l = None
      \<Longrightarrow> holder_exists (ls_mailbox_id l) (ls_provider_resource_id l) s
      \<Longrightarrow> I (snd (upsert_lease_claim now l a s))"
    and drop: "I s \<Longrightarrow> l \<in> set (leases s) \<Longrightarrow> ls_client_key_id l = Some (client_key_id p) \<Longrightarrow> ls_released_at l = None
      \<Longrightarrow> ls_id l' = ls_id l \<Longrightarrow> ls_client_key_id l' = ls_client_key_id l
      \<Longrightarrow> I ((write_lease l' s)\<lparr>claims := delete_where (\<lambda>c. lc_lease_id c = ls_id l) (claims s)\<rparr>)"
begin

lemma quiet_keeps: "steps quiet m \<Longrightarrow> keeps I m"
  by (rule qt.keeps) (auto intro: calm)

lemma calm_claimable: "claimable I p l s \<Longrightarrow> quiet s t \<Longrightarrow> claimable I p l t"
  using calm quiet_holder by (auto simp: claimable_def)

lemma new_lease_keeps:
  assumes "claimable I p l s" and "keeps I k"
    and "\<And>t. snd (m t) = snd (upsert_lease_claim now l a t)"
  shows "I (snd (andthen (insert_lease l) (andthen m k) s))"
proof (cases "ls_id l \<in> ls_id ` set (leases s)")
  case True
  with assms(1) show ?thesis by (simp add: run claimable_def)
next
  case False
  let ?s = "s\<lparr>leases := leases s @ [l]\<rparr>"
  have "I (snd (m ?s))"
    using claim [of ?s l] insert [of s l] assms(1) False by (simp add: assms(3) claimable_def)
  then have "I (snd (andthen m k ?s))"
    using keepsD [OF assms(2)] by (auto simp: andthen_run split: prod.split sum.split)
  with False show ?thesis by (simp add: andthen_run insert_lease_run)
qed

lemma smsbower_keeps:
  assumes now: "ae_now env = now"
  shows "keeps I (acquire_smsbower_mail_read_lease env q p site)"
  unfolding acquire_smsbower_mail_read_lease_def
proof (rule keeps_asks_then)
  fix s
  assume s: "I s"
  let ?sel = "select_resource (ae_locked env) (normalized_preferred (aq_preferred_email q)) s"
  show "I (snd ((case ?sel of None \<Rightarrow> throw (LeaseUnavailable False)
     | Some r \<Rightarrow>
         (let allocated = strip_lower (pr_primary_email r);
              l = resource_lease env q p (pr_id r) ''smsbower_gmail'' (pr_provider_instance_id r) allocated
          in andthen (modify (write_resource (claim_resource (ae_now env) r)))
            (andthen (insert_lease l)
            (andthen (unavailable_on_conflict (upsert_lease_claim (ae_now env) l (Some allocated)))
            (andthen (record_optional_site env p site allocated (ls_id l))
            (andthen (audit_resource_acquired p l (pr_id r) allocated)
              (ret (resource_result l (pr_id r) allocated site)))))))) s))"
  proof (cases ?sel)
    case (Some r)
    have row: "resource_row (pr_id r) s = Some r" using least_resource [OF Some] occupancy_rows(2) [OF occupancy [OF s]] by simp
    let ?l = "resource_lease env q p (pr_id r) ''smsbower_gmail'' (pr_provider_instance_id r) (strip_lower (pr_primary_email r))"
    let ?s = "write_resource (claim_resource (ae_now env) r) s"
    have q: "quiet s ?s" by (rule qt_write_resource [of _ s r]) (use row in \<open>simp_all add: claim_resource_def\<close>)
    have "holder_exists (ls_mailbox_id ?l) (ls_provider_resource_id ?l) s"
      using row by (simp add: holder_exists_def resource_lease_def present_def)
    then have "claimable I p ?l s" using s by (simp add: claimable_def)
    from calm_claimable [OF this q] show ?thesis
      unfolding Some option.case Let_def modify_then audit_resource_acquired_def
      by (rule new_lease_keeps) (intro quiet_keeps quiet_rules, simp add: unavailable_state now)
  qed (use s in \<open>simp add: run\<close>)
qed

lemma provision_keeps:
  assumes "ls_released_at l = None" and "\<not> present (ls_mailbox_id l)" and "ls_provider_resource_id l = Some (pr_id r)"
    and "ls_client_key_id l = Some (client_key_id p)"
  shows "keeps I (andthen (insert_resource (throw e) r) (andthen (insert_lease l) (upsert_lease_claim now l a)))"
proof (rule keepsI)
  fix s
  assume s: "I s"
  let ?m = "andthen (insert_lease l) (upsert_lease_claim now l a)"
  obtain v t where v: "insert_resource (throw e) r s = (v, t)" by (metis surj_pair)
  have t: "I t" using calm [OF s stepsD_eq [OF qt_insert_resource v]] .
  show "I (snd (andthen (insert_resource (throw e) r) ?m s))"
  proof (cases v)
    case (Inl x)
    with v t show ?thesis by (simp add: andthen_run)
  next
    case (Inr x)
    have "claimable I p l t"
      using t assms insert_resource_exists [OF v [unfolded Inr]] by (auto simp: claimable_def holder_exists_def)
    then have "I (snd (andthen (insert_lease l) (andthen (upsert_lease_claim now l a) (ret ())) t))"
      by (rule new_lease_keeps) (simp_all add: keeps_ret)
    moreover have "snd (andthen m (ret ()) u) = snd (m u)" for m :: "(db, lease_error, unit) action" and u
      by (simp add: run split: prod.split sum.split)
    ultimately have "I (snd (?m t))"
      by (simp add: andthen_run [of "insert_lease l"] split: prod.splits sum.splits)
    with v Inr show ?thesis by (simp add: andthen_run [of "insert_resource (throw e) r"])
  qed
qed

lemma on_demand_keeps:
  assumes "I base" and now: "ae_now env = now"
  shows "keeps I (acquire_on_demand_mail_read_lease env q p provider_type site base)"
proof -
  let ?I = "I"
  have undo: "keeps ?I (if b then andthen (modify (\<lambda>_. base)) (throw e) else throw e')" for b and e e' :: lease_error
    using assms by (auto intro!: keeps_andthen keeps_throw keeps_modify)
  have tail: "keeps ?I (record_optional_site env p site a i)" "keeps ?I (audit_resource_acquired p l i a)" for a i l
    unfolding audit_resource_acquired_def by (intro quiet_keeps quiet_rules)+
  have body: "keeps ?I (andthen (insert_resource (throw FlushConflict) r) (andthen (insert_lease l) (upsert_lease_claim now l a)))"
    if "l = resource_lease env q p (pr_id r) provider_type inst b" for r l a inst b
    by (rule provision_keeps) (simp_all add: that resource_lease_def present_def)
  show ?thesis
    unfolding acquire_on_demand_mail_read_lease_def now
    by (cases "ae_provision env"; simp only: option.case)
      (auto simp: Let_def split: sum.split
        intro!: keeps_andthen keeps_catch keeps_require keeps_ret keeps_throw tail undo body)
qed

lemma owned_mailbox_keeps:
  assumes "mailbox_row (mb_id m) s = Some m" and "I s"
    and "\<And>i. steps quiet (ae_ensure_access_token env i)" and now: "ae_now env = now"
  shows "I (snd (occupy_mailbox env q p wants_plus site defer provider_type m s))"
proof -
  obtain v t where v: "allocate_address env q wants_plus site m s = (v, t)" by (metis surj_pair)
  have q: "quiet s t" using stepsD_eq [OF qt_allocate v] .
  have t: "I t" using calm [OF assms(2) q] .
  show ?thesis
  proof (cases v)
    case (Inl e)
    with v t show ?thesis by (simp add: occupy_mailbox_def bnd_run)
  next
    case (Inr allocated)
    let ?l = "mailbox_lease env q p provider_type m allocated"
    let ?t = "write_mailbox (m\<lparr>mb_updated_at := ae_now env\<rparr>) t"
    obtain m' where m': "mailbox_row (mb_id m) t = Some m'" "mb_primary_email m' = mb_primary_email m"
      using q assms(1) unfolding quiet_def by blast
    have "quiet t ?t" by (rule qt_write_mailbox [of _ t m']) (use m' in simp_all)
    moreover have "claimable I p ?l t"
      using t m' by (simp add: claimable_def holder_exists_def)
    ultimately have c: "claimable I p ?l ?t" by (metis calm_claimable)
    have keep: "I (snd (andthen (insert_lease ?l)
        (andthen (unavailable_on_conflict (upsert_lease_claim (ae_now env) ?l allocated)) k) ?t))"
      if "steps quiet k" for k
      by (rule new_lease_keeps [OF c quiet_keeps [OF that]]) (simp add: unavailable_state now)
    have run: "snd (occupy_mailbox env q p wants_plus site defer provider_type m s) =
        snd (andthen (insert_lease ?l)
        (andthen (unavailable_on_conflict (upsert_lease_claim (ae_now env) ?l allocated))
        (andthen (if aq_mode q = MailRead \<and> present site \<and> present allocated
               then record_email_site_usage (ae_usage_id env) (ae_now env) p (the allocated) (the site) (Some (mb_id m)) (ls_id ?l)
               else ret ())
        (bnd (credential_result env defer m (mailbox_result ?l m allocated site)) (\<lambda>res.
         andthen (audit_mailbox_acquired p ?l m allocated site res) (ret res))))) ?t)"
      by (simp only: occupy_mailbox_def bnd_run [of "allocate_address env q wants_plus site m"] v Inr prod.case sum.case
          Let_def modify_then)
    show ?thesis
      unfolding run by (rule keep) (intro quiet_rules qt_credential assms qt_audit_acquired)
  qed
qed

lemma acquire_body_keeps:
  assumes "\<And>i. steps quiet (ae_ensure_access_token env i)" and now: "ae_now env = now"
  shows "keeps I (acquire_lease_body env q p wants_plus site defer provider_type)"
proof (cases "provider_type = ''smsbower_gmail''")
  case True
  then show ?thesis by (simp add: acquire_lease_body_def keeps_andthen keeps_require smsbower_keeps now)
next
  case False
  have none: "I (snd (bnd (asks f) (\<lambda>b. throw (e b)) s))" if "I s" for now f e s
    using that by (simp add: run)
  show ?thesis
    unfolding acquire_lease_body_def if_not_P [OF False] Let_def
  proof (rule keeps_asks_then, goal_cases)
    case (1 s)
    let ?sel = "select_mailbox (ae_locked env) (mailbox_eligible (ae_now env) (aq_mode q) provider_type wants_plus site
        (normalized_preferred (aq_preferred_email q)) s) s"
    show ?case
    proof (cases ?sel)
      case None
      with 1 show ?thesis by (simp add: none)
    next
      case (Some m)
      have "mailbox_row (mb_id m) s = Some m" using least_row [OF Some] occupancy_rows(1) [OF occupancy [OF 1]] by blast
      from owned_mailbox_keeps [OF this 1 assms] Some show ?thesis by simp
    qed
  qed
qed

lemma release_keeps: "keeps I (release_lease_internal op now' p i)"
proof (rule keepsI)
  fix s
  assume s: "I s"
  obtain v t where v: "load_owned_lease_mailbox_first now' p i False s = (v, t)" by (metis surj_pair)
  have t: "t = s" using load_mailbox_first_state [OF v] .
  show "I (snd (release_lease_internal op now' p i s))"
  proof (cases v)
    case (Inl e)
    with v t s show ?thesis by (simp add: release_lease_internal_def bnd_run)
  next
    case (Inr l)
    have l: "l \<in> set (leases s)" "ls_client_key_id l = Some (client_key_id p)"
      using v Inr owned_leaseD by (auto simp: load_mailbox_first_Inr)
    show ?thesis
    proof (cases "ls_released_at l")
      case None
      have k: "keeps I (andthen (release_provider_side op now' p l)
          (andthen (write_audit_log p ''lease.released'' i' md) (ret res)))" for i' md and res :: lease_release_result
        by (intro quiet_keeps quiet_rules)
      show ?thesis
        using keepsD [OF k drop [OF s l None, of "l\<lparr>ls_released_at := Some now'\<rparr>"]] v Inr None t
        by (simp add: release_lease_internal_def bnd_run [of "load_owned_lease_mailbox_first now' p i False"]
            modify_then delete_lease_claim_for_lease_def) (simp add: write_lease_def)
    qed (use v Inr t s in \<open>simp add: release_lease_internal_def bnd_run ret_run\<close>)
  qed
qed

lemma access_token_keeps:
  assumes "\<And>i. steps quiet (ae_ensure_access_token env i)" and now: "ae_now env = now"
  shows "keeps I (acquire_access_token_lease factory env q p)"
  unfolding acquire_access_token_lease_def Let_def
  by (intro keeps_bnd keeps_andthen keeps_catch keeps_ret keeps_throw keeps_if keeps_transaction
      acquire_body_keeps assms release_keeps quiet_keeps)

lemma single_keeps:
  assumes "\<And>i. steps quiet (ae_ensure_access_token env i)" and "I base" and now: "ae_now env = now"
  shows "keeps I (acquire_single_provider_lease factory env q p t base)"
proof -
  have "steps quiet (resolve_request_site mode ty wants site)" for mode ty wants site
    unfolding resolve_request_site_def Let_def by (intro quiet_rules)
  then show ?thesis
    unfolding acquire_single_provider_lease_def Let_def
    by (intro keeps_bnd keeps_andthen keeps_require keeps_if access_token_keeps on_demand_keeps
        acquire_body_keeps assms quiet_keeps)
qed

lemma try_keeps:
  assumes "\<And>k i. steps quiet (ae_ensure_access_token (env k) i)" and "\<And>k. ae_now (env k) = now" and "I base"
  shows "keeps I (try_providers env factory q p base k prev ts)"
proof (induction ts arbitrary: k prev)
  case Nil
  then show ?case by (simp add: keeps_throw)
next
  case (Cons t ts)
  have "keeps I (acquire_single_provider_lease factory (env k) q' p t base)" for q'
    using single_keeps [of "env k"] assms by simp
  with Cons show ?case by (auto intro!: keeps_catch keeps_throw split: lease_error.split)
qed

lemma acquire_keeps:
  assumes "\<And>k i. steps quiet (ae_ensure_access_token (env k) i)" and "\<And>k. ae_now (env k) = now"
  shows "keeps I (acquire_lease env shuffle factory q p)"
proof -
  have single: "keeps I (acquire_single_provider_lease factory (env 0) q' p t base)"
    if "I base" for q' t base
    using single_keeps [of "env 0" base] assms that by simp
  have scope: "keeps I (require_scope e p sc)" for e sc
    by (intro quiet_keeps quiet_rules)
  show ?thesis
    unfolding acquire_lease_def
  proof (rule keeps_asks_then)
    fix base
    assume base: "I base"
    let ?m = "if aq_mode q \<noteq> MailRead then
       andthen (require_scope ScopeDenied p ''leases:acquire'')
      (andthen (require_scope ScopeDenied p
                  (if aq_mode q = AccessToken then ''tokens:access:read'' else ''tokens:refresh:read''))
      (andthen (require (\<not> aq_use_plus_alias q \<and> \<not> present (aq_preferred_alias_suffix q)) LeaseModeMismatch)
      (andthen (require (\<not> present (aq_usage_site q)) LeaseModeMismatch)
      (andthen (require (\<not> input_given (aq_exclude_providers q)) LeaseModeMismatch)
        (case single_mode_provider (aq_provider q) of
           Inl e \<Rightarrow> throw e
         | Inr t \<Rightarrow>
             andthen (require (t = default_provider_type) LeaseProviderUnsupported)
               (acquire_single_provider_lease factory (env 0)
                  (q\<lparr>aq_use_plus_alias := False, aq_preferred_alias_suffix := None, aq_usage_site := None\<rparr>) p t base))))))
     else
       andthen (require_scope ScopeDenied p ''mailboxes:acquire'')
         (case resolve_mail_read_provider_candidates p (aq_provider q) (aq_exclude_providers q)
                 (aq_explicit_provider_request q) of
            Inl e \<Rightarrow> throw e
          | Inr candidates \<Rightarrow>
              if length candidates = 1
              then acquire_single_provider_lease factory (env 0) (plus_options_for_provider q (hd candidates)) p (hd candidates) base
              else try_providers env factory q p base 0 None (shuffle candidates))"
    have "keeps I ?m"
      using single [OF base] scope try_keeps [OF assms base]
      by (auto intro!: keeps_andthen keeps_require keeps_throw split: sum.split)
    from keepsD [OF this base] show "I (snd (?m base))" .
  qed
qed

lemma renew_keeps:
  assumes "I s" and l: "l \<in> set (leases s)" "ls_client_key_id l = Some (client_key_id p)" "ls_released_at l = None"
    and holder: "holder_exists (ls_mailbox_id l) (ls_provider_resource_id l) s"
    and same: "ls_id l' = ls_id l" "ls_client_key_id l' = ls_client_key_id l" "ls_released_at l' = None"
      "ls_mailbox_id l' = ls_mailbox_id l" "ls_provider_resource_id l' = ls_provider_resource_id l"
  shows "I (snd (upsert_lease_claim now l' a (write_lease l' s)))"
proof -
  let ?t = "(write_lease l' s)\<lparr>claims := delete_where (\<lambda>c. lc_lease_id c = ls_id l) (claims s)\<rparr>"
  have t: "I ?t" by (rule drop [OF assms(1) l same(1,2)])
  have "upsert_lease_claim now l' a ?t = upsert_lease_claim now l' a (write_lease l' s)"
    using upsert_own_dropped [of now l' a "write_lease l' s"] by (simp add: same(1)) (simp add: write_lease_def)
  moreover have "l' \<in> set (leases ?t)"
    using l(1) same(1) by (auto simp: write_lease_def put_row_def set_update_where intro: bexI [of _ l])
  moreover have "holder_exists (ls_mailbox_id l') (ls_provider_resource_id l') ?t"
    using holder by (simp add: same write_lease_def)
  ultimately show ?thesis
    using claim [OF t, of l' a] l(2) by (simp add: same(2,3))
qed

lemma reacquire_keeps:
  assumes now: "ae_now env = now"
  shows "keeps I (reacquire_lease_by_email env p email ttl tag pur)"
  unfolding reacquire_lease_by_email_def Let_def now
proof (intro keeps_andthen keeps_require quiet_keeps [OF qt_scope] keeps_bnd quiet_keeps [OF qt_resolve_email], clarify)
  fix i a kind
  show "keeps I (bnd (asks (client_has_mail_read_history (client_key_id p) a)) (\<lambda>history.
      andthen (require history LeaseEmailNotFound)
     (bnd (reacquirable_mailbox (ae_locked env) i) (\<lambda>m.
      bnd (asks (\<lambda>s. scan_active_leases (client_key_id p) a (kind = PlusAlias) None (active_leases_of now (mb_id m) s))) (\<lambda>scan. case scan of
        Inl e \<Rightarrow> throw e
      | Inr (Some own) \<Rightarrow>
          andthen (modify (write_lease (renewed_lease now ttl tag pur own)))
          (andthen (upsert_lease_claim now (renewed_lease now ttl tag pur own) (Some a))
          (andthen (audit_reacquired p (renewed_lease now ttl tag pur own) m a kind True)
            (ret (reacquire_result (renewed_lease now ttl tag pur own) m a kind))))
      | Inr None \<Rightarrow>
          andthen (insert_lease (reopened_lease env p ttl tag pur m a))
          (andthen (upsert_lease_claim now (reopened_lease env p ttl tag pur m a) (Some a))
          (andthen (audit_reacquired p (reopened_lease env p ttl tag pur m a) m a kind False)
            (ret (reacquire_result (reopened_lease env p ttl tag pur m a) m a kind)))))))))"
    (is "keeps I (bnd _ (\<lambda>history. andthen _ (bnd _ (\<lambda>m. bnd (asks (?scan m)) (?rest m)))))")
  proof (rule keeps_bnd [OF keeps_asks], rule keeps_andthen [OF keeps_require])
    have aud: "keeps I (andthen (audit_reacquired p l m a kind b) (ret r))" for l m b and r :: acquire_result
      unfolding audit_reacquired_def by (intro quiet_keeps quiet_rules)
    have "I (snd (bnd (asks (?scan m)) (?rest m) s))" if s: "I s" and m: "mailbox_row (mb_id m) s = Some m" for m s
    proof (cases "?scan m s")
      case (Inl e)
      with s show ?thesis by (simp add: run)
    next
      case (Inr found)
      show ?thesis
      proof (cases found)
        case None
        have "claimable I p (reopened_lease env p ttl tag pur m a) s"
          using s m by (simp add: claimable_def holder_exists_def)
        from new_lease_keeps [OF this aud refl] Inr None show ?thesis by (simp add: bnd_run asks_run)
      next
        case (Some own)
        have own: "own \<in> set (leases s)" "ls_mailbox_id own = Some (mb_id m)" "ls_released_at own = None"
          "ls_client_key_id own = Some (client_key_id p)"
          using scan_own [OF Inr [unfolded Some]] by (auto simp: active_leases_of_def lease_active_def)
        have "holder_exists (ls_mailbox_id own) (ls_provider_resource_id own) s"
          using m own(2) occupancy_ids [OF occupancy [OF s] m] by (simp add: holder_exists_def)
        then have "I (snd (upsert_lease_claim now (renewed_lease now ttl tag pur own) (Some a)
            (write_lease (renewed_lease now ttl tag pur own) s)))"
          by (intro renew_keeps [OF s own(1,4,3)]) (simp_all add: own)
        from keepsD_then [where I = I and m = "upsert_lease_claim now (renewed_lease now ttl tag pur own) (Some a)", OF this aud]
          Inr Some show ?thesis by (simp add: bnd_run asks_run modify_then)
      qed
    qed
    then show "keeps I (bnd (reacquirable_mailbox (ae_locked env) i) (\<lambda>m. bnd (asks (?scan m)) (?rest m)))"
      using reacquirable_Inr by (fastforce simp: keeps_def bnd_run [of "reacquirable_mailbox (ae_locked env) i"] split: prod.split sum.split)
  qed
qed

end

end
