(* ===== verification/LeaseHistory.thy ===== *)
theory LeaseHistory
  imports LeaseInvariant
begin

text \<open>
  Histories of lease requests: the request session (\<open>get_session\<close>), one step per request of any
  client in any order, with clocks that do not run backwards, and what holds after every history.
\<close>

definition request_session :: "('s, 'e, 'a) action \<Rightarrow> ('s, 'e, 'a) action" where
  "request_session m = transaction m"

definition acquire_endpoint ::
    "(nat \<Rightarrow> acquire_env) \<Rightarrow> (string list \<Rightarrow> string list) \<Rightarrow> acquire_request \<Rightarrow> principal
       \<Rightarrow> (db, lease_error, acquire_result) action" where
  \<comment> \<open>an access-token request commits through the independent sessions; its request session only reads\<close>
  "acquire_endpoint env shuffle q p =
     (if aq_mode q = AccessToken then acquire_lease env shuffle True q p
      else request_session (acquire_lease env shuffle True q p))"

inductive lease_step :: "time \<Rightarrow> principal \<Rightarrow> db \<Rightarrow> db \<Rightarrow> bool" where
  acquire: "(\<And>k i. steps quiet (ae_ensure_access_token (env k) i)) \<Longrightarrow> (\<And>k. ae_now (env k) = now)
     \<Longrightarrow> lease_step now p s (snd (acquire_endpoint env shuffle q p s))"
| reacquire: "ae_now env = now
     \<Longrightarrow> lease_step now p s (snd (request_session (reacquire_lease_by_email env p email ttl tag pur) s))"
| release: "lease_step now p s (snd (request_session (release_lease op now p i) s))"
| refresh: "lease_step now p s (snd (request_session (update_refresh_token dec enc dys now p i v rt) s))"
| token: "(\<And>i. steps quiet (ensure i)) \<Longrightarrow> lease_step now p s (snd (request_session (get_access_token ensure now p i) s))"
| elsewhere: "quiet s t \<Longrightarrow> lease_step now p s t"

inductive lease_history :: "(principal \<Rightarrow> bool) \<Rightarrow> time \<Rightarrow> db \<Rightarrow> time \<Rightarrow> db \<Rightarrow> bool"
  for P :: "principal \<Rightarrow> bool" and now0 :: time and s0 :: db where
  start: "lease_history P now0 s0 now0 s0"
| request: "lease_history P now0 s0 now s \<Longrightarrow> now \<le> now' \<Longrightarrow> P p \<Longrightarrow> lease_step now' p s t \<Longrightarrow> lease_history P now0 s0 now' t"

lemma qt_get_access_token:
  assumes "\<And>i. steps quiet (ensure i)"
  shows "steps quiet (get_access_token ensure now p i)"
  unfolding get_access_token_def by (intro quiet_rules assms)

context request_invariant
begin

lemma step_keeps:
  assumes "lease_step now p s t" and "I s"
  shows "I t"
  using assms
proof (cases rule: lease_step.cases)
  case (acquire env shuffle q)
  have "keeps I (acquire_endpoint env shuffle q p)"
    unfolding acquire_endpoint_def request_session_def
    by (intro keeps_if keeps_transaction acquire_keeps acquire)
  with acquire(1) assms(2) show ?thesis by (simp add: keepsD)
next
  case (reacquire env email ttl tag pur)
  then show ?thesis
    using keepsD [OF keeps_transaction [OF reacquire_keeps]] assms(2) by (simp add: request_session_def)
next
  case (release op i)
  have "keeps I (request_session (release_lease op now p i))"
    unfolding request_session_def release_lease_def
    by (intro keeps_transaction keeps_andthen quiet_keeps [OF qt_scope] release_keeps)
  with release assms(2) show ?thesis by (simp add: keepsD)
next
  case (refresh dec enc dys i v rt)
  have "keeps I (request_session (update_refresh_token dec enc dys now p i v rt))"
    unfolding request_session_def by (intro keeps_transaction quiet_keeps [OF qt_update_refresh])
  with refresh assms(2) show ?thesis by (simp add: keepsD)
next
  case (token ensure i)
  have "keeps I (request_session (get_access_token ensure now p i))"
    unfolding request_session_def by (intro keeps_transaction quiet_keeps qt_get_access_token token)
  with token(1) assms(2) show ?thesis by (simp add: keepsD)
next
  case elsewhere
  with assms(2) show ?thesis by (rule_tac calm)
qed

end

subsection \<open>The invariants\<close>

lemma insert_occupancy:
  "occupancy_ok now s \<Longrightarrow> ls_id l \<notin> ls_id ` set (leases s) \<Longrightarrow> occupancy_ok now (s\<lparr>leases := leases s @ [l]\<rparr>)"
  by (auto simp: occupancy_ok_def)

interpretation occupied: request_invariant "occupancy_ok now" now p for now p
  by unfold_locales (auto intro: quiet_occupancy insert_occupancy upsert_occupancy release_state_ok)

definition held_by_other :: "time \<Rightarrow> principal \<Rightarrow> lease \<Rightarrow> lease_claim \<Rightarrow> db \<Rightarrow> bool" where
  \<comment> \<open>a live claim and its lease, of a client other than the caller\<close>
  "held_by_other now p l c s \<longleftrightarrow> occupancy_ok now s \<and> l \<in> set (leases s) \<and> c \<in> set (claims s) \<and> ls_id l = lc_lease_id c
     \<and> ls_client_key_id l \<noteq> Some (client_key_id p) \<and> claim_live now c"

lemma held_ids:
  assumes "held_by_other now p l c s" and "l' \<in> set (leases s)" and "ls_client_key_id l' = Some (client_key_id p)"
  shows "ls_id l' \<noteq> lc_lease_id c"
proof
  assume "ls_id l' = lc_lease_id c"
  moreover have "distinct (map ls_id (leases s))" using assms(1) by (simp add: held_by_other_def occupancy_ok_def)
  ultimately have "l' = l" using assms(1,2) by (metis distinct_map held_by_other_def inj_onD)
  with assms(1,3) show False by (simp add: held_by_other_def)
qed

interpretation held: request_invariant "held_by_other now p l c" now p for now p l c
proof
  fix s t
  assume "held_by_other now p l c s" "quiet s t"
  then show "held_by_other now p l c t" using quiet_occupancy by (auto simp: held_by_other_def quiet_def)
next
  fix s and l' :: lease
  assume "held_by_other now p l c s" "ls_id l' \<notin> ls_id ` set (leases s)"
  then show "held_by_other now p l c (s\<lparr>leases := leases s @ [l']\<rparr>)"
    using insert_occupancy by (auto simp: held_by_other_def)
next
  fix s a and l' :: lease
  assume h: "held_by_other now p l c s" and l': "l' \<in> set (leases s)" "ls_client_key_id l' = Some (client_key_id p)"
    and r: "ls_released_at l' = None" "holder_exists (ls_mailbox_id l') (ls_provider_resource_id l') s"
  have "occupancy_ok now (snd (upsert_lease_claim now l' a s))"
    using upsert_occupancy [OF _ l'(1) r] h by (simp add: held_by_other_def)
  moreover have "c \<in> set (claims (snd (upsert_lease_claim now l' a s)))"
    using h held_ids [OF h l'] by (auto simp: upsert_run claims_without_def held_by_other_def)
  ultimately show "held_by_other now p l c (snd (upsert_lease_claim now l' a s))"
    using h by (simp add: held_by_other_def upsert_run)
next
  fix s and l' l'' :: lease
  assume h: "held_by_other now p l c s" and l': "l' \<in> set (leases s)" "ls_client_key_id l' = Some (client_key_id p)"
    and same: "ls_id l'' = ls_id l'"
  let ?t = "(write_lease l'' s)\<lparr>claims := delete_where (\<lambda>c. lc_lease_id c = ls_id l') (claims s)\<rparr>"
  have "occupancy_ok now ?t" using release_state_ok [OF _ l'(1) same] h by (simp add: held_by_other_def)
  moreover have "l \<in> set (leases ?t)"
    using leases_put_other [of "leases s" l' l'' l] h l' same held_ids [OF h l']
    by (auto simp: held_by_other_def occupancy_ok_def write_lease_def)
  ultimately show "held_by_other now p l c ?t" using h held_ids [OF h l'] by (auto simp: held_by_other_def)
qed (simp add: held_by_other_def)

definition finished :: "time \<Rightarrow> lease \<Rightarrow> db \<Rightarrow> bool" where
  \<comment> \<open>a released lease of the database\<close>
  "finished now l s \<longleftrightarrow> occupancy_ok now s \<and> l \<in> set (leases s) \<and> ls_released_at l \<noteq> None"

interpretation finished: request_invariant "finished now l" now p for now p l
proof
  fix s and l1 :: lease and a
  assume "finished now l s" "l1 \<in> set (leases s)" "ls_released_at l1 = None"
    "holder_exists (ls_mailbox_id l1) (ls_provider_resource_id l1) s"
  then show "finished now l (snd (upsert_lease_claim now l1 a s))"
    using upsert_occupancy [of now s l1 a] by (simp add: finished_def) (simp add: upsert_run)
next
  fix s and l1 l2 :: lease
  assume f: "finished now l s" and l1: "l1 \<in> set (leases s)" "ls_client_key_id l1 = Some (client_key_id p)" "ls_released_at l1 = None"
    and same: "ls_id l2 = ls_id l1"
  have "ls_id l1 \<noteq> ls_id l"
    using f l1 by (auto simp: finished_def occupancy_ok_def distinct_map dest: inj_onD)
  then show "finished now l ((write_lease l2 s)\<lparr>claims := delete_where (\<lambda>c. lc_lease_id c = ls_id l1) (claims s)\<rparr>)"
    using release_state_ok [OF _ l1(1) same] leases_put_other [of "leases s" l1 l2 l] f l1 same
    by (auto simp: finished_def occupancy_ok_def write_lease_def)
next
  fix s t
  assume "finished now l s" "quiet s t"
  then show "finished now l t" using quiet_occupancy by (auto simp: finished_def quiet_def)
qed (auto simp: finished_def intro: insert_occupancy)

lemma history_mono: "lease_history P now s now' t \<Longrightarrow> (\<And>p. P p \<Longrightarrow> Q p) \<Longrightarrow> lease_history Q now s now' t"
  by (induction rule: lease_history.induct) (auto intro: lease_history.intros)

lemma history_time: "lease_history P now s now' t \<Longrightarrow> now \<le> now'"
  by (induction rule: lease_history.induct) auto

lemma history_keeps: "lease_history P now s now' t \<Longrightarrow> occupancy_ok now s \<Longrightarrow> occupancy_ok now' t"
  by (induction rule: lease_history.induct) (auto intro: occupied.step_keeps occupancy_ok_later)

lemma history_keeps_other:
  assumes "lease_history (\<lambda>p. ls_client_key_id l \<noteq> Some (client_key_id p)) now s now' t"
    and "occupancy_ok now s" and "l \<in> set (leases s)" and "c \<in> set (claims s)" and "ls_id l = lc_lease_id c"
    and "now' < lc_expires_at c"
  shows "l \<in> set (leases t) \<and> c \<in> set (claims t)"
  using assms(1,6)
proof (induction rule: lease_history.induct)
  case start
  with assms show ?case by simp
next
  case (request now1 s1 now2 p t1)
  have "held_by_other now2 p l c s1"
    using request assms(5) occupancy_ok_later [OF history_keeps [OF request(1) assms(2)] request(2)]
    by (auto simp: held_by_other_def claim_live_def)
  from held.step_keeps [OF request(4) this] show ?case by (simp add: held_by_other_def)
qed

end
