(* ===== verification/LeaseGrants.thy ===== *)
theory LeaseGrants
  imports LeaseHistory
begin

text \<open>
  What the requests of the lease service grant: an acquired lease is recorded with its claim and was
  free before, no history hands it to anybody else, a failed token request takes the reservation
  back, and a re-acquired address belongs to the caller's own past.
\<close>

subsection \<open>A successful acquisition\<close>

lemma credential_fields:
  assumes "credential_result env defer m r s = (Inr r', t)"
  shows "ar_lease_id r' = ar_lease_id r \<and> ar_mailbox_id r' = ar_mailbox_id r \<and> ar_expires_at r' = ar_expires_at r
     \<and> ar_allocated_email r' = ar_allocated_email r \<and> ar_mode r' = ar_mode r"
  using assms by (cases "ar_mode r") (auto simp: credential_result_def returns split: if_splits option.splits)

lemma unavailable_Inr: "unavailable_on_conflict m s = (Inr x, t) \<longleftrightarrow> m s = (Inr x, t)"
  by (auto simp: unavailable_on_conflict_def run split: prod.splits sum.splits)

lemma upsert_Inr:
  "upsert_lease_claim now l a s = (Inr x, t) \<Longrightarrow> t = s\<lparr>claims := claims_without now l s @ [claim_of_lease l a]\<rparr>
     \<and> (plus_alias_lease (ls_mode l) a (holder_primary (ls_mailbox_id l) (ls_provider_resource_id l) s) \<or> \<not> blocking_claim now l s)"
  by (auto simp: upsert_run split: if_splits)

lemma insert_lease_Inr: "insert_lease l s = (Inr x, t) \<longleftrightarrow> ls_id l \<notin> ls_id ` set (leases s) \<and> t = s\<lparr>leases := leases s @ [l]\<rparr>"
  by (auto simp: insert_lease_run)

lemma occupy_success:
  assumes "occupy_mailbox env q p wants_plus site defer ty m s = (Inr res, t)"
    and "\<And>i. steps quiet (ae_ensure_access_token env i)"
  obtains a s1 where "allocate_address env q wants_plus site m s = (Inr a, s1)"
    and "leases t = leases s @ [mailbox_lease env q p ty m a]"
    and "claims t = claims_without (ae_now env) (mailbox_lease env q p ty m a) s @ [claim_of_lease (mailbox_lease env q p ty m a) a]"
    and "ae_lease_id env \<notin> ls_id ` set (leases s)"
    and "ar_lease_id res = ae_lease_id env" and "ar_mailbox_id res = Some (mb_id m)" and "ar_mode res = aq_mode q"
    and "ar_expires_at res = ae_now env + secs (aq_ttl_seconds q)" and "ar_allocated_email res = a"
proof -
  obtain a s1 where a: "allocate_address env q wants_plus site m s = (Inr a, s1)"
    using assms(1) by (auto simp: occupy_mailbox_def bnd_Inr_iff)
  let ?l = "mailbox_lease env q p ty m a"
  let ?s2 = "write_mailbox (m\<lparr>mb_updated_at := ae_now env\<rparr>) s1"
  obtain u u' v r where u: "insert_lease ?l ?s2 = (Inr (), u)" "upsert_lease_claim (ae_now env) ?l a u = (Inr (), u')"
    and v: "(if aq_mode q = MailRead \<and> present site \<and> present a
               then record_email_site_usage (ae_usage_id env) (ae_now env) p (the a) (the site) (Some (mb_id m)) (ls_id ?l)
               else ret ()) u' = (Inr (), v)"
    and r: "bnd (credential_result env defer m (mailbox_result ?l m a site)) (\<lambda>res.
      andthen (audit_mailbox_acquired p ?l m a site res) (ret res)) v = (Inr res, t)"
    using assms(1) a by (auto simp: occupy_mailbox_def Let_def bnd_Inr_iff andthen_Inr_iff modify_Inr_iff unavailable_Inr)
  have q1: "quiet s s1" using stepsD_eq [OF qt_allocate a] .
  have m1: "steps quiet (if aq_mode q = MailRead \<and> present site \<and> present a
               then record_email_site_usage (ae_usage_id env) (ae_now env) p (the a) (the site) (Some (mb_id m)) (ls_id ?l)
               else ret ())" by (intro quiet_rules)
  have m2: "steps quiet (bnd (credential_result env defer m (mailbox_result ?l m a site)) (\<lambda>res.
      andthen (audit_mailbox_acquired p ?l m a site res) (ret res)))"
    by (intro quiet_rules qt_credential assms(2) qt_audit_acquired)
  have q2: "quiet u' t" using qt.trans [OF stepsD_eq [OF m1 v] stepsD_eq [OF m2 r]] .
  have u1: "u = ?s2\<lparr>leases := leases ?s2 @ [?l]\<rparr>" "ls_id ?l \<notin> ls_id ` set (leases ?s2)" using u(1) by (auto simp: insert_lease_Inr)
  have same: "leases ?s2 = leases s" "claims ?s2 = claims s" using q1 by (simp_all add: write_mailbox_def quiet_def)
  have u2: "u' = u\<lparr>claims := claims_without (ae_now env) ?l u @ [claim_of_lease ?l a]\<rparr>" using upsert_Inr [OF u(2)] by blast
  have "claims u = claims s" "leases u = leases s @ [?l]" using u1 same by simp_all
  then have "leases t = leases s @ [?l]" "claims t = claims_without (ae_now env) ?l s @ [claim_of_lease ?l a]"
    using q2 u2 by (simp_all add: quiet_def claims_without_def)
  moreover have "ae_lease_id env \<notin> ls_id ` set (leases s)" using u1(2) same by simp
  moreover have "ar_lease_id res = ae_lease_id env \<and> ar_mailbox_id res = Some (mb_id m) \<and> ar_mode res = aq_mode q
      \<and> ar_expires_at res = ae_now env + secs (aq_ttl_seconds q) \<and> ar_allocated_email res = a"
    using r credential_fields by (fastforce simp: bnd_Inr_iff andthen_Inr_iff ret_Inr_iff)
  ultimately show thesis using that [OF a] by blast
qed

definition rows_stay :: "db \<Rightarrow> db \<Rightarrow> bool" where
  "rows_stay s t \<longleftrightarrow> (\<forall>i. mailbox_row i s \<noteq> None \<longrightarrow> mailbox_row i t \<noteq> None)"

interpretation rs: frame_relation rows_stay
  by unfold_locales (simp_all add: rows_stay_def)

lemma rows_stay_quiet: "steps quiet m \<Longrightarrow> steps rows_stay m"
  by (fastforce simp: steps_def rows_stay_def quiet_def)

lemma occupy_keeps_row:
  assumes "occupy_mailbox env q p wants_plus site defer ty m s = (Inr res, t)" and "mailbox_row (mb_id m) s = Some m"
    and "\<And>i. steps quiet (ae_ensure_access_token env i)"
  shows "mailbox_row (mb_id m) t \<noteq> None"
proof -
  have "rows_stay s (write_mailbox x s)" for x s
    by (auto simp: rows_stay_def mailbox_row_def write_mailbox_def split: option.split)
  moreover have "steps rows_stay (insert_lease l)" for l
    by (auto simp: steps_def rows_stay_def insert_lease_run mailbox_row_def)
  moreover have "steps rows_stay (unavailable_on_conflict (upsert_lease_claim now l a))" for now l a
    by (auto simp: steps_def unavailable_state rows_stay_def upsert_run mailbox_row_def)
  ultimately have "steps rows_stay (occupy_mailbox env q p wants_plus site defer ty m)"
    unfolding occupy_mailbox_def Let_def
    by (intro rs.bnd rs.andthen rs.modify rows_stay_quiet [OF qt_allocate] rows_stay_quiet [OF qt_credential]
        rows_stay_quiet [OF qt_audit_acquired] rs.ret rows_stay_quiet [OF qt_record_site] rs.if_then_else assms(3))
  from stepsD_eq [OF this assms(1)] assms(2) show ?thesis by (simp add: rows_stay_def)
qed

lemma body_selects:
  assumes "acquire_lease_body env q p wants_plus site defer ty s = (Inr res, t)" and "ty \<noteq> ''smsbower_gmail''"
  obtains m where "m \<in> set (mailboxes s)" and "mb_id m \<notin> set (ae_locked env)"
    and "mailbox_eligible (ae_now env) (aq_mode q) ty wants_plus site (normalized_preferred (aq_preferred_email q)) s m"
    and "occupy_mailbox env q p wants_plus site defer ty m s = (Inr res, t)"
proof -
  obtain m where "select_mailbox (ae_locked env) (mailbox_eligible (ae_now env) (aq_mode q) ty wants_plus site
        (normalized_preferred (aq_preferred_email q)) s) s = Some m"
    and "occupy_mailbox env q p wants_plus site defer ty m s = (Inr res, t)"
    using assms by (auto simp: acquire_lease_body_def Let_def returns split: option.splits)
  with least_row that show thesis by metis
qed

lemma smsbower_no_mailbox:
  "acquire_smsbower_mail_read_lease env q p site s = (Inr res, t) \<Longrightarrow> ar_mailbox_id res = None"
  by (auto simp: acquire_smsbower_mail_read_lease_def Let_def returns split: option.splits)

text \<open>
  C15. What acquiring an owned mailbox grants: the lease is new, belongs to the caller, runs exactly for
  the requested time and has its claim in the occupancy table; the mailbox it names was active, not
  locked by another transaction and, for a mail-read lease, has a proven mail channel; and unless an
  alias was asked for, no lease and no claim was live on it before.
\<close>

theorem acquired_lease_recorded:
  assumes "acquire_lease_body env q p wants_plus site defer ty s = (Inr res, t)" and "ty \<noteq> ''smsbower_gmail''"
    and "\<And>i. steps quiet (ae_ensure_access_token env i)" and "0 < aq_ttl_seconds q"
  shows "\<exists>m l. m \<in> set (mailboxes s) \<and> ar_mailbox_id res = Some (mb_id m) \<and> mb_status m = MbActive
     \<and> mb_provider_type m = ty \<and> mb_id m \<notin> set (ae_locked env)
     \<and> (wants_plus \<or> mailbox_free (ae_now env) (mb_id m) s)
     \<and> (aq_mode q = MailRead \<and> ty = default_provider_type \<longrightarrow> mb_capability m \<in> {Some CapImap, Some CapGraph})
     \<and> leases t = leases s @ [l] \<and> ls_id l \<notin> ls_id ` set (leases s) \<and> ls_id l = ar_lease_id res
     \<and> ls_client_key_id l = Some (client_key_id p) \<and> ls_mailbox_id l = Some (mb_id m) \<and> ls_mode l = aq_mode q
     \<and> lease_active (ae_now env) l \<and> ls_expires_at l = ae_now env + secs (aq_ttl_seconds q)
     \<and> claim_of_lease l (ar_allocated_email res) \<in> set (claims t)"
proof -
  from body_selects [OF assms(1,2)] obtain m where m: "m \<in> set (mailboxes s)" "mb_id m \<notin> set (ae_locked env)"
    "mailbox_eligible (ae_now env) (aq_mode q) ty wants_plus site (normalized_preferred (aq_preferred_email q)) s m"
    "occupy_mailbox env q p wants_plus site defer ty m s = (Inr res, t)" .
  from occupy_success [OF m(4) assms(3)] obtain a s1 where o1:
    "leases t = leases s @ [mailbox_lease env q p ty m a]"
    "claims t = claims_without (ae_now env) (mailbox_lease env q p ty m a) s @ [claim_of_lease (mailbox_lease env q p ty m a) a]"
    "ae_lease_id env \<notin> ls_id ` set (leases s)" "ar_lease_id res = ae_lease_id env" "ar_mailbox_id res = Some (mb_id m)"
    "ar_allocated_email res = a" by metis
  have "lease_active (ae_now env) (mailbox_lease env q p ty m a)" using secs_pos [OF assms(4)] by (simp add: lease_active_def)
  with m o1 show ?thesis
    by (intro exI [of _ m] exI [of _ "mailbox_lease env q p ty m a"]) (simp add: mailbox_eligible_def)
qed

definition sample_env :: "string \<Rightarrow> time \<Rightarrow> acquire_env" where
  \<comment> \<open>an environment whose token service always fails, for the concrete runs below\<close>
  "sample_env i now = \<lparr>ae_now = now, ae_lease_id = i, ae_resource_id = ''r'', ae_usage_id = ''u'', ae_operation_id = ''o'',
     ae_locked = [], ae_draw = (\<lambda>_. ''zz''), ae_decrypt = Some, ae_encrypt = (\<lambda>x. x), ae_dumps = (\<lambda>_. []), ae_str = (\<lambda>_. []),
     ae_ensure_access_token = (\<lambda>_. throw CredentialUnreadable), ae_provision = None\<rparr>"

definition sample_request :: acquire_request where
  "sample_request = \<lparr>aq_mode = AccessToken, aq_ttl_seconds = 60, aq_preferred_email = None, aq_client_tag = None,
     aq_purpose = None, aq_use_plus_alias = False, aq_preferred_alias_suffix = None, aq_usage_site = None,
     aq_provider = NoProvider, aq_exclude_providers = NoProvider, aq_explicit_provider_request = False\<rparr>"

definition sample_db :: db where
  "sample_db = empty_db\<lparr>mailboxes := [sample_mailbox ''m'']\<rparr>"

lemma sample_db_fields [simp]:
  "mailboxes sample_db = [sample_mailbox ''m'']" "leases sample_db = []" "claims sample_db = []" "resources sample_db = []"
  by (simp_all add: sample_db_def empty_db_def)

lemma sample_env_fields [simp]:
  "ae_now (sample_env i now) = now" "ae_lease_id (sample_env i now) = i" "ae_locked (sample_env i now) = []"
  "ae_ensure_access_token (sample_env i now) = (\<lambda>_. throw CredentialUnreadable)" "ae_operation_id (sample_env i now) = ''o''"
  by (simp_all add: sample_env_def)

lemma sample_request_fields [simp]:
  "aq_mode sample_request = AccessToken" "aq_ttl_seconds sample_request = 60" "aq_preferred_email sample_request = None"
  "aq_use_plus_alias sample_request = False" "aq_preferred_alias_suffix sample_request = None"
  "aq_usage_site sample_request = None" "aq_provider sample_request = NoProvider"
  "aq_exclude_providers sample_request = NoProvider"
  "sample_request\<lparr>aq_mode := AccessToken, aq_use_plus_alias := False, aq_preferred_alias_suffix := None\<rparr> = sample_request"
  by (simp_all add: sample_request_def)

lemma sample_ensure: "steps quiet (ae_ensure_access_token (sample_env i now) j)"
  by (simp add: qt.throw)

lemma sample_occupancy: "occupancy_ok now sample_db"
  by (simp add: occupancy_ok_def claims_ok_def sample_fields)

lemma sample_body:
  "fst (acquire_lease_body (sample_env ''l'' 0) sample_request sample_principal False None True ''microsoft'' sample_db)
     = Inr (mailbox_result (mailbox_lease (sample_env ''l'' 0) sample_request sample_principal ''microsoft'' (sample_mailbox ''m'') None)
              (sample_mailbox ''m'') None None)"
proof -
  have sel: "select_mailbox [] (mailbox_eligible 0 AccessToken ''microsoft'' False None (normalized_preferred None) sample_db) sample_db
      = Some (sample_mailbox ''m'')"
    by (simp add: select_mailbox_def mailbox_eligible_def sample_fields mailbox_free_def normalized_preferred_def
        default_provider_type_def)
  show ?thesis
    by (simp add: acquire_lease_body_def Let_def bnd_run [of "asks f" for f] asks_run sel occupy_mailbox_def allocate_address_def
        bnd_run ret_run andthen_run modify_run insert_lease_run write_mailbox_def unavailable_on_conflict_def
        catch_run upsert_run blocking_claim_def claims_without_def credential_result_def audit_mailbox_acquired_def
        write_audit_log_def write_audit_event_def add_audit_run mailbox_result_def)
qed

theorem acquired_lease_recorded_witness:
  "\<exists>(t::db) l. leases t = [l] \<and> ls_id l = ''l'' \<and> ls_mailbox_id l = Some ''m'' \<and> lease_active 0 l"
proof -
  obtain res t where b: "acquire_lease_body (sample_env ''l'' 0) sample_request sample_principal False None True ''microsoft'' sample_db = (Inr res, t)"
    and res: "ar_lease_id res = ''l''"
    using sample_body by (metis mailbox_lease_fields(1) mailbox_result_fields(1) prod.collapse sample_env_fields(2))
  obtain l where "leases t = leases sample_db @ [l]" "ls_id l = ar_lease_id res" "ls_mailbox_id l = Some ''m''"
      "lease_active (ae_now (sample_env ''l'' 0)) l"
    using acquired_lease_recorded [OF b _ sample_ensure] by (auto simp: sample_fields)
  with res show ?thesis by (intro exI [of _ t] exI [of _ l]) simp
qed

subsection \<open>Nobody else gets it\<close>

text \<open>
  C13. The occupancy rule survives every history of requests: whatever clients acquire, re-acquire,
  release and update, in any order and with any outcome, two different live claims on one mailbox
  are never both exclusive, every claim has its running lease and its holder row, and claim keys
  and addresses stay unique.
\<close>

theorem occupancy_invariant:
  assumes "occupancy_ok now s" and "lease_history P now s now' t"
  shows "occupancy_ok now' t
     \<and> (\<forall>c \<in> set (claims t). \<forall>d \<in> set (claims t). lc_lease_id c \<noteq> lc_lease_id d \<and> present (lc_mailbox_id c)
          \<and> lc_mailbox_id d = lc_mailbox_id c \<and> claim_live now' c \<and> claim_live now' d
          \<longrightarrow> \<not> (exclusive_claim t c \<and> exclusive_claim t d))"
proof -
  have ok: "occupancy_ok now' t" using history_keeps [OF assms(2,1)] .
  then have "claims_ok now' t" by (rule occupancy_ok_claims)
  then have "\<forall>c \<in> set (claims t). \<forall>d \<in> set (claims t). lc_lease_id c \<noteq> lc_lease_id d \<and> held_together c d \<and> claim_live now' c
      \<and> claim_live now' d \<longrightarrow> \<not> (exclusive_claim t c \<and> exclusive_claim t d)" by (simp add: claims_ok_def)
  moreover have "held_together c d" if "present (lc_mailbox_id c)" "lc_mailbox_id d = lc_mailbox_id c" for c d
    using that by (simp add: held_together_def same_holder_def)
  ultimately show ?thesis using ok by blast
qed

text \<open>
  C14. A lease is safe from other clients: while it runs, no history of other clients' requests removes
  or changes the lease or its claim, and at any such moment an acquisition that does not ask for an
  alias never returns the mailbox the lease holds.
\<close>

theorem lease_isolated_from_others:
  assumes "occupancy_ok now s" and "l \<in> set (leases s)" and "c \<in> set (claims s)" and "ls_id l = lc_lease_id c"
    and "lease_history (\<lambda>p. ls_client_key_id l \<noteq> Some (client_key_id p)) now s now' t" and "now' < lc_expires_at c"
  shows "l \<in> set (leases t) \<and> c \<in> set (claims t)
     \<and> (\<forall>env q p site defer ty res u. ae_now env = now' \<longrightarrow> acquire_lease_body env q p False site defer ty t = (Inr res, u)
          \<longrightarrow> ar_mailbox_id res = None \<or> ar_mailbox_id res \<noteq> lc_mailbox_id c)"
proof (intro conjI allI impI)
  show lc: "l \<in> set (leases t)" "c \<in> set (claims t)"
    using history_keeps_other [OF assms(5,1,2,3,4,6)] by simp_all
  fix env q p site df ty res u
  assume now: "ae_now env = now'" and body: "acquire_lease_body env q p False site df ty t = (Inr res, u)"
  show "ar_mailbox_id res = None \<or> ar_mailbox_id res \<noteq> lc_mailbox_id c"
  proof (cases "ty = ''smsbower_gmail''")
    case True
    then show ?thesis using body smsbower_no_mailbox by (auto simp: acquire_lease_body_def returns)
  next
    case False
    from body_selects [OF body False] obtain m where m:
      "mailbox_eligible (ae_now env) (aq_mode q) ty False site (normalized_preferred (aq_preferred_email q)) t m"
      "occupy_mailbox env q p False site df ty m t = (Inr res, u)" .
    have "ar_mailbox_id res = Some (mb_id m)"
      using m(2) credential_fields by (fastforce simp: occupy_mailbox_def Let_def bnd_Inr_iff andthen_Inr_iff ret_Inr_iff)
    moreover have "lc_mailbox_id c \<noteq> Some (mb_id m)"
      using m(1) lc(2) assms(6) now by (auto simp: mailbox_eligible_def mailbox_free_def list_ex_iff claim_live_def)
    ultimately show ?thesis by auto
  qed
qed

theorem occupancy_invariant_witness:
  "\<exists>t. claims t \<noteq> [] \<and> occupancy_ok 5 t"
proof -
  let ?env = "\<lambda>_::nat. sample_env ''l'' 5"
  let ?q = "sample_request\<lparr>aq_mode := RefreshToken\<rparr>"
  let ?p = "sample_principal\<lparr>scopes := [''leases:acquire'', ''tokens:refresh:read'']\<rparr>"
  have one: "lease_step 5 ?p sample_db (snd (acquire_endpoint ?env id ?q ?p sample_db))"
    by (intro lease_step.acquire) (simp_all add: qt.throw)
  have h: "lease_history (\<lambda>_. True) 0 sample_db 5 (snd (acquire_endpoint ?env id ?q ?p sample_db))"
    by (rule lease_history.request [OF lease_history.start _ _ one]) simp_all
  have all: "''microsoft'' \<in> set all_provider_types" by code_simp
  have sel: "select_mailbox [] (mailbox_eligible 5 RefreshToken ''microsoft'' False None (normalized_preferred None) sample_db) sample_db
      = Some (sample_mailbox ''m'')"
    by (simp add: select_mailbox_def mailbox_eligible_def sample_fields mailbox_free_def normalized_preferred_def
        default_provider_type_def)
  have "claims (snd (acquire_endpoint ?env id ?q ?p sample_db)) \<noteq> []"
    by (simp add: acquire_endpoint_def request_session_def transaction_run acquire_lease_def bnd_run asks_run andthen_run
        require_scope_def require_run input_given_def single_mode_provider_def default_provider_type_def all
        acquire_single_provider_lease_def Let_def resolve_request_site_def ret_run
        acquire_lease_body_def sel occupy_mailbox_def allocate_address_def modify_run insert_lease_run write_mailbox_def
        unavailable_on_conflict_def catch_run upsert_run blocking_claim_def claims_without_def credential_result_def
        audit_mailbox_acquired_def write_audit_log_def write_audit_event_def add_audit_run mailbox_result_def
        sample_env_def sample_fields)
  with occupancy_invariant [OF sample_occupancy h] show ?thesis by blast
qed

theorem lease_isolated_from_others_witness:
  "\<exists>l c. \<forall>t. lease_history (\<lambda>p. client_key_id p = ''other'') 0
      (sample_db\<lparr>leases := [l], claims := [c]\<rparr>) 50 t \<longrightarrow> c \<in> set (claims t)"
proof -
  let ?l = "sample_lease ''l'' ''m'' AccessToken"
  let ?c = "claim_of_lease ?l None"
  let ?s = "sample_db\<lparr>leases := [?l], claims := [?c]\<rparr>"
  have row: "mailbox_row ''m'' ?s = Some (sample_mailbox ''m'')" by (simp add: mailbox_row_def row_by_def sample_fields)
  have ok: "occupancy_ok 0 ?s"
    using row by (simp add: occupancy_ok_def claims_ok_def sample_fields holder_exists_def lease_backs_def)
  have "?c \<in> set (claims t)" if "lease_history (\<lambda>p. client_key_id p = ''other'') 0 ?s 50 t" for t
  proof -
    have "lease_history (\<lambda>p. ls_client_key_id ?l \<noteq> Some (client_key_id p)) 0 ?s 50 t"
      using that by (rule history_mono) simp
    from lease_isolated_from_others [OF ok _ _ _ this, of ?c] show ?thesis by simp
  qed
  then show ?thesis by blast
qed

subsection \<open>A failed token request\<close>

lemma owned_last:
  assumes "ls_id l \<notin> ls_id ` set ls" and "ls_client_key_id l = Some (client_key_id p)" and "leases s = ls @ [l]"
  shows "owned_lease p (ls_id l) s = Some l"
proof -
  have "find (\<lambda>x. ls_id x = ls_id l \<and> ls_client_key_id x = Some (client_key_id p)) ls = None"
    using assms(1) by (auto simp: find_None_iff rev_image_eqI)
  with assms(2,3) show ?thesis by (simp add: owned_lease_def find_append)
qed

lemma put_last: "ls_id l \<notin> ls_id ` set ls \<Longrightarrow> ls_id l' = ls_id l \<Longrightarrow> put_row ls_id l' (ls @ [l]) = ls @ [l']"
  by (induction ls) (auto simp: rev_image_eqI)

lemma release_own_mailbox_lease:
  assumes "owned_lease p i s = Some l" and "ls_mailbox_id l = Some mb" and "mb \<noteq> []" and "mailbox_row mb s \<noteq> None"
    and "ls_released_at l = None" and "ls_provider_type l = default_provider_type"
  shows "\<exists>t. release_lease_internal op now p i s = (Inr \<lparr>rr_lease_id = i, rr_released_at = now\<rparr>, t)
     \<and> claims t = delete_where (\<lambda>c. lc_lease_id c = i) (claims s)
     \<and> leases t = put_row ls_id (l\<lparr>ls_released_at := Some now\<rparr>) (leases s)"
proof -
  have id: "ls_id l = i" using owned_leaseD [OF assms(1)] by simp
  have ld: "load_owned_lease_mailbox_first now p i False s = (Inr l, s)"
    using assms(1-4) by (simp add: load_mailbox_first_Inr)
  have "default_provider_type \<notin> set on_demand_provider_types" "default_provider_type \<noteq> ''smsbower_gmail''"
    "default_provider_type \<noteq> []"
    using microsoft_not_on_demand by (simp_all add: default_provider_type_def)
  then show ?thesis
    using assms(5,6) id
    by (simp add: release_lease_internal_def bnd_run [of "load_owned_lease_mailbox_first now p i False"] ld andthen_run
        modify_run delete_lease_claim_for_lease_def release_provider_side_def bnd_run asks_run Let_def ret_run
        write_audit_log_def write_audit_event_def add_audit_run write_lease_def)
qed

text \<open>
  A token failure leaves no occupancy behind: when an access-token acquisition ends in an error,
  whether the reservation or the token request failed, the occupancy table holds no claim it did not
  hold before, and a lease row it added is already released.
\<close>

theorem failed_token_leaves_no_occupancy:
  assumes "acquire_access_token_lease True env q p s = (Inl e, t)" and ok: "occupancy_ok (ae_now env) s"
    and quiet: "\<And>i. steps quiet (ae_ensure_access_token env i)"
  shows "set (claims t) \<subseteq> set (claims s)
     \<and> (\<forall>l \<in> set (leases t). l \<in> set (leases s) \<or> (ls_id l \<notin> ls_id ` set (leases s) \<and> ls_released_at l = Some (ae_now env)))"
proof -
  let ?q = "q\<lparr>aq_mode := AccessToken, aq_use_plus_alias := False, aq_preferred_alias_suffix := None\<rparr>"
  let ?ty = default_provider_type
  let ?rel = "release_lease_internal (ae_operation_id env) (ae_now env) p"
  obtain v u where v: "acquire_lease_body env ?q p False None True ?ty s = (v, u)" by (metis surj_pair)
  show ?thesis
  proof (cases v)
    case (Inl x)
    then have "t = s" using assms(1) v by (simp add: acquire_access_token_lease_def Let_def bnd_run transaction_run)
    then show ?thesis by simp
  next
    case (Inr res)
    have "?ty \<noteq> ''smsbower_gmail''" by (simp add: default_provider_type_def)
    from body_selects [OF v [unfolded Inr] this] obtain m where m: "m \<in> set (mailboxes s)" "mb_id m \<notin> set (ae_locked env)"
      "mailbox_eligible (ae_now env) (aq_mode ?q) ?ty False None (normalized_preferred (aq_preferred_email ?q)) s m"
      "occupy_mailbox env ?q p False None True ?ty m s = (Inr res, u)" .
    from occupy_success [OF m(4) quiet] obtain a s1 where o1: "leases u = leases s @ [mailbox_lease env ?q p ?ty m a]"
      "claims u = claims_without (ae_now env) (mailbox_lease env ?q p ?ty m a) s @ [claim_of_lease (mailbox_lease env ?q p ?ty m a) a]"
      "ae_lease_id env \<notin> ls_id ` set (leases s)" "ar_lease_id res = ae_lease_id env" "ar_mailbox_id res = Some (mb_id m)" by metis
    let ?l = "mailbox_lease env ?q p ?ty m a"
    obtain r w where w: "ae_ensure_access_token env (mb_id m) u = (r, w)" by (metis surj_pair)
    have qw: "quiet u w" using stepsD_eq [OF quiet w] .
    have row: "mailbox_row (mb_id m) s = Some m" using occupancy_rows(1) [OF ok m(1)] .
    have "mailbox_row (mb_id m) u \<noteq> None" using occupy_keeps_row [OF m(4) row quiet] by simp
    then have roww: "mailbox_row (mb_id m) w \<noteq> None" using qw by (fastforce simp: quiet_def)
    have lw: "leases w = leases s @ [?l]" "claims w = claims u" using qw o1 by (simp_all add: quiet_def)
    have own: "owned_lease p (ae_lease_id env) w = Some ?l"
      using owned_last [of ?l "leases s" p w] o1(3) lw(1) by simp
    have pt: "ls_provider_type ?l = ?ty" using m(3) by (simp add: mailbox_lease_def mailbox_eligible_def default_provider_type_def)
    obtain t' where t': "?rel (ae_lease_id env) w = (Inr \<lparr>rr_lease_id = ae_lease_id env, rr_released_at = ae_now env\<rparr>, t')"
      "claims t' = delete_where (\<lambda>c. lc_lease_id c = ae_lease_id env) (claims w)"
      "leases t' = put_row ls_id (?l\<lparr>ls_released_at := Some (ae_now env)\<rparr>) (leases w)"
      using release_own_mailbox_lease [OF own _ occupancy_ids [OF ok row] roww _ pt] by (auto simp del: release_lease_internal_def)
    have "t = t'"
      using assms(1) v Inr w o1(4,5) t'(1)
      by (cases r) (simp_all add: acquire_access_token_lease_def Let_def bnd_run transaction_run catch_run andthen_run
          ret_run throw_run)
    moreover have "leases t' = leases s @ [?l\<lparr>ls_released_at := Some (ae_now env)\<rparr>]"
      using t'(3) lw(1) put_last [of ?l "leases s"] o1(3) by simp
    moreover have "set (claims t') \<subseteq> set (claims s)"
      using t'(2) lw(2) o1(2) by (auto simp: claims_without_def)
    ultimately show ?thesis using o1(3) by auto
  qed
qed

theorem failed_token_leaves_no_occupancy_witness:
  "\<exists>e t. acquire_access_token_lease True (sample_env ''l'' 0) sample_request sample_principal sample_db = (Inl e, t)
     \<and> claims t = []"
proof -
  let ?run = "acquire_access_token_lease True (sample_env ''l'' 0) sample_request sample_principal sample_db"
  obtain res u where b: "acquire_lease_body (sample_env ''l'' 0) sample_request sample_principal False None True ''microsoft'' sample_db = (Inr res, u)"
    by (metis sample_body prod.collapse)
  have "\<exists>e. fst ?run = Inl e"
    using b by (simp add: acquire_access_token_lease_def Let_def bnd_run transaction_run catch_run andthen_run throw_run
        ret_run default_provider_type_def split: prod.split sum.split)
  then obtain e t where t: "?run = (Inl e, t)" by (metis prod.collapse)
  from failed_token_leaves_no_occupancy [OF t _ sample_ensure] t show ?thesis by (simp add: sample_occupancy)
qed

subsection \<open>Re-acquiring\<close>

lemma scan_accepts:
  assumes "scan_active_leases client a alias own ls = Inr found" and "l \<in> set ls"
  shows "(strip_lower (case ls_allocated_email l of None \<Rightarrow> [] | Some e \<Rightarrow> e) = a \<or> \<not> alias)
     \<longrightarrow> ls_client_key_id l = Some client \<and> ls_mode l = MailRead \<and> strip_lower (case ls_allocated_email l of None \<Rightarrow> [] | Some e \<Rightarrow> e) = a"
  using assms by (induction ls arbitrary: own) (auto simp: Let_def split: if_splits)

lemma resolve_keeps_email:
  "resolve_reacquire_email e s = (Inr (i, a, k), t) \<Longrightarrow> t = s \<and> a = e"
  by (auto simp: resolve_reacquire_email_def Let_def returns split: option.splits)

lemma reacquire_Inr:
  assumes "reacquire_lease_by_email env p email ttl tag pur s = (Inr res, t)"
  obtains m kind found l where "client_has_mail_read_history (client_key_id p) (strip_lower email) s"
    and "mailbox_row (mb_id m) s = Some m" and "mb_status m = MbActive" and "mb_capability m \<in> {Some CapImap, Some CapGraph}"
    and "mb_id m \<notin> set (ae_locked env)"
    and "scan_active_leases (client_key_id p) (strip_lower email) (kind = PlusAlias) None (active_leases_of (ae_now env) (mb_id m) s) = Inr found"
    and "l = (case found of None \<Rightarrow> reopened_lease env p ttl tag pur m (strip_lower email) | Some own \<Rightarrow> renewed_lease (ae_now env) ttl tag pur own)"
    and "res = reacquire_result l m (strip_lower email) kind"
    and "leases t = (case found of None \<Rightarrow> leases s @ [l] | Some own \<Rightarrow> put_row ls_id l (leases s))"
    and "claim_of_lease l (Some (strip_lower email)) \<in> set (claims t)"
proof -
  let ?a = "strip_lower email"
  obtain i kind m s1 where r: "resolve_reacquire_email ?a s = (Inr (i, ?a, kind), s)"
    and h: "client_has_mail_read_history (client_key_id p) ?a s"
    and m: "reacquirable_mailbox (ae_locked env) i s = (Inr m, s1)"
    using assms resolve_keeps_email reacquirable_Inr
    by (fastforce simp: reacquire_lease_by_email_def Let_def returns require_scope_def)
  have s1: "s1 = s" and mm: "mailbox_row (mb_id m) s = Some m" "mb_id m = i" "i \<notin> set (ae_locked env)" "mb_status m = MbActive"
    "mb_capability m \<in> {Some CapImap, Some CapGraph}" using reacquirable_Inr [OF m] by auto
  let ?scan = "scan_active_leases (client_key_id p) ?a (kind = PlusAlias) None (active_leases_of (ae_now env) (mb_id m) s)"
  have aud: "audit_reacquired p l m ?a kind b u = (v, u') \<Longrightarrow> leases u' = leases u \<and> claims u' = claims u" for l b u v u'
    by (auto simp: audit_reacquired_def write_audit_log_def write_audit_event_def add_audit_run)
  have sc: "''mailboxes:reacquire'' \<in> set (scopes p)" "?a \<noteq> []"
    using assms by (auto simp: reacquire_lease_by_email_def Let_def returns require_scope_def)
  show thesis
  proof (cases ?scan)
    case (Inl e)
    then show thesis
      using assms r h m s1 sc by (simp add: reacquire_lease_by_email_def Let_def run require_scope_def)
  next
    case (Inr found)
    show thesis
    proof (cases found)
      case None
      let ?l = "reopened_lease env p ttl tag pur m ?a"
      have "andthen (insert_lease ?l) (andthen (upsert_lease_claim (ae_now env) ?l (Some ?a))
          (andthen (audit_reacquired p ?l m ?a kind False) (ret (reacquire_result ?l m ?a kind)))) s = (Inr res, t)"
        using assms r h m s1 sc Inr None
        by (simp add: reacquire_lease_by_email_def Let_def require_scope_def bnd_run andthen_run asks_run require_run)
      then have "res = reacquire_result ?l m ?a kind \<and> leases t = leases s @ [?l] \<and> claim_of_lease ?l (Some ?a) \<in> set (claims t)"
        by (auto simp: bnd_Inr_iff andthen_Inr_iff ret_Inr_iff insert_lease_Inr dest!: upsert_Inr aud)
      with that [OF h mm(1,4,5) _ Inr] mm None show thesis by simp
    next
      case (Some own)
      let ?l = "renewed_lease (ae_now env) ttl tag pur own"
      have "andthen (modify (write_lease ?l)) (andthen (upsert_lease_claim (ae_now env) ?l (Some ?a))
          (andthen (audit_reacquired p ?l m ?a kind True) (ret (reacquire_result ?l m ?a kind)))) s = (Inr res, t)"
        using assms r h m s1 sc Inr Some
        by (simp add: reacquire_lease_by_email_def Let_def require_scope_def bnd_run andthen_run asks_run require_run)
      then have "res = reacquire_result ?l m ?a kind \<and> leases t = put_row ls_id ?l (leases s) \<and> claim_of_lease ?l (Some ?a) \<in> set (claims t)"
        by (auto simp: bnd_Inr_iff andthen_Inr_iff ret_Inr_iff modify_Inr_iff write_lease_def dest!: upsert_Inr aud)
      with that [OF h mm(1,4,5) _ Inr] mm Some show thesis by simp
    qed
  qed
qed

definition address_of :: "lease \<Rightarrow> string" where
  "address_of l = strip_lower (case ls_allocated_email l of None \<Rightarrow> [] | Some a \<Rightarrow> a)"

lemma scan_finds:
  "scan_active_leases client a alias own ls = Inr found \<Longrightarrow> \<exists>l \<in> set ls. address_of l = a \<Longrightarrow> found \<noteq> None"
proof (induction ls arbitrary: own)
  case (Cons l ls)
  have "scan_active_leases client a alias (Some k) xs = Inr found \<Longrightarrow> found \<noteq> None" for k xs
    by (induction xs arbitrary: k) (auto simp: Let_def split: if_splits)
  with Cons show ?case by (auto simp: Let_def address_of_def split: if_splits)
qed simp

text \<open>
  C16. Re-acquiring gives a client only what was its own: a success means the caller once held a
  mail-read lease of exactly this address and the mailbox is active with a proven channel. Every lease that
  runs on the mailbox under this address - and, when the address is the primary one, every lease that runs on the
  mailbox at all, alias leases included - is a mail-read lease of the caller of this very address; if there is one, it is
  renewed and no second one granted. The lease granted belongs to the caller, runs from now, and has its claim.
\<close>

theorem reacquired_lease_is_own:
  assumes "reacquire_lease_by_email env p email ttl tag pur s = (Inr res, t)" and "0 < ttl"
  shows "client_has_mail_read_history (client_key_id p) (strip_lower email) s \<and> ar_allocated_email res = Some (strip_lower email)
     \<and> (\<exists>m l. m \<in> set (mailboxes s) \<and> ar_mailbox_id res = Some (mb_id m) \<and> mb_status m = MbActive
          \<and> mb_capability m \<in> {Some CapImap, Some CapGraph}
          \<and> (\<forall>x \<in> set (active_leases_of (ae_now env) (mb_id m) s).
               address_of x = strip_lower email \<or> ar_address_kind res = Some PrimaryAddress
               \<longrightarrow> address_of x = strip_lower email \<and> ls_client_key_id x = Some (client_key_id p) \<and> ls_mode x = MailRead)
          \<and> ((\<exists>x \<in> set (active_leases_of (ae_now env) (mb_id m) s). address_of x = strip_lower email)
               \<longrightarrow> length (leases t) = length (leases s)
                 \<and> (\<exists>x \<in> set (active_leases_of (ae_now env) (mb_id m) s). address_of x = strip_lower email \<and> ls_id x = ls_id l))
          \<and> l \<in> set (leases t) \<and> ls_id l = ar_lease_id res \<and> ls_client_key_id l = Some (client_key_id p)
          \<and> ls_mode l = MailRead \<and> lease_active (ae_now env) l \<and> ls_expires_at l = ae_now env + secs ttl
          \<and> claim_of_lease l (Some (strip_lower email)) \<in> set (claims t))"
proof -
  from reacquire_Inr [OF assms(1)] obtain m kind found l where r: "client_has_mail_read_history (client_key_id p) (strip_lower email) s"
    "mailbox_row (mb_id m) s = Some m" "mb_status m = MbActive" "mb_capability m \<in> {Some CapImap, Some CapGraph}"
    "scan_active_leases (client_key_id p) (strip_lower email) (kind = PlusAlias) None (active_leases_of (ae_now env) (mb_id m) s) = Inr found"
    "l = (case found of None \<Rightarrow> reopened_lease env p ttl tag pur m (strip_lower email) | Some own \<Rightarrow> renewed_lease (ae_now env) ttl tag pur own)"
    "res = reacquire_result l m (strip_lower email) kind"
    "leases t = (case found of None \<Rightarrow> leases s @ [l] | Some own \<Rightarrow> put_row ls_id l (leases s))"
    "claim_of_lease l (Some (strip_lower email)) \<in> set (claims t)" by metis
  have own: "own \<in> set (leases s) \<and> ls_client_key_id own = Some (client_key_id p) \<and> ls_mode own = MailRead \<and> ls_released_at own = None
      \<and> own \<in> set (active_leases_of (ae_now env) (mb_id m) s) \<and> address_of own = strip_lower email"
    if "found = Some own" for own
    using scan_own [OF r(5) [unfolded that] refl] by (auto simp: active_leases_of_def lease_active_def address_of_def)
  have "l \<in> set (leases t)"
    using r(6,8) own by (cases found) (auto simp: put_row_def set_update_where intro: bexI)
  moreover have "ls_client_key_id l = Some (client_key_id p) \<and> ls_mode l = MailRead \<and> ls_released_at l = None
      \<and> ls_expires_at l = ae_now env + secs ttl"
    using r(6) own by (cases found) simp_all
  moreover have "\<forall>x \<in> set (active_leases_of (ae_now env) (mb_id m) s).
       address_of x = strip_lower email \<or> ar_address_kind res = Some PrimaryAddress
       \<longrightarrow> address_of x = strip_lower email \<and> ls_client_key_id x = Some (client_key_id p) \<and> ls_mode x = MailRead"
    using scan_accepts [OF r(5)] r(7) by (fastforce simp: address_of_def)
  moreover have "length (leases t) = length (leases s)
      \<and> (\<exists>x \<in> set (active_leases_of (ae_now env) (mb_id m) s). address_of x = strip_lower email \<and> ls_id x = ls_id l)"
    if running: "\<exists>x \<in> set (active_leases_of (ae_now env) (mb_id m) s). address_of x = strip_lower email"
  proof -
    obtain k where "found = Some k" using scan_finds [OF r(5) running] by blast
    with own r(6,8) show ?thesis by (auto simp: put_row_def)
  qed
  ultimately show ?thesis
    using r mailbox_row_id [OF r(2)] secs_pos [OF assms(2)]
    by (intro conjI exI [of _ m] exI [of _ l]) (simp_all add: lease_active_def)
qed

lemma sample_resolve:
  "resolve_reacquire_email ''m@x.com'' (sample_db\<lparr>leases := ls\<rparr>) = (Inr (''m'', ''m@x.com'', PrimaryAddress), sample_db\<lparr>leases := ls\<rparr>)"
proof -
  have "valid_address ''m@x.com''" by code_simp
  then show ?thesis by (simp add: resolve_reacquire_email_def Let_def run mailbox_by_email_def row_by_def sample_fields)
qed

theorem reacquired_lease_is_own_witness:
  "\<exists>res t. reacquire_lease_by_email (sample_env ''n'' 5) sample_principal ''m@x.com'' 60 None None
      (sample_db\<lparr>leases := [(sample_lease ''l'' ''m'' MailRead)\<lparr>ls_allocated_email := Some ''m@x.com''\<rparr>]\<rparr>) = (Inr res, t)
     \<and> ar_mailbox_id res = Some ''m'' \<and> (\<exists>l \<in> set (leases t). ls_expires_at l = 5 + secs 60)"
proof -
  let ?l = "(sample_lease ''l'' ''m'' MailRead)\<lparr>ls_allocated_email := Some ''m@x.com''\<rparr>"
  let ?s = "sample_db\<lparr>leases := [?l]\<rparr>"
  have e: "strip_lower ''m@x.com'' = ''m@x.com''" by code_simp
  have row: "mailbox_row ''m'' ?s = Some (sample_mailbox ''m'')" by (simp add: mailbox_row_def row_by_def sample_fields)
  have rm: "reacquirable_mailbox [] ''m'' ?s = (Inr (sample_mailbox ''m''), ?s)"
    by (simp add: reacquirable_mailbox_def run row sample_fields)
  have act: "active_leases_of 5 ''m'' ?s = [?l]" by (simp add: active_leases_of_def lease_active_def)
  have "\<exists>res. fst (reacquire_lease_by_email (sample_env ''n'' 5) sample_principal ''m@x.com'' 60 None None ?s) = Inr res"
    by (simp add: reacquire_lease_by_email_def Let_def e require_scope_def andthen_run bnd_run require_run sample_resolve
        client_has_mail_read_history_def asks_run rm sample_fields act modify_run upsert_run blocking_claim_def claims_without_def
        audit_reacquired_def write_audit_log_def write_audit_event_def add_audit_run ret_run)
      (simp add: write_lease_def)
  then obtain res t where r: "reacquire_lease_by_email (sample_env ''n'' 5) sample_principal ''m@x.com'' 60 None None ?s = (Inr res, t)"
    by (metis prod.collapse)
  obtain m l where "m \<in> set (mailboxes ?s)" "ar_mailbox_id res = Some (mb_id m)" "l \<in> set (leases t)"
    "ls_expires_at l = ae_now (sample_env ''n'' 5) + secs 60"
    using reacquired_lease_is_own [OF r] by auto
  with r show ?thesis by (auto simp: sample_fields)
qed

text \<open>
  The re-acquire path answers "not found" both for an address that does not exist and for one
  the caller never held, so that the existence of a mailbox stays hidden. For an address with a plus
  sign whose suffix is not an alias suffix it does not: the answer is "not found" when a mailbox has
  that very address and a value error when none has.
\<close>

lemma reacquire_reveals_plus_mailboxes:
  "\<exists>e s0 s1 p env. \<not> client_has_mail_read_history (client_key_id p) e s0 \<and> \<not> client_has_mail_read_history (client_key_id p) e s1
     \<and> fst (reacquire_lease_by_email env p e 60 None None s0) = Inl LeaseValueError
     \<and> fst (reacquire_lease_by_email env p e 60 None None s1) = Inl LeaseEmailNotFound"
proof -
  let ?m = "(sample_mailbox ''m'')\<lparr>mb_primary_email := ''a+b_c@x.com''\<rparr>"
  let ?s = "empty_db\<lparr>mailboxes := [?m]\<rparr>"
  have e: "strip_lower ''a+b_c@x.com'' = ''a+b_c@x.com''" "valid_address ''a+b_c@x.com''"
    "before (CHR ''@'') ''a+b_c@x.com'' = ''a+b_c''" "before (CHR ''+'') ''a+b_c'' = ''a''" "after (CHR ''+'') ''a+b_c'' = ''b_c''"
    "\<not> list_all alias_char ''b_c''" by code_simp+
  show ?thesis
    by (intro exI [of _ "''a+b_c@x.com''"] exI [of _ empty_db] exI [of _ ?s] exI [of _ sample_principal] exI [of _ "sample_env ''n'' 5"])
      (use e in \<open>simp add: reacquire_lease_by_email_def Let_def run require_scope_def resolve_reacquire_email_def
        mailbox_by_email_def row_by_def client_has_mail_read_history_def empty_db_def sample_fields\<close>)
qed

end
