(* ===== verification/ProxyPool.thy ===== *)
theory ProxyPool
  imports TokenRepo
begin

text \<open>
  The egress proxy pool (\<open>proxy_service.py\<close>): the policy row, sticky resolution of a mailbox's proxy
  with candidate selection under \<open>SKIP LOCKED\<close>, binding, health observations, the one failover of
  an outbound operation, and the reading of a Microsoft token response. Sockets, HTTP and IMAP are
  parameters (the outcome of one attempt); the rows other transactions hold locked are a parameter per
  attempt; one clock reading per call.
\<close>

datatype proxy_error =
    NoHealthyProxy | ProxyTransport | OAuthFailure | InvalidGrant | ProxyLookup | ProxyValue
  | CipherMissing | DecryptFailure | HealthEventClash | ImapRefused | SocketFailure | OtherProxyError

record proxy_settings =
  \<comment> \<open>the part of the settings the pool reads\<close>
  ps_proxy_enabled :: bool
  ps_proxy_required :: bool
  ps_connect_timeout :: int
  ps_read_timeout :: int
  ps_failure_threshold :: int
  ps_cooldown_seconds :: int
  ps_switch_minimum_interval :: int

record resolved_proxy =
  rx_id :: string
  rx_protocol :: proxy_protocol
  rx_host :: string
  rx_port :: int
  rx_username :: "string option"
  rx_password :: "string option"

definition protocol_value :: "proxy_protocol \<Rightarrow> string" where
  "protocol_value p = (case p of HttpConnect \<Rightarrow> ''http_connect'' | Socks5 \<Rightarrow> ''socks5'')"

subsection \<open>The proxy URL\<close>

definition hex_digit :: "nat \<Rightarrow> char" where
  "hex_digit n = (if n < 10 then char_of (48 + n) else char_of (55 + n))"

definition percent_byte :: "nat \<Rightarrow> string" where
  "percent_byte n = [CHR ''%'', hex_digit (n div 16), hex_digit (n mod 16)]"

definition url_safe :: "char \<Rightarrow> bool" where
  \<comment> \<open>what \<open>quote(s, safe="")\<close> leaves alone\<close>
  "url_safe c \<longleftrightarrow> is_ascii_digit c \<or> is_upper_ascii c \<or> is_lower_ascii c \<or> c \<in> set ''_.-~''"

definition quote_char :: "char \<Rightarrow> string" where
  "quote_char c = (if url_safe c then [c] else concat (map percent_byte (utf8_bytes c)))"

definition quote :: "string \<Rightarrow> string" where
  "quote s = concat (map quote_char s)"

definition as_httpx_proxy_url :: "(int \<Rightarrow> string) \<Rightarrow> resolved_proxy \<Rightarrow> string" where
  "as_httpx_proxy_url str_of p =
     (let scheme = (if rx_protocol p = HttpConnect then ''http'' else ''socks5'');
          credentials = (case rx_username p of None \<Rightarrow> []
            | Some u \<Rightarrow> quote u @ '':'' @ quote (case rx_password p of None \<Rightarrow> [] | Some w \<Rightarrow> w) @ ''@'')
      in scheme @ ''://'' @ credentials @ rx_host p @ '':'' @ str_of (rx_port p))"

subsection \<open>Policy and availability\<close>

definition default_policy :: "proxy_settings \<Rightarrow> time \<Rightarrow> proxy_policy" where
  "default_policy st now =
     \<lparr>pp_enabled = ps_proxy_enabled st, pp_required = ps_proxy_required st,
      pp_allowed_protocols = [protocol_value HttpConnect, protocol_value Socks5],
      pp_connect_timeout_seconds = ps_connect_timeout st, pp_read_timeout_seconds = ps_read_timeout st,
      pp_health_check_interval_seconds = 300, pp_failure_threshold = ps_failure_threshold st,
      pp_cooldown_seconds = ps_cooldown_seconds st, pp_switch_minimum_interval_seconds = ps_switch_minimum_interval st,
      pp_allow_direct_development = (\<not> ps_proxy_required st), pp_updated_at = now\<rparr>"

definition ensure_policy :: "proxy_settings \<Rightarrow> time \<Rightarrow> (db, proxy_error, proxy_policy) action" where
  "ensure_policy st now =
     bnd (asks policies) (\<lambda>row. case row of
       Some p \<Rightarrow> ret p
     | None \<Rightarrow> (let p = default_policy st now in andthen (modify (\<lambda>s. s\<lparr>policies := Some p\<rparr>)) (ret p)))"

definition is_proxy_available :: "time \<Rightarrow> proxy_policy \<Rightarrow> egress_proxy \<Rightarrow> bool" where
  "is_proxy_available now pol p =
     (if \<not> px_enabled p \<or> protocol_value (px_protocol p) \<notin> set (pp_allowed_protocols pol) then False
      else if px_status p \<noteq> PxCooldown then True
      else (case px_cooldown_until p of None \<Rightarrow> False | Some u \<Rightarrow> u \<le> now))"

definition proxy_row :: "string \<Rightarrow> db \<Rightarrow> egress_proxy option" where
  "proxy_row i s = row_by px_id i (proxies s)"

definition write_proxy :: "egress_proxy \<Rightarrow> db \<Rightarrow> db" where
  "write_proxy p s = s\<lparr>proxies := put_row px_id p (proxies s)\<rparr>"

definition put_mailbox :: "mailbox \<Rightarrow> db \<Rightarrow> db" where
  "put_mailbox m s = s\<lparr>mailboxes := put_row mb_id m (mailboxes s)\<rparr>"

subsection \<open>Candidates\<close>

definition bound_mailbox_count :: "string \<Rightarrow> db \<Rightarrow> nat" where
  "bound_mailbox_count i s = length (filter (\<lambda>m. mb_egress_proxy_id m = Some i) (mailboxes s))"

definition candidate_proxy :: "time \<Rightarrow> proxy_policy \<Rightarrow> string list \<Rightarrow> egress_proxy \<Rightarrow> bool" where
  \<comment> \<open>the WHERE clauses of the ranking query\<close>
  "candidate_proxy now pol excluded p \<longleftrightarrow>
     px_enabled p \<and> protocol_value (px_protocol p) \<in> set (pp_allowed_protocols pol)
     \<and> (px_status p \<noteq> PxCooldown \<or> px_cooldown_until p = None \<or> the (px_cooldown_until p) \<le> now)
     \<and> px_id p \<notin> set excluded"

definition ranked_candidates :: "time \<Rightarrow> proxy_policy \<Rightarrow> string list \<Rightarrow> db \<Rightarrow> egress_proxy list" where
  "ranked_candidates now pol excluded s =
     sort_key (\<lambda>p. (px_priority p, bound_mailbox_count (px_id p) s, px_id p))
       (filter (candidate_proxy now pol excluded) (proxies s))"

definition first_lockable :: "string list \<Rightarrow> time \<Rightarrow> proxy_policy \<Rightarrow> egress_proxy list \<Rightarrow> egress_proxy option" where
  "first_lockable locked now pol = find (\<lambda>p. px_id p \<notin> set locked \<and> is_proxy_available now pol p)"

definition reopen_proxy :: "time \<Rightarrow> egress_proxy \<Rightarrow> egress_proxy" where
  \<comment> \<open>a proxy leaves its expired cooldown as unknown; its failure count stays\<close>
  "reopen_proxy now p = (if px_status p = PxCooldown
     then p\<lparr>px_status := PxUnknown, px_cooldown_until := None, px_updated_at := now\<rparr> else p)"

definition select_candidate ::
    "string list \<Rightarrow> time \<Rightarrow> proxy_policy \<Rightarrow> string list \<Rightarrow> (db, proxy_error, egress_proxy option) action" where
  "select_candidate locked now pol excluded =
     bnd (asks (\<lambda>s. first_lockable locked now pol (ranked_candidates now pol excluded s))) (\<lambda>found. case found of
       None \<Rightarrow> ret None
     | Some p \<Rightarrow> andthen (modify (write_proxy (reopen_proxy now p))) (ret (Some (reopen_proxy now p))))"

fun select_candidate_from ::
    "(nat \<Rightarrow> string list) \<Rightarrow> time \<Rightarrow> proxy_policy \<Rightarrow> string list \<Rightarrow> nat \<Rightarrow> nat \<Rightarrow> (db, proxy_error, egress_proxy option) action" where
  \<comment> \<open>\<open>locked k\<close>: the rows locked by others at attempt \<open>k\<close>\<close>
  "select_candidate_from locked now pol excluded k 0 = ret None"
| "select_candidate_from locked now pol excluded k (Suc left) =
     bnd (select_candidate (locked k) now pol excluded) (\<lambda>found. case found of
       Some p \<Rightarrow> ret (Some p)
     | None \<Rightarrow> select_candidate_from locked now pol excluded (Suc k) left)"

definition select_candidate_with_retry ::
    "(nat \<Rightarrow> string list) \<Rightarrow> time \<Rightarrow> proxy_policy \<Rightarrow> string list \<Rightarrow> (db, proxy_error, egress_proxy option) action" where
  "select_candidate_with_retry locked now pol excluded = select_candidate_from locked now pol excluded 0 8"

subsection \<open>Binding and resolving\<close>

definition audit_system :: "string \<Rightarrow> string \<Rightarrow> string option \<Rightarrow> json \<Rightarrow> (db, proxy_error, unit) action" where
  "audit_system event_type target_type target_id metadata =
     add_audit \<lparr>au_actor_type = ''system'', au_actor_id = None, au_event_type = event_type, au_target_type = target_type,
       au_target_id = target_id, au_operation_id = None, au_metadata = metadata\<rparr>"

definition rebound_mailbox :: "time \<Rightarrow> string option \<Rightarrow> mailbox \<Rightarrow> mailbox" where
  "rebound_mailbox now new_id m = m\<lparr>mb_egress_proxy_id := new_id,
     mb_proxy_bound_at := (if new_id = None then None else Some now), mb_proxy_last_switch_at := Some now, mb_updated_at := now\<rparr>"

definition update_binding :: "time \<Rightarrow> mailbox \<Rightarrow> egress_proxy option \<Rightarrow> string \<Rightarrow> (db, proxy_error, unit) action" where
  "update_binding now m selected reason =
     (let new_id = map_option px_id selected in
      if mb_egress_proxy_id m = new_id then ret ()
      else andthen (modify (put_mailbox (rebound_mailbox now new_id m)))
             (audit_system ''mailbox.egress_proxy_changed'' ''mailbox'' (Some (mb_id m))
               (JObj [(''previous_proxy_id'', jopt (mb_egress_proxy_id m)), (''new_proxy_id'', jopt new_id),
                      (''reason'', JStr reason)])))"

definition decrypt_optional :: "(string \<Rightarrow> string option) option \<Rightarrow> string option \<Rightarrow> (db, proxy_error, string option) action" where
  \<comment> \<open>the cipher, when one is configured; it may fail to decrypt\<close>
  "decrypt_optional cipher c =
     (case c of None \<Rightarrow> ret None
      | Some x \<Rightarrow> (case cipher of None \<Rightarrow> throw CipherMissing
          | Some dec \<Rightarrow> (case dec x of None \<Rightarrow> throw DecryptFailure | Some v \<Rightarrow> ret (Some v))))"

definition to_resolved_proxy :: "(string \<Rightarrow> string option) option \<Rightarrow> egress_proxy \<Rightarrow> (db, proxy_error, resolved_proxy) action" where
  "to_resolved_proxy cipher p =
     bnd (decrypt_optional cipher (px_username_ciphertext p)) (\<lambda>u.
     bnd (decrypt_optional cipher (px_password_ciphertext p)) (\<lambda>w.
     ret \<lparr>rx_id = px_id p, rx_protocol = px_protocol p, rx_host = px_host p, rx_port = px_port p, rx_username = u, rx_password = w\<rparr>))"

definition load_mailbox_row :: "string \<Rightarrow> (db, proxy_error, mailbox) action" where
  "load_mailbox_row i = bnd (asks (mailbox_row i)) (\<lambda>row. case row of None \<Rightarrow> throw ProxyLookup | Some m \<Rightarrow> ret m)"

definition current_proxy :: "mailbox \<Rightarrow> db \<Rightarrow> egress_proxy option" where
  "current_proxy m s = (case mb_egress_proxy_id m of None \<Rightarrow> None | Some i \<Rightarrow> proxy_row i s)"

definition sticky_proxy :: "time \<Rightarrow> proxy_policy \<Rightarrow> string list \<Rightarrow> bool \<Rightarrow> mailbox \<Rightarrow> db \<Rightarrow> egress_proxy option" where
  \<comment> \<open>the bound proxy, when it may be reused\<close>
  "sticky_proxy now pol excluded force m s =
     (case current_proxy m s of None \<Rightarrow> None
      | Some p \<Rightarrow> if \<not> force \<and> px_id p \<notin> set excluded \<and> is_proxy_available now pol p then Some p else None)"

record resolve_env =
  re_settings :: proxy_settings
  re_cipher :: "(string \<Rightarrow> string option) option"
  re_now :: time
  re_locked :: "nat \<Rightarrow> string list"

definition resolve_under_policy ::
    "resolve_env \<Rightarrow> proxy_policy \<Rightarrow> string \<Rightarrow> string list \<Rightarrow> bool \<Rightarrow> (db, proxy_error, resolved_proxy option) action" where
  \<comment> \<open>everything after \<open>ensure_policy\<close>\<close>
  "resolve_under_policy env pol i excluded force =
     (let direct = (\<not> pp_required pol \<and> pp_allow_direct_development pol);
          given = (\<lambda>p. bnd (to_resolved_proxy (re_cipher env) p) (\<lambda>r. ret (Some r)))
      in if \<not> pp_enabled pol then andthen (require direct NoHealthyProxy) (ret None)
         else
           bnd (load_mailbox_row i) (\<lambda>m.
           bnd (asks (sticky_proxy (re_now env) pol excluded force m)) (\<lambda>reuse. case reuse of
             Some p \<Rightarrow> given p
           | None \<Rightarrow>
               bnd (load_mailbox_row i) (\<lambda>m2.
               bnd (asks (sticky_proxy (re_now env) pol excluded force m2)) (\<lambda>again. case again of
                 Some p \<Rightarrow> given p
               | None \<Rightarrow>
                   bnd (select_candidate_with_retry (re_locked env) (re_now env) pol excluded) (\<lambda>found. case found of
                     None \<Rightarrow>
                       andthen (require direct NoHealthyProxy)
                      (andthen (update_binding (re_now env) m2 None ''direct_routing'') (ret None))
                   | Some p \<Rightarrow>
                       andthen (update_binding (re_now env) m2 (Some p) ''automatic_failover'') (given p)))))))"

definition resolve_for_mailbox_in_session ::
    "resolve_env \<Rightarrow> string \<Rightarrow> string list \<Rightarrow> bool \<Rightarrow> (db, proxy_error, resolved_proxy option) action" where
  "resolve_for_mailbox_in_session env i excluded force =
     bnd (ensure_policy (re_settings env) (re_now env)) (\<lambda>pol. resolve_under_policy env pol i excluded force)"

definition resolve_for_mailbox ::
    "resolve_env \<Rightarrow> string \<Rightarrow> string list \<Rightarrow> bool \<Rightarrow> (db, proxy_error, resolved_proxy option) action" where
  \<comment> \<open>its own short transaction\<close>
  "resolve_for_mailbox env i excluded force = transaction (resolve_for_mailbox_in_session env i excluded force)"

definition bind_mailbox_to_proxy ::
    "proxy_settings \<Rightarrow> time \<Rightarrow> string \<Rightarrow> string option \<Rightarrow> string \<Rightarrow> (db, proxy_error, unit) action" where
  "bind_mailbox_to_proxy st now i proxy_id reason =
     bnd (load_mailbox_row i) (\<lambda>m.
     bnd (ensure_policy st now) (\<lambda>pol.
       case proxy_id of
         None \<Rightarrow> andthen (require (\<not> pp_required pol) ProxyValue) (update_binding now m None reason)
       | Some pid \<Rightarrow>
           bnd (asks (proxy_row pid)) (\<lambda>row. case row of
             None \<Rightarrow> throw ProxyLookup
           | Some p \<Rightarrow> andthen (require (is_proxy_available now pol p) ProxyValue) (update_binding now m (Some p) reason))))"

subsection \<open>Health\<close>

record proxy_observation =
  ob_proxy_id :: string
  ob_outcome :: string
  ob_observed_at :: time
  ob_operation_id :: "string option"
  ob_latency_ms :: "int option"
  ob_error_summary :: "string option"
  ob_actor_type :: string
  ob_actor_id :: "string option"

definition mark_success :: "time \<Rightarrow> egress_proxy \<Rightarrow> egress_proxy" where
  "mark_success at_time p = p\<lparr>px_status := PxHealthy, px_consecutive_failure_count := 0, px_cooldown_until := None,
     px_last_error_summary := None, px_last_success_at := Some at_time\<rparr>"

definition mark_failure :: "int \<Rightarrow> int \<Rightarrow> time \<Rightarrow> string option \<Rightarrow> egress_proxy \<Rightarrow> egress_proxy" where
  "mark_failure threshold cooldown at_time summary p =
     (let count = px_consecutive_failure_count p + 1;
          q = p\<lparr>px_consecutive_failure_count := count, px_last_failure_at := Some at_time, px_last_error_summary := summary\<rparr>
      in if threshold \<le> count then q\<lparr>px_status := PxCooldown, px_cooldown_until := Some (at_time + secs cooldown)\<rparr>
         else q\<lparr>px_status := PxUnknown\<rparr>)"

definition observed :: "proxy_settings \<Rightarrow> proxy_policy option \<Rightarrow> time \<Rightarrow> proxy_observation \<Rightarrow> egress_proxy \<Rightarrow> egress_proxy" where
  "observed st pol now ob p =
     (let q = (if ob_outcome ob = ''success'' then mark_success (ob_observed_at ob) p
               else mark_failure (case pol of None \<Rightarrow> ps_failure_threshold st | Some x \<Rightarrow> pp_failure_threshold x)
                      (case pol of None \<Rightarrow> ps_cooldown_seconds st | Some x \<Rightarrow> pp_cooldown_seconds x)
                      (ob_observed_at ob) (ob_error_summary ob) p)
      in q\<lparr>px_last_observed_at := Some (ob_observed_at ob), px_health_version := px_health_version q + 1, px_updated_at := now\<rparr>)"

definition jint :: "int option \<Rightarrow> json" where
  "jint n = (case n of None \<Rightarrow> JNull | Some x \<Rightarrow> JInt x)"

definition add_health_event :: "proxy_health_event \<Rightarrow> (db, proxy_error, unit) action" where
  "add_health_event e =
     bnd (asks health_events) (\<lambda>es.
     andthen (require (he_operation_id e \<notin> he_operation_id ` set es) HealthEventClash)
       (modify (\<lambda>s. s\<lparr>health_events := health_events s @ [e]\<rparr>)))"

definition apply_observation ::
    "proxy_settings \<Rightarrow> time \<Rightarrow> string \<Rightarrow> string \<Rightarrow> proxy_observation \<Rightarrow> (db, proxy_error, bool) action" where
  \<comment> \<open>\<open>fresh\<close> and \<open>event_id\<close> are new uuids\<close>
  "apply_observation st now fresh event_id ob =
     (let operation_id = (case ob_operation_id ob of None \<Rightarrow> fresh | Some o1 \<Rightarrow> if o1 = [] then fresh else o1) in
      bnd (asks (proxy_row (ob_proxy_id ob))) (\<lambda>row. case row of
        None \<Rightarrow> ret False
      | Some p \<Rightarrow>
          if (case px_last_observed_at p of None \<Rightarrow> False | Some l \<Rightarrow> ob_observed_at ob < l) then ret False
          else
            bnd (asks policies) (\<lambda>pol.
            (let q = observed st pol now ob p in
             andthen (modify (write_proxy q))
            (andthen (add_health_event \<lparr>he_id = event_id, he_operation_id = operation_id, he_proxy_id = px_id q,
                 he_outcome = ob_outcome ob, he_observed_at = ob_observed_at ob, he_latency_ms = ob_latency_ms ob,
                 he_error_summary = ob_error_summary ob\<rparr>)
            (andthen (add_audit \<lparr>au_actor_type = ob_actor_type ob, au_actor_id = ob_actor_id ob,
                 au_event_type = ''egress_proxy.'' @ ob_outcome ob, au_target_type = ''egress_proxy'', au_target_id = Some (px_id q),
                 au_operation_id = Some operation_id,
                 au_metadata = JObj [(''failure_count'', JInt (px_consecutive_failure_count q)), (''latency_ms'', jint (ob_latency_ms ob))]\<rparr>)
              (ret True)))))))"

definition record_proxy_observation ::
    "proxy_settings \<Rightarrow> time \<Rightarrow> string \<Rightarrow> string \<Rightarrow> proxy_observation \<Rightarrow> (db, proxy_error, bool) action" where
  "record_proxy_observation st now fresh event_id ob = transaction (apply_observation st now fresh event_id ob)"

definition plain_observation :: "string \<Rightarrow> string \<Rightarrow> time \<Rightarrow> string option \<Rightarrow> proxy_observation" where
  "plain_observation i outcome now summary =
     \<lparr>ob_proxy_id = i, ob_outcome = outcome, ob_observed_at = now, ob_operation_id = None, ob_latency_ms = None,
      ob_error_summary = summary, ob_actor_type = ''system'', ob_actor_id = None\<rparr>"

definition record_proxy_success :: "proxy_settings \<Rightarrow> time \<Rightarrow> string \<Rightarrow> string \<Rightarrow> string \<Rightarrow> (db, proxy_error, unit) action" where
  "record_proxy_success st now fresh event_id i =
     bnd (record_proxy_observation st now fresh event_id (plain_observation i ''success'' now None)) (\<lambda>_. ret ())"

definition record_proxy_failure ::
    "proxy_settings \<Rightarrow> time \<Rightarrow> string \<Rightarrow> string \<Rightarrow> string \<Rightarrow> string \<Rightarrow> (db, proxy_error, unit) action" where
  \<comment> \<open>the last argument: the summary of the exception\<close>
  "record_proxy_failure st now fresh event_id i summary =
     bnd (record_proxy_observation st now fresh event_id (plain_observation i ''failure'' now (Some summary))) (\<lambda>_. ret ())"

definition recover_proxy :: "time \<Rightarrow> string \<Rightarrow> (db, proxy_error, egress_proxy) action" where
  "recover_proxy now i =
     bnd (asks (proxy_row i)) (\<lambda>row. case row of
       None \<Rightarrow> throw ProxyLookup
     | Some p \<Rightarrow>
         (let q = p\<lparr>px_status := PxUnknown, px_consecutive_failure_count := 0, px_cooldown_until := None,
                    px_last_error_summary := None, px_updated_at := now\<rparr>
          in andthen (modify (write_proxy q))
            (andthen (audit_system ''egress_proxy.recovered'' ''egress_proxy'' (Some i) (JObj [])) (ret q))))"

definition test_proxy_connectivity ::
    "proxy_settings \<Rightarrow> (string \<Rightarrow> string option) option \<Rightarrow> time \<Rightarrow> string \<Rightarrow> string \<Rightarrow> (resolved_proxy \<Rightarrow> int \<Rightarrow> bool) \<Rightarrow> string
       \<Rightarrow> (db, proxy_error, unit) action" where
  \<comment> \<open>\<open>handshake\<close>: whether the socket opens through the proxy within the timeout;
    the success is recorded in the caller's session, without a transaction of its own\<close>
  "test_proxy_connectivity st cipher now fresh event_id handshake i =
     bnd (asks (proxy_row i)) (\<lambda>row. case row of
       None \<Rightarrow> throw ProxyLookup
     | Some p \<Rightarrow>
         bnd (to_resolved_proxy cipher p) (\<lambda>rp.
         bnd (ensure_policy st now) (\<lambda>pol.
         andthen (require (handshake rp (pp_connect_timeout_seconds pol)) ProxyTransport)
        (bnd (apply_observation st now fresh event_id (plain_observation i ''success'' now None)) (\<lambda>_.
          audit_system ''egress_proxy.connectivity_tested'' ''egress_proxy'' (Some i) (JObj [(''successful'', JBool True)]))))))"

subsection \<open>One failover\<close>

definition execute_with_proxy_retry ::
    "(nat \<Rightarrow> resolve_env) \<Rightarrow> (nat \<Rightarrow> string \<times> string) \<Rightarrow> string \<Rightarrow> string
       \<Rightarrow> (resolved_proxy option \<Rightarrow> (db, proxy_error, 'a) action) \<Rightarrow> (db, proxy_error, 'a) action" where
  \<comment> \<open>\<open>env k\<close> and \<open>ids k\<close>: clock, locks and fresh uuids of the \<open>k\<close>-th use of the pool\<close>
  "execute_with_proxy_retry env ids summary i operation =
     (let failed = (\<lambda>k pid. record_proxy_failure (re_settings (env k)) (re_now (env k)) (fst (ids k)) (snd (ids k)) pid summary);
          worked = (\<lambda>k p. case p of None \<Rightarrow> ret ()
            | Some rp \<Rightarrow> record_proxy_success (re_settings (env k)) (re_now (env k)) (fst (ids k)) (snd (ids k)) (rx_id rp))
      in bnd (resolve_for_mailbox (env 0) i [] False) (\<lambda>selected.
         bnd (catch (bnd (operation selected) (\<lambda>x. ret (Inr x))) (\<lambda>e. if e = ProxyTransport \<and> selected \<noteq> None then ret (Inl ()) else throw e)) (\<lambda>first.
         case first of
           Inr x \<Rightarrow> andthen (worked 1 selected) (ret x)
         | Inl _ \<Rightarrow>
             andthen (failed 1 (rx_id (the selected)))
            (bnd (resolve_for_mailbox (env 2) i [rx_id (the selected)] True) (\<lambda>replacement.
             bnd (operation replacement) (\<lambda>x.
             andthen (worked 3 replacement) (ret x)))))))"

subsection \<open>The Microsoft token endpoint\<close>

datatype http_outcome =
    ChainError                       \<comment> \<open>proxy error, connect or read timeout\<close>
  | ConnectError
  | OtherHttpError proxy_error       \<comment> \<open>any other exception of the client, passed on\<close>
  | HttpResponse int "json option"   \<comment> \<open>status and the decoded body, if it is JSON\<close>

record token_response =
  tr_access_token :: string
  tr_expires_in :: int
  tr_rotated_refresh_token :: "string option"
  tr_scope :: "string option"

definition token_request_form :: "string option \<Rightarrow> string \<Rightarrow> string option \<Rightarrow> (string \<times> string) list" where
  "token_request_form client_id refresh_token scope =
     [(''grant_type'', ''refresh_token''), (''client_id'', case client_id of None \<Rightarrow> [] | Some c \<Rightarrow> c),
      (''refresh_token'', refresh_token)]
     @ (case scope of None \<Rightarrow> [] | Some x \<Rightarrow> if x = [] then [] else [(''scope'', x)])"

definition safe_json :: "json option \<Rightarrow> proxy_error + json" where
  "safe_json body = (case body of None \<Rightarrow> Inl OAuthFailure | Some v \<Rightarrow> Inr (if is_dict v then v else JObj []))"

definition json_int :: "json \<Rightarrow> int option" where
  \<comment> \<open>\<open>isinstance(value, int)\<close>, which a bool is too\<close>
  "json_int v = (case v of JInt n \<Rightarrow> Some n | JBool b \<Rightarrow> Some (if b then 1 else 0) | _ \<Rightarrow> None)"

definition read_token_response :: "bool \<Rightarrow> http_outcome \<Rightarrow> proxy_error + token_response" where
  \<comment> \<open>the first argument: a proxy was used\<close>
  "read_token_response via_proxy outcome =
     (case outcome of
        ChainError \<Rightarrow> Inl ProxyTransport
      | ConnectError \<Rightarrow> Inl (if via_proxy then ProxyTransport else OAuthFailure)
      | OtherHttpError e \<Rightarrow> Inl e
      | HttpResponse status body \<Rightarrow>
          (case safe_json body of
             Inl e \<Rightarrow> Inl e
           | Inr payload \<Rightarrow>
               if 400 \<le> status then (if jget payload ''error'' = JStr ''invalid_grant'' then Inl InvalidGrant else Inl OAuthFailure)
               else (case jget payload ''access_token'' of
                   JStr token \<Rightarrow>
                     if token = [] then Inl OAuthFailure
                     else (case (if map_of (case payload of JObj kvs \<Rightarrow> kvs | _ \<Rightarrow> []) ''expires_in'' = None then Some 0
                                 else json_int (jget payload ''expires_in'')) of
                        None \<Rightarrow> Inl OAuthFailure
                      | Some n \<Rightarrow> Inr \<lparr>tr_access_token = token, tr_expires_in = n,
                          tr_rotated_refresh_token = (case jget payload ''refresh_token'' of JStr x \<Rightarrow> Some x | _ \<Rightarrow> None),
                          tr_scope = (case jget payload ''scope'' of
                             JStr x \<Rightarrow> if strip x \<noteq> [] then Some (strip x) else None | _ \<Rightarrow> None)\<rparr>)
                 | _ \<Rightarrow> Inl OAuthFailure)))"

definition refresh_access_token ::
    "(nat \<Rightarrow> resolve_env) \<Rightarrow> (nat \<Rightarrow> string \<times> string) \<Rightarrow> string
       \<Rightarrow> (resolved_proxy option \<Rightarrow> (string \<times> string) list \<Rightarrow> http_outcome)
       \<Rightarrow> string \<Rightarrow> string option \<Rightarrow> string \<Rightarrow> string option
       \<Rightarrow> (db, proxy_error, token_response) action" where
  \<comment> \<open>\<open>http\<close>: the outcome of posting a form through a proxy or directly; of the mailbox only the two
    attributes that are read are passed\<close>
  "refresh_access_token env ids summary http mailbox_id client_id refresh_token scope =
     execute_with_proxy_retry env ids summary mailbox_id (\<lambda>selected.
       case read_token_response (selected \<noteq> None) (http selected (token_request_form client_id refresh_token scope)) of
         Inl e \<Rightarrow> throw e | Inr r \<Rightarrow> ret r)"

datatype imap_outcome = ImapConnected | ImapChainError | ImapProtocolError | ImapOsError

definition imap_payload :: "string \<Rightarrow> string \<Rightarrow> string" where
  "imap_payload primary_email access_token =
     ''user='' @ primary_email @ [CHR 0x01] @ ''auth=Bearer '' @ access_token @ [CHR 0x01, CHR 0x01]"

definition imap_connect ::
    "(nat \<Rightarrow> resolve_env) \<Rightarrow> (nat \<Rightarrow> string \<times> string) \<Rightarrow> string
       \<Rightarrow> (resolved_proxy option \<Rightarrow> string \<Rightarrow> imap_outcome) \<Rightarrow> mailbox \<Rightarrow> string \<Rightarrow> (db, proxy_error, unit) action" where
  \<comment> \<open>\<open>dial\<close>: the outcome of one connection attempt with the authentication payload\<close>
  "imap_connect env ids summary dial m access_token =
     execute_with_proxy_retry env ids summary (mb_id m) (\<lambda>selected.
       case dial selected (imap_payload (mb_primary_email m) access_token) of
         ImapConnected \<Rightarrow> ret ()
       | ImapChainError \<Rightarrow> throw ProxyTransport
       | ImapProtocolError \<Rightarrow> throw ImapRefused
       | ImapOsError \<Rightarrow> throw (if selected \<noteq> None then ProxyTransport else SocketFailure))"

subsection \<open>Stickiness and policy\<close>

lemma proxy_row_id: "proxy_row i s = Some p \<Longrightarrow> px_id p = i \<and> p \<in> set (proxies s)"
  by (auto simp: proxy_row_def dest: row_by_Some)

lemma proxy_row_write [simp]:
  "proxy_row i (write_proxy p s) = (case proxy_row i s of None \<Rightarrow> None | Some q \<Rightarrow> Some (if px_id p = i then p else q))"
  by (simp add: proxy_row_def write_proxy_def)

lemma write_proxy_tables [simp]:
  "mailbox_row i (write_proxy p s) = mailbox_row i s" "policies (write_proxy p s) = policies s"
  "mailboxes (write_proxy p s) = mailboxes s" "health_events (write_proxy p s) = health_events s"
  "proxy_row j (s\<lparr>health_events := es\<rparr>) = proxy_row j s"
  by (simp_all add: mailbox_row_def write_proxy_def proxy_row_def)

lemma put_mailbox_tables [simp]:
  "mailbox_row i (put_mailbox m s) = (case mailbox_row i s of None \<Rightarrow> None | Some x \<Rightarrow> Some (if mb_id m = i then m else x))"
  "proxy_row j (put_mailbox m s) = proxy_row j s" "policies (put_mailbox m s) = policies s" "proxies (put_mailbox m s) = proxies s"
  by (simp_all add: mailbox_row_def put_mailbox_def proxy_row_def)

lemma audit_tables [simp]:
  "mailbox_row i (s\<lparr>audit_logs := a\<rparr>) = mailbox_row i s" "proxy_row j (s\<lparr>audit_logs := a\<rparr>) = proxy_row j s"
  by (simp_all add: mailbox_row_def proxy_row_def)

lemma policy_tables [simp]:
  "mailbox_row i (s\<lparr>policies := pol\<rparr>) = mailbox_row i s" "proxy_row j (s\<lparr>policies := pol\<rparr>) = proxy_row j s"
  by (simp_all add: mailbox_row_def proxy_row_def)

lemma rebound_fields [simp]:
  "mb_id (rebound_mailbox now x m) = mb_id m" "mb_egress_proxy_id (rebound_mailbox now x m) = x"
  by (simp_all add: rebound_mailbox_def)

lemma reopen_fields [simp]: "px_id (reopen_proxy now p) = px_id p"
  by (simp add: reopen_proxy_def)

lemma reopen_available: "is_proxy_available now pol p \<Longrightarrow> is_proxy_available now' pol (reopen_proxy now p)"
  by (auto simp: is_proxy_available_def reopen_proxy_def split: if_splits)

lemma available_later: "is_proxy_available now pol p \<Longrightarrow> now \<le> now' \<Longrightarrow> is_proxy_available now' pol p"
  by (auto simp: is_proxy_available_def split: if_splits option.splits)

lemma select_run:
  "select_candidate locked now pol ex s =
     (case first_lockable locked now pol (ranked_candidates now pol ex s) of
        None \<Rightarrow> (Inr None, s) | Some p \<Rightarrow> (Inr (Some (reopen_proxy now p)), write_proxy (reopen_proxy now p) s))"
  by (simp add: select_candidate_def run split: option.split)

lemma select_from_run:
  "select_candidate_from locked now pol ex k n s =
     (case List.find (\<lambda>j. first_lockable (locked j) now pol (ranked_candidates now pol ex s) \<noteq> None) [k..<k + n] of
        None \<Rightarrow> (Inr None, s)
      | Some j \<Rightarrow> (let p = reopen_proxy now (the (first_lockable (locked j) now pol (ranked_candidates now pol ex s)))
                  in (Inr (Some p), write_proxy p s)))"
proof (induction n arbitrary: k)
  case 0
  then show ?case by (simp add: run)
next
  case (Suc n)
  have "[k..<k + Suc n] = k # [Suc k..<Suc k + n]" by (simp add: upt_rec)
  then show ?case
    by (simp add: bnd_run select_run Suc.IH ret_run Let_def del: upt_Suc split: option.split)
qed

lemma first_lockable_Some:
  "first_lockable locked now pol (ranked_candidates now pol ex s) = Some p \<Longrightarrow> p \<in> set (proxies s) \<and> is_proxy_available now pol p
     \<and> candidate_proxy now pol ex p \<and> px_id p \<notin> set locked"
  by (auto simp: first_lockable_def ranked_candidates_def dest!: find_some_mem)

lemma select_from_Some:
  assumes "select_candidate_from locked now pol ex k n s = (Inr (Some p), t)"
  shows "\<exists>q. q \<in> set (proxies s) \<and> is_proxy_available now pol q \<and> px_id q \<notin> set ex \<and> p = reopen_proxy now q \<and> t = write_proxy p s"
proof -
  obtain j q where "first_lockable (locked j) now pol (ranked_candidates now pol ex s) = Some q"
    "p = reopen_proxy now q" "t = write_proxy p s"
    using assms by (auto simp: select_from_run Let_def split: option.splits dest!: find_some_mem)
  with first_lockable_Some [OF this(1)] show ?thesis by (auto simp: candidate_proxy_def)
qed

lemma select_from_None:
  assumes "select_candidate_from locked now pol ex k n s = (Inr None, t)"
  shows "t = s \<and> (\<forall>j. k \<le> j \<and> j < k + n \<longrightarrow> first_lockable (locked j) now pol (ranked_candidates now pol ex s) = None)"
  using assms by (auto simp: select_from_run Let_def find_None_iff split: option.splits)

lemma select_from_total: "\<exists>r t. select_candidate_from locked now pol ex k n s = (Inr r, t)"
  by (simp add: select_from_run Let_def split: option.split)

lemma to_resolved_state: "to_resolved_proxy cipher p s = (r, t) \<Longrightarrow> t = s \<and> (\<forall>u. to_resolved_proxy cipher p u = (r, u))"
  by (auto simp: to_resolved_proxy_def decrypt_optional_def run split: option.splits)

lemma to_resolved_id: "to_resolved_proxy cipher p s = (Inr rp, t) \<Longrightarrow> rx_id rp = px_id p"
  by (auto simp: to_resolved_proxy_def decrypt_optional_def returns split: option.splits)

definition bound_to :: "(string \<Rightarrow> string option) option \<Rightarrow> time \<Rightarrow> string \<Rightarrow> resolved_proxy \<Rightarrow> db \<Rightarrow> bool" where
  \<comment> \<open>the mailbox's bound proxy is the resolved one and may be used\<close>
  "bound_to cipher now i rp s \<longleftrightarrow> (\<exists>pol m p. policies s = Some pol \<and> pp_enabled pol \<and> mailbox_row i s = Some m
     \<and> mb_egress_proxy_id m = Some (rx_id rp) \<and> proxy_row (rx_id rp) s = Some p \<and> is_proxy_available now pol p
     \<and> (\<forall>u. to_resolved_proxy cipher p u = (Inr rp, u)))"

lemma ensure_policy_run:
  "ensure_policy st now s = (Inr (case policies s of None \<Rightarrow> default_policy st now | Some p \<Rightarrow> p),
     s\<lparr>policies := Some (case policies s of None \<Rightarrow> default_policy st now | Some p \<Rightarrow> p)\<rparr>)"
  by (auto simp: ensure_policy_def run Let_def split: option.split)

lemma sticky_Some:
  assumes "sticky_proxy now pol ex force m s = Some p"
  shows "mb_egress_proxy_id m = Some (px_id p) \<and> proxy_row (px_id p) s = Some p \<and> px_id p \<notin> set ex \<and> is_proxy_available now pol p \<and> \<not> force"
  using assms proxy_row_id by (fastforce simp: sticky_proxy_def current_proxy_def split: option.splits if_splits)

lemma update_binding_run:
  "update_binding now m sel reason s = (Inr (), snd (update_binding now m sel reason s))"
  "policies (snd (update_binding now m sel reason s)) = policies s"
  "proxies (snd (update_binding now m sel reason s)) = proxies s"
  "mailbox_row (mb_id m) s = Some m \<Longrightarrow> \<exists>m'. mailbox_row (mb_id m) (snd (update_binding now m sel reason s)) = Some m'
     \<and> mb_egress_proxy_id m' = map_option px_id sel"
  by (auto simp: update_binding_def Let_def run audit_system_def put_mailbox_def mailbox_row_def)

lemma load_mailbox_run:
  "load_mailbox_row i s = (case mailbox_row i s of None \<Rightarrow> (Inl ProxyLookup, s) | Some m \<Rightarrow> (Inr m, s))"
  by (simp add: load_mailbox_row_def run split: option.split)

lemma resolve_under_run:
  assumes "pp_enabled pol" and "mailbox_row i s = Some m"
  shows "resolve_under_policy env pol i ex force s =
     (case sticky_proxy (re_now env) pol ex force m s of
        Some p \<Rightarrow> bnd (to_resolved_proxy (re_cipher env) p) (\<lambda>r. ret (Some r)) s
      | None \<Rightarrow> bnd (select_candidate_with_retry (re_locked env) (re_now env) pol ex) (\<lambda>found. case found of
           None \<Rightarrow> andthen (require (\<not> pp_required pol \<and> pp_allow_direct_development pol) NoHealthyProxy)
                  (andthen (update_binding (re_now env) m None ''direct_routing'') (ret None))
         | Some p \<Rightarrow> andthen (update_binding (re_now env) m (Some p) ''automatic_failover'')
                     (bnd (to_resolved_proxy (re_cipher env) p) (\<lambda>r. ret (Some r)))) s)"
  using assms
  by (simp add: resolve_under_policy_def Let_def bnd_run [of "load_mailbox_row i"] load_mailbox_run
      bnd_run [of "asks f" for f] asks_run split: option.split)

lemma given_Inr:
  assumes "bnd (to_resolved_proxy cipher p) (\<lambda>r. ret (Some r)) u = (Inr r, t)"
  shows "t = u \<and> (\<exists>rp. r = Some rp \<and> rx_id rp = px_id p \<and> (\<forall>v. to_resolved_proxy cipher p v = (Inr rp, v)))"
proof -
  obtain rp where rp: "to_resolved_proxy cipher p u = (Inr rp, t)" "r = Some rp"
    using assms by (auto simp: bnd_Inr_iff ret_Inr_iff)
  with to_resolved_state [OF rp(1)] to_resolved_id [OF rp(1)] show ?thesis by auto
qed

definition no_candidate :: "resolve_env \<Rightarrow> proxy_policy \<Rightarrow> string list \<Rightarrow> db \<Rightarrow> bool" where
  \<comment> \<open>in each of the eight attempts every candidate was locked by another transaction or none is available\<close>
  "no_candidate env pol ex s \<longleftrightarrow>
     (\<forall>j < 8. first_lockable (re_locked env j) (re_now env) pol (ranked_candidates (re_now env) pol ex s) = None)"

lemma resolve_under_Inr:
  assumes "resolve_under_policy env pol i ex force s = (Inr r, t)" and "policies s = Some pol" and "distinct (map px_id (proxies s))"
  shows "policies t = Some pol \<and>
     (case r of
        None \<Rightarrow> \<not> pp_required pol \<and> pp_allow_direct_development pol \<and> (pp_enabled pol \<longrightarrow> no_candidate env pol ex s)
      | Some rp \<Rightarrow> bound_to (re_cipher env) (re_now env) i rp t \<and> rx_id rp \<notin> set ex)"
proof (cases "pp_enabled pol")
  case False
  with assms(1,2) show ?thesis by (auto simp: resolve_under_policy_def returns)
next
  case en: True
  obtain m where m: "mailbox_row i s = Some m"
    using assms(1) en by (cases "mailbox_row i s") (simp_all add: resolve_under_policy_def Let_def bnd_run load_mailbox_run)
  have id: "mb_id m = i" using mailbox_row_id [OF m] by simp
  note run = resolve_under_run [OF en m, of env ex force, unfolded assms(1)]
  show ?thesis
  proof (cases "sticky_proxy (re_now env) pol ex force m s")
    case (Some p)
    have "bnd (to_resolved_proxy (re_cipher env) p) (\<lambda>r. ret (Some r)) s = (Inr r, t)"
      by (rule run [unfolded Some option.case, symmetric])
    from given_Inr [OF this] obtain rp where rp: "t = s" "r = Some rp" "rx_id rp = px_id p"
      "\<forall>v. to_resolved_proxy (re_cipher env) p v = (Inr rp, v)" by blast
    have "bound_to (re_cipher env) (re_now env) i rp t"
      unfolding bound_to_def rp(1,3)
      by (rule exI [of _ pol], rule exI [of _ m], rule exI [of _ p]) (use sticky_Some [OF Some] assms(2) en m rp(4) in simp)
    with rp sticky_Some [OF Some] assms(2) show ?thesis by simp
  next
    case None
    obtain found u where f: "select_candidate_from (re_locked env) (re_now env) pol ex 0 8 s = (Inr found, u)"
      using select_from_total by blast
    have rest: "(case found of None \<Rightarrow> andthen (require (\<not> pp_required pol \<and> pp_allow_direct_development pol) NoHealthyProxy)
                  (andthen (update_binding (re_now env) m None ''direct_routing'') (ret None))
         | Some p \<Rightarrow> andthen (update_binding (re_now env) m (Some p) ''automatic_failover'')
                     (bnd (to_resolved_proxy (re_cipher env) p) (\<lambda>r. ret (Some r)))) u = (Inr r, t)"
      using run [symmetric] f by (simp add: None select_candidate_with_retry_def
          bnd_run [of "select_candidate_from l n po e k j" for l n po e k j])
    show ?thesis
    proof (cases found)
      case None2: None
      have u: "u = s" "no_candidate env pol ex s"
        using select_from_None [OF f [unfolded None2]] by (auto simp: no_candidate_def)
      obtain v where v: "update_binding (re_now env) m None ''direct_routing'' u = (Inr (), v)" and pv: "policies v = policies u"
        using update_binding_run(1,2) by metis
      have "r = None \<and> \<not> pp_required pol \<and> pp_allow_direct_development pol \<and> t = v"
        using rest by (simp add: None2 andthen_run require_run ret_run v split: if_splits)
      with u assms(2) pv show ?thesis by simp
    next
      case (Some p)
      obtain q where q: "q \<in> set (proxies s)" "is_proxy_available (re_now env) pol q" "px_id q \<notin> set ex"
        "p = reopen_proxy (re_now env) q" "u = write_proxy p s"
        using select_from_Some [OF f [unfolded Some]] by blast
      have "mailbox_row (mb_id m) u = Some m" using m id q(5) by simp
      with update_binding_run [where now = "re_now env" and m = m and sel = "Some p" and reason = "''automatic_failover''" and s = u] id
      obtain v m' where v: "update_binding (re_now env) m (Some p) ''automatic_failover'' u = (Inr (), v)" "policies v = policies u"
        "proxies v = proxies u" and m': "mailbox_row i v = Some m'" "mb_egress_proxy_id m' = Some (px_id p)" by auto
      have "bnd (to_resolved_proxy (re_cipher env) p) (\<lambda>r. ret (Some r)) v = (Inr r, t)"
        using rest Some v(1) by (simp add: andthen_run)
      from given_Inr [OF this] obtain rp where rp: "t = v" "r = Some rp" "rx_id rp = px_id p"
        "\<forall>v. to_resolved_proxy (re_cipher env) p v = (Inr rp, v)" by blast
      have "proxy_row (px_id q) s = Some q" using q(1) assms(3) by (simp add: proxy_row_def row_by_unique)
      then have "proxy_row (px_id p) u = Some p" using q(4,5) by simp
      then have pr: "proxy_row (px_id p) t = Some p" using rp(1) v(3) by (simp add: proxy_row_def)
      have "policies t = Some pol" using rp(1) v(2) q(5) assms(2) by simp
      moreover have "bound_to (re_cipher env) (re_now env) i rp t"
        unfolding bound_to_def rp(3)
        by (rule exI [of _ pol], rule exI [of _ m'], rule exI [of _ p])
          (use calculation m' rp(1) pr en reopen_available [OF q(2)] q(4) rp(4) in simp)
      ultimately show ?thesis using q(3,4) rp by simp
    qed
  qed
qed

definition policy_of :: "resolve_env \<Rightarrow> db \<Rightarrow> proxy_policy" where
  "policy_of env s = (case policies s of None \<Rightarrow> default_policy (re_settings env) (re_now env) | Some p \<Rightarrow> p)"

lemma resolve_Inr:
  assumes "resolve_for_mailbox env i ex force s = (Inr r, t)"
  shows "resolve_under_policy env (policy_of env s) i ex force (s\<lparr>policies := Some (policy_of env s)\<rparr>) = (Inr r, t)"
  using assms
  by (auto simp: resolve_for_mailbox_def transaction_run resolve_for_mailbox_in_session_def bnd_run [of "ensure_policy st n" for st n]
      ensure_policy_run policy_of_def [symmetric] split: prod.splits sum.splits)

text \<open>
  C26. Outbound routing obeys the proxy policy: a resolution that answers "direct" does so only where
  the policy in force allows direct routing and either the pool is switched off or no candidate could
  be had in any of the eight attempts; a resolution that answers a proxy has bound the mailbox to it,
  and that proxy is enabled, of an allowed protocol, out of its cooldown and not excluded.
\<close>

theorem resolve_respects_policy:
  assumes "resolve_for_mailbox env i ex force s = (Inr r, t)" and "distinct (map px_id (proxies s))"
  shows "case r of
      None \<Rightarrow> \<not> pp_required (policy_of env s) \<and> pp_allow_direct_development (policy_of env s)
        \<and> (pp_enabled (policy_of env s) \<longrightarrow> no_candidate env (policy_of env s) ex s)
    | Some rp \<Rightarrow> rx_id rp \<notin> set ex \<and> pp_enabled (policy_of env s)
        \<and> (\<exists>m p. mailbox_row i t = Some m \<and> mb_egress_proxy_id m = Some (rx_id rp) \<and> proxy_row (rx_id rp) t = Some p
             \<and> is_proxy_available (re_now env) (policy_of env s) p)"
proof -
  have "ranked_candidates n pol e (s\<lparr>policies := x\<rparr>) = ranked_candidates n pol e s" for n pol e x
    by (simp add: ranked_candidates_def bound_mailbox_count_def)
  then show ?thesis
    using resolve_under_Inr [OF resolve_Inr [OF assms(1)]] assms(2)
    by (auto simp: bound_to_def no_candidate_def split: option.splits)
qed

text \<open>
  Resolution is sticky: once a mailbox got a proxy, resolving it again, at any later time and from any
  worker, gives the same proxy and writes nothing, until the proxy's health, the policy or the binding
  changes or the caller excludes the proxy.
\<close>

theorem resolution_is_sticky:
  assumes "resolve_for_mailbox env i ex force s = (Inr (Some rp), t)" and "distinct (map px_id (proxies s))"
    and "re_now env \<le> re_now env'" and "re_cipher env' = re_cipher env" and "rx_id rp \<notin> set ex'"
  shows "resolve_for_mailbox env' i ex' False t = (Inr (Some rp), t)"
proof -
  have "policies t = Some (policy_of env s)" "bound_to (re_cipher env) (re_now env) i rp t"
    using resolve_under_Inr [OF resolve_Inr [OF assms(1)]] assms(2) by auto
  then obtain m p where b: "policies t = Some (policy_of env s)" "pp_enabled (policy_of env s)" "mailbox_row i t = Some m"
    "mb_egress_proxy_id m = Some (rx_id rp)" "proxy_row (rx_id rp) t = Some p" "is_proxy_available (re_now env) (policy_of env s) p"
    "\<And>u. to_resolved_proxy (re_cipher env) p u = (Inr rp, u)" by (auto simp: bound_to_def)
  have "px_id p = rx_id rp" using proxy_row_id [OF b(5)] by simp
  then have "sticky_proxy (re_now env') (policy_of env s) ex' False m t = Some p"
    using b available_later [OF b(6) assms(3)] assms(5) by (simp add: sticky_proxy_def current_proxy_def)
  then have "resolve_under_policy env' (policy_of env s) i ex' False t = (Inr (Some rp), t)"
    using b(7) assms(4) by (simp add: resolve_under_run [OF b(2,3)] bnd_run ret_run)
  moreover have same: "t\<lparr>policies := Some (policy_of env s)\<rparr> = t" using b(1) by (cases t) simp
  ultimately show ?thesis
    using b(1) by (simp add: same resolve_for_mailbox_def transaction_run resolve_for_mailbox_in_session_def
        bnd_run [of "ensure_policy st n" for st n] ensure_policy_run)
qed

definition sample_proxy :: "string \<Rightarrow> egress_proxy" where
  \<comment> \<open>an enabled proxy without credentials, for the concrete runs below\<close>
  "sample_proxy i = \<lparr>px_id = i, px_name = i, px_protocol = Socks5, px_host = ''h'', px_port = 1080, px_username_ciphertext = None,
     px_password_ciphertext = None, px_credential_fingerprint = [], px_enabled = True, px_priority = 100, px_status = PxUnknown,
     px_consecutive_failure_count = 0, px_cooldown_until = None, px_last_success_at = None, px_last_failure_at = None,
     px_last_error_summary = None, px_last_observed_at = None, px_health_version = 0, px_created_at = 0, px_updated_at = 0\<rparr>"

definition sample_settings :: proxy_settings where
  "sample_settings = \<lparr>ps_proxy_enabled = True, ps_proxy_required = True, ps_connect_timeout = 10, ps_read_timeout = 30,
     ps_failure_threshold = 2, ps_cooldown_seconds = 300, ps_switch_minimum_interval = 60\<rparr>"

definition sample_resolve :: "time \<Rightarrow> resolve_env" where
  "sample_resolve now = \<lparr>re_settings = sample_settings, re_cipher = None, re_now = now, re_locked = (\<lambda>_. [])\<rparr>"

definition sample_pool :: db where
  "sample_pool = empty_db\<lparr>mailboxes := [sample_mailbox ''m''], proxies := [sample_proxy ''p'']\<rparr>"

lemma sample_pool_fields [simp]:
  "mailboxes sample_pool = [sample_mailbox ''m'']" "proxies sample_pool = [sample_proxy ''p'']" "policies sample_pool = None"
  "health_events sample_pool = []" "mailbox_row ''m'' sample_pool = Some (sample_mailbox ''m'')"
  "proxy_row ''p'' sample_pool = Some (sample_proxy ''p'')"
  by (simp_all add: sample_pool_def empty_db_def mailbox_row_def proxy_row_def row_by_def sample_fields) (simp add: sample_proxy_def)

lemma sample_resolves:
  "\<exists>rp t. resolve_for_mailbox (sample_resolve 0) ''m'' [] False sample_pool = (Inr (Some rp), t) \<and> rx_id rp = ''p''"
proof -
  let ?pol = "default_policy sample_settings 0"
  have av: "is_proxy_available 0 ?pol (sample_proxy ''p'')"
    by (simp add: is_proxy_available_def sample_proxy_def default_policy_def)
  have "first_lockable [] 0 ?pol (ranked_candidates 0 ?pol [] (sample_pool\<lparr>policies := Some ?pol\<rparr>)) = Some (sample_proxy ''p'')"
    using av by (simp add: first_lockable_def ranked_candidates_def candidate_proxy_def) (simp add: sample_proxy_def default_policy_def)
  moreover have "mb_egress_proxy_id (sample_mailbox ''m'') = None" by (simp add: sample_mailbox_def)
  moreover have "pp_enabled ?pol" by (simp add: default_policy_def sample_settings_def)
  ultimately have "\<exists>rp. fst (resolve_for_mailbox (sample_resolve 0) ''m'' [] False sample_pool) = Inr (Some rp) \<and> rx_id rp = ''p''"
    by (simp add: resolve_for_mailbox_def transaction_run resolve_for_mailbox_in_session_def
        bnd_run [of "ensure_policy st n" for st n] ensure_policy_run sample_resolve_def
        resolve_under_run [where m = "sample_mailbox ''m''"] sticky_proxy_def current_proxy_def select_candidate_with_retry_def
        numeral_eq_Suc bnd_run select_run ret_run andthen_run update_binding_def Let_def modify_run audit_system_def add_audit_run
        to_resolved_proxy_def decrypt_optional_def)
      (simp add: reopen_proxy_def sample_proxy_def ret_run bnd_run)
  then show ?thesis by (metis prod.collapse)
qed

theorem resolve_respects_policy_witness:
  "\<exists>rp t m. resolve_for_mailbox (sample_resolve 0) ''m'' [] False sample_pool = (Inr (Some rp), t)
     \<and> mailbox_row ''m'' t = Some m \<and> mb_egress_proxy_id m = Some ''p''"
proof -
  obtain rp t where r: "resolve_for_mailbox (sample_resolve 0) ''m'' [] False sample_pool = (Inr (Some rp), t)" "rx_id rp = ''p''"
    using sample_resolves by blast
  from resolve_respects_policy [OF r(1)] r show ?thesis by auto
qed

theorem resolution_is_sticky_witness:
  "\<exists>rp t. resolve_for_mailbox (sample_resolve 0) ''m'' [] False sample_pool = (Inr (Some rp), t)
     \<and> resolve_for_mailbox (sample_resolve 7) ''m'' [] False t = (Inr (Some rp), t)"
proof -
  obtain rp t where r: "resolve_for_mailbox (sample_resolve 0) ''m'' [] False sample_pool = (Inr (Some rp), t)"
    using sample_resolves by blast
  from resolution_is_sticky [OF r, of "sample_resolve 7" "[]"] r show ?thesis by (auto simp: sample_resolve_def)
qed

subsection \<open>Health follows the outcomes\<close>

lemma observed_fields [simp]:
  "px_id (observed st pol now ob p) = px_id p"
  "px_last_observed_at (observed st pol now ob p) = Some (ob_observed_at ob)"
  by (simp_all add: observed_def mark_success_def mark_failure_def Let_def)

lemma record_applied:
  assumes "record_proxy_observation st now fresh eid ob s = (Inr True, t)"
  shows "\<exists>p. proxy_row (ob_proxy_id ob) s = Some p \<and> proxy_row (ob_proxy_id ob) t = Some (observed st (policies s) now ob p)
     \<and> policies t = policies s"
proof -
  have run: "apply_observation st now fresh eid ob s = (Inr True, t)"
    using assms by (auto simp: record_proxy_observation_def transaction_run split: prod.splits sum.splits)
  obtain p where p: "proxy_row (ob_proxy_id ob) s = Some p"
  proof (cases "proxy_row (ob_proxy_id ob) s")
    case None
    with run show ?thesis by (simp add: apply_observation_def Let_def bnd_run asks_run ret_run)
  qed (use that in blast)
  have "\<not> (case px_last_observed_at p of None \<Rightarrow> False | Some l \<Rightarrow> ob_observed_at ob < l)"
    using run p by (auto simp: apply_observation_def Let_def bnd_run asks_run ret_run)
  moreover have "px_id p = ob_proxy_id ob" using p proxy_row_id by blast
  ultimately show ?thesis
    using run p
    by (auto simp: apply_observation_def Let_def bnd_run andthen_run asks_run ret_run modify_run add_health_event_def
        require_run add_audit_run split: if_splits)
qed

fun applied :: "proxy_settings \<Rightarrow> (time \<times> string \<times> string \<times> proxy_observation) list \<Rightarrow> db \<Rightarrow> db option" where
  \<comment> \<open>a sequence of observations all of which the service answers as applied\<close>
  "applied st [] s = Some s"
| "applied st ((now, fresh, eid, ob) # es) s =
     (case record_proxy_observation st now fresh eid ob s of
        (Inl _, _) \<Rightarrow> None
      | (Inr ok, t) \<Rightarrow> if ok then applied st es t else None)"

lemma applied_append: "applied st (es @ fs) s = (case applied st es s of None \<Rightarrow> None | Some t \<Rightarrow> applied st fs t)"
  by (induction st es s rule: applied.induct) (auto split: prod.split sum.split)

definition failures_since_success :: "int \<Rightarrow> string list \<Rightarrow> int" where
  "failures_since_success prior outcomes =
     int (length (takeWhile (\<lambda>o1. o1 \<noteq> ''success'') (rev outcomes))) + (if ''success'' \<in> set outcomes then 0 else prior)"

lemma failures_snoc:
  "failures_since_success n (outs @ [o1]) = (if o1 = ''success'' then 0 else failures_since_success n outs + 1)"
  by (auto simp: failures_since_success_def)

lemma record_succeeds:
  assumes "proxy_row (ob_proxy_id ob) s = Some p" and "\<forall>l. px_last_observed_at p = Some l \<longrightarrow> l \<le> ob_observed_at ob"
    and "ob_operation_id ob = None" and "fresh \<notin> he_operation_id ` set (health_events s)"
  shows "\<exists>t. record_proxy_observation st now fresh eid ob s = (Inr True, t)
     \<and> he_operation_id ` set (health_events t) = insert fresh (he_operation_id ` set (health_events s))
     \<and> proxy_row (ob_proxy_id ob) t = Some (observed st (policies s) now ob p)"
proof -
  have "px_id p = ob_proxy_id ob" using assms(1) proxy_row_id by blast
  moreover have "\<not> (case px_last_observed_at p of None \<Rightarrow> False | Some l \<Rightarrow> ob_observed_at ob < l)"
    using assms(2) by (auto split: option.splits)
  ultimately show ?thesis
    using assms
    by (auto simp: record_proxy_observation_def transaction_run apply_observation_def Let_def bnd_run andthen_run asks_run ret_run
        modify_run add_health_event_def require_run add_audit_run)
qed

text \<open>
  C27. The health of a proxy is a function of its applied observations: after any sequence of them the
  failure count is the number of failures since the last success (plus the earlier count when there
  was none), a last success leaves it healthy and out of cooldown, and a last failure puts it into a
  cooldown that starts at that failure exactly when the count has reached the threshold.
\<close>

theorem proxy_health_tracks_outcomes:
  assumes "applied st (es @ [(now, fresh, eid, ob)]) s = Some t" and "\<forall>e \<in> set (es @ [(now, fresh, eid, ob)]). ob_proxy_id (snd (snd (snd e))) = i"
    and "proxy_row i s = Some p" and "policies s = Some pol"
  shows "\<exists>q. proxy_row i t = Some q \<and> policies t = Some pol
     \<and> px_consecutive_failure_count q = failures_since_success (px_consecutive_failure_count p)
          (map (\<lambda>e. ob_outcome (snd (snd (snd e)))) es @ [ob_outcome ob])
     \<and> (if ob_outcome ob = ''success'' then px_status q = PxHealthy \<and> px_cooldown_until q = None
        else if pp_failure_threshold pol \<le> px_consecutive_failure_count q
        then px_status q = PxCooldown \<and> px_cooldown_until q = Some (ob_observed_at ob + secs (pp_cooldown_seconds pol))
        else px_status q = PxUnknown)"
  using assms(1,2)
proof (induction es arbitrary: now fresh eid ob t rule: rev_induct)
  case Nil
  have "record_proxy_observation st now fresh eid ob s = (Inr True, t)"
    using Nil(1) by (auto split: prod.splits sum.splits if_splits)
  from record_applied [OF this] Nil(2) assms(3,4) show ?case
    by (auto simp: observed_def mark_success_def mark_failure_def Let_def failures_since_success_def)
next
  case (snoc e es)
  obtain n1 f1 i1 o1 where e: "e = (n1, f1, i1, o1)" by (cases e)
  obtain u where u: "applied st (es @ [e]) s = Some u" "applied st [(now, fresh, eid, ob)] u = Some t"
    using snoc.prems(1) by (auto simp only: applied_append split: option.splits)
  obtain q where q: "proxy_row i u = Some q" "policies u = Some pol"
    "px_consecutive_failure_count q = failures_since_success (px_consecutive_failure_count p)
       (map (\<lambda>e. ob_outcome (snd (snd (snd e)))) es @ [ob_outcome o1])"
    using snoc.IH [of n1 f1 i1 o1 u] u(1) snoc.prems(2) e by auto
  have "record_proxy_observation st now fresh eid ob u = (Inr True, t)"
    using u(2) by (auto split: prod.splits sum.splits if_splits)
  from record_applied [OF this] snoc.prems(2) q e show ?case
    using failures_snoc [of "px_consecutive_failure_count p" "map (\<lambda>e. ob_outcome (snd (snd (snd e)))) es @ [ob_outcome o1]" "ob_outcome ob"]
    by (auto simp: observed_def mark_success_def mark_failure_def Let_def)
qed

theorem proxy_health_tracks_outcomes_witness:
  "\<exists>t q. applied sample_settings [(1, ''a'', ''e1'', plain_observation ''p'' ''failure'' 1 None), (2, ''b'', ''e2'', plain_observation ''p'' ''failure'' 2 None)]
        (sample_pool\<lparr>policies := Some (default_policy sample_settings 0)\<rparr>) = Some t
     \<and> proxy_row ''p'' t = Some q \<and> px_consecutive_failure_count q = 2 \<and> px_status q = PxCooldown"
proof -
  let ?s = "sample_pool\<lparr>policies := Some (default_policy sample_settings 0)\<rparr>"
  let ?e1 = "(1, ''a'', ''e1'', plain_observation ''p'' ''failure'' 1 None)"
  let ?e2 = "(2, ''b'', ''e2'', plain_observation ''p'' ''failure'' 2 None)"
  have id: "px_last_observed_at (sample_proxy ''p'') = None" "px_consecutive_failure_count (sample_proxy ''p'') = 0"
    by (simp_all add: sample_proxy_def)
  let ?o1 = "plain_observation ''p'' ''failure'' 1 None" and ?o2 = "plain_observation ''p'' ''failure'' 2 None"
  have ob: "ob_proxy_id ?o1 = ''p''" "ob_proxy_id ?o2 = ''p''" "ob_operation_id ?o1 = None" "ob_operation_id ?o2 = None"
    "ob_observed_at ?o1 = 1" "ob_observed_at ?o2 = 2" by (simp_all add: plain_observation_def)
  obtain u where u: "record_proxy_observation sample_settings 1 ''a'' ''e1'' ?o1 ?s = (Inr True, u)"
    "he_operation_id ` set (health_events u) = {''a''}"
    "proxy_row ''p'' u = Some (observed sample_settings (policies ?s) 1 ?o1 (sample_proxy ''p''))"
    using record_succeeds [of ?o1 ?s "sample_proxy ''p''" "''a''" sample_settings 1 "''e1''"] ob id by auto
  obtain v where v: "record_proxy_observation sample_settings 2 ''b'' ''e2'' ?o2 u = (Inr True, v)"
    using record_succeeds [of ?o2 u _ "''b''" sample_settings 2 "''e2''"] u ob by auto
  have "\<exists>t. applied sample_settings ([?e1] @ [?e2]) ?s = Some t" using u(1) v by simp
  then obtain t where t: "applied sample_settings ([?e1] @ [?e2]) ?s = Some t" by auto
  have "failures_since_success 0 [''failure'', ''failure''] = 2" by (simp add: failures_since_success_def)
  moreover have "pp_failure_threshold (default_policy sample_settings 0) = 2" by (simp add: default_policy_def sample_settings_def)
  moreover have "\<exists>q. proxy_row ''p'' t = Some q \<and> px_consecutive_failure_count q = failures_since_success 0 [''failure'', ''failure'']
      \<and> (if pp_failure_threshold (default_policy sample_settings 0) \<le> px_consecutive_failure_count q
         then px_status q = PxCooldown else px_status q = PxUnknown)"
    using proxy_health_tracks_outcomes [OF t, of "''p''" "sample_proxy ''p''" "default_policy sample_settings 0"] id(2)
    by (fastforce simp: plain_observation_def split: if_splits)
  ultimately show ?thesis using t by auto
qed

end
