(* ===== verification/CapabilityProbe.thy ===== *)
theory CapabilityProbe
  imports ProxyPool TokenScopes
begin

text \<open>
  Which mail channel a mailbox can be read through (\<open>capability_probe_service.py\<close>): the Graph probe
  with its one proxy failover, the re-audience exchange, the order of the channels and the label a
  probe ends in. The clients are parameters, as they are constructor arguments of the service; \<open>say\<close>
  is the text of an exception. The code's messages are Chinese and stand here in English, its
  full-width semicolon as an ASCII one.
\<close>

datatype probe_kind = ProbeSuccess | AuthFailed | TransportFailed

record channel_outcome =
  co_channel :: channel
  co_kind :: probe_kind
  co_error :: "string option"

record token_replacement =
  tp_access_token :: string
  tp_expires_in :: int
  tp_scope :: "string option"
  tp_rotated_refresh_token :: "string option"

record probe_result =
  pb_capability :: mailbox_capability
  pb_preferred_channel :: channel
  pb_error :: "string option"
  pb_outcomes :: "channel_outcome list"
  pb_replacement :: "token_replacement option"

definition channel_name :: "channel \<Rightarrow> string" where
  "channel_name ch = (case ch of IMAP \<Rightarrow> ''imap'' | GRAPH \<Rightarrow> ''graph'')"

definition probe_kind_value :: "probe_kind \<Rightarrow> string" where
  "probe_kind_value k = (case k of ProbeSuccess \<Rightarrow> ''success'' | AuthFailed \<Rightarrow> ''auth_failed'' | TransportFailed \<Rightarrow> ''transport_failed'')"

definition or_text :: "string option \<Rightarrow> string \<Rightarrow> string" where
  \<comment> \<open>\<open>value or default\<close>\<close>
  "or_text v d = (case v of None \<Rightarrow> d | Some x \<Rightarrow> if x = [] then d else x)"

definition graph_outcome :: "probe_kind \<Rightarrow> string option \<Rightarrow> channel_outcome" where
  "graph_outcome k e = \<lparr>co_channel = GRAPH, co_kind = k, co_error = e\<rparr>"

definition imap_outcome :: "probe_kind \<Rightarrow> string option \<Rightarrow> channel_outcome" where
  "imap_outcome k e = \<lparr>co_channel = IMAP, co_kind = k, co_error = e\<rparr>"

subsection \<open>The Graph probe\<close>

definition probe_once :: "(int \<Rightarrow> string) \<Rightarrow> bool \<Rightarrow> http_outcome \<Rightarrow> proxy_error + channel_outcome" where
  \<comment> \<open>the flag: a proxy was used; \<open>str_of\<close> writes a number\<close>
  "probe_once str_of via_proxy outcome =
     (case outcome of
        ChainError \<Rightarrow> Inl ProxyTransport
      | ConnectError \<Rightarrow> if via_proxy then Inl ProxyTransport
          else Inr (graph_outcome TransportFailed (Some ''cannot connect to Microsoft Graph''))
      | OtherHttpError e \<Rightarrow> Inl e
      | HttpResponse status _ \<Rightarrow>
          if status \<in> {401, 403} then Inr (graph_outcome AuthFailed (Some (''Graph authentication failed, HTTP '' @ str_of status)))
          else if 400 \<le> status then Inr (graph_outcome AuthFailed (Some (''Graph probe failed, HTTP '' @ str_of status)))
          else Inr (graph_outcome ProbeSuccess None))"

definition probe_messages_access ::
    "(nat \<Rightarrow> resolve_env) \<Rightarrow> (nat \<Rightarrow> string \<times> string) \<Rightarrow> (proxy_error \<Rightarrow> string) \<Rightarrow> (int \<Rightarrow> string)
       \<Rightarrow> string \<Rightarrow> (resolved_proxy option \<Rightarrow> string \<Rightarrow> http_outcome) \<Rightarrow> string \<Rightarrow> string
       \<Rightarrow> (db, proxy_error, channel_outcome) action" where
  \<comment> \<open>\<open>summary\<close>: the summarized transport failure, as the health record gets it\<close>
  "probe_messages_access env ids say str_of summary http mailbox_id token =
     (let attempt = (\<lambda>selected. probe_once str_of (selected \<noteq> None) (http selected token));
          worked = (\<lambda>k selected outcome. case selected of None \<Rightarrow> ret outcome
            | Some rp \<Rightarrow> if co_kind outcome = TransportFailed then ret outcome
                else andthen (record_proxy_success (re_settings (env k)) (re_now (env k)) (fst (ids k)) (snd (ids k)) (rx_id rp))
                       (ret outcome))
      in bnd (resolve_for_mailbox (env 0) mailbox_id [] False) (\<lambda>selected.
         case attempt selected of
           Inr outcome \<Rightarrow> worked 1 selected outcome
         | Inl e \<Rightarrow>
             if e \<noteq> ProxyTransport then throw e
             else (case selected of
                 None \<Rightarrow> ret (graph_outcome TransportFailed (Some (say e)))
               | Some rp \<Rightarrow>
                   andthen (record_proxy_failure (re_settings (env 1)) (re_now (env 1)) (fst (ids 1)) (snd (ids 1)) (rx_id rp) summary)
                  (bnd (resolve_for_mailbox (env 2) mailbox_id [rx_id rp] True) (\<lambda>replacement.
                   case attempt replacement of
                     Inl e2 \<Rightarrow> if e2 = ProxyTransport then ret (graph_outcome TransportFailed (Some (say e2))) else throw e2
                   | Inr outcome \<Rightarrow> worked 3 replacement outcome)))))"

subsection \<open>Both channels\<close>

record probe_clients =
  pc_graph :: "mailbox \<Rightarrow> string \<Rightarrow> (db, proxy_error, channel_outcome) action"
  pc_imap :: "mailbox \<Rightarrow> string \<Rightarrow> (db, proxy_error, unit) action"
  pc_oauth :: "(mailbox \<Rightarrow> string \<Rightarrow> string option \<Rightarrow> (db, proxy_error, token_response) action) option"
  pc_say :: "proxy_error \<Rightarrow> string"

definition scope_already_hints_graph :: "string option \<Rightarrow> bool" where
  "scope_already_hints_graph scope = contains (lower_str (or_text scope [])) ''graph.microsoft.com''"

definition oauth_failed :: "proxy_error \<Rightarrow> bool" where
  \<comment> \<open>\<open>MicrosoftOAuthError\<close> and its subclass\<close>
  "oauth_failed e \<longleftrightarrow> e \<in> {OAuthFailure, InvalidGrant}"

definition may_reaudience :: "probe_clients \<Rightarrow> mailbox \<Rightarrow> string option \<Rightarrow> channel_outcome \<Rightarrow> bool" where
  "may_reaudience c m refresh_token first \<longleftrightarrow>
     co_kind first = AuthFailed \<and> pc_oauth c \<noteq> None \<and> or_text refresh_token [] \<noteq> [] \<and> or_text (mb_client_id m) [] \<noteq> []
     \<and> \<not> scope_already_hints_graph (mb_scope m)"

definition probe_graph_with_optional_reaudience ::
    "probe_clients \<Rightarrow> mailbox \<Rightarrow> string \<Rightarrow> string option
       \<Rightarrow> (db, proxy_error, channel_outcome \<times> token_replacement option) action" where
  "probe_graph_with_optional_reaudience c m token refresh_token =
     bnd (pc_graph c m token) (\<lambda>first.
     if \<not> may_reaudience c m refresh_token first then ret (first, None)
     else
       bnd (catch (bnd (the (pc_oauth c) m (the refresh_token) (Some graph_mail_read_scope)) (\<lambda>r. ret (Inr r)))
              (\<lambda>e. if oauth_failed e \<or> e = ProxyTransport then ret (Inl e) else throw e)) (\<lambda>exchange.
       case exchange of
         Inl e \<Rightarrow>
           ret (graph_outcome (if oauth_failed e then AuthFailed else TransportFailed)
                  (Some (or_text (co_error first) ''auth_failed'' @ '';graph_reaudience:'' @ pc_say c e)), None)
       | Inr r \<Rightarrow>
           bnd (pc_graph c m (tr_access_token r)) (\<lambda>second.
           if co_kind second = ProbeSuccess
           then ret (second, Some \<lparr>tp_access_token = tr_access_token r, tp_expires_in = tr_expires_in r, tp_scope = tr_scope r,
                       tp_rotated_refresh_token = tr_rotated_refresh_token r\<rparr>)
           else ret (graph_outcome (co_kind second)
                  (Some (join_with '';'' (filter (\<lambda>p. p \<noteq> []) [or_text (co_error first) [],
                     ''graph_reaudience:'' @ or_text (co_error second) (probe_kind_value (co_kind second))]))), None))))"

definition probe_imap :: "probe_clients \<Rightarrow> mailbox \<Rightarrow> string \<Rightarrow> (db, proxy_error, channel_outcome) action" where
  "probe_imap c m token =
     catch (bnd (pc_imap c m token) (\<lambda>_. ret (imap_outcome ProbeSuccess None)))
       (\<lambda>e. ret (imap_outcome (if e = ImapRefused then AuthFailed else TransportFailed) (Some (pc_say c e))))"

definition decide_failure :: "channel_outcome list \<Rightarrow> mailbox_capability \<times> string" where
  "decide_failure outcomes =
     (let auth = filter (\<lambda>x. co_kind x = AuthFailed) outcomes;
          transport = filter (\<lambda>x. co_kind x = TransportFailed) outcomes;
          line = (\<lambda>d x. channel_name (co_channel x) @ '':'' @ or_text (co_error x) d);
          parts = map (\<lambda>x. channel_name (co_channel x) @ '':'' @ probe_kind_value (co_kind x) @ '':'' @ or_text (co_error x) ''failed'') outcomes
      in if length auth = length outcomes \<and> outcomes \<noteq> []
         then (CapUnusable, take 500 (join_with '';'' (map (line ''auth_failed'') auth)))
         else if transport \<noteq> [] \<and> auth = []
         then (CapUnknown, take 500 (join_with '';'' (map (line ''transport_failed'') transport)))
         else if auth \<noteq> [] \<and> transport \<noteq> [] then (CapUnknown, take 500 (join_with '';'' parts))
         else (CapUnusable, take 500 (join_with '';'' parts)))"

definition probe_channel ::
    "probe_clients \<Rightarrow> mailbox \<Rightarrow> string option \<Rightarrow> string \<Rightarrow> channel
       \<Rightarrow> (db, proxy_error, channel_outcome \<times> token_replacement option) action" where
  "probe_channel c m refresh_token token ch =
     (case ch of GRAPH \<Rightarrow> probe_graph_with_optional_reaudience c m token refresh_token
      | IMAP \<Rightarrow> bnd (probe_imap c m token) (\<lambda>outcome. ret (outcome, None)))"

fun probe_channels ::
    "probe_clients \<Rightarrow> mailbox \<Rightarrow> string option \<Rightarrow> channel \<Rightarrow> channel list \<Rightarrow> channel_outcome list \<Rightarrow> token_replacement option
       \<Rightarrow> string \<Rightarrow> (db, proxy_error, probe_result) action" where
  "probe_channels c m refresh_token preferred [] outcomes replacement token =
     ret \<lparr>pb_capability = fst (decide_failure outcomes), pb_preferred_channel = preferred,
          pb_error = Some (snd (decide_failure outcomes)), pb_outcomes = outcomes, pb_replacement = replacement\<rparr>"
| "probe_channels c m refresh_token preferred (ch # chs) outcomes replacement token =
     bnd (probe_channel c m refresh_token token ch) (\<lambda>(outcome, found).
     (let replacement' = (if found = None then replacement else found);
          token' = (case found of None \<Rightarrow> token | Some r \<Rightarrow> tp_access_token r)
      in if co_kind outcome = ProbeSuccess
         then ret \<lparr>pb_capability = (if ch = IMAP then CapImap else CapGraph), pb_preferred_channel = preferred, pb_error = None,
                   pb_outcomes = outcomes @ [outcome], pb_replacement = replacement'\<rparr>
         else probe_channels c m refresh_token preferred chs (outcomes @ [outcome]) replacement' token'))"

definition probe_mailbox_capability ::
    "probe_clients \<Rightarrow> mailbox \<Rightarrow> string \<Rightarrow> string option \<Rightarrow> (db, proxy_error, probe_result) action" where
  "probe_mailbox_capability c m token refresh_token =
     (let preference = infer_mail_access_channel_preference (mb_scope m)
      in probe_channels c m refresh_token (hd preference) preference [] None token)"

definition apply_capability_probe_result :: "time \<Rightarrow> probe_result \<Rightarrow> mailbox \<Rightarrow> mailbox" where
  "apply_capability_probe_result now r m =
     m\<lparr>mb_capability := Some (pb_capability r), mb_capability_probed_at := Some now,
       mb_capability_probe_error := pb_error r, mb_updated_at := now\<rparr>"

subsection \<open>What a label means\<close>

lemma all_pass_filter: "length (filter P xs) = length xs \<longleftrightarrow> (\<forall>x \<in> set xs. P x)"
proof
  assume "length (filter P xs) = length xs"
  then show "\<forall>x \<in> set xs. P x" using length_filter_less [of _ xs P] by fastforce
qed simp

lemma decide_failure_label:
  assumes "\<forall>x \<in> set outcomes. co_kind x \<noteq> ProbeSuccess" and "outcomes \<noteq> []"
  shows "fst (decide_failure outcomes) = (if \<forall>x \<in> set outcomes. co_kind x = AuthFailed then CapUnusable else CapUnknown)"
proof (cases "\<forall>x \<in> set outcomes. co_kind x = AuthFailed")
  case True
  then show ?thesis using assms(2) by (simp add: decide_failure_def Let_def)
next
  case False
  then obtain x where "x \<in> set outcomes" "co_kind x \<noteq> AuthFailed" by blast
  with assms(1) have "x \<in> set (filter (\<lambda>x. co_kind x = TransportFailed) outcomes)" by (cases "co_kind x") auto
  then have "filter (\<lambda>x. co_kind x = TransportFailed) outcomes \<noteq> []" by (metis empty_iff list.set(1))
  with False show ?thesis by (simp add: decide_failure_def Let_def all_pass_filter)
qed

definition labelled :: "channel list \<Rightarrow> channel_outcome list \<Rightarrow> channel_outcome list \<Rightarrow> probe_result \<Rightarrow> bool" where
  \<comment> \<open>a result after \<open>new\<close> further probes along \<open>chs\<close>, the failures \<open>outs\<close> seen before\<close>
  "labelled chs outs new r \<longleftrightarrow> pb_outcomes r = outs @ new \<and> length new \<le> length chs
     \<and> (if \<exists>x \<in> set new. co_kind x = ProbeSuccess
        then co_kind (last new) = ProbeSuccess \<and> (\<forall>x \<in> set (butlast new). co_kind x \<noteq> ProbeSuccess) \<and> pb_error r = None
          \<and> pb_capability r = (if chs ! (length new - 1) = IMAP then CapImap else CapGraph)
        else length new = length chs \<and> pb_error r \<noteq> None
          \<and> pb_capability r = (if \<forall>x \<in> set (outs @ new). co_kind x = AuthFailed then CapUnusable else CapUnknown))"

lemma labelled_step:
  assumes "labelled chs (outs @ [o1]) new r" and "co_kind o1 \<noteq> ProbeSuccess"
  shows "labelled (ch # chs) outs (o1 # new) r"
proof (cases "new = []")
  case True
  with assms show ?thesis by (auto simp: labelled_def)
next
  case False
  then have "(ch # chs) ! (length (o1 # new) - 1) = chs ! (length new - 1)" by (cases new) auto
  with assms False show ?thesis by (auto simp: labelled_def)
qed

lemma probe_channels_label:
  assumes "probe_channels c m rt preferred chs outs rep tok s = (Inr r, t)"
    and "\<forall>x \<in> set outs. co_kind x \<noteq> ProbeSuccess" and "outs \<noteq> [] \<or> chs \<noteq> []"
  shows "(\<exists>new. labelled chs outs new r) \<and> pb_preferred_channel r = preferred"
  using assms
proof (induction chs arbitrary: outs rep tok s)
  case Nil
  then show ?case by (auto simp: ret_run decide_failure_label labelled_def)
next
  case (Cons ch chs)
  obtain o1 found u where rest: "(if co_kind o1 = ProbeSuccess
         then ret \<lparr>pb_capability = (if ch = IMAP then CapImap else CapGraph), pb_preferred_channel = preferred, pb_error = None,
                   pb_outcomes = outs @ [o1], pb_replacement = (if found = None then rep else found)\<rparr>
         else probe_channels c m rt preferred chs (outs @ [o1]) (if found = None then rep else found)
                (case found of None \<Rightarrow> tok | Some r \<Rightarrow> tp_access_token r)) u = (Inr r, t)"
    using Cons.prems(1) by (auto simp: Let_def bnd_run split: prod.splits sum.splits)
  show ?case
  proof (cases "co_kind o1 = ProbeSuccess")
    case True
    with rest show ?thesis by (auto simp: ret_run labelled_def intro!: exI [of _ "[o1]"])
  next
    case False
    then have run: "probe_channels c m rt preferred chs (outs @ [o1]) (if found = None then rep else found)
        (case found of None \<Rightarrow> tok | Some r \<Rightarrow> tp_access_token r) u = (Inr r, t)" using rest by simp
    have "\<forall>x \<in> set (outs @ [o1]). co_kind x \<noteq> ProbeSuccess" using Cons.prems(2) False by auto
    from Cons.IH [OF run this] show ?thesis using labelled_step [OF _ False] by blast
  qed
qed

lemma probe_label:
  assumes "probe_mailbox_capability c m tok rt s = (Inr r, t)"
  shows "pb_outcomes r \<noteq> [] \<and> length (pb_outcomes r) \<le> 2
     \<and> (if \<exists>x \<in> set (pb_outcomes r). co_kind x = ProbeSuccess
        then co_kind (last (pb_outcomes r)) = ProbeSuccess
          \<and> (\<forall>x \<in> set (butlast (pb_outcomes r)). co_kind x \<noteq> ProbeSuccess)
          \<and> pb_capability r = (if infer_mail_access_channel_preference (mb_scope m) ! (length (pb_outcomes r) - 1) = IMAP then CapImap else CapGraph)
          \<and> pb_error r = None
        else length (pb_outcomes r) = 2 \<and> pb_error r \<noteq> None
          \<and> pb_capability r = (if \<forall>x \<in> set (pb_outcomes r). co_kind x = AuthFailed then CapUnusable else CapUnknown))"
proof -
  let ?chs = "infer_mail_access_channel_preference (mb_scope m)"
  have two: "length ?chs = 2" by (simp add: infer_mail_access_channel_preference_def Let_def)
  have run: "probe_channels c m rt (hd ?chs) ?chs [] None tok s = (Inr r, t)"
    using assms by (simp add: probe_mailbox_capability_def Let_def)
  have "[] \<noteq> ([] :: channel_outcome list) \<or> ?chs \<noteq> []" using two by auto
  then obtain new where "labelled ?chs [] new r" using probe_channels_label [OF run] by auto
  then show ?thesis using two by (auto simp: labelled_def split: if_splits)
qed

text \<open>A refresh token that the exchange rotated is dropped when the Graph probe fails again.\<close>

lemma reaudience_drops_rotated_token:
  assumes "pc_graph c m token s = (Inr first, s1)" and "may_reaudience c m (Some rt) first" and "pc_oauth c = Some exchange"
    and "exchange m rt (Some graph_mail_read_scope) s1 = (Inr tr, s2)" and "tr_rotated_refresh_token tr = Some new_rt"
    and "pc_graph c m (tr_access_token tr) s2 = (Inr second, s3)" and "co_kind second \<noteq> ProbeSuccess"
  shows "\<exists>o1. probe_graph_with_optional_reaudience c m token (Some rt) s = (Inr (o1, None), s3)"
  using assms by (simp add: probe_graph_with_optional_reaudience_def bnd_run catch_run ret_run)

end
