(* ===== verification/TokenService.thy ===== *)
theory TokenService
  imports CapabilityProbe Catalog LeaseRelease
begin

text \<open>
  The access-token service (\<open>token_service.py\<close>): a usable cached token, or claim, exchange at Microsoft,
  compare-and-swap completion and capability probe, each in a short transaction of its own with no
  transaction open over the network. \<open>te_others k\<close> is what other workers commit at the \<open>k\<close>-th gap
  between these transactions, \<open>te_clock k\<close> the clock there; a retry counts on from eight. The OAuth
  client and the prober are parameters, as they are constructor arguments. Modelled is the path with
  short units; the path on the caller's session runs the same operations on that session.
\<close>

datatype service_error =
    MailboxAbsent | NotMicrosoftMailbox | RefreshRefused | RefreshInvalidGrant | CipherFailure
  | ClientFailure proxy_error | RepositoryFailure token_error

definition from_client :: "proxy_error \<Rightarrow> service_error" where
  "from_client e = (case e of OAuthFailure \<Rightarrow> RefreshRefused | InvalidGrant \<Rightarrow> RefreshInvalidGrant | _ \<Rightarrow> ClientFailure e)"

record ensure_result =
  er_mailbox_id :: string
  er_primary_email :: string
  er_access_token :: string
  er_expires_at :: time
  er_token_version :: int
  er_refreshed :: bool
  er_refresh_token_rotated :: bool

record token_env =
  te_skew_seconds :: int
  te_claim_ttl_seconds :: int
  te_lifetime_days :: int
  te_loads :: "string \<Rightarrow> json option"
  te_encrypt :: "nat \<Rightarrow> string \<Rightarrow> string"
  te_decrypt :: "string \<Rightarrow> string option"
  te_oauth :: "string \<Rightarrow> string option \<Rightarrow> string \<Rightarrow> string option \<Rightarrow> (db, proxy_error, token_response) action"
  te_prober :: "(mailbox \<Rightarrow> string \<Rightarrow> string option \<Rightarrow> (db, proxy_error, probe_result) action) option"
  te_clock :: "nat \<Rightarrow> time"
  te_claim_id :: "nat \<Rightarrow> string"
  te_others :: "nat \<Rightarrow> db \<Rightarrow> db"

definition others :: "token_env \<Rightarrow> nat \<Rightarrow> (db, service_error, unit) action" where
  "others env k = modify (te_others env k)"

subsection \<open>The cached token\<close>

definition preferred_mail_channel :: "channel option \<Rightarrow> mailbox \<Rightarrow> channel option" where
  "preferred_mail_channel preferred m =
     (case preferred of Some c \<Rightarrow> Some c
      | None \<Rightarrow> (case mb_capability m of Some CapGraph \<Rightarrow> Some GRAPH | Some CapImap \<Rightarrow> Some IMAP | _ \<Rightarrow> None))"

definition has_usable_cached_access_token :: "token_env \<Rightarrow> time \<Rightarrow> mailbox \<Rightarrow> bool" where
  "has_usable_cached_access_token env now m =
     (if mb_access_token_ciphertext m \<in> {None, Some []} then False
      else (case mb_access_token_expires_at m of
          None \<Rightarrow> False
        | Some expires \<Rightarrow>
            (case mb_access_token_source_version m of
               None \<Rightarrow> False
             | Some v \<Rightarrow> v = mb_token_version m \<and> now + secs (te_skew_seconds env) < expires)))"

definition serves :: "channel option \<Rightarrow> string option \<Rightarrow> bool" where
  "serves target scope = (case target of None \<Rightarrow> True | Some c \<Rightarrow> cached_token_matches scope c)"

definition scope_missing :: "mailbox \<Rightarrow> bool" where
  "scope_missing m \<longleftrightarrow> mb_scope m \<in> {None, Some []}"

definition cached_result :: "mailbox \<Rightarrow> string \<Rightarrow> ensure_result" where
  "cached_result m token = \<lparr>er_mailbox_id = mb_id m, er_primary_email = mb_primary_email m, er_access_token = token,
     er_expires_at = the (mb_access_token_expires_at m), er_token_version = mb_token_version m, er_refreshed = False,
     er_refresh_token_rotated = False\<rparr>"

definition load_token_mailbox :: "string \<Rightarrow> (db, service_error, mailbox) action" where
  "load_token_mailbox i =
     bnd (asks (mailbox_row i)) (\<lambda>row. case row of
       None \<Rightarrow> throw MailboxAbsent
     | Some m \<Rightarrow> (case require_microsoft_mailbox (Some m) of Inl _ \<Rightarrow> throw NotMicrosoftMailbox | Inr x \<Rightarrow> ret x))"

definition decrypted :: "token_env \<Rightarrow> string option \<Rightarrow> (db, service_error, string) action" where
  "decrypted env c = (case te_decrypt env (or_text c []) of None \<Rightarrow> throw CipherFailure | Some x \<Rightarrow> ret x)"

definition cache_hit :: "token_env \<Rightarrow> time \<Rightarrow> channel option \<Rightarrow> string \<Rightarrow> (db, service_error, ensure_result option) action" where
  "cache_hit env now preferred i =
     bnd (load_token_mailbox i) (\<lambda>m.
     (let target = preferred_mail_channel preferred m in
      if \<not> has_usable_cached_access_token env now m then ret None
      else if \<not> scope_missing m \<and> \<not> serves target (mb_scope m) then ret None
      else bnd (decrypted env (mb_access_token_ciphertext m)) (\<lambda>token.
           if scope_missing m \<and> \<not> serves target (extract_oauth_scopes (te_loads env) token) then ret None
           else ret (Some (cached_result m token)))))"

subsection \<open>The capability probe and its writes\<close>

definition changed :: "'a \<Rightarrow> 'a \<Rightarrow> 'a \<Rightarrow> 'a" where
  \<comment> \<open>a column of the row after flushing an object loaded with \<open>old\<close> and set to \<open>new\<close>\<close>
  "changed old new current = (if new = old then current else new)"

definition flush_mailbox :: "mailbox \<Rightarrow> mailbox \<Rightarrow> mailbox \<Rightarrow> mailbox" where
  \<comment> \<open>the unit of work writes the columns that differ from what was loaded, and no others\<close>
  "flush_mailbox old new row = row\<lparr>
     mb_access_token_ciphertext := changed (mb_access_token_ciphertext old) (mb_access_token_ciphertext new) (mb_access_token_ciphertext row),
     mb_access_token_expires_at := changed (mb_access_token_expires_at old) (mb_access_token_expires_at new) (mb_access_token_expires_at row),
     mb_access_token_refreshed_at := changed (mb_access_token_refreshed_at old) (mb_access_token_refreshed_at new) (mb_access_token_refreshed_at row),
     mb_access_token_source_version := changed (mb_access_token_source_version old) (mb_access_token_source_version new) (mb_access_token_source_version row),
     mb_scope := changed (mb_scope old) (mb_scope new) (mb_scope row),
     mb_refresh_token_ciphertext := changed (mb_refresh_token_ciphertext old) (mb_refresh_token_ciphertext new) (mb_refresh_token_ciphertext row),
     mb_refresh_token_updated_at := changed (mb_refresh_token_updated_at old) (mb_refresh_token_updated_at new) (mb_refresh_token_updated_at row),
     mb_refresh_token_expires_at := changed (mb_refresh_token_expires_at old) (mb_refresh_token_expires_at new) (mb_refresh_token_expires_at row),
     mb_capability := changed (mb_capability old) (mb_capability new) (mb_capability row),
     mb_capability_probed_at := changed (mb_capability_probed_at old) (mb_capability_probed_at new) (mb_capability_probed_at row),
     mb_capability_probe_error := changed (mb_capability_probe_error old) (mb_capability_probe_error new) (mb_capability_probe_error row),
     mb_updated_at := changed (mb_updated_at old) (mb_updated_at new) (mb_updated_at row)\<rparr>"

definition flush_changes :: "mailbox \<Rightarrow> mailbox \<Rightarrow> (db, service_error, unit) action" where
  "flush_changes old new = bnd (update_mailboxes (\<lambda>r. mb_id r = mb_id old) (flush_mailbox old new)) (\<lambda>_. ret ())"

definition stamp_refresh_token_lifetime :: "int \<Rightarrow> time \<Rightarrow> mailbox \<Rightarrow> mailbox" where
  "stamp_refresh_token_lifetime lifetime_days touched_at m =
     m\<lparr>mb_refresh_token_updated_at := Some touched_at, mb_refresh_token_expires_at := Some (touched_at + days lifetime_days)\<rparr>"

definition backfilled_scope :: "token_env \<Rightarrow> time \<Rightarrow> string \<Rightarrow> mailbox \<Rightarrow> mailbox" where
  \<comment> \<open>\<open>_persist_scope_if_missing\<close>\<close>
  "backfilled_scope env now token m =
     (if \<not> scope_missing m then m
      else (case extract_oauth_scopes (te_loads env) token of
          None \<Rightarrow> m | Some sc \<Rightarrow> m\<lparr>mb_scope := Some sc, mb_updated_at := now\<rparr>))"

definition readable_refresh_token :: "token_env \<Rightarrow> mailbox \<Rightarrow> string option" where
  "readable_refresh_token env m =
     (if mb_refresh_token_ciphertext m \<in> {None, Some []} then None else te_decrypt env (the (mb_refresh_token_ciphertext m)))"

definition run_probe :: "token_env \<Rightarrow> bool \<Rightarrow> mailbox \<Rightarrow> string \<Rightarrow> (db, service_error, probe_result option) action" where
  "run_probe env force m token =
     (case te_prober env of
        None \<Rightarrow> ret None
      | Some prober \<Rightarrow>
          if mb_capability m \<noteq> None \<and> \<not> force then ret None
          else bnd (lift_error from_client (prober m token (readable_refresh_token env m))) (\<lambda>r. ret (Some r)))"

definition replaced_access_token :: "token_env \<Rightarrow> nat \<Rightarrow> time \<Rightarrow> token_replacement \<Rightarrow> mailbox \<Rightarrow> mailbox" where
  "replaced_access_token env k now rep m =
     (let m1 = m\<lparr>mb_access_token_ciphertext := Some (te_encrypt env k (tp_access_token rep)),
                 mb_access_token_expires_at := Some (now + secs (tp_expires_in rep)), mb_access_token_refreshed_at := Some now\<rparr>
      in if tp_scope rep \<in> {None, Some []} then m1 else m1\<lparr>mb_scope := tp_scope rep\<rparr>)"

definition bound_to_version :: "token_env \<Rightarrow> time \<Rightarrow> mailbox \<Rightarrow> mailbox" where
  \<comment> \<open>the last writes of \<open>_apply_access_token_replacement\<close>\<close>
  "bound_to_version env now m =
     (stamp_refresh_token_lifetime (te_lifetime_days env) now
        (m\<lparr>mb_access_token_source_version := Some (mb_token_version m)\<rparr>))\<lparr>mb_updated_at := now\<rparr>"

definition rotated_by_probe :: "token_env \<Rightarrow> token_replacement \<Rightarrow> mailbox \<Rightarrow> (db, service_error, string option) action" where
  \<comment> \<open>the refresh token the exchange returned, when it differs from the loaded one\<close>
  "rotated_by_probe env rep m =
     (if tp_rotated_refresh_token rep \<in> {None, Some []} then ret None
      else if mb_refresh_token_ciphertext m \<in> {None, Some []} then ret (tp_rotated_refresh_token rep)
      else bnd (decrypted env (mb_refresh_token_ciphertext m)) (\<lambda>old.
           ret (if tp_rotated_refresh_token rep = Some old then None else tp_rotated_refresh_token rep)))"

definition write_probe :: "token_env \<Rightarrow> nat \<Rightarrow> mailbox \<Rightarrow> mailbox \<Rightarrow> probe_result \<Rightarrow> (db, service_error, mailbox) action" where
  \<comment> \<open>\<open>m0\<close>: the row as loaded, \<open>m\<close>: the object now; returns the object after the writes\<close>
  "write_probe env k m0 m r =
     (let now = te_clock env k in
      case pb_replacement r of
        None \<Rightarrow> (let m' = apply_capability_probe_result now r m in andthen (flush_changes m0 m') (ret m'))
      | Some rep \<Rightarrow>
          (let m1 = replaced_access_token env k now rep m in
           bnd (rotated_by_probe env rep m) (\<lambda>rotated. case rotated of
             None \<Rightarrow>
               (let m' = apply_capability_probe_result now r (bound_to_version env now m1) in andthen (flush_changes m0 m') (ret m'))
           | Some token \<Rightarrow>
               andthen (flush_changes m0 (m1\<lparr>mb_refresh_token_ciphertext := Some (te_encrypt env (k + 1) token)\<rparr>))
              (andthen (update_mailboxes (\<lambda>x. mb_id x = mb_id m) (\<lambda>x. x\<lparr>mb_token_version := mb_token_version x + 1\<rparr>))
              (bnd (asks (mailbox_row (mb_id m))) (\<lambda>row. case row of
                 None \<Rightarrow> throw MailboxAbsent
               | Some m2 \<Rightarrow>
                   (let m' = apply_capability_probe_result now r (bound_to_version env now m2)
                    in andthen (flush_changes m2 m') (ret m'))))))))"

definition token_after_probe :: "probe_result option \<Rightarrow> string \<Rightarrow> string" where
  "token_after_probe r token =
     (case r of None \<Rightarrow> token | Some x \<Rightarrow> (case pb_replacement x of None \<Rightarrow> token | Some rep \<Rightarrow> tp_access_token rep))"

definition cached_path :: "token_env \<Rightarrow> nat \<Rightarrow> channel option \<Rightarrow> string \<Rightarrow> (db, service_error, ensure_result option) action" where
  \<comment> \<open>the fast path: the hit, then the backfill of the scope and the first probe in the same short transaction\<close>
  "cached_path env b preferred i =
     bnd (cache_hit env (te_clock env b) preferred i) (\<lambda>hit. case hit of
       None \<Rightarrow> ret None
     | Some r \<Rightarrow>
         bnd (load_token_mailbox i) (\<lambda>m.
         (let m1 = backfilled_scope env (te_clock env b) (er_access_token r) m in
          if mb_capability m1 \<noteq> None then transaction (andthen (flush_changes m m1) (ret (Some r)))
          else
            bnd (run_probe env False m1 (er_access_token r)) (\<lambda>probe.
            andthen (transaction (case probe of None \<Rightarrow> andthen (flush_changes m m1) (ret m1) | Some pr \<Rightarrow> write_probe env (b + 4) m m1 pr))
              (ret (Some (r\<lparr>er_access_token := token_after_probe probe (er_access_token r)\<rparr>)))))))"

subsection \<open>Claim, exchange, completion\<close>

definition winner_access_token :: "token_env \<Rightarrow> time \<Rightarrow> channel option \<Rightarrow> string \<Rightarrow> db \<Rightarrow> ensure_result option" where
  \<comment> \<open>\<open>_read_winner_access_token_if_usable\<close>: what another worker has stored meanwhile\<close>
  "winner_access_token env now preferred i s =
     (case mailbox_row i s of
        None \<Rightarrow> None
      | Some m \<Rightarrow>
          if \<not> has_usable_cached_access_token env now m then None
          else if \<not> serves (preferred_mail_channel preferred m) (mb_scope m) then None
          else map_option (cached_result m) (te_decrypt env (the (mb_access_token_ciphertext m))))"

definition claim_failure :: "token_error \<Rightarrow> service_error" where
  "claim_failure e = (case e of
     MailboxNotFound \<Rightarrow> MailboxAbsent | MailboxIsInvalid \<Rightarrow> RefreshRefused | MissingCredentials \<Rightarrow> RefreshRefused
   | ActiveRefreshTokenLease \<Rightarrow> RefreshRefused | DecryptionFailed \<Rightarrow> CipherFailure | _ \<Rightarrow> RepositoryFailure e)"

definition claim_or_winner ::
    "token_env \<Rightarrow> nat \<Rightarrow> channel option \<Rightarrow> bool \<Rightarrow> string \<Rightarrow> (db, service_error, ensure_result + refresh_claim) action" where
  "claim_or_winner env b preferred skip_lease_check i =
     (\<lambda>s. case claim_token_refresh (te_decrypt env) (te_claim_id env b) (te_clock env b) i (te_claim_ttl_seconds env) skip_lease_check s of
        (Inr c, t) \<Rightarrow> (Inr (Inr c), t)
      | (Inl (AlreadyClaimed _ _ _), t) \<Rightarrow>
          (case winner_access_token env (te_clock env b) preferred i t of
             Some r \<Rightarrow> (Inr (Inl r), t) | None \<Rightarrow> (Inl RefreshRefused, t))
      | (Inl e, t) \<Rightarrow> (Inl (claim_failure e), t))"

definition phase_a ::
    "token_env \<Rightarrow> nat \<Rightarrow> bool \<Rightarrow> channel option \<Rightarrow> bool \<Rightarrow> string
       \<Rightarrow> (db, service_error, channel option \<times> (ensure_result + refresh_claim)) action" where
  "phase_a env b force preferred skip_lease_check i =
     bnd (load_token_mailbox i) (\<lambda>m.
     (let target = preferred_mail_channel preferred m in
      bnd (if force \<or> \<not> has_usable_cached_access_token env (te_clock env b) m then ret None
           else bnd (decrypted env (mb_access_token_ciphertext m)) (\<lambda>token.
                ret (if serves target (if scope_missing m then extract_oauth_scopes (te_loads env) token else mb_scope m)
                     then Some (cached_result m token) else None))) (\<lambda>hit. case hit of
        Some r \<Rightarrow> ret (target, Inl r)
      | None \<Rightarrow> bnd (claim_or_winner env b preferred skip_lease_check i) (\<lambda>x. ret (target, x)))))"

definition refresh_audit :: "string \<Rightarrow> refresh_claim \<Rightarrow> json \<Rightarrow> (db, service_error, unit) action" where
  "refresh_audit event c metadata =
     write_audit_event ''system'' None event ''mailbox'' (Some (rc_mailbox_id c)) (Some metadata) (Some (rc_claim_id c))"

definition abandon_invalid_grant :: "time \<Rightarrow> refresh_claim \<Rightarrow> (db, service_error, unit) action" where
  \<comment> \<open>\<open>_fail\<close>\<close>
  "abandon_invalid_grant now c =
     bnd (lift_error RepositoryFailure (fail_token_refresh_invalid_grant c now)) (\<lambda>applied.
     if applied then refresh_audit ''mailbox.invalidated'' c
       (JObj [(''reason'', JStr ''invalid_grant''), (''expected_token_version'', JInt (rc_expected_token_version c)),
              (''claim_id'', JStr (rc_claim_id c))])
     else ret ())"

definition phase_b :: "token_env \<Rightarrow> nat \<Rightarrow> refresh_claim \<Rightarrow> string option \<Rightarrow> (db, service_error, token_response) action" where
  \<comment> \<open>the exchange; a failure gives the claim back or marks the mailbox invalid, each in its own transaction\<close>
  "phase_b env b c refresh_scope =
     catch (bnd (lift_error from_client (te_oauth env (rc_mailbox_id c) (Some (rc_client_id c)) (rc_refresh_token c) refresh_scope)) (\<lambda>r.
            andthen (others env (b + 1)) (ret r)))
       (\<lambda>e. andthen (others env (b + 1))
            (andthen (transaction (if e = RefreshInvalidGrant then abandon_invalid_grant (te_clock env (b + 2)) c
                       else lift_error RepositoryFailure (release_token_refresh_claim c (te_clock env (b + 2)))))
              (throw e)))"

definition rotates :: "refresh_claim \<Rightarrow> token_response \<Rightarrow> bool" where
  "rotates c r \<longleftrightarrow> tr_rotated_refresh_token r \<notin> {None, Some [], Some (rc_refresh_token c)}"

definition refresh_outcome_of :: "token_env \<Rightarrow> nat \<Rightarrow> refresh_claim \<Rightarrow> token_response \<Rightarrow> refresh_outcome" where
  "refresh_outcome_of env b c r =
     (let started = te_clock env (b + 1) in
      \<lparr>ro_encrypted_access_token = te_encrypt env (b + 1) (tr_access_token r),
       ro_access_token_expires_at = started + secs (tr_expires_in r), ro_access_token_refreshed_at = started,
       ro_scope = (if tr_scope r \<in> {None, Some []} then extract_oauth_scopes (te_loads env) (tr_access_token r) else tr_scope r),
       ro_encrypted_refresh_token = (if rotates c r then Some (te_encrypt env b (or_text (tr_rotated_refresh_token r) [])) else None),
       ro_refresh_token_rotated = rotates c r, ro_refresh_token_updated_at = Some started,
       ro_refresh_token_expires_at = Some (started + days (te_lifetime_days env))\<rparr>)"

definition phase_c :: "token_env \<Rightarrow> nat \<Rightarrow> refresh_claim \<Rightarrow> token_response \<Rightarrow> (db, service_error, int option) action" where
  "phase_c env b c r =
     bnd (lift_error RepositoryFailure (complete_token_refresh c (refresh_outcome_of env b c r))) (\<lambda>v. case v of
       None \<Rightarrow> ret None
     | Some version \<Rightarrow>
         andthen (refresh_audit ''mailbox.token_refreshed'' c
             (JObj [(''token_version'', JInt version), (''refresh_token_rotated'', JBool (rotates c r)), (''claim_id'', JStr (rc_claim_id c))]))
           (ret (Some version)))"

subsection \<open>The probe after a refresh\<close>

definition should_probe :: "bool \<Rightarrow> channel option \<Rightarrow> channel option \<Rightarrow> mailbox \<Rightarrow> bool" where
  "should_probe force preferred target m =
     (if target = Some GRAPH \<and> cached_token_matches (mb_scope m) GRAPH
      then mb_capability m = None \<or> (force \<and> preferred = None)
      else force \<or> mb_capability m = None)"

definition refreshed_result :: "mailbox \<Rightarrow> mailbox \<Rightarrow> string \<Rightarrow> time \<Rightarrow> bool \<Rightarrow> ensure_result" where
  \<comment> \<open>the object before and after the probe\<close>
  "refreshed_result m0 m token expires rotated =
     \<lparr>er_mailbox_id = mb_id m, er_primary_email = mb_primary_email m, er_access_token = token,
      er_expires_at = (case mb_access_token_expires_at m of None \<Rightarrow> expires | Some x \<Rightarrow> x),
      er_token_version = mb_token_version m, er_refreshed = True,
      er_refresh_token_rotated = (mb_token_version m0 < mb_token_version m \<or> rotated)\<rparr>"

definition phase_d ::
    "token_env \<Rightarrow> nat \<Rightarrow> bool \<Rightarrow> channel option \<Rightarrow> channel option \<Rightarrow> string \<Rightarrow> refresh_claim \<Rightarrow> token_response
       \<Rightarrow> (db, service_error, ensure_result) action" where
  \<comment> \<open>\<open>_post_refresh_probe_and_reload\<close>: the row is read without a lock before the probe's network calls\<close>
  "phase_d env b force preferred target i c r =
     bnd (asks (mailbox_row i)) (\<lambda>row. case row of
       None \<Rightarrow> throw MailboxAbsent
     | Some m \<Rightarrow>
         bnd (if mb_access_token_ciphertext m \<in> {None, Some []} then ret (tr_access_token r)
              else decrypted env (mb_access_token_ciphertext m)) (\<lambda>token.
         (let done = (\<lambda>m' tk. ret (refreshed_result m m' tk (te_clock env (b + 1) + secs (tr_expires_in r)) (rotates c r))) in
          if \<not> should_probe force preferred target m then done m token
          else
            bnd (run_probe env True m token) (\<lambda>probe.
            andthen (others env (b + 3))
           (bnd (transaction (case probe of None \<Rightarrow> ret m | Some pr \<Rightarrow> write_probe env (b + 4) m m pr)) (\<lambda>m'.
            done m' (token_after_probe probe token)))))))"

subsection \<open>Ensuring a token\<close>

fun ensure_with_claim ::
    "token_env \<Rightarrow> nat \<Rightarrow> nat \<Rightarrow> bool \<Rightarrow> channel option \<Rightarrow> bool \<Rightarrow> string \<Rightarrow> (db, service_error, ensure_result) action" where
  \<comment> \<open>the third argument: how many retries after a lost compare-and-swap are left\<close>
  "ensure_with_claim env b retries force preferred skip_lease_check i =
     bnd (if force then ret None else cached_path env b preferred i) (\<lambda>cached. case cached of
       Some r \<Rightarrow> ret r
     | None \<Rightarrow>
         bnd (transaction (phase_a env b force preferred skip_lease_check i)) (\<lambda>(target, claimed). case claimed of
           Inl r \<Rightarrow> ret r
         | Inr c \<Rightarrow>
             bnd (phase_b env b c (resolve_oauth_refresh_scope target)) (\<lambda>r.
             bnd (transaction (phase_c env b c r)) (\<lambda>version.
             andthen (others env (b + 2))
               (case version of
                  Some v \<Rightarrow> phase_d env b force preferred target i c r
                | None \<Rightarrow>
                    bnd (asks (winner_access_token env (te_clock env (b + 2)) preferred i)) (\<lambda>w. case w of
                      Some x \<Rightarrow> ret x
                    | None \<Rightarrow>
                        (case retries of
                           0 \<Rightarrow> throw RefreshRefused
                         | Suc n \<Rightarrow> ensure_with_claim env (b + 8) n True preferred skip_lease_check i)))))))"

definition ensure_access_token ::
    "token_env \<Rightarrow> bool \<Rightarrow> channel option \<Rightarrow> bool \<Rightarrow> string \<Rightarrow> (db, service_error, ensure_result) action" where
  "ensure_access_token env force preferred skip_lease_check i = ensure_with_claim env 0 1 force preferred skip_lease_check i"

declare ensure_with_claim.simps [simp del]

subsection \<open>The production wiring\<close>

record wiring =
  \<comment> \<open>the pool and the network the clients share; fresh uuids per client and use\<close>
  wi_pool :: "string \<Rightarrow> nat \<Rightarrow> resolve_env"
  wi_ids :: "string \<Rightarrow> nat \<Rightarrow> string \<times> string"
  wi_say :: "proxy_error \<Rightarrow> string"
  wi_str :: "int \<Rightarrow> string"
  wi_token_endpoint :: "resolved_proxy option \<Rightarrow> (string \<times> string) list \<Rightarrow> http_outcome"
  wi_imap :: "resolved_proxy option \<Rightarrow> string \<Rightarrow> imap_outcome"
  wi_graph :: "resolved_proxy option \<Rightarrow> string \<Rightarrow> http_outcome"

definition wired_oauth :: "wiring \<Rightarrow> string \<Rightarrow> string option \<Rightarrow> string \<Rightarrow> string option \<Rightarrow> (db, proxy_error, token_response) action" where
  "wired_oauth w i client_id token scope =
     refresh_access_token (wi_pool w (''oauth'' @ token)) (wi_ids w (''oauth'' @ token)) (wi_say w ProxyTransport) (wi_token_endpoint w)
       i client_id token scope"

definition wired_clients :: "wiring \<Rightarrow> probe_clients" where
  "wired_clients w = \<lparr>
     pc_graph = (\<lambda>m token. probe_messages_access (wi_pool w (''graph'' @ token)) (wi_ids w (''graph'' @ token)) (wi_say w) (wi_str w)
                   (wi_say w ProxyTransport) (wi_graph w) (mb_id m) token),
     pc_imap = (\<lambda>m token. imap_connect (wi_pool w (''imap'' @ token)) (wi_ids w (''imap'' @ token)) (wi_say w ProxyTransport) (wi_imap w) m token),
     pc_oauth = Some (\<lambda>m token scope. wired_oauth w (mb_id m) (mb_client_id m) token scope),
     pc_say = wi_say w\<rparr>"

definition wired_env :: "wiring \<Rightarrow> token_env \<Rightarrow> token_env" where
  \<comment> \<open>\<open>_build_worker_access_token_service\<close>: the real clients over the given settings, cipher and clock\<close>
  "wired_env w env = env\<lparr>te_oauth := wired_oauth w, te_prober := Some (probe_mailbox_capability (wired_clients w))\<rparr>"

end
