(* ===== verification/PoolFrame.thy ===== *)
theory PoolFrame
  imports CapabilityProbe
begin

text \<open>
  What the outbound clients may touch. The locale names the few writes the proxy pool makes (the
  binding of a mailbox, proxies, the policy, health events, audit entries); any relation between states
  that these writes respect is respected by every outbound operation built over the pool: the token
  exchange, the IMAP login, the Graph probe and the whole capability probe. It is interpreted with
  what the token service and the leases need of the network.
\<close>

definition proxy_identity :: "egress_proxy \<Rightarrow> string \<times> string \<times> proxy_protocol \<times> string \<times> int \<times> string option \<times> string option \<times> string" where
  \<comment> \<open>what only an administrator changes\<close>
  "proxy_identity p = (px_id p, px_name p, px_protocol p, px_host p, px_port p, px_username_ciphertext p,
     px_password_ciphertext p, px_credential_fingerprint p)"

lemma identity_kept [simp]:
  "proxy_identity (reopen_proxy now p) = proxy_identity p" "proxy_identity (observed st pol now ob p) = proxy_identity p"
  by (simp_all add: proxy_identity_def reopen_proxy_def observed_def mark_success_def mark_failure_def Let_def)

definition probe_rank :: "egress_proxy \<Rightarrow> bool \<times> int" where
  \<comment> \<open>what orders and filters the health sweep, also the administrator's\<close>
  "probe_rank p = (px_enabled p, px_priority p)"

lemma rank_kept [simp]:
  "probe_rank (reopen_proxy now p) = probe_rank p" "probe_rank (observed st pol now ob p) = probe_rank p"
  by (simp_all add: probe_rank_def reopen_proxy_def observed_def mark_success_def mark_failure_def Let_def)

lemma write_proxy_ids [simp]: "px_id ` set (proxies (write_proxy p s)) = px_id ` set (proxies s)"
  unfolding write_proxy_def by simp (metis list.set_map map_key_put_row)

locale pool_frame = frame_relation R for R :: "db \<Rightarrow> db \<Rightarrow> bool" +
  assumes binding: "mailbox_row (mb_id m) s = Some m \<Longrightarrow> x \<in> insert None (Some ` px_id ` set (proxies s))
      \<Longrightarrow> R s (put_mailbox (rebound_mailbox now x m) s)"
    and write_proxy: "p \<in> set (proxies s) \<Longrightarrow> proxy_identity q = proxy_identity p \<Longrightarrow> probe_rank q = probe_rank p
      \<Longrightarrow> R s (write_proxy q s)"
    and policies: "R s (s\<lparr>policies := pol\<rparr>)"
    and health: "he_proxy_id e \<in> px_id ` set (proxies s) \<Longrightarrow> R s (s\<lparr>health_events := health_events s @ [e]\<rparr>)"
    and audit: "R s (s\<lparr>audit_logs := as\<rparr>)"
begin

lemma audits: "steps R (add_audit a)" "steps R (audit_system x y z w)" "steps R (write_audit_event a1 a2 a3 a4 a5 a6 a7)"
  by (simp_all add: steps_def add_audit_run audit_system_def write_audit_event_def audit)

lemma policy: "steps R (ensure_policy st now)"
  unfolding ensure_policy_def Let_def by (intro rules modify) (rule policies)

lemma resolved: "steps R (to_resolved_proxy cipher p)" "steps R (decrypt_optional cipher x)" "steps R (load_mailbox_row i)"
  unfolding to_resolved_proxy_def decrypt_optional_def load_mailbox_row_def by (intro rules)+

lemma select: "steps R (select_candidate_from locked now pol ex k n)"
proof (rule stepsI)
  fix s
  obtain r t where run: "select_candidate_from locked now pol ex k n s = (Inr r, t)"
    using select_from_total by blast
  show "R s (snd (select_candidate_from locked now pol ex k n s))"
  proof (cases r)
    case None
    with select_from_None [of locked now pol ex k n s t] run show ?thesis by (simp add: refl)
  next
    case (Some p)
    with select_from_Some [of locked now pol ex k n s p t] run show ?thesis by (auto intro: write_proxy)
  qed
qed

lemma select_member:
  assumes "select_candidate_from locked now pol ex k n s = (Inr (Some p), t)"
  shows "px_id p \<in> px_id ` set (proxies t)"
  using select_from_Some [OF assms] by auto

lemma update_binding:
  assumes "mailbox_row (mb_id m) s = Some m" and "\<And>p. sel = Some p \<Longrightarrow> px_id p \<in> px_id ` set (proxies s)"
  shows "R s (snd (update_binding now m sel reason s))"
proof -
  have "R s (put_mailbox (rebound_mailbox now (map_option px_id sel) m) s)"
    using assms(2) by (intro binding [OF assms(1)]) (cases sel; auto)
  then show ?thesis
    by (auto simp: update_binding_def Let_def andthen_run modify_run ret_run refl audit_system_def add_audit_run intro: trans audit)
qed

lemma select_keeps_row: "select_candidate_from locked now pol ex k n s = (r, t) \<Longrightarrow> mailbox_row i t = mailbox_row i s"
  by (auto simp: select_from_run Let_def split: option.splits)

lemma after_binding:
  assumes "mailbox_row (mb_id m) s = Some m" and "\<And>p. sel = Some p \<Longrightarrow> px_id p \<in> px_id ` set (proxies s)" and "steps R k"
  shows "R s (snd (andthen (update_binding now m sel reason) k s))"
proof -
  obtain u where u: "update_binding now m sel reason s = (Inr (), u)" using update_binding_run(1) by blast
  have "R s u" using update_binding [OF assms(1), of sel now reason] assms(2) by (simp add: u)
  with u assms(3) show ?thesis by (auto simp: andthen_run intro: trans stepsD)
qed

lemma resolve_under: "steps R (resolve_under_policy env pol i ex force)"
proof (rule stepsI)
  fix s
  show "R s (snd (resolve_under_policy env pol i ex force s))"
  proof (cases "pp_enabled pol \<and> mailbox_row i s \<noteq> None")
    case False
    then show ?thesis
      by (auto simp: resolve_under_policy_def Let_def andthen_run require_run ret_run bnd_run load_mailbox_run refl
          split: option.splits)
  next
    case True
    then obtain m where m: "pp_enabled pol" "mailbox_row i s = Some m" by auto
    note eq = resolve_under_run [OF m]
    show ?thesis
    proof (cases "sticky_proxy (re_now env) pol ex force m s")
      case (Some p)
      have "steps R (bnd (to_resolved_proxy (re_cipher env) p) (\<lambda>r. ret (Some r)))" by (intro rules resolved)
      with Some show ?thesis by (simp add: eq steps_def)
    next
      case None
      obtain found u where u: "select_candidate_from (re_locked env) (re_now env) pol ex 0 8 s = (Inr found, u)"
        using select_from_total by blast
      have su: "R s u" using stepsD_eq [OF select u] .
      have row: "mailbox_row (mb_id m) u = Some m" using select_keeps_row [OF u] m(2) mailbox_row_id by auto
      have "R u (snd ((case found of None \<Rightarrow> andthen (require (\<not> pp_required pol \<and> pp_allow_direct_development pol) NoHealthyProxy)
               (andthen (update_binding (re_now env) m None ''direct_routing'') (ret None))
           | Some p \<Rightarrow> andthen (update_binding (re_now env) m (Some p) ''automatic_failover'')
               (bnd (to_resolved_proxy (re_cipher env) p) (\<lambda>r. ret (Some r)))) u))"
      proof (cases found)
        case None
        have "R u (snd (andthen (update_binding (re_now env) m None ''direct_routing'') (ret (None :: resolved_proxy option)) u))"
          by (rule after_binding [OF row _ ret]) simp
        with None show ?thesis by (simp add: andthen_run [of "require b e" for b e] require_run refl)
      next
        case (Some p)
        have "steps R (bnd (to_resolved_proxy (re_cipher env) p) (\<lambda>r. ret (Some r)))" by (intro rules resolved)
        from after_binding [OF row _ this, of "Some p"] select_member [OF u [unfolded Some]] Some show ?thesis by simp
      qed
      with su None u show ?thesis by (simp add: eq select_candidate_with_retry_def bnd_run) (rule trans)
    qed
  qed
qed

lemma resolve: "steps R (resolve_for_mailbox env i ex force)"
  unfolding resolve_for_mailbox_def resolve_for_mailbox_in_session_def by (intro rules policy resolve_under)

lemma observe_row:
  assumes "proxy_row i s = Some p" and "he_proxy_id e = px_id (observed st pol now ob p)"
  shows "R s (snd (andthen (modify (write_proxy (observed st pol now ob p)))
    (andthen (add_health_event e) (andthen (add_audit a) (ret True))) s))"
proof -
  let ?q = "observed st pol now ob p" and ?t = "write_proxy (observed st pol now ob p) s"
  have p: "p \<in> set (proxies s)" using proxy_row_id [OF assms(1)] by simp
  have t: "R s ?t" by (rule write_proxy [OF p]) simp_all
  have "px_id ?q \<in> px_id ` set (proxies ?t)"
    using p by simp
  with assms(2) have "R s (?t\<lparr>health_events := health_events ?t @ [e]\<rparr>)"
    by (intro trans [OF t health]) simp
  with t show ?thesis
    by (auto simp: run add_health_event_def add_audit_run intro: trans audit split: prod.splits sum.splits)
qed

lemma applied_observation: "steps R (apply_observation st now fresh eid ob)"
  unfolding apply_observation_def Let_def
  by (intro bnd_asks) (auto simp: bnd_run asks_run ret_run refl intro!: observe_row split: option.split)

lemma observation: "steps R (record_proxy_observation st now fresh eid ob)"
  unfolding record_proxy_observation_def by (intro transaction applied_observation)

lemma recorded: "steps R (record_proxy_success st now fresh eid i)" "steps R (record_proxy_failure st now fresh eid i x)"
  unfolding record_proxy_success_def record_proxy_failure_def by (intro rules observation)+

lemma recover: "steps R (recover_proxy now i)"
proof (rule stepsI)
  fix s
  show "R s (snd (recover_proxy now i s))"
  proof (cases "proxy_row i s")
    case None
    then show ?thesis by (simp add: recover_proxy_def run refl)
  next
    case (Some p)
    have "R s (write_proxy (p\<lparr>px_status := PxUnknown, px_consecutive_failure_count := 0, px_cooldown_until := None,
        px_last_error_summary := None, px_updated_at := now\<rparr>) s)"
      by (rule write_proxy [of p]) (use proxy_row_id [OF Some] in \<open>simp_all add: proxy_identity_def probe_rank_def\<close>)
    with Some show ?thesis
      by (auto simp: recover_proxy_def bnd_run asks_run Let_def andthen_run modify_run ret_run audit_system_def add_audit_run intro: trans audit)
  qed
qed

lemma bind: "steps R (bind_mailbox_to_proxy st now i pid reason)"
proof (rule stepsI)
  fix s
  let ?t = "snd (ensure_policy st now s)"
  have t: "R s ?t" by (rule stepsD [OF policy])
  show "R s (snd (bind_mailbox_to_proxy st now i pid reason s))"
  proof (cases "mailbox_row i s")
    case None
    then show ?thesis by (simp add: bind_mailbox_to_proxy_def bnd_run load_mailbox_run refl)
  next
    case (Some m)
    obtain pol u where u: "ensure_policy st now s = (Inr pol, u)" using ensure_policy_run by blast
    have row: "mailbox_row (mb_id m) u = Some m"
      using Some mailbox_row_id [OF Some] u by (auto simp: ensure_policy_run)
    have up: "R s (snd (update_binding now m sel reason u))" if "\<And>p. sel = Some p \<Longrightarrow> px_id p \<in> px_id ` set (proxies u)" for sel
      using trans [OF _ update_binding [OF row that]] t u by simp
    note eq = bind_mailbox_to_proxy_def bnd_run load_mailbox_run andthen_run require_run asks_run throw_run
    show ?thesis
    proof (cases pid)
      case None
      with Some u up [of None] t show ?thesis by (simp add: eq)
    next
      case pid: (Some j)
      show ?thesis
      proof (cases "proxy_row j u")
        case None
        with Some u pid t show ?thesis by (simp add: eq)
      next
        case row: (Some p)
        have "R s (snd (update_binding now m (Some p) reason u))"
          by (rule up) (use proxy_row_id [OF row] in auto)
        with row Some u pid t show ?thesis by (simp add: eq)
      qed
    qed
  qed
qed

lemma test: "steps R (test_proxy_connectivity st cipher now fresh eid handshake i)"
  unfolding test_proxy_connectivity_def
  by (intro rules policy resolved applied_observation audits)

lemma with_retry:
  assumes "\<And>p. steps R (op p)"
  shows "steps R (execute_with_proxy_retry env ids summary i op)"
  unfolding execute_with_proxy_retry_def Let_def
  by (intro rules assms resolve recorded) (auto split: sum.split intro!: rules assms resolve recorded)

lemma exchange: "steps R (refresh_access_token env ids summary http i cid token scope)"
  unfolding refresh_access_token_def by (intro with_retry) (auto split: sum.split intro: ret throw)

lemma imap: "steps R (imap_connect env ids summary dial m token)"
  unfolding imap_connect_def by (intro with_retry) (auto split: imap_outcome.split intro: ret throw)

lemma graph: "steps R (probe_messages_access env ids say str_of summary http i token)"
proof -
  have worked: "steps R (case selected of None \<Rightarrow> ret outcome | Some rp \<Rightarrow> if co_kind outcome = TransportFailed then ret outcome
      else andthen (record_proxy_success st now fresh eid (rx_id rp)) (ret outcome))" for selected outcome st now fresh eid
    by (intro rules recorded)
  show ?thesis
    unfolding probe_messages_access_def Let_def
    by (rule bnd [OF resolve])
      (auto split: sum.split option.split intro!: rules recorded resolve worked)
qed

lemma probe_channel:
  assumes "\<And>m token. steps R (pc_graph c m token)" and "\<And>m token. steps R (pc_imap c m token)"
    and "\<And>f m token scope. pc_oauth c = Some f \<Longrightarrow> steps R (f m token scope)"
  shows "steps R (probe_channel c m rt token ch)"
proof -
  have oauth: "may_reaudience c m rt first \<Longrightarrow> steps R (the (pc_oauth c) m x sc)" for first x sc
    using assms(3) by (auto simp: may_reaudience_def)
  show ?thesis
    unfolding probe_channel_def probe_graph_with_optional_reaudience_def probe_imap_def
    by (cases ch) (auto intro!: rules assms oauth split: sum.split)
qed

lemma probe:
  assumes "\<And>m token. steps R (pc_graph c m token)" and "\<And>m token. steps R (pc_imap c m token)"
    and "\<And>f m token scope. pc_oauth c = Some f \<Longrightarrow> steps R (f m token scope)"
  shows "steps R (probe_mailbox_capability c m token rt)"
proof -
  have "steps R (probe_channels c m rt preferred chs outs rep tok)" for preferred chs outs rep tok
  proof (induction chs arbitrary: outs rep tok)
    case Nil
    then show ?case by (simp add: ret)
  next
    case (Cons ch chs)
    show ?case
      unfolding probe_channels.simps
    proof (rule bnd)
      show "steps R (probe_channel c m rt tok ch)" by (rule probe_channel) (fact assms)+
    qed (auto simp: Let_def intro!: rules Cons.IH split: prod.split)
  qed
  then show ?thesis by (simp add: probe_mailbox_capability_def Let_def)
qed

end

end
