(* ===== verification/TokenFlow.thy ===== *)
theory TokenFlow
  imports TokenService PoolFrame
begin

text \<open>
  What the token service promises over the production clients: the proxy pool and the probes leave the
  token columns of every mailbox alone, a refresh stores the token it returns, and no outcome leaves the
  mailbox claimed. Also where the compare-and-swap discipline is broken: the retry after a lost swap
  and the writes of the probe.
\<close>

subsection \<open>What the clients leave alone\<close>

definition token_view :: "mailbox \<Rightarrow> mailbox" where
  \<comment> \<open>a mailbox without its proxy binding\<close>
  "token_view m = m\<lparr>mb_egress_proxy_id := None, mb_proxy_bound_at := None, mb_proxy_last_switch_at := None, mb_updated_at := 0\<rparr>"

definition same_tokens :: "db \<Rightarrow> db \<Rightarrow> bool" where
  "same_tokens s t \<longleftrightarrow> (mailbox_ids_unique s \<longrightarrow>
     mailbox_ids_unique t \<and> (\<forall>i. map_option token_view (mailbox_row i t) = map_option token_view (mailbox_row i s)))"

lemma view_rebound [simp]: "token_view (rebound_mailbox now x m) = token_view m"
  by (simp add: token_view_def rebound_mailbox_def)

lemma same_tokens_put:
  assumes "mailbox_row (mb_id m) s = Some q" and "token_view m = token_view q"
  shows "same_tokens s (put_mailbox m s)"
proof -
  have "map_option token_view (mailbox_row i (put_mailbox m s)) = map_option token_view (mailbox_row i s)" for i
    using assms by (auto split: option.split)
  then show ?thesis by (simp add: same_tokens_def put_mailbox_def mailbox_ids_unique_def)
qed

interpretation tk: pool_frame same_tokens
proof unfold_locales
  show "same_tokens s s" for s by (simp add: same_tokens_def)
  show "same_tokens s t \<Longrightarrow> same_tokens t u \<Longrightarrow> same_tokens s u" for s t u by (simp add: same_tokens_def)
  show "mailbox_row (mb_id m) s = Some m \<Longrightarrow> same_tokens s (put_mailbox (rebound_mailbox now x m) s)" for m s now x
    by (rule same_tokens_put [where q = m]) simp_all
qed (simp_all add: same_tokens_def mailbox_ids_unique_def mailbox_row_def write_proxy_def)

lemma tk_oauth: "steps same_tokens (wired_oauth w i cid token scope)"
  unfolding wired_oauth_def by (rule tk.exchange)

lemma tk_prober: "steps same_tokens (probe_mailbox_capability (wired_clients w) m token rt)"
  by (rule tk.probe) (auto simp: wired_clients_def intro: tk.graph tk.imap tk_oauth)

lemma same_tokens_row:
  assumes "same_tokens s t" and "mailbox_ids_unique s" and "mailbox_row i s = Some m"
  obtains m' where "mailbox_row i t = Some m'" and "token_view m' = token_view m" and "mailbox_ids_unique t"
  using assms by (metis (no_types, lifting) same_tokens_def map_option_eq_Some)

lemma token_view_fields:
  "mb_id (token_view m) = mb_id m"
  "mb_token_version (token_view m) = mb_token_version m"
  "mb_token_refresh_claim_id (token_view m) = mb_token_refresh_claim_id m"
  "mb_token_refresh_claim_expires_at (token_view m) = mb_token_refresh_claim_expires_at m"
  "mb_access_token_ciphertext (token_view m) = mb_access_token_ciphertext m"
  "mb_access_token_expires_at (token_view m) = mb_access_token_expires_at m"
  "mb_access_token_source_version (token_view m) = mb_access_token_source_version m"
  "mb_refresh_token_ciphertext (token_view m) = mb_refresh_token_ciphertext m"
  "mb_provider_type (token_view m) = mb_provider_type m"
  "mb_status (token_view m) = mb_status m"
  "mb_client_id (token_view m) = mb_client_id m"
  "mb_scope (token_view m) = mb_scope m"
  "mb_capability (token_view m) = mb_capability m"
  "mb_primary_email (token_view m) = mb_primary_email m"
  by (simp_all add: token_view_def)

lemma view_fields:
  assumes "token_view a = token_view b"
  shows "mb_id a = mb_id b"
    "mb_token_version a = mb_token_version b"
    "mb_token_refresh_claim_id a = mb_token_refresh_claim_id b"
    "mb_token_refresh_claim_expires_at a = mb_token_refresh_claim_expires_at b"
    "mb_access_token_ciphertext a = mb_access_token_ciphertext b"
    "mb_access_token_expires_at a = mb_access_token_expires_at b"
    "mb_access_token_source_version a = mb_access_token_source_version b"
    "mb_refresh_token_ciphertext a = mb_refresh_token_ciphertext b"
    "mb_provider_type a = mb_provider_type b"
    "mb_status a = mb_status b"
    "mb_client_id a = mb_client_id b"
    "mb_scope a = mb_scope b"
    "mb_capability a = mb_capability b"
    "mb_primary_email a = mb_primary_email b"
  using assms by (metis token_view_fields)+

subsection \<open>What the token service leaves alone\<close>

text \<open>
  Any relation that the writes of the clients respect, and every update of mailbox rows that keeps their identity,
  is respected by the whole token service over the production clients.
\<close>

definition mailbox_identity :: "mailbox \<Rightarrow> string \<times> string \<times> string" where
  "mailbox_identity m = (mb_id m, mb_primary_email m, mb_provider_type m)"

lemma identity_writes [simp]:
  "mailbox_identity (install_refresh_claim x y z m) = mailbox_identity m" "mailbox_identity (clear_refresh_claim m) = mailbox_identity m"
  "mailbox_identity (store_access_token ro v m) = mailbox_identity m" "mailbox_identity (flush_mailbox a b m) = mailbox_identity m"
  by (simp_all add: mailbox_identity_def install_refresh_claim_def clear_refresh_claim_def store_access_token_def flush_mailbox_def)

lemma wired_parts:
  "te_others (wired_env w e) = te_others e" "te_decrypt (wired_env w e) = te_decrypt e" "te_encrypt (wired_env w e) = te_encrypt e"
  "te_clock (wired_env w e) = te_clock e" "te_prober (wired_env w e) = Some (probe_mailbox_capability (wired_clients w))"
  "te_oauth (wired_env w e) = wired_oauth w" "te_lifetime_days (wired_env w e) = te_lifetime_days e"
  by (simp_all add: wired_env_def)

locale token_frame = pool_frame +
  assumes updated: "(\<And>m. mailbox_identity (f m) = mailbox_identity m) \<Longrightarrow> R s (s\<lparr>mailboxes := update_where p f (mailboxes s)\<rparr>)"
begin

lemma mailbox_updates: "(\<And>m. mailbox_identity (f m) = mailbox_identity m) \<Longrightarrow> steps R (update_mailboxes p f)"
  by (rule stepsI) (simp add: update_mailboxes_run updated)

lemma oauth: "steps R (wired_oauth w i cid token scope)"
  unfolding wired_oauth_def by (rule exchange)

lemma prober: "steps R (probe_mailbox_capability (wired_clients w) m token rt)"
  by (rule probe) (auto simp: wired_clients_def intro: graph imap oauth)

lemma flushes: "steps R (flush_changes a b)"
  unfolding flush_changes_def by (intro rules mailbox_updates) simp

lemma probe_writes: "steps R (write_probe e k m0 m r)"
  unfolding write_probe_def rotated_by_probe_def decrypted_def Let_def
  by (intro rules flushes mailbox_updates) (simp_all add: mailbox_identity_def)

lemma probe_runs: "steps R (run_probe (wired_env w e) force m token)"
  unfolding run_probe_def wired_parts option.case by (intro rules prober)

lemma reads: "steps R (load_token_mailbox i)" "steps R (decrypted e x)" "steps R (cache_hit e now pref i)"
proof -
  show l: "steps R (load_token_mailbox i)" for i
    unfolding load_token_mailbox_def by (intro rules) (auto split: sum.split intro: rules)
  show d: "steps R (decrypted e x)" for x unfolding decrypted_def by (intro rules)
  show "steps R (cache_hit e now pref i)" unfolding cache_hit_def Let_def by (intro rules l d)
qed

lemma cached: "steps R (cached_path (wired_env w e) b pref i)"
  unfolding cached_path_def Let_def by (intro rules reads flushes probe_writes probe_runs)

lemma claiming: "steps R (claim_or_winner e b pref skip i)"
proof (rule stepsI)
  fix s
  obtain r t where rt: "claim_token_refresh (te_decrypt e) (te_claim_id e b) (te_clock e b) i (te_claim_ttl_seconds e) skip s = (r, t)"
    by (metis prod.collapse)
  have "R s t" using snd_claim [of "te_decrypt e" "te_claim_id e b" "te_clock e b" i "te_claim_ttl_seconds e" skip s] rt
    by (auto simp: refl intro!: updated)
  moreover have "snd (claim_or_winner e b pref skip i s) = t"
    by (auto simp: claim_or_winner_def rt split: sum.split token_error.split option.split)
  ultimately show "R s (snd (claim_or_winner e b pref skip i s))" by simp
qed

lemma first_phase: "steps R (phase_a e b force pref skip i)"
  unfolding phase_a_def Let_def by (intro rules reads claiming)

lemma finishing:
  "steps R (abandon_invalid_grant now c)" "steps R (lift_error RepositoryFailure (release_token_refresh_claim c now))"
  "steps R (phase_c e b c r)"
proof -
  show "steps R (abandon_invalid_grant now c)"
    unfolding abandon_invalid_grant_def fail_token_refresh_invalid_grant_def refresh_audit_def
    by (intro rules audits mailbox_updates) (simp_all add: mailbox_identity_def clear_refresh_claim_def)
  show "steps R (lift_error RepositoryFailure (release_token_refresh_claim c now))"
    unfolding release_token_refresh_claim_def by (intro rules mailbox_updates) (simp_all add: mailbox_identity_def clear_refresh_claim_def)
  show "steps R (phase_c e b c r)"
    unfolding phase_c_def complete_token_refresh_def refresh_audit_def
    by (intro rules audits mailbox_updates) (simp_all add: mailbox_identity_def store_access_token_def clear_refresh_claim_def)
qed

lemma ensure:
  assumes "\<And>k s. R s (te_others e k s)"
  shows "steps R (ensure_with_claim (wired_env w e) b n force pref skip i)"
proof -
  have o: "steps R (others (wired_env w e) k)" for k
    unfolding others_def by (rule modify) (simp add: assms wired_parts)
  have pb: "steps R (phase_b (wired_env w e) b c sc)" for b c sc
    unfolding phase_b_def by (intro rules finishing o) (simp add: oauth wired_parts)
  have pd: "steps R (phase_d (wired_env w e) b force pref target i c r)" for b force target c r
    unfolding phase_d_def Let_def by (intro rules reads probe_runs probe_writes o)
  show ?thesis
  proof (induction n arbitrary: b force)
    case 0
    show ?case
      unfolding ensure_with_claim.simps [of _ _ 0]
      by (intro rules cached) (auto split: prod.split sum.split intro!: rules first_phase pb pd finishing o)
  next
    case (Suc n)
    show ?case
      unfolding ensure_with_claim.simps [of _ _ "Suc n"]
      by (intro rules cached) (auto split: prod.split sum.split intro!: rules first_phase pb pd finishing o Suc.IH)
  qed
qed

end

text \<open>Among it the provider of every mailbox.\<close>

definition same_types :: "db \<Rightarrow> db \<Rightarrow> bool" where
  "same_types s t \<longleftrightarrow> (\<forall>i. map_option mb_provider_type (mailbox_row i t) = map_option mb_provider_type (mailbox_row i s))"

interpretation ty: token_frame same_types
proof unfold_locales
  show "same_types s (s\<lparr>mailboxes := update_where p f (mailboxes s)\<rparr>)" if f: "\<And>m. mailbox_identity (f m) = mailbox_identity m" for s p f
  proof -
    have "mb_id (f m) = mb_id m" "mb_provider_type (f m) = mb_provider_type m" for m
      using f [of m] by (simp_all add: mailbox_identity_def)
    then show ?thesis by (simp add: same_types_def option.map_comp comp_def if_distrib cong: if_cong)
  qed
  show "mailbox_row (mb_id m) s = Some m \<Longrightarrow> same_types s (put_mailbox (rebound_mailbox now x m) s)" for m s now x
    by (auto simp: same_types_def rebound_mailbox_def split: option.split)
qed (simp_all add: same_types_def mailbox_row_def write_proxy_def)

subsection \<open>A refresh gives its claim back\<close>

definition unclaimed :: "string \<Rightarrow> db \<Rightarrow> bool" where
  "unclaimed i s \<longleftrightarrow> mailbox_ids_unique s \<and> (\<exists>m. mailbox_row i s = Some m \<and> mb_token_refresh_claim_id m = None)"

definition claimed_by :: "string \<Rightarrow> refresh_claim \<Rightarrow> db \<Rightarrow> bool" where
  "claimed_by i c s \<longleftrightarrow> mailbox_ids_unique s \<and> rc_mailbox_id c = i \<and> (\<exists>m. mailbox_row i s = Some m \<and> claim_matches c m)"

lemma unclaimed_frame: "unclaimed i s \<Longrightarrow> same_tokens s t \<Longrightarrow> unclaimed i t"
  unfolding unclaimed_def by (metis same_tokens_row view_fields(3))

lemma claimed_frame:
  assumes "claimed_by i c s" and "same_tokens s t"
  shows "claimed_by i c t"
proof -
  obtain m where m: "mailbox_row i s = Some m" "claim_matches c m" using assms(1) by (auto simp: claimed_by_def)
  obtain m' where m': "mailbox_row i t = Some m'" "token_view m' = token_view m" "mailbox_ids_unique t"
    using same_tokens_row [OF assms(2) _ m(1)] assms(1) by (auto simp: claimed_by_def)
  with m view_fields [OF m'(2)] assms(1) show ?thesis by (auto simp: claimed_by_def claim_matches_def)
qed

lemma unclaimed_update:
  assumes "unclaimed i s" and "\<And>m. mb_id (f m) = mb_id m" and "\<And>m. mb_token_refresh_claim_id (f m) = mb_token_refresh_claim_id m"
  shows "unclaimed i (s\<lparr>mailboxes := update_where p f (mailboxes s)\<rparr>)"
proof -
  obtain m where "mailbox_row i s = Some m" "mb_token_refresh_claim_id m = None" using assms(1) by (auto simp: unclaimed_def)
  then show ?thesis using assms by (cases "p m") (simp_all add: unclaimed_def)
qed

lemma unclaimed_audit [simp]: "unclaimed i (s\<lparr>audit_logs := a\<rparr>) = unclaimed i s"
  by (simp add: unclaimed_def mailbox_ids_unique_def mailbox_row_def)

lemma flush_fields [simp]:
  "mb_id (flush_mailbox a b m) = mb_id m" "mb_token_refresh_claim_id (flush_mailbox a b m) = mb_token_refresh_claim_id m"
  "mb_token_version (flush_mailbox a b m) = mb_token_version m"
  by (simp_all add: flush_mailbox_def)

lemma un_flush [keep]: "keeps (unclaimed i) (flush_changes a b)"
  unfolding flush_changes_def by (rule keepsI) (auto simp: run intro!: unclaimed_update)

lemma un_write [keep]: "keeps (unclaimed i) (write_probe e k m0 m r)"
proof -
  have up: "keeps (unclaimed i) (update_mailboxes p (\<lambda>x. x\<lparr>mb_token_version := mb_token_version x + 1\<rparr>))" for p
    by (rule keepsI) (auto simp: run intro!: unclaimed_update)
  show ?thesis
    unfolding write_probe_def rotated_by_probe_def decrypted_def Let_def by (intro keep up)
qed

lemma un_run_probe [keep]: "keeps (unclaimed i) (run_probe (wired_env w e) force m token)"
proof -
  have "keeps (unclaimed i) (probe_mailbox_capability (wired_clients w) m token rt)" for rt
    by (rule tk.keeps [OF tk_prober]) (rule unclaimed_frame)
  then show ?thesis unfolding run_probe_def wired_env_def by (auto intro!: keep)
qed

lemma un_load [keep]: "keeps (unclaimed i) (load_token_mailbox j)" "keeps (unclaimed i) (decrypted e x)"
    "keeps (unclaimed i) (cache_hit e now pref j)"
proof -
  show l: "keeps (unclaimed i) (load_token_mailbox j)" for j
    unfolding load_token_mailbox_def by (intro keep) (auto split: sum.split intro: keep)
  show d: "keeps (unclaimed i) (decrypted e x)" for x
    unfolding decrypted_def by (intro keep)
  show "keeps (unclaimed i) (cache_hit e now pref j)"
    unfolding cache_hit_def Let_def by (intro keep l d)
qed

lemma un_cached [keep]: "keeps (unclaimed i) (cached_path (wired_env w e) b pref j)"
  unfolding cached_path_def Let_def by (intro keep)

lemma un_others: "te_others e = (\<lambda>_ s. s) \<Longrightarrow> keeps (unclaimed i) (others (wired_env w e) k)"
  by (simp add: others_def wired_env_def keeps_def modify_run)

lemma un_phase_d:
  assumes "te_others e = (\<lambda>_ s. s)"
  shows "keeps (unclaimed i) (phase_d (wired_env w e) b force pref target j c r)"
  unfolding phase_d_def Let_def by (intro keep un_others [OF assms])

lemma claim_of_unclaimed:
  assumes "unclaimed i s" and "claim_token_refresh dec cid now i ttl skip s = (r, t)"
  shows "case r of Inr c \<Rightarrow> claimed_by i c t \<and> rc_claim_id c = cid \<and> (\<exists>m. mailbox_row i s = Some m \<and> mailbox_row i t = Some (install_refresh_claim cid (now + secs ttl) now m)) | Inl e \<Rightarrow> \<nexists>x y z. e = AlreadyClaimed x y z"
proof -
  obtain m where u: "mailbox_ids_unique s" and m: "mailbox_row i s = Some m" "mb_token_refresh_claim_id m = None"
    using assms(1) by (auto simp: unclaimed_def)
  have id: "mb_id m = i" using mailbox_row_id [OF m(1)] by simp
  have n: "rowcount (claimable i now) (mailboxes s) = 1"
    using rowcount_by_id [OF u, of "claimable i now" i] m id by (simp add: claimable_def)
  have free: "live_refresh_claim m now = None" by (simp add: live_refresh_claim_def m(2))
  let ?t = "s\<lparr>mailboxes := update_where (claimable i now) (install_refresh_claim cid (now + secs ttl) now) (mailboxes s)\<rparr>"
  have row: "mailbox_row i ?t = Some (install_refresh_claim cid (now + secs ttl) now m)"
    using m id by (simp add: claimable_def)
  have "case claim_token_refresh dec cid now i ttl skip s of
      (Inr c, t) \<Rightarrow> t = ?t \<and> rc_claim_id c = cid \<and> rc_mailbox_id c = mb_id m \<and> rc_expected_token_version c = mb_token_version m
    | (Inl e, t) \<Rightarrow> \<nexists>x y z. e = AlreadyClaimed x y z"
    using m(1) row n free
    by (auto simp: claim_token_refresh_def run install_refresh_claim_def simp del: mailbox_row_update split: option.split)
  with assms(2) row u m(1) show ?thesis
    by (auto simp: claimed_by_def claim_matches_def id split: sum.splits)
qed

lemma load_state: "load_token_mailbox j s = (r, t) \<Longrightarrow> t = s"
  by (auto simp: load_token_mailbox_def run split: option.splits sum.splits)

lemma decrypted_state: "decrypted e x s = (r, t) \<Longrightarrow> t = s"
  by (auto simp: decrypted_def run split: option.splits)

lemma phase_a_of_unclaimed:
  assumes "unclaimed i s" and "transaction (phase_a e b force pref skip i) s = (r, t)"
  shows "case r of Inr (target, Inr c) \<Rightarrow> claimed_by i c t \<and> rc_claim_id c = te_claim_id e b 
       \<and> (\<exists>m. mailbox_row i s = Some m
          \<and> mailbox_row i t = Some (install_refresh_claim (te_claim_id e b) (te_clock e b + secs (te_claim_ttl_seconds e)) (te_clock e b) m))
     | Inr (target, Inl x) \<Rightarrow> t = s \<and> \<not> er_refreshed x | Inl err \<Rightarrow> t = s"
proof (cases r)
  case (Inl err)
  with assms(2) show ?thesis by (auto simp: transaction_run split: prod.splits sum.splits)
next
  case (Inr x)
  obtain target res where x: "x = (target, res)" by (cases x)
  have run: "phase_a e b force pref skip i s = (Inr (target, res), t)"
    using assms(2) Inr x by (auto simp: transaction_run split: prod.splits sum.splits)
  obtain m where m: "load_token_mailbox i s = (Inr m, s)" using run load_state [of i s] by (auto simp: phase_a_def bnd_run split: prod.splits sum.splits)
  let ?look = "if force \<or> \<not> has_usable_cached_access_token e (te_clock e b) m then ret None
      else bnd (decrypted e (mb_access_token_ciphertext m)) (\<lambda>token. ret (if serves (preferred_mail_channel pref m)
        (if scope_missing m then extract_oauth_scopes (te_loads e) token else mb_scope m) then Some (cached_result m token) else None))"
  have look: "v = s \<and> (\<forall>z. h = Inr (Some z) \<longrightarrow> \<not> er_refreshed z)" if "?look s = (h, v)" for h v
    using that decrypted_state by (auto simp: ret_run bnd_run cached_result_def split: if_splits prod.splits sum.splits)
  obtain hit where hit: "?look s = (Inr hit, s)" and rest: "(case hit of Some z \<Rightarrow> ret (preferred_mail_channel pref m, Inl z)
      | None \<Rightarrow> bnd (claim_or_winner e b pref skip i) (\<lambda>x. ret (preferred_mail_channel pref m, x))) s = (Inr (target, res), t)"
    using run m look
    by (auto simp: phase_a_def Let_def bnd_run [of "load_token_mailbox j" for j] bnd_run [of "if c then k else l" for c k l] split: prod.splits sum.splits)
  show ?thesis
  proof (cases hit)
    case (Some z)
    with rest look [OF hit] Inr x show ?thesis by (auto simp: ret_run)
  next
    case None
    then have c: "claim_or_winner e b pref skip i s = (Inr res, t)"
      using rest by (auto simp: bnd_run ret_run split: prod.splits sum.splits)
    obtain q u where q: "claim_token_refresh (te_decrypt e) (te_claim_id e b) (te_clock e b) i (te_claim_ttl_seconds e) skip s = (q, u)"
      by (metis prod.collapse)
    from claim_of_unclaimed [OF assms(1) q] c q Inr x show ?thesis
      by (cases q) (auto simp: claim_or_winner_def split: token_error.splits)
  qed
qed

lemma claimed_count: "claimed_by i c s \<Longrightarrow> rowcount (claim_matches c) (mailboxes s) = 1"
  using rowcount_by_id [of s "claim_matches c" i] by (auto simp: claimed_by_def claim_matches_def)

lemma claimed_update:
  assumes "claimed_by i c s" and "\<And>m. mb_id (f m) = mb_id m" and "\<And>m. mb_token_refresh_claim_id (f m) = None"
  shows "unclaimed i (s\<lparr>mailboxes := update_where (claim_matches c) f (mailboxes s)\<rparr>)"
  using assms by (auto simp: claimed_by_def unclaimed_def)

lemma released_claim:
  assumes "claimed_by i c s"
  shows "unclaimed i (snd (release_token_refresh_claim c now s))" "unclaimed i (snd (abandon_invalid_grant now c s))"
proof -
  obtain m where m: "mailbox_row i s = Some m" "claim_matches c m" "mailbox_ids_unique s" "rc_mailbox_id c = i"
    using assms by (auto simp: claimed_by_def)
  then have "mb_id m = rc_mailbox_id c" "mb_token_refresh_claim_id m = Some (rc_claim_id c)" by (simp_all add: claim_matches_def)
  with m show "unclaimed i (snd (release_token_refresh_claim c now s))"
    by (simp add: release_token_refresh_claim_def run unclaimed_def)
  have "unclaimed i (s\<lparr>mailboxes := update_where (claim_matches c)
      (\<lambda>m. clear_refresh_claim (m\<lparr>mb_status := MbInvalid, mb_updated_at := now\<rparr>)) (mailboxes s)\<rparr>)"
    by (rule claimed_update [OF assms]) simp_all
  then show "unclaimed i (snd (abandon_invalid_grant now c s))"
    using claimed_count [OF assms]
    by (simp add: abandon_invalid_grant_def lift_error_run fail_token_refresh_invalid_grant_def run refresh_audit_def
        write_audit_event_def)
qed

lemma phase_b_of_claimed:
  assumes "claimed_by i c s" and "te_others e = (\<lambda>_ s. s)" and "phase_b (wired_env w e) b c sc s = (r, t)"
  shows "case r of Inr _ \<Rightarrow> claimed_by i c t | Inl _ \<Rightarrow> unclaimed i t"
proof -
  let ?e = "wired_env w e"
  have o: "te_others ?e k = (\<lambda>s. s)" for k using assms(2) by (simp add: wired_env_def)
  obtain q u where q: "te_oauth ?e (rc_mailbox_id c) (Some (rc_client_id c)) (rc_refresh_token c) sc s = (q, u)" by (metis prod.collapse)
  have "same_tokens s u" using q stepsD_eq [OF tk_oauth] by (simp add: wired_env_def)
  with assms(1) have u: "claimed_by i c u" by (rule claimed_frame)
  obtain v where v: "release_token_refresh_claim c (te_clock ?e (b + 2)) u = (Inr (), v)" "unclaimed i v"
    using released_claim(1) [OF u] by (auto simp: release_token_refresh_claim_def run)
  obtain z where z: "abandon_invalid_grant (te_clock ?e (b + 2)) c u = (Inr (), z)" "unclaimed i z"
    using released_claim(2) [OF u, of "te_clock ?e (b + 2)"] claimed_count [OF u]
    by (simp add: abandon_invalid_grant_def lift_error_run fail_token_refresh_invalid_grant_def run refresh_audit_def write_audit_event_def)
  show ?thesis
  proof (cases q)
    case (Inr x)
    with q u assms(3) show ?thesis
      by (auto simp: phase_b_def catch_run bnd_run lift_error_run andthen_run others_def modify_run o ret_run)
  next
    case (Inl err)
    have "phase_b ?e b c sc s = (Inl (from_client err), if from_client err = RefreshInvalidGrant then z else v)"
      using q Inl v(1) z(1)
      by (simp add: phase_b_def catch_run bnd_run lift_error_run andthen_run others_def modify_run o transaction_run throw_run)
    with assms(3) v(2) z(2) show ?thesis by (auto split: if_splits)
  qed
qed

definition completed_row :: "token_env \<Rightarrow> nat \<Rightarrow> refresh_claim \<Rightarrow> token_response \<Rightarrow> mailbox \<Rightarrow> mailbox" where
  "completed_row e b c r m =
     (if rotates c r then store_access_token (refresh_outcome_of e b c r) (rc_expected_token_version c + 1)
        (m\<lparr>mb_refresh_token_ciphertext := ro_encrypted_refresh_token (refresh_outcome_of e b c r),
           mb_token_version := rc_expected_token_version c + 1\<rparr>)
      else store_access_token (refresh_outcome_of e b c r) (rc_expected_token_version c) m)"

lemma phase_c_of_claimed:
  assumes "claimed_by i c s" and "transaction (phase_c e b c r) s = (x, t)"
  shows "unclaimed i t \<and> (\<exists>v m. x = Inr (Some v) \<and> mailbox_row i s = Some m \<and> claim_matches c m \<and> mailbox_row i t = Some (completed_row e b c r m))"
proof -
  obtain m where m: "mailbox_row i s = Some m" "claim_matches c m" "mailbox_ids_unique s" using assms(1) by (auto simp: claimed_by_def)
  let ?f = "completed_row e b c r"
  have f: "mb_id (?f m) = mb_id m" "mb_token_refresh_claim_id (?f m) = None" for m by (simp_all add: completed_row_def)
  let ?u = "s\<lparr>mailboxes := update_where (claim_matches c) ?f (mailboxes s)\<rparr>"
  have "\<exists>v. complete_token_refresh c (refresh_outcome_of e b c r) s = (Inr (Some v), ?u)"
    using claimed_count [OF assms(1)]
    by (simp add: complete_token_refresh_def run completed_row_def [abs_def] refresh_outcome_of_def Let_def)
  then obtain v where v: "complete_token_refresh c (refresh_outcome_of e b c r) s = (Inr (Some v), ?u)" by blast
  have "unclaimed i ?u" by (rule claimed_update [OF assms(1)]) (simp_all add: f)
  moreover have "mailbox_row i ?u = Some (?f m)" using m by (simp add: f)
  moreover obtain a where "x = Inr (Some v)" "t = ?u\<lparr>audit_logs := a\<rparr>"
    using assms(2) v by (auto simp: transaction_run phase_c_def bnd_run lift_error_run andthen_run ret_run refresh_audit_def
        write_audit_event_def add_audit_run)
  ultimately show ?thesis using m by (simp add: mailbox_row_def)
qed

lemma one_case: "(case (1 :: nat) of 0 \<Rightarrow> a | Suc n \<Rightarrow> f n) = f 0"
  by simp

definition after_miss :: "token_env \<Rightarrow> bool \<Rightarrow> channel option \<Rightarrow> bool \<Rightarrow> string \<Rightarrow> (db, service_error, ensure_result) action" where
  \<comment> \<open>the first attempt, once the cache has not answered\<close>
  "after_miss e force preferred skip i =
     bnd (transaction (phase_a e 0 force preferred skip i)) (\<lambda>(target, claimed). case claimed of
           Inl r \<Rightarrow> ret r
         | Inr c \<Rightarrow>
             bnd (phase_b e 0 c (resolve_oauth_refresh_scope target)) (\<lambda>r.
             bnd (transaction (phase_c e 0 c r)) (\<lambda>version.
             andthen (others e 2)
               (case version of
                  Some v \<Rightarrow> phase_d e 0 force preferred target i c r
                | None \<Rightarrow>
                    bnd (asks (winner_access_token e (te_clock e 2) preferred i)) (\<lambda>w. case w of
                      Some x \<Rightarrow> ret x
                    | None \<Rightarrow> ensure_with_claim e 8 0 True preferred skip i)))))"

lemma ensure_unfold:
  "ensure_access_token e force preferred skip i =
     bnd (if force then ret None else cached_path e 0 preferred i) (\<lambda>cached. case cached of
       Some r \<Rightarrow> ret r | None \<Rightarrow> after_miss e force preferred skip i)"
  unfolding ensure_access_token_def ensure_with_claim.simps [of e 0 1] after_miss_def
  by (simp only: add_0 one_case)

text \<open>
  C18. No refresh leaves a mailbox locked: when the mailbox carried no refresh claim, it carries none after
  the service was asked for a token, whether it answered from the cache, refreshed, failed at the
  token endpoint, was told the grant is invalid, or failed in the probe afterwards - so the next
  worker need not wait for a claim to time out. (Nobody else writes the mailbox meanwhile.)
\<close>

theorem token_refresh_returns_claim:
  assumes "mailbox_ids_unique s" and "mailbox_row i s = Some m" and "mb_token_refresh_claim_id m = None"
    and "te_others e = (\<lambda>_ s. s)" and "ensure_access_token (wired_env w e) force preferred skip i s = (r, t)"
  shows "\<exists>m'. mailbox_row i t = Some m' \<and> mb_token_refresh_claim_id m' = None"
proof -
  let ?e = "wired_env w e"
  have o: "te_others ?e k = (\<lambda>s. s)" for k using assms(4) by (simp add: wired_env_def)
  have s: "unclaimed i s" using assms(1-3) by (simp add: unclaimed_def)
  have d: "unclaimed i (snd (phase_d ?e 0 force preferred target i c x v))" if "unclaimed i v" for target c x v
    using keepsD [OF un_phase_d [OF assms(4)] that] .
  have "unclaimed i t"
  proof -
    obtain h u where h: "(if force then ret None else cached_path ?e 0 preferred i) s = (h, u)" by (metis prod.collapse)
    have u: "unclaimed i u" using h s keepsD_eq [OF un_cached s] by (auto simp: ret_run split: if_splits)
    show ?thesis
    proof (cases "h = Inr None")
      case False
      with h u assms(5) show ?thesis
        by (auto simp: ensure_unfold after_miss_def bnd_run [of "if c then k else l" for c k l] ret_run
            split: sum.splits option.splits)
    next
      case True
      obtain q v where q: "transaction (phase_a ?e 0 force preferred skip i) u = (q, v)" by (metis prod.collapse)
      note qa = phase_a_of_unclaimed [OF u q]
      show ?thesis
      proof (cases "\<exists>target c. q = Inr (target, Inr c)")
        case False
        with h True u q qa assms(5) show ?thesis
          by (auto simp: ensure_unfold after_miss_def bnd_run ret_run split: sum.splits prod.splits)
      next
        case True2: True
        then obtain target c where c: "q = Inr (target, Inr c)" by blast
        then have v: "claimed_by i c v" using qa by simp
        obtain x z where x: "phase_b ?e 0 c (resolve_oauth_refresh_scope target) v = (x, z)" by (metis prod.collapse)
        note xb = phase_b_of_claimed [OF v assms(4) x]
        show ?thesis
        proof (cases x)
          case (Inl err)
          with h True q c x xb assms(5) show ?thesis
            by (auto simp: ensure_unfold after_miss_def bnd_run)
        next
          case (Inr tr)
          with xb have z: "claimed_by i c z" by simp
          obtain y v2 where y: "transaction (phase_c ?e 0 c tr) z = (y, v2)" by (metis prod.collapse)
          obtain ver where ver: "y = Inr (Some ver)" "unclaimed i v2" using phase_c_of_claimed [OF z y] by blast
          have "ensure_access_token ?e force preferred skip i s = phase_d ?e 0 force preferred target i c tr v2"
            using h True q c x Inr y ver(1)
            by (simp add: ensure_unfold after_miss_def bnd_run andthen_run others_def modify_run o)
          with assms(5) d [OF ver(2), of target c tr] show ?thesis by (metis snd_conv)
        qed
      qed
    qed
  qed
  then show ?thesis by (simp add: unclaimed_def)
qed

subsection \<open>A refresh stores the token it returns\<close>

definition holds_token :: "token_env \<Rightarrow> mailbox \<Rightarrow> string \<Rightarrow> bool" where
  \<comment> \<open>the stored access token decrypts to \<open>token\<close> and belongs to the current refresh token\<close>
  "holds_token e m token \<longleftrightarrow> mb_access_token_ciphertext m \<notin> {None, Some []} \<and> mb_access_token_expires_at m \<noteq> None
     \<and> te_decrypt e (the (mb_access_token_ciphertext m)) = Some token
     \<and> mb_access_token_source_version m = Some (mb_token_version m)"

definition answers :: "token_env \<Rightarrow> string \<Rightarrow> ensure_result \<Rightarrow> db \<Rightarrow> bool" where
  "answers e i r t \<longleftrightarrow> (\<exists>m. mailbox_row i t = Some m \<and> holds_token e m (er_access_token r)
     \<and> mb_token_version m = er_token_version r \<and> mb_access_token_expires_at m = Some (er_expires_at r))"

lemma changed_current [simp]: "changed old new old = new"
  by (simp add: changed_def)

lemma flushed_row:
  assumes "mailbox_row i s = Some n" and "mb_id a = i"
  shows "\<exists>t. flush_changes a b s = (Inr (), t) \<and> mailbox_row i t = Some (flush_mailbox a b n)"
  using assms mailbox_row_id [OF assms(1)] by (simp add: flush_changes_def run)

definition object_stored :: "token_env \<Rightarrow> string \<Rightarrow> mailbox \<Rightarrow> string \<Rightarrow> db \<Rightarrow> bool" where
  \<comment> \<open>the row after the flushes agrees with the object on what the result is made of\<close>
  "object_stored e i m token t \<longleftrightarrow> (\<exists>n. mailbox_row i t = Some n \<and> holds_token e n token
     \<and> mb_token_version n = mb_token_version m \<and> mb_access_token_expires_at n = mb_access_token_expires_at m)"

lemma write_probe_stores:
  assumes "mailbox_row i s = Some n" and "token_view n = token_view m" and "mb_id m = i" and "holds_token e m token"
    and cipher: "\<And>k x. te_decrypt e (te_encrypt e k x) = Some x \<and> te_encrypt e k x \<noteq> []"
    and "write_probe e k m m pr s = (Inr m', t)"
  shows "object_stored e i m' (token_after_probe (Some pr) token) t"
proof -
  note same = view_fields [OF assms(2)]
  show ?thesis
  proof (cases "pb_replacement pr")
    case None
    let ?o = "apply_capability_probe_result (te_clock e k) pr m"
    obtain u where u: "flush_changes m ?o s = (Inr (), u)" "mailbox_row i u = Some (flush_mailbox m ?o n)"
      using flushed_row [OF assms(1,3)] by blast
    then have "m' = ?o" "t = u" using assms(6) None by (auto simp: write_probe_def Let_def andthen_run ret_run)
    with u(2) assms(4) None same show ?thesis
      by (simp add: object_stored_def holds_token_def flush_mailbox_def apply_capability_probe_result_def token_after_probe_def)
  next
    case (Some rep)
    let ?now = "te_clock e k"
    let ?m1 = "replaced_access_token e k ?now rep m"
    have m1: "mb_access_token_ciphertext ?m1 = Some (te_encrypt e k (tp_access_token rep))" "mb_token_version ?m1 = mb_token_version m"
      "mb_access_token_expires_at ?m1 = Some (?now + secs (tp_expires_in rep))" "mb_id ?m1 = mb_id m"
      by (simp_all add: replaced_access_token_def Let_def)
    have rs: "rotated_by_probe e rep m s = (q, v) \<Longrightarrow> v = s" for q v
      by (auto simp: rotated_by_probe_def ret_run bnd_run split: if_splits prod.splits sum.splits dest: decrypted_state)
    obtain rot where rot: "rotated_by_probe e rep m s = (Inr rot, s)"
      using assms(6) Some rs by (auto simp: write_probe_def Let_def bnd_run split: prod.splits sum.splits)
    show ?thesis
    proof (cases rot)
      case None
      let ?o = "apply_capability_probe_result ?now pr (bound_to_version e ?now ?m1)"
      obtain u where u: "flush_changes m ?o s = (Inr (), u)" "mailbox_row i u = Some (flush_mailbox m ?o n)"
        using flushed_row [OF assms(1,3)] by blast
      then have "m' = ?o" "t = u" using assms(6) Some rot None by (auto simp: write_probe_def Let_def andthen_run bnd_run ret_run)
      with u(2) Some same m1 cipher show ?thesis
        by (simp add: object_stored_def holds_token_def flush_mailbox_def apply_capability_probe_result_def token_after_probe_def
            bound_to_version_def stamp_refresh_token_lifetime_def)
    next
      case rotated: (Some new)
      let ?a = "?m1\<lparr>mb_refresh_token_ciphertext := Some (te_encrypt e (k + 1) new)\<rparr>"
      obtain u where u: "flush_changes m ?a s = (Inr (), u)" "mailbox_row i u = Some (flush_mailbox m ?a n)"
        using flushed_row [OF assms(1,3)] by blast
      let ?up = "\<lambda>x. x\<lparr>mb_token_version := mb_token_version x + 1\<rparr>"
      let ?v = "u\<lparr>mailboxes := update_where (\<lambda>x. mb_id x = mb_id m) ?up (mailboxes u)\<rparr>"
      let ?n = "?up (flush_mailbox m ?a n)"
      let ?o = "apply_capability_probe_result ?now pr (bound_to_version e ?now ?n)"
      have idn: "mb_id n = i" using mailbox_row_id [OF assms(1)] by simp
      have v: "mailbox_row i ?v = Some ?n" using u(2) assms(3) idn by simp
      have "mb_id ?n = i" using idn by simp
      from flushed_row [OF v this] obtain z where z: "flush_changes ?n ?o ?v = (Inr (), z)" "mailbox_row i z = Some (flush_mailbox ?n ?o ?n)"
        by blast
      have eq: "write_probe e k m m pr s = (Inr ?o, z)"
        using Some rot rotated u(1) v z(1) assms(3)
        by (simp add: write_probe_def Let_def andthen_run bnd_run ret_run asks_run update_mailboxes_run del: mailbox_row_update)
      then have "m' = ?o" "t = z" using assms(6) by auto
      with z(2) Some same m1 cipher show ?thesis
        by (simp add: object_stored_def holds_token_def flush_mailbox_def apply_capability_probe_result_def token_after_probe_def
            bound_to_version_def stamp_refresh_token_lifetime_def)
    qed
  qed
qed

lemma transaction_Inr: "transaction m s = (Inr x, t) \<Longrightarrow> m s = (Inr x, t)"
  by (auto simp: transaction_run split: prod.splits sum.splits)

lemmas wired_fields [simp] = wired_parts

lemma wired_write_probe: "write_probe (wired_env w e) = write_probe e"
proof -
  have "replaced_access_token (wired_env w e) = replaced_access_token e" "bound_to_version (wired_env w e) = bound_to_version e"
    "decrypted (wired_env w e) = decrypted e"
    by (intro ext, simp add: replaced_access_token_def bound_to_version_def decrypted_def)+
  moreover from this have "rotated_by_probe (wired_env w e) = rotated_by_probe e"
    by (intro ext) (simp add: rotated_by_probe_def)
  ultimately have eqs: "replaced_access_token (wired_env w e) = replaced_access_token e" "bound_to_version (wired_env w e) = bound_to_version e"
    "rotated_by_probe (wired_env w e) = rotated_by_probe e" by blast+
  show ?thesis by (intro ext) (unfold write_probe_def eqs wired_fields, rule refl)
qed

lemma phase_d_answers:
  assumes "mailbox_ids_unique s" and "mailbox_row i s = Some m" and "holds_token e m token" and "te_others e = (\<lambda>_ s. s)"
    and cipher: "\<And>k x. te_decrypt e (te_encrypt e k x) = Some x \<and> te_encrypt e k x \<noteq> []"
    and run: "phase_d (wired_env w e) b force pref target i c r s = (Inr res, t)"
  shows "answers e i res t"
proof -
  let ?e = "wired_env w e"
  have id: "mb_id m = i" using mailbox_row_id [OF assms(2)] by simp
  obtain cv where ct: "mb_access_token_ciphertext m = Some cv" "cv \<noteq> []"
    using assms(3) by (auto simp: holds_token_def)
  then have dec: "decrypted ?e (Some cv) s = (Inr token, s)"
    using assms(3) by (simp add: holds_token_def decrypted_def or_text_def ret_run)
  let ?done = "\<lambda>m' tk. ret (refreshed_result m m' tk (te_clock e (b + 1) + secs (tr_expires_in r)) (rotates c r)) ::
      (db, service_error, ensure_result) action"
  have reply: "answers e i res t" if "?done m' tk u = (Inr res, t)" "object_stored e i m' tk u" for m' tk u
    using that by (auto simp: ret_run refreshed_result_def answers_def object_stored_def holds_token_def split: option.splits)
  have self: "object_stored e i m token s" using assms(2,3) by (simp add: object_stored_def)
  show ?thesis
  proof (cases "should_probe force pref target m")
    case False
    then have "?done m token s = (Inr res, t)"
      using run assms(2) ct dec by (simp add: phase_d_def Let_def bnd_run asks_run)
    then show ?thesis using reply self by blast
  next
    case True
    let ?tail = "\<lambda>probe. andthen (others ?e (b + 3)) (bnd (transaction (case probe of None \<Rightarrow> ret m | Some pr \<Rightarrow> write_probe ?e (b + 4) m m pr))
        (\<lambda>m'. ?done m' (token_after_probe probe token)))"
    have "bnd (run_probe ?e True m token) ?tail s = (Inr res, t)"
      using run True assms(2) ct dec by (simp add: phase_d_def Let_def bnd_run [of "asks f" for f] bnd_run [of "decrypted x y" for x y] asks_run)
    then obtain pr u where pr: "run_probe ?e True m token s = (Inr (Some pr), u)" and rest: "?tail (Some pr) u = (Inr res, t)"
      by (auto simp: bnd_Inr_iff run_probe_def ret_Inr_iff)
    have "same_tokens s u"
      using pr tk_prober [of w m token "readable_refresh_token ?e m"]
      by (auto simp: run_probe_def bnd_run lift_error_run ret_run dest: stepsD_eq split: prod.splits sum.splits)
    then obtain n where n: "mailbox_row i u = Some n" "token_view n = token_view m"
      using same_tokens_row assms(1,2) by blast
    from rest obtain m' v where m': "write_probe e (b + 4) m m pr u = (Inr m', v)" "?done m' (token_after_probe (Some pr) token) v = (Inr res, t)"
      by (auto simp: andthen_run others_def modify_run wired_write_probe assms(4) bnd_Inr_iff dest!: transaction_Inr)
    from reply [OF m'(2) write_probe_stores [OF n id assms(3) cipher m'(1)]] show ?thesis .
  qed
qed

lemma cached_not_refreshed: "cached_path e b pref i s = (Inr (Some r), t) \<Longrightarrow> \<not> er_refreshed r"
  by (auto simp: cached_path_def Let_def cache_hit_def cached_result_def returns decrypted_def load_token_mailbox_def
      split: if_splits option.splits dest!: transaction_Inr)

lemma require_microsoft_provider:
  "mb_provider_type a = mb_provider_type b \<Longrightarrow>
     (\<exists>x. require_microsoft_mailbox (Some a) = Inr x) = (\<exists>x. require_microsoft_mailbox (Some b) = Inr x)"
  by (simp add: require_microsoft_mailbox_def split: sum.split)

lemma require_microsoft_same: "require_microsoft_mailbox (Some a) = Inr x \<Longrightarrow> x = a"
  by (auto simp: require_microsoft_mailbox_def split: sum.splits if_splits)

lemma phase_a_loads: "phase_a e b force pref skip i s = (Inr q, t) \<Longrightarrow> \<exists>m. mailbox_row i s = Some m \<and> require_microsoft_mailbox (Some m) = Inr m"
  by (auto simp: phase_a_def load_token_mailbox_def bnd_Inr_iff asks_Inr_iff throw_run ret_run split: option.splits sum.splits
      dest: require_microsoft_same)

lemma microsoft_kept:
  assumes "require_microsoft_mailbox (Some m) = Inr m" and "mailbox_row i s = Some m" and "same_types s t" and "mailbox_row i t = Some n"
  shows "require_microsoft_mailbox (Some n) = Inr n"
proof -
  have "mb_provider_type n = mb_provider_type m" using assms(2-4) by (auto simp: same_types_def split: option.splits dest: spec [of _ i])
  with assms(1) show ?thesis by (auto simp: require_microsoft_mailbox_def split: sum.splits if_splits)
qed

lemma stored_token_hits:
  assumes "mailbox_row i t = Some m" and "require_microsoft_mailbox (Some m) = Inr m" and "holds_token e m token"
    and "mb_access_token_expires_at m = Some x" and "now + secs (te_skew_seconds e) < x"
    and "serves (preferred_mail_channel pref m) (if scope_missing m then extract_oauth_scopes (te_loads e) token else mb_scope m)"
  shows "cache_hit e now pref i t = (Inr (Some (cached_result m token)), t)"
proof -
  have "has_usable_cached_access_token e now m" using assms(3-5) by (simp add: holds_token_def has_usable_cached_access_token_def)
  moreover have "decrypted e (mb_access_token_ciphertext m) t = (Inr token, t)"
    using assms(3) by (auto simp: holds_token_def decrypted_def or_text_def ret_run)
  moreover have "load_token_mailbox i t = (Inr m, t)" using assms(1,2) by (simp add: load_token_mailbox_def run)
  ultimately show ?thesis using assms(6) by (cases "scope_missing m") (simp_all add: cache_hit_def Let_def bnd_run ret_run)
qed

text \<open>
  C19. What a refresh returns is what it stored. Suppose nobody holds the refresh claim of the mailbox and nobody
  else writes to the database during the call. When the call reports a refresh, the mailbox row holds the
  returned access token (under the cipher), with the returned expiry and token version, bound to the
  current refresh token - also when the capability probe replaced the token or rotated the refresh
  token on the way. The next look into the cache, at any time until the refresh skew before the expiry, answers with this
  token, provided the scope stored with it (or, without one, the scope in the token) serves the channel asked for. The cipher
  need only decrypt what it encrypted.
\<close>

theorem refreshed_token_is_stored:
  assumes "mailbox_ids_unique s" and "mailbox_row i s = Some m" and "mb_token_refresh_claim_id m = None"
    and others: "te_others e = (\<lambda>_ s. s)" and cipher: "\<And>k x. te_decrypt e (te_encrypt e k x) = Some x \<and> te_encrypt e k x \<noteq> []"
    and run: "ensure_access_token (wired_env w e) force preferred skip i s = (Inr r, t)" and "er_refreshed r"
  shows "\<exists>m'. mailbox_row i t = Some m' \<and> te_decrypt e (the (mb_access_token_ciphertext m')) = Some (er_access_token r)
     \<and> mb_access_token_source_version m' = Some (mb_token_version m') \<and> mb_token_version m' = er_token_version r
     \<and> mb_access_token_expires_at m' = Some (er_expires_at r)
     \<and> (\<forall>now pref. now + secs (te_skew_seconds e) < er_expires_at r
          \<and> serves (preferred_mail_channel pref m') (if scope_missing m' then extract_oauth_scopes (te_loads e) (er_access_token r) else mb_scope m')
          \<longrightarrow> cache_hit e now pref i t = (Inr (Some (cached_result m' (er_access_token r))), t))"
proof -
  let ?e = "wired_env w e"
  have s: "unclaimed i s" using assms(1-3) by (simp add: unclaimed_def)
  obtain h0 u where h0: "(if force then ret None else cached_path ?e 0 preferred i) s = (Inr h0, u)"
    and rest0: "(case h0 of Some r \<Rightarrow> ret r | None \<Rightarrow> after_miss ?e force preferred skip i) u = (Inr r, t)"
    using run by (auto simp: ensure_unfold bnd_Inr_iff)
  have "h0 = None"
  proof (rule ccontr)
    assume "h0 \<noteq> None"
    then obtain x where x: "h0 = Some x" by blast
    then have "cached_path ?e 0 preferred i s = (Inr (Some x), u)" using h0 by (auto simp: ret_run split: if_splits)
    then have "\<not> er_refreshed x" by (rule cached_not_refreshed)
    with x rest0 assms(7) show False by (simp add: ret_run)
  qed
  with h0 rest0 have h: "(if force then ret None else cached_path ?e 0 preferred i) s = (Inr None, u)"
    and rest1: "after_miss ?e force preferred skip i u = (Inr r, t)" by simp_all
  have u: "unclaimed i u" using h s keepsD_eq [OF un_cached s] by (auto simp: ret_run split: if_splits)
  obtain target res v where a: "transaction (phase_a ?e 0 force preferred skip i) u = (Inr (target, res), v)"
    using rest1 by (auto simp: after_miss_def bnd_Inr_iff [of "transaction k" for k])
  note pa = phase_a_of_unclaimed [OF u a]
  obtain c where c: "res = Inr c" "claimed_by i c v"
    using pa rest1 a assms(7) by (cases res) (auto simp: after_miss_def bnd_run [of "transaction k" for k] ret_run)
  obtain tr z where b: "phase_b ?e 0 c (resolve_oauth_refresh_scope target) v = (Inr tr, z)" and z: "claimed_by i c z"
    using rest1 a c phase_b_of_claimed [OF c(2) others]
    by (fastforce simp: after_miss_def bnd_run [of "transaction k" for k] bnd_Inr_iff [of "phase_b e2 k c2 sc" for e2 k c2 sc])
  obtain y v2 where y: "transaction (phase_c ?e 0 c tr) z = (y, v2)" by (metis prod.collapse)
  obtain ver n where ver: "y = Inr (Some ver)" "unclaimed i v2" "claim_matches c n" "mailbox_row i v2 = Some (completed_row ?e 0 c tr n)"
    using phase_c_of_claimed [OF z y] by blast
  have d: "phase_d ?e 0 force preferred target i c tr v2 = (Inr r, t)"
    using rest1 a c(1) b y ver(1) others
    by (simp add: after_miss_def bnd_run [of "transaction k" for k] bnd_run [of "phase_b e2 k c2 sc" for e2 k c2 sc] andthen_run others_def modify_run wired_env_def)
  have "holds_token e (completed_row ?e 0 c tr n) (tr_access_token tr)"
    using ver(3) cipher
    by (simp add: holds_token_def completed_row_def refresh_outcome_of_def Let_def wired_env_def claim_matches_def)
      (simp add: store_access_token_def clear_refresh_claim_def)
  from phase_d_answers [OF _ ver(4) this others cipher d] ver(2) have "answers e i r t" by (simp add: unclaimed_def)
  then obtain m' where m': "mailbox_row i t = Some m'" "holds_token e m' (er_access_token r)" "mb_token_version m' = er_token_version r"
      "mb_access_token_expires_at m' = Some (er_expires_at r)"
    by (auto simp: answers_def)
  obtain mu where mu: "mailbox_row i u = Some mu" "require_microsoft_mailbox (Some mu) = Inr mu"
    using a phase_a_loads by (metis transaction_Inr)
  have "same_types s u" using h stepsD_eq [OF ty.cached] by (auto simp: ty.refl ret_run split: if_splits)
  moreover have "same_types s t"
    using stepsD_eq [OF ty.ensure run [unfolded ensure_access_token_def]] others by (simp add: ty.refl)
  ultimately have "same_types u t" by (simp add: same_types_def)
  with m' mu have "require_microsoft_mailbox (Some m') = Inr m'" using microsoft_kept by blast
  from stored_token_hits [OF m'(1) this m'(2,4)] m' show ?thesis by (auto simp: holds_token_def)
qed


subsection \<open>A concrete run\<close>

definition sample_wiring :: "http_outcome \<Rightarrow> wiring" where
  \<comment> \<open>no proxies, direct routing allowed; the token endpoint answers as given\<close>
  "sample_wiring answer = \<lparr>
     wi_pool = (\<lambda>_ _. \<lparr>re_settings = sample_settings\<lparr>ps_proxy_enabled := False, ps_proxy_required := False\<rparr>, re_cipher = None,
       re_now = 0, re_locked = (\<lambda>_. [])\<rparr>),
     wi_ids = (\<lambda>_ _. (''f'', ''e'')), wi_say = (\<lambda>_. ''failed''), wi_str = (\<lambda>_. ''n''), wi_token_endpoint = (\<lambda>_ _. answer),
     wi_imap = (\<lambda>_ _. ImapConnected), wi_graph = (\<lambda>_ _. HttpResponse 200 None)\<rparr>"

definition sample_token_env :: token_env where
  "sample_token_env = \<lparr>te_skew_seconds = 60, te_claim_ttl_seconds = 60, te_lifetime_days = 90, te_loads = (\<lambda>_. None),
     te_encrypt = (\<lambda>_ x. CHR ''#'' # x), te_decrypt = (\<lambda>c. case c of [] \<Rightarrow> None | _ # x \<Rightarrow> Some x),
     te_oauth = (\<lambda>_ _ _ _. throw OtherProxyError), te_prober = None, te_clock = int, te_claim_id = (\<lambda>_. ''c1''),
     te_others = (\<lambda>_ s. s)\<rparr>"

definition sample_token :: http_outcome where
  "sample_token = HttpResponse 200 (Some (JObj [(''access_token'', JStr ''at1''), (''expires_in'', JInt 3600)]))"

definition sample_tokens_db :: db where
  "sample_tokens_db = empty_db\<lparr>mailboxes := [sample_mailbox ''m'']\<rparr>"

lemma sample_tokens:
  "mailbox_ids_unique sample_tokens_db" "mailbox_row ''m'' sample_tokens_db = Some (sample_mailbox ''m'')"
  "mb_token_refresh_claim_id (sample_mailbox ''m'') = None" "te_others sample_token_env = (\<lambda>_ s. s)"
  "te_decrypt sample_token_env (te_encrypt sample_token_env k x) = Some x \<and> te_encrypt sample_token_env k x \<noteq> []"
  by (simp_all add: sample_tokens_db_def mailbox_ids_unique_def mailbox_row_def row_by_def sample_fields sample_token_env_def)

theorem token_refresh_returns_claim_witness:
  "\<exists>m'. mailbox_row ''m'' (snd (ensure_access_token (wired_env (sample_wiring ChainError) sample_token_env) True None True ''m'' sample_tokens_db)) = Some m'
     \<and> mb_token_refresh_claim_id m' = None"
  using token_refresh_returns_claim [OF sample_tokens(1-4) prod.collapse [symmetric]] .

lemma sample_refreshes:
  "\<exists>r. fst (ensure_access_token (wired_env (sample_wiring sample_token) sample_token_env) False (Some IMAP) True ''m'' sample_tokens_db) = Inr r
     \<and> er_refreshed r \<and> er_access_token r = ''at1''"
proof -
  have "(case fst (ensure_access_token (wired_env (sample_wiring sample_token) sample_token_env) False (Some IMAP) True ''m'' sample_tokens_db) of
      Inl _ \<Rightarrow> False | Inr r \<Rightarrow> er_refreshed r \<and> er_access_token r = ''at1'')"
    by code_simp
  then show ?thesis by (auto split: sum.splits)
qed

theorem refreshed_token_is_stored_witness:
  "\<exists>r t m'. ensure_access_token (wired_env (sample_wiring sample_token) sample_token_env) False (Some IMAP) True ''m'' sample_tokens_db = (Inr r, t)
     \<and> er_refreshed r \<and> mailbox_row ''m'' t = Some m'
     \<and> te_decrypt sample_token_env (the (mb_access_token_ciphertext m')) = Some ''at1'' \<and> mb_access_token_expires_at m' = Some (er_expires_at r)"
proof -
  obtain r t where r: "ensure_access_token (wired_env (sample_wiring sample_token) sample_token_env) False (Some IMAP) True ''m'' sample_tokens_db = (Inr r, t)"
    "er_refreshed r" "er_access_token r = ''at1''"
    using sample_refreshes by (metis prod.collapse)
  from refreshed_token_is_stored [OF sample_tokens(1-5) r(1,2)] r show ?thesis by auto
qed

subsection \<open>A lost swap is never retried\<close>

lemma refused_while_claimed:
  assumes "row_claimed i cid x s" and "te_clock e b < x"
    and "\<And>m. mailbox_row i s = Some m \<Longrightarrow> mb_access_token_ciphertext m = None \<and> require_microsoft_mailbox (Some m) = Inr m"
  shows "transaction (phase_a e b True pref skip i) s = (Inl RefreshRefused, s)"
proof -
  obtain m where m: "mailbox_row i s = Some m" "mb_token_refresh_claim_id m = Some cid" "mb_token_refresh_claim_expires_at m = Some x"
    using assms(1) by (auto simp: row_claimed_def)
  have live: "live_refresh_claim m (te_clock e b) = Some (cid, x)"
    using m(2,3) assms(2) by (simp add: live_refresh_claim_def is_expired_def)
  have "\<exists>t. claim_or_winner e b pref skip i s = (Inl RefreshRefused, t)"
    using m(1) live assms(3) [OF m(1)]
    by (auto simp: claim_or_winner_def claim_token_refresh_def bnd_run asks_run andthen_run require_run throw_run winner_access_token_def
        has_usable_cached_access_token_def claim_failure_def)
  then show ?thesis
    using m(1) assms(3) [OF m(1)]
    by (auto simp: transaction_run phase_a_def load_token_mailbox_def bnd_run asks_run ret_run Let_def)
qed

text \<open>
  The retry after a lost compare-and-swap cannot help: when the leaseholder replaces the refresh
  token while a refresh is at the token endpoint, the completion is refused by its version - and the
  refresh's own claim, which nobody gave back, then blocks its own retry. The call fails, and the
  mailbox stays claimed until the claim times out.
\<close>

theorem lost_swap_blocks_own_retry:
  assumes "mailbox_ids_unique s" and "mailbox_row i s = Some m" and "mb_token_refresh_claim_id m = None"
    and a: "transaction (phase_a (wired_env w e) 0 True preferred skip i) s = (Inr (target, Inr c), u)"
    and net: "wired_oauth w i (Some (rc_client_id c)) (rc_refresh_token c) (resolve_oauth_refresh_scope target) u = (Inr r, v)"
    and leaseholder: "te_others e = (\<lambda>k z. if k = 1
          then z\<lparr>mailboxes := update_where (\<lambda>x. mb_id x = i) (replace_leased_refresh_token enc now expires) (mailboxes z)\<rparr> else z)"
    and "te_clock e 8 < te_clock e 0 + secs (te_claim_ttl_seconds e)"
  shows "\<exists>t m'. ensure_access_token (wired_env w e) True preferred skip i s = (Inl RefreshRefused, t)
     \<and> mailbox_row i t = Some m' \<and> mb_refresh_token_ciphertext m' = Some enc \<and> mb_token_refresh_claim_id m' = Some (rc_claim_id c)"
proof -
  let ?e = "wired_env w e"
  let ?x = "te_clock e 0 + secs (te_claim_ttl_seconds e)"
  have "te_claim_ttl_seconds ?e = te_claim_ttl_seconds e" "te_claim_id ?e = te_claim_id e" by (simp_all add: wired_env_def)
  then have u: "claimed_by i c u" "rc_claim_id c = te_claim_id e 0"
    and "\<exists>m. mailbox_row i s = Some m \<and> mailbox_row i u = Some (install_refresh_claim (te_claim_id e 0) ?x (te_clock e 0) m)"
    using phase_a_of_unclaimed [OF _ a] assms(1-3) by (auto simp: unclaimed_def)
  then have row: "mailbox_row i u = Some (install_refresh_claim (te_claim_id e 0) ?x (te_clock e 0) m)" (is "_ = Some ?mu") using assms(2) by simp
  have matches: "claim_matches c ?mu" using u(1) row by (auto simp: claimed_by_def)
  have ms: "require_microsoft_mailbox (Some m) = Inr m" using phase_a_loads [OF transaction_Inr [OF a]] assms(2) by auto
  obtain mv where mv: "mailbox_row i v = Some mv" "token_view mv = token_view ?mu" "mailbox_ids_unique v"
    using same_tokens_row [OF stepsD_eq [OF tk_oauth net] _ row] u(1) by (auto simp: claimed_by_def)
  note same = view_fields [OF mv(2)]
  let ?n = "replace_leased_refresh_token enc now expires mv"
  let ?z = "v\<lparr>mailboxes := update_where (\<lambda>x. mb_id x = i) (replace_leased_refresh_token enc now expires) (mailboxes v)\<rparr>"
  have fields: "mb_id (replace_leased_refresh_token enc now expires x) = mb_id x"
    "mb_token_version (replace_leased_refresh_token enc now expires x) = mb_token_version x + 1"
    "mb_token_refresh_claim_id (replace_leased_refresh_token enc now expires x) = mb_token_refresh_claim_id x"
    "mb_token_refresh_claim_expires_at (replace_leased_refresh_token enc now expires x) = mb_token_refresh_claim_expires_at x"
    "mb_access_token_ciphertext (replace_leased_refresh_token enc now expires x) = None"
    "mb_refresh_token_ciphertext (replace_leased_refresh_token enc now expires x) = Some enc"
    "mb_provider_type (replace_leased_refresh_token enc now expires x) = mb_provider_type x" for x
    by (simp_all add: replace_leased_refresh_token_def)
  have z: "mailbox_row i ?z = Some ?n" "mailbox_ids_unique ?z"
    using mv(1,3) mailbox_row_id [OF mv(1)] by (simp_all add: fields)
  have b: "phase_b ?e 0 c (resolve_oauth_refresh_scope target) u = (Inr r, ?z)"
    using net leaseholder u(1) by (simp add: phase_b_def catch_run bnd_run lift_error_run andthen_run others_def modify_run ret_run claimed_by_def)
  have nomatch: "\<not> claim_matches c x" if "x \<in> set (mailboxes ?z)" for x
  proof
    assume x: "claim_matches c x"
    then have "mb_id x = i" using u(1) by (auto simp: claim_matches_def claimed_by_def)
    then have "x = ?n" using z row_by_unique [of mb_id "mailboxes ?z" x] that by (auto simp: mailbox_row_def mailbox_ids_unique_def)
    with x matches same show False by (simp add: claim_matches_def fields)
  qed
  have same_z: "?z\<lparr>mailboxes := update_where (claim_matches c) f (mailboxes ?z)\<rparr> = ?z" for f
    by (rule no_row_no_update) (use nomatch in blast)
  have cl: "mb_token_refresh_claim_id ?n = Some (rc_claim_id c)" "mb_token_refresh_claim_expires_at ?n = Some ?x"
    using same u(2) by (simp_all add: fields install_refresh_claim_def)
  have unconfirmed: "confirm_completed_token_version c p q ?z = None" for p q
    using z(1) cl(1) u(1) by (simp add: confirm_completed_token_version_def claimed_by_def del: mailbox_row_update)
  have c: "transaction (phase_c ?e 0 c r) ?z = (Inr None, ?z)"
  proof -
    have "rowcount (claim_matches c) (mailboxes ?z) = 0" unfolding rowcount_zero using nomatch by blast
    with same_z unconfirmed show ?thesis
      by (simp add: transaction_run phase_c_def bnd_run lift_error_run complete_token_refresh_def refresh_outcome_of_def Let_def run)
  qed
  have retry: "transaction (phase_a ?e 8 True preferred skip i) ?z = (Inl RefreshRefused, ?z)"
  proof (rule refused_while_claimed)
    show "row_claimed i (rc_claim_id c) ?x ?z" using z(1) cl by (simp add: row_claimed_def del: mailbox_row_update)
    show "te_clock ?e 8 < ?x" using assms(7) by simp
    have "mb_provider_type ?n = mb_provider_type m" using same by (simp add: fields install_refresh_claim_def)
    then have "require_microsoft_mailbox (Some ?n) = Inr ?n" using require_microsoft_provider ms require_microsoft_same by blast
    then show "mb_access_token_ciphertext x = None \<and> require_microsoft_mailbox (Some x) = Inr x" if "mailbox_row i ?z = Some x" for x
      using that z(1) fields(5) [of mv] by (auto simp del: mailbox_row_update)
  qed
  have "winner_access_token ?e (te_clock ?e 2) preferred i ?z = None"
    using z(1) by (simp add: winner_access_token_def has_usable_cached_access_token_def fields del: mailbox_row_update)
  moreover have "ensure_with_claim ?e 8 0 True preferred skip i ?z = (Inl RefreshRefused, ?z)"
    using retry by (simp add: ensure_with_claim.simps bnd_run ret_run)
  ultimately have "after_miss ?e True preferred skip i s = (Inl RefreshRefused, ?z)"
    using a b c leaseholder by (simp add: after_miss_def bnd_run andthen_run others_def modify_run asks_run)
  then have "ensure_access_token ?e True preferred skip i s = (Inl RefreshRefused, ?z)"
    by (simp add: ensure_unfold bnd_run ret_run)
  with z(1) cl(1) show ?thesis by (auto simp: fields simp del: mailbox_row_update)
qed

definition interrupted_env :: token_env where
  \<comment> \<open>a leaseholder replaces the refresh token while the first exchange is on its way\<close>
  "interrupted_env = sample_token_env\<lparr>te_others := (\<lambda>k z. if k = 1
     then z\<lparr>mailboxes := update_where (\<lambda>x. mb_id x = ''m'') (replace_leased_refresh_token ''#new'' 1 2) (mailboxes z)\<rparr> else z)\<rparr>"

theorem lost_swap_blocks_own_retry_witness:
  "\<exists>t m'. ensure_access_token (wired_env (sample_wiring sample_token) interrupted_env) True None True ''m'' sample_tokens_db = (Inl RefreshRefused, t)
     \<and> mailbox_row ''m'' t = Some m' \<and> mb_refresh_token_ciphertext m' = Some ''#new'' \<and> mb_token_refresh_claim_id m' = Some ''c1''"
proof -
  let ?e = "wired_env (sample_wiring sample_token) interrupted_env"
  let ?c = "\<lparr>rc_claim_id = ''c1'', rc_mailbox_id = ''m'', rc_primary_email = ''m@x.com'', rc_client_id = ''cid'',
    rc_refresh_token = ''t0'', rc_expected_token_version = 1, rc_expires_at = secs 60\<rparr>"
  have "fst (transaction (phase_a ?e 0 True None True ''m'') sample_tokens_db) = Inr (Some IMAP, Inr ?c)" by code_simp
  then obtain u where a: "transaction (phase_a ?e 0 True None True ''m'') sample_tokens_db = (Inr (Some IMAP, Inr ?c), u)"
    by (metis prod.collapse)
  then have u: "u = snd (transaction (phase_a ?e 0 True None True ''m'') sample_tokens_db)" by simp
  have "case fst (wired_oauth (sample_wiring sample_token) ''m'' (Some ''cid'') ''t0'' None
      (snd (transaction (phase_a ?e 0 True None True ''m'') sample_tokens_db))) of Inl _ \<Rightarrow> False | Inr r \<Rightarrow> True" by code_simp
  then obtain r v where net: "wired_oauth (sample_wiring sample_token) ''m'' (Some (rc_client_id ?c)) (rc_refresh_token ?c)
      (resolve_oauth_refresh_scope (Some IMAP)) u = (Inr r, v)"
    unfolding u by (auto simp: resolve_oauth_refresh_scope_def split: sum.splits prod.splits) (metis prod.collapse)
  have clock: "te_clock interrupted_env 8 < te_clock interrupted_env 0 + secs (te_claim_ttl_seconds interrupted_env)"
    by (simp add: interrupted_env_def sample_token_env_def secs_def)
  have "te_others interrupted_env = (\<lambda>k z. if k = 1
     then z\<lparr>mailboxes := update_where (\<lambda>x. mb_id x = ''m'') (replace_leased_refresh_token ''#new'' 1 2) (mailboxes z)\<rparr> else z)"
    by (simp add: interrupted_env_def)
  from lost_swap_blocks_own_retry [OF sample_tokens(1-3) a net this clock] show ?thesis by simp
qed

subsection \<open>The probe writes over a newer refresh token\<close>

text \<open>
  The writes of the probe are not guarded by the token version: if the exchange inside the probe
  rotated the refresh token, that token is stored whatever the row holds by then - also over a newer
  refresh token and version that another writer has stored since the probe read the mailbox.
\<close>

theorem probe_overwrites_newer_token:
  assumes "mailbox_row i s = Some newer" and "mb_id m = i" and "pb_replacement pr = Some rep"
    and "tp_rotated_refresh_token rep = Some rotated" and "rotated \<noteq> []" and "mb_refresh_token_ciphertext m = Some old" and "old \<noteq> []"
    and "te_decrypt e old = Some token" and "token \<noteq> rotated" and "te_encrypt e (k + 1) rotated \<noteq> old"
  shows "\<exists>m' t n. write_probe e k m m pr s = (Inr m', t) \<and> mailbox_row i t = Some n
     \<and> mb_refresh_token_ciphertext n = Some (te_encrypt e (k + 1) rotated) \<and> mb_token_version n = mb_token_version newer + 1"
proof -
  let ?now = "te_clock e k"
  let ?m1 = "replaced_access_token e k ?now rep m"
  let ?a = "?m1\<lparr>mb_refresh_token_ciphertext := Some (te_encrypt e (k + 1) rotated)\<rparr>"
  have rot: "rotated_by_probe e rep m s = (Inr (Some rotated), s)"
    using assms(4-9) by (simp add: rotated_by_probe_def decrypted_def or_text_def bnd_run ret_run)
  obtain u where u: "flush_changes m ?a s = (Inr (), u)" "mailbox_row i u = Some (flush_mailbox m ?a newer)"
    using flushed_row [OF assms(1,2)] by blast
  let ?up = "\<lambda>x. x\<lparr>mb_token_version := mb_token_version x + 1\<rparr>"
  let ?v = "u\<lparr>mailboxes := update_where (\<lambda>x. mb_id x = mb_id m) ?up (mailboxes u)\<rparr>"
  let ?n = "?up (flush_mailbox m ?a newer)"
  let ?o = "apply_capability_probe_result ?now pr (bound_to_version e ?now ?n)"
  have idn: "mb_id newer = i" using mailbox_row_id [OF assms(1)] by simp
  have v: "mailbox_row i ?v = Some ?n" using u(2) assms(2) idn by simp
  have "mb_id ?n = i" using idn by simp
  from flushed_row [OF v this] obtain z where z: "flush_changes ?n ?o ?v = (Inr (), z)" "mailbox_row i z = Some (flush_mailbox ?n ?o ?n)"
    by blast
  have "write_probe e k m m pr s = (Inr ?o, z)"
    using assms(2,3) rot u(1) v z(1)
    by (simp add: write_probe_def Let_def andthen_run bnd_run ret_run asks_run update_mailboxes_run del: mailbox_row_update)
  moreover have "mb_refresh_token_ciphertext (flush_mailbox ?n ?o ?n) = Some (te_encrypt e (k + 1) rotated)"
    using assms(6,10) by (simp add: flush_mailbox_def changed_def apply_capability_probe_result_def bound_to_version_def stamp_refresh_token_lifetime_def)
  ultimately show ?thesis using z(2) by (intro exI conjI) (assumption | simp)+
qed

theorem probe_overwrites_newer_token_witness:
  "\<exists>n t. mailbox_row ''m'' t = Some n \<and> mb_refresh_token_ciphertext n = Some ''#spun'' \<and> mb_token_version n = 3"
proof -
  let ?m = "sample_mailbox ''m''"
  let ?newer = "?m\<lparr>mb_refresh_token_ciphertext := Some ''#new'', mb_token_version := 2\<rparr>"
  let ?rep = "\<lparr>tp_access_token = ''at2'', tp_expires_in = 60, tp_scope = None, tp_rotated_refresh_token = Some ''spun''\<rparr>"
  let ?pr = "\<lparr>pb_capability = CapGraph, pb_preferred_channel = GRAPH, pb_error = None, pb_outcomes = [], pb_replacement = Some ?rep\<rparr>"
  have row: "mailbox_row ''m'' (empty_db\<lparr>mailboxes := [?newer]\<rparr>) = Some ?newer"
    by (simp add: mailbox_row_def row_by_def sample_fields)
  have dec: "te_decrypt sample_token_env ''rt0'' = Some ''t0''" "te_encrypt sample_token_env (7 + 1) ''spun'' \<noteq> ''rt0''"
    "te_encrypt sample_token_env (7 + 1) ''spun'' = ''#spun''"
    by (simp_all add: sample_token_env_def)
  from probe_overwrites_newer_token [OF row, of ?m ?pr ?rep "''spun''" "''rt0''" sample_token_env "''t0''" 7] dec
  show ?thesis by (auto simp: sample_fields)
qed

end
