(* ===== verification/LeaseTokens.thy ===== *)
theory LeaseTokens
  imports LeaseGrants TokenFlow
begin

text \<open>
  The leases over the real token service: the token service with the production clients is quiet - it
  touches no lease, no claim and no address - whatever quiet work other requests commit while it waits
  for the network. The promises of the lease components, proved for any quiet token service, hold
  for this one.
\<close>

definition token_failure_of :: "service_error \<Rightarrow> token_failure" where
  "token_failure_of e = (case e of RefreshInvalidGrant \<Rightarrow> TokInvalidGrant | RefreshRefused \<Rightarrow> TokOAuth
     | NotMicrosoftMailbox \<Rightarrow> TokNotMicrosoft | _ \<Rightarrow> TokOther)"

definition lease_token_service :: "wiring \<Rightarrow> token_env \<Rightarrow> string \<Rightarrow> (db, lease_error, access_token_result) action" where
  \<comment> \<open>\<open>self._access_token_service.ensure_access_token(mailbox.id)\<close>\<close>
  "lease_token_service w e i =
     lift_error (TokenFailure \<circ> token_failure_of) (bnd (ensure_access_token (wired_env w e) False None True i) (\<lambda>r.
       ret \<lparr>at_access_token = er_access_token r, at_expires_at = er_expires_at r, at_refreshed = er_refreshed r,
            at_token_version = er_token_version r\<rparr>))"

interpretation qp: token_frame quiet
proof unfold_locales
  show "mailbox_row (mb_id m) s = Some m \<Longrightarrow> quiet s (put_mailbox (rebound_mailbox now x m) s)" for m s now x
    unfolding put_mailbox_def write_mailbox_def [symmetric] by (rule qt_write_mailbox) (simp_all add: rebound_mailbox_def)
  show "quiet s (s\<lparr>mailboxes := update_where p f (mailboxes s)\<rparr>)" if f: "\<And>m. mailbox_identity (f m) = mailbox_identity m" for s p f
  proof -
    have fields: "mb_id (f m) = mb_id m" "mb_primary_email (f m) = mb_primary_email m" for m
      using f [of m] by (simp_all add: mailbox_identity_def)
    have "mb_id ` set (update_where p f (mailboxes s)) = mb_id ` set (mailboxes s)"
      by (metis fields(1) list.set_map map_update_where)
    moreover have "resource_row i (s\<lparr>mailboxes := x\<rparr>) = resource_row i s" for i x by (simp add: resource_row_def)
    ultimately show ?thesis
      using fields by (auto simp: quiet_def keys_kept_def map_update_where)
  qed
qed (auto simp: write_proxy_def intro: quietI)

lemma token_service_quiet: "(\<And>k s. quiet s (te_others e k s)) \<Longrightarrow> steps quiet (lease_token_service w e i)"
  unfolding lease_token_service_def ensure_access_token_def by (intro qt.rules qp.ensure)

text \<open>
  C17. A token failure leaves no occupancy behind, over the real token service: when acquiring an
  access-token lease ends in an error - the reservation failed, Microsoft could not be reached through
  any proxy or refused the token, another worker was refreshing, the probe failed - the occupancy
  table holds no claim it did not hold before and a lease row that was added is already released,
  whatever quiet work other requests committed while the service waited for the network.
\<close>

theorem network_failure_leaves_no_occupancy:
  assumes "acquire_access_token_lease True env q p s = (Inl err, t)" and "occupancy_ok (ae_now env) s"
    and "ae_ensure_access_token env = lease_token_service w e" and "\<And>k s. quiet s (te_others e k s)"
  shows "set (claims t) \<subseteq> set (claims s)
     \<and> (\<forall>l \<in> set (leases t). l \<in> set (leases s) \<or> (ls_id l \<notin> ls_id ` set (leases s) \<and> ls_released_at l = Some (ae_now env)))"
  using failed_token_leaves_no_occupancy [OF assms(1,2)] token_service_quiet [OF assms(4)] assms(3) by simp

definition sample_lease_env :: acquire_env where
  "sample_lease_env = (sample_env ''l'' 0)\<lparr>ae_ensure_access_token := lease_token_service (sample_wiring ChainError) sample_token_env\<rparr>"

theorem network_failure_leaves_no_occupancy_witness:
  "\<exists>err t. acquire_access_token_lease True sample_lease_env sample_request sample_principal sample_db = (Inl err, t) \<and> claims t = []"
proof -
  have "case fst (acquire_access_token_lease True sample_lease_env sample_request sample_principal sample_db) of Inl _ \<Rightarrow> True | Inr _ \<Rightarrow> False"
    by code_simp
  then obtain err t where t: "acquire_access_token_lease True sample_lease_env sample_request sample_principal sample_db = (Inl err, t)"
    by (metis prod.collapse sum.case_eq_if sum.collapse(1) sum.disc_eq_case(1))
  have now: "ae_now sample_lease_env = 0" "occupancy_ok 0 sample_db" "claims sample_db = []"
    by (simp_all add: sample_lease_env_def sample_occupancy)
  from network_failure_leaves_no_occupancy [OF t, of "sample_wiring ChainError" sample_token_env] now show ?thesis
    using t by (auto simp: sample_lease_env_def sample_token_env_def qt.refl)
qed

end
