(* ===== verification/TokenBatch.thy ===== *)
theory TokenBatch
  imports TokenService
begin

text \<open>
  The batches over the token service (\<open>token_service.py\<close>): refreshing selected or all mailboxes, the
  keepalive of refresh tokens before they run out, and the recognition of unprobed mailboxes with a
  pool of workers. Each refresh gets an environment of its own; the order in which workers finish and
  whether a worker got a permit within its 30 seconds are parameters, \<open>say\<close> is the summary of a failure.
\<close>

record refresh_item =
  ri_mailbox_id :: string
  ri_primary_email :: "string option"
  ri_successful :: bool
  ri_refreshed :: bool
  ri_rotated :: bool
  ri_expires_at :: "time option"
  ri_error :: "string option"

record batch_result =
  br_successful :: nat
  br_failed :: nat
  br_results :: "refresh_item list"

record unprobed_result =
  ur_candidate_total :: nat
  ur_processed :: nat
  ur_successful :: nat
  ur_failed :: nat
  ur_remaining :: nat
  ur_batch_size :: int
  ur_worker_count :: int
  ur_results :: "refresh_item list"

definition refreshed_item :: "ensure_result \<Rightarrow> refresh_item" where
  "refreshed_item r = \<lparr>ri_mailbox_id = er_mailbox_id r, ri_primary_email = Some (er_primary_email r), ri_successful = True,
     ri_refreshed = er_refreshed r, ri_rotated = er_refresh_token_rotated r, ri_expires_at = Some (er_expires_at r), ri_error = None\<rparr>"

definition failed_item :: "string \<Rightarrow> string option \<Rightarrow> string \<Rightarrow> refresh_item" where
  "failed_item i email summary = \<lparr>ri_mailbox_id = i, ri_primary_email = email, ri_successful = False, ri_refreshed = False,
     ri_rotated = False, ri_expires_at = None, ri_error = Some summary\<rparr>"

definition email_of :: "string \<Rightarrow> db \<Rightarrow> string option" where
  "email_of i s = map_option mb_primary_email (mailbox_row i s)"

definition batch_of :: "refresh_item list \<Rightarrow> batch_result" where
  "batch_of items = (let ok = length (filter ri_successful items) in
     \<lparr>br_successful = ok, br_failed = length items - ok, br_results = items\<rparr>)"

definition refresh_one ::
    "token_env \<Rightarrow> (service_error \<Rightarrow> string) \<Rightarrow> bool \<Rightarrow> string \<Rightarrow> db \<Rightarrow> refresh_item \<times> db" where
  "refresh_one env say skip_lease_check i s =
     (case ensure_access_token env True None skip_lease_check i s of
        (Inr r, t) \<Rightarrow> (refreshed_item r, t)
      | (Inl e, t) \<Rightarrow> (failed_item i (email_of i t) (say e), t))"

fun refresh_each ::
    "(nat \<Rightarrow> token_env) \<Rightarrow> (service_error \<Rightarrow> string) \<Rightarrow> bool \<Rightarrow> nat \<Rightarrow> string list \<Rightarrow> db \<Rightarrow> refresh_item list \<times> db" where
  "refresh_each envs say skip k [] s = ([], s)"
| "refresh_each envs say skip k (i # is) s =
     (let (item, t) = refresh_one (envs k) say skip i s; (items, u) = refresh_each envs say skip (Suc k) is t in (item # items, u))"

definition load_all_active_mailbox_ids :: "db \<Rightarrow> string list" where
  "load_all_active_mailbox_ids s =
     map mb_id (sort_key mb_primary_email
       (filter (\<lambda>m. mb_status m = MbActive \<and> mb_provider_type m = ''microsoft'') (mailboxes s)))"

definition refresh_access_tokens ::
    "(nat \<Rightarrow> token_env) \<Rightarrow> (service_error \<Rightarrow> string) \<Rightarrow> string list option \<Rightarrow> db \<Rightarrow> batch_result \<times> db" where
  "refresh_access_tokens envs say mailbox_ids s =
     (let targets = (if mailbox_ids \<in> {None, Some []} then load_all_active_mailbox_ids s else dedup (the mailbox_ids));
          (items, t) = refresh_each envs say True 0 targets s
      in (batch_of items, t))"

subsection \<open>Keepalive\<close>

definition last_refresh :: "mailbox \<Rightarrow> time" where
  "last_refresh m = (case mb_access_token_refreshed_at m of None \<Rightarrow> mb_created_at m | Some x \<Rightarrow> x)"

definition due_for_keepalive :: "int \<Rightarrow> int \<Rightarrow> time \<Rightarrow> mailbox \<Rightarrow> bool" where
  "due_for_keepalive lifetime_days keepalive_lead_days now m =
     (let lead_days = min keepalive_lead_days lifetime_days in
      case mb_refresh_token_expires_at m of
        Some expires \<Rightarrow> expires \<le> now + days lead_days
      | None \<Rightarrow> last_refresh m \<le> now - days (max (lifetime_days - lead_days) 0))"

definition keepalive_candidate :: "int \<Rightarrow> int \<Rightarrow> time \<Rightarrow> db \<Rightarrow> mailbox \<Rightarrow> bool" where
  "keepalive_candidate lifetime_days keepalive_lead_days now s m \<longleftrightarrow>
     mb_status m = MbActive \<and> mb_provider_type m = ''microsoft'' \<and> mb_client_id m \<noteq> None \<and> mb_refresh_token_ciphertext m \<noteq> None
     \<and> \<not> list_ex (\<lambda>l. ls_mailbox_id l = Some (mb_id m) \<and> ls_released_at l = None \<and> now < ls_expires_at l) (leases s)
     \<and> due_for_keepalive lifetime_days keepalive_lead_days now m"

definition keepalive_order :: "mailbox \<Rightarrow> time \<times> string" where
  "keepalive_order m = (case mb_refresh_token_expires_at m of None \<Rightarrow> last_refresh m | Some x \<Rightarrow> x, mb_primary_email m)"

definition list_mailbox_ids_due_for_refresh_token_keepalive :: "int \<Rightarrow> int \<Rightarrow> nat \<Rightarrow> time \<Rightarrow> db \<Rightarrow> string list" where
  "list_mailbox_ids_due_for_refresh_token_keepalive lifetime_days keepalive_lead_days batch_size now s =
     map mb_id (take batch_size (sort_key keepalive_order
       (filter (keepalive_candidate lifetime_days keepalive_lead_days now s) (mailboxes s))))"

definition run_refresh_token_keepalive_batch ::
    "(nat \<Rightarrow> token_env) \<Rightarrow> (service_error \<Rightarrow> string) \<Rightarrow> int \<Rightarrow> nat \<Rightarrow> time \<Rightarrow> db \<Rightarrow> batch_result \<times> db" where
  "run_refresh_token_keepalive_batch envs say keepalive_lead_days batch_size now s =
     (let due = list_mailbox_ids_due_for_refresh_token_keepalive (te_lifetime_days (envs 0)) keepalive_lead_days batch_size now s;
          (items, t) = refresh_each envs say False 0 due s
      in (batch_of items, t))"

subsection \<open>Unprobed mailboxes\<close>

definition unprobed_or_unknown :: "mailbox \<Rightarrow> bool" where
  "unprobed_or_unknown m \<longleftrightarrow> mb_status m = MbActive \<and> mb_client_id m \<noteq> None \<and> mb_refresh_token_ciphertext m \<noteq> None
     \<and> mb_provider_type m = ''microsoft'' \<and> mb_capability m \<in> {None, Some CapUnknown}"

definition count_unprobed_or_unknown_mailbox_ids :: "db \<Rightarrow> nat" where
  "count_unprobed_or_unknown_mailbox_ids s = length (filter unprobed_or_unknown (mailboxes s))"

definition list_unprobed_or_unknown_mailbox_ids :: "nat \<Rightarrow> db \<Rightarrow> string list" where
  "list_unprobed_or_unknown_mailbox_ids batch_size s =
     map mb_id (take batch_size (sort_key (\<lambda>m. (mb_created_at m, mb_primary_email m)) (filter unprobed_or_unknown (mailboxes s))))"

definition count_available_egress_proxies :: "proxy_settings \<Rightarrow> time \<Rightarrow> (db, proxy_error, int) action" where
  "count_available_egress_proxies st now =
     bnd (ensure_policy st now) (\<lambda>pol.
     if \<not> pp_enabled pol then ret 1
     else bnd (asks (\<lambda>s. length (filter (candidate_proxy now pol []) (proxies s)))) (\<lambda>n. ret (if 0 < n then int n else 1)))"

definition pool_worker_count :: "int \<Rightarrow> int \<Rightarrow> int \<Rightarrow> nat \<Rightarrow> int" where
  \<comment> \<open>\<open>batch_max_workers\<close>, \<open>database_worker_budget\<close>, available proxies, items\<close>
  "pool_worker_count max_workers worker_budget available item_count =
     max 1 (min (min (min max_workers available) worker_budget) (if item_count = 0 then 1 else int item_count))"

definition worker_audit :: "string \<Rightarrow> json \<Rightarrow> db \<Rightarrow> db" where
  "worker_audit i metadata s = snd (write_audit_event ''system'' (Some ''batch_refresh'') ''mailbox.token_refresh_item'' ''mailbox''
     (Some i) (Some metadata) None s :: (service_error + unit) \<times> db)"

definition refresh_single_mailbox_in_worker_session ::
    "token_env \<Rightarrow> (service_error \<Rightarrow> string) \<Rightarrow> (service_error \<Rightarrow> string) \<Rightarrow> string \<Rightarrow> db \<Rightarrow> refresh_item \<times> db" where
  \<comment> \<open>\<open>class_of\<close>: the name of an exception's class\<close>
  "refresh_single_mailbox_in_worker_session env say class_of i s =
     (case ensure_access_token env True None True i s of
        (Inr r, t) \<Rightarrow> (refreshed_item r,
           worker_audit (er_mailbox_id r) (JObj [(''successful'', JBool True), (''refreshed'', JBool (er_refreshed r)),
             (''refresh_token_rotated'', JBool (er_refresh_token_rotated r))]) t)
      | (Inl e, t) \<Rightarrow> (failed_item i (email_of i t) (say e),
           worker_audit i (JObj [(''successful'', JBool False), (''error_class'', JStr (class_of e)),
             (''invalid_grant'', JBool (e = RefreshInvalidGrant))]) t))"

definition refresh_with_global_budget ::
    "(string \<Rightarrow> bool) \<Rightarrow> token_env \<Rightarrow> (service_error \<Rightarrow> string) \<Rightarrow> (service_error \<Rightarrow> string) \<Rightarrow> string \<Rightarrow> db \<Rightarrow> refresh_item \<times> db" where
  "refresh_with_global_budget permit env say class_of i s =
     (if permit i then refresh_single_mailbox_in_worker_session env say class_of i s
      else (failed_item i None ''batch concurrency budget exhausted'', s))"

fun run_workers ::
    "(string \<Rightarrow> db \<Rightarrow> refresh_item \<times> db) \<Rightarrow> string list \<Rightarrow> (string \<rightharpoonup> refresh_item) \<Rightarrow> db \<Rightarrow> (string \<rightharpoonup> refresh_item) \<times> db" where
  \<comment> \<open>the workers' results, by mailbox id, in the order they finish\<close>
  "run_workers work [] results s = (results, s)"
| "run_workers work (i # order) results s =
     (let (item, t) = work i s in run_workers work order (results(i \<mapsto> item)) t)"

definition refresh_access_tokens_with_worker_pool ::
    "(string \<Rightarrow> db \<Rightarrow> refresh_item \<times> db) \<Rightarrow> string list \<Rightarrow> string list \<Rightarrow> db \<Rightarrow> batch_result \<times> db" where
  \<comment> \<open>\<open>order\<close>: the requested ids in the order their workers finish\<close>
  "refresh_access_tokens_with_worker_pool work order mailbox_ids s =
     (let (results, t) = run_workers work order Map.empty s in (batch_of (map (\<lambda>i. the (results i)) mailbox_ids), t))"

definition refresh_unprobed_or_unknown_access_tokens ::
    "proxy_settings \<Rightarrow> time \<Rightarrow> int \<Rightarrow> int \<Rightarrow> (string \<Rightarrow> db \<Rightarrow> refresh_item \<times> db) \<Rightarrow> (string list \<Rightarrow> string list) \<Rightarrow> int
       \<Rightarrow> (db, proxy_error, unprobed_result) action" where
  \<comment> \<open>\<open>schedule\<close>: the order in which the workers of a batch finish\<close>
  "refresh_unprobed_or_unknown_access_tokens st now max_workers worker_budget work schedule batch_size =
     (let bounded = max 1 (min batch_size 5000) in
      bnd (asks count_unprobed_or_unknown_mailbox_ids) (\<lambda>total.
      bnd (asks (list_unprobed_or_unknown_mailbox_ids (nat bounded))) (\<lambda>targets.
      bnd (count_available_egress_proxies st now) (\<lambda>available.
      (let workers = pool_worker_count max_workers worker_budget available (length targets) in
       if targets = [] then
         ret \<lparr>ur_candidate_total = total, ur_processed = 0, ur_successful = 0, ur_failed = 0, ur_remaining = 0,
              ur_batch_size = bounded, ur_worker_count = workers, ur_results = []\<rparr>
       else
         bnd (\<lambda>s. let (b, t) = refresh_access_tokens_with_worker_pool work (schedule targets) targets s in (Inr b, t)) (\<lambda>b.
         bnd (asks count_unprobed_or_unknown_mailbox_ids) (\<lambda>remaining.
         ret \<lparr>ur_candidate_total = total, ur_processed = length targets, ur_successful = br_successful b, ur_failed = br_failed b,
              ur_remaining = remaining, ur_batch_size = bounded, ur_worker_count = workers, ur_results = br_results b\<rparr>)))))))"

subsection \<open>Which mailboxes are kept alive\<close>

subsection \<open>Every answer names the mailbox that was asked for\<close>

lemma yields_any: "yields any any m"
  by (simp add: yields_def split: sum.splits)

lemmas answering = yields_any through

abbreviation (input) names :: "string \<Rightarrow> ensure_result \<Rightarrow> bool" where "names i r \<equiv> er_mailbox_id r = i"

abbreviation (input) names_hit :: "string \<Rightarrow> ensure_result option \<Rightarrow> bool" where
  "names_hit i z \<equiv> case z of None \<Rightarrow> True | Some r \<Rightarrow> names i r"

lemma cached_names: "names (mb_id m) (cached_result m token)"
  by (simp add: cached_result_def)

lemma load_names: "yields any (\<lambda>m. mb_id m = i) (load_token_mailbox i)"
  unfolding load_token_mailbox_def
  by (rule yields_bnd [where P = "\<lambda>row. case row of None \<Rightarrow> True | Some m \<Rightarrow> mb_id m = i"])
    (auto intro!: through split: option.splits sum.splits dest: mailbox_row_id simp: require_microsoft_mailbox_def)

lemma hit_names: "yields any (names_hit i) (cache_hit env now preferred i)"
  unfolding cache_hit_def Let_def
  by (rule yields_bnd [OF load_names]) (auto intro!: through simp: cached_names decrypted_def split: option.splits)

lemma cached_path_names: "yields any (names_hit i) (cached_path env b preferred i)"
  unfolding cached_path_def Let_def
proof (rule yields_bnd [OF hit_names])
  fix hit assume "names_hit i hit"
  then show "yields any (names_hit i) (case hit of None \<Rightarrow> ret None | Some r \<Rightarrow>
      bnd (load_token_mailbox i) (\<lambda>m. if mb_capability (backfilled_scope env (te_clock env b) (er_access_token r) m) \<noteq> None
        then transaction (andthen (flush_changes m (backfilled_scope env (te_clock env b) (er_access_token r) m)) (ret (Some r)))
        else bnd (run_probe env False (backfilled_scope env (te_clock env b) (er_access_token r) m) (er_access_token r)) (\<lambda>probe.
          andthen (transaction (case probe of
              None \<Rightarrow> andthen (flush_changes m (backfilled_scope env (te_clock env b) (er_access_token r) m))
                (ret (backfilled_scope env (te_clock env b) (er_access_token r) m))
            | Some pr \<Rightarrow> write_probe env (b + 4) m (backfilled_scope env (te_clock env b) (er_access_token r) m) pr))
          (ret (Some (r\<lparr>er_access_token := token_after_probe probe (er_access_token r)\<rparr>))))))"
    by (cases hit) (simp_all, (intro answering; simp)+)
qed

lemma winner_names: "names_hit i (winner_access_token env now preferred i s)"
  by (auto simp: winner_access_token_def cached_result_def dest: mailbox_row_id split: option.splits)

lemma claim_names: "yields any (\<lambda>x. case x of Inl r \<Rightarrow> names i r | Inr c \<Rightarrow> True) (claim_or_winner env b preferred skip i)"
proof (rule yieldsI)
  fix s x t assume run: "claim_or_winner env b preferred skip i s = (Inr x, t)"
  show "case x of Inl r \<Rightarrow> names i r | Inr c \<Rightarrow> True"
  proof (cases x)
    case (Inl r)
    with run have "winner_access_token env (te_clock env b) preferred i t = Some r"
      by (simp add: claim_or_winner_def split: prod.splits sum.splits token_error.splits option.splits)
    with winner_names [of i env "te_clock env b" preferred t] Inl show ?thesis by simp
  qed simp
qed simp

lemma phase_a_names: "yields any (\<lambda>(target, x). case x of Inl r \<Rightarrow> names i r | Inr c \<Rightarrow> True) (phase_a env b force preferred skip i)"
  unfolding phase_a_def Let_def
proof (rule yields_bnd [OF load_names], rule yields_bnd [where P = "names_hit i"])
  fix m :: mailbox assume "mb_id m = i"
  then show "yields any (names_hit i) (if force \<or> \<not> has_usable_cached_access_token env (te_clock env b) m then ret None
      else bnd (decrypted env (mb_access_token_ciphertext m)) (\<lambda>token.
        ret (if serves (preferred_mail_channel preferred m) (if scope_missing m then extract_oauth_scopes (te_loads env) token else mb_scope m)
             then Some (cached_result m token) else None)))"
    by (intro answering) (auto simp: cached_names)
  fix hit assume "names_hit i hit"
  then show "yields any (\<lambda>(target, x). case x of Inl r \<Rightarrow> names i r | Inr c \<Rightarrow> True)
      (case hit of None \<Rightarrow> bnd (claim_or_winner env b preferred skip i) (\<lambda>x. ret (preferred_mail_channel preferred m, x))
       | Some r \<Rightarrow> ret (preferred_mail_channel preferred m, Inl r))"
    by (cases hit) (auto intro!: yields_bnd [OF claim_names] yields_ret)
qed

lemma write_probe_names: "yields any (\<lambda>m'. mb_id m' = mb_id m) (write_probe env k m0 m r)"
proof -
  have id: "mb_id (apply_capability_probe_result now r x) = mb_id x" "mb_id (bound_to_version env now x) = mb_id x"
    "mb_id (replaced_access_token env k now rep x) = mb_id x" for now x rep
    by (simp_all add: apply_capability_probe_result_def bound_to_version_def stamp_refresh_token_lifetime_def
      replaced_access_token_def Let_def)
  have row: "yields any (\<lambda>row. case row of None \<Rightarrow> True | Some m2 \<Rightarrow> mb_id m2 = i) (asks (mailbox_row i))" for i
    by (rule yields_asks) (auto split: option.split dest: mailbox_row_id)
  show ?thesis unfolding write_probe_def Let_def
    by (intro answering yields_bnd [OF row]) (simp_all add: id)
qed

lemma refreshed_names: "names (mb_id m) (refreshed_result m0 m token expires rotated)"
  by (simp add: refreshed_result_def)

lemma phase_d_names: "yields any (names i) (phase_d env b force preferred target i c r)"
proof -
  have row: "yields any (\<lambda>row. case row of None \<Rightarrow> True | Some m2 \<Rightarrow> mb_id m2 = i) (asks (mailbox_row i))"
    by (rule yields_asks) (auto split: option.split dest: mailbox_row_id)
  show ?thesis unfolding phase_d_def Let_def
  proof (rule yields_bnd [OF row])
    fix z :: "mailbox option" assume z: "case z of None \<Rightarrow> True | Some m2 \<Rightarrow> mb_id m2 = i"
    show "yields any (names i) (case z of None \<Rightarrow> throw MailboxAbsent | Some m \<Rightarrow>
        bnd (if mb_access_token_ciphertext m \<in> {None, Some []} then ret (tr_access_token r)
             else decrypted env (mb_access_token_ciphertext m)) (\<lambda>token.
        if \<not> should_probe force preferred target m then
          ret (refreshed_result m m token (te_clock env (b + 1) + secs (tr_expires_in r)) (rotates c r))
        else bnd (run_probe env True m token) (\<lambda>probe. andthen (others env (b + 3))
          (bnd (transaction (case probe of None \<Rightarrow> ret m | Some pr \<Rightarrow> write_probe env (b + 4) m m pr)) (\<lambda>m'.
           ret (refreshed_result m m' (token_after_probe probe token) (te_clock env (b + 1) + secs (tr_expires_in r)) (rotates c r)))))))"
    proof (cases z)
      case (Some m)
      with z have id: "mb_id m = i" by simp
      have written: "yields any (\<lambda>m'. mb_id m' = i) (transaction (case probe of None \<Rightarrow> ret m | Some pr \<Rightarrow> write_probe env (b + 4) m m pr))"
        for probe using write_probe_names [of m env "b + 4" m] id
        by (cases probe) (auto intro!: yields_transaction yields_ret)
      show ?thesis unfolding Some option.case
        by (intro answering yields_bnd [OF written]) (auto simp: id [symmetric] refreshed_names)
    qed (simp add: yields_throw)
  qed
qed

lemma ensure_names: "yields any (names i) (ensure_with_claim env b retries force preferred skip i)"
proof (induction retries arbitrary: b force)
  case retries: (0 b force)
  show ?case
  proof (subst ensure_with_claim.simps, rule yields_bnd [where P = "names_hit i"])
    show "yields any (names_hit i) (if force then ret None else cached_path env b preferred i)"
      by (intro answering cached_path_names) simp
  qed (rule yields_option, rule yields_bnd [OF yields_transaction [OF phase_a_names]], clarify, split sum.split,
    auto intro!: answering phase_d_names yields_bnd [OF yields_asks [where R = "names_hit i"]] winner_names)
next
  case retries: (Suc n b force)
  show ?case
  proof (subst ensure_with_claim.simps, rule yields_bnd [where P = "names_hit i"])
    show "yields any (names_hit i) (if force then ret None else cached_path env b preferred i)"
      by (intro answering cached_path_names) simp
  qed (rule yields_option, rule yields_bnd [OF yields_transaction [OF phase_a_names]], clarify, split sum.split,
    auto intro!: answering phase_d_names retries yields_bnd [OF yields_asks [where R = "names_hit i"]] winner_names)
qed

lemma refresh_one_names: "refresh_one env say skip i s = (item, t) \<Longrightarrow> ri_mailbox_id item = i"
  using ensure_names [of i env 0 1 True None skip]
  by (auto simp: refresh_one_def ensure_access_token_def refreshed_item_def failed_item_def dest: yieldsD split: prod.splits sum.splits)

lemma refresh_each_names: "refresh_each envs say skip k is s = (items, t) \<Longrightarrow> map ri_mailbox_id items = is"
  by (induction envs say skip k "is" s arbitrary: items t rule: refresh_each.induct)
    (auto split: prod.splits dest: refresh_one_names)

subsection \<open>Which mailboxes are kept alive\<close>

definition runs_out_at :: "int \<Rightarrow> mailbox \<Rightarrow> time" where
  \<comment> \<open>the recorded end of the refresh token's life, else its lifetime counted from the last refresh\<close>
  "runs_out_at lifetime_days m =
     (case mb_refresh_token_expires_at m of Some x \<Rightarrow> x | None \<Rightarrow> last_refresh m + days lifetime_days)"

lemma due_iff: "due_for_keepalive lifetime lead now m \<longleftrightarrow> runs_out_at lifetime m \<le> now + days (min lead lifetime)"
  by (auto simp: due_for_keepalive_def runs_out_at_def Let_def days_def split: option.split)

lemma candidate_iff:
  "keepalive_candidate lifetime lead now s m \<longleftrightarrow>
     mb_status m = MbActive \<and> mb_provider_type m = ''microsoft'' \<and> mb_client_id m \<noteq> None \<and> mb_refresh_token_ciphertext m \<noteq> None
     \<and> \<not> (\<exists>l \<in> set (leases s). ls_mailbox_id l = Some (mb_id m) \<and> ls_released_at l = None \<and> now < ls_expires_at l)
     \<and> runs_out_at lifetime m \<le> now + days (min lead lifetime)"
  unfolding keepalive_candidate_def due_iff list_ex_iff ..

lemma sorted_take_first:
  assumes "x \<in> set (sort_key f xs)" and "x \<notin> set (take n (sort_key f xs))" and "y \<in> set (take n (sort_key f xs))"
  shows "f y \<le> f x \<and> length (take n (sort_key f xs)) = n"
proof -
  have "sorted (map f (take n (sort_key f xs)) @ map f (drop n (sort_key f xs)))"
    by (metis append_take_drop_id map_append sorted_sort_key)
  moreover have "x \<in> set (drop n (sort_key f xs))" using assms(1,2) by (metis append_take_drop_id in_set_conv_decomp set_append UnE)
  moreover from this have "n < length (sort_key f xs)" by (metis drop_all empty_iff list.set(1) not_le)
  ultimately show ?thesis using assms(3) by (auto simp: sorted_append)
qed

lemma sorted_take_fills:
  "x \<in> set (sort_key f xs) \<Longrightarrow> x \<notin> set (take n (sort_key f xs)) \<Longrightarrow> length (take n (sort_key f xs)) = n"
  by (metis length_take min.absorb2 nat_le_linear take_all)

lemma listed:
  "set (list_mailbox_ids_due_for_refresh_token_keepalive lifetime lead batch now s) =
     mb_id ` set (take batch (sort_key keepalive_order (filter (keepalive_candidate lifetime lead now s) (mailboxes s))))"
  by (simp only: list_mailbox_ids_due_for_refresh_token_keepalive_def set_map)

lemma listed_iff:
  assumes "mailbox_ids_unique s" and "m \<in> set (mailboxes s)"
  shows "mb_id m \<in> set (list_mailbox_ids_due_for_refresh_token_keepalive lifetime lead batch now s)
     \<longleftrightarrow> m \<in> set (take batch (sort_key keepalive_order (filter (keepalive_candidate lifetime lead now s) (mailboxes s))))"
proof -
  have "set (take batch (sort_key keepalive_order (filter (keepalive_candidate lifetime lead now s) (mailboxes s)))) \<subseteq> set (mailboxes s)"
    by (rule order_trans [OF set_take_subset]) auto
  moreover have "inj_on mb_id (set (mailboxes s))" using assms(1) by (simp add: mailbox_ids_unique_def distinct_map)
  ultimately show ?thesis unfolding listed using assms(2) by (meson inj_on_image_mem_iff)
qed

lemma listed_distinct:
  "mailbox_ids_unique s \<Longrightarrow> distinct (list_mailbox_ids_due_for_refresh_token_keepalive lifetime lead batch now s)"
  "length (list_mailbox_ids_due_for_refresh_token_keepalive lifetime lead batch now s) \<le> batch"
  by (auto simp: list_mailbox_ids_due_for_refresh_token_keepalive_def mailbox_ids_unique_def distinct_map take_map [symmetric]
      intro!: distinct_take inj_on_subset [where A = "set (mailboxes s)"] dest: in_set_takeD)

lemma keepalive_place: "keepalive_order q \<le> keepalive_order m \<Longrightarrow>
    (case mb_refresh_token_expires_at q of Some x \<Rightarrow> x | None \<Rightarrow> last_refresh q)
      \<le> (case mb_refresh_token_expires_at m of Some x \<Rightarrow> x | None \<Rightarrow> last_refresh m)"
  by (auto simp: keepalive_order_def less_eq_prod_def split: option.splits)

lemma left_out:
  assumes "mailbox_ids_unique s" and "m \<in> set (mailboxes s)" and "keepalive_candidate lifetime lead now s m"
    and "mb_id m \<notin> set (list_mailbox_ids_due_for_refresh_token_keepalive lifetime lead batch now s)"
  shows "length (list_mailbox_ids_due_for_refresh_token_keepalive lifetime lead batch now s) = batch"
    and "q \<in> set (mailboxes s) \<Longrightarrow> mb_id q \<in> set (list_mailbox_ids_due_for_refresh_token_keepalive lifetime lead batch now s)
      \<Longrightarrow> keepalive_order q \<le> keepalive_order m"
proof -
  let ?all = "sort_key keepalive_order (filter (keepalive_candidate lifetime lead now s) (mailboxes s))"
  have m: "m \<in> set ?all" "m \<notin> set (take batch ?all)"
    using assms(2,3) assms(4) [unfolded listed_iff [OF assms(1,2)]] by simp_all
  show "length (list_mailbox_ids_due_for_refresh_token_keepalive lifetime lead batch now s) = batch"
    using sorted_take_fills [OF m] by (simp only: list_mailbox_ids_due_for_refresh_token_keepalive_def length_map)
  assume "q \<in> set (mailboxes s)" "mb_id q \<in> set (list_mailbox_ids_due_for_refresh_token_keepalive lifetime lead batch now s)"
  then show "keepalive_order q \<le> keepalive_order m" using sorted_take_first [OF m] listed_iff [OF assms(1)] by blast
qed

lemma batch_answers:
  "run_refresh_token_keepalive_batch envs say lead batch now s = (b, t) \<Longrightarrow>
     map ri_mailbox_id (br_results b) =
       list_mailbox_ids_due_for_refresh_token_keepalive (te_lifetime_days (envs 0)) lead batch now s"
  by (auto simp: run_refresh_token_keepalive_batch_def batch_of_def Let_def split: prod.splits dest: refresh_each_names)

text \<open>
  C29. A keepalive batch answers for exactly the mailboxes whose refresh token has to be used soon. Every
  answer names one mailbox, each at most once and not more than the batch allows; a mailbox in the batch was
  active, a Microsoft mailbox with client id and refresh token, under no running lease - so no token is rotated
  under a client that holds it - and its token, by its recorded end or else its lifetime after the last refresh,
  runs out within the lead time; and a mailbox for which all of this held is left out only if the batch was full,
  of mailboxes that come no later by recorded end or, without one, by last refresh.
\<close>

theorem keepalive_batch_exact:
  assumes "run_refresh_token_keepalive_batch envs say lead batch now s = (b, t)"
    and "mailbox_ids_unique s" and "m \<in> set (mailboxes s)"
  shows "distinct (map ri_mailbox_id (br_results b)) \<and> length (br_results b) \<le> batch
     \<and> (let answered = (\<lambda>q. mb_id q \<in> ri_mailbox_id ` set (br_results b));
            leased = (\<exists>l \<in> set (leases s). ls_mailbox_id l = Some (mb_id m) \<and> ls_released_at l = None \<and> now < ls_expires_at l);
            lifetime = te_lifetime_days (envs 0);
            wanted = (mb_status m = MbActive \<and> mb_provider_type m = ''microsoft'' \<and> mb_client_id m \<noteq> None
              \<and> mb_refresh_token_ciphertext m \<noteq> None \<and> \<not> leased
              \<and> (case mb_refresh_token_expires_at m of Some x \<Rightarrow> x | None \<Rightarrow> last_refresh m + days lifetime)
                  \<le> now + days (min lead lifetime));
            place = (\<lambda>q. case mb_refresh_token_expires_at q of Some x \<Rightarrow> x | None \<Rightarrow> last_refresh q)
        in (answered m \<longrightarrow> wanted)
         \<and> (wanted \<and> \<not> answered m \<longrightarrow> length (br_results b) = batch
              \<and> (\<forall>q \<in> set (mailboxes s). answered q \<longrightarrow> place q \<le> place m)))"
proof -
  let ?lifetime = "te_lifetime_days (envs 0)"
  let ?ids = "list_mailbox_ids_due_for_refresh_token_keepalive ?lifetime lead batch now s"
  have ids: "map ri_mailbox_id (br_results b) = ?ids" using assms(1) by (rule batch_answers)
  then have answered: "ri_mailbox_id ` set (br_results b) = set ?ids" and len: "length (br_results b) = length ?ids"
    by (metis set_map) (metis ids length_map)
  have chosen: "keepalive_candidate ?lifetime lead now s m" if "mb_id m \<in> set ?ids"
    using that listed_iff [OF assms(2,3)] by (auto dest: in_set_takeD)
  show ?thesis
    unfolding Let_def answered ids len candidate_iff [symmetric, unfolded runs_out_at_def]
    using chosen left_out [OF assms(2,3)] listed_distinct [where s = s] assms(2) keepalive_place by blast
qed


definition worn_mailbox :: "string \<Rightarrow> time \<Rightarrow> mailbox" where
  \<comment> \<open>a mailbox whose refresh token runs out at the given moment\<close>
  "worn_mailbox i expires = (sample_mailbox i)\<lparr>mb_refresh_token_expires_at := Some expires\<rparr>"

definition worn_db :: db where
  "worn_db = empty_db\<lparr>mailboxes := [worn_mailbox ''m'' 9, worn_mailbox ''n'' 5]\<rparr>"

definition exchanging_env :: "nat \<Rightarrow> token_env" where
  \<comment> \<open>a provider that answers every exchange with a token of ten seconds\<close>
  "exchanging_env k = \<lparr>te_skew_seconds = 60, te_claim_ttl_seconds = 60, te_lifetime_days = 90, te_loads = (\<lambda>_. None),
     te_encrypt = (\<lambda>_ x. CHR ''#'' # x), te_decrypt = (\<lambda>x. Some (tl x)),
     te_oauth = (\<lambda>_ _ _ _. ret \<lparr>tr_access_token = ''a'', tr_expires_in = 10, tr_rotated_refresh_token = Some ''r'', tr_scope = Some ''s''\<rparr>),
     te_prober = None, te_clock = (\<lambda>_. 0), te_claim_id = (\<lambda>_. ''c''), te_others = (\<lambda>_ s. s)\<rparr>"

definition worn_batch :: "batch_result \<times> db" where
  "worn_batch = run_refresh_token_keepalive_batch exchanging_env (\<lambda>_. ''failed'') 1 1 0 worn_db"

lemma worn_batch_run: "map (\<lambda>r. (ri_mailbox_id r, ri_successful r)) (br_results (fst worn_batch)) = [(''n'', True)]"
  by code_simp

theorem keepalive_batch_exact_witness:
  "map ri_mailbox_id (br_results (fst worn_batch)) = [''n''] \<and> length (br_results (fst worn_batch)) = 1
     \<and> mb_refresh_token_expires_at (worn_mailbox ''n'' 5) = Some 5 \<and> mb_refresh_token_expires_at (worn_mailbox ''m'' 9) = Some 9
     \<and> (5 :: time) \<le> 9"
proof -
  have names: "map ri_mailbox_id (br_results (fst worn_batch)) = [''n'']"
    using worn_batch_run by (cases "br_results (fst worn_batch)") auto
  have rows: "mb_id (worn_mailbox i e) = i" "mb_status (worn_mailbox i e) = MbActive" "mb_provider_type (worn_mailbox i e) = ''microsoft''"
    "mb_client_id (worn_mailbox i e) \<noteq> None" "mb_refresh_token_ciphertext (worn_mailbox i e) \<noteq> None"
    "mb_refresh_token_expires_at (worn_mailbox i e) = Some e" for i e
    by (simp_all add: worn_mailbox_def sample_fields)
  have s: "mailbox_ids_unique worn_db" "worn_mailbox ''m'' 9 \<in> set (mailboxes worn_db)" "worn_mailbox ''n'' 5 \<in> set (mailboxes worn_db)"
    "leases worn_db = []"
    by (simp_all add: mailbox_ids_unique_def worn_db_def rows empty_db_def)
  have answered: "ri_mailbox_id ` set (br_results (fst worn_batch)) = {''n''}" using names by (metis list.simps(15) list.set(1) set_map)
  have run: "run_refresh_token_keepalive_batch exchanging_env (\<lambda>_. ''failed'') 1 1 0 worn_db = (fst worn_batch, snd worn_batch)"
    by (simp add: worn_batch_def)
  have "length (br_results (fst worn_batch)) = 1 \<and> (5 :: time) \<le> 9"
    using keepalive_batch_exact [OF run s(1,2)] s(3,4)
    by (simp add: answered rows Let_def exchanging_env_def days_def)
  with names rows show ?thesis by simp
qed

text \<open>Whatever the order in which the workers finish, the answers come in the order of the request.\<close>

lemma run_workers_domain: "i \<notin> set order \<Longrightarrow> fst (run_workers work order results s) i = results i"
  by (induction work order results s rule: run_workers.induct) (auto split: prod.splits)

lemma worker_pool_reports_each:
  assumes "distinct order" and "set ids = set order" and "refresh_access_tokens_with_worker_pool work order ids s = (b, t)"
  shows "length (br_results b) = length ids \<and> br_successful b + br_failed b = length ids
     \<and> (\<forall>k < length ids. \<exists>u. br_results b ! k = fst (work (ids ! k) u))"
proof -
  have some: "i \<in> set order \<Longrightarrow> distinct order \<Longrightarrow> \<exists>u. fst (run_workers work order results s) i = Some (fst (work i u))" for i results s
  proof (induction order arbitrary: results s)
    case (Cons j order)
    show ?case
    proof (cases "i = j")
      case True
      obtain item u where w: "work j s = (item, u)" by (cases "work j s")
      have "i \<notin> set order" using Cons.prems(2) True by simp
      then have "fst (run_workers work (j # order) results s) i = Some item"
        using True by (simp add: w run_workers_domain)
      then show ?thesis using True w by (metis fst_conv)
    next
      case False
      obtain item u where w: "work j s = (item, u)" by (cases "work j s")
      have "i \<in> set order" "distinct order" using Cons.prems False by auto
      from Cons.IH [OF this] show ?thesis by (simp add: w)
    qed
  qed simp
  obtain results where r2: "results = fst (run_workers work order Map.empty s)" and b: "b = batch_of (map (\<lambda>i. the (results i)) ids)"
    using assms(3) unfolding refresh_access_tokens_with_worker_pool_def by (cases "run_workers work order Map.empty s") force
  have batch: "br_results (batch_of xs) = xs" "br_successful (batch_of xs) + br_failed (batch_of xs) = length xs" for xs
    by (simp_all only: batch_of_def Let_def batch_result.select_convs le_add_diff_inverse length_filter_le)
  have r1: "br_results b = map (\<lambda>i. the (results i)) ids" unfolding b by (rule batch)
  have "\<exists>u. br_results b ! k = fst (work (ids ! k) u)" if "k < length ids" for k
  proof -
    have "ids ! k \<in> set order" using nth_mem [OF that] unfolding assms(2) .
    then obtain u where "results (ids ! k) = Some (fst (work (ids ! k) u))" using some assms(1) r2 by blast
    with r1 that show ?thesis by (auto intro: exI [of _ u])
  qed
  moreover have "br_successful b + br_failed b = length ids" unfolding b batch(2) by simp
  ultimately show ?thesis using r1 by simp
qed

end
