(* ===== verification/ProbeLabel.thy ===== *)
theory ProbeLabel
  imports TokenService
begin

text \<open>
  What the label of a capability probe rests on, over the production clients (\<open>capability_probe_service.py\<close>):
  which answers of the network make an attempt a refusal.
\<close>

subsection \<open>The pool never refuses a login\<close>




subsection \<open>What counts as a refusal\<close>














end
