(* ===== verification/PyRegex.thy ===== *)
theory PyRegex
  imports PyText
begin

text \<open>
  The constructs of Python's \<open>re\<close> the source's fixed patterns are written with. A matcher yields, for a
  text and a position, the positions at which it can stop, in the order in which the backtracking
  engine tries them; a sequence tries the second matcher at each stop of the first. \<open>rx_search\<close> is
  \<open>pattern.search\<close>, \<open>rx_sub\<close> is \<open>pattern.sub\<close> and \<open>rx_split_once\<close> is \<open>re.split(..., maxsplit=1)\<close>; the
  patterns of the source never match the empty string, where \<open>sub\<close> has rules of its own.
\<close>

type_synonym matcher = "string \<Rightarrow> nat \<Rightarrow> nat list"

subsection \<open>Matchers\<close>

definition run_length :: "(char \<Rightarrow> bool) \<Rightarrow> string \<Rightarrow> nat \<Rightarrow> nat" where
  "run_length P t i = length (takeWhile P (drop i t))"

definition rx_lit :: "string \<Rightarrow> matcher" where
  "rx_lit w t i = (if take (length w) (drop i t) = w then [i + length w] else [])"

definition rx_ilit :: "string \<Rightarrow> matcher" where
  \<comment> \<open>a literal under \<open>re.IGNORECASE\<close>\<close>
  "rx_ilit w t i = (if lower_str (take (length w) (drop i t)) = lower_str w then [i + length w] else [])"

definition rx_many :: "(char \<Rightarrow> bool) \<Rightarrow> nat \<Rightarrow> nat option \<Rightarrow> matcher" where
  \<comment> \<open>\<open>[...]{lo,hi}\<close>, greedy: the longest run first; \<open>None\<close> is no upper bound\<close>
  "rx_many P lo hi t i =
     (let n = (case hi of None \<Rightarrow> run_length P t i | Some h \<Rightarrow> min h (run_length P t i))
      in map (\<lambda>k. i + k) (rev [lo..<Suc n]))"

definition rx_lazy :: matcher where
  \<comment> \<open>\<open>.*?\<close> under \<open>re.DOTALL\<close>: the shortest stretch first\<close>
  "rx_lazy t i = [i..<Suc (length t)]"

fun rx_seq :: "matcher list \<Rightarrow> matcher" where
  "rx_seq [] t i = [i]"
| "rx_seq (m # ms) t i = concat (map (rx_seq ms t) (m t i))"

fun rx_alt :: "matcher list \<Rightarrow> matcher" where
  "rx_alt [] t i = []"
| "rx_alt (m # ms) t i = m t i @ rx_alt ms t i"

definition rx_opt :: "matcher \<Rightarrow> matcher" where
  "rx_opt m t i = m t i @ [i]"

definition rx_start :: matcher where
  "rx_start t i = (if i = 0 then [i] else [])"

definition rx_line_start :: matcher where
  \<comment> \<open>\<open>^\<close> under \<open>re.MULTILINE\<close>\<close>
  "rx_line_start t i = (if i = 0 \<or> t ! (i - 1) = char_of (10 :: nat) then [i] else [])"

definition is_alnum :: "char \<Rightarrow> bool" where
  \<comment> \<open>\<open>str.isalnum\<close> up to U+00FF\<close>
  "is_alnum c \<longleftrightarrow> is_ascii_digit c \<or> is_upper_ascii c \<or> is_lower_ascii c
     \<or> char_code c \<in> {170, 178, 179, 181, 185, 186, 188, 189, 190}
     \<or> (192 \<le> char_code c \<and> char_code c \<noteq> 215 \<and> char_code c \<noteq> 247)"

definition is_word :: "char \<Rightarrow> bool" where
  "is_word c \<longleftrightarrow> is_alnum c \<or> c = CHR ''_''"

definition rx_boundary :: matcher where
  \<comment> \<open>\<open>\b\<close>\<close>
  "rx_boundary t i =
     (if (0 < i \<and> is_word (t ! (i - 1))) \<noteq> (i < length t \<and> is_word (t ! i)) then [i] else [])"

subsection \<open>Searching\<close>

definition rx_first :: "matcher \<Rightarrow> string \<Rightarrow> nat \<Rightarrow> nat option" where
  "rx_first m t i = (case m t i of [] \<Rightarrow> None | e # _ \<Rightarrow> Some e)"

definition rx_search :: "matcher \<Rightarrow> string \<Rightarrow> (nat \<times> nat) option" where
  \<comment> \<open>where the leftmost match begins and ends\<close>
  "rx_search m t =
     (case find (\<lambda>i. m t i \<noteq> []) [0..<Suc (length t)] of
        None \<Rightarrow> None | Some i \<Rightarrow> Some (i, hd (m t i)))"

definition rx_group :: "matcher \<Rightarrow> matcher \<Rightarrow> matcher \<Rightarrow> string \<Rightarrow> string option" where
  \<comment> \<open>\<open>group(1)\<close> of the leftmost match of the pattern \<open>pre (grp) post\<close>\<close>
  "rx_group pre grp post t =
     (case find (\<lambda>i. rx_seq [pre, grp, post] t i \<noteq> []) [0..<Suc (length t)] of
        None \<Rightarrow> None
      | Some i \<Rightarrow>
          (case find (\<lambda>(a, b). post t b \<noteq> []) (concat (map (\<lambda>a. map (\<lambda>b. (a, b)) (grp t a)) (pre t i))) of
             None \<Rightarrow> None | Some (a, b) \<Rightarrow> Some (take (b - a) (drop a t))))"

function rx_sub_from :: "matcher \<Rightarrow> string \<Rightarrow> string \<Rightarrow> nat \<Rightarrow> string" where
  "rx_sub_from m by t i =
     (if length t \<le> i then []
      else case rx_first m t i of
        None \<Rightarrow> t ! i # rx_sub_from m by t (Suc i)
      | Some e \<Rightarrow> if e \<le> i then t ! i # rx_sub_from m by t (Suc i) else by @ rx_sub_from m by t e)"
  by pat_completeness auto
termination
  by (relation "measure (\<lambda>(m, by, t, i). length t - i)") auto

declare rx_sub_from.simps [simp del]

definition rx_sub :: "matcher \<Rightarrow> string \<Rightarrow> string \<Rightarrow> string" where
  "rx_sub m by t = rx_sub_from m by t 0"

definition rx_split_once :: "matcher \<Rightarrow> string \<Rightarrow> string list" where
  "rx_split_once m t =
     (case rx_search m t of None \<Rightarrow> [t] | Some (a, b) \<Rightarrow> [take a t, drop b t])"

subsection \<open>What a match is\<close>

lemma run_length_le: "i \<le> length t \<Longrightarrow> i + run_length P t i \<le> length t"
  using length_takeWhile_le [of P "drop i t"] by (simp add: run_length_def)

lemma run_length_class: "k < run_length P t i \<Longrightarrow> P (t ! (i + k))"
proof -
  assume k: "k < run_length P t i"
  then have "k < length (takeWhile P (drop i t))" by (simp add: run_length_def)
  then have "takeWhile P (drop i t) ! k = t ! (i + k)"
    by (metis takeWhile_nth nth_drop length_drop less_imp_le_nat add.commute
        length_takeWhile_le less_le_trans nat_le_linear drop_all nth_drop order_le_less_trans le_add1
        takeWhile.simps(1) list.size(3) not_less_zero)
  then show ?thesis using k by (metis nth_mem run_length_def set_takeWhileD)
qed

lemma rx_many_iff:
  "e \<in> set (rx_many P lo hi t i) \<longleftrightarrow>
     (\<exists>k. e = i + k \<and> lo \<le> k \<and> k \<le> run_length P t i \<and> (case hi of None \<Rightarrow> True | Some h \<Rightarrow> k \<le> h))"
  by (auto simp: rx_many_def Let_def split: option.splits)

lemma rx_many_text:
  assumes "e \<in> set (rx_many P lo hi t i)"
  shows "(\<forall>c \<in> set (take (e - i) (drop i t)). P c) \<and> length (take (e - i) (drop i t)) = e - i \<and> i \<le> e
     \<and> lo \<le> e - i \<and> (case hi of None \<Rightarrow> True | Some h \<Rightarrow> e - i \<le> h)"
proof -
  obtain k where k: "e = i + k" "lo \<le> k" "k \<le> run_length P t i" "case hi of None \<Rightarrow> True | Some h \<Rightarrow> k \<le> h"
    using assms(1) by (auto simp: rx_many_iff)
  have "run_length P t i \<le> length (drop i t)" unfolding run_length_def by (rule length_takeWhile_le)
  then have len: "length (take k (drop i t)) = k" using k(3) by simp
  moreover have "P c" if c: "c \<in> set (take k (drop i t))" for c
  proof -
    obtain j where "j < k" "c = take k (drop i t) ! j" using c len by (metis in_set_conv_nth)
    then have "j < k" "c = t ! (i + j)" using len by auto
    then show ?thesis using run_length_class [of j P t i] k(3) by simp
  qed
  ultimately show ?thesis using k by (simp split: option.splits)
qed

lemma rx_seq_Cons_iff: "e \<in> set (rx_seq (m # ms) t i) \<longleftrightarrow> (\<exists>a \<in> set (m t i). e \<in> set (rx_seq ms t a))"
  by auto

lemma rx_group_Some:
  assumes "rx_group pre grp post t = Some w"
  shows "\<exists>i a b. i \<le> length t \<and> a \<in> set (pre t i) \<and> b \<in> set (grp t a) \<and> post t b \<noteq> [] \<and> w = take (b - a) (drop a t)"
proof -
  from assms obtain i a b where i: "find (\<lambda>i. rx_seq [pre, grp, post] t i \<noteq> []) [0..<Suc (length t)] = Some i"
    and ab: "find (\<lambda>(a, b). post t b \<noteq> []) (concat (map (\<lambda>a. map (\<lambda>b. (a, b)) (grp t a)) (pre t i))) = Some (a, b)"
    and w: "w = take (b - a) (drop a t)"
    by (auto simp: rx_group_def split: option.splits)
  from i have "i \<in> set [0..<Suc (length t)]" by (metis find_Some_iff nth_mem)
  then have "i \<le> length t" by auto
  moreover from find_some_mem [OF ab] have "a \<in> set (pre t i)" "b \<in> set (grp t a)" "post t b \<noteq> []" by auto
  ultimately show ?thesis using w by auto
qed

lemma rx_group_None:
  assumes "rx_group pre grp post t = None" and "i \<le> length t"
  shows "rx_seq [pre, grp, post] t i = []"
proof (rule ccontr)
  assume "rx_seq [pre, grp, post] t i \<noteq> []"
  moreover have "i \<in> set [0..<Suc (length t)]" using assms(2) by auto
  ultimately have "find (\<lambda>i. rx_seq [pre, grp, post] t i \<noteq> []) [0..<Suc (length t)] \<noteq> None"
    by (metis (mono_tags, lifting) find_None_iff)
  then obtain k where k: "find (\<lambda>i. rx_seq [pre, grp, post] t i \<noteq> []) [0..<Suc (length t)] = Some k" by blast
  have "rx_seq [pre, grp, post] t k \<noteq> []" using find_some_mem [OF k] by (rule conjunct2)
  then obtain a b where "a \<in> set (pre t k)" "b \<in> set (grp t a)" "post t b \<noteq> []" by auto
  then have "(a, b) \<in> set (concat (map (\<lambda>a. map (\<lambda>b. (a, b)) (grp t a)) (pre t k)))" "(\<lambda>(a, b). post t b \<noteq> []) (a, b)"
    by auto
  then have "find (\<lambda>(a, b). post t b \<noteq> []) (concat (map (\<lambda>a. map (\<lambda>b. (a, b)) (grp t a)) (pre t k))) \<noteq> None"
    unfolding find_None_iff by blast
  with k assms(1) show False by (auto simp: rx_group_def split: option.splits)
qed

subsection \<open>Substituting the runs of a class\<close>

function sub_runs :: "(char \<Rightarrow> bool) \<Rightarrow> string \<Rightarrow> string \<Rightarrow> string" where
  "sub_runs P by [] = []"
| "sub_runs P by (c # s) = (if P c then by @ sub_runs P by (dropWhile P s) else c # sub_runs P by s)"
  by pat_completeness auto
termination
  by (relation "measure (\<lambda>(P, by, s). length s)") (auto simp: le_imp_less_Suc length_dropWhile_le)

lemma rx_first_many: "rx_first (rx_many P 1 None) t i = (if run_length P t i = 0 then None else Some (i + run_length P t i))"
proof (cases "run_length P t i")
  case (Suc n)
  then have "rev [1..<Suc (run_length P t i)] = run_length P t i # rev [1..<run_length P t i]" by simp
  then show ?thesis using Suc by (simp add: rx_first_def rx_many_def Let_def)
qed (simp add: rx_first_def rx_many_def)

lemma drop_run: "drop (i + run_length P t i) t = dropWhile P (drop i t)"
proof -
  have "dropWhile P (drop i t) = drop (length (takeWhile P (drop i t))) (drop i t)"
    by (rule dropWhile_eq_drop)
  then show ?thesis by (simp add: run_length_def add.commute)
qed

lemma rx_sub_many_from: "rx_sub_from (rx_many P 1 None) by t i = sub_runs P by (drop i t)"
proof (induction "length t - i" arbitrary: i rule: less_induct)
  case less
  show ?case
  proof (cases "i < length t")
    case False
    then show ?thesis by (simp add: rx_sub_from.simps)
  next
    case True
    then have d: "drop i t = t ! i # drop (Suc i) t" by (rule Cons_nth_drop_Suc [symmetric])
    show ?thesis
    proof (cases "P (t ! i)")
      case False
      then have "run_length P t i = 0" by (simp add: run_length_def d)
      then have "rx_sub_from (rx_many P 1 None) by t i = t ! i # rx_sub_from (rx_many P 1 None) by t (Suc i)"
        using True by (subst rx_sub_from.simps) (simp add: rx_first_many [simplified])
      then show ?thesis using less [of "Suc i"] True False d by simp
    next
      case hit: True
      then have n: "0 < run_length P t i" by (simp add: run_length_def d)
      then have "rx_sub_from (rx_many P 1 None) by t i = by @ rx_sub_from (rx_many P 1 None) by t (i + run_length P t i)"
        using True by (subst rx_sub_from.simps) (simp add: rx_first_many [simplified])
      moreover have "drop (i + run_length P t i) t = dropWhile P (drop (Suc i) t)" using hit d by (simp add: drop_run)
      ultimately show ?thesis using less [of "i + run_length P t i"] n True hit d by simp
    qed
  qed
qed

lemma rx_sub_many: "rx_sub (rx_many P 1 None) by t = sub_runs P by t"
  by (simp add: rx_sub_def rx_sub_many_from [simplified])

end
