(* ===== verification/MailText.thy ===== *)
theory MailText
  imports PyRegex CodeMatcher Json
begin

text \<open>
  From the text of a mail to a verification code: the byte budget of a body
  (\<open>truncate_text_to_byte_budget\<close>), the fixed sanitizing rules (\<open>mail_body_sanitize.py\<close>), the
  extraction by priority (\<open>extract_verification_code\<close>) and the address and time-window helpers of
  \<open>verification_code_service.py\<close>. The patterns are written with the matchers of \<open>PyRegex\<close>, construct
  by construct. The fourth keyword pattern is Chinese; no text of the model's range contains it.
\<close>

subsection \<open>The byte budget of a body\<close>

definition utf8 :: "string \<Rightarrow> nat list" where
  \<comment> \<open>\<open>text.encode("utf-8")\<close>\<close>
  "utf8 s = concat (map utf8_bytes s)"

fun utf8_decode :: "nat list \<Rightarrow> string" where
  \<comment> \<open>\<open>decode("utf-8", errors="ignore")\<close> for the bytes that texts of this range encode to\<close>
  "utf8_decode [] = []"
| "utf8_decode (b # bs) =
     (if b < 128 then char_of b # utf8_decode bs
      else case bs of [] \<Rightarrow> []
        | c # cs \<Rightarrow> if (b = 194 \<or> b = 195) \<and> c div 64 = 2 then char_of ((b - 192) * 64 + (c - 128)) # utf8_decode cs
                   else utf8_decode bs)"

definition drop_partial :: "nat list \<Rightarrow> nat list" where
  \<comment> \<open>\<open>byte & 0xC0 == 0x80\<close> is \<open>byte div 64 = 2\<close>, \<open>== 0xC0\<close> is \<open>byte div 64 = 3\<close>\<close>
  "drop_partial bytes =
     (let kept = rev (dropWhile (\<lambda>b. b div 64 = 2) (rev bytes))
      in if kept \<noteq> [] \<and> last kept div 64 = 3 then butlast kept else kept)"

definition truncate_text_to_byte_budget :: "string \<Rightarrow> int \<Rightarrow> string" where
  "truncate_text_to_byte_budget s maximum_bytes =
     (if maximum_bytes \<le> 0 then []
      else if int (length (utf8 s)) \<le> maximum_bytes then s
      else utf8_decode (drop_partial (take (nat maximum_bytes) (utf8 s))))"

definition max_message_body_bytes :: int where "max_message_body_bytes = 64 * 1024"
definition max_scan_body_bytes :: int where "max_scan_body_bytes = 512 * 1024"
definition max_request_body_bytes :: int where "max_request_body_bytes = 1024 * 1024"

subsection \<open>Sanitizing\<close>

definition collapse_whitespace :: "string \<Rightarrow> string" where
  "collapse_whitespace = rx_sub (rx_many is_space 1 None) '' ''"

definition not_gt :: "char \<Rightarrow> bool" where "not_gt c \<longleftrightarrow> c \<noteq> CHR ''>''"

definition html_tag :: matcher where
  "html_tag = rx_seq [rx_lit ''<'', rx_many not_gt 1 None, rx_lit ''>'']"

definition script_style_block :: matcher where
  \<comment> \<open>the back-reference closes the element that was opened\<close>
  "script_style_block = rx_alt (map (\<lambda>name. rx_seq [rx_lit ''<'', rx_ilit name, rx_lazy, rx_lit ''>'', rx_lazy, rx_lit ''</'', rx_ilit name, rx_lit ''>''])
     [''script'', ''style''])"

definition html_to_visible_text :: "string \<Rightarrow> string" where
  "html_to_visible_text html =
     (if html = [] then []
      else strip (collapse_whitespace (rx_sub html_tag '' '' (rx_sub script_style_block '' '' html))))"

definition newline :: char where "newline = char_of (10 :: nat)"

definition line_break :: matcher where
  "line_break = rx_seq [rx_opt (rx_lit [char_of (13 :: nat)]), rx_lit [newline]]"

definition header_line :: matcher where
  "header_line = rx_seq [rx_line_start, rx_alt (map rx_ilit
     [''received'', ''return-path'', ''arc-'', ''dkim-'', ''authentication-results'', ''mime-version'',
      ''content-type'', ''message-id'', ''from:'', ''to:'', ''subject:'', ''date:'']), rx_boundary]"

definition without_headers :: "string \<Rightarrow> string" where
  "without_headers raw =
     (if rx_search header_line raw = None then raw
      else case rx_split_once (rx_seq [line_break, line_break]) raw of
        [_, body] \<Rightarrow> if strip body \<noteq> [] then body else raw
      | _ \<Rightarrow> raw)"

definition sanitize_mail_text :: "string \<Rightarrow> string" where
  "sanitize_mail_text tx =
     (if tx = [] then []
      else let raw = without_headers tx;
               raw = rx_sub (rx_seq [rx_lit ''='', line_break]) [] raw;
               raw = rx_sub (rx_lit ''=20'') '' '' (rx_sub (rx_lit ''=3D'') ''='' raw);
               low = lower_str raw
           in strip (if contains low ''<html'' \<or> contains low ''<body'' \<or> contains low ''<div''
                     then html_to_visible_text raw else strip (collapse_whitespace raw)))"

definition strip_html :: "string \<Rightarrow> string" where
  "strip_html value = strip (collapse_whitespace (rx_sub html_tag '' '' value))"

subsection \<open>Extracting a code\<close>

definition xai_code :: matcher where
  "xai_code = rx_seq [rx_many is_alphanumeric 3 (Some 3), rx_lit ''-'', rx_many is_alphanumeric 3 (Some 3)]"

definition code_digits :: matcher where
  "code_digits = rx_many is_ascii_digit 4 (Some 8)"

definition anywhere :: matcher where "anywhere t i = [i]"

definition spaces :: matcher where "spaces = rx_many is_space 1 None"

definition colon_or_space :: "char \<Rightarrow> bool" where "colon_or_space c \<longleftrightarrow> c = CHR '':'' \<or> is_space c"

definition xai_subject_code :: "string \<Rightarrow> string option" where
  "xai_subject_code = rx_group rx_start xai_code (rx_seq [spaces, rx_ilit ''xAI''])"

definition xai_body_code :: "string \<Rightarrow> string option" where
  "xai_body_code = rx_group rx_boundary xai_code rx_boundary"

definition keyword_prefixes :: "matcher list" where
  "keyword_prefixes =
     (let tail = [spaces, rx_ilit ''code'', rx_many colon_or_space 1 None]
      in [rx_seq (rx_ilit ''verification'' # tail),
          rx_seq (rx_ilit ''your'' # tail),
          rx_seq (rx_ilit ''confirm'' # rx_opt (rx_ilit ''ation'') # tail)])"

fun first_some :: "('a \<Rightarrow> 'b option) \<Rightarrow> 'a list \<Rightarrow> 'b option" where
  "first_some f [] = None"
| "first_some f (x # xs) = (case f x of None \<Rightarrow> first_some f xs | Some y \<Rightarrow> Some y)"

definition builtin_code :: "string \<Rightarrow> string option" where
  "builtin_code tx =
     (case xai_body_code tx of
        Some c \<Rightarrow> Some c
      | None \<Rightarrow> (case first_some (\<lambda>pre. rx_group pre code_digits anywhere tx) keyword_prefixes of
          Some c \<Rightarrow> Some c
        | None \<Rightarrow> rx_group rx_boundary code_digits rx_boundary tx))"

definition cleaned_body :: "string \<Rightarrow> string" where
  "cleaned_body body = truncate_text_to_byte_budget (sanitize_mail_text body) max_message_body_bytes"

definition extract_verification_code :: "pattern_options option \<Rightarrow> string \<Rightarrow> string \<Rightarrow> string option" where
  "extract_verification_code custom subject body =
     (case xai_subject_code subject of
        Some c \<Rightarrow> Some c
      | None \<Rightarrow> (case custom of
          Some opts \<Rightarrow> search opts subject (cleaned_body body)
        | None \<Rightarrow> builtin_code (joined subject (cleaned_body body))))"

subsection \<open>Addresses and the lookback window\<close>

definition rfind_char :: "char \<Rightarrow> string \<Rightarrow> nat" where
  \<comment> \<open>\<open>s.rfind(c)\<close> where \<open>c\<close> occurs\<close>
  "rfind_char c s = length s - Suc (length (takeWhile (\<lambda>x. x \<noteq> c) (rev s)))"

definition normalize_email_address :: "string option \<Rightarrow> string option" where
  "normalize_email_address raw =
     (case raw of None \<Rightarrow> None
      | Some r \<Rightarrow>
          let v = strip_lower r;
              a = rfind_char CHR ''<'' v;
              b = rfind_char CHR ''>'' v;
              w = (if CHR ''<'' \<in> set v \<and> CHR ''>'' \<in> set v \<and> a < b then strip (take (b - Suc a) (drop (Suc a) v)) else v)
          in if v = [] \<or> w = [] then None else Some w)"

definition time_filter_clock_skew_seconds :: int where "time_filter_clock_skew_seconds = 900"

definition expand_lookback_since_at :: "time \<Rightarrow> time" where
  "expand_lookback_since_at since_at = since_at - secs time_filter_clock_skew_seconds"

definition is_within_lookback_window :: "time option \<Rightarrow> time \<Rightarrow> bool" where
  "is_within_lookback_window received_at since_at =
     (case received_at of None \<Rightarrow> True | Some t \<Rightarrow> expand_lookback_since_at since_at \<le> t)"

subsection \<open>Truncation keeps whole characters within the budget\<close>

lemma utf8_simps [simp]: "utf8 [] = []" "utf8 (c # s) = utf8_bytes c @ utf8 s" "utf8 (a @ b) = utf8 a @ utf8 b"
  by (simp_all add: utf8_def)

lemma utf8_bytes_cases:
  obtains (ascii) "char_code c < 128" "utf8_bytes c = [char_code c]"
  | (two) b d where "utf8_bytes c = [b, d]" "b = 194 \<or> b = 195" "d div 64 = 2" "c = char_of ((b - 192) * 64 + (d - 128))"
proof (cases "char_code c < 128")
  case True
  then show ?thesis by (rule ascii) (simp add: utf8_bytes_def True)
next
  case False
  define n where "n = char_code c"
  have n: "128 \<le> n" "n < 256" using False code_lt [of c] by (simp_all add: n_def)
  have "n div 64 = 2 \<or> n div 64 = 3" using n by auto
  moreover have "(128 + n mod 64) div 64 = 2" by simp
  moreover have "c = char_of ((n div 64) * 64 + n mod 64)" by (simp add: n_def)
  moreover have "((192 + n div 64) - 192) * 64 + ((128 + n mod 64) - 128) = (n div 64) * 64 + n mod 64" by simp
  moreover have "utf8_bytes c = [192 + n div 64, 128 + n mod 64]" using False by (simp add: utf8_bytes_def n_def Let_def)
  ultimately show ?thesis by (intro two [of "192 + n div 64" "128 + n mod 64"]) (simp, force, simp, metis)
qed

lemma utf8_decode_utf8 [simp]: "utf8_decode (utf8 s) = s"
proof (induction s)
  case (Cons c s)
  then show ?case by (cases c rule: utf8_bytes_cases) auto
qed simp

definition lead_byte :: "nat \<Rightarrow> bool" where "lead_byte b \<longleftrightarrow> b = 194 \<or> b = 195"

lemma take_utf8: "\<exists>k rest. take n (utf8 s) = utf8 (take k s) @ rest \<and> (rest = [] \<or> (\<exists>b. lead_byte b \<and> rest = [b]))"
proof (induction s arbitrary: n)
  case Nil
  then show ?case by simp
next
  case (Cons c s)
  show ?case
  proof (cases c rule: utf8_bytes_cases)
    case ascii
    show ?thesis
    proof (cases n)
      case 0
      then have "take n (utf8 (c # s)) = utf8 (take 0 (c # s)) @ []" by simp
      then show ?thesis by blast
    next
      case (Suc m)
      obtain k rest where "take m (utf8 s) = utf8 (take k s) @ rest" "rest = [] \<or> (\<exists>b. lead_byte b \<and> rest = [b])"
        using Cons.IH by blast
      then show ?thesis using ascii Suc by (intro exI [of _ "Suc k"] exI [of _ rest]) simp
    qed
  next
    case (two b d)
    consider "n = 0" | "n = 1" | m where "n = Suc (Suc m)" by (metis One_nat_def not0_implies_Suc)
    then show ?thesis
    proof cases
      case 1
      then have "take n (utf8 (c # s)) = utf8 (take 0 (c # s)) @ []" by simp
      then show ?thesis by blast
    next
      case 2
      then have "take n (utf8 (c # s)) = utf8 (take 0 (c # s)) @ [b]" using two by simp
      then show ?thesis using two(2) by (auto simp: lead_byte_def intro!: exI [of _ 0])
    next
      case 3
      obtain k rest where "take m (utf8 s) = utf8 (take k s) @ rest" "rest = [] \<or> (\<exists>b. lead_byte b \<and> rest = [b])"
        using Cons.IH by blast
      then show ?thesis using two 3 by (intro exI [of _ "Suc k"] exI [of _ rest]) simp
    qed
  qed
qed

lemma drop_partial_utf8: "\<exists>j \<le> length s. drop_partial (utf8 s) = utf8 (take j s)"
proof (cases s rule: rev_cases)
  case Nil
  then show ?thesis by (simp add: drop_partial_def)
next
  case (snoc u c)
  show ?thesis
  proof (cases c rule: utf8_bytes_cases)
    case ascii
    then have "char_code c div 64 < 2" by (simp add: div_less_iff_less_mult)
    then have "drop_partial (utf8 s) = utf8 (take (length s) s)" using snoc ascii by (simp add: drop_partial_def)
    then show ?thesis by blast
  next
    case (two b d)
    then have "drop_partial (utf8 s) = utf8 u" using snoc by (auto simp: drop_partial_def)
    also have "u = take (length u) s" using snoc by simp
    finally show ?thesis using snoc by (intro exI [of _ "length u"]) simp
  qed
qed

lemma drop_partial_lead: "lead_byte b \<Longrightarrow> drop_partial (bs @ [b]) = bs"
  by (auto simp: drop_partial_def lead_byte_def)

lemma length_utf8_take: "length (utf8 (take k s)) \<le> length (utf8 s)"
  by (metis append_take_drop_id length_append le_add1 utf8_simps(3))

lemma truncate_prefix:
  "\<exists>k. truncate_text_to_byte_budget s n = take k s
     \<and> int (length (utf8 (truncate_text_to_byte_budget s n))) \<le> max 0 n"
proof (cases "n \<le> 0 \<or> int (length (utf8 s)) \<le> n")
  case True
  then show ?thesis
    by (auto simp: truncate_text_to_byte_budget_def intro: exI [of _ 0] exI [of _ "length s"])
next
  case False
  obtain k rest where k: "take (nat n) (utf8 s) = utf8 (take k s) @ rest" "rest = [] \<or> (\<exists>b. lead_byte b \<and> rest = [b])"
    using take_utf8 by blast
  then have "\<exists>j. drop_partial (take (nat n) (utf8 s)) = utf8 (take j s) \<and> length (utf8 (take j s)) \<le> length (utf8 (take k s))"
  proof (cases "rest = []")
    case True
    obtain j where "j \<le> length (take k s)" "drop_partial (utf8 (take k s)) = utf8 (take j (take k s))"
      using drop_partial_utf8 by blast
    then show ?thesis using k True length_utf8_take [of j "take k s"] by (metis append_Nil2 take_take)
  next
    case False
    then show ?thesis using k drop_partial_lead by auto
  qed
  then obtain j where j: "drop_partial (take (nat n) (utf8 s)) = utf8 (take j s)" "length (utf8 (take j s)) \<le> length (utf8 (take k s))"
    by blast
  have "length (utf8 (take k s)) \<le> nat n" using k(1) by (metis length_append length_take le_add1 le_trans min.cobounded2)
  with j(2) False have "int (length (utf8 (take j s))) \<le> n" by linarith
  then show ?thesis using False j(1) by (intro exI [of _ j]) (simp add: truncate_text_to_byte_budget_def)
qed

subsection \<open>Collapsing whitespace is joining the words\<close>

lemma split_ws_skip: "split_ws (dropWhile is_space s) = split_ws s"
  by (induction s) (auto simp: split_ws_def)

lemma strip_pad:
  assumes "\<forall>c \<in> set a. is_space c" and "\<forall>c \<in> set b. is_space c" and "strip x = x"
  shows "strip (a @ x @ b) = x"
proof (cases "x = []")
  case True
  have "lstrip (a @ b) = []" unfolding lstrip_def dropWhile_eq_Nil_conv using assms(1,2) by auto
  with True show ?thesis by (simp add: strip_def rstrip_def)
next
  case False
  with assms(3) have x: "\<not> is_space (hd x)" "\<not> is_space (last x)" by (auto simp: strip_fixed)
  then have "lstrip (a @ x @ b) = x @ b"
    using assms(1) False by (cases x) (auto simp: lstrip_def dropWhile_append)
  moreover have "rstrip (x @ b) = x"
    using assms(2) False x(2) by (cases x rule: rev_cases) (auto simp: rstrip_def dropWhile_append)
  ultimately show ?thesis by (simp add: strip_def)
qed

lemma sub_runs_word: "\<forall>c \<in> set w. \<not> P c \<Longrightarrow> sub_runs P by (w @ s) = w @ sub_runs P by s"
  by (induction w) auto

lemma collapse_words:
  "s = [] \<or> \<not> is_space (hd s) \<Longrightarrow>
     (\<exists>b. (\<forall>c \<in> set b. is_space c) \<and> sub_runs is_space '' '' s = join_with '' '' (split_ws s) @ b)
     \<and> (split_ws s = [] \<longrightarrow> s = [])"
proof (induction s rule: length_induct)
  case (1 s)
  show ?case
  proof (cases "s = []")
    case True
    then show ?thesis by (simp add: split_ws_def)
  next
    case False
    define w where "w = takeWhile (\<lambda>c. \<not> is_space c) s"
    define r where "r = dropWhile (\<lambda>c. \<not> is_space c) s"
    have s: "s = w @ r" by (simp add: w_def r_def)
    have w: "w \<noteq> []" "\<forall>c \<in> set w. \<not> is_space c"
      using False "1.prems" by (cases s; auto simp: w_def dest: set_takeWhileD)+
    show ?thesis
    proof (cases r)
      case Nil
      then have "split_ws s = [w]" using s w split_ws_from_word [of w "[]" "[]"] by (simp add: split_ws_def)
      then show ?thesis using s Nil w sub_runs_word [of w is_space "'' ''" "[]"] by simp
    next
      case (Cons c q)
      have c: "is_space c" using Cons by (metis dropWhile_eq_Cons_conv r_def)
      define u where "u = dropWhile is_space q"
      have u: "length u < length s" "u = [] \<or> \<not> is_space (hd u)"
        using s Cons hd_dropWhile [of is_space q] by (auto simp: u_def le_imp_less_Suc length_dropWhile_le trans_le_add2)
      obtain b where b: "\<forall>c \<in> set b. is_space c" "sub_runs is_space '' '' u = join_with '' '' (split_ws u) @ b"
        and ne: "split_ws u = [] \<longrightarrow> u = []"
        using "1.IH" u by blast
      have words: "split_ws s = w # split_ws u"
        using s Cons c w split_ws_from_word [of w "[]" "c # q"] split_ws_skip [of q]
        by (simp add: split_ws_def u_def)
      have sub: "sub_runs is_space '' '' s = w @ '' '' @ join_with '' '' (split_ws u) @ b"
        using s Cons c w b(2) sub_runs_word [of w is_space "'' ''" "c # q"] by (simp add: u_def)
      show ?thesis
      proof (cases "split_ws u")
        case Nil
        have "is_space (CHR '' '')" by (simp add: is_space_def)
        then show ?thesis using words sub Nil b(1) by (intro conjI exI [of _ "'' '' @ b"]) auto
      next
        case (Cons v vs)
        then show ?thesis using words sub b(1) by (intro conjI exI [of _ b]) auto
      qed
    qed
  qed
qed

lemma join_stripped:
  assumes "\<forall>w \<in> set ws. w \<noteq> [] \<and> (\<forall>c \<in> set w. \<not> is_space c)"
  shows "strip (join_with '' '' ws) = join_with '' '' ws"
proof -
  have "ws \<noteq> [] \<Longrightarrow> join_with '' '' ws \<noteq> [] \<and> \<not> is_space (hd (join_with '' '' ws)) \<and> \<not> is_space (last (join_with '' '' ws))"
    using assms by (induction "'' '' :: string" ws rule: join_with.induct) auto
  then show ?thesis by (cases "ws = []") (auto simp: strip_fixed)
qed

lemma collapse_is_join: "strip (collapse_whitespace s) = join_with '' '' (split_ws s)"
proof -
  define u where "u = dropWhile is_space s"
  have "u = [] \<or> \<not> is_space (hd u)" using hd_dropWhile [of is_space s] by (auto simp: u_def)
  then obtain b where b: "\<forall>c \<in> set b. is_space c" "sub_runs is_space '' '' u = join_with '' '' (split_ws u) @ b"
    using collapse_words by blast
  have "\<exists>a. (\<forall>c \<in> set a. is_space c) \<and> collapse_whitespace s = a @ sub_runs is_space '' '' u"
  proof (cases s)
    case (Cons c q)
    have "is_space (CHR '' '')" by (simp add: is_space_def)
    then show ?thesis
      using Cons by (cases "is_space c") (auto simp: collapse_whitespace_def rx_sub_many [simplified] u_def intro: exI [of _ "'' ''"] exI [of _ "[]"])
  qed (simp add: collapse_whitespace_def rx_sub_many [simplified] u_def)
  then obtain a where a: "\<forall>c \<in> set a. is_space c" "collapse_whitespace s = a @ join_with '' '' (split_ws u) @ b"
    using b(2) by auto
  have "strip (join_with '' '' (split_ws u)) = join_with '' '' (split_ws u)"
    by (rule join_stripped) (auto dest: split_ws_words)
  then show ?thesis using strip_pad [OF a(1) b(1)] a(2) split_ws_skip [of s] by (simp add: u_def)
qed

subsection \<open>What the extraction returns\<close>

definition xai_form :: "string \<Rightarrow> bool" where
  "xai_form w \<longleftrightarrow> (\<exists>p q. w = p @ ''-'' @ q \<and> length p = 3 \<and> length q = 3 \<and> (\<forall>c \<in> set p \<union> set q. is_alphanumeric c))"

definition digit_form :: "string \<Rightarrow> bool" where
  "digit_form w \<longleftrightarrow> 4 \<le> length w \<and> length w \<le> 8 \<and> (\<forall>c \<in> set w. is_ascii_digit c)"

definition part_of :: "string \<Rightarrow> string \<Rightarrow> bool" where
  "part_of w t \<longleftrightarrow> (\<exists>u v. t = u @ w @ v)"

lemma part_of_slice: "part_of (take n (drop a t)) t"
  unfolding part_of_def by (metis append_take_drop_id)

lemma xai_code_form: "b \<in> set (xai_code t a) \<Longrightarrow> xai_form (take (b - a) (drop a t))"
proof -
  assume "b \<in> set (xai_code t a)"
  then obtain i where i: "i \<in> set (rx_many is_alphanumeric 3 (Some 3) t a)"
    and b': "b \<in> set (rx_seq [rx_lit ''-'', rx_many is_alphanumeric 3 (Some 3)] t i)"
    unfolding xai_code_def rx_seq_Cons_iff by blast
  from b' obtain j where j: "take 1 (drop i t) = ''-''" "j = Suc i" and b: "b \<in> set (rx_many is_alphanumeric 3 (Some 3) t j)"
    by (auto simp: rx_lit_def split: if_splits)
  note p = rx_many_text [OF i] and q = rx_many_text [OF b]
  have "i = a + 3" "b = j + 3" using p q by auto
  then have "take (b - a) (drop a t) = take 3 (drop a t) @ take 1 (drop i t) @ take 3 (drop j t)"
    using j(2) take_add [of 3 4 "drop a t"] take_add [of 1 3 "drop i t"] by (simp add: add.commute)
  then show ?thesis using p q j(1) \<open>i = a + 3\<close> \<open>b = j + 3\<close>
    by (intro xai_form_def [THEN iffD2] exI [of _ "take 3 (drop a t)"] exI [of _ "take 3 (drop j t)"]) auto
qed

lemma code_digits_form: "b \<in> set (code_digits t a) \<Longrightarrow> digit_form (take (b - a) (drop a t))"
  unfolding code_digits_def digit_form_def by (drule rx_many_text) auto

lemma first_some_Some: "first_some f xs = Some y \<Longrightarrow> \<exists>x \<in> set xs. f x = Some y"
  by (induction xs) (auto split: option.splits)

lemma first_some_None: "first_some f xs = None \<longleftrightarrow> (\<forall>x \<in> set xs. f x = None)"
  by (induction xs) (auto split: option.splits)

lemma group_xai: "rx_group pre xai_code post t = Some w \<Longrightarrow> xai_form w \<and> part_of w t"
  by (auto dest!: rx_group_Some simp: xai_code_form part_of_slice)

lemma group_digits: "rx_group pre code_digits post t = Some w \<Longrightarrow> digit_form w \<and> part_of w t"
  by (auto dest!: rx_group_Some simp: code_digits_form part_of_slice)

lemma builtin_code_sound: "builtin_code t = Some w \<Longrightarrow> (xai_form w \<or> digit_form w) \<and> part_of w t"
  unfolding builtin_code_def xai_body_code_def
  by (auto split: option.splits dest!: first_some_Some group_xai group_digits)

lemma part_of_joined:
  assumes "part_of w subject" and "w \<noteq> []"
  shows "part_of w (joined subject body)"
proof -
  obtain u v where "subject = u @ w @ v" using assms(1) by (auto simp: part_of_def)
  then have "joined subject body = u @ w @ (v @ (if body = [] then [] else char_of (10 :: nat) # body))"
    using assms(2) by (simp add: joined_def)
  then show ?thesis unfolding part_of_def by blast
qed

text \<open>
  A code the built-in rules extract really stands in the mail: it is a contiguous part of the subject
  or of the sanitized and truncated body, and it has one of the two documented forms, three and three
  alphanumeric characters around a dash or four to eight digits 0-9.
\<close>

theorem extracted_code_sound:
  assumes "extract_verification_code None subject body = Some w"
  shows "(xai_form w \<or> digit_form w) \<and> part_of w (joined subject (cleaned_body body))"
proof (cases "xai_subject_code subject")
  case None
  with assms show ?thesis by (simp add: extract_verification_code_def builtin_code_sound)
next
  case (Some c)
  then have w: "w = c" "xai_form w" "part_of w subject"
    using assms group_xai by (auto simp: extract_verification_code_def xai_subject_code_def)
  then have "w \<noteq> []" by (auto simp: xai_form_def)
  with w part_of_joined show ?thesis by blast
qed

theorem extracted_code_sound_witness:
  "(xai_form ''4829'' \<or> digit_form ''4829'') \<and> part_of ''4829'' (joined ''Hi'' (cleaned_body ''<div>No <b>4829</b>''))"
  by (rule extracted_code_sound) code_simp

lemma isolated_digits_found:
  assumes w: "digit_form w" and left: "u = [] \<or> \<not> is_word (last u)" and right: "v = [] \<or> \<not> is_word (hd v)"
  shows "rx_group rx_boundary code_digits rx_boundary (u @ w @ v) \<noteq> None"
proof
  let ?t = "u @ w @ v"
  assume "rx_group rx_boundary code_digits rx_boundary ?t = None"
  then have none: "rx_seq [rx_boundary, code_digits, rx_boundary] ?t (length u) = []"
    by (rule rx_group_None) simp
  have len: "4 \<le> length w" "length w \<le> 8" and dig: "\<forall>c \<in> set w. is_ascii_digit c" using w by (auto simp: digit_form_def)
  have word: "is_word c" if "c \<in> set w" for c using dig that by (simp add: is_word_def is_alnum_def)
  have "w \<noteq> []" using len by auto
  have "rx_boundary ?t (length u) = [length u]"
    using left word [of "hd w"] \<open>w \<noteq> []\<close>
    by (cases u rule: rev_cases) (auto simp: rx_boundary_def nth_append hd_conv_nth)
  moreover have "length u + length w \<in> set (code_digits ?t (length u))"
  proof -
    have "length w \<le> run_length is_ascii_digit ?t (length u)"
      using dig by (simp add: run_length_def takeWhile_append)
    then show ?thesis using len by (auto simp: code_digits_def rx_many_iff intro!: exI [of _ "length w"])
  qed
  moreover have "rx_boundary ?t (length u + length w) = [length u + length w]"
    using right word [of "last w"] \<open>w \<noteq> []\<close>
    by (cases v; cases w rule: rev_cases) (auto simp: rx_boundary_def nth_append)
  ultimately show False using none by force
qed

text \<open>
  A code is not overlooked: whenever the subject or the cleaned body contains a run of four to eight
  digits that no letter, digit or underscore touches, the built-in rules return a code.
\<close>

theorem isolated_code_is_found:
  assumes "joined subject (cleaned_body body) = u @ w @ v" and "digit_form w"
    and "u = [] \<or> \<not> is_word (last u)" and "v = [] \<or> \<not> is_word (hd v)"
  shows "extract_verification_code None subject body \<noteq> None"
  using isolated_digits_found [OF assms(2-4)] assms(1)
  by (auto simp: extract_verification_code_def builtin_code_def split: option.splits)

theorem isolated_code_is_found_witness: "extract_verification_code None ''Login'' ''use 4821 now'' \<noteq> None"
proof (rule isolated_code_is_found [where u = "''Login'' @ [newline] @ ''use ''" and w = "''4821''" and v = "'' now''"])
  show "joined ''Login'' (cleaned_body ''use 4821 now'') = (''Login'' @ [newline] @ ''use '') @ ''4821'' @ '' now''"
    by code_simp
qed (code_simp+)

lemma rx_sub_absent:
  assumes "\<And>i. i < length t \<Longrightarrow> rx_first m t i = None"
  shows "rx_sub m by t = t"
proof -
  have "rx_sub_from m by t i = drop i t" for i
  proof (induction "length t - i" arbitrary: i rule: less_induct)
    case less
    show ?case
      using less [of "Suc i"] assms [of i] Cons_nth_drop_Suc [of i t]
      by (cases "i < length t") (simp_all add: rx_sub_from.simps [of _ _ _ i])
  qed
  then show ?thesis by (simp add: rx_sub_def)
qed

lemma contains_drop: "starts_with (drop i t) p \<Longrightarrow> contains t p"
  unfolding contains_iff starts_with_def by (metis append_take_drop_id)

lemma no_equals_no_match:
  assumes "CHR ''='' \<notin> set t"
  shows "rx_sub (rx_seq [rx_lit ''='', line_break]) by t = t" and "p \<noteq> [] \<Longrightarrow> rx_sub (rx_lit (CHR ''='' # p)) by t = t"
proof -
  have n: "take (Suc k) (drop i t) \<noteq> CHR ''='' # q" for i k q
  proof
    assume "take (Suc k) (drop i t) = CHR ''='' # q"
    then have "starts_with (drop i t) (CHR ''='' # [])" by (cases "drop i t") (auto simp: starts_with_def)
    then have "CHR ''='' \<in> set t" using contains_drop contains_iff by (metis append_Cons in_set_conv_decomp)
    with assms show False by simp
  qed
  show "rx_sub (rx_seq [rx_lit ''='', line_break]) by t = t"
    by (rule rx_sub_absent) (simp add: rx_first_def rx_lit_def n)
  show "p \<noteq> [] \<Longrightarrow> rx_sub (rx_lit (CHR ''='' # p)) by t = t"
    by (rule rx_sub_absent) (simp add: rx_first_def rx_lit_def n)
qed

text \<open>
  The plain-text branch of the sanitizer is Python's \<open>" ".join(text.split())\<close>: with no header to
  cut, no quoted-printable escape and no HTML marker, the sanitized text is its words joined by single
  spaces.
\<close>

theorem plain_text_is_its_words:
  assumes "rx_search header_line t = None" and "CHR ''='' \<notin> set t" and "CHR ''<'' \<notin> set t"
  shows "sanitize_mail_text t = join_with '' '' (split_ws t)"
proof (cases "t = []")
  case True
  then show ?thesis by (simp add: sanitize_mail_text_def split_ws_def)
next
  case False
  have "CHR ''<'' \<notin> set (lower_str t)"
  proof
    assume "CHR ''<'' \<in> set (lower_str t)"
    then obtain c where c: "c \<in> set t" "lower_char c = CHR ''<''" by (auto simp: lower_str_def)
    then have n: "char_code (lower_char c) = 60" by simp
    have "lower_char c = c" by (rule lower_char_fix) (use n in \<open>auto simp: code_lower_char split: if_splits\<close>)
    then have "c = CHR ''<''" using c(2) by simp
    with c assms(3) show False by simp
  qed
  then have html: "\<not> contains (lower_str t) (CHR ''<'' # q)" for q
    unfolding contains_iff by (metis append_Cons in_set_conv_decomp)
  have "strip (join_with '' '' (split_ws t)) = join_with '' '' (split_ws t)"
    by (rule join_stripped) (auto dest: split_ws_words)
  then show ?thesis using False assms(1,2) html
    by (simp add: sanitize_mail_text_def without_headers_def no_equals_no_match collapse_is_join)
qed

theorem plain_text_is_its_words_witness:
  "sanitize_mail_text (''Your  code'' @ [newline] @ ''is 1234 '') = join_with '' '' (split_ws (''Your  code'' @ [newline] @ ''is 1234 ''))"
  by (rule plain_text_is_its_words) code_simp+

lemma plain_headers_stay:
  "cleaned_body (''Date: 1 Jan 2024'' @ [newline, newline] @ ''No 5671'') = ''Date: 1 Jan 2024 No 5671''"
  "cleaned_body (''Received: x'' @ [newline] @ ''Date: 1 Jan 2024'' @ [newline, newline] @ ''No 5671'') = ''No 5671''"
  by code_simp+

lemma year_found: "builtin_code (joined ''Hi'' ''Date: 1 Jan 2024 No 5671'') = Some ''2024''"
  and number_found: "builtin_code (joined ''Hi'' ''No 5671'') = Some ''5671''"
  and no_subject_code: "xai_subject_code ''Hi'' = None"
  by code_simp+

text \<open>
  A header written the usual way, with a space after its colon, is not recognised: the pattern asks
  for a word boundary after the colon. A raw mail that has only such headers is searched with its
  headers, and the year of its date header is returned as the code.
\<close>

theorem date_header_taken_for_code:
  "extract_verification_code None ''Hi'' (''Date: 1 Jan 2024'' @ [newline, newline] @ ''No 5671'') = Some ''2024''
   \<and> extract_verification_code None ''Hi''
       (''Received: x'' @ [newline] @ ''Date: 1 Jan 2024'' @ [newline, newline] @ ''No 5671'') = Some ''5671''"
  unfolding extract_verification_code_def plain_headers_stay no_subject_code by (simp add: year_found number_found)

end
