(* ===== verification/Security.thy ===== *)
theory Security
  imports Json
begin

text \<open>
  The diagnostic helpers of \<open>security.py\<close>: what a proxy host, an exception, a remote text and a
  Microsoft error payload look like in logs and in the admin interface, and the material a proxy's
  credential fingerprint is computed from. The AES-GCM cipher and the digests are parameters of their
  users; an exception is its class name and its text.
\<close>

definition redact_proxy_host :: "string \<Rightarrow> string" where
  "redact_proxy_host host =
     (if length host \<le> 4 then replicate (length host) (CHR ''*'')
      else take 2 host @ replicate (length host - 4) (CHR ''*'') @ drop (length host - 2) host)"

definition summarize_exception :: "nat \<Rightarrow> string \<Rightarrow> string \<Rightarrow> string" where
  "summarize_exception maximum class_name error_text =
     (let message = strip (map (\<lambda>c. if c = CHR 0x0A then CHR '' '' else c) error_text)
      in if message = [] then class_name else class_name @ '': '' @ take maximum message)"

definition summarize_text :: "nat \<Rightarrow> string option \<Rightarrow> string" where
  "summarize_text maximum value =
     (case value of None \<Rightarrow> []
      | Some v \<Rightarrow>
          (let cleaned = strip (join_with '' '' (split_ws v))
           in if cleaned = [] then []
              else if length cleaned \<le> maximum then cleaned
              else take maximum cleaned @ ''...''))"

definition json_text :: "json \<Rightarrow> string option" where
  \<comment> \<open>\<open>value if isinstance(value, str) else None\<close>\<close>
  "json_text v = (case v of JStr x \<Rightarrow> Some x | _ \<Rightarrow> None)"

definition summarize_microsoft_error_payload :: "nat \<Rightarrow> json \<Rightarrow> string" where
  "summarize_microsoft_error_payload maximum payload =
     (if \<not> is_dict payload then []
      else (let err = jget payload ''error'';
                named = (case json_text err of None \<Rightarrow> [] | Some x \<Rightarrow> strip x)
            in if named \<noteq> [] then
                 (let description = summarize_text maximum (json_text (jget payload ''error_description''))
                  in if description \<noteq> [] then ''error='' @ named @ '' description='' @ description else ''error='' @ named)
               else if is_dict err then
                 (let code_text = (case json_text (jget err ''code'') of None \<Rightarrow> [] | Some x \<Rightarrow> strip x);
                      message_text = summarize_text maximum (json_text (jget err ''message''))
                  in join_with '' '' ((if code_text \<noteq> [] then [''code='' @ code_text] else [])
                       @ (if message_text \<noteq> [] then [''message='' @ message_text] else [])))
               else []))"

definition fingerprint_material :: "string option \<Rightarrow> string option \<Rightarrow> string" where
  "fingerprint_material username password =
     strip (case username of None \<Rightarrow> [] | Some u \<Rightarrow> u) @ [CHR 0x00] @ (case password of None \<Rightarrow> [] | Some w \<Rightarrow> w)"

definition build_proxy_credential_fingerprint ::
    "(string \<Rightarrow> string) \<Rightarrow> (string \<Rightarrow> string \<Rightarrow> string) \<Rightarrow> string option \<Rightarrow> string option \<Rightarrow> string option \<Rightarrow> string" where
  \<comment> \<open>\<open>sha\<close> and \<open>hmac\<close>: the hex digests, the latter under a key\<close>
  "build_proxy_credential_fingerprint sha hmac username password hmac_key =
     (case hmac_key of
        None \<Rightarrow> sha (''mailbox-service-proxy-credential'' @ [CHR 0x00] @ fingerprint_material username password)
      | Some k \<Rightarrow> hmac k (fingerprint_material username password))"

lemma summarize_text_bounded: "length (summarize_text n v) \<le> n + 3"
  by (auto simp: summarize_text_def Let_def split: option.split)

lemma summarize_exception_bounded: "length (summarize_exception n c t) \<le> length c + 2 + n"
  by (auto simp: summarize_exception_def Let_def)

lemma redacted_host_length: "length (redact_proxy_host h) = length h"
  by (auto simp: redact_proxy_host_def)

lemma redacted_host_hides:
  assumes "length h = length k" and "length h \<le> 4 \<or> take 2 h = take 2 k \<and> drop (length h - 2) h = drop (length k - 2) k"
  shows "redact_proxy_host h = redact_proxy_host k"
  using assms by (auto simp: redact_proxy_host_def)

lemma fingerprint_separates:
  assumes "CHR 0x00 \<notin> set (strip u)" and "CHR 0x00 \<notin> set (strip v)"
  shows "fingerprint_material (Some u) (Some p) = fingerprint_material (Some v) (Some q) \<longleftrightarrow> strip u = strip v \<and> p = q"
proof -
  have "xs @ [c] @ p = ys @ [c] @ q \<longleftrightarrow> xs = ys \<and> p = q" if "c \<notin> set xs" "c \<notin> set ys" for xs ys :: string and c
    using that
  proof (induction xs arbitrary: ys)
    case Nil
    then show ?case by (cases ys) auto
  next
    case (Cons a xs)
    then show ?case by (cases ys) auto
  qed
  from this [OF assms] show ?thesis by (simp add: fingerprint_material_def)
qed

end
