(* ===== verification/MailReader.thy ===== *)
theory MailReader
  imports MailText TokenService Security
begin

text \<open>
  Reading recent mail over Graph and IMAP (\<open>MicrosoftGraphMailReader\<close> and the reading half of
  \<open>VerificationCodeService\<close>): which folders are asked, which messages become candidates, which failures
  ask for a fresh access token. HTTP, the IMAP server, the MIME parser and the date parsers are
  parameters. An exception is its chain of causes: each link has its class and its text; the Boolean of
  a \<open>VerificationCodeReadError\<close> says whether its text contains the Chinese word for authentication.
\<close>

datatype link = ImapLink string | ReadLink bool string | OtherLink

type_synonym failure = "link list"

record inbox_message =
  im_from :: "string option"
  im_subject :: "string option"
  im_body :: string
  im_received_at :: "time option"
  im_channel :: channel
  im_recipients :: "string list"

subsection \<open>Failures a fresh token may cure\<close>

definition auth_markers :: "string list" where
  "auth_markers = [''authenticate'', ''authentication'', ''auth failed'', ''login failed'']"

definition link_is_auth :: "link \<Rightarrow> bool" where
  "link_is_auth l =
     (case l of
        ImapLink m \<Rightarrow> list_ex (contains (lower_str m)) auth_markers
      | ReadLink names_auth m \<Rightarrow> names_auth \<or> list_ex (contains (lower_str m)) (auth_markers @ [''http 401'', ''http 403''])
      | OtherLink \<Rightarrow> False)"

definition is_mail_access_auth_failure :: "failure \<Rightarrow> bool" where
  "is_mail_access_auth_failure = list_ex link_is_auth"

definition chain_of :: "(proxy_error \<Rightarrow> string) \<Rightarrow> proxy_error \<Rightarrow> failure" where
  \<comment> \<open>a protocol error of the IMAP client is passed on as it is\<close>
  "chain_of say e = (if e = ImapRefused then [ImapLink (say e)] else [OtherLink])"

subsection \<open>Graph\<close>

definition first_found :: "string option list \<Rightarrow> string list" where
  "first_found = List.map_filter (\<lambda>x. x)"

definition jlist :: "json \<Rightarrow> json list" where
  "jlist v = (case v of JArr xs \<Rightarrow> xs | _ \<Rightarrow> [])"

definition graph_address :: "json \<Rightarrow> string option" where
  \<comment> \<open>\<open>_extract_graph_from_address\<close>\<close>
  "graph_address payload = (if is_dict payload \<and> is_dict (jget payload ''emailAddress'')
     then json_text (jget (jget payload ''emailAddress'') ''address'') else None)"

definition graph_recipients :: "json \<Rightarrow> string list" where
  "graph_recipients raw = first_found (map (\<lambda>r. normalize_email_address (graph_address r))
     (concat (map (\<lambda>field. jlist (jget raw field)) [''toRecipients'', ''ccRecipients''])))"

definition graph_body_text :: "json \<Rightarrow> string" where
  "graph_body_text raw =
     (let body = jget raw ''body''; preview = or_text (json_text (jget raw ''bodyPreview'')) [] in
      if is_dict body then
        (case json_text (jget body ''content'') of
           None \<Rightarrow> preview
         | Some content \<Rightarrow> (case json_text (jget body ''contentType'') of
               Some t \<Rightarrow> if lower_str t = ''html'' then strip_html content else content
             | None \<Rightarrow> content))
      else preview)"

definition iso_datetime :: "(string \<Rightarrow> time option) \<Rightarrow> json \<Rightarrow> time option" where
  \<comment> \<open>\<open>fromisoformat\<close>: the standard library's parser, a naive result read as UTC\<close>
  "iso_datetime fromisoformat v =
     (case v of JStr s \<Rightarrow> if s = [] then None else fromisoformat (rx_sub (rx_lit ''Z'') ''+00:00'' s) | _ \<Rightarrow> None)"

definition graph_message :: "(string \<Rightarrow> time option) \<Rightarrow> json \<Rightarrow> inbox_message" where
  "graph_message fromisoformat raw = \<lparr>im_from = graph_address (jget raw ''from''), im_subject = json_text (jget raw ''subject''),
     im_body = graph_body_text raw, im_received_at = iso_datetime fromisoformat (jget raw ''receivedDateTime''),
     im_channel = GRAPH, im_recipients = graph_recipients raw\<rparr>"

datatype reader_error = PoolFailure proxy_error | ReadFailure failure

definition graph_scan_folders :: "string list" where "graph_scan_folders = [''inbox'', ''junkemail'']"

definition http_status_text :: "(int \<Rightarrow> string) \<Rightarrow> int \<Rightarrow> string" where
  "http_status_text str_of status = ''HTTP '' @ str_of status"

fun graph_scan ::
    "(int \<Rightarrow> string) \<Rightarrow> (string \<Rightarrow> time option) \<Rightarrow> bool \<Rightarrow> (string \<Rightarrow> http_outcome) \<Rightarrow> string list
       \<Rightarrow> inbox_message list \<Rightarrow> reader_error + inbox_message list" where
  \<comment> \<open>the folder loop of \<open>_list_once\<close>; the Boolean: a proxy was used\<close>
  "graph_scan str_of parse via_proxy http [] acc = Inr acc"
| "graph_scan str_of parse via_proxy http (folder # folders) acc =
     (case http folder of
        ChainError \<Rightarrow> Inl (PoolFailure ProxyTransport)
      | ConnectError \<Rightarrow> if via_proxy then Inl (PoolFailure ProxyTransport) else Inl (ReadFailure [ReadLink False ''Microsoft Graph''])
      | OtherHttpError e \<Rightarrow> Inl (PoolFailure e)
      | HttpResponse status body \<Rightarrow>
          if status \<in> {401, 403} then Inl (ReadFailure [ReadLink True (''Graph '' @ http_status_text str_of status)])
          else if status = 404 \<and> folder \<noteq> ''inbox'' then graph_scan str_of parse via_proxy http folders acc
          else if 400 \<le> status then
            (if folder = ''inbox'' then Inl (ReadFailure [ReadLink False (''Graph '' @ http_status_text str_of status)])
             else graph_scan str_of parse via_proxy http folders acc)
          else (case body of
              None \<Rightarrow> Inl (ReadFailure [OtherLink])   \<comment> \<open>\<open>response.json()\<close> raises\<close>
            | Some payload \<Rightarrow> graph_scan str_of parse via_proxy http folders
                (acc @ map (graph_message parse) (filter is_dict (jlist (jget payload ''value''))))))"

definition max_messages_per_scan :: nat where "max_messages_per_scan = 30"

definition graph_list_recent ::
    "(nat \<Rightarrow> resolve_env) \<Rightarrow> (nat \<Rightarrow> string \<times> string) \<Rightarrow> string \<Rightarrow> (int \<Rightarrow> string) \<Rightarrow> (string \<Rightarrow> time option)
       \<Rightarrow> (resolved_proxy option \<Rightarrow> string \<Rightarrow> time \<Rightarrow> nat \<Rightarrow> string \<Rightarrow> http_outcome) \<Rightarrow> string \<Rightarrow> string \<Rightarrow> time
       \<Rightarrow> (db, reader_error, inbox_message list) action" where
  \<comment> \<open>\<open>list_recent_messages\<close>; \<open>http\<close>: proxy, folder, lower bound of \<open>receivedDateTime\<close>, page length, token\<close>
  "graph_list_recent env ids summary str_of parse http i token since_at =
     (let attempt = (\<lambda>selected. graph_scan str_of parse (selected \<noteq> None)
             (\<lambda>folder. http selected folder (expand_lookback_since_at since_at) max_messages_per_scan token) graph_scan_folders []);
          worked = (\<lambda>k selected ms. case selected of None \<Rightarrow> ret ms
            | Some rp \<Rightarrow> andthen (lift_error PoolFailure (record_proxy_success (re_settings (env k)) (re_now (env k)) (fst (ids k)) (snd (ids k)) (rx_id rp))) (ret ms))
      in bnd (lift_error PoolFailure (resolve_for_mailbox (env 0) i [] False)) (\<lambda>selected.
         case attempt selected of
           Inr ms \<Rightarrow> worked 1 selected ms
         | Inl e \<Rightarrow>
             (if e \<noteq> PoolFailure ProxyTransport then throw e
              else case selected of
                None \<Rightarrow> throw e
              | Some rp \<Rightarrow>
                  andthen (lift_error PoolFailure (record_proxy_failure (re_settings (env 1)) (re_now (env 1)) (fst (ids 1)) (snd (ids 1)) (rx_id rp) summary))
                 (bnd (lift_error PoolFailure (resolve_for_mailbox (env 2) i [rx_id rp] True)) (\<lambda>replacement.
                  case attempt replacement of Inl e2 \<Rightarrow> throw e2 | Inr ms \<Rightarrow> worked 3 replacement ms)))))"

subsection \<open>IMAP\<close>

datatype 'a imap_reply = ImapOk 'a | ImapNo | ImapProtocol string | ImapBroken

record mail_part =
  mp_type :: string
  mp_disposition :: string
  mp_content :: "string option"   \<comment> \<open>the decoded payload, \<open>None\<close> where there are no bytes\<close>

record parsed_mail =
  pm_from :: "string option"
  pm_subject :: "string option"
  pm_multipart :: bool
  pm_parts :: "mail_part list"
  pm_recipients :: "string list"   \<comment> \<open>the addresses \<open>getaddresses\<close> finds in the recipient headers\<close>
  pm_internaldate :: "time option"
  pm_date :: "time option"

record imap_server =
  is_select :: "string \<Rightarrow> unit imap_reply"
  is_search :: "string \<Rightarrow> string list imap_reply"
  is_fetch :: "string \<Rightarrow> string \<Rightarrow> parsed_mail option imap_reply"   \<comment> \<open>\<open>None\<close>: no message bytes in the reply\<close>

definition email_body_text :: "parsed_mail \<Rightarrow> string" where
  \<comment> \<open>\<open>_extract_email_body_text\<close>\<close>
  "email_body_text m =
     (let usable = (if pm_multipart m then filter (\<lambda>p. \<not> contains (lower_str (mp_disposition p)) ''attachment'') (pm_parts m) else take 1 (pm_parts m));
          texts = (\<lambda>want f. List.map_filter (\<lambda>p. if want (mp_type p) then map_option f (mp_content p) else None) usable);
          plain = texts (\<lambda>t. if pm_multipart m then t = ''text/plain'' else t \<noteq> ''text/html'') (\<lambda>x. x);
          html = texts (\<lambda>t. t = ''text/html'') strip_html
      in join_with [newline] (if plain \<noteq> [] then plain else html))"

definition imap_message :: "parsed_mail \<Rightarrow> inbox_message" where
  "imap_message m = \<lparr>im_from = pm_from m, im_subject = pm_subject m, im_body = email_body_text m,
     im_received_at = (if pm_internaldate m \<noteq> None then pm_internaldate m else pm_date m), im_channel = IMAP,
     im_recipients = first_found (map (\<lambda>a. normalize_email_address (Some a)) (pm_recipients m))\<rparr>"

definition imap_failed :: "(string \<Rightarrow> string) \<Rightarrow> string \<Rightarrow> failure" where
  \<comment> \<open>the wrapper's text is \<open>summarize_exception\<close> of the protocol error\<close>
  "imap_failed summary m = [ReadLink False (summary m), ImapLink m]"

fun imap_fetch_all ::
    "(string \<Rightarrow> string) \<Rightarrow> imap_server \<Rightarrow> string \<Rightarrow> time \<Rightarrow> string list \<Rightarrow> inbox_message list \<Rightarrow> failure + inbox_message list" where
  "imap_fetch_all summary server folder since_at [] acc = Inr acc"
| "imap_fetch_all summary server folder since_at (uid # uids) acc =
     (case is_fetch server folder uid of
        ImapProtocol m \<Rightarrow> Inl (imap_failed summary m)
      | ImapBroken \<Rightarrow> Inl [OtherLink]
      | ImapNo \<Rightarrow> imap_fetch_all summary server folder since_at uids acc
      | ImapOk None \<Rightarrow> imap_fetch_all summary server folder since_at uids acc
      | ImapOk (Some m) \<Rightarrow> imap_fetch_all summary server folder since_at uids
          (if is_within_lookback_window (im_received_at (imap_message m)) since_at then acc @ [imap_message m] else acc))"

definition newest :: "string list \<Rightarrow> string list" where
  \<comment> \<open>\<open>reversed(message_uids[-MAX_MESSAGES_PER_SCAN:])\<close>\<close>
  "newest uids = take max_messages_per_scan (rev uids)"

fun imap_scan ::
    "(string \<Rightarrow> string) \<Rightarrow> imap_server \<Rightarrow> time \<Rightarrow> string list \<Rightarrow> inbox_message list \<Rightarrow> failure + inbox_message list" where
  "imap_scan summary server since_at [] acc = Inr acc"
| "imap_scan summary server since_at (folder # folders) acc =
     (case is_select server folder of
        ImapProtocol m \<Rightarrow> Inl (imap_failed summary m)
      | ImapBroken \<Rightarrow> Inl [OtherLink]
      | ImapNo \<Rightarrow> if folder = ''INBOX'' then Inl [ReadLink False ''IMAP''] else imap_scan summary server since_at folders acc
      | ImapOk _ \<Rightarrow>
          (case is_search server folder of
             ImapProtocol m \<Rightarrow> Inl (imap_failed summary m)
           | ImapBroken \<Rightarrow> Inl [OtherLink]
           | ImapNo \<Rightarrow> imap_scan summary server since_at folders acc
           | ImapOk uids \<Rightarrow>
               (case imap_fetch_all summary server folder since_at (newest uids) acc of
                  Inl e \<Rightarrow> Inl e | Inr acc' \<Rightarrow> imap_scan summary server since_at folders acc')))"

definition imap_scan_folders :: "string list" where "imap_scan_folders = [''INBOX'', ''Junk'']"

definition imap_list_messages ::
    "(string \<Rightarrow> string) \<Rightarrow> (proxy_error \<Rightarrow> string) \<Rightarrow> (db, proxy_error, unit) action \<Rightarrow> imap_server \<Rightarrow> time
       \<Rightarrow> (db, failure, inbox_message list) action" where
  \<comment> \<open>\<open>_list_imap_messages\<close>: connecting is outside the \<open>try\<close>; INBOX comes first, so the check after the loop never fires\<close>
  "imap_list_messages summary say connect server since_at =
     andthen (lift_error (chain_of say) connect)
       (case imap_scan summary server since_at imap_scan_folders [] of Inl e \<Rightarrow> throw e | Inr ms \<Rightarrow> ret ms)"

subsection \<open>One scan of a channel\<close>

record mail_wiring =
  mw_wiring :: wiring
  mw_summary :: "string \<Rightarrow> string"
  mw_iso :: "string \<Rightarrow> time option"
  mw_graph_mail :: "resolved_proxy option \<Rightarrow> string \<Rightarrow> time \<Rightarrow> nat \<Rightarrow> string \<Rightarrow> http_outcome"
  mw_imap_server :: "string \<Rightarrow> imap_server"   \<comment> \<open>the server behind a connection made with this token\<close>

definition list_messages :: "mail_wiring \<Rightarrow> channel \<Rightarrow> time \<Rightarrow> mailbox \<Rightarrow> string \<Rightarrow> (db, failure, inbox_message list) action" where
  \<comment> \<open>\<open>_list_messages\<close> with the production clients\<close>
  "list_messages w ch since_at m token =
     (let wi = mw_wiring w in
      case ch of
        GRAPH \<Rightarrow> lift_error (\<lambda>e. case e of PoolFailure pe \<Rightarrow> chain_of (wi_say wi) pe | ReadFailure f \<Rightarrow> f)
           (graph_list_recent (wi_pool wi (''mail'' @ token)) (wi_ids wi (''mail'' @ token)) (wi_say wi ProxyTransport) (wi_str wi)
              (mw_iso w) (mw_graph_mail w) (mb_id m) token since_at)
      | IMAP \<Rightarrow> imap_list_messages (mw_summary w) (wi_say wi) (pc_imap (wired_clients wi) m token) (mw_imap_server w token) since_at)"

definition list_messages_with_auth_refresh ::
    "(bool \<Rightarrow> (db, service_error, ensure_result) action) \<Rightarrow> (string \<Rightarrow> (db, failure, inbox_message list) action)
       \<Rightarrow> (db, failure, inbox_message list) action" where
  \<comment> \<open>\<open>ensure\<close>: the token service for the mailbox and channel, with its \<open>force_refresh\<close> flag\<close>
  "list_messages_with_auth_refresh ensure listing =
     bnd (lift_error (\<lambda>_. [OtherLink]) (ensure False)) (\<lambda>r.
     catch (listing (er_access_token r)) (\<lambda>e.
       if \<not> is_mail_access_auth_failure e then throw e
       else bnd (lift_error (\<lambda>_. [OtherLink]) (ensure True)) (\<lambda>r2. listing (er_access_token r2))))"

end
