(* ===== verification/VerificationAuth.thy ===== *)
theory VerificationAuth
  imports LeaseRelease
begin

text \<open>
  The authorization checkpoints of verification-code polling (\<open>verification_authorization.py\<close>): key, lease
  and mailbox are checked again in a fresh session, independently of \<open>load_active_mail_read_lease\<close>.
\<close>

datatype poll_denial = KeyScopeDenied | KeyInactive | KeyExpired | PollLeaseNotFound | PollModeMismatch | PollLeaseInactive

record lookup_authorization =
  la_lease_id :: string
  la_mailbox_id :: string
  la_client_key_id :: string
  la_primary_email :: string
  la_allocated_email :: "string option"

definition read_scope :: string where "read_scope = ''mail:verification-code:read''"

definition allocated_or :: "lease \<Rightarrow> string \<Rightarrow> string option" where
  \<comment> \<open>\<open>lease.allocated_email or primary_email\<close>\<close>
  "allocated_or l primary = (if present (ls_allocated_email l) then ls_allocated_email l else Some primary)"

definition check_client_key :: "time \<Rightarrow> principal \<Rightarrow> (db, poll_denial, unit) action" where
  "check_client_key now p =
     andthen (require_scope (\<lambda>_. KeyScopeDenied) p read_scope)
    (bnd (asks (key_row (client_key_id p))) (\<lambda>row. case row of
       None \<Rightarrow> throw KeyInactive
     | Some k \<Rightarrow>
         andthen (require (ck_enabled k) KeyInactive)
        (andthen (require (case ck_expires_at k of None \<Rightarrow> True | Some e \<Rightarrow> \<not> is_expired e now) KeyExpired)
           (require (read_scope \<in> set (ck_scopes k)) KeyScopeDenied))))"

definition check_lease :: "time \<Rightarrow> principal \<Rightarrow> string \<Rightarrow> (db, poll_denial, lease) action" where
  "check_lease now p lease_id =
     bnd (asks (lease_row lease_id)) (\<lambda>row. case row of
       None \<Rightarrow> throw PollLeaseNotFound
     | Some l \<Rightarrow>
         andthen (require (ls_client_key_id l = Some (client_key_id p)) PollLeaseNotFound)
        (andthen (require (ls_mode l = MailRead) PollModeMismatch)
        (andthen (require (ls_released_at l = None) PollLeaseInactive)
        (andthen (require (\<not> is_expired (ls_expires_at l) now) PollLeaseInactive) (ret l)))))"

definition check_mailbox :: "principal \<Rightarrow> lease \<Rightarrow> (db, poll_denial, lookup_authorization) action" where
  "check_mailbox p l =
     (let auth = (\<lambda>i primary. \<lparr>la_lease_id = ls_id l, la_mailbox_id = i, la_client_key_id = client_key_id p,
                      la_primary_email = primary, la_allocated_email = allocated_or l primary\<rparr>) in
      if present (ls_mailbox_id l) then
        bnd (asks (mailbox_row (the (ls_mailbox_id l)))) (\<lambda>row. case row of
          None \<Rightarrow> throw PollLeaseInactive
        | Some m \<Rightarrow> andthen (require (mb_status m = MbActive) PollLeaseInactive) (ret (auth (mb_id m) (mb_primary_email m))))
      else if \<not> present (ls_provider_resource_id l) then throw PollLeaseInactive
      else bnd (asks (resource_row (the (ls_provider_resource_id l)))) (\<lambda>row. case row of
          None \<Rightarrow> throw PollLeaseInactive
        | Some r \<Rightarrow> andthen (require (pr_lifecycle_state r = Claimed) PollLeaseInactive) (ret (auth (pr_id r) (pr_primary_email r)))))"

definition revalidate_verification_authorization ::
    "time \<Rightarrow> principal \<Rightarrow> string \<Rightarrow> (db, poll_denial, lookup_authorization) action" where
  "revalidate_verification_authorization now p lease_id =
     andthen (check_client_key now p) (bnd (check_lease now p lease_id) (check_mailbox p))"

subsection \<open>What an authorization means\<close>

definition key_permits :: "time \<Rightarrow> principal \<Rightarrow> db \<Rightarrow> bool" where
  "key_permits now p s \<longleftrightarrow> (\<exists>k. key_row (client_key_id p) s = Some k \<and> ck_enabled k
     \<and> (\<forall>e. ck_expires_at k = Some e \<longrightarrow> now < e) \<and> read_scope \<in> set (ck_scopes k))"

lemma check_client_key_Inr:
  "check_client_key now p s = (Inr x, t) \<longleftrightarrow> read_scope \<in> set (scopes p) \<and> key_permits now p s \<and> t = s"
  by (auto simp: check_client_key_def require_scope_def key_permits_def is_expired_def returns not_le
      split: option.splits)

lemma check_lease_Inr:
  "check_lease now p i s = (Inr l, t) \<longleftrightarrow> lease_row i s = Some l \<and> ls_client_key_id l = Some (client_key_id p)
     \<and> ls_mode l = MailRead \<and> lease_active now l \<and> t = s"
  by (auto simp: check_lease_def lease_active_def is_expired_def returns split: option.splits)

lemma revalidate_reads_only: "snd (revalidate_verification_authorization now p i s) = s"
  by (auto simp: revalidate_verification_authorization_def check_client_key_def check_lease_def check_mailbox_def
      require_scope_def Let_def run split: option.splits sum.splits prod.splits if_splits)

lemma owned_lease_row:
  assumes "distinct (map ls_id (leases s))"
  shows "owned_lease p i s = Some l \<longleftrightarrow> lease_row i s = Some l \<and> ls_client_key_id l = Some (client_key_id p)"
proof
  assume "owned_lease p i s = Some l"
  then have l: "l \<in> set (leases s)" "ls_id l = i" "ls_client_key_id l = Some (client_key_id p)"
    unfolding owned_lease_def by (auto dest: find_some_mem)
  then show "lease_row i s = Some l \<and> ls_client_key_id l = Some (client_key_id p)"
    using row_by_unique [OF assms l(1)] by (simp add: lease_row_def)
next
  assume a: "lease_row i s = Some l \<and> ls_client_key_id l = Some (client_key_id p)"
  then have l: "l \<in> set (leases s)" "ls_id l = i" by (auto simp: lease_row_def dest: row_by_Some)
  then have "owned_lease p i s \<noteq> None" unfolding owned_lease_def find_None_iff using a by blast
  then obtain k where k: "owned_lease p i s = Some k" by blast
  then have "k \<in> set (leases s)" "ls_id k = i" unfolding owned_lease_def by (auto dest: find_some_mem)
  then have "k = l" using l assms by (metis row_by_unique option.inject)
  with k show "owned_lease p i s = Some l" by simp
qed

definition lease_holder :: "lease \<Rightarrow> db \<Rightarrow> mail_identity option" where
  "lease_holder l s =
     (if present (ls_mailbox_id l) then
        (case mailbox_row (the (ls_mailbox_id l)) s of None \<Rightarrow> None
         | Some m \<Rightarrow> if mb_status m = MbActive then Some \<lparr>mi_id = mb_id m, mi_provider_type = mb_provider_type m,
                       mi_primary_email = mb_primary_email m, mi_status = MbActive\<rparr> else None)
      else if \<not> present (ls_provider_resource_id l) then None
      else (case resource_row (the (ls_provider_resource_id l)) s of None \<Rightarrow> None
         | Some r \<Rightarrow> if pr_lifecycle_state r = Claimed then Some \<lparr>mi_id = pr_id r, mi_provider_type = pr_provider_type r,
                       mi_primary_email = pr_primary_email r, mi_status = MbActive\<rparr> else None))"

lemma check_mailbox_Inr:
  "check_mailbox p l s = (Inr auth, t) \<longleftrightarrow> t = s \<and> (\<exists>mi. lease_holder l s = Some mi
     \<and> auth = \<lparr>la_lease_id = ls_id l, la_mailbox_id = mi_id mi, la_client_key_id = client_key_id p,
          la_primary_email = mi_primary_email mi, la_allocated_email = allocated_or l (mi_primary_email mi)\<rparr>)"
proof (cases "present (ls_mailbox_id l)")
  case True
  then show ?thesis by (cases "mailbox_row (the (ls_mailbox_id l)) s") (auto simp: check_mailbox_def lease_holder_def returns)
next
  case False
  then show ?thesis
    by (cases "resource_row (the (ls_provider_resource_id l)) s") (auto simp: check_mailbox_def lease_holder_def returns)
qed

lemma load_owned_Inr:
  "load_owned_lease now p i True s = (Inr l, t) \<longleftrightarrow> t = s \<and> owned_lease p i s = Some l \<and> lease_active now l"
  by (cases "owned_lease p i s") (auto simp: load_owned_lease_def lease_active_def is_expired_def returns)

lemma load_active_Inr:
  "load_active_mail_read_lease now p i s = (Inr (l, mi), t) \<longleftrightarrow>
     t = s \<and> read_scope \<in> set (scopes p) \<and> owned_lease p i s = Some l \<and> lease_active now l \<and> ls_mode l = MailRead
     \<and> lease_holder l s = Some mi"
proof -
  let ?rest = "\<lambda>l. if present (ls_mailbox_id l) then
          bnd (asks (mailbox_row (the (ls_mailbox_id l)))) (\<lambda>row. case row of
            None \<Rightarrow> throw LeaseInactive
          | Some m \<Rightarrow>
              if mb_status m \<noteq> MbActive then throw LeaseInactive
              else ret (l, \<lparr>mi_id = mb_id m, mi_provider_type = mb_provider_type m,
                            mi_primary_email = mb_primary_email m, mi_status = mb_status m\<rparr>))
        else if \<not> present (ls_provider_resource_id l) then throw LeaseInactive
        else
          bnd (asks (resource_row (the (ls_provider_resource_id l)))) (\<lambda>row. case row of
            None \<Rightarrow> throw LeaseInactive
          | Some r \<Rightarrow>
              if pr_lifecycle_state r \<noteq> Claimed then throw LeaseInactive
              else ret (l, \<lparr>mi_id = pr_id r, mi_provider_type = pr_provider_type r,
                            mi_primary_email = pr_primary_email r, mi_status = MbActive\<rparr>))"
  have "?rest k s = (Inr (l, mi), t) \<longleftrightarrow> t = s \<and> l = k \<and> lease_holder k s = Some mi" for k
  proof (cases "present (ls_mailbox_id k)")
    case True
    then show ?thesis by (cases "mailbox_row (the (ls_mailbox_id k)) s") (auto simp: lease_holder_def returns)
  next
    case False
    then show ?thesis
      by (cases "resource_row (the (ls_provider_resource_id k)) s") (auto simp: lease_holder_def returns)
  qed
  then show ?thesis
    unfolding load_active_mail_read_lease_def andthen_Inr_iff bnd_Inr_iff require_scope_def require_Inr_iff load_owned_Inr
    by (auto simp: read_scope_def)
qed

text \<open>
  C30. The checkpoint of the poll and the lease service agree although they are written twice: in a
  database that respects its keys, the checkpoint admits a caller exactly if the stored key permits
  the read and \<open>load_active_mail_read_lease\<close> would hand out the lease now, and both name the same mailbox
  and address.
\<close>

theorem checkpoint_agrees_with_lease_service:
  assumes "constraints s"
  shows "(\<exists>t. revalidate_verification_authorization now p i s = (Inr auth, t)) \<longleftrightarrow>
    key_permits now p s \<and> (\<exists>l mi t. load_active_mail_read_lease now p i s = (Inr (l, mi), t)
      \<and> auth = \<lparr>la_lease_id = i, la_mailbox_id = mi_id mi, la_client_key_id = client_key_id p,
          la_primary_email = mi_primary_email mi, la_allocated_email = allocated_or l (mi_primary_email mi)\<rparr>)"
proof -
  have id: "lease_row i s = Some l \<Longrightarrow> ls_id l = i" for l by (auto simp: lease_row_def dest: row_by_Some)
  have "distinct (map ls_id (leases s))" using assms by (simp add: constraints_def)
  note owned = owned_lease_row [OF this]
  show ?thesis
    unfolding revalidate_verification_authorization_def andthen_Inr_iff bnd_Inr_iff check_client_key_Inr check_lease_Inr
      load_active_Inr owned check_mailbox_Inr
    by (auto simp: id)
qed

subsection \<open>A reader with a live lease\<close>

definition reader_key :: client_key where
  "reader_key = \<lparr>ck_id = ''k'', ck_name = ''reader'', ck_secret_digest = ''d'', ck_scopes = [read_scope], ck_enabled = True,
     ck_expires_at = None, ck_last_used_at = None, ck_created_at = 0, ck_updated_at = 0\<rparr>"

definition reader :: principal where
  "reader = \<lparr>client_key_id = ''k'', principal_name = ''reader'', scopes = [read_scope]\<rparr>"

definition read_resource :: "string \<Rightarrow> provider_resource" where
  "read_resource t = \<lparr>pr_id = ''r'', pr_provider_type = t, pr_provider_instance_id = ''default'', pr_external_resource_id = ''x'',
     pr_primary_email = ''a@b.c'', pr_lifecycle_state = Claimed, pr_readiness = Ready, pr_state_version = 1,
     pr_resource_generation = 1, pr_encrypted_secret = None, pr_metadata_json = None, pr_last_verification_code = None,
     pr_last_code_checked_at = None, pr_last_code_message_id = None, pr_created_at = 0, pr_updated_at = 0\<rparr>"

definition read_lease :: "string \<Rightarrow> lease" where
  "read_lease t = \<lparr>ls_id = ''l'', ls_mailbox_id = None, ls_provider_resource_id = Some ''r'', ls_client_key_id = Some ''k'',
     ls_client_tag = None, ls_purpose = None, ls_allocated_email = Some ''a@b.c'', ls_mode = MailRead, ls_provider_type = t,
     ls_provider_instance_id = None, ls_provider_config_revision = None, ls_expires_at = 100, ls_released_at = None, ls_created_at = 0\<rparr>"

definition reading_db :: "string \<Rightarrow> db" where
  "reading_db t = empty_db\<lparr>client_keys := [reader_key], leases := [read_lease t], resources := [read_resource t]\<rparr>"

theorem checkpoint_agrees_with_lease_service_witness:
  "(\<exists>t. revalidate_verification_authorization 1 reader ''l'' (reading_db ''duckmail'')
      = (Inr \<lparr>la_lease_id = ''l'', la_mailbox_id = ''r'', la_client_key_id = ''k'', la_primary_email = ''a@b.c'',
              la_allocated_email = Some ''a@b.c''\<rparr>, t))
   \<and> constraints (reading_db ''duckmail'')"
proof -
  have c: "constraints (reading_db ''duckmail'')" by (simp add: constraints_def reading_db_def empty_db_def)
  have "key_permits 1 reader (reading_db ''duckmail'')"
    by (simp add: key_permits_def reading_db_def reader_def reader_key_def key_row_def row_by_def)
  moreover have "load_active_mail_read_lease 1 reader ''l'' (reading_db ''duckmail'')
      = (Inr (read_lease ''duckmail'', \<lparr>mi_id = ''r'', mi_provider_type = ''duckmail'', mi_primary_email = ''a@b.c'', mi_status = MbActive\<rparr>),
         reading_db ''duckmail'')"
    by code_simp
  ultimately show ?thesis
    using c by (simp add: checkpoint_agrees_with_lease_service reader_def allocated_or_def read_lease_def present_def)
qed

end
