(* ===== verification/CodePoll.thy ===== *)
theory CodePoll
  imports MailReader VerificationAuth
begin

text \<open>
  Waiting for a verification code (\<open>VerificationCodeService.wait_for_verification_code\<close>): the scan of the
  messages under byte budgets, and the three polling loops - Microsoft mailboxes, the direct codes of
  SMSBower and the on-demand providers. The loops share their tail (deadline, sleep), which is
  \<open>poll_rounds\<close> here; a step says what one round does. \<open>pe_clock env r k\<close> is the \<open>k\<close>-th clock reading of
  round \<open>r\<close> (round 0: before the loop) and \<open>pe_others env r k\<close> what other requests commit at the \<open>k\<close>-th
  gap of round \<open>r\<close>: no transaction is open while the loop waits for the network or sleeps. The loop
  gets fuel, one unit per round; \<open>None\<close> means that it is still polling.
\<close>

subsection \<open>Options, results, errors\<close>

record lookup_options =
  lo_timeout_seconds :: int
  lo_since_seconds :: int
  lo_poll_interval_seconds :: int
  lo_from_address :: "string option"
  lo_subject_contains :: "string option"
  lo_body_contains :: "string option"
  lo_code_regex :: "string option"
  lo_recipient :: "string option"
  lo_require_recipient_match :: bool

record lookup_result =
  lr_found :: bool
  lr_code :: "string option"
  lr_matched_from :: "string option"
  lr_matched_subject :: "string option"
  lr_received_at :: "time option"
  lr_channel :: "channel option"
  lr_attempts :: nat

datatype poll_error =
    PollDenied poll_denial
  | UnsupportedFilter
  | PatternRefused matcher_error
  | InboxUnreachable failure     \<comment> \<open>\<open>VerificationCodeReadError\<close> raised from the last failure\<close>
  | NotClaimable
  | NotConfigured
  | RemoteFailure

definition code_not_found :: "nat \<Rightarrow> lookup_result" where
  "code_not_found attempts = \<lparr>lr_found = False, lr_code = None, lr_matched_from = None, lr_matched_subject = None,
     lr_received_at = None, lr_channel = None, lr_attempts = attempts\<rparr>"

definition direct_code :: "string \<Rightarrow> nat \<Rightarrow> lookup_result" where
  "direct_code c attempts = (code_not_found attempts)\<lparr>lr_found := True, lr_code := Some c\<rparr>"

definition matched_code :: "string \<Rightarrow> inbox_message \<Rightarrow> nat \<Rightarrow> lookup_result" where
  "matched_code c m attempts = \<lparr>lr_found = True, lr_code = Some c, lr_matched_from = im_from m,
     lr_matched_subject = im_subject m, lr_received_at = im_received_at m, lr_channel = Some (im_channel m), lr_attempts = attempts\<rparr>"

subsection \<open>Searching the messages of one scan\<close>

definition filter_text :: "string option \<Rightarrow> string" where
  \<comment> \<open>\<open>(value or "").strip().lower()\<close>\<close>
  "filter_text v = strip_lower (or_text v [])"

definition passes_filter :: "string \<Rightarrow> string \<Rightarrow> bool" where
  "passes_filter wanted value \<longleftrightarrow> wanted = [] \<or> contains (lower_str value) wanted"

definition message_wanted :: "lookup_options \<Rightarrow> string option \<Rightarrow> string \<Rightarrow> inbox_message \<Rightarrow> bool" where
  "message_wanted opts recipient body m \<longleftrightarrow>
     (lo_require_recipient_match opts \<longrightarrow> present recipient \<and> the recipient \<in> set (im_recipients m))
     \<and> passes_filter (filter_text (lo_from_address opts)) (or_text (im_from m) [])
     \<and> passes_filter (filter_text (lo_subject_contains opts)) (or_text (im_subject m) [])
     \<and> passes_filter (filter_text (lo_body_contains opts)) body"

definition message_body :: "inbox_message \<Rightarrow> string" where
  "message_body m = truncate_text_to_byte_budget (im_body m) max_message_body_bytes"

definition message_bytes :: "inbox_message \<Rightarrow> int" where
  "message_bytes m = int (length (utf8 (message_body m)))"

definition code_of_message :: "lookup_options \<Rightarrow> pattern_options option \<Rightarrow> string option \<Rightarrow> inbox_message \<Rightarrow> string option" where
  "code_of_message opts custom recipient m =
     (if message_wanted opts recipient (message_body m) m
      then extract_verification_code custom (or_text (im_subject m) []) (message_body m) else None)"

fun find_code_from ::
    "lookup_options \<Rightarrow> pattern_options option \<Rightarrow> string option \<Rightarrow> int \<Rightarrow> int \<Rightarrow> bool \<Rightarrow> inbox_message list
       \<Rightarrow> (string \<times> inbox_message) option \<times> int \<times> bool" where
  \<comment> \<open>remaining request budget, bytes of this scan, whether the request budget is exhausted\<close>
  "find_code_from opts custom recipient remaining consumed exhausted [] = (None, consumed, exhausted)"
| "find_code_from opts custom recipient remaining consumed exhausted (m # ms) =
     (if min max_scan_body_bytes (max 0 remaining) < consumed + message_bytes m
      then (None, consumed, remaining - consumed \<le> message_bytes m \<or> max_scan_body_bytes \<le> consumed)
      else case code_of_message opts custom recipient m of
          Some c \<Rightarrow> (Some (c, m), consumed + message_bytes m, False)
        | None \<Rightarrow> find_code_from opts custom recipient remaining (consumed + message_bytes m) exhausted ms)"

definition find_code_in_messages ::
    "lookup_options \<Rightarrow> pattern_options option \<Rightarrow> string option \<Rightarrow> int \<Rightarrow> inbox_message list
       \<Rightarrow> (string \<times> inbox_message) option \<times> int \<times> bool" where
  "find_code_in_messages opts custom recipient remaining ms =
     find_code_from opts custom recipient remaining 0 (remaining \<le> 0) ms"

subsection \<open>The last code of a mailbox\<close>

definition cached_on_provider :: "string \<Rightarrow> bool" where
  "cached_on_provider provider_type \<longleftrightarrow> provider_type \<in> set on_demand_provider_types \<or> provider_type = ''smsbower_gmail''"

definition persist_last_verification_code :: "string \<Rightarrow> string \<Rightarrow> string option \<Rightarrow> time \<Rightarrow> (db, 'e, unit) action" where
  \<comment> \<open>\<open>_persist_last_verification_code\<close>: a session of its own, failures are swallowed\<close>
  "persist_last_verification_code provider_type i found now =
     modify (\<lambda>s.
       if cached_on_provider provider_type then
         (case resource_row i s of None \<Rightarrow> s
          | Some r \<Rightarrow> write_resource (r\<lparr>pr_last_verification_code := (case found of None \<Rightarrow> pr_last_verification_code r | Some c \<Rightarrow> Some (take 32 c)),
                         pr_last_code_checked_at := Some now, pr_updated_at := now\<rparr>) s)
       else
         (case mailbox_row i s of None \<Rightarrow> s
          | Some m \<Rightarrow> write_mailbox (m\<lparr>mb_last_verification_code := (case found of None \<Rightarrow> mb_last_verification_code m | Some c \<Rightarrow> Some (take 32 c)),
                         mb_last_code_checked_at := Some now, mb_updated_at := now\<rparr>) s))"

subsection \<open>The loop\<close>

record poll_env =
  pe_clock :: "nat \<Rightarrow> nat \<Rightarrow> time"
  pe_others :: "nat \<Rightarrow> nat \<Rightarrow> db \<Rightarrow> db"
  pe_checkpoint :: "nat \<Rightarrow> nat \<Rightarrow> (db, poll_denial, unit) action"

definition meanwhile :: "poll_env \<Rightarrow> nat \<Rightarrow> nat \<Rightarrow> (db, 'e, unit) action" where
  "meanwhile env r k = modify (pe_others env r k)"

definition checkpoint :: "poll_env \<Rightarrow> nat \<Rightarrow> nat \<Rightarrow> (db, poll_error, unit) action" where
  "checkpoint env r k = lift_error PollDenied (pe_checkpoint env r k)"

definition poll_deadline :: "poll_env \<Rightarrow> lookup_options \<Rightarrow> time" where
  "poll_deadline env opts = pe_clock env 0 0 + secs (max (lo_timeout_seconds opts) 0)"

definition poll_since :: "poll_env \<Rightarrow> lookup_options \<Rightarrow> time" where
  "poll_since env opts = pe_clock env 0 1 - secs (max (lo_since_seconds opts) 0)"

definition poll_sleep :: "poll_env \<Rightarrow> lookup_options \<Rightarrow> nat \<Rightarrow> int" where
  \<comment> \<open>in microseconds, from the second clock reading of the tail\<close>
  "poll_sleep env opts r = min (secs (max (lo_poll_interval_seconds opts) 1)) (max (poll_deadline env opts - pe_clock env r 1) 0)"

definition poll_over :: "poll_env \<Rightarrow> lookup_options \<Rightarrow> nat \<Rightarrow> bool" where
  "poll_over env opts r \<longleftrightarrow> poll_deadline env opts \<le> pe_clock env r 0 \<or> poll_sleep env opts r \<le> 0"

type_synonym 'st poll_step = "nat \<Rightarrow> 'st \<Rightarrow> (db, poll_error, lookup_result + 'st) action"

fun poll_rounds ::
    "poll_env \<Rightarrow> lookup_options \<Rightarrow> 'st poll_step \<Rightarrow> (nat \<Rightarrow> 'st \<Rightarrow> (db, poll_error, lookup_result) action)
       \<Rightarrow> nat \<Rightarrow> nat \<Rightarrow> 'st \<Rightarrow> (db, poll_error, lookup_result option) action" where
  "poll_rounds env opts step finish 0 r st = ret None"
| "poll_rounds env opts step finish (Suc fuel) r st =
     bnd (step r st) (\<lambda>x. case x of
       Inl res \<Rightarrow> ret (Some res)
     | Inr st' \<Rightarrow>
         if poll_over env opts r then bnd (finish r st') (\<lambda>res. ret (Some res))
         else andthen (meanwhile env r 0) (poll_rounds env opts step finish fuel (Suc r) st'))"

subsection \<open>Microsoft mailboxes\<close>

definition resolve_channel_order :: "mailbox_capability option \<Rightarrow> channel list" where
  "resolve_channel_order capability =
     (if capability = Some CapImap then [IMAP] else if capability = Some CapGraph then [GRAPH] else [IMAP, GRAPH])"

record scan_state =
  ss_last_error :: "failure option"
  ss_any_scan_succeeded :: bool
  ss_bytes_consumed :: int

definition attempt :: "('s, 'e, 'a) action \<Rightarrow> ('s, 'f, 'e + 'a) action" where
  \<comment> \<open>\<open>try: ... except Exception\<close>, the outcome as a value\<close>
  "attempt m = (\<lambda>s. case m s of (r, t) \<Rightarrow> (Inr r, t))"

definition remaining_request_budget :: "scan_state \<Rightarrow> int" where
  "remaining_request_budget st = max 0 (max_request_body_bytes - ss_bytes_consumed st)"

definition search_listing ::
    "poll_env \<Rightarrow> lookup_options \<Rightarrow> pattern_options option \<Rightarrow> string option \<Rightarrow> mailbox \<Rightarrow> nat \<Rightarrow> scan_state
       \<Rightarrow> inbox_message list \<Rightarrow> (db, poll_error, lookup_result + scan_state) action" where
  "search_listing env opts custom recipient m r st ms =
     (case find_code_in_messages opts custom recipient (remaining_request_budget st) ms of
        (found, used, exhausted) \<Rightarrow>
          (case found of
             Some (c, msg) \<Rightarrow>
               andthen (meanwhile env r 2)
              (andthen (checkpoint env r 1)
              (andthen (persist_last_verification_code (mb_provider_type m) (mb_id m) (Some c) (pe_clock env r 2))
                 (ret (Inl (matched_code c msg r)))))
           | None \<Rightarrow>
               if exhausted then ret (Inl (code_not_found r))
               else ret (Inr (st\<lparr>ss_any_scan_succeeded := True, ss_bytes_consumed := ss_bytes_consumed st + used\<rparr>))))"

definition scan_channel ::
    "poll_env \<Rightarrow> lookup_options \<Rightarrow> pattern_options option \<Rightarrow> string option \<Rightarrow> mailbox
       \<Rightarrow> (nat \<Rightarrow> channel \<Rightarrow> (db, failure, inbox_message list) action) \<Rightarrow> nat \<Rightarrow> channel \<Rightarrow> scan_state
       \<Rightarrow> (db, poll_error, lookup_result + scan_state) action" where
  \<comment> \<open>a failed listing is remembered and the next channel is tried\<close>
  "scan_channel env opts custom recipient m listing r ch st =
     andthen (meanwhile env r 1)
    (bnd (attempt (listing r ch)) (\<lambda>outcome. case outcome of
       Inl e \<Rightarrow> ret (Inr (st\<lparr>ss_last_error := Some e\<rparr>))
     | Inr ms \<Rightarrow> search_listing env opts custom recipient m r st ms))"

fun scan_channels ::
    "(channel \<Rightarrow> scan_state \<Rightarrow> (db, poll_error, lookup_result + scan_state) action) \<Rightarrow> channel list \<Rightarrow> scan_state
       \<Rightarrow> (db, poll_error, lookup_result + scan_state) action" where
  "scan_channels scan [] st = ret (Inr st)"
| "scan_channels scan (ch # chs) st =
     bnd (scan ch st) (\<lambda>x. case x of Inl res \<Rightarrow> ret (Inl res) | Inr st' \<Rightarrow> scan_channels scan chs st')"

definition microsoft_step ::
    "poll_env \<Rightarrow> lookup_options \<Rightarrow> pattern_options option \<Rightarrow> string option \<Rightarrow> mailbox
       \<Rightarrow> (nat \<Rightarrow> channel \<Rightarrow> (db, failure, inbox_message list) action) \<Rightarrow> scan_state poll_step" where
  "microsoft_step env opts custom recipient m listing r st =
     andthen (checkpoint env r 0)
       (scan_channels (scan_channel env opts custom recipient m listing r) (resolve_channel_order (mb_capability m)) st)"

definition microsoft_finish :: "nat \<Rightarrow> scan_state \<Rightarrow> (db, poll_error, lookup_result) action" where
  "microsoft_finish r st =
     (case ss_last_error st of
        Some e \<Rightarrow> if ss_any_scan_succeeded st then ret (code_not_found r) else throw (InboxUnreachable e)
      | None \<Rightarrow> ret (code_not_found r))"

definition no_scan :: scan_state where
  "no_scan = \<lparr>ss_last_error = None, ss_any_scan_succeeded = False, ss_bytes_consumed = 0\<rparr>"

definition wait_for_microsoft_code ::
    "poll_env \<Rightarrow> nat \<Rightarrow> lookup_options \<Rightarrow> pattern_options option \<Rightarrow> mailbox
       \<Rightarrow> (nat \<Rightarrow> channel \<Rightarrow> time \<Rightarrow> (db, failure, inbox_message list) action) \<Rightarrow> (db, poll_error, lookup_result option) action" where
  "wait_for_microsoft_code env fuel opts custom m listing =
     (let recipient = normalize_email_address (Some (or_text (lo_recipient opts) (mb_primary_email m)));
          since_at = poll_since env opts
      in poll_rounds env opts (microsoft_step env opts custom recipient m (\<lambda>r ch. listing r ch since_at))
           microsoft_finish fuel 1 no_scan)"

end
