(* ===== verification/MailNormalize.thy ===== *)
theory MailNormalize
  imports MailText
begin

text \<open>
  The shapes providers exchange with the service (\<open>providers/ports.py\<close>) and the normalization of
  their heterogeneous messages (\<open>mail_message_normalize.py\<close>). A provider's payload is a \<open>json\<close> value.
  \<open>str\<close> of a value that is no string, and the parsing of date texts and of fractional timestamps, are
  the standard library's and parameters; a timestamp beyond the year 9999, which raises, is outside.
\<close>

subsection \<open>Ports\<close>

record inbox_evidence =
  ev_from :: "string option"
  ev_subject :: "string option"
  ev_body_text :: "string option"
  ev_received_at :: "time option"
  ev_recipients :: "string list"
  ev_direct_code :: "string option"

record evidence =
  ve_messages :: "inbox_evidence list"
  ve_direct_code :: "string option"
  ve_read_method :: string

record evidence_query =
  vq_from_address :: "string option"
  vq_subject_contains :: "string option"
  vq_body_contains :: "string option"
  vq_recipient :: "string option"
  vq_newer_than :: "time option"
  vq_max_messages :: int

record allocation =
  va_lease_id :: string
  va_mailbox_id :: string
  va_provider_type :: string
  va_provider_instance_id :: "string option"
  va_primary_email :: string
  va_allocated_email :: "string option"
  va_access_context :: "(string \<times> string) list"

subsection \<open>Reading a message\<close>

record py_lib =
  pl_str :: "json \<Rightarrow> string"               \<comment> \<open>\<open>str(v)\<close> of a value that is no string\<close>
  pl_date :: "string \<Rightarrow> time option"         \<comment> \<open>ISO or RFC 2822, \<open>None\<close> where both parsers refuse\<close>
  pl_timestamp :: "real \<Rightarrow> time option"

definition py_str :: "py_lib \<Rightarrow> json \<Rightarrow> string" where
  "py_str lib v = (case v of JStr s \<Rightarrow> s | _ \<Rightarrow> pl_str lib v)"

definition dicts_of :: "json list \<Rightarrow> json list" where
  "dicts_of = filter is_dict"

definition jor :: "json list \<Rightarrow> json" where
  \<comment> \<open>\<open>a or b or ... or z\<close>: the first truthy value, or else the last one\<close>
  "jor vs = first_truthy (butlast vs) (last vs)"

definition list_container_keys :: "string list" where
  "list_container_keys = [''hydra:member'', ''member'', ''items'', ''messages'', ''data'', ''mails'', ''results'', ''emails'']"

fun find_container :: "json \<Rightarrow> string list \<Rightarrow> json list" where
  "find_container payload [] = []"
| "find_container payload (k # ks) =
     (case jget payload k of
        JArr xs \<Rightarrow> dicts_of xs
      | JObj kvs \<Rightarrow>
          (case jor [jget (JObj kvs) ''messages'', jget (JObj kvs) ''items'', jget (JObj kvs) ''emails''] of
             JArr xs \<Rightarrow> dicts_of xs | _ \<Rightarrow> find_container payload ks)
      | _ \<Rightarrow> find_container payload ks)"

definition extract_message_list :: "json \<Rightarrow> json list" where
  "extract_message_list payload =
     (case payload of JArr xs \<Rightarrow> dicts_of xs | JObj _ \<Rightarrow> find_container payload list_container_keys | _ \<Rightarrow> [])"

definition joined_lines :: "py_lib \<Rightarrow> json \<Rightarrow> string" where
  \<comment> \<open>a list becomes its parts on lines, another value its \<open>str\<close>\<close>
  "joined_lines lib v = (case v of JArr xs \<Rightarrow> join_with [newline] (map (py_str lib) xs) | _ \<Rightarrow> py_str lib v)"

fun first_string :: "py_lib \<Rightarrow> json \<Rightarrow> string list \<Rightarrow> string" where
  "first_string lib raw [] = []"
| "first_string lib raw (k # ks) =
     (if jget raw k = JNull \<or> jget raw k = JStr [] then first_string lib raw ks else joined_lines lib (jget raw k))"

definition sender_fields :: "py_lib \<Rightarrow> json \<Rightarrow> string \<times> string" where
  "sender_fields lib raw =
     (let sender = jor (map (jget raw) [''from'', ''fromAddr'', ''from_address'', ''sender'', ''mail_from'', ''sendEmail''] @ [JStr []]) in
      if is_dict sender then
        (let address = strip (py_str lib (jor [jget sender ''address'', jget sender ''email'', JStr []]));
             name = strip (py_str lib (jor [jget sender ''name'', JStr []]))
         in (address, if name \<noteq> [] \<and> address \<noteq> [] then strip (name @ '' <'' @ address @ ''>'') else if address \<noteq> [] then address else name))
      else (strip (py_str lib sender), strip (py_str lib sender)))"

definition parse_received_at :: "py_lib \<Rightarrow> json \<Rightarrow> time option" where
  \<comment> \<open>milliseconds above 10^12, seconds below; a bool is an int\<close>
  "parse_received_at lib v =
     (case v of
        JNull \<Rightarrow> None
      | JInt n \<Rightarrow> Some (if 1000000000000 < n then n * 1000 else secs n)
      | JBool b \<Rightarrow> Some (secs (if b then 1 else 0))
      | JReal x \<Rightarrow> pl_timestamp lib (if 1000000000000 < x then x / 1000 else x)
      | _ \<Rightarrow> if strip (py_str lib v) = [] then None else pl_date lib (strip (py_str lib v)))"

record normalized_message =
  nm_message_id :: "string option"
  nm_from_address :: "string option"
  nm_from_display :: "string option"
  nm_subject :: "string option"
  nm_text :: string
  nm_html :: string
  nm_received_at :: "time option"

definition opt_text :: "string \<Rightarrow> string option" where
  \<comment> \<open>\<open>value or None\<close>\<close>
  "opt_text s = (if s = [] then None else Some s)"

definition message_text :: "string \<Rightarrow> string \<Rightarrow> string" where
  \<comment> \<open>the text part, or else what is visible of the HTML part\<close>
  "message_text tx html =
     (let raw = (if tx = [] \<and> html \<noteq> [] then html_to_visible_text html else tx);
          clean = sanitize_mail_text raw;
          from_html = sanitize_mail_text (html_to_visible_text html)
      in if html \<noteq> [] \<and> from_html \<noteq> [] \<and> clean = [] then from_html else clean)"

definition normalize_raw_message :: "py_lib \<Rightarrow> json \<Rightarrow> normalized_message" where
  "normalize_raw_message lib raw =
     (let tx = first_string lib raw [''text'', ''textBody'', ''body_text'', ''text_content'', ''intro'', ''preview'', ''content'', ''body''];
          html = joined_lines lib (jor (map (jget raw) [''html'', ''htmlBody'', ''body_html'', ''html_content''] @ [JStr []]))
      in \<lparr>nm_message_id = opt_text (first_string lib raw [''id'', ''messageId'', ''@id'', ''msgid'']),
          nm_from_address = opt_text (fst (sender_fields lib raw)), nm_from_display = opt_text (snd (sender_fields lib raw)),
          nm_subject = opt_text (first_string lib raw [''subject'', ''title'']),
          nm_text = message_text tx html, nm_html = html,
          nm_received_at = parse_received_at lib (jor (map (jget raw)
            [''createdAt'', ''created_at'', ''receivedAt'', ''date'', ''time'', ''timestamp'', ''createTime'']))\<rparr>)"

definition recipient_entry :: "py_lib \<Rightarrow> json \<Rightarrow> string option" where
  "recipient_entry lib entry =
     (case entry of
        JStr s \<Rightarrow> if strip s \<noteq> [] then Some (strip_lower s) else None
      | JObj kvs \<Rightarrow> (let email = jor [jget entry ''address'', jget entry ''email''] in
          if truthy email then Some (strip_lower (py_str lib email)) else None)
      | _ \<Rightarrow> None)"

definition recipient_field :: "py_lib \<Rightarrow> json \<Rightarrow> string list" where
  "recipient_field lib v =
     (case v of
        JStr s \<Rightarrow> if strip s \<noteq> [] then [strip_lower s] else []
      | JArr es \<Rightarrow> List.map_filter (recipient_entry lib) es
      | _ \<Rightarrow> [])"

definition collect_recipient_addresses :: "py_lib \<Rightarrow> string \<Rightarrow> json \<Rightarrow> string list" where
  "collect_recipient_addresses lib default_recipient raw =
     (if strip default_recipient \<noteq> [] then [strip_lower default_recipient] else [])
     @ concat (map (\<lambda>k. recipient_field lib (jget raw k)) [''to'', ''toEmail'', ''mailTo'', ''recipient'', ''recipients''])"

definition message_dict_to_evidence :: "py_lib \<Rightarrow> string \<Rightarrow> json \<Rightarrow> inbox_evidence" where
  "message_dict_to_evidence lib address item =
     (let m = normalize_raw_message lib item in
      \<lparr>ev_from = nm_from_address m, ev_subject = nm_subject m, ev_body_text = opt_text (nm_text m),
       ev_received_at = nm_received_at m, ev_recipients = collect_recipient_addresses lib address item, ev_direct_code = None\<rparr>)"

end
