(* ===== verification/OnDemand.thy ===== *)
theory OnDemand
  imports MailNormalize Catalog CapabilityProbe
begin

text \<open>
  The on-demand mailbox providers (\<open>providers/ondemand_adapters.py\<close>, \<open>ondemand_facade.py\<close>): for every
  provider how a mailbox is opened and how its messages are fetched and filtered. An adapter is an
  operation whose state is the number of requests it has made; \<open>oe_http\<close> answers the \<open>n\<close>-th request,
  \<open>None\<close> where the JSON client raises \<open>ProviderHttpError\<close>. Random choices are parameters.
\<close>

datatype od_error =
    OdProvider string     \<comment> \<open>\<open>OnDemandProviderError\<close>\<close>
  | OdHttp                \<comment> \<open>\<open>ProviderHttpError\<close>\<close>
  | OdPython              \<comment> \<open>a \<open>TypeError\<close>, \<open>ValueError\<close> or \<open>AttributeError\<close> on an unexpected payload\<close>

record od_request =
  rq_method :: string
  rq_url :: string
  rq_headers :: "(string \<times> string) list"
  rq_params :: "(string \<times> json) list"
  rq_body :: "json option"
  rq_expected :: "int list"

record od_env =
  oe_lib :: py_lib
  oe_http :: "nat \<Rightarrow> od_request \<Rightarrow> json option"
  oe_pick :: "string list \<Rightarrow> string"        \<comment> \<open>\<open>random.choice\<close>\<close>
  oe_random :: "nat \<Rightarrow> string"              \<comment> \<open>\<open>_random_local_part(length)\<close>\<close>
  oe_password :: string
  oe_int :: "json \<Rightarrow> int option"            \<comment> \<open>\<open>int(v)\<close>, \<open>None\<close> where it raises\<close>

record od_runtime =
  rt_provider_type :: string
  rt_instance_id :: string
  rt_enabled :: bool
  rt_values :: "(string \<times> json) list"
  rt_secrets :: "(string \<times> string) list"
  rt_timeout_seconds :: real

record od_result =
  or_address :: string
  or_external_resource_id :: string
  or_secret_payload :: "(string \<times> string) list"
  or_metadata :: "(string \<times> string) list"

type_synonym 'a adapter = "(nat, od_error, 'a) action"

subsection \<open>Shared helpers\<close>

definition request_json :: "od_env \<Rightarrow> od_request \<Rightarrow> json adapter" where
  "request_json env q = (\<lambda>n. case oe_http env n q of None \<Rightarrow> (Inl OdHttp, Suc n) | Some v \<Rightarrow> (Inr v, Suc n))"

definition default_expected :: "int list" where "default_expected = [200, 201, 204]"

definition http_get :: "od_env \<Rightarrow> string \<Rightarrow> (string \<times> string) list \<Rightarrow> (string \<times> json) list \<Rightarrow> json adapter" where
  "http_get env url headers params = request_json env \<lparr>rq_method = ''GET'', rq_url = url, rq_headers = headers,
     rq_params = params, rq_body = None, rq_expected = default_expected\<rparr>"

definition http_post :: "od_env \<Rightarrow> string \<Rightarrow> (string \<times> string) list \<Rightarrow> json option \<Rightarrow> int list \<Rightarrow> json adapter" where
  "http_post env url headers body expected = request_json env \<lparr>rq_method = ''POST'', rq_url = url, rq_headers = headers,
     rq_params = [], rq_body = body, rq_expected = expected\<rparr>"

fun split_on :: "(char \<Rightarrow> bool) \<Rightarrow> string \<Rightarrow> string \<Rightarrow> string list" where
  \<comment> \<open>\<open>re.split\<close> at every character of a class\<close>
  "split_on P cur [] = [cur]"
| "split_on P cur (c # s) = (if P c then cur # split_on P [] s else split_on P (cur @ [c]) s)"

definition nonblank :: "string list \<Rightarrow> string list" where
  \<comment> \<open>\<open>[part.strip() for part in parts if part.strip()]\<close>\<close>
  "nonblank parts = filter (\<lambda>p. p \<noteq> []) (map strip parts)"

definition rstrip_slash :: "string \<Rightarrow> string" where
  "rstrip_slash s = rev (dropWhile (\<lambda>c. c = CHR ''/'') (rev s))"

definition lookup :: "(string \<times> string) list \<Rightarrow> string \<Rightarrow> string" where
  \<comment> \<open>\<open>d.get(key) or ""\<close>\<close>
  "lookup kvs k = (case map_of kvs k of None \<Rightarrow> [] | Some v \<Rightarrow> v)"

definition rt_value :: "od_runtime \<Rightarrow> string \<Rightarrow> json \<Rightarrow> json" where
  \<comment> \<open>\<open>_value\<close>\<close>
  "rt_value rt k dflt = (case map_of (rt_values rt) k of None \<Rightarrow> dflt | Some v \<Rightarrow> if v = JNull \<or> v = JStr [] then dflt else v)"

definition value_text :: "od_env \<Rightarrow> od_runtime \<Rightarrow> string \<Rightarrow> string \<Rightarrow> string" where
  \<comment> \<open>\<open>str(self._value(key) or default)\<close>\<close>
  "value_text env rt k dflt = py_str (oe_lib env) (jor [rt_value rt k JNull, JStr dflt])"

definition require_secret :: "od_runtime \<Rightarrow> string \<Rightarrow> string adapter" where
  "require_secret rt k =
     (let v = strip (lookup (rt_secrets rt) k)
      in if v = [] then throw (OdProvider (rt_provider_type rt @ '' missing secret: '' @ k)) else ret v)"

definition string_list :: "od_env \<Rightarrow> od_runtime \<Rightarrow> string \<Rightarrow> string list" where
  "string_list env rt k =
     (case rt_value rt k (JArr []) of
        JStr s \<Rightarrow> nonblank (split_on (\<lambda>c. c = newline \<or> c = CHR '','') [] s)
      | JArr vs \<Rightarrow> nonblank (map (py_str (oe_lib env)) vs)
      | _ \<Rightarrow> [])"

definition next_domain :: "od_env \<Rightarrow> string list \<Rightarrow> string adapter" where
  "next_domain env domains = (if nonblank domains = [] then throw (OdProvider ''domain list is empty'') else ret (oe_pick env (nonblank domains)))"

definition field_text :: "od_env \<Rightarrow> json \<Rightarrow> string list \<Rightarrow> string" where
  \<comment> \<open>\<open>str(data.get(k1) or data.get(k2) or ... or "").strip()\<close>\<close>
  "field_text env data ks = strip (py_str (oe_lib env) (jor (map (jget data) ks @ [JStr []])))"

definition local_part :: "od_env \<Rightarrow> string option \<Rightarrow> string" where
  "local_part env preferred = or_text preferred (oe_random env 10)"

definition require_dict :: "json \<Rightarrow> string \<Rightarrow> unit adapter" where
  "require_dict v message = require (is_dict v) (OdProvider message)"

definition has_key :: "json \<Rightarrow> string \<Rightarrow> bool" where
  "has_key v k = (case v of JObj kvs \<Rightarrow> map_of kvs k \<noteq> None | _ \<Rightarrow> False)"

definition iter_dicts :: "json \<Rightarrow> json list adapter" where
  \<comment> \<open>\<open>[item for item in (v or []) if isinstance(item, dict)]\<close>; a dict and a string yield strings\<close>
  "iter_dicts v =
     (case v of
        JArr vs \<Rightarrow> ret (dicts_of vs)
      | JObj _ \<Rightarrow> ret [] | JStr _ \<Rightarrow> ret []
      | _ \<Rightarrow> if truthy v then throw OdPython else ret [])"

subsection \<open>Filtering\<close>

definition has_text :: "string option \<Rightarrow> string \<Rightarrow> bool" where
  \<comment> \<open>no filter, or the filter occurs in the value, ignoring case\<close>
  "has_text wanted value = (case wanted of None \<Rightarrow> True | Some w \<Rightarrow> w = [] \<or> contains (lower_str value) (lower_str w))"

definition evidence_wanted :: "evidence_query \<Rightarrow> inbox_evidence \<Rightarrow> bool" where
  "evidence_wanted q m \<longleftrightarrow>
     has_text (vq_from_address q) (or_text (ev_from m) [])
     \<and> has_text (vq_subject_contains q) (or_text (ev_subject m) [])
     \<and> has_text (vq_body_contains q) (or_text (ev_body_text m) [])
     \<and> (case vq_recipient q of None \<Rightarrow> True
        | Some w \<Rightarrow> w = [] \<or> lower_str w \<in> set (ev_recipients m) \<or> contains (lower_str (or_text (ev_body_text m) [])) (lower_str w))
     \<and> \<not> (case (vq_newer_than q, ev_received_at m) of (Some t, Some r) \<Rightarrow> r < t | _ \<Rightarrow> False)"

definition filter_messages :: "inbox_evidence list \<Rightarrow> evidence_query \<Rightarrow> inbox_evidence list" where
  "filter_messages ms q = take (nat (max (vq_max_messages q) 1)) (filter (evidence_wanted q) ms)"

definition evidence_of :: "od_env \<Rightarrow> allocation \<Rightarrow> evidence_query \<Rightarrow> string \<Rightarrow> json list \<Rightarrow> evidence" where
  "evidence_of env a q read_method items =
     \<lparr>ve_messages = filter_messages (map (message_dict_to_evidence (oe_lib env) (va_primary_email a)) items) q,
      ve_direct_code = None, ve_read_method = read_method\<rparr>"

definition fetched :: "od_env \<Rightarrow> allocation \<Rightarrow> evidence_query \<Rightarrow> string \<Rightarrow> json \<Rightarrow> evidence adapter" where
  "fetched env a q read_method items = bnd (iter_dicts items) (\<lambda>ds. ret (evidence_of env a q read_method ds))"

definition ctx :: "allocation \<Rightarrow> string \<Rightarrow> string \<Rightarrow> string" where
  \<comment> \<open>\<open>allocation.access_context.get(key) or default\<close>\<close>
  "ctx a k dflt = (if lookup (va_access_context a) k = [] then dflt else lookup (va_access_context a) k)"

definition ctx_base :: "od_env \<Rightarrow> od_runtime \<Rightarrow> allocation \<Rightarrow> string \<Rightarrow> string" where
  "ctx_base env rt a dflt = rstrip_slash (ctx a ''api_base'' (value_text env rt ''api_base'' dflt))"

definition limit_params :: "(string \<times> json) list" where
  "limit_params = [(''limit'', JInt 20), (''offset'', JInt 0)]"

definition results_of :: "json \<Rightarrow> json" where
  \<comment> \<open>\<open>list(data.get("results") or []) if dict else data if list else []\<close>\<close>
  "results_of data = (case data of JObj _ \<Rightarrow> jor [jget data ''results'', JArr []] | JArr _ \<Rightarrow> data | _ \<Rightarrow> JArr [])"

definition bearer :: "string \<Rightarrow> string \<times> string" where
  "bearer token = (''Authorization'', ''Bearer '' @ token)"

definition json_type :: "string \<times> string" where "json_type = (''Content-Type'', ''application/json'')"
definition accept_json :: "string \<times> string" where "accept_json = (''Accept'', ''application/json'')"

definition mailbox_result :: "string \<Rightarrow> string \<Rightarrow> (string \<times> string) list \<Rightarrow> (string \<times> string) list \<Rightarrow> od_result" where
  "mailbox_result address external secret metadata =
     \<lparr>or_address = address, or_external_resource_id = external, or_secret_payload = secret, or_metadata = metadata\<rparr>"

subsection \<open>Cloudflare temporary mail\<close>

definition cloudflare_provision :: "od_env \<Rightarrow> od_runtime \<Rightarrow> string option \<Rightarrow> od_result adapter" where
  "cloudflare_provision env rt preferred =
     (let api_base = rstrip_slash (value_text env rt ''api_base'' []) in
      andthen (require (api_base \<noteq> []) (OdProvider ''cloudflare_temp_email requires api_base''))
     (bnd (require_secret rt ''admin_password'') (\<lambda>password.
      bnd (next_domain env (string_list env rt ''domain'')) (\<lambda>domain.
      bnd (http_post env (api_base @ ''/admin/new_address'') [json_type, (''x-admin-auth'', password)]
            (Some (JObj [(''enablePrefix'', JBool True), (''name'', JStr (local_part env preferred)), (''domain'', JStr domain)]))
            default_expected) (\<lambda>data.
      andthen (require_dict data ''cloudflare_temp_email invalid create response'')
        (let address = field_text env data [''address'']; token = field_text env data [''jwt''] in
         andthen (require (address \<noteq> [] \<and> token \<noteq> []) (OdProvider ''cloudflare_temp_email missing address or jwt''))
           (ret (mailbox_result (lower_str address) (lower_str address) [(''token'', token), (''api_base'', api_base)] []))))))))"

definition cloudflare_fetch :: "od_env \<Rightarrow> od_runtime \<Rightarrow> allocation \<Rightarrow> evidence_query \<Rightarrow> evidence adapter" where
  "cloudflare_fetch env rt a q =
     (let token = ctx a ''token'' []; api_base = ctx_base env rt a [] in
      andthen (require (token \<noteq> [] \<and> api_base \<noteq> []) (OdProvider ''cloudflare_temp_email missing token/api_base''))
     (bnd (http_get env (api_base @ ''/api/mails'') [bearer token] limit_params) (\<lambda>data.
      fetched env a q ''cloudflare_temp_email'' (results_of data))))"

subsection \<open>TempMail.lol\<close>

definition tempmail_headers :: "od_runtime \<Rightarrow> (string \<times> string) list \<Rightarrow> (string \<times> string) list" where
  "tempmail_headers rt base =
     (let api_key = strip (lookup (rt_secrets rt) ''api_key'') in if api_key = [] then base else base @ [bearer api_key])"

definition given :: "string option \<Rightarrow> bool" where
  "given v \<longleftrightarrow> or_text v [] \<noteq> []"

definition tempmail_payload :: "od_env \<Rightarrow> od_runtime \<Rightarrow> string option \<Rightarrow> (string \<times> json) list" where
  "tempmail_payload env rt preferred =
     (let domains = string_list env rt ''domain'';
          prefix = (if given preferred then [(''prefix'', JStr (or_text preferred []))] else [])
      in if domains = [] then prefix
         else let domain = lower_str (oe_pick env domains) in
           if starts_with domain ''*.'' \<and> 2 < length domain
           then [(''domain'', JStr (oe_random env 8 @ ''.'' @ drop 2 domain)), (''prefix'', JStr (local_part env preferred))]
           else (''domain'', JStr domain) # prefix)"

definition tempmail_provision :: "od_env \<Rightarrow> od_runtime \<Rightarrow> string option \<Rightarrow> od_result adapter" where
  "tempmail_provision env rt preferred =
     (let payload = tempmail_payload env rt preferred in
      bnd (http_post env ''https://api.tempmail.lol/v2/inbox/create'' (tempmail_headers rt [accept_json, json_type])
            (if payload = [] then None else Some (JObj payload)) [200, 201]) (\<lambda>data.
      andthen (require_dict data ''tempmail_lol invalid create response'')
        (let address = lower_str (field_text env data [''address'']); token = field_text env data [''token''] in
         andthen (require (address \<noteq> [] \<and> token \<noteq> []) (OdProvider ''tempmail_lol missing address or token''))
           (ret (mailbox_result address address [(''token'', token)] [])))))"

definition tempmail_fetch :: "od_env \<Rightarrow> od_runtime \<Rightarrow> allocation \<Rightarrow> evidence_query \<Rightarrow> evidence adapter" where
  "tempmail_fetch env rt a q =
     bnd (http_get env ''https://api.tempmail.lol/v2/inbox'' (tempmail_headers rt [accept_json]) [(''token'', JStr (ctx a ''token'' []))]) (\<lambda>data.
     fetched env a q ''tempmail_lol'' (if is_dict data then jor [jget data ''emails'', jget data ''messages'', JArr []] else JArr []))"

subsection \<open>DuckMail\<close>

definition duckmail_provision :: "od_env \<Rightarrow> od_runtime \<Rightarrow> string option \<Rightarrow> od_result adapter" where
  "duckmail_provision env rt preferred =
     bnd (require_secret rt ''api_key'') (\<lambda>api_key.
     (let named = strip (value_text env rt ''default_domain'' ''duckmail.sbs'');
          domain = (if named = [] then ''duckmail.sbs'' else named);
          address = lower_str (local_part env preferred @ ''@'' @ domain);
          payload = JObj [(''address'', JStr address), (''password'', JStr (oe_password env))] in
      bnd (http_post env ''https://api.duckmail.sbs/accounts'' [bearer api_key, json_type] (Some payload) [200, 201, 204]) (\<lambda>_.
      bnd (http_post env ''https://api.duckmail.sbs/token'' [bearer api_key, json_type] (Some payload) [200, 201]) (\<lambda>data.
      (let token = (if is_dict data then field_text env data [''token''] else []) in
       andthen (require (token \<noteq> []) (OdProvider ''duckmail missing token''))
         (ret (mailbox_result address address [(''token'', token), (''password'', oe_password env)] [])))))))"

fun details ::
    "(json \<Rightarrow> string) \<Rightarrow> (string \<Rightarrow> json adapter) \<Rightarrow> (json \<Rightarrow> json \<Rightarrow> json) \<Rightarrow> json list \<Rightarrow> json list adapter" where
  \<comment> \<open>each item's detail by a request of its own, the item itself where that fails; details that are no dict are dropped\<close>
  "details id_of load shape [] = ret []"
| "details id_of load shape (item # items) =
     bnd (if id_of item = [] then ret item
          else catch (load (id_of item)) (\<lambda>e. if e = OdHttp then ret item else throw e)) (\<lambda>detail.
     bnd (details id_of load shape items) (\<lambda>rest.
     ret (if is_dict detail then shape item detail # rest else rest)))"

definition duckmail_id :: "od_env \<Rightarrow> json \<Rightarrow> string" where
  "duckmail_id env item = rx_sub (rx_lit ''/messages/'') [] (py_str (oe_lib env) (jor [jget item ''id'', jget item ''@id'', JStr []]))"

definition duckmail_fetch :: "od_env \<Rightarrow> od_runtime \<Rightarrow> allocation \<Rightarrow> evidence_query \<Rightarrow> evidence adapter" where
  "duckmail_fetch env rt a q =
     (let token = ctx a ''token'' [] in
      bnd (http_get env ''https://api.duckmail.sbs/messages'' [bearer token] [(''page'', JInt 1)]) (\<lambda>data.
      bnd (iter_dicts (case data of JArr _ \<Rightarrow> data
             | JObj _ \<Rightarrow> jor [jget data ''hydra:member'', jget data ''member'', jget data ''data'', JArr []] | _ \<Rightarrow> JArr [])) (\<lambda>items.
      bnd (details (duckmail_id env) (\<lambda>i. http_get env (''https://api.duckmail.sbs/messages/'' @ i) [bearer token] []) (\<lambda>_ d. d) items) (\<lambda>ds.
      ret (evidence_of env a q ''duckmail'' ds)))))"

subsection \<open>GPTMail\<close>

definition unwrapped :: "json \<Rightarrow> json" where
  \<comment> \<open>\<open>data["data"] if isinstance(data, dict) and "data" in data else data\<close>\<close>
  "unwrapped data = (if has_key data ''data'' then jget data ''data'' else data)"

definition gptmail_provision :: "od_env \<Rightarrow> od_runtime \<Rightarrow> string option \<Rightarrow> od_result adapter" where
  "gptmail_provision env rt preferred =
     bnd (require_secret rt ''api_key'') (\<lambda>api_key.
     (let domain = strip (value_text env rt ''default_domain'' []);
          payload = (if given preferred then [(''prefix'', JStr (or_text preferred []))] else [])
            @ (if domain \<noteq> [] then [(''domain'', JStr domain)] else []);
          headers = [(''X-API-Key'', api_key), json_type, accept_json];
          url = ''https://mail.chatgpt.org.uk/api/generate-email'' in
      bnd (if payload = [] then http_get env url headers [] else http_post env url headers (Some (JObj payload)) default_expected) (\<lambda>data.
      andthen (require_dict (unwrapped data) ''gptmail invalid generate response'')
        (let address = lower_str (field_text env (unwrapped data) [''email'']) in
         andthen (require (address \<noteq> []) (OdProvider ''gptmail missing email''))
           (ret (mailbox_result address address [(''api_key'', api_key)] []))))))"

definition gptmail_fetch :: "od_env \<Rightarrow> od_runtime \<Rightarrow> allocation \<Rightarrow> evidence_query \<Rightarrow> evidence adapter" where
  "gptmail_fetch env rt a q =
     bnd (http_get env ''https://mail.chatgpt.org.uk/api/emails''
            [(''X-API-Key'', ctx a ''api_key'' (lookup (rt_secrets rt) ''api_key'')), accept_json] [(''email'', JStr (va_primary_email a))]) (\<lambda>data.
     fetched env a q ''gptmail'' (case unwrapped data of
         JArr vs \<Rightarrow> JArr vs | JObj kvs \<Rightarrow> jor [jget (JObj kvs) ''emails'', JArr []] | _ \<Rightarrow> JArr []))"

subsection \<open>MoeMail\<close>

definition moemail_provision :: "od_env \<Rightarrow> od_runtime \<Rightarrow> string option \<Rightarrow> od_result adapter" where
  "moemail_provision env rt preferred =
     (let api_base = rstrip_slash (value_text env rt ''api_base'' []); domains = string_list env rt ''domain'' in
      bnd (require_secret rt ''api_key'') (\<lambda>api_key.
      andthen (require (api_base \<noteq> []) (OdProvider ''moemail requires api_base''))
     (bnd (case oe_int env (jor [rt_value rt ''expiry_time'' JNull, JInt 0]) of None \<Rightarrow> throw OdPython | Some n \<Rightarrow> ret n) (\<lambda>expiry.
      bnd (if domains = [] then ret [] else bnd (next_domain env domains) (\<lambda>d. ret [(''domain'', JStr d)])) (\<lambda>domain.
      bnd (http_post env (api_base @ ''/api/emails/generate'') [(''X-API-Key'', api_key), json_type]
            (Some (JObj ([(''name'', JStr (local_part env preferred)), (''expiryTime'', JInt expiry)] @ domain))) [200, 201]) (\<lambda>data.
      andthen (require_dict data ''moemail invalid generate response'')
        (let address = lower_str (field_text env data [''email'']); email_id = field_text env data [''id'', ''email_id''] in
         andthen (require (address \<noteq> [] \<and> email_id \<noteq> []) (OdProvider ''moemail missing email or id''))
           (ret (mailbox_result address email_id [(''email_id'', email_id), (''api_base'', api_base), (''api_key'', api_key)] [])))))))))"

definition moemail_fetch :: "od_env \<Rightarrow> od_runtime \<Rightarrow> allocation \<Rightarrow> evidence_query \<Rightarrow> evidence adapter" where
  "moemail_fetch env rt a q =
     (let email_id = ctx a ''email_id'' (lookup (va_access_context a) ''external_resource_id'') in
      bnd (http_get env (ctx_base env rt a [] @ ''/api/emails/'' @ email_id)
             [(''X-API-Key'', ctx a ''api_key'' (lookup (rt_secrets rt) ''api_key''))] []) (\<lambda>data.
      fetched env a q ''moemail'' (if is_dict data then jget data ''messages'' else JArr [])))"

subsection \<open>Inbucket\<close>

definition inbucket_provision :: "od_env \<Rightarrow> od_runtime \<Rightarrow> string option \<Rightarrow> od_result adapter" where
  "inbucket_provision env rt preferred =
     (let api_base = rstrip_slash (value_text env rt ''api_base'' []) in
      andthen (require (api_base \<noteq> []) (OdProvider ''inbucket requires api_base''))
     (bnd (next_domain env (string_list env rt ''domain'')) (\<lambda>base_domain.
      (let domain = (if truthy (rt_value rt ''random_subdomain'' (JBool True)) then oe_random env 8 @ ''.'' @ base_domain else base_domain);
           part = local_part env preferred
       in ret (mailbox_result (lower_str (part @ ''@'' @ domain)) part [(''api_base'', api_base), (''mailbox_name'', part)]
                 [(''base_domain'', base_domain)])))))"

definition inbucket_shape :: "json \<Rightarrow> json \<Rightarrow> json" where
  "inbucket_shape item detail =
     (let body = (if is_dict (jget detail ''body'') then jget detail ''body'' else JObj []) in
      JObj [(''subject'', jor [jget detail ''subject'', jget item ''subject'']),
            (''from'', jor [jget detail ''from'', jget item ''from'']),
            (''text'', jget body ''text''), (''html'', jget body ''html''),
            (''date'', jor [jget detail ''date'', jget item ''date''])])"

definition inbucket_fetch :: "od_env \<Rightarrow> od_runtime \<Rightarrow> allocation \<Rightarrow> evidence_query \<Rightarrow> evidence adapter" where
  "inbucket_fetch env rt a q =
     (let box = ctx_base env rt a [] @ ''/api/v1/mailbox/'' @ ctx a ''mailbox_name'' (before (CHR ''@'') (va_primary_email a)) in
      bnd (http_get env box [] []) (\<lambda>data.
      (let items = (case data of JArr vs \<Rightarrow> dicts_of vs | _ \<Rightarrow> []) in
       bnd (details (\<lambda>item. field_text env item [''id'']) (\<lambda>i. http_get env (box @ ''/'' @ i) [] []) inbucket_shape
              (take (nat (max (vq_max_messages q) 1)) items)) (\<lambda>ds.
       ret (evidence_of env a q ''inbucket'' ds)))))"

subsection \<open>YYDS mail\<close>

definition yyds_base :: string where "yyds_base = ''https://maliapi.215.im/v1''"

definition yyds_provision :: "od_env \<Rightarrow> od_runtime \<Rightarrow> string option \<Rightarrow> od_result adapter" where
  "yyds_provision env rt preferred =
     (let api_base = rstrip_slash (value_text env rt ''api_base'' yyds_base);
          domains = string_list env rt ''domain'';
          subdomain = strip (value_text env rt ''subdomain'' []);
          path = (if truthy (rt_value rt ''wildcard'' JNull) then ''/accounts/wildcard'' else ''/accounts'') in
      bnd (require_secret rt ''api_key'') (\<lambda>api_key.
      bnd (if domains = [] then ret [] else bnd (next_domain env domains) (\<lambda>d. ret [(''domain'', JStr d)])) (\<lambda>domain.
      bnd (http_post env (api_base @ path) [(''X-API-Key'', api_key), json_type]
            (Some (JObj ([(''localPart'', JStr (local_part env preferred))] @ domain
                @ (if subdomain = [] then [] else [(''subdomain'', JStr subdomain)])))) [200, 201]) (\<lambda>data.
      (let body = (if is_dict (jget data ''data'') then jget data ''data'' else data) in
       andthen (require_dict body ''yyds_mail invalid create response'')
         (let address = lower_str (field_text env body [''address'', ''email'']);
              token = field_text env body [''token'', ''temp_token'', ''tempToken'', ''access_token''] in
          andthen (require (address \<noteq> [] \<and> token \<noteq> []) (OdProvider ''yyds_mail missing address or token''))
            (ret (mailbox_result address (py_str (oe_lib env) (jor [jget body ''id'', JStr address]))
                    [(''token'', token), (''api_base'', api_base)] []))))))))"

definition yyds_fetch :: "od_env \<Rightarrow> od_runtime \<Rightarrow> allocation \<Rightarrow> evidence_query \<Rightarrow> evidence adapter" where
  "yyds_fetch env rt a q =
     bnd (http_get env (ctx_base env rt a yyds_base @ ''/messages'') [bearer (ctx a ''token'' [])] [(''address'', JStr (va_primary_email a))]) (\<lambda>data.
     fetched env a q ''yyds_mail'' (case unwrapped data of
         JArr vs \<Rightarrow> JArr vs | JObj kvs \<Rightarrow> jor [jget (JObj kvs) ''items'', jget (JObj kvs) ''messages'', JArr []] | _ \<Rightarrow> JArr []))"

subsection \<open>CloudMail\<close>

definition cloudmail_admin_token :: "od_env \<Rightarrow> od_runtime \<Rightarrow> string adapter" where
  "cloudmail_admin_token env rt =
     (let api_base = rstrip_slash (value_text env rt ''api_base'' []); admin_email = strip (value_text env rt ''admin_email'' []) in
      bnd (require_secret rt ''admin_password'') (\<lambda>password.
      andthen (require (api_base \<noteq> [] \<and> admin_email \<noteq> []) (OdProvider ''cloudmail_gen requires api_base and admin_email''))
     (bnd (http_post env (api_base @ ''/api/public/genToken'') [json_type]
            (Some (JObj [(''email'', JStr admin_email), (''password'', JStr password)])) default_expected) (\<lambda>data.
      (let inner = jor [jget data ''data'', JObj []]; granted = jget data ''code'' \<in> {JInt 200, JReal 200} in
       andthen (require (granted \<longrightarrow> is_dict inner) OdPython)
         (let token = (if granted then field_text env inner [''token''] else []) in
          andthen (require (token \<noteq> []) (OdProvider ''cloudmail_gen genToken failed'')) (ret token)))))))"

definition cloudmail_provision :: "od_env \<Rightarrow> od_runtime \<Rightarrow> string option \<Rightarrow> od_result adapter" where
  "cloudmail_provision env rt preferred =
     (let api_base = rstrip_slash (value_text env rt ''api_base'' []);
          domains = string_list env rt ''domain''; subdomains = string_list env rt ''subdomain'';
          prefix = strip (value_text env rt ''email_prefix'' []);
          part = (if given preferred then or_text preferred []
                  else if prefix \<noteq> [] then prefix @ ''_'' @ oe_random env 6 else oe_random env 10) in
      andthen (require (domains \<noteq> []) (OdProvider ''cloudmail_gen requires domain''))
     (bnd (next_domain env domains) (\<lambda>d.
      (let domain = (if subdomains = [] then d else oe_pick env subdomains @ ''.'' @ d);
           address = lower_str (part @ ''@'' @ domain) in
       bnd (cloudmail_admin_token env rt) (\<lambda>token.
       bnd (http_post env (api_base @ ''/api/public/addUser'') [(''Authorization'', token), json_type]
             (Some (JObj [(''list'', JArr [JObj [(''email'', JStr address)]])])) default_expected) (\<lambda>_.
       ret (mailbox_result address address [(''admin_token'', token), (''api_base'', api_base)] [])))))))"

definition cloudmail_fetch :: "od_env \<Rightarrow> od_runtime \<Rightarrow> allocation \<Rightarrow> evidence_query \<Rightarrow> evidence adapter" where
  "cloudmail_fetch env rt a q =
     bnd (if ctx a ''admin_token'' [] \<noteq> [] then ret (ctx a ''admin_token'' []) else cloudmail_admin_token env rt) (\<lambda>token.
     bnd (http_post env (ctx_base env rt a [] @ ''/api/public/emailList'') [(''Authorization'', token), json_type]
           (Some (JObj [(''toEmail'', JStr (va_primary_email a)), (''size'', JInt 20), (''timeSort'', JStr ''desc'')])) default_expected) (\<lambda>data.
     fetched env a q ''cloudmail_gen'' (if is_dict data then jget data ''data'' else JArr [])))"

subsection \<open>DuckDuckGo aliases over a Cloudflare inbox\<close>

definition ddg_register :: "od_env \<Rightarrow> od_runtime \<Rightarrow> string \<Rightarrow> string \<Rightarrow> unit adapter" where
  \<comment> \<open>registers the alias in the inbox store, best effort\<close>
  "ddg_register env rt cf_base address =
     (let password = strip (lookup (rt_secrets rt) ''admin_password'');
          named = strip (value_text env rt ''cf_create_path'' ''/api/new_address'');
          path = (if named = [] then ''/api/new_address'' else named) in
      if password = [] then ret ()
      else catch (andthen (http_post env (cf_base @ path) [json_type, (''x-admin-auth'', password)] (Some (JObj [(''address'', JStr address)])) [200, 201, 204])
                    (ret ()))
             (\<lambda>e. if e = OdHttp then ret () else throw e))"

definition ddg_secret :: "od_env \<Rightarrow> od_runtime \<Rightarrow> string \<Rightarrow> (string \<times> string) list" where
  "ddg_secret env rt cf_base =
     (let secret = (\<lambda>k. strip (lookup (rt_secrets rt) k)) in
      [(''api_base'', cf_base), (''messages_path'', value_text env rt ''cf_messages_path'' ''/api/mails'')]
      @ (if secret ''cf_inbox_jwt'' = [] then [] else [(''token'', secret ''cf_inbox_jwt'')])
      @ (if secret ''admin_password'' = [] then [] else [(''admin_password'', secret ''admin_password'')])
      @ (if secret ''cf_api_key'' = [] then [] else [(''cf_api_key'', secret ''cf_api_key''), (''cf_auth_mode'', value_text env rt ''cf_auth_mode'' ''none'')]))"

definition ddg_provision :: "od_env \<Rightarrow> od_runtime \<Rightarrow> string option \<Rightarrow> od_result adapter" where
  "ddg_provision env rt preferred =
     bnd (require_secret rt ''ddg_token'') (\<lambda>ddg_token.
     bnd (http_post env ''https://quack.duckduckgo.com/api/email/addresses'' [bearer ddg_token, json_type] (Some (JObj [])) default_expected) (\<lambda>data.
     andthen (require_dict data ''ddg_mail invalid address response'')
       (let part = field_text env data [''address'']; address = lower_str (part @ ''@duck.com'');
            cf_base = rstrip_slash (value_text env rt ''api_base'' []) in
        andthen (require (part \<noteq> []) (OdProvider ''ddg_mail missing address part''))
       (andthen (require (cf_base \<noteq> []) (OdProvider ''ddg_mail requires CF api_base for inbox reading''))
       (andthen (ddg_register env rt cf_base address)
          (ret (mailbox_result address address (ddg_secret env rt cf_base) [])))))))"

definition ddg_auth :: "string \<Rightarrow> string \<Rightarrow> string \<Rightarrow> (string \<times> string) list \<times> (string \<times> json) list" where
  \<comment> \<open>headers and query; setting \<open>Authorization\<close> again replaces it\<close>
  "ddg_auth token api_key mode =
     (let base = (if token = [] then [] else [bearer token]) in
      if api_key = [] \<or> mode = ''none'' then (accept_json # base, limit_params)
      else if mode = ''x-api-key'' then (accept_json # base @ [(''X-API-Key'', api_key)], limit_params)
      else if mode = ''query-key'' then (accept_json # base, limit_params @ [(''key'', JStr api_key)])
      else ([accept_json, bearer api_key], limit_params))"

definition ddg_fetch :: "od_env \<Rightarrow> od_runtime \<Rightarrow> allocation \<Rightarrow> evidence_query \<Rightarrow> evidence adapter" where
  "ddg_fetch env rt a q =
     (let path = ctx a ''messages_path'' (value_text env rt ''cf_messages_path'' ''/api/mails'');
          auth = ddg_auth (ctx a ''token'' []) (ctx a ''cf_api_key'' []) (ctx a ''cf_auth_mode'' ''none'') in
      bnd (http_get env (ctx_base env rt a [] @ path) (fst auth) (snd auth)) (\<lambda>data.
      fetched env a q ''ddg_mail'' (results_of data)))"

subsection \<open>The facade\<close>

definition adapters ::
    "(string \<times> (od_env \<Rightarrow> od_runtime \<Rightarrow> string option \<Rightarrow> od_result adapter)
             \<times> (od_env \<Rightarrow> od_runtime \<Rightarrow> allocation \<Rightarrow> evidence_query \<Rightarrow> evidence adapter)) list" where
  \<comment> \<open>\<open>ADAPTER_FACTORIES\<close>\<close>
  "adapters =
     [(''cloudflare_temp_email'', cloudflare_provision, cloudflare_fetch), (''ddg_mail'', ddg_provision, ddg_fetch),
      (''cloudmail_gen'', cloudmail_provision, cloudmail_fetch), (''tempmail_lol'', tempmail_provision, tempmail_fetch),
      (''duckmail'', duckmail_provision, duckmail_fetch), (''gptmail'', gptmail_provision, gptmail_fetch),
      (''moemail'', moemail_provision, moemail_fetch), (''inbucket'', inbucket_provision, inbucket_fetch),
      (''yyds_mail'', yyds_provision, yyds_fetch)]"

definition field_present :: "od_runtime \<Rightarrow> field_schema \<Rightarrow> bool" where
  "field_present rt f =
     (if fs_secret f then strip (lookup (rt_secrets rt) (fs_key f)) \<noteq> []
      else (case map_of (rt_values rt) (fs_key f) of None \<Rightarrow> False | Some v \<Rightarrow> v \<notin> {JNull, JStr [], JArr []}))"

definition require_configured :: "od_runtime \<Rightarrow> provider_definition \<Rightarrow> unit adapter" where
  \<comment> \<open>\<open>require_configured_facade\<close>; the first missing field decides the message\<close>
  "require_configured rt d =
     andthen (require (rt_enabled rt) (OdProvider (rt_provider_type rt @ '' is not enabled'')))
       (case find (\<lambda>f. fs_required f \<and> \<not> field_present rt f) (pd_fields d) of
          None \<Rightarrow> ret ()
        | Some f \<Rightarrow> throw (OdProvider (rt_provider_type rt @ '' missing required ''
              @ (if fs_secret f then ''secret: '' else ''field: '') @ fs_key f)))"

definition with_adapter ::
    "od_runtime \<Rightarrow> ((od_env \<Rightarrow> od_runtime \<Rightarrow> string option \<Rightarrow> od_result adapter)
        \<times> (od_env \<Rightarrow> od_runtime \<Rightarrow> allocation \<Rightarrow> evidence_query \<Rightarrow> evidence adapter) \<Rightarrow> 'a adapter) \<Rightarrow> 'a adapter" where
  "with_adapter rt use =
     (case get_provider_definition (rt_provider_type rt) of
        Inl _ \<Rightarrow> throw OdPython
      | Inr d \<Rightarrow> andthen (require_configured rt d)
          (case map_of adapters (rt_provider_type rt) of
             None \<Rightarrow> throw (OdProvider (''unsupported on-demand provider: '' @ rt_provider_type rt))
           | Some ad \<Rightarrow> use ad))"

definition provision :: "od_env \<Rightarrow> od_runtime \<Rightarrow> string option \<Rightarrow> od_result adapter" where
  "provision env rt preferred = with_adapter rt (\<lambda>(p, _). p env rt preferred)"

definition fetch_evidence :: "od_env \<Rightarrow> od_runtime \<Rightarrow> allocation \<Rightarrow> evidence_query \<Rightarrow> evidence adapter" where
  "fetch_evidence env rt a q = with_adapter rt (\<lambda>(_, f). f env rt a q)"

subsection \<open>Opening a mailbox\<close>

lemma lower_str_Nil [simp]: "lower_str s = [] \<longleftrightarrow> s = []"
  by (simp add: lower_str_def)

definition good_address :: "od_result \<Rightarrow> bool" where
  "good_address r \<longleftrightarrow> or_address r \<noteq> [] \<and> lower_str (or_address r) = or_address r"

lemma good_mailbox_result [simp]: "good_address (mailbox_result a e sec md) \<longleftrightarrow> a \<noteq> [] \<and> lower_str a = a"
  by (simp add: good_address_def mailbox_result_def)

lemmas provision_defs = cloudflare_provision_def tempmail_provision_def duckmail_provision_def gptmail_provision_def
  moemail_provision_def inbucket_provision_def yyds_provision_def cloudmail_provision_def ddg_provision_def

lemma cloudflare_good: "cloudflare_provision env rt pr n = (Inr r, n') \<Longrightarrow> good_address r"
  and tempmail_good: "tempmail_provision env rt pr n = (Inr r, n') \<Longrightarrow> good_address r"
  and duckmail_good: "duckmail_provision env rt pr n = (Inr r, n') \<Longrightarrow> good_address r"
  and gptmail_good: "gptmail_provision env rt pr n = (Inr r, n') \<Longrightarrow> good_address r"
  and moemail_good: "moemail_provision env rt pr n = (Inr r, n') \<Longrightarrow> good_address r"
  and inbucket_good: "inbucket_provision env rt pr n = (Inr r, n') \<Longrightarrow> good_address r"
  and yyds_good: "yyds_provision env rt pr n = (Inr r, n') \<Longrightarrow> good_address r"
  and cloudmail_good: "cloudmail_provision env rt pr n = (Inr r, n') \<Longrightarrow> good_address r"
  and ddg_good: "ddg_provision env rt pr n = (Inr r, n') \<Longrightarrow> good_address r"
  unfolding provision_defs Let_def returns by (auto simp del: lower_str_append)

lemma adapters_good:
  assumes "map_of adapters k = Some (pro, fet)" and "pro env rt pr n = (Inr r, n')"
  shows "good_address r"
  using assms unfolding adapters_def
  by (auto split: if_splits intro: cloudflare_good tempmail_good duckmail_good gptmail_good moemail_good inbucket_good
      yyds_good cloudmail_good ddg_good)

definition configured :: "od_runtime \<Rightarrow> bool" where
  "configured rt \<longleftrightarrow> rt_enabled rt \<and> (\<exists>d. get_provider_definition (rt_provider_type rt) = Inr d
     \<and> (\<forall>f \<in> set (pd_fields d). fs_required f \<longrightarrow> field_present rt f))"

lemma require_configured_Inr:
  "require_configured rt d n = (Inr x, n') \<longleftrightarrow>
     n' = n \<and> rt_enabled rt \<and> (\<forall>f \<in> set (pd_fields d). fs_required f \<longrightarrow> field_present rt f)"
  unfolding require_configured_def andthen_Inr_iff require_Inr_iff
  by (auto simp: returns find_None_iff split: option.split dest: find_some_mem)

lemma with_adapter_Inr:
  assumes "with_adapter rt use n = (Inr r, n')"
  shows "configured rt \<and> (\<exists>ad. map_of adapters (rt_provider_type rt) = Some ad \<and> use ad n = (Inr r, n'))"
proof -
  obtain d where d: "get_provider_definition (rt_provider_type rt) = Inr d"
    using assms by (auto simp: with_adapter_def throw_run split: sum.splits)
  then obtain ad where "rt_enabled rt" "\<forall>f \<in> set (pd_fields d). fs_required f \<longrightarrow> field_present rt f"
    and ad: "map_of adapters (rt_provider_type rt) = Some ad" "use ad n = (Inr r, n')"
    using assms by (auto simp: with_adapter_def andthen_Inr_iff require_configured_Inr throw_run split: option.splits)
  with d show ?thesis by (auto simp: configured_def)
qed

lemma with_adapter_unconfigured:
  assumes "\<not> configured rt"
  shows "\<exists>e. with_adapter rt use n = (Inl e, n)"
proof (cases "get_provider_definition (rt_provider_type rt)")
  case (Inl e)
  then show ?thesis by (simp add: with_adapter_def throw_run)
next
  case (Inr d)
  obtain r m where rm: "require_configured rt d n = (r, m)" by (metis prod.collapse)
  have "m = n" using rm by (auto simp: require_configured_def run split: option.splits if_splits)
  moreover have "\<nexists>x. r = Inr x" using assms Inr rm require_configured_Inr [of rt d n] by (auto simp: configured_def)
  ultimately show ?thesis using Inr rm by (cases r) (auto simp: with_adapter_def andthen_run)
qed

text \<open>
  An on-demand provider that is disabled or lacks a required field is never called: neither opening a
  mailbox nor reading one sends a request. A mailbox that was opened has a non-empty lower-case address,
  whatever of the nine providers opened it and whatever that provider answered.
\<close>

theorem unconfigured_provider_is_not_called:
  "(configured rt \<or> ((\<exists>e. provision env rt preferred n = (Inl e, n)) \<and> (\<exists>e. fetch_evidence env rt a q n = (Inl e, n))))
   \<and> (\<forall>r n'. provision env rt preferred n = (Inr r, n') \<longrightarrow> configured rt \<and> good_address r)"
proof
  show "configured rt \<or> ((\<exists>e. provision env rt preferred n = (Inl e, n)) \<and> (\<exists>e. fetch_evidence env rt a q n = (Inl e, n)))"
    unfolding provision_def fetch_evidence_def by (meson with_adapter_unconfigured)
  show "\<forall>r n'. provision env rt preferred n = (Inr r, n') \<longrightarrow> configured rt \<and> good_address r"
    using adapters_good by (fastforce simp: provision_def dest: with_adapter_Inr)
qed

definition sample_runtime :: od_runtime where
  "sample_runtime = \<lparr>rt_provider_type = ''tempmail_lol'', rt_instance_id = ''default'', rt_enabled = True, rt_values = [], rt_secrets = [], rt_timeout_seconds = 30\<rparr>"

definition sample_od_env :: od_env where
  "sample_od_env = \<lparr>oe_lib = \<lparr>pl_str = (\<lambda>_. []), pl_date = (\<lambda>_. None), pl_timestamp = (\<lambda>_. None)\<rparr>,
     oe_http = (\<lambda>_ _. Some (JObj [(''address'', JStr ''Box7@Temp.lol''), (''token'', JStr ''t'')])),
     oe_pick = hd, oe_random = (\<lambda>n. replicate n (CHR ''a'')), oe_password = ''pw'', oe_int = (\<lambda>_. None)\<rparr>"

lemma sample_provision: "provision sample_od_env sample_runtime None 0
    = (Inr (mailbox_result ''box7@temp.lol'' ''box7@temp.lol'' [(''token'', ''t'')] []), 1)"
  by code_simp

theorem unconfigured_provider_is_not_called_witness:
  "configured sample_runtime \<and> good_address (mailbox_result ''box7@temp.lol'' ''box7@temp.lol'' [(''token'', ''t'')] [])"
  using unconfigured_provider_is_not_called [of sample_runtime sample_od_env None 0 undefined undefined] sample_provision by blast

lemma catalog_adapters: "set (map fst adapters) = set on_demand_provider_types"
  unfolding on_demand_provider_types_eq adapters_def by auto

subsection \<open>Whose messages pass the filter\<close>

text \<open>
  Filtering by the address the mailbox was opened for removes nothing: every fetched message is given
  that address as a recipient, whoever it was sent to. A provider whose inbox is shared by several
  aliases, as the catch-all inbox behind the DuckDuckGo aliases, so delivers the codes of the others too.
\<close>

theorem own_address_filter_is_vacuous:
  assumes "strip a = a" and "a \<noteq> []"
  shows "filter_messages (map (message_dict_to_evidence lib a) items) (q\<lparr>vq_recipient := Some a\<rparr>)
       = filter_messages (map (message_dict_to_evidence lib a) items) (q\<lparr>vq_recipient := None\<rparr>)"
proof -
  have "lower_str a \<in> set (ev_recipients (message_dict_to_evidence lib a i))" for i
    using assms by (simp add: message_dict_to_evidence_def Let_def collect_recipient_addresses_def strip_lower_def)
  then have "evidence_wanted (q\<lparr>vq_recipient := Some a\<rparr>) (message_dict_to_evidence lib a i)
     \<longleftrightarrow> evidence_wanted (q\<lparr>vq_recipient := None\<rparr>) (message_dict_to_evidence lib a i)" for i
    by (simp add: evidence_wanted_def)
  then show ?thesis by (simp add: filter_messages_def filter_map comp_def)
qed

definition foreign_mail :: json where
  "foreign_mail = JObj [(''to'', JStr ''other@duck.com''), (''subject'', JStr ''Code''), (''text'', JStr ''481516'')]"

definition plain_lib :: py_lib where
  "plain_lib = \<lparr>pl_str = (\<lambda>_. []), pl_date = (\<lambda>_. None), pl_timestamp = (\<lambda>_. None)\<rparr>"

definition plain_query :: evidence_query where
  "plain_query = \<lparr>vq_from_address = None, vq_subject_contains = None, vq_body_contains = None, vq_recipient = None,
     vq_newer_than = None, vq_max_messages = 30\<rparr>"

lemma foreign_mail_found:
  "map ev_body_text (filter_messages (map (message_dict_to_evidence plain_lib ''mine@duck.com'') [foreign_mail]) (plain_query\<lparr>vq_recipient := None\<rparr>))
     = [Some ''481516'']"
  by code_simp

theorem own_address_filter_is_vacuous_witness:
  "map ev_body_text (filter_messages (map (message_dict_to_evidence plain_lib ''mine@duck.com'') [foreign_mail])
      (plain_query\<lparr>vq_recipient := Some ''mine@duck.com''\<rparr>)) = [Some ''481516'']"
  using foreign_mail_found own_address_filter_is_vacuous [of "''mine@duck.com''" plain_lib "[foreign_mail]" plain_query]
  by (simp add: strip_fixed is_space_def)

end
