(* ===== verification/ProviderPoll.thy ===== *)
theory ProviderPoll
  imports CodePoll OnDemand PollCapacity
begin

text \<open>
  The polling loops of the other providers (\<open>_wait_for_smsbower_code\<close>, \<open>_wait_for_ondemand_code\<close>), the
  dispatch of \<open>wait_for_verification_code\<close> and the request that calls it, \<open>get_lease_verification_code\<close> of
  \<open>main.py\<close>. The decryption of a resource's secret, the settings of a provider and the remote calls are
  parameters; \<open>OnDemand\<close> gives the remote call of the on-demand providers.
\<close>

definition claimed_resource :: "string \<Rightarrow> (db, poll_error, provider_resource) action" where
  "claimed_resource i =
     bnd (asks (resource_row i)) (\<lambda>row. case row of
       None \<Rightarrow> throw NotClaimable
     | Some r \<Rightarrow> andthen (require (pr_lifecycle_state r = Claimed) NotClaimable) (ret r))"

definition resource_secret :: "(string \<Rightarrow> json option) \<Rightarrow> provider_resource \<Rightarrow> json" where
  \<comment> \<open>the decrypted and parsed secret, an empty object where there is none or it cannot be read\<close>
  "resource_secret read r =
     (if present (pr_encrypted_secret r)
      then (case read (the (pr_encrypted_secret r)) of None \<Rightarrow> JObj [] | Some v \<Rightarrow> if is_dict v then v else JObj [])
      else JObj [])"

subsection \<open>SMSBower\<close>

datatype sms_reply = SmsReply "string option" bool | SmsTransportFailed

record sms_env =
  sm_settings :: "db \<Rightarrow> bool \<times> string option"     \<comment> \<open>enabled, API key\<close>
  sm_secret :: "string \<Rightarrow> json option"
  sm_str :: "json \<Rightarrow> string"
  sm_get_code :: "nat \<Rightarrow> string \<Rightarrow> string \<Rightarrow> sms_reply"   \<comment> \<open>round, key, mail id\<close>

definition sms_mail_id :: "sms_env \<Rightarrow> provider_resource \<Rightarrow> string" where
  "sms_mail_id sm r =
     (case jor [jget (resource_secret (sm_secret sm) r) ''mail_id'', JStr (pr_external_resource_id r)] of
        JStr x \<Rightarrow> x | v \<Rightarrow> sm_str sm v)"

definition smsbower_step :: "poll_env \<Rightarrow> lookup_options \<Rightarrow> sms_env \<Rightarrow> string \<Rightarrow> unit poll_step" where
  "smsbower_step env opts sm i r st =
     andthen (checkpoint env r 0)
    (bnd (claimed_resource i) (\<lambda>res.
     bnd (asks (sm_settings sm)) (\<lambda>(enabled, key).
     andthen (require (enabled \<and> strip (or_text key []) \<noteq> []) NotConfigured)
    (andthen (meanwhile env r 1)
       (case sm_get_code sm r (strip (or_text key [])) (sms_mail_id sm res) of
          SmsTransportFailed \<Rightarrow>
            if poll_deadline env opts \<le> pe_clock env r 3 then throw RemoteFailure else ret (Inr ())
        | SmsReply reply pending \<Rightarrow>
            if present reply \<and> \<not> pending then
              andthen (meanwhile env r 2)
             (andthen (checkpoint env r 1)
             (andthen (persist_last_verification_code ''smsbower_gmail'' i reply (pe_clock env r 2))
                (ret (Inl (direct_code (the reply) r)))))
            else ret (Inr ()))))))"

definition smsbower_filters_given :: "lookup_options \<Rightarrow> bool" where
  "smsbower_filters_given opts \<longleftrightarrow>
     given (lo_from_address opts) \<or> given (lo_subject_contains opts) \<or> given (lo_body_contains opts) \<or> given (lo_recipient opts)"

definition wait_for_smsbower_code ::
    "poll_env \<Rightarrow> nat \<Rightarrow> lookup_options \<Rightarrow> sms_env \<Rightarrow> string \<Rightarrow> (db, poll_error, lookup_result option) action" where
  "wait_for_smsbower_code env fuel opts sm i =
     andthen (require (\<not> smsbower_filters_given opts) UnsupportedFilter)
       (poll_rounds env opts (smsbower_step env opts sm i) (\<lambda>r _. ret (code_not_found r)) fuel 1 ())"

subsection \<open>On-demand providers\<close>

record demand_env =
  de_secret :: "string \<Rightarrow> json option"
  de_lib :: py_lib
  de_fetch :: "nat \<Rightarrow> allocation \<Rightarrow> evidence_query \<Rightarrow> db \<Rightarrow> evidence option"   \<comment> \<open>\<open>None\<close>: it raised\<close>

definition adapter_fetch ::
    "(nat \<Rightarrow> od_env) \<Rightarrow> (db \<Rightarrow> string \<Rightarrow> od_runtime) \<Rightarrow> nat \<Rightarrow> allocation \<Rightarrow> evidence_query \<Rightarrow> db \<Rightarrow> evidence option" where
  \<comment> \<open>\<open>OnDemandProviderService.fetch_evidence\<close>: the settings are read for the provider's default instance\<close>
  "adapter_fetch env settings r a q s =
     (case fst (fetch_evidence (env r) (settings s (va_provider_type a)) a q 0) of Inl _ \<Rightarrow> None | Inr e \<Rightarrow> Some e)"

definition access_context :: "demand_env \<Rightarrow> provider_resource \<Rightarrow> (string \<times> string) list" where
  \<comment> \<open>the secret's entries win over the external id\<close>
  "access_context de r =
     (case resource_secret (de_secret de) r of
        JObj kvs \<Rightarrow> map (\<lambda>(k, v). (k, py_str (de_lib de) v)) (filter (\<lambda>(k, v). v \<noteq> JNull) kvs)
      | _ \<Rightarrow> []) @ [(''external_resource_id'', pr_external_resource_id r)]"

definition demand_allocation :: "demand_env \<Rightarrow> string \<Rightarrow> mail_identity \<Rightarrow> provider_resource \<Rightarrow> allocation" where
  "demand_allocation de provider_type mi r = \<lparr>va_lease_id = [], va_mailbox_id = mi_id mi, va_provider_type = provider_type,
     va_provider_instance_id = Some (pr_provider_instance_id r), va_primary_email = mi_primary_email mi,
     va_allocated_email = Some (mi_primary_email mi), va_access_context = access_context de r\<rparr>"

definition demand_query :: "lookup_options \<Rightarrow> time \<Rightarrow> evidence_query" where
  "demand_query opts since_at = \<lparr>vq_from_address = lo_from_address opts, vq_subject_contains = lo_subject_contains opts,
     vq_body_contains = lo_body_contains opts, vq_recipient = lo_recipient opts, vq_newer_than = Some since_at,
     vq_max_messages = int max_messages_per_scan\<rparr>"

definition code_of_evidence :: "pattern_options option \<Rightarrow> inbox_evidence \<Rightarrow> (string \<times> inbox_evidence) option" where
  "code_of_evidence custom m =
     (let subject = or_text (ev_subject m) []; body = or_text (ev_body_text m) [];
          found = (case custom of Some p \<Rightarrow> search p subject body | None \<Rightarrow> extract_verification_code None subject body)
      in if present found then Some (the found, m) else None)"

definition evidence_code :: "string \<Rightarrow> inbox_evidence \<Rightarrow> nat \<Rightarrow> lookup_result" where
  "evidence_code c m attempts = \<lparr>lr_found = True, lr_code = Some c, lr_matched_from = ev_from m, lr_matched_subject = ev_subject m,
     lr_received_at = ev_received_at m, lr_channel = None, lr_attempts = attempts\<rparr>"

definition ondemand_step ::
    "poll_env \<Rightarrow> lookup_options \<Rightarrow> pattern_options option \<Rightarrow> demand_env \<Rightarrow> string \<Rightarrow> mail_identity \<Rightarrow> unit poll_step" where
  "ondemand_step env opts custom de provider_type mi r st =
     andthen (checkpoint env r 0)
    (bnd (claimed_resource (mi_id mi)) (\<lambda>res.
     bnd (asks (de_fetch de r (demand_allocation de provider_type mi res) (demand_query opts (poll_since env opts)))) (\<lambda>reply.
     andthen (meanwhile env r 1)
       (let store = (\<lambda>c. persist_last_verification_code provider_type (mi_id mi) c (pe_clock env r 2)) in
        case reply of
          None \<Rightarrow> if poll_deadline env opts \<le> pe_clock env r 3 then throw RemoteFailure else ret (Inr ())
        | Some e \<Rightarrow>
            if present (ve_direct_code e) then
              andthen (store (ve_direct_code e)) (ret (Inl (direct_code (the (ve_direct_code e)) r)))
            else (case first_some (code_of_evidence custom) (ve_messages e) of
                Some (c, m) \<Rightarrow> andthen (store (Some c)) (ret (Inl (evidence_code c m r)))
              | None \<Rightarrow> if ve_messages e = [] then ret (Inr ()) else andthen (store None) (ret (Inr ())))))))"

definition wait_for_ondemand_code ::
    "poll_env \<Rightarrow> nat \<Rightarrow> lookup_options \<Rightarrow> pattern_options option \<Rightarrow> demand_env \<Rightarrow> string \<Rightarrow> mail_identity
       \<Rightarrow> (db, poll_error, lookup_result option) action" where
  "wait_for_ondemand_code env fuel opts custom de provider_type mi =
     poll_rounds env opts (ondemand_step env opts custom de provider_type mi) (\<lambda>r _. ret (code_not_found r)) fuel 1 ()"

subsection \<open>Dispatch\<close>

record code_service =
  cs_listing :: "mailbox \<Rightarrow> nat \<Rightarrow> channel \<Rightarrow> time \<Rightarrow> (db, failure, inbox_message list) action"
  cs_sms :: sms_env
  cs_demand :: demand_env

definition wait_for_verification_code ::
    "poll_env \<Rightarrow> nat \<Rightarrow> lookup_options \<Rightarrow> code_service \<Rightarrow> mail_identity \<Rightarrow> mailbox option
       \<Rightarrow> (db, poll_error, lookup_result option) action" where
  \<comment> \<open>the mailbox row where the identity is one, nothing for the stand-in of a provider resource\<close>
  "wait_for_verification_code env fuel opts cs mi row =
     (let provider_type = (if mi_provider_type mi = [] then ''microsoft'' else mi_provider_type mi) in
      case from_deprecated_code_regex (lo_code_regex opts) of
        Inl e \<Rightarrow> throw (PatternRefused e)
      | Inr custom \<Rightarrow>
          if provider_type = ''smsbower_gmail'' then wait_for_smsbower_code env fuel opts (cs_sms cs) (mi_id mi)
          else if provider_type \<in> set on_demand_provider_types
          then wait_for_ondemand_code env fuel opts custom (cs_demand cs) provider_type mi
          else (case row of None \<Rightarrow> throw NotClaimable
            | Some m \<Rightarrow> wait_for_microsoft_code env fuel opts custom m (cs_listing cs m)))"

subsection \<open>The request\<close>

datatype request_error =
    RequestDenied poll_denial
  | LeaseRefused lease_error
  | NoPollSlot poll_scope
  | PollFailed poll_error

record request_env =
  re_clock :: "nat \<Rightarrow> nat \<Rightarrow> time"
  re_others :: "nat \<Rightarrow> nat \<Rightarrow> db \<Rightarrow> db"
  re_check_time :: "nat \<Rightarrow> nat \<Rightarrow> time"     \<comment> \<open>the clock of the checkpoints\<close>
  re_request_time :: time
  re_slots :: "buckets \<Rightarrow> buckets"           \<comment> \<open>polls that begin and end meanwhile\<close>
  re_fuel :: nat

definition request_poll_env :: "request_env \<Rightarrow> principal \<Rightarrow> string \<Rightarrow> poll_env" where
  \<comment> \<open>\<open>_checkpoint\<close>: a session of its own\<close>
  "request_poll_env e p lease_id = \<lparr>pe_clock = re_clock e, pe_others = re_others e,
     pe_checkpoint = (\<lambda>r k. transaction (bnd (revalidate_verification_authorization (re_check_time e r k) p lease_id) (\<lambda>_. ret ())))\<rparr>"

definition request_options :: "lookup_options \<Rightarrow> lease \<Rightarrow> mail_identity \<Rightarrow> lookup_options" where
  \<comment> \<open>the payload, its recipient defaulting to the lease's address\<close>
  "request_options payload l mi =
     payload\<lparr>lo_recipient := Some (or_text (lo_recipient payload) (or_text (ls_allocated_email l) (mi_primary_email mi)))\<rparr>"

definition authorize_request :: "request_env \<Rightarrow> principal \<Rightarrow> string \<Rightarrow> (db, request_error, lease \<times> mail_identity \<times> mailbox option) action" where
  "authorize_request e p lease_id =
     andthen (lift_error RequestDenied (revalidate_verification_authorization (re_request_time e) p lease_id))
    (bnd (lift_error LeaseRefused (load_active_mail_read_lease (re_request_time e) p lease_id)) (\<lambda>(l, mi).
     bnd (asks (\<lambda>s. if present (ls_mailbox_id l) then mailbox_row (the (ls_mailbox_id l)) s else None)) (\<lambda>row. ret (l, mi, row))))"

definition get_lease_verification_code ::
    "request_env \<Rightarrow> code_service \<Rightarrow> principal \<Rightarrow> string \<Rightarrow> lookup_options \<Rightarrow> (db \<times> buckets, request_error, lookup_result option) action" where
  "get_lease_verification_code e cs p lease_id payload = (\<lambda>(s, b).
     case transaction (authorize_request e p lease_id) s of
       (Inl err, s1) \<Rightarrow> (Inl err, (s1, b))
     | (Inr (l, mi, row), s1) \<Rightarrow>
         (case poll_enter (client_key_id p) (ls_id l) b of
            (Inl scope, b1) \<Rightarrow> (Inl (NoPollSlot scope), (s1, b1))
          | (Inr _, b1) \<Rightarrow>
              (case lift_error PollFailed (wait_for_verification_code (request_poll_env e p lease_id) (re_fuel e)
                       (request_options payload l mi) cs mi row) s1 of
                 (r, s2) \<Rightarrow> (r, (s2, poll_leave (client_key_id p) (ls_id l) (re_slots e b1))))))"

end
