(* ===== verification/PollSafety.thy ===== *)
theory PollSafety
  imports ProviderPoll
begin

text \<open>
  What waiting for a code guarantees: the scan under its byte budgets, the end of the loop, the failure of
  an unreachable inbox, and which checkpoints a delivered code has passed. The locale \<open>delivering\<close> is the
  contract of one round; it is proved once for the loop and interpreted for each provider's round.
\<close>

subsection \<open>The scan of the messages\<close>

definition scan_limit :: "int \<Rightarrow> int" where
  "scan_limit remaining = min max_scan_body_bytes (max 0 remaining)"

definition total_bytes :: "inbox_message list \<Rightarrow> int" where
  "total_bytes ms = sum_list (map message_bytes ms)"

lemma total_bytes_simps [simp]: "total_bytes [] = 0" "total_bytes (m # ms) = message_bytes m + total_bytes ms"
  "total_bytes (xs @ ys) = total_bytes xs + total_bytes ys"
  by (simp_all add: total_bytes_def)

lemma message_bytes_nonneg: "0 \<le> message_bytes m"
  by (simp add: message_bytes_def)

lemma find_code_from_parts:
  assumes "find_code_from opts custom recipient remaining consumed exhausted ms = (found, used, ex)"
    and "consumed \<le> scan_limit remaining"
  shows "used \<le> scan_limit remaining \<and>
    (case found of
       Some (c, m) \<Rightarrow> (\<exists>pre post. ms = pre @ m # post \<and> (\<forall>x \<in> set pre. code_of_message opts custom recipient x = None)
          \<and> code_of_message opts custom recipient m = Some c \<and> used = consumed + total_bytes (pre @ [m]))
     | None \<Rightarrow> (\<exists>pre post. ms = pre @ post \<and> (\<forall>x \<in> set pre. code_of_message opts custom recipient x = None)
          \<and> used = consumed + total_bytes pre \<and> (post = [] \<or> scan_limit remaining < used + message_bytes (hd post))))"
  using assms
proof (induction ms arbitrary: consumed)
  case Nil
  then show ?case by auto
next
  case (Cons m ms)
  show ?case
  proof (cases "scan_limit remaining < consumed + message_bytes m")
    case True
    then have "found = None" "used = consumed" using Cons.prems(1) by (auto simp: scan_limit_def)
    then show ?thesis using Cons.prems(2) True by simp (metis append_Nil empty_iff list.sel(1) list.set(1) total_bytes_simps(1) add_0_right)
  next
    case fits: False
    show ?thesis
    proof (cases "code_of_message opts custom recipient m")
      case (Some c)
      then have "found = Some (c, m)" "used = consumed + message_bytes m"
        using Cons.prems(1) fits by (auto simp: scan_limit_def)
      then show ?thesis using fits Some by (simp add: exI [of _ "[]"])
    next
      case None
      then have rec: "find_code_from opts custom recipient remaining (consumed + message_bytes m) exhausted ms = (found, used, ex)"
        using Cons.prems(1) fits by (auto simp: scan_limit_def)
      note IH = Cons.IH [OF rec]
      have "consumed + message_bytes m \<le> scan_limit remaining" using fits by simp
      note IH = IH [OF this]
      show ?thesis
      proof (cases found)
        case (Some cm)
        obtain c k where cm: "cm = (c, k)" by (cases cm)
        from IH Some cm obtain pre post where p: "ms = pre @ k # post"
          "\<forall>x \<in> set pre. code_of_message opts custom recipient x = None" "code_of_message opts custom recipient k = Some c"
          "used = consumed + message_bytes m + total_bytes (pre @ [k])" "used \<le> scan_limit remaining" by auto
        have "m # ms = (m # pre) @ k # post" using p(1) by simp
        moreover have "\<forall>x \<in> set (m # pre). code_of_message opts custom recipient x = None" using p(2) None by simp
        moreover have "used = consumed + total_bytes ((m # pre) @ [k])" using p(4) by simp
        ultimately show ?thesis using Some cm p(3,5) by simp (rule exI [of _ "m # pre"], simp)
      next
        case none: None
        from IH none obtain pre post where p: "ms = pre @ post"
          "\<forall>x \<in> set pre. code_of_message opts custom recipient x = None"
          "used = consumed + message_bytes m + total_bytes pre" "used \<le> scan_limit remaining"
          "post = [] \<or> scan_limit remaining < used + message_bytes (hd post)" by auto
        have "m # ms = (m # pre) @ post" using p(1) by simp
        moreover have "\<forall>x \<in> set (m # pre). code_of_message opts custom recipient x = None" using p(2) None by simp
        moreover have "used = consumed + total_bytes (m # pre)" using p(3) by simp
        ultimately show ?thesis using none p(4,5) by simp (rule exI [of _ "m # pre"], rule exI [of _ post], simp)
      qed
    qed
  qed
qed

text \<open>
  C34. One scan returns the code of the first message, in the order of the folders, that passes the filters
  and contains a code, and never examines more than the scan budget or what is left of the request's
  budget: the messages it examined are a prefix of the list, and it stops early only before a message
  that would exceed the budget.
\<close>

theorem scan_takes_first_code_within_budget:
  "case find_code_in_messages opts custom recipient remaining ms of (found, used, _) \<Rightarrow>
     used \<le> scan_limit remaining \<and>
     (\<exists>pre post. (\<forall>x \<in> set pre. code_of_message opts custom recipient x = None) \<and>
       (case found of
          Some (c, m) \<Rightarrow> ms = pre @ m # post \<and> code_of_message opts custom recipient m = Some c \<and> used = total_bytes (pre @ [m])
        | None \<Rightarrow> ms = pre @ post \<and> used = total_bytes pre \<and> (post = [] \<or> scan_limit remaining < used + message_bytes (hd post))))"
proof -
  obtain found used ex where f: "find_code_in_messages opts custom recipient remaining ms = (found, used, ex)"
    by (metis prod_cases3)
  have "0 \<le> scan_limit remaining" by (simp add: scan_limit_def max_scan_body_bytes_def)
  note parts = find_code_from_parts [OF f [unfolded find_code_in_messages_def] this]
  show ?thesis
  proof (cases found)
    case None
    with parts show ?thesis unfolding f by simp blast
  next
    case (Some cm)
    then obtain c m where "found = Some (c, m)" by (cases cm) auto
    with parts show ?thesis unfolding f by simp blast
  qed
qed

lemma find_code_used:
  assumes "find_code_in_messages opts custom recipient remaining ms = (found, used, ex)"
  shows "0 \<le> used \<and> used \<le> scan_limit remaining"
proof -
  have "0 \<le> scan_limit remaining" by (simp add: scan_limit_def max_scan_body_bytes_def)
  note parts = find_code_from_parts [OF assms [unfolded find_code_in_messages_def] this]
  have "0 \<le> total_bytes xs" for xs by (induction xs) (auto simp: message_bytes_nonneg)
  with parts show ?thesis by (cases found) (auto split: prod.splits simp del: total_bytes_simps)
qed

subsection \<open>What a delivered code has passed\<close>

lemma poll_rounds_Suc:
  "poll_rounds env opts step finish (Suc f) r st s =
     (case step r st s of
        (Inl e, u) \<Rightarrow> (Inl e, u)
      | (Inr (Inl res), u) \<Rightarrow> (Inr (Some res), u)
      | (Inr (Inr st'), u) \<Rightarrow>
          if poll_over env opts r then (case finish r st' u of (Inl e, v) \<Rightarrow> (Inl e, v) | (Inr res, v) \<Rightarrow> (Inr (Some res), v))
          else poll_rounds env opts step finish f (Suc r) st' (pe_others env r 0 u))"
  by (auto simp: run meanwhile_def split: prod.splits sum.splits)

declare poll_rounds.simps(2) [simp del]

locale delivering =
  fixes step :: "'st poll_step"
    and finish :: "nat \<Rightarrow> 'st \<Rightarrow> (db, poll_error, lookup_result) action"
    and delivered :: "nat \<Rightarrow> lookup_result \<Rightarrow> db \<Rightarrow> bool"
  assumes delivers: "step r st s = (Inr (Inl res), t) \<Longrightarrow> lr_found res \<Longrightarrow> delivered r res t"
    and finish_empty: "finish r st s = (Inr res, t) \<Longrightarrow> \<not> lr_found res"
begin

lemma rounds_deliver:
  "poll_rounds env opts step finish fuel r st s = (Inr (Some res), t) \<Longrightarrow> lr_found res \<Longrightarrow> \<exists>k. delivered k res t"
proof (induction fuel arbitrary: r st s)
  case 0
  then show ?case by (simp add: returns)
next
  case (Suc fuel)
  obtain x u where x: "step r st s = (x, u)" by fastforce
  show ?case
  proof (cases x)
    case (Inl e)
    with x Suc.prems(1) show ?thesis by (simp add: poll_rounds_Suc)
  next
    case (Inr y)
    with x Suc show ?thesis
      by (cases y) (auto simp: poll_rounds_Suc split: if_splits prod.splits sum.splits
          intro: delivers dest: finish_empty)
  qed
qed

end

lemma code_not_found_empty [simp]: "\<not> lr_found (code_not_found r)"
  by (simp add: code_not_found_def)

definition stored_after_checkpoint :: "poll_env \<Rightarrow> string \<Rightarrow> string \<Rightarrow> nat \<Rightarrow> lookup_result \<Rightarrow> db \<Rightarrow> bool" where
  \<comment> \<open>the second checkpoint of round \<open>r\<close> passed, and nothing but the store of the code came after it\<close>
  "stored_after_checkpoint env provider_type i r res t \<longleftrightarrow>
     (\<exists>u v. pe_checkpoint env r 1 u = (Inr (), v)
        \<and> t = snd ((persist_last_verification_code provider_type i (lr_code res) (pe_clock env r 2) :: (db, poll_error, unit) action) v))"

lemma checkpoint_Inr: "checkpoint env r k s = (Inr x, t) \<longleftrightarrow> pe_checkpoint env r k s = (Inr (), t)"
  by (auto simp: checkpoint_def run split: prod.splits sum.splits)

lemma stored_after_checkpointI:
  assumes "andthen (meanwhile env r 2) (andthen (checkpoint env r 1)
      (andthen (persist_last_verification_code pt i (lr_code res) (pe_clock env r 2)) (ret y))) s = (Inr x, t)"
  shows "stored_after_checkpoint env pt i r res t"
  using assms by (auto simp: stored_after_checkpoint_def andthen_Inr_iff ret_Inr_iff checkpoint_Inr) (metis snd_conv)

lemma search_listing_delivers:
  assumes "search_listing env opts custom recipient m r st ms s = (Inr (Inl res), t)" and "lr_found res"
  shows "stored_after_checkpoint env (mb_provider_type m) (mb_id m) r res t"
proof -
  obtain found used ex where f: "find_code_in_messages opts custom recipient (remaining_request_budget st) ms = (found, used, ex)"
    by (metis prod_cases3)
  show ?thesis
  proof (cases found)
    case None
    with assms f show ?thesis by (auto simp: search_listing_def returns split: if_splits)
  next
    case (Some cm)
    obtain c msg where cm: "cm = (c, msg)" by (cases cm)
    from assms(1) f Some cm have e: "andthen (meanwhile env r 2) (andthen (checkpoint env r 1)
        (andthen (persist_last_verification_code (mb_provider_type m) (mb_id m) (Some c) (pe_clock env r 2))
           (ret (Inl (matched_code c msg r) :: lookup_result + scan_state)))) s = (Inr (Inl res), t)"
      unfolding search_listing_def by simp
    then have "res = matched_code c msg r" by (auto simp: andthen_Inr_iff ret_Inr_iff)
    with e show ?thesis by (intro stored_after_checkpointI) (simp add: matched_code_def)
  qed
qed

lemma scan_channel_delivers:
  assumes "scan_channel env opts custom recipient m listing r ch st s = (Inr (Inl res), t)" and "lr_found res"
  shows "stored_after_checkpoint env (mb_provider_type m) (mb_id m) r res t"
proof -
  from assms(1) obtain outcome u where "(case outcome of Inl e \<Rightarrow> ret (Inr (st\<lparr>ss_last_error := Some e\<rparr>))
      | Inr ms \<Rightarrow> search_listing env opts custom recipient m r st ms) u = (Inr (Inl res), t)"
    unfolding scan_channel_def bnd_Inr_iff andthen_Inr_iff by blast
  with assms(2) show ?thesis by (cases outcome) (auto simp: ret_Inr_iff intro: search_listing_delivers)
qed

lemma scan_channels_Inl:
  "scan_channels scan chs st s = (Inr (Inl res), t) \<Longrightarrow> \<exists>ch st' u. scan ch st' u = (Inr (Inl res), t)"
proof (induction chs arbitrary: st s)
  case Nil
  then show ?case by (simp add: returns)
next
  case (Cons ch chs)
  from Cons.prems obtain x u where x: "scan ch st s = (Inr x, u)"
    and rest: "(case x of Inl res \<Rightarrow> ret (Inl res) | Inr st' \<Rightarrow> scan_channels scan chs st') u = (Inr (Inl res), t)"
    by (auto simp: bnd_Inr_iff)
  show ?case
  proof (cases x)
    case (Inl y)
    with x rest show ?thesis by (auto simp: ret_Inr_iff)
  next
    case (Inr st')
    with rest Cons.IH show ?thesis by simp
  qed
qed

lemma microsoft_step_delivers:
  assumes "microsoft_step env opts custom recipient m listing r st s = (Inr (Inl res), t)" and "lr_found res"
  shows "stored_after_checkpoint env (mb_provider_type m) (mb_id m) r res t"
proof -
  from assms(1) obtain u where "scan_channels (scan_channel env opts custom recipient m listing r)
      (resolve_channel_order (mb_capability m)) st u = (Inr (Inl res), t)"
    by (auto simp: microsoft_step_def andthen_Inr_iff)
  from scan_channels_Inl [OF this] assms(2) show ?thesis by (auto intro: scan_channel_delivers)
qed

interpretation microsoft: delivering "microsoft_step env opts custom recipient m listing" microsoft_finish
    "stored_after_checkpoint env (mb_provider_type m) (mb_id m)"
  for env opts custom recipient m listing
  by unfold_locales (auto simp: microsoft_finish_def returns intro: microsoft_step_delivers split: option.splits if_splits)

lemma smsbower_step_delivers:
  assumes "smsbower_step env opts sm i r st s = (Inr (Inl res), t)"
  shows "stored_after_checkpoint env ''smsbower_gmail'' i r res t"
proof -
  from assms obtain key res' u where
    r: "(case sm_get_code sm r (strip (or_text key [])) (sms_mail_id sm res') of
          SmsTransportFailed \<Rightarrow>
            if poll_deadline env opts \<le> pe_clock env r 3 then throw RemoteFailure else ret (Inr ())
        | SmsReply reply pending \<Rightarrow>
            if present reply \<and> \<not> pending then
              andthen (meanwhile env r 2)
             (andthen (checkpoint env r 1)
             (andthen (persist_last_verification_code ''smsbower_gmail'' i reply (pe_clock env r 2))
                (ret (Inl (direct_code (the reply) r) :: lookup_result + unit))))
            else ret (Inr ())) u = (Inr (Inl res), t)"
    unfolding smsbower_step_def bnd_Inr_iff andthen_Inr_iff split_def by blast
  then obtain reply pending where "sm_get_code sm r (strip (or_text key [])) (sms_mail_id sm res') = SmsReply reply pending"
    by (auto simp: returns split: sms_reply.splits if_splits)
  with r have p: "present reply" and e: "andthen (meanwhile env r 2) (andthen (checkpoint env r 1)
        (andthen (persist_last_verification_code ''smsbower_gmail'' i reply (pe_clock env r 2))
           (ret (Inl (direct_code (the reply) r) :: lookup_result + unit)))) u = (Inr (Inl res), t)"
    by (auto simp: ret_Inr_iff split: if_splits)
  from e have "res = direct_code (the reply) r" by (auto simp: andthen_Inr_iff ret_Inr_iff)
  with p have "lr_code res = reply" by (cases reply) (auto simp: direct_code_def present_def)
  with e show ?thesis by (intro stored_after_checkpointI) simp
qed

interpretation smsbower: delivering "smsbower_step env opts sm i" "\<lambda>r _. ret (code_not_found r)"
    "stored_after_checkpoint env ''smsbower_gmail'' i"
  for env opts sm i
  by unfold_locales (auto simp: returns intro: smsbower_step_delivers)

subsection \<open>The loop ends\<close>

definition clock_advances :: "poll_env \<Rightarrow> lookup_options \<Rightarrow> bool" where
  \<comment> \<open>the clock does not run backwards, and sleeping takes the time asked for\<close>
  "clock_advances env opts \<longleftrightarrow> pe_clock env 0 0 \<le> pe_clock env 1 0
     \<and> (\<forall>r \<ge> 1. pe_clock env r 0 \<le> pe_clock env r 1 \<and> pe_clock env r 1 + poll_sleep env opts r \<le> pe_clock env (Suc r) 0)"

lemma rounds_return:
  assumes clock: "clock_advances env opts" and "1 \<le> r" and "poll_deadline env opts - pe_clock env r 0 \<le> secs (int f)"
  shows "fst (poll_rounds env opts step finish (Suc f) r st s) \<noteq> Inr None"
  using assms(2,3)
proof (induction f arbitrary: r st s)
  case 0
  then have "poll_over env opts r" by (simp add: poll_over_def secs_def)
  then show ?case by (auto simp: poll_rounds_Suc split: prod.splits sum.splits)
next
  case (Suc f)
  show ?case
  proof (cases "poll_over env opts r")
    case True
    then show ?thesis by (auto simp: poll_rounds_Suc split: prod.splits sum.splits)
  next
    case False
    then have sleep: "0 < poll_sleep env opts r" by (simp add: poll_over_def)
    have next_round: "pe_clock env r 0 \<le> pe_clock env r 1" "pe_clock env r 1 + poll_sleep env opts r \<le> pe_clock env (Suc r) 0"
      using clock Suc.prems(1) by (auto simp: clock_advances_def)
    have "secs 1 \<le> poll_sleep env opts r \<or> poll_sleep env opts r = poll_deadline env opts - pe_clock env r 1"
      using sleep by (auto simp: poll_sleep_def secs_def min_def max_def split: if_splits)
    then have "poll_deadline env opts - pe_clock env (Suc r) 0 \<le> secs (int f)"
      using next_round Suc.prems(2) by (auto simp: secs_def algebra_simps)
    from Suc.IH [OF _ this] have IH: "fst (poll_rounds env opts step finish (Suc f) (Suc r) st' u) \<noteq> Inr None" for st' u
      by simp
    obtain x u where x: "step r st s = (x, u)" by fastforce
    with False IH show ?thesis
      by (cases x) (auto simp: poll_rounds_Suc [of env opts step finish "Suc f"] split: sum.splits)
  qed
qed

end
