(* ===== verification/CodeRequest.thy ===== *)
theory CodeRequest
  imports PollSafety
begin

text \<open>
  The request for a verification code as a whole: it ends, it reports an unreachable inbox, and which
  authorization a delivered code has. The theorems about the two providers that are polled for a code
  rather than for messages state what the code does where it departs from the Microsoft path.
\<close>

subsection \<open>Requests end\<close>

lemma poll_loop_returns:
  assumes "clock_advances env opts" and "nat (max (lo_timeout_seconds opts) 0) < fuel"
  shows "fst (poll_rounds env opts step finish fuel 1 st s) \<noteq> Inr None"
proof -
  obtain f where f: "fuel = Suc f" using assms(2) by (cases fuel) auto
  have "poll_deadline env opts - pe_clock env 1 0 \<le> secs (int f)"
    using assms f by (auto simp: clock_advances_def poll_deadline_def secs_def)
  from rounds_return [OF assms(1) _ this] show ?thesis unfolding f by simp
qed

lemma lift_error_Inr_iff: "lift_error f m s = (Inr y, t) \<longleftrightarrow> m s = (Inr y, t)"
  by (auto simp: run split: prod.splits sum.splits)

lemma fst_lift_None: "fst (lift_error f m s) = Inr None \<longleftrightarrow> fst (m s) = Inr None"
  by (auto simp: run split: prod.splits sum.splits)

lemma request_options_same [simp]:
  "lo_timeout_seconds (request_options payload l mi) = lo_timeout_seconds payload"
  "lo_poll_interval_seconds (request_options payload l mi) = lo_poll_interval_seconds payload"
  by (simp_all add: request_options_def)

lemma clock_advances_request [simp]:
  "clock_advances env (request_options payload l mi) = clock_advances env payload"
  by (simp add: clock_advances_def poll_sleep_def poll_deadline_def)

lemma wait_returns:
  assumes "clock_advances env opts" and "nat (max (lo_timeout_seconds opts) 0) < fuel"
  shows "fst (wait_for_verification_code env fuel opts cs mi row s) \<noteq> Inr None"
proof -
  note loop = poll_loop_returns [OF assms]
  have "fst (wait_for_smsbower_code env fuel opts sm i u) \<noteq> Inr None" for sm i u
    by (simp add: wait_for_smsbower_code_def run loop [unfolded One_nat_def])
  moreover have "fst (wait_for_ondemand_code env fuel opts custom de pt mi u) \<noteq> Inr None" for custom de pt u
    unfolding wait_for_ondemand_code_def by (rule loop)
  moreover have "fst (wait_for_microsoft_code env fuel opts custom m listing u) \<noteq> Inr None" for custom m listing u
    unfolding wait_for_microsoft_code_def Let_def by (rule loop)
  ultimately show ?thesis
    by (auto simp: wait_for_verification_code_def Let_def throw_run split: sum.splits option.splits)
qed

text \<open>
  C32. A request for a code always answers: with a clock that does not run backwards and sleeps that take
  their time, as many rounds as the timeout has seconds, and one more, end the loop, whatever the
  provider and whatever the remote side and other requests do.
\<close>

theorem code_request_returns:
  assumes "clock_advances (request_poll_env e p lease_id) payload"
    and "nat (max (lo_timeout_seconds payload) 0) < re_fuel e"
  shows "fst (get_lease_verification_code e cs p lease_id payload sb) \<noteq> Inr None"
proof -
  obtain s b where sb: "sb = (s, b)" by (cases sb)
  have "fst (lift_error PollFailed (wait_for_verification_code (request_poll_env e p lease_id) (re_fuel e)
      (request_options payload l mi) cs mi row) u) \<noteq> Inr None" for l mi row u
    unfolding fst_lift_None using wait_returns assms by simp
  then show ?thesis
    unfolding sb get_lease_verification_code_def by (auto split: prod.splits sum.splits) (metis fst_conv)+
qed

subsection \<open>An inbox that cannot be read\<close>

lemma rounds_end_in_error:
  assumes step: "\<And>r st s x u. I st \<Longrightarrow> step r st s = (x, u) \<Longrightarrow> (\<exists>e. x = Inl e \<and> E e) \<or> (\<exists>st'. x = Inr (Inr st') \<and> J st')"
    and finish: "\<And>r st s. J st \<Longrightarrow> \<exists>e u. finish r st s = (Inl e, u) \<and> E e"
    and keep: "\<And>st. J st \<Longrightarrow> I st"
  shows "I st \<Longrightarrow> fst (poll_rounds env opts step finish fuel r st s) \<noteq> Inr None
    \<Longrightarrow> \<exists>e. fst (poll_rounds env opts step finish fuel r st s) = Inl e \<and> E e"
proof (induction fuel arbitrary: r st s)
  case 0
  then show ?case by (simp add: run)
next
  case (Suc fuel)
  obtain x u where x: "step r st s = (x, u)" by fastforce
  from step [OF Suc.prems(1) x] show ?case
  proof
    assume "\<exists>e. x = Inl e \<and> E e"
    with x show ?thesis by (auto simp: poll_rounds_Suc)
  next
    assume "\<exists>st'. x = Inr (Inr st') \<and> J st'"
    then obtain st' where st': "x = Inr (Inr st')" "J st'" by blast
    obtain e v where "finish r st' u = (Inl e, v)" "E e" using finish [OF st'(2)] by blast
    with x st' Suc keep show ?thesis by (auto simp: poll_rounds_Suc)
  qed
qed

lemma scan_channels_all_fail:
  assumes "\<And>ch st u. \<exists>f v. scan ch st u = (Inr (Inr (st\<lparr>ss_last_error := Some f\<rparr>)), v)"
  shows "\<exists>st' v. scan_channels scan chs st u = (Inr (Inr st'), v) \<and> ss_any_scan_succeeded st' = ss_any_scan_succeeded st
    \<and> (chs \<noteq> [] \<or> ss_last_error st \<noteq> None \<longrightarrow> ss_last_error st' \<noteq> None)"
proof (induction chs arbitrary: st u)
  case Nil
  then show ?case by (simp add: run)
next
  case (Cons ch chs)
  obtain f v where "scan ch st u = (Inr (Inr (st\<lparr>ss_last_error := Some f\<rparr>)), v)" using assms by blast
  with Cons.IH [of "st\<lparr>ss_last_error := Some f\<rparr>" v] show ?case by (auto simp: run)
qed

lemma channel_order_nonempty: "resolve_channel_order c \<noteq> []"
  by (simp add: resolve_channel_order_def)

lemma microsoft_step_all_fail:
  assumes "\<And>r ch u. \<exists>f v. listing r ch u = (Inl f, v)"
    and "\<not> ss_any_scan_succeeded st" and "microsoft_step env opts custom recipient m listing r st s = (x, u)"
  shows "(\<exists>e. x = Inl (PollDenied e)) \<or> (\<exists>st'. x = Inr (Inr st') \<and> \<not> ss_any_scan_succeeded st' \<and> ss_last_error st' \<noteq> None)"
proof -
  have "\<exists>f v. scan_channel env opts custom recipient m listing r ch st u = (Inr (Inr (st\<lparr>ss_last_error := Some f\<rparr>)), v)" for ch st u
    using assms(1) [of r ch "pe_others env r 1 u"] by (auto simp: scan_channel_def meanwhile_def attempt_def run)
  note all = scan_channels_all_fail [of "scan_channel env opts custom recipient m listing r", OF this]
  obtain y v where y: "pe_checkpoint env r 0 s = (y, v)" by fastforce
  show ?thesis
  proof (cases y)
    case (Inl e)
    with y assms(3) show ?thesis by (auto simp: microsoft_step_def checkpoint_def run)
  next
    case (Inr z)
    with y assms(2,3) all [of "resolve_channel_order (mb_capability m)" st v] channel_order_nonempty show ?thesis
      by (auto simp: microsoft_step_def checkpoint_def run)
  qed
qed

text \<open>
  C33. An inbox that cannot be read is an error, not an empty inbox: when every listing of both channels
  fails until the deadline, waiting for a Microsoft code ends in the last failure, or in a denial of a
  checkpoint, and never in the answer that there is no code.
\<close>

theorem unreachable_inbox_is_an_error:
  assumes "\<forall>r ch since u. \<exists>f v. listing r ch since u = (Inl f, v)"
    and "clock_advances env opts" and "nat (max (lo_timeout_seconds opts) 0) < fuel"
  shows "\<exists>e. fst (wait_for_microsoft_code env fuel opts custom m listing s) = Inl e \<and> e \<in> range InboxUnreachable \<union> range PollDenied"
proof -
  let ?E = "\<lambda>e. e \<in> range InboxUnreachable \<union> range PollDenied"
  let ?J = "\<lambda>st. \<not> ss_any_scan_succeeded st \<and> ss_last_error st \<noteq> None"
  have step: "(\<exists>e. x = Inl e \<and> ?E e) \<or> (\<exists>st'. x = Inr (Inr st') \<and> ?J st')"
    if "\<not> ss_any_scan_succeeded st" "microsoft_step env opts custom recipient m (\<lambda>r ch. listing r ch since) r st u = (x, v)"
    for recipient since r st u x v
    using microsoft_step_all_fail [OF _ that] assms(1) by blast
  have finish: "\<exists>e v. microsoft_finish r st u = (Inl e, v) \<and> ?E e" if "?J st" for r st u
    using that by (auto simp: microsoft_finish_def run)
  show ?thesis
    unfolding wait_for_microsoft_code_def Let_def
    by (rule rounds_end_in_error [where I = "\<lambda>st. \<not> ss_any_scan_succeeded st" and J = ?J, OF step finish])
      (rule poll_loop_returns [OF assms(2,3)] | simp add: no_scan_def)+
qed

subsection \<open>A delivered code is an authorized code\<close>

definition read_permitted :: "time \<Rightarrow> principal \<Rightarrow> string \<Rightarrow> db \<Rightarrow> bool" where
  "read_permitted now p lease_id s \<longleftrightarrow> key_permits now p s
     \<and> (\<exists>l mi. lease_row lease_id s = Some l \<and> ls_client_key_id l = Some (client_key_id p) \<and> ls_mode l = MailRead
          \<and> lease_active now l \<and> lease_holder l s = Some mi)"

lemma revalidate_permitted:
  assumes "revalidate_verification_authorization now p i s = (Inr a, t)"
  shows "read_permitted now p i s \<and> t = s"
  using assms by (auto simp: revalidate_verification_authorization_def andthen_Inr_iff bnd_Inr_iff check_client_key_Inr
      check_lease_Inr check_mailbox_Inr read_permitted_def)

lemma request_checkpoint_Inr:
  assumes "pe_checkpoint (request_poll_env e p lease_id) r k u = (Inr (), v)"
  shows "read_permitted (re_check_time e r k) p lease_id u \<and> v = u"
  using assms by (auto simp: request_poll_env_def transaction_run bnd_run ret_run split: prod.splits sum.splits
      dest: revalidate_permitted)

lemma microsoft_code_stored:
  assumes "wait_for_microsoft_code env fuel opts custom m listing s = (Inr (Some res), t)" and "lr_found res"
  shows "\<exists>r. stored_after_checkpoint env (mb_provider_type m) (mb_id m) r res t"
  using microsoft.rounds_deliver [OF assms [unfolded wait_for_microsoft_code_def Let_def]] .

lemma smsbower_code_stored:
  assumes "wait_for_smsbower_code env fuel opts sm i s = (Inr (Some res), t)" and "lr_found res"
  shows "\<exists>r. stored_after_checkpoint env ''smsbower_gmail'' i r res t"
proof -
  from assms(1) have "poll_rounds env opts (smsbower_step env opts sm i) (\<lambda>r _. ret (code_not_found r)) fuel 1 () s = (Inr (Some res), t)"
    by (auto simp: wait_for_smsbower_code_def andthen_Inr_iff require_Inr_iff)
  from smsbower.rounds_deliver [OF this assms(2)] show ?thesis .
qed

lemma authorize_request_Inr:
  assumes "authorize_request e p lease_id s = (Inr (l, mi, row), t)"
  shows "t = s \<and> lease_holder l s = Some mi \<and> row = (if present (ls_mailbox_id l) then mailbox_row (the (ls_mailbox_id l)) s else None)"
  using assms by (auto simp: authorize_request_def andthen_Inr_iff bnd_Inr_iff lift_error_Inr_iff load_active_Inr asks_Inr_iff
      ret_Inr_iff dest: revalidate_permitted)

lemma holder_of_mailbox:
  assumes "lease_holder l s = Some mi" and "(if present (ls_mailbox_id l) then mailbox_row (the (ls_mailbox_id l)) s else None) = Some m"
  shows "mi_id mi = mb_id m \<and> mi_provider_type mi = mb_provider_type m"
  using assms by (auto simp: lease_holder_def split: if_splits)

text \<open>
  C31. A code is handed out only to a caller who may read it at that moment: outside the on-demand
  providers, when a request returns a code, its last checkpoint saw the stored key with the scope, enabled
  and not expired, and the caller's own active mail-read lease on an active mailbox or a claimed resource;
  after that checkpoint nothing happened to the database but the code being remembered.
\<close>

theorem delivered_code_authorized:
  assumes "get_lease_verification_code e cs p lease_id payload (s, b) = (Inr (Some res), (t, b'))" and "lr_found res"
    and "fst (transaction (authorize_request e p lease_id) s) = Inr (l, mi, row)"
    and "mi_provider_type mi \<notin> set on_demand_provider_types"
  shows "\<exists>r u. read_permitted (re_check_time e r 1) p lease_id u
    \<and> t = snd ((persist_last_verification_code (mi_provider_type mi) (mi_id mi) (lr_code res) (re_clock e r 2) :: (db, poll_error, unit) action) u)"
proof -
  let ?env = "request_poll_env e p lease_id" and ?opts = "request_options payload l mi"
  obtain s1 where auth: "authorize_request e p lease_id s = (Inr (l, mi, row), s1)"
    using assms(3) by (auto simp: transaction_run split: prod.splits sum.splits)
  note holder = authorize_request_Inr [OF auth]
  from assms(1) auth have wait: "wait_for_verification_code ?env (re_fuel e) ?opts cs mi row s1 = (Inr (Some res), t)"
    by (auto simp: get_lease_verification_code_def transaction_run lift_error_run split: prod.splits sum.splits)
  have "\<exists>r. stored_after_checkpoint ?env (mi_provider_type mi) (mi_id mi) r res t"
  proof (cases "mi_provider_type mi = ''smsbower_gmail''")
    case True
    with wait assms(2) show ?thesis
      by (auto simp: wait_for_verification_code_def Let_def throw_run split: sum.splits intro: smsbower_code_stored)
  next
    case False
    with wait assms(4) holder obtain custom m where m: "row = Some m"
      "wait_for_microsoft_code ?env (re_fuel e) ?opts custom m (cs_listing cs m) s1 = (Inr (Some res), t)"
      by (auto simp: wait_for_verification_code_def Let_def throw_run microsoft_not_on_demand
          split: sum.splits option.splits if_splits)
    with microsoft_code_stored [OF m(2) assms(2)] holder_of_mailbox [of l s1 mi m] holder show ?thesis by auto
  qed
  then show ?thesis
    by (auto simp: stored_after_checkpoint_def dest!: request_checkpoint_Inr)
      (auto simp: request_poll_env_def)
qed

subsection \<open>A request that finds its code\<close>

definition steady_env :: request_env where
  \<comment> \<open>every round takes a second, nothing happens meanwhile\<close>
  "steady_env = \<lparr>re_clock = (\<lambda>r _. secs (int r)), re_others = (\<lambda>_ _. id), re_check_time = (\<lambda>_ _. 1), re_request_time = 1,
     re_slots = id, re_fuel = 3\<rparr>"

definition plain_payload :: lookup_options where
  "plain_payload = \<lparr>lo_timeout_seconds = 2, lo_since_seconds = 60, lo_poll_interval_seconds = 1, lo_from_address = None,
     lo_subject_contains = None, lo_body_contains = None, lo_code_regex = None, lo_recipient = None, lo_require_recipient_match = False\<rparr>"

definition idle_slots :: buckets where
  "idle_slots = \<lparr>permits = 2, per_client_limit = 1, per_lease_limit = 1, per_client_counts = Map.empty, per_lease_counts = Map.empty\<rparr>"

definition one_mail :: inbox_message where
  "one_mail = \<lparr>im_from = Some ''x@y.z'', im_subject = Some ''Hi'', im_body = ''481516'', im_received_at = None, im_channel = IMAP, im_recipients = []\<rparr>"

definition reading_service :: "inbox_message list \<Rightarrow> code_service" where
  "reading_service ms = \<lparr>cs_listing = (\<lambda>_ _ _ _. ret ms),
     cs_sms = \<lparr>sm_settings = (\<lambda>_. (True, Some ''key'')), sm_secret = (\<lambda>_. None), sm_str = (\<lambda>_. []), sm_get_code = (\<lambda>_ _ _. SmsReply (Some ''481516'') False)\<rparr>,
     cs_demand = \<lparr>de_secret = (\<lambda>_. None), de_lib = plain_lib,
       de_fetch = (\<lambda>_ _ _ _. Some \<lparr>ve_messages = [], ve_direct_code = Some ''481516'', ve_read_method = ''x''\<rparr>)\<rparr>\<rparr>"

definition mailbox_reading_db :: db where
  "mailbox_reading_db = empty_db\<lparr>client_keys := [reader_key], mailboxes := [sample_mailbox ''m''],
     leases := [(read_lease ''microsoft'')\<lparr>ls_mailbox_id := Some ''m'', ls_provider_resource_id := None\<rparr>]\<rparr>"

lemma one_mail_scanned: "fst (find_code_in_messages plain_payload None None 100 [one_mail]) = Some (''481516'', one_mail)"
  by code_simp

theorem scan_takes_first_code_within_budget_witness:
  "\<exists>used ex. find_code_in_messages plain_payload None None 100 [one_mail] = (Some (''481516'', one_mail), used, ex) \<and> used \<le> scan_limit 100"
proof -
  obtain used ex where f: "find_code_in_messages plain_payload None None 100 [one_mail] = (Some (''481516'', one_mail), used, ex)"
    using one_mail_scanned by (metis prod.collapse)
  from scan_takes_first_code_within_budget [of 100 plain_payload None None "[one_mail]"] have "used \<le> scan_limit 100"
    unfolding f by simp
  with f show ?thesis by blast
qed

definition reading_result :: "(request_error + lookup_result option) \<times> db \<times> buckets" where
  "reading_result = get_lease_verification_code steady_env (reading_service [one_mail]) reader ''l'' plain_payload (mailbox_reading_db, idle_slots)"

definition delivered_code :: "(request_error + lookup_result option) \<Rightarrow> string option" where
  \<comment> \<open>the code of an answer that has one\<close>
  "delivered_code r = (case r of Inr (Some res) \<Rightarrow> if lr_found res then lr_code res else None | _ \<Rightarrow> None)"

lemma reading_code: "delivered_code (fst reading_result) = Some ''481516''"
  by code_simp

lemma reading_authorized:
  "fst (transaction (authorize_request steady_env reader ''l'') mailbox_reading_db)
     = Inr ((read_lease ''microsoft'')\<lparr>ls_mailbox_id := Some ''m'', ls_provider_resource_id := None\<rparr>,
         \<lparr>mi_id = ''m'', mi_provider_type = ''microsoft'', mi_primary_email = ''m@x.com'', mi_status = MbActive\<rparr>, Some (sample_mailbox ''m''))"
  by code_simp

theorem delivered_code_authorized_witness:
  "\<exists>r u. read_permitted (re_check_time steady_env r 1) reader ''l'' u
    \<and> fst (snd reading_result) = snd ((persist_last_verification_code ''microsoft'' ''m'' (Some ''481516'') (re_clock steady_env r 2) :: (db, poll_error, unit) action) u)"
proof -
  obtain res where res: "fst reading_result = Inr (Some res)" "lr_found res" "lr_code res = Some ''481516''"
    using reading_code by (auto simp: delivered_code_def split: sum.splits option.splits if_splits)
  obtain t b where t: "reading_result = (Inr (Some res), (t, b))" using res(1) by (metis prod.collapse)
  from delivered_code_authorized [OF t [unfolded reading_result_def] res(2) reading_authorized] show ?thesis
    unfolding t res(3) by (simp add: microsoft_not_on_demand)
qed

lemma steady_advances: "clock_advances (request_poll_env steady_env p i) plain_payload"
  by (auto simp: clock_advances_def request_poll_env_def steady_env_def poll_sleep_def poll_deadline_def plain_payload_def secs_def)

theorem code_request_returns_witness:
  "fst (get_lease_verification_code steady_env (reading_service []) reader ''l'' plain_payload (mailbox_reading_db, idle_slots)) \<noteq> Inr None"
  by (rule code_request_returns [OF steady_advances]) (simp add: steady_env_def plain_payload_def)

theorem unreachable_inbox_is_an_error_witness:
  "\<exists>e. fst (wait_for_microsoft_code (request_poll_env steady_env reader ''l'') 3 plain_payload None (sample_mailbox ''m'')
      (\<lambda>_ _ _. throw []) mailbox_reading_db) = Inl e \<and> e \<in> range InboxUnreachable \<union> range PollDenied"
  by (rule unreachable_inbox_is_an_error) (simp add: throw_run, rule steady_advances, simp add: plain_payload_def)

subsection \<open>SMSBower and the on-demand providers\<close>

text \<open>
  A code of an SMSBower mailbox is never delivered: the request always names a recipient (the
  payload's, or else the address of the lease), and the SMSBower path refuses every recipient filter. The
  remote service is not asked.
\<close>

theorem smsbower_code_never_delivered:
  assumes "fst (transaction (authorize_request e p lease_id) s) = Inr (l, mi, row)"
    and "mi_provider_type mi = ''smsbower_gmail''" and "mi_primary_email mi \<noteq> []"
  shows "\<exists>err. fst (get_lease_verification_code e cs p lease_id payload (s, b)) = Inl err
    \<and> err \<in> insert (PollFailed UnsupportedFilter) (range NoPollSlot \<union> range (PollFailed \<circ> PatternRefused))"
proof -
  obtain s1 where auth: "transaction (authorize_request e p lease_id) s = (Inr (l, mi, row), s1)"
    using assms(1) by (metis prod.collapse)
  have recipient: "smsbower_filters_given (request_options payload l mi)"
    using assms(3) by (auto simp: smsbower_filters_given_def request_options_def given_def or_text_def split: option.splits)
  show ?thesis
  proof (cases "poll_enter (client_key_id p) (ls_id l) b")
    case (Pair slot b1)
    show ?thesis
    proof (cases slot)
      case (Inl scope)
      with auth Pair show ?thesis by (simp add: get_lease_verification_code_def)
    next
      case (Inr x)
      with auth Pair recipient assms(2) show ?thesis
        by (cases "from_deprecated_code_regex (lo_code_regex (request_options payload l mi))")
          (auto simp: get_lease_verification_code_def wait_for_verification_code_def wait_for_smsbower_code_def Let_def run)
    qed
  qed
qed

theorem smsbower_code_never_delivered_witness:
  "fst (get_lease_verification_code steady_env (reading_service []) reader ''l'' plain_payload (reading_db ''smsbower_gmail'', idle_slots))
     \<in> Inl ` insert (PollFailed UnsupportedFilter) (range NoPollSlot \<union> range (PollFailed \<circ> PatternRefused))"
proof -
  have "fst (transaction (authorize_request steady_env reader ''l'') (reading_db ''smsbower_gmail''))
     = Inr (read_lease ''smsbower_gmail'', \<lparr>mi_id = ''r'', mi_provider_type = ''smsbower_gmail'', mi_primary_email = ''a@b.c'', mi_status = MbActive\<rparr>, None)"
    by code_simp
  from smsbower_code_never_delivered [OF this, of "reading_service []" plain_payload idle_slots]
  obtain err where err: "fst (get_lease_verification_code steady_env (reading_service []) reader ''l'' plain_payload (reading_db ''smsbower_gmail'', idle_slots)) = Inl err"
    "err \<in> insert (PollFailed UnsupportedFilter) (range NoPollSlot \<union> range (PollFailed \<circ> PatternRefused))" by auto
  show ?thesis unfolding err(1) by (rule imageI) (rule err(2))
qed

definition release_meanwhile :: "db \<Rightarrow> db" where
  "release_meanwhile s = s\<lparr>leases := map (\<lambda>l. l\<lparr>ls_released_at := Some 1\<rparr>) (leases s)\<rparr>"

definition releasing_env :: request_env where
  \<comment> \<open>another request releases the lease while the first round asks the provider\<close>
  "releasing_env = steady_env\<lparr>re_others := (\<lambda>r k. if r = 1 \<and> k = 1 then release_meanwhile else id)\<rparr>"

text \<open>
  A lease that is released while its code is fetched: the Microsoft path notices it at the checkpoint
  between finding the code and handing it out, the on-demand path has no such checkpoint, and the code is
  delivered and remembered although the caller's lease is over.
\<close>

theorem released_lease_still_gets_its_code:
  "delivered_code (fst (get_lease_verification_code releasing_env (reading_service []) reader ''l'' plain_payload (reading_db ''duckmail'', idle_slots)))
       = Some ''481516''
   \<and> fst (get_lease_verification_code releasing_env (reading_service [one_mail]) reader ''l'' plain_payload (mailbox_reading_db, idle_slots))
       = Inl (PollFailed (PollDenied PollLeaseInactive))"
  by (rule conjI; code_simp)

end
