(* ===== verification/MailboxAdmin.thy ===== *)
theory MailboxAdmin
  imports LeaseInvariant
begin

text \<open>
  The destructive mailbox operations of the administrator (\<open>mailbox_admin_service.py\<close>): deleting selected
  mailboxes, deleting the invalid ones in chunks of locked rows, and the forced release of what is leased
  on a mailbox. Rows locked by others are a parameter; the foreign keys of \<open>models.py\<close> that are set to NULL
  on delete are written out in \<open>delete_rows\<close>.
\<close>

subsection \<open>Claims that block\<close>

datatype admin_error = ActiveLeaseClaims "string list"

definition dict_fromkeys :: "'a list \<Rightarrow> 'a list" where
  \<comment> \<open>\<open>list(dict.fromkeys(xs))\<close>: first occurrences, in order\<close>
  "dict_fromkeys xs = rev (remdups (rev xs))"

lemma set_dict_fromkeys [simp]: "set (dict_fromkeys xs) = set xs"
  by (simp add: dict_fromkeys_def)

definition claimed_of :: "string list \<Rightarrow> lease_claim \<Rightarrow> bool" where
  \<comment> \<open>\<open>mailbox_id IN (...)\<close>; NULL is in no list\<close>
  "claimed_of ids c \<longleftrightarrow> (case lc_mailbox_id c of None \<Rightarrow> False | Some i \<Rightarrow> i \<in> set ids)"

definition active_claim_mailbox_ids :: "time \<Rightarrow> string list \<Rightarrow> db \<Rightarrow> string list" where
  "active_claim_mailbox_ids now ids s =
     (if ids = [] then []
      else map (\<lambda>c. the (lc_mailbox_id c)) (filter (\<lambda>c. claimed_of ids c \<and> \<not> is_expired (lc_expires_at c) now) (claims s)))"

definition admin_audit :: "string \<Rightarrow> string \<Rightarrow> string option \<Rightarrow> string \<Rightarrow> json \<Rightarrow> (db, 'e, unit) action" where
  "admin_audit admin_id event_type target_id operation_id metadata =
     write_audit_event ''admin'' (Some admin_id) event_type ''mailbox'' target_id (Some metadata) (Some operation_id)"

definition jstrs :: "string list \<Rightarrow> json" where
  "jstrs xs = JArr (map JStr xs)"

definition leased_now :: "time \<Rightarrow> string \<Rightarrow> lease \<Rightarrow> bool" where
  "leased_now now i l \<longleftrightarrow> ls_mailbox_id l = Some i \<and> ls_released_at l = None \<and> now < ls_expires_at l"

definition force_release_claims_and_leases :: "time \<Rightarrow> string \<Rightarrow> string \<Rightarrow> string \<Rightarrow> (db, 'e, unit) action" where
  "force_release_claims_and_leases now admin_id operation_id i =
     bnd (asks (\<lambda>s. map ls_id (filter (leased_now now i) (leases s)))) (\<lambda>released.
     andthen (modify (\<lambda>s. s\<lparr>leases := update_where (leased_now now i) (\<lambda>l. l\<lparr>ls_released_at := Some now\<rparr>) (leases s),
                            claims := delete_where (claimed_of [i]) (claims s)\<rparr>))
       (admin_audit admin_id ''lease.force_released_for_delete'' (Some i) operation_id (JObj [(''released_lease_ids'', jstrs released)])))"

fun for_each :: "('a \<Rightarrow> ('s, 'e, unit) action) \<Rightarrow> 'a list \<Rightarrow> ('s, 'e, unit) action" where
  "for_each f [] = ret ()"
| "for_each f (x # xs) = andthen (f x) (for_each f xs)"

subsection \<open>Deleting rows\<close>

definition null_in :: "string list \<Rightarrow> string option \<Rightarrow> string option" where
  \<comment> \<open>\<open>ON DELETE SET NULL\<close>\<close>
  "null_in ids v = (case v of None \<Rightarrow> None | Some i \<Rightarrow> if i \<in> set ids then None else Some i)"

definition mailbox_in :: "string list \<Rightarrow> string option \<Rightarrow> bool" where
  "mailbox_in ids v \<longleftrightarrow> (case v of None \<Rightarrow> False | Some i \<Rightarrow> i \<in> set ids)"

definition without_mailboxes :: "string list \<Rightarrow> db \<Rightarrow> db" where
  \<comment> \<open>the claims, the leases and the mailboxes are deleted in this order\<close>
  "without_mailboxes ids s =
     (let gone = map ls_id (filter (\<lambda>l. mailbox_in ids (ls_mailbox_id l)) (leases s)) in
      s\<lparr>claims := delete_where (claimed_of ids) (claims s),
        leases := delete_where (\<lambda>l. mailbox_in ids (ls_mailbox_id l)) (leases s),
        mailboxes := delete_where (\<lambda>m. mb_id m \<in> set ids) (mailboxes s),
        operations := map (\<lambda>o1. o1\<lparr>po_mailbox_id := null_in ids (po_mailbox_id o1)\<rparr>) (operations s),
        site_usages := map (\<lambda>u. u\<lparr>eu_mailbox_id := null_in ids (eu_mailbox_id u), eu_lease_id := null_in gone (eu_lease_id u)\<rparr>) (site_usages s)\<rparr>)"

definition delete_rows :: "string list \<Rightarrow> (db, 'e, unit) action" where
  "delete_rows ids = modify (without_mailboxes ids)"

record admin_delete_result =
  ad_deleted :: nat
  ad_deleted_mailbox_ids :: "string list"
  ad_missing_mailbox_ids :: "string list"
  ad_operation_id :: string

definition delete_found ::
    "time \<Rightarrow> string \<Rightarrow> string \<Rightarrow> bool \<Rightarrow> mailbox list \<Rightarrow> string list \<Rightarrow> (db, admin_error, admin_delete_result) action" where
  \<comment> \<open>from the locked rows on\<close>
  "delete_found now operation_id admin_id force rows missing =
     (let found = map mb_id rows in
      bnd (asks (active_claim_mailbox_ids now found)) (\<lambda>active.
      andthen (require (active = [] \<or> force) (ActiveLeaseClaims active))
     (andthen (for_each (\<lambda>i. if force then force_release_claims_and_leases now admin_id operation_id i else ret ()) found)
     (andthen
       (if found = [] then ret ()
        else andthen (delete_rows found)
         (admin_audit admin_id ''mailbox.deleted'' None operation_id
            (JObj [(''deleted'', JInt (int (length found))), (''deleted_mailbox_ids'', jstrs found),
                   (''deleted_primary_emails'', jstrs (map mb_primary_email rows)), (''missing_mailbox_ids'', jstrs missing),
                   (''force_release_active_leases'', JBool force)])))
       (ret \<lparr>ad_deleted = length found, ad_deleted_mailbox_ids = found, ad_missing_mailbox_ids = missing, ad_operation_id = operation_id\<rparr>)))))"

definition delete_mailboxes_by_ids ::
    "time \<Rightarrow> string \<Rightarrow> string list \<Rightarrow> string \<Rightarrow> bool \<Rightarrow> (db, admin_error, admin_delete_result) action" where
  "delete_mailboxes_by_ids now operation_id mailbox_ids admin_id force =
     (let unique = dict_fromkeys mailbox_ids in
      bnd (asks (\<lambda>s. sort_key mb_id (filter (\<lambda>m. mb_id m \<in> set unique) (mailboxes s)))) (\<lambda>rows.
      delete_found now operation_id admin_id force rows (filter (\<lambda>i. i \<notin> mb_id ` set rows) unique)))"

subsection \<open>Invalid mailboxes in chunks\<close>

record admin_delete_invalid_result =
  ai_deleted :: nat
  ai_deleted_mailbox_ids :: "string list"
  ai_deleted_primary_emails :: "string list"
  ai_operation_id :: string

definition invalid_chunk :: "string list \<Rightarrow> nat \<Rightarrow> db \<Rightarrow> mailbox list" where
  \<comment> \<open>\<open>ORDER BY id LIMIT batch_size FOR UPDATE SKIP LOCKED\<close>\<close>
  "invalid_chunk locked batch_size s =
     take batch_size (sort_key mb_id (filter (\<lambda>m. mb_status m = MbInvalid \<and> mb_id m \<notin> set locked) (mailboxes s)))"

definition delete_chunk :: "time \<Rightarrow> string \<Rightarrow> string \<Rightarrow> bool \<Rightarrow> nat \<Rightarrow> mailbox list \<Rightarrow> (db, admin_error, unit) action" where
  \<comment> \<open>the rows that are still invalid, under lock\<close>
  "delete_chunk now operation_id admin_id force index rows =
     (let ids = map mb_id rows in
      andthen
        (if force then for_each (force_release_claims_and_leases now admin_id operation_id) ids
         else bnd (asks (active_claim_mailbox_ids now ids)) (\<lambda>blocked. require (blocked = []) (ActiveLeaseClaims blocked)))
     (andthen (delete_rows ids)
       (admin_audit admin_id ''mailbox.invalid_deleted_chunk'' None operation_id
          (JObj [(''operation_id'', JStr operation_id), (''chunk_index'', JInt (int index)), (''deleted_mailbox_ids'', jstrs ids),
                 (''deleted_primary_emails'', jstrs (map mb_primary_email rows))]))))"

fun delete_chunks ::
    "time \<Rightarrow> string \<Rightarrow> string \<Rightarrow> bool \<Rightarrow> string list \<Rightarrow> nat \<Rightarrow> nat \<Rightarrow> nat \<Rightarrow> mailbox list
       \<Rightarrow> (db, admin_error, (mailbox list \<times> nat) option) action" where
  \<comment> \<open>fuel, index of the chunk, the rows deleted so far; \<open>None\<close> when the fuel is spent\<close>
  "delete_chunks now operation_id admin_id force locked batch_size 0 index deleted = ret None"
| "delete_chunks now operation_id admin_id force locked batch_size (Suc fuel) index deleted =
     bnd (asks (invalid_chunk locked batch_size)) (\<lambda>rows.
     if rows = [] then ret (Some (deleted, index))
     else bnd (asks (\<lambda>s. filter (\<lambda>m. mb_id m \<in> mb_id ` set rows \<and> mb_status m = MbInvalid) (mailboxes s))) (\<lambda>still.
       if still = [] then ret (Some (deleted, index))
       else andthen (delete_chunk now operation_id admin_id force index still)
         (if length rows < batch_size then ret (Some (deleted @ still, Suc index))
          else delete_chunks now operation_id admin_id force locked batch_size fuel (Suc index) (deleted @ still))))"

definition delete_invalid_mailboxes_in_chunks ::
    "time \<Rightarrow> string \<Rightarrow> string \<Rightarrow> nat \<Rightarrow> bool \<Rightarrow> string list \<Rightarrow> nat \<Rightarrow> (db, admin_error, admin_delete_invalid_result option) action" where
  "delete_invalid_mailboxes_in_chunks now operation_id admin_id batch_size force locked fuel =
     bnd (delete_chunks now operation_id admin_id force locked batch_size fuel 0 []) (\<lambda>r. case r of
       None \<Rightarrow> ret None
     | Some (deleted, chunks) \<Rightarrow>
         andthen
           (if deleted = [] then ret ()
            else admin_audit admin_id ''mailbox.invalid_deleted'' None operation_id
              (JObj [(''deleted'', JInt (int (length deleted))), (''deleted_mailbox_ids'', jstrs (map mb_id deleted)),
                     (''deleted_primary_emails'', jstrs (map mb_primary_email deleted)), (''chunks'', JInt (int chunks))]))
           (ret (Some \<lparr>ai_deleted = length deleted, ai_deleted_mailbox_ids = map mb_id deleted,
              ai_deleted_primary_emails = map mb_primary_email deleted, ai_operation_id = operation_id\<rparr>)))"

subsection \<open>Deletions keep the occupancy rules\<close>

lemma claim_of_mailbox: "claimed_of ids c \<longleftrightarrow> mailbox_in ids (lc_mailbox_id c)"
  by (simp add: claimed_of_def mailbox_in_def)

lemma occupancy_restrict:
  assumes s: "occupancy_ok now s" and claims: "claims t = filter p (claims s)"
    and leases: "distinct (map ls_id (leases t))" "\<And>c l. c \<in> set (claims t) \<Longrightarrow> l \<in> set (leases s) \<Longrightarrow> lease_backs l c \<Longrightarrow> l \<in> set (leases t)"
    and mailboxes: "mailboxes t = filter q (mailboxes s)"
      "\<And>c m. c \<in> set (claims t) \<Longrightarrow> m \<in> set (mailboxes s) \<Longrightarrow> lc_mailbox_id c = Some (mb_id m) \<Longrightarrow> q m"
    and resources: "resources t = resources s"
  shows "occupancy_ok now t"
proof -
  have row: "mailbox_row i t = mailbox_row i s" if "c \<in> set (claims t)" "lc_mailbox_id c = Some i" for c i
    unfolding mailbox_row_def mailboxes(1) by (rule row_by_filter) (use mailboxes(2) that in auto)
  have holder: "holder_primary (lc_mailbox_id c) (lc_provider_resource_id c) t = holder_primary (lc_mailbox_id c) (lc_provider_resource_id c) s"
    "holder_exists (lc_mailbox_id c) (lc_provider_resource_id c) t = holder_exists (lc_mailbox_id c) (lc_provider_resource_id c) s"
    if "c \<in> set (claims t)" for c
    using row [OF that] resources
    by (auto simp: holder_primary_def holder_exists_def resource_row_def present_def split: option.split)
  have "claims_ok now (s\<lparr>claims := claims t\<rparr>)"
    using claims_ok_filter [of now s "\<lambda>c. \<not> p c"] s claims by (simp add: occupancy_ok_def delete_where_def)
  then have "claims_ok now t"
    by (rule claims_ok_cong) (use holder(1) in \<open>auto simp: same_primaries_def\<close>)
  moreover have "distinct (map mb_id (mailboxes t))" "[] \<notin> mb_id ` set (mailboxes t)"
    using s unfolding mailboxes(1) by (auto simp: occupancy_ok_def distinct_map_filter)
  moreover have "\<exists>l \<in> set (leases t). lease_backs l c" if c: "c \<in> set (claims t)" for c
  proof -
    have "c \<in> set (claims s)" using c claims by simp
    from occupancy_claim(2) [OF s this] leases(2) [OF c] show ?thesis by blast
  qed
  moreover have "holder_exists (lc_mailbox_id c) (lc_provider_resource_id c) t" if "c \<in> set (claims t)" for c
    using holder(2) [OF that] s claims that by (auto simp: occupancy_ok_def)
  ultimately show ?thesis using leases(1) resources s by (simp add: occupancy_ok_def)
qed

lemma delete_rows_keeps: "keeps (occupancy_ok now) (delete_rows ids)"
  unfolding delete_rows_def
proof (rule keeps_modify)
  fix s
  assume s: "occupancy_ok now s"
  have "\<not> mailbox_in ids (ls_mailbox_id l)" if "\<not> claimed_of ids c" "lease_backs l c" for l c
    using that by (simp add: claim_of_mailbox lease_backs_def)
  then show "occupancy_ok now (without_mailboxes ids s)"
    by (intro occupancy_restrict [OF s, where p = "\<lambda>c. \<not> claimed_of ids c" and q = "\<lambda>m. mb_id m \<notin> set ids"])
      (use s in \<open>auto simp: without_mailboxes_def Let_def delete_where_def occupancy_ok_def claimed_of_def intro: distinct_map_filter\<close>)
qed

lemma qt_admin_audit: "steps quiet (admin_audit a ev i op md)"
  unfolding admin_audit_def by (rule qt_audit)

lemma admin_audit_keeps: "keeps (occupancy_ok now) (admin_audit a ev i op md)"
  by (rule qt.keeps [OF qt_admin_audit]) (rule quiet_occupancy)

lemma update_where_other: "l \<in> set rows \<Longrightarrow> \<not> p l \<Longrightarrow> l \<in> set (update_where p f rows)"
  by (force simp: set_update_where)

lemma released_now_keeps:
  assumes "occupancy_ok now s"
  shows "occupancy_ok now (s\<lparr>leases := update_where (leased_now now i) (\<lambda>l. l\<lparr>ls_released_at := Some now\<rparr>) (leases s),
     claims := delete_where (claimed_of [i]) (claims s)\<rparr>)"
proof (rule occupancy_restrict [OF assms, where p = "\<lambda>c. \<not> claimed_of [i] c" and q = "\<lambda>_. True"])
  fix c l
  let ?t = "s\<lparr>leases := update_where (leased_now now i) (\<lambda>l. l\<lparr>ls_released_at := Some now\<rparr>) (leases s),
     claims := delete_where (claimed_of [i]) (claims s)\<rparr>"
  assume "c \<in> set (claims ?t)" "l \<in> set (leases s)" "lease_backs l c"
  then have "\<not> leased_now now i l" by (auto simp: leased_now_def claimed_of_def lease_backs_def split: option.splits)
  with \<open>l \<in> set (leases s)\<close> show "l \<in> set (leases ?t)" by (simp add: update_where_other)
qed (use assms in \<open>auto simp: delete_where_def map_update_where occupancy_ok_def\<close>)

lemma force_release_keeps: "keeps (occupancy_ok now) (force_release_claims_and_leases now a op i)"
  unfolding force_release_claims_and_leases_def
  by (intro keep admin_audit_keeps keeps_modify released_now_keeps)

lemma keeps_for_each [keep]: "(\<And>x. keeps I (f x)) \<Longrightarrow> keeps I (for_each f xs)"
  by (induction xs) (auto intro: keep)

lemma delete_mailboxes_keeps: "keeps (occupancy_ok now) (delete_mailboxes_by_ids now op ids a force)"
  unfolding delete_mailboxes_by_ids_def delete_found_def Let_def
  by (intro keep delete_rows_keeps admin_audit_keeps force_release_keeps)

lemma delete_chunk_keeps: "keeps (occupancy_ok now) (delete_chunk now op a force n rows)"
  unfolding delete_chunk_def Let_def by (intro keep delete_rows_keeps admin_audit_keeps force_release_keeps)

lemma delete_chunks_keeps: "keeps (occupancy_ok now) (delete_chunks now op a force locked batch fuel n deleted)"
proof (induction fuel arbitrary: n deleted)
  case 0
  show ?case by (simp add: keeps_ret)
next
  case (Suc fuel)
  show ?case unfolding delete_chunks.simps by (intro keep delete_chunk_keeps Suc)
qed

lemma delete_invalid_keeps: "keeps (occupancy_ok now) (delete_invalid_mailboxes_in_chunks now op a batch force locked fuel)"
  unfolding delete_invalid_mailboxes_in_chunks_def
  by (intro keep delete_chunks_keeps) (auto split: prod.split intro!: keep admin_audit_keeps)

subsection \<open>What a deletion removes\<close>

definition mailboxes_same :: "db \<Rightarrow> db \<Rightarrow> bool" where
  "mailboxes_same s t \<longleftrightarrow> mailboxes t = mailboxes s"

interpretation ms: frame_relation mailboxes_same
  by unfold_locales (auto simp: mailboxes_same_def)

lemma ms_admin_audit: "steps mailboxes_same (admin_audit a ev i op md)"
  by (rule stepsI) (simp add: admin_audit_def write_audit_event_def run mailboxes_same_def)

lemma ms_force_release: "steps mailboxes_same (force_release_claims_and_leases now a op i)"
  unfolding force_release_claims_and_leases_def by (intro ms.rules ms.modify ms_admin_audit) (simp add: mailboxes_same_def)

lemma ms_for_each: "(\<And>x. steps mailboxes_same (f x)) \<Longrightarrow> steps mailboxes_same (for_each f xs)"
  by (induction xs) (auto intro: ms.ret ms.andthen)

definition unreferenced :: "string list \<Rightarrow> db \<Rightarrow> bool" where
  \<comment> \<open>no row of another table names one of the mailboxes\<close>
  "unreferenced ids s \<longleftrightarrow> (\<forall>c \<in> set (claims s). \<not> mailbox_in ids (lc_mailbox_id c))
     \<and> (\<forall>l \<in> set (leases s). \<not> mailbox_in ids (ls_mailbox_id l)) \<and> (\<forall>o1 \<in> set (operations s). \<not> mailbox_in ids (po_mailbox_id o1))
     \<and> (\<forall>u \<in> set (site_usages s). \<not> mailbox_in ids (eu_mailbox_id u))"

lemma null_in_gone: "\<not> mailbox_in ids (null_in ids v)"
  by (cases v) (simp_all add: null_in_def mailbox_in_def)

lemma without_mailboxes_effect:
  "mailboxes (without_mailboxes ids s) = filter (\<lambda>m. mb_id m \<notin> set ids) (mailboxes s)"
  "unreferenced ids (without_mailboxes ids s)"
  "claims (without_mailboxes ids s) = filter (\<lambda>c. \<not> claimed_of ids c) (claims s)"
  "leases (without_mailboxes ids s) = filter (\<lambda>l. \<not> mailbox_in ids (ls_mailbox_id l)) (leases s)"
  by (auto simp: without_mailboxes_def Let_def delete_where_def unreferenced_def null_in_gone claim_of_mailbox)

lemma admin_audit_Inr: "admin_audit a ev i op md s = (r, t) \<Longrightarrow> r = Inr () \<and> (\<exists>al. t = s\<lparr>audit_logs := al\<rparr>)"
  by (auto simp: admin_audit_def write_audit_event_def run)

lemma unreferenced_audit [simp]: "unreferenced ids (s\<lparr>audit_logs := al\<rparr>) = unreferenced ids s"
  by (simp add: unreferenced_def)

lemma delete_found_Inr:
  assumes "delete_found now op a force rows missing s = (Inr r, t)"
  shows "\<exists>u al. for_each (\<lambda>i. if force then force_release_claims_and_leases now a op i else ret ()) (map mb_id rows) s
        = (Inr () :: admin_error + unit, u)
      \<and> (active_claim_mailbox_ids now (map mb_id rows) s = [] \<or> force)
      \<and> t = (if rows = [] then u else (without_mailboxes (map mb_id rows) u)\<lparr>audit_logs := al\<rparr>)"
proof (cases "rows = []")
  case True
  with assms show ?thesis by (auto simp: delete_found_def Let_def returns)
next
  case False
  with assms show ?thesis
    by (auto simp: delete_found_def Let_def bnd_Inr_iff andthen_Inr_iff asks_Inr_iff ret_Inr_iff require_Inr_iff delete_rows_def
        modify_Inr_iff dest!: admin_audit_Inr)
qed

lemma sort_key_Nil [simp]: "sort_key f xs = [] \<longleftrightarrow> xs = []"
  by (metis length_0_conv length_sort)

lemma unreferenced_cong: "set ids = set js \<Longrightarrow> unreferenced ids s = unreferenced js s"
proof -
  assume "set ids = set js"
  then have "mailbox_in ids v = mailbox_in js v" for v by (cases v) (simp_all add: mailbox_in_def)
  then show ?thesis by (simp add: unreferenced_def)
qed

lemma no_active_claim:
  "active_claim_mailbox_ids now ids s = [] \<Longrightarrow> ids \<noteq> [] \<Longrightarrow> c \<in> set (claims s) \<Longrightarrow> claim_live now c \<Longrightarrow> \<not> claimed_of ids c"
  by (auto simp: active_claim_mailbox_ids_def filter_empty_conv claim_live_def is_expired_def)

lemma for_each_ret: "for_each (\<lambda>_. ret ()) xs s = (Inr (), s)"
  by (induction xs) (simp_all add: run)

lemma delete_found_free:
  assumes "active_claim_mailbox_ids now (map mb_id rows) s = []"
  shows "\<exists>r t. delete_found now op a False rows missing s = (Inr r, t)"
  using assms
  by (cases "rows = []")
    (simp_all add: delete_found_def Let_def run for_each_ret delete_rows_def admin_audit_def write_audit_event_def)

lemma active_claims_set:
  "set (active_claim_mailbox_ids now ids s)
     = {i. i \<in> set ids \<and> (\<exists>c \<in> set (claims s). lc_mailbox_id c = Some i \<and> claim_live now c)}"
proof (rule set_eqI)
  fix i
  show "i \<in> set (active_claim_mailbox_ids now ids s)
    \<longleftrightarrow> i \<in> {i. i \<in> set ids \<and> (\<exists>c \<in> set (claims s). lc_mailbox_id c = Some i \<and> claim_live now c)}"
    unfolding active_claim_mailbox_ids_def claimed_of_def claim_live_def is_expired_def
    by (cases "ids = []") (auto split: option.splits intro!: image_eqI)
qed

text \<open>
  Deleting mailboxes removes exactly the selected rows: afterwards the table holds the others in
  their order, no claim, lease, provider operation or site usage names a deleted mailbox, and the lease
  tables satisfy the occupancy rules.
\<close>

theorem selected_mailboxes_are_deleted:
  assumes "occupancy_ok now s" and "delete_mailboxes_by_ids now op ids a force s = (Inr r, t)"
  shows "mailboxes t = filter (\<lambda>m. mb_id m \<notin> set ids) (mailboxes s) \<and> occupancy_ok now t
    \<and> (set ids \<inter> mb_id ` set (mailboxes s) \<noteq> {} \<longrightarrow> unreferenced (filter (\<lambda>i. i \<in> mb_id ` set (mailboxes s)) ids) t)"
proof -
  let ?rows = "sort_key mb_id (filter (\<lambda>m. mb_id m \<in> set ids) (mailboxes s))"
  have found: "delete_found now op a force ?rows (filter (\<lambda>i. i \<notin> mb_id ` set ?rows) (dict_fromkeys ids)) s = (Inr r, t)"
    using assms(2) by (simp add: delete_mailboxes_by_ids_def bnd_run asks_run)
  obtain u al where u: "for_each (\<lambda>i. if force then force_release_claims_and_leases now a op i else ret ()) (map mb_id ?rows) s
      = (Inr () :: admin_error + unit, u)"
    and t: "t = (if ?rows = [] then u else (without_mailboxes (map mb_id ?rows) u)\<lparr>audit_logs := al\<rparr>)"
    using delete_found_Inr [OF found] by blast
  have "steps mailboxes_same (for_each (\<lambda>i. if force then force_release_claims_and_leases now a op i else ret ()) (map mb_id ?rows))"
    by (cases force) (auto intro!: ms_for_each ms_force_release ms.ret)
  from stepsD_eq [OF this u] have m: "mailboxes u = mailboxes s" by (simp add: mailboxes_same_def)
  have "mailboxes t = filter (\<lambda>m. mb_id m \<notin> set (map mb_id ?rows)) (mailboxes s)"
  proof (cases "?rows = []")
    case True
    with t m show ?thesis by (auto simp: filter_empty_conv)
  next
    case False
    have "mailboxes (w\<lparr>audit_logs := al\<rparr>) = mailboxes w" for w :: db by simp
    with t m False show ?thesis by (simp only: if_False without_mailboxes_effect)
  qed
  also have "\<dots> = filter (\<lambda>m. mb_id m \<notin> set ids) (mailboxes s)" by (rule filter_cong) auto
  finally have rows: "mailboxes t = filter (\<lambda>m. mb_id m \<notin> set ids) (mailboxes s)" .
  let ?found = "filter (\<lambda>i. i \<in> mb_id ` set (mailboxes s)) ids"
  have "unreferenced ?found t" if "set ids \<inter> mb_id ` set (mailboxes s) \<noteq> {}"
  proof -
    have "?rows \<noteq> []" using that by (auto simp: filter_empty_conv)
    then have "unreferenced (map mb_id ?rows) t" unfolding t by (simp only: if_False unreferenced_audit without_mailboxes_effect)
    moreover have "set (map mb_id ?rows) = set ?found" by auto
    ultimately show ?thesis by (simp only: unreferenced_cong [of ?found "map mb_id ?rows"])
  qed
  with rows keepsD_eq [OF delete_mailboxes_keeps assms] show ?thesis by simp
qed

text \<open>
  C35. Without the force flag a deletion never takes a mailbox from a running lease. When a selected mailbox
  has a live claim, the deletion is refused as a whole: the error names exactly the claimed ones and
  nothing changes. Otherwise exactly the selected mailboxes are gone, and every live claim is still there
  with the lease it stands for and with its mailbox unchanged.
\<close>

theorem deletion_spares_live_claims:
  assumes "occupancy_ok now s"
    and "taken = {i. i \<in> set ids \<and> i \<in> mb_id ` set (mailboxes s) \<and> (\<exists>c \<in> set (claims s). lc_mailbox_id c = Some i \<and> claim_live now c)}"
  shows "if taken \<noteq> {}
     then \<exists>named. delete_mailboxes_by_ids now op ids a False s = (Inl (ActiveLeaseClaims named), s) \<and> set named = taken
     else \<exists>r t. delete_mailboxes_by_ids now op ids a False s = (Inr r, t)
       \<and> mailboxes t = filter (\<lambda>m. mb_id m \<notin> set ids) (mailboxes s)
       \<and> (\<forall>c \<in> set (claims s). claim_live now c \<longrightarrow> c \<in> set (claims t) \<and> (\<exists>l \<in> set (leases t). lease_backs l c)
            \<and> (present (lc_mailbox_id c) \<longrightarrow> (\<exists>m. mailbox_row (the (lc_mailbox_id c)) s = Some m \<and> mailbox_row (the (lc_mailbox_id c)) t = Some m)))"
proof -
  let ?rows = "sort_key mb_id (filter (\<lambda>m. mb_id m \<in> set ids) (mailboxes s))"
  let ?found = "map mb_id ?rows"
  let ?m = "delete_found now op a False ?rows (filter (\<lambda>i. i \<notin> mb_id ` set ?rows) (dict_fromkeys ids))"
  have eq: "delete_mailboxes_by_ids now op ids a False s = ?m s"
    by (simp add: delete_mailboxes_by_ids_def bnd_run asks_run)
  have taken: "set (active_claim_mailbox_ids now ?found s) = taken"
    unfolding assms(2) active_claims_set by auto
  show ?thesis
  proof (cases "taken = {}")
    case False
    then have "?m s = (Inl (ActiveLeaseClaims (active_claim_mailbox_ids now ?found s)), s)"
      using taken by (auto simp: delete_found_def Let_def bnd_run andthen_run asks_run require_run)
    with False eq taken show ?thesis by auto
  next
    case True
    then have free: "active_claim_mailbox_ids now ?found s = []" using taken by simp
    obtain r t where m: "?m s = (Inr r, t)" using delete_found_free [OF free] by blast
    from delete_found_Inr [OF m] obtain al where
      t: "t = (if ?rows = [] then s else (without_mailboxes ?found s)\<lparr>audit_logs := al\<rparr>)"
      by (auto simp: for_each_ret)
    have kept: "mailboxes t = filter (\<lambda>m. mb_id m \<notin> set ids) (mailboxes s)"
    proof (cases "?rows = []")
      case True
      then have "filter (\<lambda>m. mb_id m \<in> set ids) (mailboxes s) = []" by (metis sort_key_Nil)
      then show ?thesis using t True by (simp add: filter_empty_conv filter_id_conv)
    next
      case False
      with t show ?thesis by (auto simp: without_mailboxes_effect intro!: filter_cong)
    qed
    have row: "mailbox_row i t = mailbox_row i s" if "i \<notin> set ids" for i
      unfolding mailbox_row_def kept by (rule row_by_filter) (use that in auto)
    have "c \<in> set (claims t) \<and> (\<exists>l \<in> set (leases t). lease_backs l c)
        \<and> (present (lc_mailbox_id c) \<longrightarrow> (\<exists>m. mailbox_row (the (lc_mailbox_id c)) s = Some m \<and> mailbox_row (the (lc_mailbox_id c)) t = Some m))"
      if c: "c \<in> set (claims s)" "claim_live now c" for c
    proof -
      obtain l where l: "l \<in> set (leases s)" "lease_backs l c" using occupancy_claim(2) [OF assms(1) c(1)] by blast
      have "\<not> claimed_of ?found c" if "?rows \<noteq> []"
        by (rule no_active_claim [OF free _ c]) (use that in simp)
      moreover have "\<not> mailbox_in ?found (ls_mailbox_id l)" if "\<not> claimed_of ?found c"
        using that l(2) by (simp add: claim_of_mailbox lease_backs_def)
      moreover have "claims (w\<lparr>audit_logs := al\<rparr>) = claims w" "leases (w\<lparr>audit_logs := al\<rparr>) = leases w" for w :: db by simp_all
      ultimately have "c \<in> set (claims t) \<and> (\<exists>l \<in> set (leases t). lease_backs l c)"
        using c(1) l t by (cases "?rows = []") (simp_all only: if_True if_False without_mailboxes_effect, auto)
      moreover have "\<exists>m. mailbox_row i s = Some m \<and> mailbox_row i t = Some m" if i: "lc_mailbox_id c = Some i" "i \<noteq> []" for i
      proof -
        obtain m where m: "mailbox_row i s = Some m"
          using occupancy_claim(1) [OF assms(1) c(1)] i by (auto simp: holder_exists_def present_def)
        then have "i \<in> mb_id ` set (mailboxes s)" using mailbox_row_id [OF m] by (auto simp: mailbox_row_def dest: row_by_Some)
        then have "i \<notin> set ids" using True c i(1) assms(2) by auto
        with m row show ?thesis by simp
      qed
      ultimately show ?thesis by (auto simp: present_def split: option.splits)
    qed
    with True eq m kept show ?thesis by auto
  qed
qed

subsection \<open>Deleting the invalid mailboxes\<close>

definition doomed :: "string list \<Rightarrow> mailbox \<Rightarrow> bool" where
  "doomed locked m \<longleftrightarrow> mb_status m = MbInvalid \<and> mb_id m \<notin> set locked"

lemma delete_chunk_Inr:
  assumes "delete_chunk now op a force n rows s = (Inr x, t)"
  shows "mailboxes t = filter (\<lambda>m. mb_id m \<notin> mb_id ` set rows) (mailboxes s)"
proof -
  obtain u where u: "(if force then for_each (force_release_claims_and_leases now a op) (map mb_id rows)
      else bnd (asks (active_claim_mailbox_ids now (map mb_id rows))) (\<lambda>blocked. require (blocked = []) (ActiveLeaseClaims blocked))) s = (Inr (), u)"
    and t: "\<exists>al. t = (without_mailboxes (map mb_id rows) u)\<lparr>audit_logs := al\<rparr>"
    using assms by (auto simp: delete_chunk_def Let_def andthen_Inr_iff delete_rows_def modify_Inr_iff dest!: admin_audit_Inr)
  have "mailboxes u = mailboxes s"
    using u stepsD_eq [OF ms_for_each [OF ms_force_release]] by (cases force) (auto simp: returns mailboxes_same_def)
  with t show ?thesis by (auto simp: without_mailboxes_effect)
qed

lemma chunk_rows:
  assumes "distinct (map mb_id (mailboxes s))"
  shows "filter (\<lambda>m. mb_id m \<in> mb_id ` set (invalid_chunk locked batch s) \<and> mb_status m = MbInvalid) (mailboxes s)
      = filter (\<lambda>m. m \<in> set (invalid_chunk locked batch s)) (mailboxes s)"
    and "m \<in> set (mailboxes s) \<Longrightarrow> mb_id m \<in> mb_id ` set (invalid_chunk locked batch s) \<Longrightarrow> m \<in> set (invalid_chunk locked batch s)"
    and "m \<in> set (invalid_chunk locked batch s) \<Longrightarrow> m \<in> set (mailboxes s) \<and> doomed locked m"
proof -
  have sub: "m \<in> set (mailboxes s) \<and> doomed locked m" if "m \<in> set (invalid_chunk locked batch s)" for m
    using in_set_takeD [OF that [unfolded invalid_chunk_def]] by (simp add: doomed_def)
  then show "m \<in> set (invalid_chunk locked batch s) \<Longrightarrow> m \<in> set (mailboxes s) \<and> doomed locked m" .
  have id: "m \<in> set (invalid_chunk locked batch s)" if "m \<in> set (mailboxes s)" "mb_id m \<in> mb_id ` set (invalid_chunk locked batch s)" for m
    using that sub assms by (metis (no_types, lifting) distinct_map image_iff inj_onD)
  then show "m \<in> set (mailboxes s) \<Longrightarrow> mb_id m \<in> mb_id ` set (invalid_chunk locked batch s) \<Longrightarrow> m \<in> set (invalid_chunk locked batch s)" .
  show "filter (\<lambda>m. mb_id m \<in> mb_id ` set (invalid_chunk locked batch s) \<and> mb_status m = MbInvalid) (mailboxes s)
      = filter (\<lambda>m. m \<in> set (invalid_chunk locked batch s)) (mailboxes s)"
    by (rule filter_cong) (use id sub in \<open>auto simp: doomed_def\<close>)
qed

lemma delete_chunks_result:
  assumes "distinct (map mb_id (mailboxes s))" and "0 < batch" and "length (filter (doomed locked) (mailboxes s)) < fuel"
  shows "case delete_chunks now op a force locked batch fuel n deleted s of
     (Inl _, _) \<Rightarrow> True
   | (Inr None, _) \<Rightarrow> False
   | (Inr (Some _), t) \<Rightarrow> mailboxes t = filter (\<lambda>m. \<not> doomed locked m) (mailboxes s)"
  using assms
proof (induction fuel arbitrary: n deleted s)
  case 0
  then show ?case by simp
next
  case (Suc fuel)
  let ?rows = "invalid_chunk locked batch s"
  note rows = chunk_rows [OF Suc.prems(1), where locked = locked and batch = batch]
  let ?still = "filter (\<lambda>m. m \<in> set ?rows) (mailboxes s)"
  show ?case
  proof (cases "?rows = []")
    case True
    then have "filter (\<lambda>m. doomed locked m) (mailboxes s) = []"
      using Suc.prems(2) by (simp add: invalid_chunk_def doomed_def)
    with True show ?thesis by (simp add: run filter_empty_conv)
  next
    case False
    then have still: "?still \<noteq> []" using rows(3) by (auto simp: filter_empty_conv) (metis last_in_set)
    obtain r u where u: "delete_chunk now op a force n ?still s = (r, u)" by fastforce
    show ?thesis
    proof (cases r)
      case (Inl e)
      with u False still rows(1) show ?thesis by (simp add: run)
    next
      case (Inr x)
      have "mb_id ` set ?still = mb_id ` set ?rows" using rows(3) by auto
      with delete_chunk_Inr [OF u [unfolded Inr]] have "mailboxes u = filter (\<lambda>m. mb_id m \<notin> mb_id ` set ?rows) (mailboxes s)" by simp
      also have "\<dots> = filter (\<lambda>m. m \<notin> set ?rows) (mailboxes s)" by (rule filter_cong) (use rows(2) in auto)
      finally have mu: "mailboxes u = filter (\<lambda>m. m \<notin> set ?rows) (mailboxes s)" .
      show ?thesis
      proof (cases "length ?rows < batch")
        case True
        then have "set ?rows = set (filter (doomed locked) (mailboxes s))"
          by (simp add: invalid_chunk_def doomed_def [abs_def])
        then have "mailboxes u = filter (\<lambda>m. \<not> doomed locked m) (mailboxes s)"
          unfolding mu by (intro filter_cong) auto
        with u Inr False still rows(1) True show ?thesis by (simp add: run)
      next
        case full: False
        have "length (filter (doomed locked) (mailboxes u)) < length (filter (doomed locked) (mailboxes s))"
        proof -
          obtain m where m: "m \<in> set ?rows" using False by (meson last_in_set)
          have "filter (doomed locked) (mailboxes u) = filter (\<lambda>x. x \<notin> set ?rows) (filter (doomed locked) (mailboxes s))"
            by (simp add: mu conj_commute)
          moreover have "m \<in> set (filter (doomed locked) (mailboxes s))" using rows(3) [OF m] by simp
          ultimately show ?thesis using m by (metis (no_types, lifting) length_filter_less)
        qed
        moreover have "distinct (map mb_id (mailboxes u))" using Suc.prems(1) by (simp add: mu distinct_map_filter)
        ultimately have "case delete_chunks now op a force locked batch fuel (Suc n) (deleted @ ?still) u of
            (Inl _, _) \<Rightarrow> True | (Inr None, _) \<Rightarrow> False
          | (Inr (Some _), t) \<Rightarrow> mailboxes t = filter (\<lambda>m. \<not> doomed locked m) (mailboxes u)"
          using Suc.prems(2,3) by (intro Suc.IH) simp_all
        note IH = this
        have e: "filter (\<lambda>m. \<not> doomed locked m) (mailboxes u) = filter (\<lambda>m. \<not> doomed locked m) (mailboxes s)"
          unfolding mu filter_filter by (rule filter_cong) (use rows(3) in auto)
        from IH [unfolded e] u Inr False still rows(1) full show ?thesis by (simp add: run)
      qed
    qed
  qed
qed

text \<open>
  C36. Deleting the invalid mailboxes ends and is complete: with one unit of fuel more than there are
  invalid mailboxes that nobody has locked, the loop over the chunks never runs out, and when no claim
  stops it, exactly those mailboxes are gone.
\<close>

theorem invalid_mailboxes_are_deleted:
  assumes "distinct (map mb_id (mailboxes s))" and "0 < batch" and "length (filter (doomed locked) (mailboxes s)) < fuel"
  shows "case delete_invalid_mailboxes_in_chunks now op a batch force locked fuel s of
     (Inl _, _) \<Rightarrow> True
   | (Inr None, _) \<Rightarrow> False
   | (Inr (Some _), t) \<Rightarrow> mailboxes t = filter (\<lambda>m. \<not> doomed locked m) (mailboxes s)"
  using delete_chunks_result [OF assms, of now op a force 0 "[]"]
  by (auto simp: delete_invalid_mailboxes_in_chunks_def run admin_audit_def write_audit_event_def split: prod.splits sum.splits option.splits)

subsection \<open>A table with a leased, an invalid and a locked mailbox\<close>

definition admin_lease :: lease where
  "admin_lease = \<lparr>ls_id = ''l'', ls_mailbox_id = Some ''a'', ls_provider_resource_id = None, ls_client_key_id = Some ''k'',
     ls_client_tag = None, ls_purpose = None, ls_allocated_email = None, ls_mode = AccessToken, ls_provider_type = ''microsoft'',
     ls_provider_instance_id = None, ls_provider_config_revision = None, ls_expires_at = 100, ls_released_at = None, ls_created_at = 0\<rparr>"

definition admin_db :: db where
  "admin_db = empty_db\<lparr>mailboxes := [sample_mailbox ''a'', (sample_mailbox ''b'')\<lparr>mb_status := MbInvalid\<rparr>, (sample_mailbox ''c'')\<lparr>mb_status := MbInvalid\<rparr>],
     leases := [admin_lease], claims := [claim_of_lease admin_lease None]\<rparr>"

lemma admin_db_ok: "occupancy_ok 1 admin_db"
  by (auto simp: occupancy_ok_def claims_ok_def admin_db_def empty_db_def claim_of_lease_def admin_lease_def sample_mailbox_def
      holder_exists_def lease_backs_def mailbox_row_def row_by_def present_def)

lemma admin_db_claims: "claim_of_lease admin_lease None \<in> set (claims admin_db)" "claim_live 1 (claim_of_lease admin_lease None)"
  by (simp_all add: admin_db_def claim_live_def claim_of_lease_def admin_lease_def)

theorem selected_mailboxes_are_deleted_witness:
  "\<exists>r t. delete_mailboxes_by_ids 1 ''op'' [''b'', ''a''] ''adm'' True admin_db = (Inr r, t)
     \<and> mailboxes t = [(sample_mailbox ''c'')\<lparr>mb_status := MbInvalid\<rparr>] \<and> occupancy_ok 1 t \<and> claims t = []"
proof -
  have "map_prod (\<lambda>r. case r of Inl _ \<Rightarrow> None | Inr x \<Rightarrow> Some (ad_deleted x)) claims
      (delete_mailboxes_by_ids 1 ''op'' [''b'', ''a''] ''adm'' True admin_db) = (Some 2, [])"
    by code_simp
  then obtain r t where t: "delete_mailboxes_by_ids 1 ''op'' [''b'', ''a''] ''adm'' True admin_db = (Inr r, t)" "claims t = []"
    by (cases "delete_mailboxes_by_ids 1 ''op'' [''b'', ''a''] ''adm'' True admin_db") (auto split: sum.splits)
  from selected_mailboxes_are_deleted [OF admin_db_ok t(1)] t show ?thesis by (auto simp: admin_db_def sample_mailbox_def)
qed

theorem deletion_spares_live_claims_witness:
  "(\<exists>named. delete_mailboxes_by_ids 1 ''op'' [''b'', ''a''] ''adm'' False admin_db = (Inl (ActiveLeaseClaims named), admin_db) \<and> set named = {''a''})
   \<and> (\<exists>r t. delete_mailboxes_by_ids 1 ''op'' [''b''] ''adm'' False admin_db = (Inr r, t) \<and> claim_of_lease admin_lease None \<in> set (claims t)
        \<and> map mb_id (mailboxes t) = [''a'', ''c''])"
proof -
  let ?taken = "\<lambda>ids. {i. i \<in> set ids \<and> i \<in> mb_id ` set (mailboxes admin_db)
      \<and> (\<exists>c \<in> set (claims admin_db). lc_mailbox_id c = Some i \<and> claim_live 1 c)}"
  have a: "?taken [''b'', ''a''] = {''a''}" "?taken [''b''] = {}"
    by (auto simp: admin_db_def claim_of_lease_def admin_lease_def sample_mailbox_def claim_live_def)
  have f: "map mb_id (filter (\<lambda>m. mb_id m \<notin> set [''b'']) (mailboxes admin_db)) = [''a'', ''c'']"
    by (simp add: admin_db_def sample_mailbox_def)
  show ?thesis
    using deletion_spares_live_claims [OF admin_db_ok a(1) [symmetric], of "''op''" "''adm''"]
      deletion_spares_live_claims [OF admin_db_ok a(2) [symmetric], of "''op''" "''adm''"] admin_db_claims f
    by fastforce
qed

theorem invalid_mailboxes_are_deleted_witness:
  "case delete_invalid_mailboxes_in_chunks 1 ''op'' ''adm'' 25 False [''c''] 2 admin_db of
     (Inl _, _) \<Rightarrow> True
   | (Inr None, _) \<Rightarrow> False
   | (Inr (Some _), t) \<Rightarrow> map mb_id (mailboxes t) = [''a'', ''c'']"
proof -
  have "distinct (map mb_id (mailboxes admin_db))" "length (filter (doomed [''c'']) (mailboxes admin_db)) < 2"
    "map mb_id (filter (\<lambda>m. \<not> doomed [''c''] m) (mailboxes admin_db)) = [''a'', ''c'']"
    by (simp_all add: admin_db_def sample_mailbox_def doomed_def)
  then show ?thesis
    using invalid_mailboxes_are_deleted [of admin_db 25 "[''c'']" 2 1 "''op''" "''adm''" False]
    by (auto split: prod.splits sum.splits option.splits)
qed

end
