(* ===== verification/MailboxImport.thy ===== *)
theory MailboxImport
  imports MailboxAdmin TokenService
begin

text \<open>
  Importing and exporting mailboxes as text with four segments per line (\<open>import_mailboxes\<close>,
  \<open>export_mailboxes\<close> of \<open>main.py\<close>). The validation of an address and the cipher are parameters, as are the
  ids that the session draws. A request is one transaction, with one clock reading.
\<close>

subsection \<open>Text\<close>

definition is_linebreak :: "char \<Rightarrow> bool" where
  \<comment> \<open>the characters \<open>str.splitlines\<close> breaks at, among the code points of the model\<close>
  "is_linebreak c \<longleftrightarrow> char_code c \<in> {10, 11, 12, 13, 28, 29, 30, 133}"

definition newline_char :: char where "newline_char = CHR 0x0A"

fun splitlines_from :: "string \<Rightarrow> string \<Rightarrow> string list" where
  "splitlines_from cur [] = (if cur = [] then [] else [cur])"
| "splitlines_from cur [c] = (if is_linebreak c then [cur] else [cur @ [c]])"
| "splitlines_from cur (c # d # s) =
     (if c = CHR 0x0D \<and> d = CHR 0x0A then cur # splitlines_from [] s
      else if is_linebreak c then cur # splitlines_from [] (d # s) else splitlines_from (cur @ [c]) (d # s))"

definition splitlines :: "string \<Rightarrow> string list" where
  "splitlines s = splitlines_from [] s"

function split_sep :: "string \<Rightarrow> string \<Rightarrow> string \<Rightarrow> string list" where
  \<comment> \<open>\<open>s.split(sep)\<close> for a separator that is not empty\<close>
  "split_sep sep cur s =
     (if s = [] then [cur]
      else if sep \<noteq> [] \<and> starts_with s sep then cur # split_sep sep [] (drop (length sep) s)
      else split_sep sep (cur @ [hd s]) (tl s))"
  by pat_completeness auto
termination
  by (relation "measure (\<lambda>(_, _, s). length s)") auto

declare split_sep.simps [simp del]

definition segment_separator :: string where "segment_separator = ''----''"

definition segments_of :: "string \<Rightarrow> string list" where
  "segments_of line = map strip (split_sep segment_separator [] (strip line))"

subsection \<open>Lines\<close>

datatype line_problem =
    SegmentCount | EmptySegment | BadEmail | DuplicateInBatch | OtherProvider | EmailExists | LeasedMailbox | NothingToImport

type_synonym mailbox_line = "string \<times> string \<times> string \<times> string"

definition parse_mailbox_import_line :: "(string \<Rightarrow> string option) \<Rightarrow> string \<Rightarrow> line_problem + mailbox_line" where
  \<comment> \<open>the byte order mark that is stripped as well is not a code point of the model\<close>
  "parse_mailbox_import_line validate raw =
     (case segments_of raw of
        [email, password, client_id, refresh_token] \<Rightarrow>
          if email = [] \<or> password = [] \<or> client_id = [] \<or> refresh_token = [] then Inl EmptySegment
          else (case validate email of None \<Rightarrow> Inl BadEmail | Some e \<Rightarrow> Inr (e, password, client_id, refresh_token))
      | _ \<Rightarrow> Inl SegmentCount)"

definition format_mailbox_import_line :: "mailbox_line \<Rightarrow> string" where
  "format_mailbox_import_line l = (case l of (email, password, client_id, refresh_token) \<Rightarrow>
     email @ ''----'' @ password @ ''----'' @ client_id @ ''----'' @ refresh_token)"

subsection \<open>Import\<close>

datatype conflict_policy = SkipExisting | ReplaceToken | FailExisting

datatype import_error = ImportConflict   \<comment> \<open>the database refuses the row\<close>

record import_env =
  imp_validate_email :: "string \<Rightarrow> string option"
  imp_encrypt :: "string \<Rightarrow> string"
  imp_mailbox_id :: "nat \<Rightarrow> string"      \<comment> \<open>by line\<close>
  imp_operation_id :: "nat \<Rightarrow> string"
  imp_now :: time
  imp_lifetime_days :: int
  imp_policy :: conflict_policy
  imp_force :: bool

record import_result =
  imr_created :: nat
  imr_updated :: nat
  imr_skipped :: nat
  imr_errors :: "(nat \<times> line_problem) list"
  imr_seen :: "string list"

definition line_error :: "nat \<Rightarrow> line_problem \<Rightarrow> import_result \<Rightarrow> import_result" where
  "line_error n e r = r\<lparr>imr_errors := imr_errors r @ [(n, e)]\<rparr>"

definition imported_mailbox :: "import_env \<Rightarrow> nat \<Rightarrow> mailbox_line \<Rightarrow> mailbox" where
  "imported_mailbox env n l = (case l of (email, password, client_id, refresh_token) \<Rightarrow>
     stamp_refresh_token_lifetime (imp_lifetime_days env) (imp_now env)
      \<lparr>mb_id = imp_mailbox_id env n, mb_provider_type = ''microsoft'', mb_primary_email = email, mb_status = MbActive,
       mb_client_id = Some client_id, mb_mail_password_ciphertext = Some (imp_encrypt env password),
       mb_refresh_token_ciphertext = Some (imp_encrypt env refresh_token), mb_refresh_token_updated_at = None,
       mb_refresh_token_expires_at = None, mb_access_token_ciphertext = None, mb_access_token_expires_at = None,
       mb_access_token_refreshed_at = None, mb_access_token_source_version = None, mb_scope = None, mb_capability = None,
       mb_capability_probed_at = None, mb_capability_probe_error = None, mb_last_verification_code = None,
       mb_last_code_checked_at = None, mb_last_code_message_id = None, mb_provider_config_json = None, mb_token_version = 1,
       mb_token_refresh_claim_id = None, mb_token_refresh_claim_expires_at = None, mb_egress_proxy_id = None,
       mb_proxy_bound_at = None, mb_proxy_last_switch_at = None, mb_created_at = imp_now env, mb_updated_at = imp_now env\<rparr>)"

definition replaced_credentials :: "import_env \<Rightarrow> mailbox_line \<Rightarrow> mailbox \<Rightarrow> mailbox" where
  \<comment> \<open>the credentials and everything that was derived from the old ones, and the version of the token\<close>
  "replaced_credentials env l m = (case l of (_, password, client_id, refresh_token) \<Rightarrow>
     (stamp_refresh_token_lifetime (imp_lifetime_days env) (imp_now env) m)
      \<lparr>mb_status := MbActive, mb_client_id := Some client_id, mb_mail_password_ciphertext := Some (imp_encrypt env password),
       mb_refresh_token_ciphertext := Some (imp_encrypt env refresh_token), mb_access_token_ciphertext := None,
       mb_access_token_expires_at := None, mb_access_token_refreshed_at := None, mb_access_token_source_version := None,
       mb_scope := None, mb_capability := None, mb_capability_probed_at := None, mb_capability_probe_error := None,
       mb_token_version := mb_token_version m + 1, mb_updated_at := imp_now env\<rparr>)"

definition policy_text :: "conflict_policy \<Rightarrow> string" where
  "policy_text p = (case p of SkipExisting \<Rightarrow> ''skip'' | ReplaceToken \<Rightarrow> ''replace_token'' | FailExisting \<Rightarrow> ''error'')"

definition insert_mailbox :: "mailbox \<Rightarrow> (db, import_error, unit) action" where
  \<comment> \<open>the drawn id is a new UUID; the unique index refuses a known address\<close>
  "insert_mailbox m =
     bnd (asks (\<lambda>s. mb_id m \<in> mb_id ` set (mailboxes s) \<or> mb_primary_email m \<in> mb_primary_email ` set (mailboxes s) \<or> mb_id m = [])) (\<lambda>taken.
     andthen (require (\<not> taken) ImportConflict) (modify (\<lambda>s. s\<lparr>mailboxes := mailboxes s @ [m]\<rparr>)))"

definition import_audit :: "string \<Rightarrow> string \<Rightarrow> string option \<Rightarrow> json \<Rightarrow> (db, 'e, unit) action" where
  "import_audit admin_id event_type target_id metadata =
     write_audit_event ''admin'' (Some admin_id) event_type ''mailbox'' target_id (Some metadata) None"

definition create_line :: "import_env \<Rightarrow> string \<Rightarrow> nat \<Rightarrow> mailbox_line \<Rightarrow> import_result \<Rightarrow> (db, import_error, import_result) action" where
  "create_line env admin_id n l r =
     (let m = imported_mailbox env n l in
      andthen (insert_mailbox m)
     (andthen (import_audit admin_id ''mailbox.import_item'' (Some (mb_id m))
         (JObj [(''action'', JStr ''created''), (''line_number'', JInt (int n)), (''primary_email'', JStr (fst l))]))
       (ret (r\<lparr>imr_created := imr_created r + 1\<rparr>))))"

definition replace_line :: "import_env \<Rightarrow> string \<Rightarrow> nat \<Rightarrow> mailbox_line \<Rightarrow> mailbox \<Rightarrow> import_result \<Rightarrow> (db, import_error, import_result) action" where
  "replace_line env admin_id n l m r =
     andthen (modify (write_mailbox (replaced_credentials env l m)))
    (andthen (import_audit admin_id ''mailbox.import_item'' (Some (mb_id m))
        (JObj [(''action'', JStr ''replaced''), (''line_number'', JInt (int n)), (''primary_email'', JStr (fst l)),
               (''token_version'', JInt (mb_token_version m + 1))]))
      (ret (r\<lparr>imr_updated := imr_updated r + 1\<rparr>)))"

definition existing_line :: "import_env \<Rightarrow> string \<Rightarrow> nat \<Rightarrow> mailbox_line \<Rightarrow> mailbox \<Rightarrow> import_result \<Rightarrow> (db, import_error, import_result) action" where
  "existing_line env admin_id n l m r =
     (if mb_provider_type m \<notin> {[], ''microsoft''} then ret (line_error n OtherProvider r)
      else case imp_policy env of
          SkipExisting \<Rightarrow> ret (r\<lparr>imr_skipped := imr_skipped r + 1\<rparr>)
        | FailExisting \<Rightarrow> ret (line_error n EmailExists r)
        | ReplaceToken \<Rightarrow>
            bnd (asks (active_claim_mailbox_ids (imp_now env) [mb_id m])) (\<lambda>active.
            if active = [] then replace_line env admin_id n l m r
            else if \<not> imp_force env then ret (line_error n LeasedMailbox r)
            else andthen (force_release_claims_and_leases (imp_now env) admin_id (imp_operation_id env n) (mb_id m))
              (replace_line env admin_id n l m r)))"

definition import_line :: "import_env \<Rightarrow> string \<Rightarrow> nat \<Rightarrow> string \<Rightarrow> import_result \<Rightarrow> (db, import_error, import_result) action" where
  "import_line env admin_id n raw r =
     (if strip raw = [] then ret r
      else case parse_mailbox_import_line (imp_validate_email env) raw of
          Inl e \<Rightarrow> ret (line_error n e r)
        | Inr l \<Rightarrow>
            if fst l \<in> set (imr_seen r) then ret (line_error n DuplicateInBatch r)
            else (let r' = r\<lparr>imr_seen := imr_seen r @ [fst l]\<rparr> in
              bnd (asks (\<lambda>s. find (\<lambda>m. mb_primary_email m = fst l) (mailboxes s))) (\<lambda>existing. case existing of
                None \<Rightarrow> create_line env admin_id n l r'
              | Some m \<Rightarrow> existing_line env admin_id n l m r')))"

fun import_lines :: "import_env \<Rightarrow> string \<Rightarrow> nat \<Rightarrow> string list \<Rightarrow> import_result \<Rightarrow> (db, import_error, import_result) action" where
  "import_lines env admin_id n [] r = ret r"
| "import_lines env admin_id n (raw # raws) r = bnd (import_line env admin_id n raw r) (import_lines env admin_id (Suc n) raws)"

definition empty_import :: import_result where
  "empty_import = \<lparr>imr_created = 0, imr_updated = 0, imr_skipped = 0, imr_errors = [], imr_seen = []\<rparr>"

definition import_mailboxes :: "import_env \<Rightarrow> string \<Rightarrow> string \<Rightarrow> (db, import_error, import_result) action" where
  "import_mailboxes env admin_id content =
     bnd (import_lines env admin_id 1 (splitlines content) empty_import) (\<lambda>r0.
     (let r = (if imr_seen r0 = [] \<and> imr_errors r0 = [] then line_error 0 NothingToImport r0 else r0) in
      andthen (import_audit admin_id ''mailbox.imported'' None
         (JObj [(''created'', JInt (int (imr_created r))), (''updated'', JInt (int (imr_updated r))),
                (''skipped'', JInt (int (imr_skipped r))), (''failed'', JInt (int (length (imr_errors r)))),
                (''on_conflict'', JStr (policy_text (imp_policy env)))]))
       (ret r)))"

subsection \<open>Export\<close>

datatype export_error = MissingMailboxes "string list" | DecryptFailed string | IncompleteCredentials "string list"

fun export_rows :: "(string \<Rightarrow> string option) \<Rightarrow> mailbox list \<Rightarrow> export_error + (string list \<times> mailbox_line list)" where
  \<comment> \<open>the addresses without complete credentials, and the lines of the others\<close>
  "export_rows decrypt [] = Inr ([], [])"
| "export_rows decrypt (m # ms) =
     (if mb_primary_email m = [] \<or> \<not> present (mb_client_id m) \<or> \<not> present (mb_mail_password_ciphertext m)
         \<or> \<not> present (mb_refresh_token_ciphertext m)
      then map_sum id (\<lambda>(bad, ls). (mb_primary_email m # bad, ls)) (export_rows decrypt ms)
      else case (decrypt (the (mb_mail_password_ciphertext m)), decrypt (the (mb_refresh_token_ciphertext m))) of
          (Some password, Some refresh_token) \<Rightarrow>
            map_sum id (\<lambda>(bad, ls).
              if password = [] \<or> refresh_token = [] then (mb_primary_email m # bad, ls)
              else (bad, (mb_primary_email m, password, the (mb_client_id m), refresh_token) # ls)) (export_rows decrypt ms)
        | _ \<Rightarrow> Inl (DecryptFailed (mb_primary_email m)))"

definition export_text :: "mailbox_line list \<Rightarrow> string" where
  "export_text ls = concat (map (\<lambda>l. format_mailbox_import_line l @ [newline_char]) ls)"

definition export_mailboxes :: "(string \<Rightarrow> string option) \<Rightarrow> string \<Rightarrow> string list \<Rightarrow> (db, export_error, string) action" where
  "export_mailboxes decrypt admin_id ids =
     bnd (asks (\<lambda>s. filter (\<lambda>i. mailbox_row i s = None) ids)) (\<lambda>missing.
     andthen (require (missing = []) (MissingMailboxes missing))
    (bnd (asks (\<lambda>s. map (\<lambda>i. the (mailbox_row i s)) ids)) (\<lambda>rows. case export_rows decrypt rows of
       Inl e \<Rightarrow> throw e
     | Inr (bad, ls) \<Rightarrow>
         andthen (require (bad = []) (IncompleteCredentials bad))
        (andthen (import_audit admin_id ''mailbox.exported'' None
            (JObj [(''exported'', JInt (int (length ls))), (''mailbox_ids'', jstrs ids)]))
          (ret (export_text ls))))))"

subsection \<open>What an import keeps\<close>

lemma qt_insert_mailbox: "steps quiet (insert_mailbox m)"
proof (rule stepsI)
  fix s
  show "quiet s (snd (insert_mailbox m s))"
    by (auto simp: insert_mailbox_def run quiet_def keys_kept_def mailbox_row_def resource_row_def row_by_append)
qed

lemma qt_import_audit: "steps quiet (import_audit a ev i md)"
  unfolding import_audit_def by (rule qt_audit)

lemma replaced_fields [simp]:
  "mb_id (replaced_credentials env l m) = mb_id m" "mb_primary_email (replaced_credentials env l m) = mb_primary_email m"
  "mb_token_version (replaced_credentials env l m) = mb_token_version m + 1"
  by (simp_all add: replaced_credentials_def stamp_refresh_token_lifetime_def split: prod.split)

lemma import_lines_run: "import_lines env a n (raw # raws) r s =
    (case import_line env a n raw r s of (Inl e, t) \<Rightarrow> (Inl e, t) | (Inr r', t) \<Rightarrow> import_lines env a (Suc n) raws r' t)"
  by (auto simp: bnd_run split: prod.splits sum.splits)

text \<open>
  The contract of an invariant of imports: an audit row and a new mailbox keep it, and so does replacing the credentials of a
  row the import may touch, after the forced release where that is asked for.
\<close>

locale import_invariant =
  fixes I :: "db \<Rightarrow> bool" and env :: import_env
  assumes calm: "I s \<Longrightarrow> I (s\<lparr>audit_logs := al\<rparr>)"
    and insert: "I s \<Longrightarrow> mb_id m \<notin> mb_id ` set (mailboxes s) \<Longrightarrow> mb_id m \<noteq> [] \<Longrightarrow> I (s\<lparr>mailboxes := mailboxes s @ [m]\<rparr>)"
    and release: "I s \<Longrightarrow> imp_force env \<Longrightarrow> I (snd ((force_release_claims_and_leases (imp_now env) a op i :: (db, import_error, unit) action) s))"
    and replace: "I s \<Longrightarrow> m \<in> set (mailboxes s) \<Longrightarrow> imp_policy env = ReplaceToken \<Longrightarrow> mb_provider_type m \<in> {[], ''microsoft''}
      \<Longrightarrow> imp_force env \<or> active_claim_mailbox_ids (imp_now env) [mb_id m] s = [] \<Longrightarrow> I (write_mailbox (replaced_credentials env l m) s)"
begin

lemma audit: "keeps I (import_audit a ev i md)"
  by (rule keepsI) (simp add: import_audit_def write_audit_event_def run calm)

lemma create_keeps: "keeps I (create_line env a n l r)"
proof -
  have "keeps I (insert_mailbox m)" for m
    by (rule keepsI) (auto simp: insert_mailbox_def run intro: insert)
  then show ?thesis unfolding create_line_def Let_def by (intro keep audit)
qed

lemma replace_keeps:
  assumes "I s" and "m \<in> set (mailboxes s)" and "imp_policy env = ReplaceToken" and "mb_provider_type m \<in> {[], ''microsoft''}"
    and "imp_force env \<or> active_claim_mailbox_ids (imp_now env) [mb_id m] s = []"
  shows "I (snd (replace_line env a n l m r s))"
  using replace [OF assms, of l]
  by (simp add: replace_line_def import_audit_def write_audit_event_def run calm)

lemma existing_keeps:
  assumes "I s" and "m \<in> set (mailboxes s)"
  shows "I (snd (existing_line env a n l m r s))"
proof (cases "mb_provider_type m \<in> {[], ''microsoft''} \<and> imp_policy env = ReplaceToken")
  case False
  with assms(1) show ?thesis by (auto simp: existing_line_def run split: conflict_policy.split)
next
  case True
  let ?free = "active_claim_mailbox_ids (imp_now env) [mb_id m] s = []"
  let ?rel = "force_release_claims_and_leases (imp_now env) a (imp_operation_id env n) (mb_id m) :: (db, import_error, unit) action"
  show ?thesis
  proof (cases "?free \<or> \<not> imp_force env")
    case True
    with \<open>mb_provider_type m \<in> _ \<and> _\<close> show ?thesis
      using replace_keeps [OF assms] assms(1) by (auto simp: existing_line_def run)
  next
    case forced: False
    have "mailboxes (snd (?rel s)) = mailboxes s" using stepsD [OF ms_force_release] by (simp add: mailboxes_same_def)
    then have "I (snd (replace_line env a n l m r (snd (?rel s))))"
      using forced \<open>mb_provider_type m \<in> _ \<and> _\<close> assms by (intro replace_keeps release) auto
    moreover have "snd (andthen ?rel (replace_line env a n l m r) s) = snd (replace_line env a n l m r (snd (?rel s)))"
      by (simp add: force_release_claims_and_leases_def admin_audit_def write_audit_event_def run)
    ultimately show ?thesis
      using forced \<open>mb_provider_type m \<in> _ \<and> _\<close> by (auto simp: existing_line_def bnd_run asks_run)
  qed
qed

lemma line_keeps: "keeps I (import_line env a n raw r)"
proof (rule keepsI)
  fix s
  assume s: "I s"
  show "I (snd (import_line env a n raw r s))"
  proof (cases "strip raw = [] \<or> (\<exists>e. parse_mailbox_import_line (imp_validate_email env) raw = Inl e)")
    case True
    with s show ?thesis by (auto simp: import_line_def run)
  next
    case False
    then obtain l where l: "parse_mailbox_import_line (imp_validate_email env) raw = Inr l" "strip raw \<noteq> []"
      by (metis sum.exhaust)
    let ?r = "r\<lparr>imr_seen := imr_seen r @ [fst l]\<rparr>"
    show ?thesis
    proof (cases "fst l \<in> set (imr_seen r)")
      case True
      with l s show ?thesis by (simp add: import_line_def run)
    next
      case new: False
      show ?thesis
      proof (cases "find (\<lambda>m. mb_primary_email m = fst l) (mailboxes s)")
        case None
        with l new show ?thesis by (simp add: import_line_def Let_def bnd_run asks_run keepsD [OF create_keeps s])
      next
        case (Some m)
        with find_some_mem [OF Some] l new show ?thesis
          by (simp add: import_line_def Let_def bnd_run asks_run existing_keeps [OF s])
      qed
    qed
  qed
qed

lemma import_keeps: "keeps I (import_mailboxes env a content)"
proof -
  have "keeps I (import_lines env a n raws r)" for n raws r
    by (induction raws arbitrary: n r) (auto intro: keep line_keeps)
  then show ?thesis unfolding import_mailboxes_def Let_def by (intro keep audit)
qed

end

lemma row_of_member: "mailbox_ids_unique s \<Longrightarrow> m \<in> set (mailboxes s) \<Longrightarrow> mailbox_row (mb_id m) s = Some m"
  by (simp add: mailbox_ids_unique_def mailbox_row_def row_by_unique)

lemma occupancy_unique: "occupancy_ok now s \<Longrightarrow> mailbox_ids_unique s"
  by (simp add: occupancy_ok_def mailbox_ids_unique_def)

lemma quiet_new_mailbox: "mb_id m \<notin> mb_id ` set (mailboxes s) \<Longrightarrow> mb_id m \<noteq> [] \<Longrightarrow> quiet s (s\<lparr>mailboxes := mailboxes s @ [m]\<rparr>)"
  by (auto simp: quiet_def keys_kept_def mailbox_row_def resource_row_def row_by_append)

interpretation occupied: import_invariant "occupancy_ok (imp_now env)" env for env
proof unfold_locales
  fix s m l
  assume s: "occupancy_ok (imp_now env) s" and m: "m \<in> set (mailboxes s)"
  show "occupancy_ok (imp_now env) (write_mailbox (replaced_credentials env l m) s)"
    by (rule quiet_occupancy [OF s qt_write_mailbox [of _ s m]]) (use row_of_member [OF occupancy_unique [OF s] m] in simp_all)
qed (auto intro: quiet_occupancy [OF _ quietI] quiet_occupancy [OF _ quiet_new_mailbox] keepsD [OF force_release_keeps])

lemma release_tables:
  "mailboxes (snd (force_release_claims_and_leases now a op i s)) = mailboxes s"
  by (simp add: force_release_claims_and_leases_def admin_audit_def write_audit_event_def run)

lemma advanced_from_trans: "rt_advance m m' \<Longrightarrow> rt_advance m' m'' \<Longrightarrow> rt_advance m m''"
  by (auto simp: rt_advance_def)

definition advanced_from :: "db \<Rightarrow> db \<Rightarrow> bool" where
  "advanced_from s t \<longleftrightarrow> mailbox_ids_unique t
     \<and> (\<forall>i m. mailbox_row i s = Some m \<longrightarrow> (\<exists>m'. mailbox_row i t = Some m' \<and> rt_advance m m'))"

interpretation advancing: import_invariant "advanced_from s0" env for s0 env
proof unfold_locales
  fix t and m :: mailbox
  assume "advanced_from s0 t" "mb_id m \<notin> mb_id ` set (mailboxes t)"
  then show "advanced_from s0 (t\<lparr>mailboxes := mailboxes t @ [m]\<rparr>)"
    by (fastforce simp: advanced_from_def mailbox_ids_unique_def mailbox_row_def row_by_append)
next
  fix t m l
  assume t: "advanced_from s0 t" and m: "m \<in> set (mailboxes t)"
  then have row: "mailbox_row (mb_id m) t = Some m" by (simp add: row_of_member advanced_from_def)
  have "rt_advance m (replaced_credentials env l m)" by (simp add: rt_advance_def)
  with t row show "advanced_from s0 (write_mailbox (replaced_credentials env l m) t)"
    by (fastforce simp: advanced_from_def mailbox_ids_unique_def write_mailbox_def mailbox_row_def intro: advanced_from_trans)
qed (auto simp: advanced_from_def mailbox_row_def mailbox_ids_unique_def release_tables)

definition token_or_unbound :: "string \<Rightarrow> string option \<Rightarrow> db \<Rightarrow> bool" where
  \<comment> \<open>the row has the given refresh token, or no access token is bound to its version\<close>
  "token_or_unbound i old t \<longleftrightarrow> (\<forall>m. mailbox_row i t = Some m \<longrightarrow>
     mb_refresh_token_ciphertext m = old \<or> mb_access_token_source_version m = None)"

interpretation unbinding: import_invariant "\<lambda>t. mailbox_ids_unique t \<and> mailbox_row i t \<noteq> None \<and> token_or_unbound i old t" env for i old env
proof unfold_locales
  fix t m l
  assume t: "mailbox_ids_unique t \<and> mailbox_row i t \<noteq> None \<and> token_or_unbound i old t" and m: "m \<in> set (mailboxes t)"
  have "mb_access_token_source_version (replaced_credentials env l m) = None"
    by (simp add: replaced_credentials_def split: prod.split)
  with t m show "mailbox_ids_unique (write_mailbox (replaced_credentials env l m) t)
      \<and> mailbox_row i (write_mailbox (replaced_credentials env l m) t) \<noteq> None
      \<and> token_or_unbound i old (write_mailbox (replaced_credentials env l m) t)"
    by (auto simp: token_or_unbound_def mailbox_ids_unique_def write_mailbox_def mailbox_row_def)
qed (auto simp: token_or_unbound_def mailbox_row_def mailbox_ids_unique_def row_by_append release_tables)

lemma overtaken:
  assumes "mailbox_ids_unique u" and "mailbox_row (rc_mailbox_id c) u = Some q" and "rc_expected_token_version c < mb_token_version q"
  shows "snd (complete_token_refresh c ro u) = u" and "snd (fail_token_refresh_invalid_grant c now u) = u"
    and "update_where (claim_matches c) g (mailboxes u) = mailboxes u" and "rowcount (claim_matches c) (mailboxes u) = 0"
proof -
  have none: "\<not> claim_matches c m" if "m \<in> set (mailboxes u)" for m
    using row_of_member [OF assms(1) that] assms(2,3) by (auto simp: claim_matches_def)
  then show "snd (complete_token_refresh c ro u) = u" "snd (fail_token_refresh_invalid_grant c now u) = u"
    using no_row_no_update [of u "claim_matches c", OF none]
    by (auto simp: complete_token_refresh_def fail_token_refresh_invalid_grant_def run)
  show "update_where (claim_matches c) g (mailboxes u) = mailboxes u" using none by (simp add: update_where_none)
  show "rowcount (claim_matches c) (mailboxes u) = 0" using none by (simp add: rowcount_def filter_empty_conv)
qed

lemma overtaken_reports:
  assumes "mailbox_ids_unique u" and "mailbox_row (rc_mailbox_id c) u = Some q" and "rc_expected_token_version c < mb_token_version q"
    and "mb_access_token_source_version q = None"
  shows "complete_token_refresh c (refresh_outcome_of tenv b c answer) u = (Inr None, u)"
  using overtaken [OF assms(1-3)] assms(2,4)
  by (simp add: complete_token_refresh_def run refresh_outcome_of_def Let_def confirm_completed_token_version_def)

text \<open>
  C37. An import wins over a refresh that is under way. A worker holds a granted claim on a mailbox; whatever
  claims, completions and replacements of others pass before and after it, once an import has replaced the refresh
  token of that mailbox, neither storing the outcome of the exchange nor declaring the mailbox invalid changes
  anything; and right after the import the worker's completion reports that nothing was stored. (The writes of the
  capability probe are not part of this protocol.)
\<close>

theorem import_defeats_running_refresh:
  assumes "mailbox_ids_unique s" and "claim_token_refresh decrypt cid now i ttl skip s = (Inr c, s1)"
    and "mailbox_row i (foldl (token_step decrypt) s1 es) = Some m"
    and "import_mailboxes env a content (foldl (token_step decrypt) s1 es) = (Inr r, t)" and "mailbox_row i t = Some m'"
    and "mb_refresh_token_ciphertext m' \<noteq> mb_refresh_token_ciphertext m"
  shows "complete_token_refresh c (refresh_outcome_of tenv b c answer) t = (Inr None, t)
     \<and> snd (complete_token_refresh c ro (foldl (token_step decrypt) t es')) = foldl (token_step decrypt) t es'
     \<and> snd (fail_token_refresh_invalid_grant c later (foldl (token_step decrypt) t es')) = foldl (token_step decrypt) t es'"
proof -
  let ?s = "foldl (token_step decrypt) s1 es"
  obtain m0 where c: "rc_mailbox_id c = i" "mailbox_row i s = Some m0" "rc_expected_token_version c = mb_token_version m0"
    and ids: "mailbox_ids_unique s1"
    using claim_installs [OF assms(1,2)] by blast
  have s1: "s1 = snd (claim_token_refresh decrypt cid now i ttl skip s)" by (simp add: assms(2))
  obtain m1 where m1: "mailbox_row i s1 = Some m1" "rt_advance m0 m1"
    using claim.row_advances [OF c(2)] unfolding s1 by blast
  then have read: "mb_token_version m0 \<le> mb_token_version m"
    using history_advances [OF m1(1), of decrypt es] assms(3) by (auto simp: rt_advance_def)
  have idss: "mailbox_ids_unique ?s" by (rule history_ids [OF ids])
  then have "advanced_from ?s ?s" by (simp add: advanced_from_def)
  from keepsD_eq [OF advancing.import_keeps this assms(4)] have adv: "advanced_from ?s t" .
  with assms(3,5,6) have new: "mb_token_version m < mb_token_version m'" and idst: "mailbox_ids_unique t"
    by (fastforce simp: advanced_from_def rt_advance_def)+
  have "mailbox_ids_unique ?s \<and> mailbox_row i ?s \<noteq> None \<and> token_or_unbound i (mb_refresh_token_ciphertext m) ?s"
    using idss assms(3) by (simp add: token_or_unbound_def)
  from keepsD_eq [OF unbinding.import_keeps this assms(4)] assms(5,6)
  have "mb_access_token_source_version m' = None" by (auto simp: token_or_unbound_def)
  moreover obtain q where q: "mailbox_row i (foldl (token_step decrypt) t es') = Some q" "rt_advance m' q"
    using history_advances [OF assms(5)] by blast
  ultimately show ?thesis
    using overtaken_reports [OF idst, where c = c and q = m'] overtaken(1,2) [OF history_ids [OF idst], where c = c and q = q] read new c assms(5)
    by (auto simp: rt_advance_def)
qed

definition off_limits :: "import_env \<Rightarrow> mailbox \<Rightarrow> db \<Rightarrow> bool" where
  "off_limits env m s \<longleftrightarrow> imp_policy env \<noteq> ReplaceToken \<or> mb_provider_type m \<notin> {[], ''microsoft''}
     \<or> (\<not> imp_force env \<and> active_claim_mailbox_ids (imp_now env) [mb_id m] s \<noteq> [])"

interpretation guarded: import_invariant
  "\<lambda>s. mailbox_ids_unique s \<and> mailbox_row (mb_id m) s = Some m \<and> off_limits env m s" env for m env
proof unfold_locales
  fix s k l
  assume s: "mailbox_ids_unique s \<and> mailbox_row (mb_id m) s = Some m \<and> off_limits env m s" and k: "k \<in> set (mailboxes s)"
    and may: "imp_policy env = ReplaceToken" "mb_provider_type k \<in> {[], ''microsoft''}"
      "imp_force env \<or> active_claim_mailbox_ids (imp_now env) [mb_id k] s = []"
  have "k \<noteq> m" using s may by (auto simp: off_limits_def)
  moreover have "mailbox_row (mb_id k) s = Some k" using s k by (simp add: row_of_member)
  ultimately have "mb_id k \<noteq> mb_id m" using s by auto
  with s show "mailbox_ids_unique (write_mailbox (replaced_credentials env l k) s)
      \<and> mailbox_row (mb_id m) (write_mailbox (replaced_credentials env l k) s) = Some m
      \<and> off_limits env m (write_mailbox (replaced_credentials env l k) s)"
    by (auto simp: mailbox_ids_unique_def write_mailbox_def mailbox_row_def off_limits_def active_claim_mailbox_ids_def)
qed (auto simp: off_limits_def mailbox_row_def mailbox_ids_unique_def active_claim_mailbox_ids_def row_by_append release_tables
    force_release_claims_and_leases_def admin_audit_def write_audit_event_def run)

text \<open>
  C9. An import touches a known mailbox only where it may: with the policies that skip or refuse known
  addresses, for a mailbox of another provider, and for a mailbox with a live claim unless the release is
  forced, the row is after the import what it was before, whatever the text contains, whether or not the import succeeds.
  (Mailbox ids are unique.)
\<close>

theorem guarded_mailbox_survives_import:
  assumes "mailbox_ids_unique s" and "mailbox_row i s = Some m" and "off_limits env m s"
  shows "mailbox_row i (snd (import_mailboxes env a content s)) = Some m"
proof -
  have "mb_id m = i" using assms(2) by (auto simp: mailbox_row_def dest: row_by_Some)
  with keepsD [OF guarded.import_keeps [where m = m and env = env], of s a content] assms show ?thesis by simp
qed

subsection \<open>Export and import are inverse\<close>

lemma not_starts_early:
  assumes "\<not> contains (c # x @ ''---'') ''----''"
  shows "\<not> starts_with (c # x @ ''----'' @ rest) ''----''"
proof
  assume start: "starts_with (c # x @ ''----'' @ rest) ''----''"
  have "take (length ''----'') ((c # x @ ''---'') @ ''-'' @ rest) = take (length ''----'') (c # x @ ''---'')"
    by (subst take_append) simp
  with start have "starts_with (c # x @ ''---'') ''----''" unfolding starts_with_def by simp
  with assms show False by simp
qed

lemma split_segment:
  "\<not> contains (x @ ''---'') ''----'' \<Longrightarrow>
     split_sep segment_separator cur (x @ ''----'' @ rest) = (cur @ x) # split_sep segment_separator [] rest"
proof (induction x arbitrary: cur)
  case Nil
  show ?case by (subst split_sep.simps) (simp add: segment_separator_def starts_with_def)
next
  case (Cons c x)
  have "\<not> starts_with (c # x @ ''----'' @ rest) segment_separator"
    using not_starts_early [of c x rest] Cons.prems by (simp add: segment_separator_def)
  then have "split_sep segment_separator cur ((c # x) @ ''----'' @ rest) = split_sep segment_separator (cur @ [c]) (x @ ''----'' @ rest)"
    by (subst split_sep.simps) simp
  with Cons show ?case by simp
qed

lemma split_last: "\<not> contains x ''----'' \<Longrightarrow> split_sep segment_separator cur x = [cur @ x]"
proof (induction x arbitrary: cur)
  case Nil
  show ?case by (subst split_sep.simps) simp
next
  case (Cons c x)
  then have "split_sep segment_separator cur (c # x) = split_sep segment_separator (cur @ [c]) x"
    by (subst split_sep.simps) (simp add: segment_separator_def)
  with Cons show ?case by simp
qed

definition clean_segment :: "string \<Rightarrow> bool" where
  \<comment> \<open>without spaces around it, not empty, without the separator in it or at its end\<close>
  "clean_segment x \<longleftrightarrow> x \<noteq> [] \<and> strip x = x \<and> \<not> contains (x @ ''---'') ''----''"

lemma contains_prefix: "contains x p \<Longrightarrow> contains (x @ y) p"
  by (force simp: contains_iff)

lemma clean_ends: "clean_segment x \<Longrightarrow> x \<noteq> [] \<and> \<not> is_space (hd x) \<and> \<not> is_space (last x)"
  by (auto simp: clean_segment_def strip_fixed)

lemma format_stripped:
  assumes "clean_segment e" and "clean_segment r"
  shows "strip (format_mailbox_import_line (e, p, c, r)) = format_mailbox_import_line (e, p, c, r)"
  using clean_ends [OF assms(1)] clean_ends [OF assms(2)] by (simp add: strip_fixed format_mailbox_import_line_def)

lemma parse_of_format:
  assumes "clean_segment e" "clean_segment p" "clean_segment c" "clean_segment r" and "validate e = Some e"
  shows "parse_mailbox_import_line validate (format_mailbox_import_line (e, p, c, r)) = Inr (e, p, c, r)"
proof -
  have "\<not> contains r ''----''" using assms(4) contains_prefix by (auto simp: clean_segment_def)
  then have "segments_of (format_mailbox_import_line (e, p, c, r)) = [e, p, c, r]"
    using assms unfolding segments_of_def format_stripped [OF assms(1,4)]
    by (simp add: format_mailbox_import_line_def clean_segment_def split_segment [of _ "[]", simplified] split_last [of _ "[]", simplified])
  with assms show ?thesis by (simp add: parse_mailbox_import_line_def clean_segment_def)
qed

definition one_line :: "string \<Rightarrow> bool" where
  "one_line x \<longleftrightarrow> (\<forall>c \<in> set x. \<not> is_linebreak c)"

lemma newline_breaks: "is_linebreak newline_char" "newline_char \<noteq> CHR 0x0D"
  by (simp_all add: is_linebreak_def newline_char_def)

lemma splitlines_line: "one_line l \<Longrightarrow> splitlines_from cur (l @ newline_char # s) = (cur @ l) # splitlines_from [] s"
proof (induction l arbitrary: cur)
  case Nil
  show ?case using newline_breaks by (cases s) simp_all
next
  case (Cons c l)
  obtain d k where k: "l @ newline_char # s = d # k" by (cases l) auto
  from Cons.prems have "\<not> is_linebreak c" "c \<noteq> CHR 0x0D" by (auto simp: one_line_def is_linebreak_def)
  then have "splitlines_from cur ((c # l) @ newline_char # s) = splitlines_from (cur @ [c]) (l @ newline_char # s)" by (simp add: k)
  with Cons show ?case by (simp add: one_line_def)
qed

lemma splitlines_export: "(\<And>l. l \<in> set ls \<Longrightarrow> one_line (format_mailbox_import_line l)) \<Longrightarrow>
    splitlines (export_text ls) = map format_mailbox_import_line ls"
  by (induction ls) (simp_all add: splitlines_def export_text_def splitlines_line)

definition portable :: "(string \<Rightarrow> string option) \<Rightarrow> mailbox_line \<Rightarrow> bool" where
  "portable validate l = (case l of (e, p, c, r) \<Rightarrow>
     (\<forall>x \<in> {e, p, c, r}. clean_segment x \<and> one_line x) \<and> validate e = Some e)"

definition stored_credentials :: "(string \<Rightarrow> string option) \<Rightarrow> mailbox \<Rightarrow> mailbox_line option" where
  \<comment> \<open>address, password, client id and refresh token of a row, in the clear\<close>
  "stored_credentials decrypt m =
     (case (Option.bind (mb_mail_password_ciphertext m) decrypt, mb_client_id m, Option.bind (mb_refresh_token_ciphertext m) decrypt) of
        (Some password, Some client_id, Some refresh_token) \<Rightarrow> Some (mb_primary_email m, password, client_id, refresh_token)
      | _ \<Rightarrow> None)"

lemma export_rows_lines:
  "export_rows decrypt ms = Inr ([], ls) \<Longrightarrow> map (stored_credentials decrypt) ms = map Some ls"
proof (induction ms arbitrary: ls)
  case (Cons m ms)
  from Cons.prems obtain p r ls' where "export_rows decrypt ms = Inr ([], ls')" and p: "present (mb_client_id m)"
      "present (mb_mail_password_ciphertext m)" "present (mb_refresh_token_ciphertext m)"
      "decrypt (the (mb_mail_password_ciphertext m)) = Some p" "decrypt (the (mb_refresh_token_ciphertext m)) = Some r"
      "ls = (mb_primary_email m, p, the (mb_client_id m), r) # ls'"
    by (cases "export_rows decrypt ms") (auto split: if_splits option.splits)
  moreover from p have "stored_credentials decrypt m = Some (mb_primary_email m, p, the (mb_client_id m), r)"
    by (auto simp: stored_credentials_def present_def split: option.splits)
  ultimately show ?case using Cons.IH by simp
qed simp

lemma exported:
  assumes "export_mailboxes decrypt admin ids s = (Inr content, s1)"
  obtains ls where "content = export_text ls" "map (\<lambda>i. stored_credentials decrypt (the (mailbox_row i s))) ids = map Some ls"
    "\<forall>i \<in> set ids. mailbox_row i s \<noteq> None"
proof -
  from assms obtain ls where "content = export_text ls"
    "export_rows decrypt (map (\<lambda>i. the (mailbox_row i s)) ids) = Inr ([], ls)" "filter (\<lambda>i. mailbox_row i s = None) ids = []"
    by (auto simp: export_mailboxes_def run import_audit_def write_audit_event_def split: sum.splits prod.splits if_splits)
  with that show thesis by (auto simp: filter_empty_conv comp_def dest: export_rows_lines)
qed

lemma portable_line:
  "portable validate l \<Longrightarrow> parse_mailbox_import_line validate (format_mailbox_import_line l) = Inr l
     \<and> strip (format_mailbox_import_line l) \<noteq> [] \<and> one_line (format_mailbox_import_line l)"
  by (cases l) (auto simp: portable_def parse_of_format format_stripped one_line_def is_linebreak_def, auto simp: format_mailbox_import_line_def)

lemma imported_fields:
  "mb_id (imported_mailbox env n l) = imp_mailbox_id env n" "mb_primary_email (imported_mailbox env n l) = fst l"
  "\<forall>x. decrypt (imp_encrypt env x) = Some x \<Longrightarrow> stored_credentials decrypt (imported_mailbox env n l) = Some l"
  by (auto simp: imported_mailbox_def stamp_refresh_token_lifetime_def stored_credentials_def split: prod.split)

lemma import_creates:
  assumes "\<forall>l \<in> set ls. portable (imp_validate_email env) l" and "distinct (map fst ls)"
    and "\<forall>l \<in> set ls. fst l \<notin> mb_primary_email ` set (mailboxes s) \<and> fst l \<notin> set (imr_seen r)"
    and "inj (imp_mailbox_id env)" and "\<forall>k \<ge> n. imp_mailbox_id env k \<notin> insert [] (mb_id ` set (mailboxes s))"
  shows "\<exists>t. import_lines env a n (map format_mailbox_import_line ls) r s =
      (Inr (r\<lparr>imr_created := imr_created r + length ls, imr_seen := imr_seen r @ map fst ls\<rparr>), t)
     \<and> mailboxes t = mailboxes s @ map (\<lambda>(k, l). imported_mailbox env k l) (List.enumerate n ls)"
  using assms
proof (induction ls arbitrary: n r s)
  case (Cons l ls)
  let ?r = "r\<lparr>imr_created := imr_created r + 1, imr_seen := imr_seen r @ [fst l]\<rparr>"
  have l: "parse_mailbox_import_line (imp_validate_email env) (format_mailbox_import_line l) = Inr l" "strip (format_mailbox_import_line l) \<noteq> []"
    using portable_line [of "imp_validate_email env" l] Cons.prems(1) by auto
  have unknown: "find (\<lambda>m. mb_primary_email m = fst l) (mailboxes s) = None"
    using Cons.prems(3) by (force simp: find_None_iff)
  obtain u where u: "import_line env a n (format_mailbox_import_line l) r s = (Inr ?r, u)"
    "mailboxes u = mailboxes s @ [imported_mailbox env n l]"
    using l unknown Cons.prems(3,5)
    by (simp add: import_line_def Let_def run create_line_def insert_mailbox_def imported_fields import_audit_def write_audit_event_def)
  have fresh: "\<forall>k \<ge> Suc n. imp_mailbox_id env k \<notin> insert [] (mb_id ` set (mailboxes u))"
    using Cons.prems(4,5) by (auto simp: u imported_fields dest: injD)
  have new: "\<forall>l' \<in> set ls. fst l' \<notin> mb_primary_email ` set (mailboxes u) \<and> fst l' \<notin> set (imr_seen ?r)"
  proof
    fix l' assume l': "l' \<in> set ls"
    then have "fst l' \<noteq> fst l" using Cons.prems(2) by (metis distinct.simps(2) image_eqI list.simps(9) list.set_map)
    with l' Cons.prems(3) show "fst l' \<notin> mb_primary_email ` set (mailboxes u) \<and> fst l' \<notin> set (imr_seen ?r)"
      by (simp add: u imported_fields)
  qed
  from Cons.IH [OF _ _ new Cons.prems(4) fresh] Cons.prems(1,2)
  show ?case by (auto simp: import_lines_run u simp del: import_lines.simps)
qed (simp add: ret_run)

text \<open>
  C38. Export and import are inverse. The text that \<open>export_mailboxes\<close> gives for some mailboxes, imported into an instance
  that knows none of their addresses, is accepted without an error and creates one mailbox for each of them, with the same
  address and client id and, decrypted there, the same password and refresh token. The credentials are to be free of line
  breaks, of spaces around them, and of the separator, also of dashes at the end, and the addresses as validation leaves them;
  addresses are unique, the new ids fresh, and the importing instance reads what it has encrypted.
\<close>

theorem export_import_roundtrip:
  assumes "export_mailboxes decrypt admin ids s = (Inr content, s1)" and "ids \<noteq> []" and "distinct ids"
    and "distinct (map mb_primary_email (mailboxes s))"
    and "\<forall>i \<in> set ids. \<forall>m l. mailbox_row i s = Some m \<and> stored_credentials decrypt m = Some l \<longrightarrow>
           portable (imp_validate_email env) l \<and> mb_primary_email m \<notin> mb_primary_email ` set (mailboxes u)"
    and "inj (imp_mailbox_id env)" and "\<forall>k. imp_mailbox_id env k \<notin> insert [] (mb_id ` set (mailboxes u))"
    and "\<forall>x. decrypt' (imp_encrypt env x) = Some x"
  shows "\<exists>r t. import_mailboxes env a content u = (Inr r, t) \<and> imr_created r = length ids \<and> imr_errors r = []
     \<and> (\<forall>i \<in> set ids. \<exists>m m' line. mailbox_row i s = Some m \<and> m' \<in> set (mailboxes t)
          \<and> stored_credentials decrypt m = Some line \<and> stored_credentials decrypt' m' = Some line)"
proof -
  obtain ls where ls: "content = export_text ls" "map (\<lambda>i. stored_credentials decrypt (the (mailbox_row i s))) ids = map Some ls"
    and rows: "\<forall>i \<in> set ids. mailbox_row i s \<noteq> None"
    by (rule exported [OF assms(1)])
  have line: "\<exists>l \<in> set ls. stored_credentials decrypt (the (mailbox_row i s)) = Some l" if "i \<in> set ids" for i
    using arg_cong [OF ls(2), of set] that by auto
  have row: "\<exists>i \<in> set ids. stored_credentials decrypt (the (mailbox_row i s)) = Some l" if "l \<in> set ls" for l
    using arg_cong [OF ls(2), of set] that by (metis (mono_tags, lifting) imageE imageI list.set_map)
  have email: "fst l = mb_primary_email m" if "stored_credentials decrypt m = Some l" for m l
    using that by (auto simp: stored_credentials_def split: option.splits)
  have "map fst ls = map (\<lambda>i. mb_primary_email (the (mailbox_row i s))) ids"
    using ls(2) email by (auto simp: list_eq_iff_nth_eq map_equality_iff)
  moreover have "distinct (map (\<lambda>i. mb_primary_email (the (mailbox_row i s))) ids)"
  proof (rule distinct_map [THEN iffD2], intro conjI assms(3) inj_onI)
    fix i j assume i: "i \<in> set ids" and j: "j \<in> set ids"
      and same: "mb_primary_email (the (mailbox_row i s)) = mb_primary_email (the (mailbox_row j s))"
    obtain m n where "mailbox_row i s = Some m" "mailbox_row j s = Some n" using rows i j by blast
    with mailbox_row_id [of i s m] mailbox_row_id [of j s n] same inj_onD [OF distinct_map [THEN iffD1, OF assms(4), THEN conjunct2], of m n]
    show "i = j" by simp
  qed
  ultimately have dist: "distinct (map fst ls)" by simp
  have good: "portable (imp_validate_email env) l \<and> fst l \<notin> mb_primary_email ` set (mailboxes u)" if l: "l \<in> set ls" for l
  proof -
    obtain i m where i: "i \<in> set ids" "mailbox_row i s = Some m" "stored_credentials decrypt m = Some l"
      using row [OF l] rows by force
    from assms(5) i(1) have "\<forall>m l. mailbox_row i s = Some m \<and> stored_credentials decrypt m = Some l \<longrightarrow>
        portable (imp_validate_email env) l \<and> mb_primary_email m \<notin> mb_primary_email ` set (mailboxes u)" by (rule bspec)
    with i(2,3) email [OF i(3)] show ?thesis by metis
  qed
  have split: "splitlines content = map format_mailbox_import_line ls"
    unfolding ls(1) by (rule splitlines_export) (use good portable_line in blast)
  obtain t where t: "import_lines env a 1 (map format_mailbox_import_line ls) empty_import u =
      (Inr (empty_import\<lparr>imr_created := length ls, imr_seen := map fst ls\<rparr>), t)"
    "mailboxes t = mailboxes u @ map (\<lambda>(k, l). imported_mailbox env k l) (List.enumerate 1 ls)"
    using import_creates [of ls env u empty_import 1 a] good dist assms(6,7) by (auto simp: empty_import_def)
  have len: "length ls = length ids" using arg_cong [OF ls(2), of length] by simp
  have "\<exists>m' \<in> set (mailboxes t). stored_credentials decrypt' m' = Some l" if l: "l \<in> set ls" for l
  proof -
    have "l \<in> snd ` set (List.enumerate 1 ls)" using l by (metis list.set_map map_snd_enumerate)
    then show ?thesis using imported_fields(3) [OF assms(8)] by (force simp: t(2))
  qed
  with line rows have "\<forall>i \<in> set ids. \<exists>m m' line. mailbox_row i s = Some m \<and> m' \<in> set (mailboxes t)
      \<and> stored_credentials decrypt m = Some line \<and> stored_credentials decrypt' m' = Some line"
    by (metis option.exhaust_sel)
  moreover have "\<exists>t'. import_mailboxes env a content u = (Inr (empty_import\<lparr>imr_created := length ls, imr_seen := map fst ls\<rparr>), t')
      \<and> mailboxes t' = mailboxes t"
  proof -
    have "map fst ls \<noteq> []" using len assms(2) by auto
    then show ?thesis
      unfolding import_mailboxes_def split bnd_run t(1) Let_def prod.case sum.case
      by (simp add: import_audit_def write_audit_event_def run)
  qed
  ultimately show ?thesis using len by (fastforce simp: empty_import_def)
qed

text \<open>
  A dash at the end of a password moves into the client id: exporting such a mailbox and importing the
  file again is reported as a success and stores another password and another client id.
\<close>

theorem trailing_dash_corrupts_credentials:
  "parse_mailbox_import_line Some (format_mailbox_import_line (''a@b.c'', ''pw-'', ''cid'', ''rt'')) = Inr (''a@b.c'', ''pw'', ''-cid'', ''rt'')"
  by code_simp

subsection \<open>Imports over a leased and an idle mailbox\<close>

definition importing :: "conflict_policy \<Rightarrow> bool \<Rightarrow> import_env" where
  "importing p force = \<lparr>imp_validate_email = Some, imp_encrypt = id, imp_mailbox_id = (\<lambda>_. ''new''), imp_operation_id = (\<lambda>_. ''op''),
     imp_now = 1, imp_lifetime_days = 90, imp_policy = p, imp_force = force\<rparr>"

definition import_line_of :: "string \<Rightarrow> string" where
  "import_line_of i = i @ ''@x.com----pw----cid----rt1''"

lemma admin_db_unique: "mailbox_ids_unique admin_db"
  by (rule occupancy_unique [OF admin_db_ok])

lemma admin_rows: "mailbox_row ''a'' admin_db = Some (sample_mailbox ''a'')"
  "mailbox_row ''b'' admin_db = Some ((sample_mailbox ''b'')\<lparr>mb_status := MbInvalid\<rparr>)"
  by (simp_all add: admin_db_def mailbox_row_def row_by_def sample_mailbox_def)

lemma import_run:
  "map_prod (\<lambda>r. case r of Inl _ \<Rightarrow> None | Inr x \<Rightarrow> Some (imr_updated x)) (\<lambda>t. map_option mb_refresh_token_ciphertext (mailbox_row ''b'' t))
     (import_mailboxes (importing ReplaceToken False) ''adm'' (import_line_of ''b'') admin_db) = (Some 1, Some (Some ''rt1''))"
  by code_simp

definition credited_db :: db where
  "credited_db = empty_db\<lparr>mailboxes := [(sample_mailbox ''b'')\<lparr>mb_mail_password_ciphertext := Some ''p w''\<rparr>]\<rparr>"

lemma credited_row: "mailbox_row ''b'' credited_db = Some ((sample_mailbox ''b'')\<lparr>mb_mail_password_ciphertext := Some ''p w''\<rparr>)"
  by (simp add: credited_db_def mailbox_row_def row_by_def sample_mailbox_def)

lemma credited_unique: "mailbox_ids_unique credited_db" "distinct (map mb_primary_email (mailboxes credited_db))"
  by (simp_all add: credited_db_def mailbox_ids_unique_def)

lemma overtaking_run:
  "(case claim_token_refresh Some ''c1'' 0 ''b'' 60 True credited_db of (Inl _, _) \<Rightarrow> False | (Inr c, s1) \<Rightarrow>
      rc_mailbox_id c = ''b'' \<and> map_option mb_refresh_token_ciphertext (mailbox_row ''b'' s1) = Some (Some ''rt0'')
      \<and> (case import_mailboxes (importing ReplaceToken False) ''adm'' (import_line_of ''b'') s1 of (Inl _, _) \<Rightarrow> False | (Inr r, t) \<Rightarrow>
           map_option mb_refresh_token_ciphertext (mailbox_row ''b'' t) = Some (Some ''rt1'')))"
  by code_simp

theorem import_defeats_running_refresh_witness:
  "\<exists>c s1 r t. claim_token_refresh Some ''c1'' 0 ''b'' 60 True credited_db = (Inr c, s1)
     \<and> import_mailboxes (importing ReplaceToken False) ''adm'' (import_line_of ''b'') s1 = (Inr r, t)
     \<and> (\<forall>tenv b answer. complete_token_refresh c (refresh_outcome_of tenv b c answer) t = (Inr None, t))"
proof -
  obtain c s1 where c: "claim_token_refresh Some ''c1'' 0 ''b'' 60 True credited_db = (Inr c, s1)"
    using overtaking_run by (auto split: prod.splits sum.splits)
  obtain r t where t: "import_mailboxes (importing ReplaceToken False) ''adm'' (import_line_of ''b'') s1 = (Inr r, t)"
    using overtaking_run c by (auto split: prod.splits sum.splits)
  obtain m m' where m: "mailbox_row ''b'' s1 = Some m" "mb_refresh_token_ciphertext m = Some ''rt0''"
      "mailbox_row ''b'' t = Some m'" "mb_refresh_token_ciphertext m' = Some ''rt1''"
    using overtaking_run c t by auto
  have "complete_token_refresh c (refresh_outcome_of tenv b c answer) t = (Inr None, t)" for tenv b answer
    using import_defeats_running_refresh [OF credited_unique(1) c, of "[]"] m t by simp
  with c t show ?thesis by blast
qed

lemma export_run: "(case export_mailboxes Some ''adm'' [''b''] credited_db of (Inl _, _) \<Rightarrow> False
    | (Inr content, _) \<Rightarrow> content = ''b@x.com----p w----cid----rt0'' @ [newline_char])"
  by code_simp

theorem export_import_roundtrip_witness:
  "\<exists>content s1 r t m'. export_mailboxes Some ''adm'' [''b''] credited_db = (Inr content, s1)
     \<and> import_mailboxes (importing FailExisting False\<lparr>imp_encrypt := \<lambda>x. CHR ''#'' # x, imp_mailbox_id := \<lambda>n. replicate (Suc n) CHR ''x''\<rparr>)
          ''adm'' content empty_db = (Inr r, t)
     \<and> imr_created r = 1 \<and> m' \<in> set (mailboxes t)
     \<and> stored_credentials (\<lambda>x. Some (tl x)) m' = Some (''b@x.com'', ''p w'', ''cid'', ''rt0'')"
proof -
  let ?env = "importing FailExisting False\<lparr>imp_encrypt := \<lambda>x. CHR ''#'' # x, imp_mailbox_id := \<lambda>n. replicate (Suc n) CHR ''x''\<rparr>"
  obtain content s1 where x: "export_mailboxes Some ''adm'' [''b''] credited_db = (Inr content, s1)"
    using export_run by (auto split: prod.splits sum.splits)
  have line: "stored_credentials Some (the (mailbox_row ''b'' credited_db)) = Some (''b@x.com'', ''p w'', ''cid'', ''rt0'')"
    by (simp add: credited_row stored_credentials_def sample_mailbox_def)
  have "portable Some (''b@x.com'', ''p w'', ''cid'', ''rt0'')" by code_simp
  then have "portable (imp_validate_email ?env) (''b@x.com'', ''p w'', ''cid'', ''rt0'')" by (simp add: importing_def)
  moreover have "inj (imp_mailbox_id ?env)" by (auto simp: inj_def dest: arg_cong [where f = length])
  ultimately obtain r t where t: "import_mailboxes ?env ''adm'' content empty_db = (Inr r, t)" "imr_created r = 1"
    "\<exists>m'. m' \<in> set (mailboxes t) \<and> stored_credentials (\<lambda>x. Some (tl x)) m' = Some (''b@x.com'', ''p w'', ''cid'', ''rt0'')"
    using export_import_roundtrip [OF x _ _ credited_unique(2), of ?env empty_db "\<lambda>x. Some (tl x)" "''adm''"] line credited_row
    by (fastforce simp: empty_db_def importing_def)
  with x show ?thesis by blast
qed

theorem guarded_mailbox_survives_import_witness:
  "mailbox_row ''a'' (snd (import_mailboxes (importing ReplaceToken False) ''adm'' (import_line_of ''a'') admin_db)) = Some (sample_mailbox ''a'')"
proof (rule guarded_mailbox_survives_import [OF admin_db_unique admin_rows(1)])
  show "off_limits (importing ReplaceToken False) (sample_mailbox ''a'') admin_db" by code_simp
qed

end
