(* ===== verification/ProxyAdmin.thy ===== *)
theory ProxyAdmin
  imports PoolFrame Security
begin

text \<open>
  The administration of the egress proxies (the handlers of \<open>main.py\<close> with the payload checks of
  \<open>schemas.py\<close>): creating a proxy with or without the credentials of another one, updating, switching
  and deleting it, the policy, and what keeps the pool well formed over every operation that writes it.
  Digests, encryption (with its drawn nonce), new ids and the wording of the database's unique
  violations are parameters; a failing request rolls its transaction back.
\<close>

datatype proxy_admin_error =
    ProxyNotFound | EncryptionNotConfigured | CredentialCopyFailed | CredentialUnreadable
  | EndpointConflict | NameConflict | ProxyConflict | HasBoundMailboxes | PolicyFieldNull

record pool_cipher =
  pc_decrypt :: "string \<Rightarrow> string option"   \<comment> \<open>\<open>None\<close>: it raises\<close>
  pc_hmac_key :: string

record proxy_admin_env =
  pa_now :: time
  pa_admin :: string
  pa_new_id :: string
  pa_cipher :: "pool_cipher option"
  pa_encrypt :: "string \<Rightarrow> string"
  pa_sha :: "string \<Rightarrow> string"
  pa_hmac :: "string \<Rightarrow> string \<Rightarrow> string"
  pa_violation_message :: "string \<Rightarrow> string"   \<comment> \<open>of the violated constraint\<close>

subsection \<open>Payloads\<close>

record proxy_create =
  pn_name :: string
  pn_protocol :: proxy_protocol
  pn_host :: string
  pn_port :: int
  pn_username :: "string option"
  pn_password :: "string option"
  pn_enabled :: bool
  pn_priority :: int
  pn_copy_from :: "string option"

record proxy_update =
  pu_written :: "string list"   \<comment> \<open>\<open>model_fields_set\<close>\<close>
  pu_name :: "string option"
  pu_protocol :: "proxy_protocol option"
  pu_host :: "string option"
  pu_port :: "int option"
  pu_username :: "string option"
  pu_password :: "string option"
  pu_enabled :: "bool option"
  pu_priority :: "int option"

definition normalize_nonempty_text :: "nat \<Rightarrow> string \<Rightarrow> string option" where
  \<comment> \<open>the length bounds of the field, then the validator\<close>
  "normalize_nonempty_text maximum v =
     (if 1 \<le> length v \<and> length v \<le> maximum \<and> strip v \<noteq> [] then Some (strip v) else None)"

definition short_enough :: "nat \<Rightarrow> string option \<Rightarrow> bool" where
  "short_enough maximum v \<longleftrightarrow> (case v of None \<Rightarrow> True | Some x \<Rightarrow> length x \<le> maximum)"

definition check_proxy_create :: "proxy_create \<Rightarrow> proxy_create option" where
  \<comment> \<open>\<open>None\<close>: the request is refused with 422\<close>
  "check_proxy_create p =
     (case (normalize_nonempty_text 100 (pn_name p), normalize_nonempty_text 255 (pn_host p)) of
        (Some name, Some host) \<Rightarrow>
          if 1 \<le> pn_port p \<and> pn_port p \<le> 65535 \<and> short_enough 255 (pn_username p) \<and> short_enough 4096 (pn_password p)
             \<and> 0 \<le> pn_priority p \<and> pn_priority p \<le> 1000000 \<and> short_enough 36 (pn_copy_from p)
          then Some (p\<lparr>pn_name := name, pn_host := host\<rparr>) else None
      | _ \<Rightarrow> None)"

definition normalize_optional_text :: "nat \<Rightarrow> string option \<Rightarrow> string option option" where
  "normalize_optional_text maximum v =
     (case v of None \<Rightarrow> Some None | Some x \<Rightarrow> map_option Some (normalize_nonempty_text maximum x))"

definition between :: "int \<Rightarrow> int \<Rightarrow> int option \<Rightarrow> bool" where
  "between lo hi v \<longleftrightarrow> (case v of None \<Rightarrow> True | Some x \<Rightarrow> lo \<le> x \<and> x \<le> hi)"

definition check_proxy_update :: "proxy_update \<Rightarrow> proxy_update option" where
  "check_proxy_update p =
     (case (normalize_optional_text 100 (pu_name p), normalize_optional_text 255 (pu_host p)) of
        (Some name, Some host) \<Rightarrow>
          if between 1 65535 (pu_port p) \<and> short_enough 255 (pu_username p) \<and> short_enough 4096 (pu_password p)
             \<and> between 0 1000000 (pu_priority p)
          then Some (p\<lparr>pu_name := name, pu_host := host\<rparr>) else None
      | _ \<Rightarrow> None)"

subsection \<open>Credentials\<close>

definition normalize_optional_proxy_secret :: "string option \<Rightarrow> string option" where
  "normalize_optional_proxy_secret v = (case v of None \<Rightarrow> None | Some x \<Rightarrow> if x = [] then None else Some x)"

definition resolve_proxy_credential_fingerprint :: "proxy_admin_env \<Rightarrow> string option \<Rightarrow> string option \<Rightarrow> string" where
  "resolve_proxy_credential_fingerprint env username password =
     build_proxy_credential_fingerprint (pa_sha env) (pa_hmac env) username password (map_option pc_hmac_key (pa_cipher env))"

definition decrypt_field :: "pool_cipher \<Rightarrow> string option \<Rightarrow> string option option" where
  "decrypt_field c v = (case v of None \<Rightarrow> Some None | Some x \<Rightarrow> if x = [] then Some None else map_option Some (pc_decrypt c x))"

definition read_proxy_plaintext_credentials :: "egress_proxy \<Rightarrow> pool_cipher option \<Rightarrow> (string option \<times> string option) option" where
  \<comment> \<open>\<open>None\<close>: the decryption raises\<close>
  "read_proxy_plaintext_credentials p cipher =
     (case cipher of None \<Rightarrow> Some (None, None)
      | Some c \<Rightarrow>
          (case decrypt_field c (px_username_ciphertext p) of None \<Rightarrow> None
           | Some u \<Rightarrow> map_option (Pair u) (decrypt_field c (px_password_ciphertext p))))"

definition get_proxy_or_404 :: "string \<Rightarrow> (db, proxy_admin_error, egress_proxy) action" where
  "get_proxy_or_404 i = bnd (asks (proxy_row i)) (\<lambda>r. case r of None \<Rightarrow> throw ProxyNotFound | Some p \<Rightarrow> ret p)"

definition source_credentials :: "proxy_admin_env \<Rightarrow> string option \<Rightarrow> (db, proxy_admin_error, string option \<times> string option) action" where
  "source_credentials env copy_from =
     (case normalize_optional_proxy_secret copy_from of
        None \<Rightarrow> ret (None, None)
      | Some i \<Rightarrow>
          bnd (get_proxy_or_404 i) (\<lambda>p.
          andthen (require (\<not> (pa_cipher env = None \<and> (px_username_ciphertext p \<noteq> None \<or> px_password_ciphertext p \<noteq> None)))
                     EncryptionNotConfigured)
            (case read_proxy_plaintext_credentials p (pa_cipher env) of
               None \<Rightarrow> throw CredentialCopyFailed
             | Some c \<Rightarrow> ret c)))"

definition or_else :: "'a option \<Rightarrow> 'a option \<Rightarrow> 'a option" where
  "or_else v w = (case v of None \<Rightarrow> w | Some x \<Rightarrow> Some x)"

subsection \<open>Unique constraints\<close>

definition violated_constraint :: "egress_proxy \<Rightarrow> egress_proxy list \<Rightarrow> string option" where
  \<comment> \<open>the unique constraints of the table against its other rows, in the order of their declaration\<close>
  "violated_constraint q rows =
     (let others = filter (\<lambda>r. px_id r \<noteq> px_id q) rows in
      if px_name q \<in> px_name ` set others then Some ''uq_egress_proxies_name''
      else if (px_protocol q, px_host q, px_port q, px_credential_fingerprint q)
          \<in> (\<lambda>r. (px_protocol r, px_host r, px_port r, px_credential_fingerprint r)) ` set others
        then Some ''uq_egress_proxies_endpoint_credentials''
      else None)"

definition endpoint_conflict_markers :: "string list" where
  "endpoint_conflict_markers = [''uq_egress_proxies_endpoint_credentials'', ''uq_egress_proxies_endpoint'',
     ''credential_fingerprint'', ''egress_proxies.protocol'', ''protocol, egress_proxies.host, egress_proxies.port'',
     ''protocol, host, port'']"

definition name_conflict_markers :: "string list" where
  "name_conflict_markers = [''uq_egress_proxies_name'', ''egress_proxies.name'']"

definition raise_for_egress_proxy_integrity_error :: "string \<Rightarrow> proxy_admin_error" where
  "raise_for_egress_proxy_integrity_error message =
     (let lowered = lower_str message in
      if \<exists>m \<in> set endpoint_conflict_markers. contains lowered m then EndpointConflict
      else if \<exists>m \<in> set name_conflict_markers. contains lowered m then NameConflict
      else ProxyConflict)"

definition flush_checked :: "proxy_admin_env \<Rightarrow> egress_proxy \<Rightarrow> (db, proxy_admin_error, unit) action" where
  \<comment> \<open>the constraints are tested when the row is flushed\<close>
  "flush_checked env q =
     bnd (asks (\<lambda>s. violated_constraint q (proxies s))) (\<lambda>v. case v of
       None \<Rightarrow> ret ()
     | Some c \<Rightarrow> throw (raise_for_egress_proxy_integrity_error (pa_violation_message env c)))"

definition proxy_admin_audit :: "proxy_admin_env \<Rightarrow> string \<Rightarrow> string \<Rightarrow> string \<Rightarrow> json \<Rightarrow> (db, 'e, unit) action" where
  "proxy_admin_audit env event_type target_type target metadata =
     write_audit_event ''admin'' (Some (pa_admin env)) event_type target_type (Some target) (Some metadata) None"

subsection \<open>Creating\<close>

definition new_proxy :: "proxy_admin_env \<Rightarrow> proxy_create \<Rightarrow> string option \<Rightarrow> string option \<Rightarrow> egress_proxy" where
  "new_proxy env p username password =
     \<lparr>px_id = pa_new_id env, px_name = pn_name p, px_protocol = pn_protocol p, px_host = pn_host p, px_port = pn_port p,
      px_username_ciphertext = map_option (pa_encrypt env) username, px_password_ciphertext = map_option (pa_encrypt env) password,
      px_credential_fingerprint = resolve_proxy_credential_fingerprint env username password,
      px_enabled = pn_enabled p, px_priority = pn_priority p, px_status = PxUnknown, px_consecutive_failure_count = 0,
      px_cooldown_until = None, px_last_success_at = None, px_last_failure_at = None, px_last_error_summary = None,
      px_last_observed_at = None, px_health_version = 0, px_created_at = pa_now env, px_updated_at = pa_now env\<rparr>"

definition insert_proxy :: "proxy_admin_env \<Rightarrow> egress_proxy \<Rightarrow> (db, proxy_admin_error, unit) action" where
  "insert_proxy env q =
     bnd (asks (proxy_row (px_id q))) (\<lambda>clash.
     andthen (require (clash = None) (raise_for_egress_proxy_integrity_error (pa_violation_message env ''PRIMARY'')))
    (andthen (flush_checked env q) (modify (\<lambda>s. s\<lparr>proxies := proxies s @ [q]\<rparr>))))"

definition create_egress_proxy :: "proxy_admin_env \<Rightarrow> proxy_create \<Rightarrow> (db, proxy_admin_error, egress_proxy) action" where
  "create_egress_proxy env p = transaction (
     bnd (source_credentials env (pn_copy_from p)) (\<lambda>source.
     (let username = or_else (normalize_optional_proxy_secret (pn_username p)) (fst source);
          password = or_else (normalize_optional_proxy_secret (pn_password p)) (snd source);
          q = new_proxy env p username password in
      andthen (require (\<not> ((username \<noteq> None \<or> password \<noteq> None) \<and> pa_cipher env = None)) EncryptionNotConfigured)
     (andthen (insert_proxy env q)
     (andthen (proxy_admin_audit env ''egress_proxy.created'' ''egress_proxy'' (px_id q)
         (JObj [(''host_preview'', JStr (redact_proxy_host (px_host q))), (''protocol'', JStr (protocol_value (px_protocol q))),
                (''port'', JInt (px_port q))]))
       (ret q))))))"

subsection \<open>Updating\<close>

definition touched :: "time \<Rightarrow> egress_proxy \<Rightarrow> egress_proxy \<Rightarrow> egress_proxy" where
  \<comment> \<open>\<open>onupdate\<close>: an UPDATE is sent when a column changed\<close>
  "touched now p q = (if q = p then q else q\<lparr>px_updated_at := now\<rparr>)"

definition given_or :: "'a option \<Rightarrow> 'a \<Rightarrow> 'a" where
  "given_or v d = (case v of None \<Rightarrow> d | Some x \<Rightarrow> x)"

definition metadata_updated :: "proxy_update \<Rightarrow> egress_proxy \<Rightarrow> egress_proxy" where
  "metadata_updated u p = p\<lparr>px_name := given_or (pu_name u) (px_name p), px_protocol := given_or (pu_protocol u) (px_protocol p),
     px_host := given_or (pu_host u) (px_host p), px_port := given_or (pu_port u) (px_port p),
     px_enabled := given_or (pu_enabled u) (px_enabled p), px_priority := given_or (pu_priority u) (px_priority p)\<rparr>"

definition written_secret :: "proxy_admin_env \<Rightarrow> bool \<Rightarrow> string option \<Rightarrow> string option \<Rightarrow> string option" where
  \<comment> \<open>the column of a secret after the update\<close>
  "written_secret env written v old = (if written then map_option (pa_encrypt env) (normalize_optional_proxy_secret v) else old)"

definition credentials_updated :: "proxy_admin_env \<Rightarrow> proxy_update \<Rightarrow> egress_proxy \<Rightarrow> egress_proxy" where
  "credentials_updated env u p =
     p\<lparr>px_username_ciphertext := written_secret env (''username'' \<in> set (pu_written u)) (pu_username u) (px_username_ciphertext p),
       px_password_ciphertext := written_secret env (''password'' \<in> set (pu_written u)) (pu_password u) (px_password_ciphertext p)\<rparr>"

definition fingerprint_fields :: "string list" where
  "fingerprint_fields = [''username'', ''password'', ''protocol'', ''host'', ''port'']"

definition fingerprint_updated :: "proxy_admin_env \<Rightarrow> proxy_update \<Rightarrow> string option \<times> string option \<Rightarrow> egress_proxy \<Rightarrow> egress_proxy" where
  "fingerprint_updated env u current p =
     (let username = (if ''username'' \<in> set (pu_written u) then pu_username u else fst current);
          password = (if ''password'' \<in> set (pu_written u) then pu_password u else snd current) in
      if (\<exists>f \<in> set fingerprint_fields. f \<in> set (pu_written u)) \<or> px_credential_fingerprint p = []
      then p\<lparr>px_credential_fingerprint := resolve_proxy_credential_fingerprint env username password\<rparr> else p)"

definition update_egress_proxy :: "proxy_admin_env \<Rightarrow> string \<Rightarrow> proxy_update \<Rightarrow> (db, proxy_admin_error, egress_proxy) action" where
  "update_egress_proxy env i u = transaction (
     bnd (get_proxy_or_404 i) (\<lambda>p.
     andthen (require (\<not> ((''username'' \<in> set (pu_written u) \<or> ''password'' \<in> set (pu_written u)) \<and> pa_cipher env = None))
                EncryptionNotConfigured)
     (let p1 = credentials_updated env u (metadata_updated u p) in
      case read_proxy_plaintext_credentials p1 (pa_cipher env) of
        None \<Rightarrow> throw CredentialUnreadable
      | Some current \<Rightarrow>
          (let q = touched (pa_now env) p (fingerprint_updated env u current p1) in
           andthen (flush_checked env q)
          (andthen (modify (write_proxy q))
          (andthen (proxy_admin_audit env ''egress_proxy.updated'' ''egress_proxy'' i
              (JObj [(''updated_fields'', JArr (map JStr (sort_key id (pu_written u))))]))
            (ret q)))))))"

subsection \<open>Switching and deleting\<close>

definition set_proxy_enabled :: "proxy_admin_env \<Rightarrow> bool \<Rightarrow> string \<Rightarrow> (db, proxy_admin_error, egress_proxy) action" where
  "set_proxy_enabled env b i =
     bnd (get_proxy_or_404 i) (\<lambda>p.
     (let q = touched (pa_now env) p (p\<lparr>px_enabled := b\<rparr>) in
      andthen (modify (write_proxy q))
     (andthen (proxy_admin_audit env (if b then ''egress_proxy.enabled'' else ''egress_proxy.disabled'') ''egress_proxy'' i (JObj []))
       (ret q))))"

definition enable_egress_proxy :: "proxy_admin_env \<Rightarrow> string \<Rightarrow> (db, proxy_admin_error, egress_proxy) action" where
  "enable_egress_proxy env i = set_proxy_enabled env True i"

definition disable_egress_proxy :: "proxy_admin_env \<Rightarrow> string \<Rightarrow> (db, proxy_admin_error, egress_proxy) action" where
  "disable_egress_proxy env i = set_proxy_enabled env False i"

definition unbound_mailbox :: "time \<Rightarrow> mailbox \<Rightarrow> mailbox" where
  "unbound_mailbox now m = m\<lparr>mb_egress_proxy_id := None, mb_proxy_bound_at := None, mb_proxy_last_switch_at := Some now,
     mb_updated_at := now\<rparr>"

definition without_proxy :: "time \<Rightarrow> string \<Rightarrow> db \<Rightarrow> db" where
  \<comment> \<open>the mailboxes are unbound, the row is deleted and its health events with it (\<open>ON DELETE CASCADE\<close>)\<close>
  "without_proxy now i s =
     s\<lparr>mailboxes := update_where (\<lambda>m. mb_egress_proxy_id m = Some i) (unbound_mailbox now) (mailboxes s),
       proxies := delete_where (\<lambda>p. px_id p = i) (proxies s),
       health_events := delete_where (\<lambda>e. he_proxy_id e = i) (health_events s)\<rparr>"

definition delete_egress_proxy :: "proxy_admin_env \<Rightarrow> string \<Rightarrow> bool \<Rightarrow> (db, proxy_admin_error, unit) action" where
  "delete_egress_proxy env i force =
     bnd (get_proxy_or_404 i) (\<lambda>p.
     bnd (asks (bound_mailbox_count i)) (\<lambda>n.
     andthen (require (n = 0 \<or> force) HasBoundMailboxes)
    (andthen (modify (without_proxy (pa_now env) i))
      (proxy_admin_audit env ''egress_proxy.deleted'' ''egress_proxy'' i (JObj [(''unbound_mailbox_count'', JInt (int n))])))))"

definition list_proxy_bound_mailboxes :: "string \<Rightarrow> (db, proxy_admin_error, mailbox list) action" where
  "list_proxy_bound_mailboxes i =
     bnd (get_proxy_or_404 i) (\<lambda>_. asks (\<lambda>s. sort_key mb_primary_email (filter (\<lambda>m. mb_egress_proxy_id m = Some i) (mailboxes s))))"

subsection \<open>The policy\<close>

record policy_update =
  \<comment> \<open>the outer option: whether the field was written; the inner one: whether it is null\<close>
  pl_enabled :: "bool option option"
  pl_required :: "bool option option"
  pl_allowed_protocols :: "proxy_protocol list option option"
  pl_connect_timeout_seconds :: "int option option"
  pl_read_timeout_seconds :: "int option option"
  pl_health_check_interval_seconds :: "int option option"
  pl_failure_threshold :: "int option option"
  pl_cooldown_seconds :: "int option option"
  pl_switch_minimum_interval_seconds :: "int option option"
  pl_allow_direct_development :: "bool option option"

definition column :: "'a option option \<Rightarrow> 'a \<Rightarrow> 'a option" where
  \<comment> \<open>the value of the column after the assignment; \<open>None\<close>: null, which the response model refuses\<close>
  "column v old = (case v of None \<Rightarrow> Some old | Some w \<Rightarrow> w)"

definition policy_updated :: "time \<Rightarrow> policy_update \<Rightarrow> proxy_policy \<Rightarrow> proxy_policy option" where
  "policy_updated now u p =
     (case (column (pl_enabled u) (pp_enabled p), column (pl_required u) (pp_required p),
            column (map_option (map_option (map protocol_value)) (pl_allowed_protocols u)) (pp_allowed_protocols p),
            column (pl_connect_timeout_seconds u) (pp_connect_timeout_seconds p),
            column (pl_read_timeout_seconds u) (pp_read_timeout_seconds p),
            column (pl_health_check_interval_seconds u) (pp_health_check_interval_seconds p),
            column (pl_failure_threshold u) (pp_failure_threshold p), column (pl_cooldown_seconds u) (pp_cooldown_seconds p),
            column (pl_switch_minimum_interval_seconds u) (pp_switch_minimum_interval_seconds p),
            column (pl_allow_direct_development u) (pp_allow_direct_development p)) of
        (Some e, Some r, Some ps, Some ct, Some rt, Some hc, Some ft, Some cd, Some sw, Some dd) \<Rightarrow>
          (let q = p\<lparr>pp_enabled := e, pp_required := r, pp_allowed_protocols := ps, pp_connect_timeout_seconds := ct,
                 pp_read_timeout_seconds := rt, pp_health_check_interval_seconds := hc, pp_failure_threshold := ft,
                 pp_cooldown_seconds := cd, pp_switch_minimum_interval_seconds := sw, pp_allow_direct_development := dd\<rparr>
           in Some (if q = p then q else q\<lparr>pp_updated_at := now\<rparr>))
      | _ \<Rightarrow> None)"

definition update_proxy_policy :: "proxy_settings \<Rightarrow> proxy_admin_env \<Rightarrow> string list \<Rightarrow> policy_update \<Rightarrow> (db, proxy_admin_error, proxy_policy) action" where
  "update_proxy_policy st env written u = transaction (
     bnd (lift_error (\<lambda>_. ProxyConflict) (ensure_policy st (pa_now env))) (\<lambda>p.
     case policy_updated (pa_now env) u p of
       None \<Rightarrow> throw PolicyFieldNull
     | Some q \<Rightarrow>
         andthen (modify (\<lambda>s. s\<lparr>policies := Some q\<rparr>))
        (andthen (proxy_admin_audit env ''egress_proxy.policy_updated'' ''egress_proxy_policy'' ''1''
            (JObj [(''updated_fields'', JArr (map JStr (sort_key id written)))]))
          (ret q))))"


subsection \<open>A well-formed pool\<close>

definition with_keys :: "pool_cipher \<Rightarrow> (string \<Rightarrow> string \<Rightarrow> string) \<Rightarrow> proxy_admin_env \<Rightarrow> bool" where
  \<comment> \<open>the request runs with the configured key, and what it encrypts decrypts again\<close>
  "with_keys c hmac env \<longleftrightarrow> pa_cipher env = Some c \<and> pa_hmac env = hmac
     \<and> (\<forall>x. pa_encrypt env x \<noteq> [] \<and> pc_decrypt c (pa_encrypt env x) = Some x)"

definition fingerprint_of :: "pool_cipher \<Rightarrow> (string \<Rightarrow> string \<Rightarrow> string) \<Rightarrow> egress_proxy \<Rightarrow> string option" where
  "fingerprint_of c hmac p =
     map_option (\<lambda>(u, w). hmac (pc_hmac_key c) (fingerprint_material u w)) (read_proxy_plaintext_credentials p (Some c))"

definition endpoint_of :: "egress_proxy \<Rightarrow> proxy_protocol \<times> string \<times> int \<times> string" where
  "endpoint_of p = (px_protocol p, px_host p, px_port p, px_credential_fingerprint p)"

definition rows_wf :: "pool_cipher \<Rightarrow> (string \<Rightarrow> string \<Rightarrow> string) \<Rightarrow> egress_proxy list \<Rightarrow> bool" where
  "rows_wf c hmac ps \<longleftrightarrow> distinct (map px_id ps) \<and> distinct (map px_name ps) \<and> distinct (map endpoint_of ps)
     \<and> (\<forall>p \<in> set ps. fingerprint_of c hmac p = Some (px_credential_fingerprint p))"

definition pool_wf :: "pool_cipher \<Rightarrow> (string \<Rightarrow> string \<Rightarrow> string) \<Rightarrow> db \<Rightarrow> bool" where
  "pool_wf c hmac s \<longleftrightarrow> rows_wf c hmac (proxies s)
     \<and> (\<forall>m \<in> set (mailboxes s). mb_egress_proxy_id m \<in> insert None (Some ` px_id ` set (proxies s)))
     \<and> (\<forall>e \<in> set (health_events s). he_proxy_id e \<in> px_id ` set (proxies s))"

lemma map_put_row_same:
  assumes "p \<in> set rows" and "distinct (map key rows)" and "key q = key p" and "f q = f p"
  shows "map f (put_row key q rows) = map f rows"
proof -
  have "f (if key r = key q then q else r) = f r" if "r \<in> set rows" for r
    using assms that by (auto simp: distinct_map dest: inj_onD)
  then show ?thesis by (simp add: put_row_def update_where_def)
qed

lemma identity_determines:
  assumes "proxy_identity q = proxy_identity p"
  shows "px_id q = px_id p" "px_name q = px_name p" "endpoint_of q = endpoint_of p"
    "fingerprint_of c hmac q = fingerprint_of c hmac p" "px_credential_fingerprint q = px_credential_fingerprint p"
  using assms by (simp_all add: proxy_identity_def endpoint_of_def fingerprint_of_def read_proxy_plaintext_credentials_def
      cong: option.case_cong)

lemma rows_wf_same_identity:
  assumes "rows_wf c hmac ps" and "p \<in> set ps" and "proxy_identity q = proxy_identity p"
  shows "rows_wf c hmac (put_row px_id q ps)"
proof -
  have d: "distinct (map px_id ps)" using assms(1) by (simp add: rows_wf_def)
  note same = map_put_row_same [OF assms(2) d identity_determines(1) [OF assms(3)]]
  have "fingerprint_of c hmac r = Some (px_credential_fingerprint r)" if "r \<in> set (put_row px_id q ps)" for r
    using set_put_row [OF that] assms identity_determines(4,5) [OF assms(3)] by (auto simp: rows_wf_def)
  with assms same [OF identity_determines(2) [OF assms(3)]] same [OF identity_determines(3) [OF assms(3)]]
  show ?thesis by (simp add: rows_wf_def)
qed

lemma wf_write_same_identity:
  assumes "pool_wf c hmac s" and "p \<in> set (proxies s)" and "proxy_identity q = proxy_identity p"
  shows "pool_wf c hmac (write_proxy q s)"
  using assms rows_wf_same_identity [of c hmac "proxies s"] write_proxy_ids [of q s]
  by (auto simp: pool_wf_def write_proxy_def simp del: write_proxy_ids)

interpretation pw: pool_frame "\<lambda>s t. pool_wf c hmac s \<longrightarrow> pool_wf c hmac t" for c hmac
proof unfold_locales
  show "pool_wf c hmac s \<longrightarrow> pool_wf c hmac (write_proxy q s)"
    if "p \<in> set (proxies s)" "proxy_identity q = proxy_identity p" for p s q
    using wf_write_same_identity that by blast
  show "pool_wf c hmac s \<longrightarrow> pool_wf c hmac (put_mailbox (rebound_mailbox now x m) s)"
    if "x \<in> insert None (Some ` px_id ` set (proxies s))" for m s x now
    using that by (auto simp: pool_wf_def put_mailbox_def dest!: set_put_row)
qed (auto simp: pool_wf_def)


lemma decrypt_encrypted:
  assumes "with_keys c hmac env"
  shows "decrypt_field c (map_option (pa_encrypt env) v) = Some v"
  using assms by (simp add: with_keys_def decrypt_field_def split: option.split)

lemma material_secret [simp]:
  "fingerprint_material (normalize_optional_proxy_secret u) w = fingerprint_material u w"
  "fingerprint_material u (normalize_optional_proxy_secret w) = fingerprint_material u w"
  by (simp_all add: fingerprint_material_def normalize_optional_proxy_secret_def split: option.split)

lemma keyed_fingerprint:
  "with_keys c hmac env \<Longrightarrow> resolve_proxy_credential_fingerprint env u w = hmac (pc_hmac_key c) (fingerprint_material u w)"
  by (simp add: resolve_proxy_credential_fingerprint_def build_proxy_credential_fingerprint_def with_keys_def)

lemma new_proxy_credentials:
  assumes "with_keys c hmac env"
  shows "read_proxy_plaintext_credentials (new_proxy env p u w) (Some c) = Some (u, w)"
    "fingerprint_of c hmac (new_proxy env p u w) = Some (px_credential_fingerprint (new_proxy env p u w))"
  by (simp_all add: fingerprint_of_def read_proxy_plaintext_credentials_def new_proxy_def decrypt_encrypted [OF assms] keyed_fingerprint [OF assms])

lemma written_secret_decrypts:
  assumes "with_keys c hmac env" and "decrypt_field c old = Some v"
  shows "decrypt_field c (written_secret env written x old) = Some (if written then normalize_optional_proxy_secret x else v)"
  using assms by (simp add: written_secret_def decrypt_encrypted)

lemma updated_fingerprint:
  assumes k: "with_keys c hmac env" and wf: "fingerprint_of c hmac p = Some (px_credential_fingerprint p)"
    and cur: "read_proxy_plaintext_credentials (credentials_updated env u (metadata_updated u p)) (Some c) = Some current"
  shows "fingerprint_of c hmac (fingerprint_updated env u current (credentials_updated env u (metadata_updated u p)))
    = Some (px_credential_fingerprint (fingerprint_updated env u current (credentials_updated env u (metadata_updated u p))))"
proof -
  obtain a b where ab: "decrypt_field c (px_username_ciphertext p) = Some a" "decrypt_field c (px_password_ciphertext p) = Some b"
    "px_credential_fingerprint p = hmac (pc_hmac_key c) (fingerprint_material a b)"
    using wf by (auto simp: fingerprint_of_def read_proxy_plaintext_credentials_def split: option.splits)
  let ?u = "''username'' \<in> set (pu_written u)" and ?w = "''password'' \<in> set (pu_written u)"
  have "current = (if ?u then normalize_optional_proxy_secret (pu_username u) else a,
      if ?w then normalize_optional_proxy_secret (pu_password u) else b)"
    using cur by (simp add: read_proxy_plaintext_credentials_def credentials_updated_def metadata_updated_def
      written_secret_decrypts [OF k ab(1)] written_secret_decrypts [OF k ab(2)])
  then show ?thesis
    using cur ab(3)
    by (auto simp: fingerprint_updated_def Let_def fingerprint_of_def read_proxy_plaintext_credentials_def keyed_fingerprint [OF k]
        fingerprint_fields_def credentials_updated_def metadata_updated_def split: option.splits)
qed


lemma unviolated:
  assumes "violated_constraint q rows = None" and "r \<in> set rows" and "px_id r \<noteq> px_id q"
  shows "px_name r \<noteq> px_name q \<and> endpoint_of r \<noteq> endpoint_of q"
proof -
  let ?o = "filter (\<lambda>r. px_id r \<noteq> px_id q) rows"
  have "r \<in> set ?o" using assms(2,3) by simp
  moreover have "px_name q \<notin> px_name ` set ?o \<and> endpoint_of q \<notin> endpoint_of ` set ?o"
    using assms(1) unfolding violated_constraint_def Let_def endpoint_of_def by (simp split: if_splits)
  ultimately show ?thesis by (metis imageI)
qed

lemma rows_wf_append:
  assumes "rows_wf c hmac ps" and "px_id q \<notin> px_id ` set ps" and "violated_constraint q ps = None"
    and "fingerprint_of c hmac q = Some (px_credential_fingerprint q)"
  shows "rows_wf c hmac (ps @ [q])"
proof -
  have "px_name r \<noteq> px_name q \<and> endpoint_of r \<noteq> endpoint_of q" if "r \<in> set ps" for r
    by (rule unviolated [OF assms(3) that]) (metis that assms(2) imageI)
  then have "px_name q \<notin> px_name ` set ps" "endpoint_of q \<notin> endpoint_of ` set ps" by (metis imageE)+
  with assms show ?thesis by (simp add: rows_wf_def ball_Un)
qed

lemma distinct_map_put_row:
  assumes "distinct (map key rows)" and "distinct (map f rows)" and "key q \<in> key ` set rows"
    and "\<And>r. r \<in> set rows \<Longrightarrow> key r \<noteq> key q \<Longrightarrow> f r \<noteq> f q"
  shows "distinct (map f (put_row key q rows))"
  using assms
proof (induction rows)
  case Nil
  then show ?case by simp
next
  case (Cons r rows)
  show ?case
  proof (cases "key r = key q")
    case True
    with Cons.prems(1) have "\<forall>x \<in> set rows. key x \<noteq> key q" by (metis distinct.simps(2) image_eqI list.set_map list.simps(9))
    then have "put_row key q rows = rows"
      unfolding put_row_def by (intro update_where_none) auto
    moreover have "f q \<notin> f ` set rows"
      using Cons.prems(4) \<open>\<forall>x \<in> set rows. key x \<noteq> key q\<close> by (metis imageE list.set_intros(2))
    ultimately show ?thesis using True Cons.prems(2) by simp
  next
    case False
    with Cons.prems have "key q \<in> key ` set rows" by auto
    with Cons False have "distinct (map f (put_row key q rows))" by simp
    moreover have "f r \<notin> f ` set (put_row key q rows)"
      using Cons.prems(2,4) False by (auto dest!: set_put_row)
    ultimately show ?thesis using False by simp
  qed
qed

lemma rows_wf_put:
  assumes "rows_wf c hmac ps" and "px_id q \<in> px_id ` set ps" and "violated_constraint q ps = None"
    and "fingerprint_of c hmac q = Some (px_credential_fingerprint q)"
  shows "rows_wf c hmac (put_row px_id q ps)"
proof -
  have d: "distinct (map px_id ps)" using assms(1) by (simp add: rows_wf_def)
  note other = unviolated [OF assms(3)]
  have "distinct (map px_name (put_row px_id q ps))" "distinct (map endpoint_of (put_row px_id q ps))"
    using assms(1,2) other by (auto simp: rows_wf_def intro!: distinct_map_put_row)
  with assms d show ?thesis by (auto simp: rows_wf_def dest!: set_put_row)
qed

lemma rows_wf_delete:
  assumes "rows_wf c hmac ps"
  shows "rows_wf c hmac (delete_where q ps)"
  using assms by (simp add: rows_wf_def distinct_delete_where)

subsection \<open>Every request keeps it\<close>

lemma pw_audit: "steps (\<lambda>s t. pool_wf c hmac s \<longrightarrow> pool_wf c hmac t) (proxy_admin_audit env x y z w)"
  unfolding proxy_admin_audit_def by (rule pw.audits)

lemma violations_named:
  "raise_for_egress_proxy_integrity_error ''Duplicate entry for key egress_proxies.UQ_egress_proxies_name'' = NameConflict"
  "raise_for_egress_proxy_integrity_error ''UNIQUE constraint failed: egress_proxies.protocol, egress_proxies.host'' = EndpointConflict"
  "raise_for_egress_proxy_integrity_error ''Duplicate entry for key egress_proxies.PRIMARY'' = ProxyConflict"
  by code_simp+

lemma get_proxy_run:
  "get_proxy_or_404 i s = (case proxy_row i s of None \<Rightarrow> (Inl ProxyNotFound, s) | Some p \<Rightarrow> (Inr p, s))"
  by (simp add: get_proxy_or_404_def run split: option.split)

lemma source_credentials_run: "\<exists>r. source_credentials env f s = (r, s)"
  by (auto simp: source_credentials_def run get_proxy_run split: option.split)

lemma flush_checked_run:
  "flush_checked env q s = (case violated_constraint q (proxies s) of None \<Rightarrow> (Inr (), s)
     | Some c \<Rightarrow> (Inl (raise_for_egress_proxy_integrity_error (pa_violation_message env c)), s))"
  by (simp add: flush_checked_def run split: option.split)

lemma audit_then: "andthen (proxy_admin_audit env x y z w) k s = k (snd (proxy_admin_audit env x y z w s))"
  by (simp add: proxy_admin_audit_def write_audit_event_def add_audit_run andthen_run)

lemma proxy_admin_audit_tables [simp]:
  "proxies (snd (proxy_admin_audit env x y z w s)) = proxies s" "mailboxes (snd (proxy_admin_audit env x y z w s)) = mailboxes s"
  "health_events (snd (proxy_admin_audit env x y z w s)) = health_events s"
  by (simp_all add: proxy_admin_audit_def write_audit_event_def add_audit_run)

lemma pool_wf_audited [simp]: "pool_wf c hmac (snd (proxy_admin_audit env x y z w s)) \<longleftrightarrow> pool_wf c hmac s"
  by (simp add: pool_wf_def)

lemma create_Inr:
  assumes "create_egress_proxy env p s = (Inr q, t)"
  obtains source u w where "source_credentials env (pn_copy_from p) s = (Inr source, s)"
    and "u = or_else (normalize_optional_proxy_secret (pn_username p)) (fst source)"
    and "w = or_else (normalize_optional_proxy_secret (pn_password p)) (snd source)"
    and "q = new_proxy env p u w" and "proxy_row (px_id q) s = None" and "violated_constraint q (proxies s) = None"
    and "proxies t = proxies s @ [q]" and "mailboxes t = mailboxes s" and "health_events t = health_events s"
proof -
  obtain r where r: "source_credentials env (pn_copy_from p) s = (r, s)" using source_credentials_run by blast
  show ?thesis
  proof (cases r)
    case (Inl e)
    with r assms show ?thesis by (simp add: create_egress_proxy_def run)
  next
    case (Inr source)
    let ?q = "new_proxy env p (or_else (normalize_optional_proxy_secret (pn_username p)) (fst source))
      (or_else (normalize_optional_proxy_secret (pn_password p)) (snd source))"
    have "violated_constraint ?q (proxies s) = None" "proxy_row (px_id ?q) s = None" "q = ?q"
      "proxies t = proxies s @ [?q]" "mailboxes t = mailboxes s" "health_events t = health_events s"
      using assms r Inr
      by (auto simp: create_egress_proxy_def transaction_run bnd_run andthen_run require_run ret_run Let_def insert_proxy_def asks_run
          flush_checked_run modify_run proxy_admin_audit_def write_audit_event_def add_audit_run split: if_splits option.splits)
    with r Inr that [of source] show ?thesis by simp
  qed
qed


lemma update_Inr:
  assumes "update_egress_proxy env i u s = (Inr q, t)"
  obtains p current where "proxy_row i s = Some p"
    and "read_proxy_plaintext_credentials (credentials_updated env u (metadata_updated u p)) (pa_cipher env) = Some current"
    and "q = touched (pa_now env) p (fingerprint_updated env u current (credentials_updated env u (metadata_updated u p)))"
    and "violated_constraint q (proxies s) = None"
    and "proxies t = put_row px_id q (proxies s)" and "mailboxes t = mailboxes s" and "health_events t = health_events s"
proof -
  obtain p where p: "proxy_row i s = Some p"
    using assms by (auto simp: update_egress_proxy_def transaction_run bnd_run get_proxy_run split: option.splits)
  let ?p1 = "credentials_updated env u (metadata_updated u p)"
  obtain current where cur: "read_proxy_plaintext_credentials ?p1 (pa_cipher env) = Some current"
    using assms p by (auto simp: update_egress_proxy_def Let_def run get_proxy_run split: if_splits option.splits)
  let ?q = "touched (pa_now env) p (fingerprint_updated env u current ?p1)"
  have "q = ?q" "violated_constraint ?q (proxies s) = None"
    "proxies t = put_row px_id ?q (proxies s)" "mailboxes t = mailboxes s" "health_events t = health_events s"
    using assms p cur
    by (auto simp: update_egress_proxy_def run get_proxy_run Let_def flush_checked_run write_proxy_def
        proxy_admin_audit_def write_audit_event_def add_audit_run split: if_splits option.splits)
  with p cur that show ?thesis by simp
qed

lemma create_keeps_wf:
  assumes "with_keys c hmac env" and "pool_wf c hmac s"
  shows "pool_wf c hmac (snd (create_egress_proxy env p s))"
proof (cases "create_egress_proxy env p s")
  case (Pair r t)
  show ?thesis
  proof (cases r)
    case (Inl e)
    with Pair have "t = s" by (auto simp: create_egress_proxy_def transaction_run split: prod.splits sum.splits)
    with Pair assms(2) show ?thesis by simp
  next
    case (Inr q)
    obtain source u w where c: "q = new_proxy env p u w" "proxy_row (px_id q) s = None" "violated_constraint q (proxies s) = None"
      "proxies t = proxies s @ [q]" "mailboxes t = mailboxes s" "health_events t = health_events s"
      by (rule create_Inr [OF Pair [unfolded Inr]])
    have "rows_wf c hmac (proxies s @ [q])"
    proof (rule rows_wf_append)
      show "rows_wf c hmac (proxies s)" using assms(2) by (simp add: pool_wf_def)
      show "px_id q \<notin> px_id ` set (proxies s)" using c(2) by (simp add: proxy_row_def row_by_None)
      show "fingerprint_of c hmac q = Some (px_credential_fingerprint q)"
        unfolding c(1) by (rule new_proxy_credentials(2) [OF assms(1)])
    qed (rule c(3))
    with assms(2) c show ?thesis unfolding Pair by (auto simp: pool_wf_def)
  qed
qed

lemma touched_identity: "proxy_identity (touched now p q) = proxy_identity q"
  by (simp add: touched_def proxy_identity_def)

lemma update_fields [simp]:
  "px_id (fingerprint_updated env u cur p) = px_id p" "px_id (credentials_updated env u p) = px_id p" "px_id (metadata_updated u p) = px_id p"
  by (simp_all add: fingerprint_updated_def credentials_updated_def metadata_updated_def Let_def)

lemma update_keeps_wf:
  assumes "with_keys c hmac env" and "pool_wf c hmac s"
  shows "pool_wf c hmac (snd (update_egress_proxy env i u s))"
proof (cases "update_egress_proxy env i u s")
  case (Pair r t)
  show ?thesis
  proof (cases r)
    case (Inl e)
    with Pair have "t = s" by (auto simp: update_egress_proxy_def transaction_run split: prod.splits sum.splits)
    with Pair assms(2) show ?thesis by simp
  next
    case (Inr q)
    obtain p current where c: "proxy_row i s = Some p"
      "read_proxy_plaintext_credentials (credentials_updated env u (metadata_updated u p)) (pa_cipher env) = Some current"
      "q = touched (pa_now env) p (fingerprint_updated env u current (credentials_updated env u (metadata_updated u p)))"
      "violated_constraint q (proxies s) = None" "proxies t = put_row px_id q (proxies s)" "mailboxes t = mailboxes s"
      "health_events t = health_events s"
      by (rule update_Inr [OF Pair [unfolded Inr]])
    note touched = identity_determines [OF touched_identity]
    have p: "px_id p = i" "p \<in> set (proxies s)" using proxy_row_id [OF c(1)] by auto
    have id: "px_id q = i" using p by (simp add: c(3) touched)
    have "fingerprint_of c hmac p = Some (px_credential_fingerprint p)"
      using assms(2) p by (simp add: pool_wf_def rows_wf_def)
    from updated_fingerprint [OF assms(1) this] c(2,3) assms(1)
    have fp: "fingerprint_of c hmac q = Some (px_credential_fingerprint q)" by (simp add: touched with_keys_def)
    have "rows_wf c hmac (put_row px_id q (proxies s))"
      by (rule rows_wf_put [OF _ _ c(4) fp]) (use assms(2) p id in \<open>auto simp: pool_wf_def\<close>)
    moreover have "px_id ` set (put_row px_id q (proxies s)) = px_id ` set (proxies s)"
      by (metis list.set_map map_key_put_row)
    ultimately show ?thesis using assms(2) c unfolding Pair by (simp add: pool_wf_def)
  qed
qed

lemma set_enabled_keeps_wf:
  assumes "pool_wf c hmac s"
  shows "pool_wf c hmac (snd (set_proxy_enabled env b i s))"
proof (cases "proxy_row i s")
  case None
  with assms show ?thesis by (simp add: set_proxy_enabled_def bnd_run get_proxy_run)
next
  case (Some p)
  let ?q = "touched (pa_now env) p (p\<lparr>px_enabled := b\<rparr>)"
  have "proxy_identity ?q = proxy_identity p" unfolding touched_identity by (simp add: proxy_identity_def)
  with wf_write_same_identity [OF assms, of p ?q] proxy_row_id [OF Some] have wf: "pool_wf c hmac (write_proxy ?q s)" by simp
  then have "pool_wf c hmac (write_proxy ?q s\<lparr>audit_logs := as\<rparr>)" for as by (simp add: pool_wf_def)
  then show ?thesis
    using Some by (simp add: set_proxy_enabled_def run get_proxy_run Let_def proxy_admin_audit_def write_audit_event_def add_audit_run)
qed

lemma without_proxy_wf:
  assumes "pool_wf c hmac s"
  shows "pool_wf c hmac (without_proxy now i s)"
proof -
  have "mb_egress_proxy_id m \<in> insert None (Some ` px_id ` set (proxies (without_proxy now i s)))"
    if "m \<in> set (mailboxes (without_proxy now i s))" for m
    using that assms by (force simp: without_proxy_def set_update_where unbound_mailbox_def pool_wf_def)
  moreover have "he_proxy_id e \<in> px_id ` set (proxies (without_proxy now i s))" if "e \<in> set (health_events (without_proxy now i s))" for e
    using that assms by (force simp: without_proxy_def pool_wf_def)
  ultimately show ?thesis
    using assms by (simp add: pool_wf_def) (simp add: without_proxy_def rows_wf_delete)
qed

lemma delete_run:
  "delete_egress_proxy env i force s =
     (if proxy_row i s = None then (Inl ProxyNotFound, s)
      else if bound_mailbox_count i s = 0 \<or> force
        then proxy_admin_audit env ''egress_proxy.deleted'' ''egress_proxy'' i
          (JObj [(''unbound_mailbox_count'', JInt (int (bound_mailbox_count i s)))]) (without_proxy (pa_now env) i s)
      else (Inl HasBoundMailboxes, s))"
  by (auto simp: delete_egress_proxy_def run get_proxy_run split: option.split)

lemma delete_keeps_wf:
  assumes "pool_wf c hmac s"
  shows "pool_wf c hmac (snd (delete_egress_proxy env i force s))"
  using assms without_proxy_wf [OF assms, of "pa_now env" i] by (simp add: delete_run)

lemma policy_keeps_wf: "steps (\<lambda>s t. pool_wf c hmac s \<longrightarrow> pool_wf c hmac t) (update_proxy_policy st env written u)"
  unfolding update_proxy_policy_def
  by (intro pw.rules pw.policy pw.modify pw_audit) (rule pw.policies)


subsection \<open>Histories of the pool\<close>

inductive pool_step :: "pool_cipher \<Rightarrow> (string \<Rightarrow> string \<Rightarrow> string) \<Rightarrow> db \<Rightarrow> db \<Rightarrow> bool"
  for c :: pool_cipher and hmac :: "string \<Rightarrow> string \<Rightarrow> string" where
  created: "with_keys c hmac env \<Longrightarrow> pool_step c hmac s (snd (create_egress_proxy env p s))"
| updated: "with_keys c hmac env \<Longrightarrow> pool_step c hmac s (snd (update_egress_proxy env i u s))"
| switched: "pool_step c hmac s (snd (set_proxy_enabled env b i s))"
| deleted: "pool_step c hmac s (snd (delete_egress_proxy env i force s))"
| policy_set: "pool_step c hmac s (snd (update_proxy_policy st env written pl s))"
| bound: "pool_step c hmac s (snd (bind_mailbox_to_proxy st now i pid reason s))"
| recovered: "pool_step c hmac s (snd (recover_proxy now i s))"
| tested: "pool_step c hmac s (snd (test_proxy_connectivity st dec now fresh eid handshake i s))"
| resolved: "pool_step c hmac s (snd (resolve_for_mailbox renv i excluded force s))"
| observed: "pool_step c hmac s (snd (record_proxy_observation st now fresh eid ob s))"
| exchanged: "pool_step c hmac s (snd (refresh_access_token renv ids summary http i cid token scope s))"
| logged_in: "pool_step c hmac s (snd (imap_connect renv ids summary dial m token s))"

lemma pool_step_wf:
  assumes "pool_step c hmac s t" and "pool_wf c hmac s"
  shows "pool_wf c hmac t"
  using assms
proof cases
  case (policy_set st env written pl)
  with stepsD [OF policy_keeps_wf] assms(2) show ?thesis by blast
next
  case (bound st now i pid reason)
  with stepsD [OF pw.bind] assms(2) show ?thesis by blast
next
  case (recovered now i)
  with stepsD [OF pw.recover] assms(2) show ?thesis by blast
next
  case (tested st dec now fresh eid handshake i)
  with stepsD [OF pw.test] assms(2) show ?thesis by blast
next
  case (resolved renv i excluded force)
  with stepsD [OF pw.resolve] assms(2) show ?thesis by blast
next
  case (observed st now fresh eid ob)
  with stepsD [OF pw.observation] assms(2) show ?thesis by blast
next
  case (exchanged renv ids summary http i cid token scope)
  with stepsD [OF pw.exchange] assms(2) show ?thesis by blast
next
  case (logged_in renv ids summary dial m token)
  with stepsD [OF pw.imap] assms(2) show ?thesis by blast
next
  case (created env p)
  with create_keeps_wf assms(2) show ?thesis by blast
next
  case (updated env i u)
  with update_keeps_wf assms(2) show ?thesis by blast
next
  case (switched env b i)
  with set_enabled_keeps_wf assms(2) show ?thesis by blast
next
  case (deleted env i force)
  with delete_keeps_wf assms(2) show ?thesis by blast
qed

lemma pool_history_wf: "(pool_step c hmac)\<^sup>*\<^sup>* s t \<Longrightarrow> pool_wf c hmac s \<Longrightarrow> pool_wf c hmac t"
  by (induction rule: rtranclp_induct) (auto intro: pool_step_wf)

definition no_proxies :: "db \<Rightarrow> bool" where
  "no_proxies s \<longleftrightarrow> proxies s = [] \<and> health_events s = [] \<and> (\<forall>m \<in> set (mailboxes s). mb_egress_proxy_id m = None)"

lemma no_proxies_wf: "no_proxies s \<Longrightarrow> pool_wf c hmac s"
  by (simp add: no_proxies_def pool_wf_def rows_wf_def)

definition same_route :: "egress_proxy \<Rightarrow> egress_proxy \<Rightarrow> bool" where
  "same_route p q \<longleftrightarrow> px_protocol p = px_protocol q \<and> px_host p = px_host q \<and> px_port p = px_port q"

definition credentials_of :: "pool_cipher \<Rightarrow> egress_proxy \<Rightarrow> (string \<times> string) option" where
  \<comment> \<open>the user name as it is compared, and the password\<close>
  "credentials_of c p = map_option (\<lambda>(u, w). (strip (given_or u []), given_or w [])) (read_proxy_plaintext_credentials p (Some c))"

lemma credentials_fix_fingerprint:
  assumes "fingerprint_of c hmac p = Some x" and "fingerprint_of c hmac q = Some y" and "credentials_of c p = credentials_of c q"
  shows "x = y"
proof -
  have "fingerprint_material u w = strip (given_or u []) @ [CHR 0x00] @ given_or w []" for u w
    by (simp add: fingerprint_material_def given_or_def)
  with assms show ?thesis by (auto simp: fingerprint_of_def credentials_of_def split: option.splits)
qed

lemma distinct_map_eq: "distinct (map f xs) \<Longrightarrow> x \<in> set xs \<Longrightarrow> y \<in> set xs \<Longrightarrow> f x = f y \<Longrightarrow> x = y"
  by (auto simp: distinct_map dest: inj_onD)

text \<open>
  C10. The pool stays well formed over any history of administrative requests, manual bindings,
  connectivity tests, resolutions, observations, token exchanges and IMAP logins that starts without
  proxies and runs with one encryption key: two different proxies never share an id, a name or a route
  with the same decrypted credentials, every proxy's stored credentials decrypt, and the mailboxes and
  the health events refer to proxies that exist.
\<close>
theorem proxy_pool_well_formed:
  assumes "(pool_step c hmac)\<^sup>*\<^sup>* s t" and "no_proxies s" and "p \<in> set (proxies t)" and "q \<in> set (proxies t)"
  shows "credentials_of c p \<noteq> None
     \<and> (px_id p = px_id q \<or> px_name p = px_name q \<or> same_route p q \<and> credentials_of c p = credentials_of c q \<longrightarrow> p = q)
     \<and> (\<forall>m \<in> set (mailboxes t). \<forall>i. mb_egress_proxy_id m = Some i \<longrightarrow> proxy_row i t \<noteq> None)
     \<and> (\<forall>e \<in> set (health_events t). proxy_row (he_proxy_id e) t \<noteq> None)"
proof -
  have wf: "pool_wf c hmac t" by (rule pool_history_wf [OF assms(1) no_proxies_wf [OF assms(2)]])
  then have d: "distinct (map px_id (proxies t))" "distinct (map px_name (proxies t))" "distinct (map endpoint_of (proxies t))"
    and fp: "fingerprint_of c hmac p = Some (px_credential_fingerprint p)" "fingerprint_of c hmac q = Some (px_credential_fingerprint q)"
    using assms(3,4) by (simp_all add: pool_wf_def rows_wf_def)
  have "credentials_of c p \<noteq> None" using fp(1) by (auto simp: fingerprint_of_def credentials_of_def)
  moreover have "p = q" if "px_id p = px_id q \<or> px_name p = px_name q \<or> same_route p q \<and> credentials_of c p = credentials_of c q"
    using that
  proof (elim disjE conjE)
    assume "same_route p q" "credentials_of c p = credentials_of c q"
    with credentials_fix_fingerprint [OF fp] have "endpoint_of p = endpoint_of q" by (simp add: endpoint_of_def same_route_def)
    from distinct_map_eq [OF d(3) assms(3,4) this] show ?thesis .
  next
    assume "px_id p = px_id q"
    from distinct_map_eq [OF d(1) assms(3,4) this] show ?thesis .
  next
    assume "px_name p = px_name q"
    from distinct_map_eq [OF d(2) assms(3,4) this] show ?thesis .
  qed
  moreover have "proxy_row i t \<noteq> None" if "m \<in> set (mailboxes t)" "mb_egress_proxy_id m = Some i" for m i
  proof -
    have "mb_egress_proxy_id m \<in> insert None (Some ` px_id ` set (proxies t))" using wf that(1) unfolding pool_wf_def by blast
    with that(2) show ?thesis by (auto simp: proxy_row_def row_by_None)
  qed
  moreover have "proxy_row (he_proxy_id e) t \<noteq> None" if "e \<in> set (health_events t)" for e
    using wf that by (auto simp: pool_wf_def proxy_row_def row_by_None)
  ultimately show ?thesis by blast
qed

text \<open>
  Creating a proxy stores exactly the credentials the request means: each of the user name and the
  password is the one of the form when it is given and not empty, and otherwise the decrypted one of
  the proxy to copy from. So an omitted password is copied also when the user name was filled in.
\<close>
theorem created_proxy_has_requested_credentials:
  assumes "create_egress_proxy env p s = (Inr q, t)" and "with_keys c hmac env"
  shows "\<exists>source. source_credentials env (pn_copy_from p) s = (Inr source, s)
     \<and> read_proxy_plaintext_credentials q (Some c)
        = Some (or_else (normalize_optional_proxy_secret (pn_username p)) (fst source),
                or_else (normalize_optional_proxy_secret (pn_password p)) (snd source))
     \<and> proxies t = proxies s @ [q] \<and> px_status q = PxUnknown \<and> px_enabled q = pn_enabled p"
proof -
  obtain source u w where c: "source_credentials env (pn_copy_from p) s = (Inr source, s)"
    "u = or_else (normalize_optional_proxy_secret (pn_username p)) (fst source)"
    "w = or_else (normalize_optional_proxy_secret (pn_password p)) (snd source)"
    "q = new_proxy env p u w" "proxies t = proxies s @ [q]"
    by (rule create_Inr [OF assms(1)])
  from c(1,5) new_proxy_credentials(1) [OF assms(2), of p u w] show ?thesis
    unfolding c(2) [symmetric] c(3) [symmetric]
    by (intro exI [of _ source]) (simp add: c(2,3) c(4) [unfolded c(2,3)] new_proxy_def)
qed

lemma without_proxy_row:
  "mailbox_row j (without_proxy now i s) = map_option (\<lambda>m. if mb_egress_proxy_id m = Some i then unbound_mailbox now m else m) (mailbox_row j s)"
  unfolding mailbox_row_def without_proxy_def by (simp add: row_by_update_where unbound_mailbox_def)

lemma audited_count: "bound_mailbox_count i (s\<lparr>audit_logs := as\<rparr>) = bound_mailbox_count i s"
  by (simp add: bound_mailbox_count_def)

lemma unbound_count: "bound_mailbox_count i (without_proxy now i s) = 0"
proof -
  have "mb_egress_proxy_id (unbound_mailbox now m) \<noteq> Some i" for m by (simp add: unbound_mailbox_def)
  then show ?thesis by (simp add: bound_mailbox_count_def without_proxy_def update_where_def filter_empty_conv)
qed

text \<open>
  C11. A proxy is deleted only when no mailbox is bound to it or with the force flag; then no mailbox is
  bound to it and its health events are gone, while every mailbox of another proxy, every other proxy
  and every event of another proxy stays as it was. A refused deletion changes nothing.
\<close>
theorem deleted_proxy_leaves_no_reference:
  "case delete_egress_proxy env i force s of
      (Inl _, t) \<Rightarrow> t = s
    | (Inr _, t) \<Rightarrow> (force \<or> bound_mailbox_count i s = 0) \<and> proxy_row i t = None \<and> bound_mailbox_count i t = 0
        \<and> (\<forall>j m. mailbox_row j s = Some m \<and> mb_egress_proxy_id m \<noteq> Some i \<longrightarrow> mailbox_row j t = Some m)
        \<and> (\<forall>j. j \<noteq> i \<longrightarrow> proxy_row j t = proxy_row j s)
        \<and> health_events t = filter (\<lambda>e. he_proxy_id e \<noteq> i) (health_events s)"
proof -
  have "proxy_row i (without_proxy now i s) = None" for now
    by (simp add: proxy_row_def without_proxy_def row_by_None) blast
  moreover have "proxy_row j (without_proxy now i s) = proxy_row j s" if "j \<noteq> i" for j now
    unfolding proxy_row_def without_proxy_def delete_where_def using that by (simp add: row_by_filter)
  moreover have health: "health_events (without_proxy now i s) = filter (\<lambda>e. he_proxy_id e \<noteq> i) (health_events s)" for now
    by (simp add: without_proxy_def delete_where_def)
  ultimately show ?thesis
    by (auto simp: delete_run without_proxy_row unbound_count proxy_admin_audit_def write_audit_event_def add_audit_run
        audited_count)
qed

subsection \<open>Editing a proxy without the key\<close>

lemma touched_columns:
  "px_credential_fingerprint (touched now p q) = px_credential_fingerprint q"
  "px_username_ciphertext (touched now p q) = px_username_ciphertext q"
  "px_password_ciphertext (touched now p q) = px_password_ciphertext q"
  by (simp_all add: touched_def)

text \<open>
  Editing the route of a proxy while the encryption key is not configured overwrites its fingerprint
  with that of a proxy without credentials although its stored credentials stay: from then on the
  unique constraint no longer sees that it has any.
\<close>
theorem keyless_edit_forgets_credentials:
  assumes "update_egress_proxy env i u s = (Inr q, t)" and "pa_cipher env = None" and "''host'' \<in> set (pu_written u)"
  shows "px_credential_fingerprint q = resolve_proxy_credential_fingerprint env None None
    \<and> (\<exists>p. proxy_row i s = Some p \<and> px_username_ciphertext q = px_username_ciphertext p
        \<and> px_password_ciphertext q = px_password_ciphertext p)"
proof -
  obtain p current where c: "proxy_row i s = Some p"
    "read_proxy_plaintext_credentials (credentials_updated env u (metadata_updated u p)) (pa_cipher env) = Some current"
    "q = touched (pa_now env) p (fingerprint_updated env u current (credentials_updated env u (metadata_updated u p)))"
    by (rule update_Inr [OF assms(1)])
  have w: "''username'' \<notin> set (pu_written u)" "''password'' \<notin> set (pu_written u)"
    using assms(1,2) c(1) by (auto simp: update_egress_proxy_def run get_proxy_run)
  from c(2) assms(2) have "current = (None, None)" by (simp add: read_proxy_plaintext_credentials_def)
  with c w assms(3) show ?thesis
    by (auto simp: touched_columns fingerprint_updated_def Let_def fingerprint_fields_def credentials_updated_def written_secret_def
        metadata_updated_def)
qed

subsection \<open>Witnesses\<close>

definition toy_cipher :: pool_cipher where
  "toy_cipher = \<lparr>pc_decrypt = (\<lambda>x. case x of [] \<Rightarrow> None | _ # y \<Rightarrow> Some y), pc_hmac_key = ''k''\<rparr>"

definition proxy_env :: "pool_cipher option \<Rightarrow> string \<Rightarrow> proxy_admin_env" where
  "proxy_env c i = \<lparr>pa_now = 5, pa_admin = ''adm'', pa_new_id = i, pa_cipher = c, pa_encrypt = (\<lambda>x. CHR ''#'' # x),
     pa_sha = (\<lambda>x. ''s'' @ x), pa_hmac = (\<lambda>k m. k @ m), pa_violation_message = (\<lambda>n. n)\<rparr>"

definition proxy_form :: "string \<Rightarrow> string option \<Rightarrow> string option \<Rightarrow> string option \<Rightarrow> proxy_create" where
  "proxy_form name u w copy = \<lparr>pn_name = name, pn_protocol = Socks5, pn_host = ''gw'', pn_port = 1080, pn_username = u,
     pn_password = w, pn_enabled = True, pn_priority = 100, pn_copy_from = copy\<rparr>"

definition first_form :: "db \<Rightarrow> db" where
  "first_form s = snd (create_egress_proxy (proxy_env (Some toy_cipher) ''p1'') (proxy_form ''one'' (Some ''ann'') (Some ''pw'') None) s)"

definition copying_form :: "db \<Rightarrow> (proxy_admin_error + egress_proxy) \<times> db" where
  "copying_form s = create_egress_proxy (proxy_env (Some toy_cipher) ''p2'') (proxy_form ''two'' (Some ''bob'') None (Some ''p1'')) s"

lemma toy_keys: "with_keys toy_cipher (\<lambda>k m. k @ m) (proxy_env (Some toy_cipher) i)"
  by (simp add: with_keys_def proxy_env_def toy_cipher_def)

lemma copied: "map_prod (map_sum id px_password_ciphertext) (map px_name \<circ> proxies) (copying_form (first_form empty_db))
    = (Inr (Some ''#pw''), [''one'', ''two''])"
  by code_simp

theorem proxy_pool_well_formed_witness:
  "map px_name (proxies (snd (copying_form (first_form empty_db)))) = [''one'', ''two'']
   \<and> list_all (\<lambda>p. credentials_of toy_cipher p \<noteq> None) (proxies (snd (copying_form (first_form empty_db))))"
proof -
  let ?c = toy_cipher and ?h = "\<lambda>k m. k @ m"
  have "pool_step ?c ?h empty_db (first_form empty_db)" "pool_step ?c ?h (first_form empty_db) (snd (copying_form (first_form empty_db)))"
    unfolding first_form_def copying_form_def by (rule pool_step.created [OF toy_keys])+
  then have "(pool_step ?c ?h)\<^sup>*\<^sup>* empty_db (snd (copying_form (first_form empty_db)))" by (meson r_into_rtranclp rtranclp_trans)
  moreover have "no_proxies empty_db" by (simp add: no_proxies_def empty_db_def)
  ultimately show ?thesis
    using proxy_pool_well_formed copied by (auto simp: map_prod_def list_all_iff split: prod.splits)
qed

theorem created_proxy_has_requested_credentials_witness:
  "\<exists>q t. copying_form (first_form empty_db) = (Inr q, t)
     \<and> read_proxy_plaintext_credentials q (Some toy_cipher) = Some (Some ''bob'', Some ''pw'')"
proof -
  obtain q t where q: "copying_form (first_form empty_db) = (Inr q, t)" "px_password_ciphertext q = Some ''#pw''"
    using copied by (cases "copying_form (first_form empty_db)") (auto simp: map_sum_def split: sum.splits)
  from created_proxy_has_requested_credentials [OF q(1) [unfolded copying_form_def] toy_keys] q(2)
  have "\<exists>x. read_proxy_plaintext_credentials q (Some toy_cipher) = Some (Some ''bob'', x)"
    by (auto simp: proxy_form_def or_else_def normalize_optional_proxy_secret_def)
  with q(2) have "read_proxy_plaintext_credentials q (Some toy_cipher) = Some (Some ''bob'', Some ''pw'')"
    by (auto simp: read_proxy_plaintext_credentials_def decrypt_field_def toy_cipher_def split: option.splits)
  with q(1) show ?thesis by blast
qed

theorem deleted_proxy_leaves_no_reference_witness:
  "proxy_row ''p1'' (snd (delete_egress_proxy (proxy_env None []) ''p1'' False (first_form empty_db))) = None"
proof -
  have "map_prod (map_sum id id) (\<lambda>_. ()) (delete_egress_proxy (proxy_env None []) ''p1'' False (first_form empty_db)) = (Inr (), ())"
    by code_simp
  then show ?thesis
    using deleted_proxy_leaves_no_reference
      [where env = "proxy_env None []" and i = "''p1''" and force = False and s = "first_form empty_db"]
    by (auto simp: map_sum_def split: prod.splits sum.splits)
qed

definition host_edit :: proxy_update where
  "host_edit = \<lparr>pu_written = [''host''], pu_name = None, pu_protocol = None, pu_host = Some ''gw2'', pu_port = None,
     pu_username = None, pu_password = None, pu_enabled = None, pu_priority = None\<rparr>"

theorem keyless_edit_forgets_credentials_witness:
  "\<exists>q t. update_egress_proxy (proxy_env None []) ''p1'' host_edit (first_form empty_db) = (Inr q, t)
     \<and> px_password_ciphertext q = Some ''#pw''
     \<and> px_credential_fingerprint q = resolve_proxy_credential_fingerprint (proxy_env None []) None None"
proof -
  have "map_prod (map_sum id px_password_ciphertext) (\<lambda>_. ())
      (update_egress_proxy (proxy_env None []) ''p1'' host_edit (first_form empty_db)) = (Inr (Some ''#pw''), ())"
    by code_simp
  then obtain q t where q: "update_egress_proxy (proxy_env None []) ''p1'' host_edit (first_form empty_db) = (Inr q, t)"
    "px_password_ciphertext q = Some ''#pw''"
    by (cases "update_egress_proxy (proxy_env None []) ''p1'' host_edit (first_form empty_db)") (auto simp: map_sum_def split: sum.splits)
  from keyless_edit_forgets_credentials [OF q(1)] q show ?thesis by (simp add: proxy_env_def host_edit_def)
qed

end
