(* ===== verification/OperatorSessions.thy ===== *)
theory OperatorSessions
  imports ProviderPoll LeaseGrants TokenBatch
begin

text \<open>
  The operator debug sessions (\<open>operator_session_service.py\<close>): leases without a client key, told apart
  only by their purpose, with an on-demand resource each. Opening, listing, reading and releasing one,
  over the same tables as the client leases. The remote calls, encryption and the reading of a secret
  are parameters; each request is one transaction and reads the clock once.
\<close>

datatype operator_error = OperatorNotFound | OperatorLimit | OperatorProvider | OperatorStore

record operator_env =
  sn_now :: time
  sn_resource_id :: string
  sn_lease_id :: string
  sn_demand :: demand_env
  sn_provision :: "string \<Rightarrow> string option \<Rightarrow> db \<Rightarrow> od_result option"   \<comment> \<open>\<open>None\<close>: it raised\<close>
  sn_fetch_evidence :: "allocation \<Rightarrow> evidence_query \<Rightarrow> db \<Rightarrow> od_error + evidence"
  sn_encrypt :: "string \<Rightarrow> string"
  sn_dumps :: "(string \<times> string) list \<Rightarrow> string"

definition adapter_provision ::
    "od_env \<Rightarrow> (db \<Rightarrow> string \<Rightarrow> od_runtime) \<Rightarrow> string \<Rightarrow> string option \<Rightarrow> db \<Rightarrow> od_result option" where
  \<comment> \<open>\<open>OnDemandProviderService.provision\<close>: the settings are read for the provider's default instance\<close>
  "adapter_provision env settings provider_type preferred s =
     (case fst (provision env (settings s provider_type) preferred 0) of Inl _ \<Rightarrow> None | Inr r \<Rightarrow> Some r)"

definition operator_debug_purpose :: string where "operator_debug_purpose = ''operator_debug''"

definition max_active_operator_sessions :: nat where "max_active_operator_sessions = 20"

definition message_text_limit :: nat where "message_text_limit = 32768"

subsection \<open>Views\<close>

record operator_view =
  ov_lease_id :: string
  ov_provider_type :: string
  ov_provider_instance_id :: string
  ov_provider_resource_id :: string
  ov_address :: string
  ov_purpose :: string
  ov_expires_at :: time
  ov_created_at :: time
  ov_released_at :: "time option"
  ov_last_verification_code :: "string option"
  ov_last_code_checked_at :: "time option"

definition to_view :: "db \<Rightarrow> lease \<Rightarrow> operator_view" where
  "to_view s l =
     (let res = lease_resource l s;
          address = strip_lower (if present (ls_allocated_email l) then the (ls_allocated_email l)
                                 else case res of None \<Rightarrow> [] | Some r \<Rightarrow> pr_primary_email r) in
      \<lparr>ov_lease_id = ls_id l, ov_provider_type = ls_provider_type l,
       ov_provider_instance_id = or_text (ls_provider_instance_id l) ''default'',
       ov_provider_resource_id = or_text (ls_provider_resource_id l) [], ov_address = address,
       ov_purpose = or_text (ls_purpose l) operator_debug_purpose, ov_expires_at = ls_expires_at l,
       ov_created_at = ls_created_at l, ov_released_at = ls_released_at l,
       ov_last_verification_code = (case res of None \<Rightarrow> None | Some r \<Rightarrow> pr_last_verification_code r),
       ov_last_code_checked_at = (case res of None \<Rightarrow> None | Some r \<Rightarrow> pr_last_code_checked_at r)\<rparr>)"

definition operator_lease :: "lease \<Rightarrow> bool" where
  "operator_lease l \<longleftrightarrow> ls_purpose l = Some operator_debug_purpose"

definition session_active :: "time \<Rightarrow> lease \<Rightarrow> bool" where
  "session_active now l \<longleftrightarrow> ls_released_at l = None \<and> \<not> is_expired (ls_expires_at l) now"

definition list_sessions :: "time \<Rightarrow> bool \<Rightarrow> db \<Rightarrow> operator_view list" where
  \<comment> \<open>the newest hundred, then the active ones of them\<close>
  "list_sessions now include_released s =
     map (to_view s) (filter (\<lambda>l. include_released \<or> session_active now l)
       (take 100 (sort_key (\<lambda>l. - ls_created_at l) (filter operator_lease (leases s)))))"

definition count_active_sessions :: "time \<Rightarrow> db \<Rightarrow> nat" where
  "count_active_sessions now s = length (filter (\<lambda>l. operator_lease l \<and> session_active now l) (leases s))"

definition load_operator_lease :: "time \<Rightarrow> string \<Rightarrow> bool \<Rightarrow> (db, operator_error, lease) action" where
  "load_operator_lease now i require_active =
     bnd (asks (lease_row i)) (\<lambda>row. case row of
       None \<Rightarrow> throw OperatorNotFound
     | Some l \<Rightarrow> andthen (require (operator_lease l \<and> (require_active \<longrightarrow> session_active now l)) OperatorNotFound) (ret l))"

definition get_session :: "time \<Rightarrow> string \<Rightarrow> (db, operator_error, operator_view) action" where
  "get_session now i = bnd (load_operator_lease now i False) (\<lambda>l. asks (\<lambda>s. to_view s l))"

subsection \<open>Opening\<close>

definition session_metadata :: "od_result \<Rightarrow> string option \<Rightarrow> string \<Rightarrow> json" where
  \<comment> \<open>later entries win in a dict\<close>
  "session_metadata r label admin_id =
     (let base = map (\<lambda>(k, v). (k, JStr v)) (or_metadata r);
          put = (\<lambda>k v kvs. filter (\<lambda>(k', _). k' \<noteq> k) kvs @ [(k, v)]);
          labelled = (if present label then put ''operator_label'' (JStr (the label)) base else base) in
      JObj (put ''operator_admin_id'' (JStr admin_id) labelled))"

definition session_resource :: "operator_env \<Rightarrow> string \<Rightarrow> string \<Rightarrow> string \<Rightarrow> od_result \<Rightarrow> json \<Rightarrow> provider_resource" where
  "session_resource env provider_type instance_id address r metadata =
     \<lparr>pr_id = sn_resource_id env, pr_provider_type = provider_type, pr_provider_instance_id = instance_id,
      pr_external_resource_id = (if or_external_resource_id r = [] then address else or_external_resource_id r),
      pr_primary_email = address, pr_lifecycle_state = Claimed, pr_readiness = Ready, pr_state_version = 1,
      pr_resource_generation = 1, pr_encrypted_secret = Some (sn_encrypt env (sn_dumps env (or_secret_payload r))),
      pr_metadata_json = Some metadata, pr_last_verification_code = None, pr_last_code_checked_at = None,
      pr_last_code_message_id = None, pr_created_at = sn_now env, pr_updated_at = sn_now env\<rparr>"

definition session_lease :: "operator_env \<Rightarrow> string \<Rightarrow> string \<Rightarrow> string \<Rightarrow> int \<Rightarrow> lease" where
  "session_lease env provider_type instance_id address ttl =
     \<lparr>ls_id = sn_lease_id env, ls_mailbox_id = None, ls_provider_resource_id = Some (sn_resource_id env),
      ls_client_key_id = None, ls_client_tag = Some ''operator'', ls_purpose = Some operator_debug_purpose,
      ls_allocated_email = Some address, ls_mode = MailRead, ls_provider_type = provider_type,
      ls_provider_instance_id = Some instance_id, ls_provider_config_revision = None,
      ls_expires_at = sn_now env + secs (max ttl 60), ls_released_at = None, ls_created_at = sn_now env\<rparr>"

definition operator_audit :: "string \<Rightarrow> string \<Rightarrow> string \<Rightarrow> json \<Rightarrow> (db, 'e, unit) action" where
  "operator_audit admin_id event_type lease_id metadata =
     write_audit_event ''admin'' (Some admin_id) event_type ''operator_session'' (Some lease_id) (Some metadata) None"

definition open_session ::
    "operator_env \<Rightarrow> string \<Rightarrow> string \<Rightarrow> string \<Rightarrow> string option \<Rightarrow> int \<Rightarrow> od_result \<Rightarrow> (db, operator_error, operator_view) action" where
  \<comment> \<open>from the provider's answer on, with the handler's audit row\<close>
  "open_session env admin_id provider_type instance_id label ttl r =
     (let address = strip_lower (or_address r);
          res = session_resource env provider_type instance_id address r (session_metadata r label admin_id);
          l = session_lease env provider_type instance_id address ttl in
      andthen (require (address \<noteq> [] \<and> CHR ''@'' \<in> set address) OperatorProvider)
     (andthen (insert_resource (throw OperatorStore) res)
     (andthen (lift_error (\<lambda>_. OperatorStore) (insert_lease l))
     (bnd (asks (\<lambda>s. to_view s l)) (\<lambda>v.
      andthen (operator_audit admin_id ''operator.session_created'' (ov_lease_id v)
          (JObj [(''provider_type'', JStr (ov_provider_type v)), (''provider_resource_id'', JStr (ov_provider_resource_id v)),
                 (''address'', JStr (ov_address v))]))
        (ret v))))))"

definition create_session ::
    "operator_env \<Rightarrow> string \<Rightarrow> string \<Rightarrow> string option \<Rightarrow> string option \<Rightarrow> string option \<Rightarrow> int \<Rightarrow> (db, operator_error, operator_view) action" where
  \<comment> \<open>administrator, provider type, instance, local part, label, ttl\<close>
  "create_session env admin_id provider_type instance_id wanted_part label ttl = transaction (
     (let ty = strip_lower provider_type;
          inst = (let i = strip (or_text instance_id ''default'') in if i = [] then ''default'' else i);
          preferred = (let p = strip (or_text wanted_part []) in if p = [] then None else Some p) in
      andthen (require (ty \<in> set on_demand_provider_types) OperatorProvider)
     (bnd (asks (count_active_sessions (sn_now env))) (\<lambda>n.
      andthen (require (n < max_active_operator_sessions) OperatorLimit)
     (bnd (asks (sn_provision env ty preferred)) (\<lambda>reply. case reply of
        None \<Rightarrow> throw OperatorProvider
      | Some r \<Rightarrow> open_session env admin_id ty inst label ttl r))))))"

subsection \<open>Reading\<close>

record operator_message =
  om_from :: "string option"
  om_subject :: "string option"
  om_intro :: string
  om_text :: string
  om_created_at :: "time option"
  om_code :: "string option"

definition operator_message_of :: "string option \<Rightarrow> inbox_evidence \<Rightarrow> operator_message" where
  \<comment> \<open>the first argument: the provider's own code, for the first message\<close>
  "operator_message_of direct m =
     (let body = take message_text_limit (or_text (ev_body_text m) []) in
      \<lparr>om_from = ev_from m, om_subject = ev_subject m, om_intro = take 180 body, om_text = body,
       om_created_at = ev_received_at m,
       om_code = (if present direct then direct else extract_verification_code None (or_text (ev_subject m) []) body)\<rparr>)"

definition operator_messages :: "evidence \<Rightarrow> operator_message list" where
  "operator_messages e = (case ve_messages e of [] \<Rightarrow> []
     | m # ms \<Rightarrow> operator_message_of (ve_direct_code e) m # map (operator_message_of None) ms)"

definition message_codes :: "operator_message list \<Rightarrow> string list" where
  "message_codes ms = map (\<lambda>m. the (om_code m)) (filter (\<lambda>m. present (om_code m)) ms)"

definition session_allocation :: "operator_env \<Rightarrow> lease \<Rightarrow> provider_resource \<Rightarrow> allocation" where
  "session_allocation env l r = \<lparr>va_lease_id = ls_id l, va_mailbox_id = [], va_provider_type = ls_provider_type l,
     va_provider_instance_id = ls_provider_instance_id l, va_primary_email = pr_primary_email r,
     va_allocated_email = Some (or_text (ls_allocated_email l) (pr_primary_email r)),
     va_access_context = access_context (sn_demand env) r\<rparr>"

definition session_query :: evidence_query where
  "session_query = \<lparr>vq_from_address = None, vq_subject_contains = None, vq_body_contains = None, vq_recipient = None,
     vq_newer_than = None, vq_max_messages = 30\<rparr>"

definition checked_resource :: "time \<Rightarrow> string list \<Rightarrow> provider_resource \<Rightarrow> provider_resource" where
  "checked_resource now codes r =
     (let q = r\<lparr>pr_last_code_checked_at := Some now, pr_updated_at := now\<rparr> in
      case codes of [] \<Rightarrow> q | c # _ \<Rightarrow> q\<lparr>pr_last_verification_code := Some (take 32 c)\<rparr>)"

definition fetch_messages ::
    "operator_env \<Rightarrow> string \<Rightarrow> (db, operator_error, operator_view \<times> operator_message list \<times> string list) action" where
  "fetch_messages env i = transaction (
     bnd (load_operator_lease (sn_now env) i True) (\<lambda>l.
     bnd (asks (lease_resource l)) (\<lambda>row. case row of
       None \<Rightarrow> throw OperatorNotFound
     | Some r \<Rightarrow>
         bnd (asks (sn_fetch_evidence env (session_allocation env l r) session_query)) (\<lambda>reply. case reply of
           Inl _ \<Rightarrow> throw OperatorProvider
         | Inr e \<Rightarrow>
             (let ms = operator_messages e; codes = message_codes ms in
              andthen (modify (write_resource (checked_resource (sn_now env) codes r)))
             (bnd (asks (\<lambda>s. to_view s l)) (\<lambda>v. ret (v, ms, codes))))))))"

subsection \<open>Releasing\<close>

definition release_operator_lease :: "time \<Rightarrow> lease \<Rightarrow> db \<Rightarrow> db" where
  \<comment> \<open>the resource is retired whatever its provider, and a claim of the lease is deleted\<close>
  "release_operator_lease now l s =
     (let s1 = (case lease_resource l s of None \<Rightarrow> s | Some r \<Rightarrow> write_resource (retire_resource now r) s) in
      (write_lease (l\<lparr>ls_released_at := Some now\<rparr>) s1)\<lparr>claims := delete_where (\<lambda>c. lc_lease_id c = ls_id l) (claims s1)\<rparr>)"

definition release_session :: "time \<Rightarrow> string \<Rightarrow> string \<Rightarrow> (db, operator_error, operator_view) action" where
  "release_session now admin_id i = transaction (
     bnd (load_operator_lease now i False) (\<lambda>l.
     andthen (if ls_released_at l = None then modify (release_operator_lease now l) else ret ())
    (bnd (asks (\<lambda>s. to_view s (if ls_released_at l = None then l\<lparr>ls_released_at := Some now\<rparr> else l))) (\<lambda>v.
     andthen (operator_audit admin_id ''operator.session_released'' (ov_lease_id v)
         (JObj [(''provider_resource_id'', JStr (ov_provider_resource_id v))]))
       (ret v)))))"

subsection \<open>What a session is\<close>

lemma load_operator_run:
  "load_operator_lease now i req s = (case lease_row i s of
     None \<Rightarrow> (Inl OperatorNotFound, s)
   | Some l \<Rightarrow> if operator_lease l \<and> (req \<longrightarrow> session_active now l) then (Inr l, s) else (Inl OperatorNotFound, s))"
  by (auto simp: load_operator_lease_def run split: option.split)

lemma operator_audit_run: "operator_audit a ev i md s = (Inr (), snd (operator_audit a ev i md s))"
  by (simp add: operator_audit_def write_audit_event_def add_audit_run)

lemma operator_audit_tables [simp]:
  "leases (snd (operator_audit a ev i md s)) = leases s" "claims (snd (operator_audit a ev i md s)) = claims s"
  "resources (snd (operator_audit a ev i md s)) = resources s" "mailboxes (snd (operator_audit a ev i md s)) = mailboxes s"
  by (simp_all add: operator_audit_def write_audit_event_def add_audit_run)

lemma qt_operator_audit: "steps quiet (operator_audit a ev i md)"
  by (rule stepsI) (rule quietI; simp)

lemma session_create_Inr:
  assumes "create_session env admin_id ty0 inst label_part label ttl s = (Inr v, t)"
  obtains ty i r address res where "ty \<in> set on_demand_provider_types" and "count_active_sessions (sn_now env) s < 20"
    and "address = strip_lower (or_address r)" and "CHR ''@'' \<in> set address"
    and "res = session_resource env ty i address r (session_metadata r label admin_id)"
    and "pr_id res \<notin> pr_id ` set (resources s)" and "sn_lease_id env \<notin> ls_id ` set (leases s)"
    and "leases t = leases s @ [session_lease env ty i address ttl]" and "resources t = resources s @ [res]"
    and "claims t = claims s" and "mailboxes t = mailboxes s" and "ov_lease_id v = sn_lease_id env"
  using assms
  by (auto simp: create_session_def open_session_def transaction_run Let_def run insert_resource_def insert_lease_def
      max_active_operator_sessions_def operator_audit_def write_audit_event_def add_audit_run to_view_def session_lease_def
      session_resource_def split: if_splits option.splits)

lemma session_lease_fields [simp]:
  "operator_lease (session_lease env ty i address ttl)" "session_active (sn_now env) (session_lease env ty i address ttl)"
  "ls_id (session_lease env ty i address ttl) = sn_lease_id env" "ls_client_key_id (session_lease env ty i address ttl) = None"
  "ls_expires_at (session_lease env ty i address ttl) = sn_now env + secs (max ttl 60)"
  "ls_mailbox_id (session_lease env ty i address ttl) = None"
  "ls_provider_resource_id (session_lease env ty i address ttl) = Some (sn_resource_id env)"
  by (simp_all add: session_lease_def operator_lease_def session_active_def is_expired_def secs_def)

text \<open>
  Opening a session succeeds only below the limit: afterwards at most twenty sessions are active,
  the new lease belongs to no client and holds no claim, it runs for at least a minute, its resource is
  claimed with the address the lease shows, and no client lease, claim or mailbox changed.
\<close>
theorem operator_sessions_bounded:
  assumes "create_session env admin_id ty inst wanted label ttl s = (Inr v, t)"
  shows "count_active_sessions (sn_now env) t = Suc (count_active_sessions (sn_now env) s)
     \<and> count_active_sessions (sn_now env) t \<le> max_active_operator_sessions
     \<and> (\<exists>l r. leases t = leases s @ [l] \<and> ls_id l = ov_lease_id v \<and> ls_id l \<notin> ls_id ` set (leases s)
          \<and> ls_client_key_id l = None \<and> sn_now env + secs 60 \<le> ls_expires_at l
          \<and> resources t = resources s @ [r] \<and> ls_provider_resource_id l = Some (pr_id r) \<and> pr_lifecycle_state r = Claimed
          \<and> ls_allocated_email l = Some (pr_primary_email r))
     \<and> claims t = claims s \<and> mailboxes t = mailboxes s"
proof -
  obtain ty i r address res where c: "count_active_sessions (sn_now env) s < 20"
    "res = session_resource env ty i address r (session_metadata r label admin_id)"
    "sn_lease_id env \<notin> ls_id ` set (leases s)" "leases t = leases s @ [session_lease env ty i address ttl]"
    "resources t = resources s @ [res]" "claims t = claims s" "mailboxes t = mailboxes s" "ov_lease_id v = sn_lease_id env"
    by (rule session_create_Inr [OF assms]) blast
  have "count_active_sessions (sn_now env) t = Suc (count_active_sessions (sn_now env) s)"
    by (simp add: count_active_sessions_def c(4))
  moreover have "secs 60 \<le> secs (max ttl 60)" by (rule secs_mono) simp
  ultimately show ?thesis
    using c by (simp add: max_active_operator_sessions_def session_resource_def session_lease_def)
qed

lemma quiet_new_resource: "pr_id r \<notin> pr_id ` set (resources s) \<Longrightarrow> quiet s (s\<lparr>resources := resources s @ [r]\<rparr>)"
  by (auto simp: quiet_def keys_kept_def mailbox_row_def resource_row_def row_by_append)

lemma occupancy_opened:
  assumes "occupancy_ok now s" and "pr_id res \<notin> pr_id ` set (resources s)" and "ls_id (session_lease env ty i address ttl) \<notin> ls_id ` set (leases s)"
    and "leases t = leases s @ [session_lease env ty i address ttl]" and "resources t = resources s @ [res]"
    and "claims t = claims s" and "mailboxes t = mailboxes s"
  shows "occupancy_ok now t"
proof -
  let ?u = "s\<lparr>resources := resources s @ [res]\<rparr>"
  have "occupancy_ok now ?u" by (rule quiet_occupancy [OF assms(1) quiet_new_resource [OF assms(2)]])
  then have "occupancy_ok now (?u\<lparr>leases := leases ?u @ [session_lease env ty i address ttl]\<rparr>)"
    by (rule insert_occupancy) (use assms(3) in simp)
  then show ?thesis by (rule quiet_occupancy) (rule quietI; simp add: assms)
qed

lemma session_resource_row: "lease_resource l s = Some r \<Longrightarrow> resource_row (pr_id r) s = Some r"
proof -
  assume "lease_resource l s = Some r"
  then obtain i where i: "resource_row i s = Some r" by (auto simp: lease_resource_def split: if_splits)
  then have "pr_id r = i" using row_by_Some by (fastforce simp: resource_row_def)
  with i show ?thesis by simp
qed

lemma fetch_quiet: "steps quiet (fetch_messages env i)"
proof (rule stepsI)
  fix s
  have "quiet s (write_resource (checked_resource now codes r) s)" if "lease_resource l s = Some r" for l r now codes
    by (rule qt_write_resource [of _ _ r]) (use session_resource_row [OF that] in \<open>simp_all add: checked_resource_def Let_def split: list.split\<close>)
  then show "quiet s (snd (fetch_messages env i s))"
    by (auto simp: fetch_messages_def transaction_run bnd_run load_operator_run asks_run throw_run Let_def andthen_run modify_run
        ret_run qt.refl split: option.split sum.split)
qed

lemma occupancy_released:
  assumes "occupancy_ok now s" and "l \<in> set (leases s)"
  shows "occupancy_ok now (release_operator_lease now' l s)"
proof -
  let ?s1 = "case lease_resource l s of None \<Rightarrow> s | Some r \<Rightarrow> write_resource (retire_resource now' r) s"
  have "quiet s ?s1"
    by (auto simp: qt.refl retire_resource_def dest!: session_resource_row intro!: qt_write_resource split: option.split)
  from quiet_occupancy [OF assms(1) this] have "occupancy_ok now ?s1" .
  moreover have "l \<in> set (leases ?s1)" using assms(2) by (simp add: write_resource_def split: option.split)
  ultimately show ?thesis unfolding release_operator_lease_def Let_def by (rule release_state_ok) simp
qed

lemma create_session_keeps: "keeps (occupancy_ok now) (create_session env admin_id ty inst wanted label ttl)"
proof (rule keepsI)
  fix s
  assume s: "occupancy_ok now s"
  show "occupancy_ok now (snd (create_session env admin_id ty inst wanted label ttl s))"
  proof (cases "create_session env admin_id ty inst wanted label ttl s")
    case (Pair r t)
    show ?thesis
    proof (cases r)
      case (Inl e)
      with Pair have "t = s" by (auto simp: create_session_def transaction_run split: prod.splits sum.splits)
      with Pair s show ?thesis by simp
    next
      case (Inr v)
      obtain ty i r address res where c: "pr_id res \<notin> pr_id ` set (resources s)" "sn_lease_id env \<notin> ls_id ` set (leases s)"
        "leases t = leases s @ [session_lease env ty i address ttl]" "resources t = resources s @ [res]"
        "claims t = claims s" "mailboxes t = mailboxes s"
        by (rule session_create_Inr [OF Pair [unfolded Inr]]) blast
      have "occupancy_ok now t" by (rule occupancy_opened [OF s c(1) _ c(3-6)]) (simp add: c(2))
      with Pair show ?thesis by simp
    qed
  qed
qed

lemma release_session_keeps: "keeps (occupancy_ok now) (release_session now' admin_id i)"
proof (rule keepsI)
  fix s
  assume s: "occupancy_ok now s"
  show "occupancy_ok now (snd (release_session now' admin_id i s))"
  proof (cases "release_session now' admin_id i s")
    case (Pair r t)
    show ?thesis
    proof (cases "\<exists>l. lease_row i s = Some l \<and> operator_lease l \<and> ls_released_at l = None")
      case True
      then obtain l where l: "lease_row i s = Some l" "operator_lease l" "ls_released_at l = None" by blast
      have "l \<in> set (leases s)" using l(1) by (auto simp: lease_row_def dest: row_by_Some)
      then have ok: "occupancy_ok now (release_operator_lease now' l s)" by (rule occupancy_released [OF s])
      have "quiet (release_operator_lease now' l s) t"
        using Pair l
        by (auto simp: release_session_def transaction_run bnd_run load_operator_run andthen_run modify_run asks_run ret_run
            operator_audit_def write_audit_event_def add_audit_run intro!: quietI)
      with ok Pair show ?thesis by (simp add: quiet_occupancy)
    next
      case False
      then have "quiet s t"
        using Pair
        by (auto simp: release_session_def transaction_run bnd_run load_operator_run andthen_run modify_run asks_run ret_run
            operator_audit_def write_audit_event_def add_audit_run qt.refl intro!: quietI split: option.splits if_splits)
      with Pair s show ?thesis by (simp add: quiet_occupancy)
    qed
  qed
qed

text \<open>
  C12. Operator sessions respect the occupancy of the mailboxes: opening, reading and releasing a
  session, with any outcome, keeps every claim backed by its running lease and no two live claims on
  one mailbox exclusive.
\<close>

theorem operator_requests_keep_occupancy:
  assumes "occupancy_ok now s"
  shows "occupancy_ok now (snd (create_session env admin_id ty inst wanted label ttl s))
     \<and> occupancy_ok now (snd (fetch_messages env i s))
     \<and> occupancy_ok now (snd (release_session now' admin_id i s))"
  using keepsD [OF create_session_keeps assms] quiet_occupancy [OF assms stepsD [OF fetch_quiet]]
    keepsD [OF release_session_keeps assms] by blast

lemma release_row:
  assumes "lease_row i s = Some l" and "operator_lease l" and "ls_released_at l = None"
  shows "\<exists>v t. release_session now admin_id i s = (Inr v, t) \<and> ov_lease_id v = i \<and> ov_released_at v = Some now
    \<and> leases t = put_row ls_id (l\<lparr>ls_released_at := Some now\<rparr>) (leases s)
    \<and> claims t = delete_where (\<lambda>c. lc_lease_id c = i) (claims s)
    \<and> resources t = (case lease_resource l s of None \<Rightarrow> resources s | Some r \<Rightarrow> put_row pr_id (retire_resource now r) (resources s))"
proof -
  have id: "ls_id l = i" using assms(1) by (auto simp: lease_row_def dest: row_by_Some)
  show ?thesis
    using assms id
    by (auto simp: release_session_def transaction_run bnd_run load_operator_run andthen_run modify_run asks_run ret_run
        operator_audit_def write_audit_event_def add_audit_run to_view_def Let_def release_operator_lease_def write_lease_def
        write_resource_def split: option.split)
qed

text \<open>
  The purpose of a client's request decides whether its lease is an operator session: a client that
  acquires a mailbox with the purpose operator_debug takes one of the twenty places, and the
  administrator's release of that session ends the client's lease and drops its occupancy claim.
\<close>
theorem client_lease_passes_for_session:
  assumes "acquire_lease_body env q p wants_plus site defer ty s = (Inr res, t)" and "ty \<noteq> ''smsbower_gmail''"
    and "\<And>i. steps quiet (ae_ensure_access_token env i)" and "0 < aq_ttl_seconds q" and "aq_purpose q = Some ''operator_debug''"
    and "distinct (map ls_id (leases s))"
  shows "count_active_sessions (ae_now env) t = Suc (count_active_sessions (ae_now env) s)
     \<and> (\<exists>v u. release_session now admin_id (ar_lease_id res) t = (Inr v, u)
          \<and> (\<forall>c \<in> set (claims u). lc_lease_id c \<noteq> ar_lease_id res)
          \<and> (\<exists>l. lease_row (ar_lease_id res) u = Some l \<and> ls_client_key_id l = Some (client_key_id p) \<and> ls_released_at l = Some now))"
proof -
  from body_selects [OF assms(1,2)] obtain m where m: "occupy_mailbox env q p wants_plus site defer ty m s = (Inr res, t)" by metis
  from occupy_success [OF m assms(3)] obtain a where o1: "leases t = leases s @ [mailbox_lease env q p ty m a]"
    "ae_lease_id env \<notin> ls_id ` set (leases s)" "ar_lease_id res = ae_lease_id env" by metis
  let ?l = "mailbox_lease env q p ty m a"
  have l: "operator_lease ?l" "ls_released_at ?l = None" "session_active (ae_now env) ?l" "ls_client_key_id ?l = Some (client_key_id p)"
    using assms(4,5) by (simp_all add: mailbox_lease_def operator_lease_def operator_debug_purpose_def session_active_def is_expired_def secs_def)
  have id: "ls_id ?l = ae_lease_id env" by simp
  have row: "lease_row (ae_lease_id env) t = Some ?l"
    using o1(2) row_by_append_new [of ls_id ?l "leases s"] by (simp add: lease_row_def o1(1))
  from release_row [OF row l(1,2), of now admin_id] obtain v u where u: "release_session now admin_id (ae_lease_id env) t = (Inr v, u)"
    "leases u = put_row ls_id (?l\<lparr>ls_released_at := Some now\<rparr>) (leases t)" "claims u = delete_where (\<lambda>c. lc_lease_id c = ae_lease_id env) (claims t)"
    by blast
  have "lease_row (ae_lease_id env) u = Some (?l\<lparr>ls_released_at := Some now\<rparr>)"
    using row id by (simp add: lease_row_def u(2))
  with u l o1 show ?thesis by (simp add: count_active_sessions_def)
qed

text \<open>
  The list of sessions cuts before it filters: a session that still runs is missing from it once a
  hundred operator leases were created later, released ones included, although it counts as active.
\<close>
theorem running_session_hidden:
  assumes "l \<in> set (leases s)" and "operator_lease l" and "session_active now l" and "distinct (map ls_id (leases s))"
    and "100 \<le> length (filter (\<lambda>x. operator_lease x \<and> ls_created_at l < ls_created_at x) (leases s))"
  shows "ls_id l \<notin> ov_lease_id ` set (list_sessions now False s) \<and> 0 < count_active_sessions now s"
proof -
  let ?k = "\<lambda>x. - ls_created_at x" and ?ops = "filter operator_lease (leases s)"
  let ?top = "take 100 (sort_key ?k ?ops)" and ?new = "filter (\<lambda>x. operator_lease x \<and> ls_created_at l < ls_created_at x) (leases s)"
  have d: "distinct (leases s)" using assms(4) by (simp add: distinct_map)
  have "l \<notin> set ?top"
  proof
    assume l: "l \<in> set ?top"
    have "x \<in> set ?top" if "x \<in> set ?new" for x
      using sorted_take_first [of x ?k ?ops 100 l] that l by auto
    with l have "insert l (set ?new) \<subseteq> set ?top" by blast
    then have "card (insert l (set ?new)) \<le> card (set ?top)" by (intro card_mono) auto
    also have "\<dots> \<le> 100" by (rule order.trans [OF card_length]) simp
    finally have "card (insert l (set ?new)) \<le> 100" .
    moreover have "l \<notin> set ?new" by simp
    then have "card (insert l (set ?new)) = Suc (card (set ?new))" by (intro card_insert_disjoint) simp_all
    moreover have "card (set ?new) = length ?new" by (rule distinct_card) (simp add: d)
    ultimately show False using assms(5) by linarith
  qed
  moreover have "x = l" if "x \<in> set ?top" "ls_id x = ls_id l" for x
  proof -
    have "x \<in> set (leases s)" using in_set_takeD [OF that(1)] by simp
    with that(2) assms(1,4) show ?thesis by (auto simp: distinct_map dest: inj_onD)
  qed
  moreover have "ov_lease_id (to_view s x) = ls_id x" for x by (simp add: to_view_def Let_def)
  ultimately have "ls_id l \<notin> ov_lease_id ` set (list_sessions now False s)"
    by (fastforce simp: list_sessions_def)
  moreover have "l \<in> set (filter (\<lambda>l. operator_lease l \<and> session_active now l) (leases s))" using assms(1-3) by simp
  then have "0 < count_active_sessions now s" unfolding count_active_sessions_def by (metis length_pos_if_in_set)
  ultimately show ?thesis by blast
qed

subsection \<open>Witnesses\<close>

definition session_env :: "string \<Rightarrow> string \<Rightarrow> operator_env" where
  "session_env i r = \<lparr>sn_now = 10, sn_resource_id = r, sn_lease_id = i,
     sn_demand = \<lparr>de_secret = (\<lambda>_. None), de_lib = plain_lib, de_fetch = (\<lambda>_ _ _ _. None)\<rparr>,
     sn_provision = (\<lambda>_ p _. Some \<lparr>or_address = ''Box@X.io'', or_external_resource_id = r, or_secret_payload = [], or_metadata = []\<rparr>),
     sn_fetch_evidence = (\<lambda>_ _ _. Inl OdHttp), sn_encrypt = (\<lambda>x. x), sn_dumps = (\<lambda>_. ''{}'')\<rparr>"

lemma session_opens:
  "map_prod (map_sum id ov_address) (map ls_id \<circ> leases)
     (create_session (session_env ''l'' ''r'') ''adm'' ''tempmail_lol'' None None None 5 empty_db) = (Inr ''box@x.io'', [''l''])"
  by code_simp

theorem operator_sessions_bounded_witness:
  "\<exists>v t. create_session (session_env ''l'' ''r'') ''adm'' ''tempmail_lol'' None None None 5 empty_db = (Inr v, t)
     \<and> count_active_sessions 10 t = 1"
proof -
  obtain v t where v: "create_session (session_env ''l'' ''r'') ''adm'' ''tempmail_lol'' None None None 5 empty_db = (Inr v, t)"
    using session_opens
    by (cases "create_session (session_env ''l'' ''r'') ''adm'' ''tempmail_lol'' None None None 5 empty_db") (auto simp: map_sum_def split: sum.splits)
  with operator_sessions_bounded [OF v] show ?thesis
    by (auto simp: session_env_def count_active_sessions_def empty_db_def)
qed

theorem operator_requests_keep_occupancy_witness:
  "occupancy_ok 0 (snd (create_session (session_env ''l'' ''r'') ''adm'' ''tempmail_lol'' None None None 5 sample_db))"
  using operator_requests_keep_occupancy [OF sample_occupancy] by blast

lemma debug_body:
  "fst (acquire_lease_body (sample_env ''l'' 0) (sample_request\<lparr>aq_purpose := Some ''operator_debug''\<rparr>) sample_principal False None True
       ''microsoft'' sample_db)
     = Inr (mailbox_result (mailbox_lease (sample_env ''l'' 0) (sample_request\<lparr>aq_purpose := Some ''operator_debug''\<rparr>) sample_principal
              ''microsoft'' (sample_mailbox ''m'') None) (sample_mailbox ''m'') None None)"
proof -
  have sel: "select_mailbox [] (mailbox_eligible 0 AccessToken ''microsoft'' False None (normalized_preferred None) sample_db) sample_db
      = Some (sample_mailbox ''m'')"
    by (simp add: select_mailbox_def mailbox_eligible_def sample_fields mailbox_free_def normalized_preferred_def
        default_provider_type_def)
  show ?thesis
    by (simp add: acquire_lease_body_def Let_def bnd_run [of "asks f" for f] asks_run sel occupy_mailbox_def allocate_address_def
        bnd_run ret_run andthen_run modify_run insert_lease_run write_mailbox_def unavailable_on_conflict_def
        catch_run upsert_run blocking_claim_def claims_without_def credential_result_def audit_mailbox_acquired_def
        write_audit_log_def write_audit_event_def add_audit_run mailbox_result_def)
qed

theorem client_lease_passes_for_session_witness:
  "\<exists>t v (u::db) l. count_active_sessions 0 t = 1 \<and> release_session 1 ''adm'' ''l'' t = (Inr v, u)
     \<and> lease_row ''l'' u = Some l \<and> ls_client_key_id l = Some (client_key_id sample_principal) \<and> ls_released_at l = Some 1"
proof -
  let ?q = "sample_request\<lparr>aq_purpose := Some ''operator_debug''\<rparr>"
  obtain res t where b: "acquire_lease_body (sample_env ''l'' 0) ?q sample_principal False None True ''microsoft'' sample_db = (Inr res, t)"
    and res: "ar_lease_id res = ''l''"
    using debug_body by (metis mailbox_lease_fields(1) mailbox_result_fields(1) prod.collapse sample_env_fields(2))
  have "count_active_sessions 0 sample_db = 0" by (simp add: count_active_sessions_def)
  with client_lease_passes_for_session [OF b _ sample_ensure, of 1 "''adm''"] res show ?thesis by auto
qed

definition debug_lease :: "nat \<Rightarrow> lease" where
  "debug_lease n = (session_lease (session_env (replicate n CHR ''l'') ''r'') ''tempmail_lol'' ''default'' ''box@x.io'' 60)
     \<lparr>ls_created_at := int n, ls_released_at := (if n = 0 then None else Some 10)\<rparr>"

lemma debug_lease_fields:
  "operator_lease (debug_lease n)" "ls_created_at (debug_lease n) = int n" "ls_id (debug_lease n) = replicate n CHR ''l''"
  "session_active 10 (debug_lease n) \<longleftrightarrow> n = 0"
  by (simp_all add: debug_lease_def operator_lease_def session_active_def session_lease_def session_env_def is_expired_def secs_def)

theorem running_session_hidden_witness:
  "[] \<notin> ov_lease_id ` set (list_sessions 10 False (empty_db\<lparr>leases := map debug_lease [0..<101]\<rparr>))
   \<and> 0 < count_active_sessions 10 (empty_db\<lparr>leases := map debug_lease [0..<101]\<rparr>)"
proof -
  let ?s = "empty_db\<lparr>leases := map debug_lease [0..<101]\<rparr>"
  have "debug_lease 0 \<in> set (leases ?s)" by (simp del: upt.simps)
  moreover have "distinct (map ls_id (leases ?s))"
    by (simp add: comp_def debug_lease_fields distinct_map inj_on_def del: upt.simps)
  moreover have "length (filter (\<lambda>x. operator_lease x \<and> ls_created_at (debug_lease 0) < ls_created_at x) (leases ?s)) = 100"
  proof -
    have "filter (\<lambda>n. 0 < n) [0..<101] = [1..<(101::nat)]"
      by (simp add: upt_conv_Cons [of 0 101] del: upt.simps)
    then show ?thesis by (simp add: filter_map comp_def debug_lease_fields del: upt.simps)
  qed
  ultimately show ?thesis
    using running_session_hidden [of "debug_lease 0" ?s 10] by (simp add: debug_lease_fields del: upt.simps)
qed

end
