(* ===== verification/SmsBower.thy ===== *)
theory SmsBower
  imports ProviderPoll ProviderOps
begin

text \<open>
  The SMSBower provider (\<open>providers/smsbower_contracts.py\<close>, \<open>smsbower_transport.py\<close>,
  \<open>smsbower_gmail.py\<close>): the requests it sends, the reading of its answers, the purchase of one mailbox as a
  durable operation, the direct evidence and the remote end of a release. HTTP, JSON texts and the
  number parsers of the standard library are parameters.
\<close>

subsection \<open>URLs\<close>

text \<open>\<open>urllib.parse.urlparse\<close> and \<open>urlunparse\<close> as far as the base URL needs them.\<close>

definition is_control_or_space :: "char \<Rightarrow> bool" where
  "is_control_or_space c \<longleftrightarrow> char_code c \<le> 32"

definition unsafe_url_char :: "char \<Rightarrow> bool" where
  \<comment> \<open>tab, line feed and carriage return are removed wherever they stand\<close>
  "unsafe_url_char c \<longleftrightarrow> char_code c \<in> {9, 10, 13}"

definition scheme_char :: "char \<Rightarrow> bool" where
  "scheme_char c \<longleftrightarrow> is_ascii_digit c \<or> is_upper_ascii c \<or> is_lower_ascii c \<or> c \<in> set ''+-.''"

definition split_scheme :: "string \<Rightarrow> string \<times> string" where
  "split_scheme url =
     (let head = before CHR '':'' url in
      if CHR '':'' \<in> set url \<and> head \<noteq> [] \<and> (is_upper_ascii (hd head) \<or> is_lower_ascii (hd head)) \<and> list_all scheme_char head
      then (lower_str head, after CHR '':'' url) else ([], url))"

record split_url =
  su_scheme :: string
  su_netloc :: string
  su_path :: string

definition urlsplit :: "string \<Rightarrow> split_url option" where
  \<comment> \<open>\<open>None\<close>: a \<open>ValueError\<close> on unbalanced brackets; query, fragment and parameters are dropped\<close>
  "urlsplit raw =
     (let (scheme, rest) = split_scheme (filter (\<lambda>c. \<not> unsafe_url_char c) (dropWhile is_control_or_space raw));
          netloc = (if starts_with rest ''//'' then takeWhile (\<lambda>c. c \<notin> set ''/?#'') (drop 2 rest) else []);
          tail = (if starts_with rest ''//'' then drop (2 + length netloc) rest else rest);
          path = takeWhile (\<lambda>c. c \<notin> set ''?#'') tail
      in if (CHR ''['' \<in> set netloc) \<noteq> (CHR '']'' \<in> set netloc) then None
         else Some \<lparr>su_scheme = scheme, su_netloc = netloc, su_path = path\<rparr>)"

definition without_params :: "string \<Rightarrow> string \<Rightarrow> string" where
  \<comment> \<open>what follows the first semicolon of the last path segment is the parameters\<close>
  "without_params scheme path =
     (if scheme \<in> set [[], ''ftp'', ''hdl'', ''prospero'', ''http'', ''imap'', ''https'', ''shttp'', ''rtsp'', ''rtsps'', ''rtspu'', ''sip'', ''sips'', ''mms'', ''sftp'', ''tel''] \<and> CHR '';'' \<in> set path
      then (let segment = rev (takeWhile (\<lambda>c. c \<noteq> CHR ''/'') (rev path)) in
            take (length path - length segment) path @ before CHR '';'' segment)
      else path)"

definition uses_netloc :: "string list" where
  "uses_netloc = [[], ''ftp'', ''http'', ''gopher'', ''nntp'', ''telnet'', ''imap'', ''wais'', ''file'', ''mms'', ''https'', ''shttp'',
     ''snews'', ''prospero'', ''rtsp'', ''rtsps'', ''rtspu'', ''rsync'', ''svn'', ''svn+ssh'', ''sftp'', ''nfs'', ''git'',
     ''git+ssh'', ''ws'', ''wss'']"

definition urlunsplit :: "string \<Rightarrow> string \<Rightarrow> string \<Rightarrow> string" where
  \<comment> \<open>scheme (not empty), netloc and path; no query, no fragment\<close>
  "urlunsplit scheme netloc path =
     scheme @ '':'' @
     (if netloc \<noteq> [] \<or> scheme \<in> set uses_netloc \<and> \<not> starts_with path ''//''
      then ''//'' @ netloc @ (if path \<noteq> [] \<and> hd path \<noteq> CHR ''/'' then CHR ''/'' # path else path)
      else path)"

definition hostname :: "string \<Rightarrow> string" where
  \<comment> \<open>\<open>(parsed.hostname or "").lower()\<close>\<close>
  "hostname netloc =
     (let hostinfo = rev (takeWhile (\<lambda>c. c \<noteq> CHR ''@'') (rev netloc)) in
      lower_str (if CHR ''['' \<in> set hostinfo then before CHR '']'' (after CHR ''['' hostinfo) else before CHR '':'' hostinfo))"

fun replace_text :: "string \<Rightarrow> string \<Rightarrow> string \<Rightarrow> nat \<Rightarrow> string" where
  \<comment> \<open>\<open>s.replace(old, new)\<close>, scanning from the left; the counter skips a replaced occurrence\<close>
  "replace_text old new [] k = []"
| "replace_text old new (c # s) (Suc k) = replace_text old new s k"
| "replace_text old new (c # s) 0 =
     (if starts_with (c # s) old then new @ replace_text old new s (length old - 1) else c # replace_text old new s 0)"

definition smsbower_default_base_url :: string where
  "smsbower_default_base_url = ''https://smsbower.page/api/mail''"

definition normalize_smsbower_base_url :: "string option \<Rightarrow> string" where
  "normalize_smsbower_base_url value =
     (let tx = strip (or_text value []) in
      if tx = [] then smsbower_default_base_url
      else case urlsplit (if contains tx ''://'' then tx else ''https://'' @ tx) of
          None \<Rightarrow> smsbower_default_base_url
        | Some u \<Rightarrow>
            (let netloc = (if hostname (su_netloc u) = ''smsbower.app''
                           then replace_text ''smsbower.app'' ''smsbower.page'' (su_netloc u) 0 else su_netloc u);
                 scheme = (if su_scheme u = [] then ''https'' else su_scheme u);
                 path = rev (dropWhile (\<lambda>c. c = CHR ''/'') (rev (without_params (su_scheme u) (su_path u))))
             in urlunsplit scheme netloc path))"

lemma base_url_cases:
  "normalize_smsbower_base_url (Some '' smsbower.app/api/mail// '') = ''https://smsbower.page/api/mail''"
  "normalize_smsbower_base_url (Some ''http://x.io:80/a;b?c#d'') = ''http://x.io:80/a''"
  "normalize_smsbower_base_url (Some ''HTTP://Smsbower.app/'') = ''http://Smsbower.app''"
  "normalize_smsbower_base_url None = smsbower_default_base_url"
  by code_simp+

subsection \<open>Requests\<close>

datatype sms_value = SvText string | SvReal real | SvInt int

record sms_request =
  sq_action :: string
  sq_params :: "(string \<times> sms_value) list"
  sq_base_url :: string

definition smsbower_service_code :: "string option \<Rightarrow> string" where
  "smsbower_service_code service =
     (let tx = strip_lower (or_text service []) in
      if tx \<in> set [[], ''openai'', ''chatgpt'', ''chat-gpt'', ''oa''] then ''dr'' else tx)"

definition build_get_activation_request :: "string \<Rightarrow> string \<Rightarrow> string \<Rightarrow> real option \<Rightarrow> sms_request" where
  "build_get_activation_request base_url service domain max_price =
     \<lparr>sq_action = ''getActivation'',
      sq_params = [(''service'', SvText (smsbower_service_code (Some service))), (''domain'', SvText domain)]
        @ (case max_price of None \<Rightarrow> [] | Some x \<Rightarrow> [(''maxPrice'', SvReal x), (''max_price'', SvReal x)]),
      sq_base_url = normalize_smsbower_base_url (Some base_url)\<rparr>"

definition build_get_code_request :: "string \<Rightarrow> string \<Rightarrow> sms_request" where
  "build_get_code_request base_url mail_id =
     \<lparr>sq_action = ''getCode'', sq_params = [(''mailId'', SvText mail_id)], sq_base_url = normalize_smsbower_base_url (Some base_url)\<rparr>"

definition build_set_status_request :: "string \<Rightarrow> string \<Rightarrow> int \<Rightarrow> sms_request" where
  "build_set_status_request base_url mail_id status =
     \<lparr>sq_action = ''setStatus'', sq_params = [(''id'', SvText mail_id), (''mailId'', SvText mail_id), (''status'', SvInt status)],
      sq_base_url = normalize_smsbower_base_url (Some base_url)\<rparr>"

subsection \<open>Transport\<close>

record sms_failure =
  sf_is_timeout :: bool
  sf_is_unknown :: bool

datatype http_reply = HttpTimeout | HttpNetworkError | HttpStatus nat string "json option"
  \<comment> \<open>the status, the body and the body as JSON where it is one\<close>

record sms_lib =
  sl_dumps :: "json \<Rightarrow> string"        \<comment> \<open>\<open>json.dumps(v, ensure_ascii=False)\<close>\<close>
  sl_str :: "json \<Rightarrow> string"          \<comment> \<open>\<open>str(v)\<close> of a value that is no string\<close>
  sl_float :: "json \<Rightarrow> real option"   \<comment> \<open>\<open>float(v)\<close>, \<open>None\<close> where it raises\<close>

definition str_of_json :: "sms_lib \<Rightarrow> json \<Rightarrow> string" where
  "str_of_json lib v = (case v of JStr x \<Rightarrow> x | _ \<Rightarrow> sl_str lib v)"

definition query_params :: "sms_request \<Rightarrow> string \<Rightarrow> (string \<times> sms_value) list" where
  \<comment> \<open>empty values are left out; a parameter named \<open>api_key\<close> would replace the key\<close>
  "query_params q api_key = (''api_key'', SvText api_key) # filter (\<lambda>(k, v). v \<noteq> SvText []) (sq_params q)"

definition request_url :: "sms_request \<Rightarrow> string" where
  "request_url q = rev (dropWhile (\<lambda>c. c = CHR ''/'') (rev (sq_base_url q))) @ ''/'' @ sq_action q"

definition sms_send ::
    "(string \<Rightarrow> (string \<times> sms_value) list \<Rightarrow> http_reply) \<Rightarrow> string \<Rightarrow> sms_request \<Rightarrow> sms_failure + json" where
  "sms_send http api_key q =
     (if api_key = [] then Inl \<lparr>sf_is_timeout = False, sf_is_unknown = False\<rparr>
      else case http (request_url q) (query_params q api_key) of
          HttpTimeout \<Rightarrow> Inl \<lparr>sf_is_timeout = True, sf_is_unknown = True\<rparr>
        | HttpNetworkError \<Rightarrow> Inl \<lparr>sf_is_timeout = False, sf_is_unknown = True\<rparr>
        | HttpStatus code body parsed \<Rightarrow>
            if 400 \<le> code then Inl \<lparr>sf_is_timeout = False, sf_is_unknown = False\<rparr>
            else if strip body = [] then Inr (JStr [])
            else (case parsed of None \<Rightarrow> Inr (JStr (strip body)) | Some v \<Rightarrow> Inr v))"

subsection \<open>Reading a code\<close>

definition not_after_digit :: matcher where
  \<comment> \<open>\<open>(?<!\d)\<close>\<close>
  "not_after_digit t i = (if 0 < i \<and> is_ascii_digit (t ! (i - 1)) then [] else [i])"

definition not_before_digit :: matcher where
  "not_before_digit t i = (if i < length t \<and> is_ascii_digit (t ! i) then [] else [i])"

definition six_digits :: "string \<Rightarrow> string option" where
  "six_digits = rx_group not_after_digit (rx_many is_ascii_digit 6 (Some 6)) not_before_digit"

definition code_keys :: "string list" where
  "code_keys = [''code'', ''otp'', ''verification_code'', ''sms'', ''text'', ''message'']"

lemma first_some_cong [fundef_cong]:
  "xs = ys \<Longrightarrow> (\<And>x. x \<in> set ys \<Longrightarrow> f x = g x) \<Longrightarrow> first_some f xs = first_some g ys"
  by (induction xs arbitrary: ys) (auto split: option.split)

lemma map_of_size: "map_of kvs k = Some v \<Longrightarrow> size v < Suc (size_list (size_prod (\<lambda>_. 0) size) kvs)"
  by (induction kvs) (auto split: if_splits)

function extract_smsbower_code :: "sms_lib \<Rightarrow> json \<Rightarrow> string option" where
  \<comment> \<open>an empty string is a code that is not found\<close>
  "extract_smsbower_code lib v =
     (case v of
        JNull \<Rightarrow> None
      | JObj kvs \<Rightarrow>
          (case first_some (\<lambda>k. extract_smsbower_code lib (jget v k)) code_keys of
             Some c \<Rightarrow> Some c
           | None \<Rightarrow> six_digits (sl_dumps lib v))
      | _ \<Rightarrow> six_digits (str_of_json lib v))"
  by pat_completeness auto
termination
proof (relation "measure (\<lambda>(lib, v). size v)")
  show "((lib, jget v k), lib, v) \<in> measure (\<lambda>(lib, v). size v)" if "v = JObj kvs" "k \<in> set code_keys" for lib v kvs k
    using that by (auto dest: map_of_size split: option.split)
qed simp

declare extract_smsbower_code.simps [simp del]

definition pending_markers :: "string list" where
  "pending_markers = [''code has not been received'', ''try again later'', ''no code'', ''wait_code'', ''waiting'', ''pending'']"

definition smsbower_response_is_pending :: "sms_lib \<Rightarrow> json \<Rightarrow> bool" where
  "smsbower_response_is_pending lib v =
     (let lowered = lower_str (case v of JStr x \<Rightarrow> x | _ \<Rightarrow> sl_dumps lib v) in list_ex (contains lowered) pending_markers)"

definition get_code :: "sms_lib \<Rightarrow> (sms_request \<Rightarrow> sms_failure + json) \<Rightarrow> sms_request \<Rightarrow> sms_failure + (string option \<times> bool)" where
  "get_code lib send q =
     map_sum id (\<lambda>v. if smsbower_response_is_pending lib v then (None, True) else (extract_smsbower_code lib v, False)) (send q)"

definition sms_reply_of :: "sms_failure + (string option \<times> bool) \<Rightarrow> sms_reply" where
  \<comment> \<open>what the polling loop sees of one call\<close>
  "sms_reply_of r = (case r of Inl _ \<Rightarrow> SmsTransportFailed | Inr (c, pending) \<Rightarrow> SmsReply c pending)"

subsection \<open>Reading an activation\<close>

record sms_activation =
  sa_id :: string
  sa_email :: string
  sa_cost :: "real option"

definition keyed_text :: "sms_lib \<Rightarrow> json \<Rightarrow> string list \<Rightarrow> string" where
  \<comment> \<open>the first of the keys with a truthy value\<close>
  "keyed_text lib v keys = (case find (\<lambda>k. truthy (jget v k)) keys of None \<Rightarrow> [] | Some k \<Rightarrow> strip (str_of_json lib (jget v k)))"

definition activation_cost :: "sms_lib \<Rightarrow> json \<Rightarrow> real option" where
  "activation_cost lib v =
     (case find (\<lambda>k. jget v k \<noteq> JNull) [''cost'', ''price'', ''amount'', ''sum''] of
        None \<Rightarrow> None | Some k \<Rightarrow> sl_float lib (jget v k))"

definition all_digits :: "string \<Rightarrow> bool" where
  \<comment> \<open>\<open>re.fullmatch(r"\d+", s)\<close>\<close>
  "all_digits s \<longleftrightarrow> s \<noteq> [] \<and> list_all is_ascii_digit s"

definition colon_tokens :: "string \<Rightarrow> string list" where
  "colon_tokens tx = filter (\<lambda>p. p \<noteq> []) (split_on (\<lambda>c. c = CHR '':'') [] tx)"

definition text_activation :: "string \<Rightarrow> (string \<times> string) option" where
  \<comment> \<open>id and address of an answer in plain text; \<open>None\<close>: it reports a failure\<close>
  "text_activation tx =
     (let lowered = lower_str tx; tokens = colon_tokens tx;
          email = (case find (\<lambda>p. CHR ''@'' \<in> set p) tokens of None \<Rightarrow> [] | Some p \<Rightarrow> p);
          ident = (case find (\<lambda>p. p \<noteq> email \<and> all_digits (strip p)) tokens of None \<Rightarrow> [] | Some p \<Rightarrow> strip p)
      in if starts_with lowered ''no_'' \<or> contains lowered ''no_balance'' \<or> contains lowered ''bad_key''
            \<or> contains lowered ''no_activation'' then None
         else Some (ident, strip email))"

definition parse_smsbower_activation :: "sms_lib \<Rightarrow> json \<Rightarrow> sms_activation option" where
  \<comment> \<open>\<open>None\<close>: \<open>SmsBowerContractError\<close>\<close>
  "parse_smsbower_activation lib v =
     (case (if is_dict v
            then Some (keyed_text lib v [''id'', ''activation_id'', ''activationId'', ''mail_id'', ''mailId''],
                       keyed_text lib v [''email'', ''mail'', ''address'', ''login''])
            else text_activation (strip (if truthy v then str_of_json lib v else []))) of
        None \<Rightarrow> None
      | Some (i, email) \<Rightarrow>
          if i = [] \<or> email = [] then None
          else Some \<lparr>sa_id = i, sa_email = email, sa_cost = (if is_dict v then activation_cost lib v else None)\<rparr>)"


subsection \<open>Buying a mailbox\<close>

record sms_runtime =
  sr_enabled :: bool
  sr_instance_id :: string
  sr_api_base :: string
  sr_api_key :: "string option"
  sr_service :: string
  sr_domain :: string
  sr_max_price :: "real option"
  sr_request_timeout_seconds :: real
  sr_has_api_key :: bool
  sr_from_database :: bool

datatype replenish_error = SmsBowerNotConfigured | ReplenishStore ops_error

record replenish_outcome =
  ro_operation_id :: string
  ro_status :: operation_status
  ro_primary_email :: "string option"
  ro_external_resource_id :: "string option"
  ro_error_class :: "string option"
  ro_provider_resource_id :: "string option"

record replenish_env =
  rn_now :: "nat \<Rightarrow> time"                 \<comment> \<open>the clock of each transaction\<close>
  rn_key_id :: string                       \<comment> \<open>drawn ids\<close>
  rn_operation_id :: string
  rn_resource_id :: string
  rn_runtime :: "db \<Rightarrow> sms_runtime"
  rn_lib :: sms_lib
  rn_send :: "string \<Rightarrow> sms_request \<Rightarrow> sms_failure + json"
  rn_encrypt :: "string \<Rightarrow> string"
  rn_others :: "db \<Rightarrow> db"                   \<comment> \<open>what other requests commit during the remote call\<close>

definition runtime_key :: "sms_runtime \<Rightarrow> string" where
  "runtime_key rt = strip (or_text (sr_api_key rt) [])"

definition ensure_configured :: "sms_runtime \<Rightarrow> (db, replenish_error, unit) action" where
  "ensure_configured rt = require (sr_enabled rt \<and> runtime_key rt \<noteq> []) SmsBowerNotConfigured"

definition replenish_request :: "replenish_env \<Rightarrow> sms_runtime \<Rightarrow> operation_request" where
  "replenish_request env rt = \<lparr>oq_operation_type = Replenish, oq_provider_type = ''smsbower_gmail'',
     oq_provider_instance_id = sr_instance_id rt,
     oq_idempotency_key = ''replenish:'' @ sr_instance_id rt @ '':'' @ rn_key_id env,
     oq_mailbox_id = None, oq_provider_resource_id = None, oq_lease_id = None, oq_external_resource_id = None,
     oq_resource_generation = None, oq_expected_state_version = None\<rparr>"

definition open_operation :: "replenish_env \<Rightarrow> sms_runtime \<Rightarrow> (db, replenish_error, string) action" where
  \<comment> \<open>the first transaction: the operation is running before anything is bought\<close>
  "open_operation env rt = transaction (lift_error ReplenishStore (
     bnd (create_pending_operation (rn_operation_id env) (rn_now env 0) (replenish_request env rt)) (\<lambda>snap.
     andthen (bnd (mark_running (rn_now env 0) (os_operation_id snap)) (\<lambda>_. ret ()))
       (ret (os_operation_id snap)))))"

definition finalize_replenish_failure ::
    "replenish_env \<Rightarrow> string \<Rightarrow> string \<Rightarrow> bool \<Rightarrow> (db, replenish_error, replenish_outcome) action" where
  \<comment> \<open>a failure to store it is swallowed\<close>
  "finalize_replenish_failure env i error_class is_unknown =
     (let status = (if is_unknown then OpUnknown else OpFailed) in
      andthen (catch (transaction (lift_error ReplenishStore (bnd (finalize_operation (rn_now env 2) i status (Some error_class)
                  (Some (JObj [(''error_class'', JStr error_class)]))) (\<lambda>_. ret ())))) (\<lambda>_. ret ()))
        (ret \<lparr>ro_operation_id = i, ro_status = status, ro_primary_email = None, ro_external_resource_id = None,
              ro_error_class = Some error_class, ro_provider_resource_id = None\<rparr>))"

definition store_activation ::
    "replenish_env \<Rightarrow> sms_runtime \<Rightarrow> string \<Rightarrow> string \<Rightarrow> sms_activation \<Rightarrow> (db, replenish_error, replenish_outcome) action" where
  "store_activation env rt actor_id i a =
     (let email = strip_lower (sa_email a);
          secret = rn_encrypt env (sl_dumps (rn_lib env) (JObj [(''mail_id'', JStr (sa_id a)), (''email'', JStr email)])) in
      catch (transaction (lift_error ReplenishStore (
        bnd (finalize_smsbower_replenish_success (rn_resource_id env) (rn_now env 1) i (sr_instance_id rt) (sa_id a) email
               (Some secret) (sa_cost a) actor_id) (\<lambda>rid.
        ret \<lparr>ro_operation_id = i, ro_status = OpSucceeded, ro_primary_email = Some email, ro_external_resource_id = Some (sa_id a),
             ro_error_class = None, ro_provider_resource_id = Some rid\<rparr>))))
        (\<lambda>_. finalize_replenish_failure env i ''finalize'' True))"

definition activation_request :: "sms_runtime \<Rightarrow> sms_request" where
  "activation_request rt =
     build_get_activation_request (normalize_smsbower_base_url (Some (sr_api_base rt))) (sr_service rt)
       (if sr_domain rt = [] then ''gmail.com'' else sr_domain rt) (sr_max_price rt)"

definition settle_purchase ::
    "replenish_env \<Rightarrow> sms_runtime \<Rightarrow> string \<Rightarrow> string \<Rightarrow> sms_failure + json \<Rightarrow> (db, replenish_error, replenish_outcome) action" where
  \<comment> \<open>what becomes of the operation once the provider has answered\<close>
  "settle_purchase env rt actor_id i reply =
     (case reply of
        Inl f \<Rightarrow> finalize_replenish_failure env i (if sf_is_timeout f then ''timeout'' else ''transport'') (sf_is_unknown f)
      | Inr v \<Rightarrow>
          (case parse_smsbower_activation (rn_lib env) v of
             None \<Rightarrow> finalize_replenish_failure env i ''contract'' False
           | Some a \<Rightarrow> store_activation env rt actor_id i a))"

definition replenish_one :: "replenish_env \<Rightarrow> string \<Rightarrow> (db, replenish_error, replenish_outcome) action" where
  \<comment> \<open>the provider is asked between the two transactions, in the database \<open>rn_others\<close> works on\<close>
  "replenish_one env actor_id =
     bnd (asks (rn_runtime env)) (\<lambda>rt.
     andthen (ensure_configured rt)
    (bnd (open_operation env rt) (\<lambda>i.
     andthen (modify (rn_others env))
       (settle_purchase env rt actor_id i (rn_send env (runtime_key rt) (activation_request rt))))))"

subsection \<open>Evidence and release\<close>

datatype evidence_error = UnsupportedQuery | MissingMailId | EvidenceTransport

definition fetch_direct_evidence ::
    "sms_lib \<Rightarrow> (string \<Rightarrow> sms_request \<Rightarrow> sms_failure + json) \<Rightarrow> sms_runtime \<Rightarrow> allocation \<Rightarrow> evidence_query \<Rightarrow> evidence_error + evidence" where
  "fetch_direct_evidence lib send rt a q =
     (if given (vq_from_address q) \<or> given (vq_subject_contains q) \<or> given (vq_body_contains q) \<or> given (vq_recipient q)
         \<or> vq_newer_than q \<noteq> None then Inl UnsupportedQuery
      else (let mail_id = or_text (map_of (va_access_context a) ''mail_id'') (or_text (map_of (va_access_context a) ''external_resource_id'') []) in
        if mail_id = [] then Inl MissingMailId
        else case get_code lib (send (runtime_key rt)) (build_get_code_request (normalize_smsbower_base_url (Some (sr_api_base rt))) mail_id) of
            Inl _ \<Rightarrow> Inl EvidenceTransport
          | Inr (c, pending) \<Rightarrow>
              Inr (if pending \<or> \<not> present c then \<lparr>ve_messages = [], ve_direct_code = None, ve_read_method = ''getCode''\<rparr>
                   else \<lparr>ve_messages = [\<lparr>ev_from = None, ev_subject = None, ev_body_text = None, ev_received_at = None,
                            ev_recipients = [], ev_direct_code = c\<rparr>], ve_direct_code = c, ve_read_method = ''getCode''\<rparr>)))"

definition remote_status_for_outcome :: "bool \<Rightarrow> int" where
  "remote_status_for_outcome success = (if success then 3 else 2)"

definition finalize_remote ::
    "sms_lib \<Rightarrow> (string \<Rightarrow> sms_request \<Rightarrow> sms_failure + json) \<Rightarrow> sms_runtime \<Rightarrow> string \<Rightarrow> int \<Rightarrow> release_outcome" where
  \<comment> \<open>the external id and the status to set\<close>
  "finalize_remote lib send rt external_id status =
     (case send (runtime_key rt) (build_set_status_request (normalize_smsbower_base_url (Some (sr_api_base rt))) external_id status) of
        Inr _ \<Rightarrow> OutcomeSucceeded
      | Inl f \<Rightarrow> if sf_is_unknown f \<or> sf_is_timeout f then OutcomeOther else OutcomeFailed)"


subsection \<open>A purchase is accounted for\<close>

lemma finalize_row:
  assumes "operation_row i s = Some o1"
  shows "\<exists>o2 t snap. finalize_operation now i status e md s = (Inr (Some snap), t) \<and> operation_row i t = Some o2 \<and> po_status o2 = status
    \<and> resources t = resources s"
  using assms operation_row_id [OF assms] by (simp add: finalize_operation_def run Let_def) (simp add: write_operation_def)

lemma failure_row:
  assumes "operation_row i s = Some o1"
  shows "\<exists>o2 t. finalize_replenish_failure env i e unk s = (Inr \<lparr>ro_operation_id = i, ro_status = (if unk then OpUnknown else OpFailed),
      ro_primary_email = None, ro_external_resource_id = None, ro_error_class = Some e, ro_provider_resource_id = None\<rparr>, t)
    \<and> operation_row i t = Some o2 \<and> po_status o2 = (if unk then OpUnknown else OpFailed)"
proof -
  obtain o2 t snap where f: "finalize_operation (rn_now env 2) i (if unk then OpUnknown else OpFailed) (Some e)
      (Some (JObj [(''error_class'', JStr e)])) s = (Inr (Some snap), t)" "operation_row i t = Some o2"
    "po_status o2 = (if unk then OpUnknown else OpFailed)"
    using finalize_row [OF assms] by blast
  then show ?thesis
    by (simp add: finalize_replenish_failure_def Let_def andthen_run catch_run transaction_run lift_error_run bnd_run ret_run)
qed

lemma open_operation_run:
  assumes "open_operation env rt s = (Inr i, t)" and "operation_by_key (oq_idempotency_key (replenish_request env rt)) s = None"
  shows "i = rn_operation_id env \<and> (\<exists>o1. operation_row i t = Some o1 \<and> po_status o1 = OpRunning \<and> t = s\<lparr>operations := operations s @ [o1]\<rparr>)"
proof -
  define o1 where "o1 = \<lparr>po_id = rn_operation_id env, po_operation_type = Replenish, po_provider_type = ''smsbower_gmail'',
     po_provider_instance_id = sr_instance_id rt, po_mailbox_id = None, po_provider_resource_id = None, po_lease_id = None,
     po_external_resource_id = None, po_resource_generation = None, po_expected_state_version = None, po_status = OpRunning,
     po_idempotency_key = oq_idempotency_key (replenish_request env rt), po_attempt_count = 1, po_last_error_class = None,
     po_result_summary_json = None, po_created_at = rn_now env 0, po_updated_at = rn_now env 0\<rparr>"
  have fresh: "rn_operation_id env \<notin> po_id ` set (operations s)"
    and row: "i = rn_operation_id env" "t = s\<lparr>operations := put_row po_id o1 (operations s @ [o1\<lparr>po_status := OpPending, po_attempt_count := 0\<rparr>])\<rparr>"
    using assms
    by (auto simp: open_operation_def transaction_run lift_error_run bnd_run ret_run create_pending_operation_def insert_operation_def
        asks_run andthen_run require_run modify_run Let_def mark_running_def to_snapshot_def operation_row_append write_operation_def
        o1_def replenish_request_def split: if_splits option.splits)
  have id: "po_id o1 = rn_operation_id env" by (simp add: o1_def)
  have "map (\<lambda>r. if po_id r = po_id o1 then o1 else r) (operations s) = operations s"
    by (rule map_idI) (use fresh id in \<open>auto simp: image_iff\<close>)
  then have "put_row po_id o1 (operations s @ [o1\<lparr>po_status := OpPending, po_attempt_count := 0\<rparr>]) = operations s @ [o1]"
    by (simp add: put_row_def update_where_def id)
  with row fresh show ?thesis by (auto simp: operation_row_append o1_def)
qed

lemma open_operation_fails: "open_operation env rt s = (Inl e, t) \<Longrightarrow> t = s"
  by (auto simp: open_operation_def transaction_run split: prod.splits sum.splits)

lemma operation_row_resources: "operation_row i (s\<lparr>resources := rs\<rparr>) = operation_row i s"
  by (simp add: operation_row_def)

lemma resource_by_external_Some:
  "resource_by_external inst ext s = Some r \<Longrightarrow>
     r \<in> set (resources s) \<and> pr_provider_instance_id r = inst \<and> pr_external_resource_id r = ext"
  by (auto simp: resource_by_external_def dest: find_some_mem)

lemma success_row:
  assumes "finalize_smsbower_replenish_success n now i inst ext email secret cost actor s = (Inr rid, t)" and "operation_row i s = Some o1"
  shows "\<exists>o2. operation_row i t = Some o2 \<and> po_status o2 = OpSucceeded
    \<and> (\<exists>x \<in> set (resources t). pr_provider_instance_id x = inst \<and> pr_external_resource_id x = ext \<and> pr_id x = rid)"
proof (cases "resource_by_external inst ext s")
  case (Some r)
  obtain o2 u snap where f: "finalize_operation now i OpSucceeded None (Some (JObj [(''provider_resource_id'', JStr (pr_id r)),
      (''external_resource_id'', JStr ext), (''deduplicated'', JBool True), (''cost'', jreal cost)])) s = (Inr (Some snap), u)"
    "operation_row i u = Some o2" "po_status o2 = OpSucceeded" "resources u = resources s"
    using finalize_row [OF assms(2)] by blast
  with assms(1) Some have "t = u" "rid = pr_id r"
    by (simp_all add: finalize_smsbower_replenish_success_def bnd_run asks_run andthen_run ret_run)
  with f resource_by_external_Some [OF Some] show ?thesis by auto
next
  case None
  with assms operation_row_id [OF assms(2)] show ?thesis
    by (auto simp: finalize_smsbower_replenish_success_def bnd_run asks_run andthen_run ret_run modify_run throw_run insert_resource_def
        write_audit_event_def add_audit_run operation_row_resources write_operation_def operation_row_def split: if_splits)
qed

definition stored_purchase :: "replenish_env \<Rightarrow> sms_runtime \<Rightarrow> string \<Rightarrow> string \<Rightarrow> sms_activation \<Rightarrow> (db, ops_error, string) action" where
  \<comment> \<open>the transaction that puts the bought mailbox into the inventory\<close>
  "stored_purchase env rt actor i a =
     finalize_smsbower_replenish_success (rn_resource_id env) (rn_now env 1) i (sr_instance_id rt) (sa_id a) (strip_lower (sa_email a))
       (Some (rn_encrypt env (sl_dumps (rn_lib env) (JObj [(''mail_id'', JStr (sa_id a)), (''email'', JStr (strip_lower (sa_email a)))]))))
       (sa_cost a) actor"

definition failed_outcome :: "string \<Rightarrow> operation_status \<Rightarrow> string \<Rightarrow> replenish_outcome" where
  "failed_outcome i status cause = \<lparr>ro_operation_id = i, ro_status = status, ro_primary_email = None, ro_external_resource_id = None,
     ro_error_class = Some cause, ro_provider_resource_id = None\<rparr>"

definition bought_outcome :: "string \<Rightarrow> sms_activation \<Rightarrow> string \<Rightarrow> replenish_outcome" where
  "bought_outcome i a rid = \<lparr>ro_operation_id = i, ro_status = OpSucceeded, ro_primary_email = Some (strip_lower (sa_email a)),
     ro_external_resource_id = Some (sa_id a), ro_error_class = None, ro_provider_resource_id = Some rid\<rparr>"

lemma store_row:
  assumes "operation_row i s = Some o1"
  shows "\<exists>t o2. store_activation env rt actor i a s
      = (Inr (case fst (stored_purchase env rt actor i a s) of Inr rid \<Rightarrow> bought_outcome i a rid | Inl _ \<Rightarrow> failed_outcome i OpUnknown ''finalize''), t)
    \<and> operation_row i t = Some o2
    \<and> (case fst (stored_purchase env rt actor i a s) of
         Inr rid \<Rightarrow> po_status o2 = OpSucceeded \<and> (\<exists>x \<in> set (resources t). pr_provider_instance_id x = sr_instance_id rt
            \<and> pr_external_resource_id x = sa_id a \<and> pr_id x = rid)
       | Inl _ \<Rightarrow> po_status o2 = OpUnknown)"
proof -
  obtain r u where f: "stored_purchase env rt actor i a s = (r, u)" by fastforce
  note f' = f [unfolded stored_purchase_def]
  show ?thesis
  proof (cases r)
    case (Inl e)
    obtain o2 t where "finalize_replenish_failure env i ''finalize'' True s = (Inr (failed_outcome i OpUnknown ''finalize''), t)"
      "operation_row i t = Some o2" "po_status o2 = OpUnknown"
      using failure_row [OF assms, of env "''finalize''" True] by (auto simp: failed_outcome_def)
    with f' f Inl show ?thesis
      by (simp add: store_activation_def Let_def catch_run transaction_run lift_error_run bnd_run)
  next
    case (Inr rid)
    from success_row [OF f' [unfolded Inr] assms] obtain o2 x where x: "operation_row i u = Some o2" "po_status o2 = OpSucceeded"
      "x \<in> set (resources u)" "pr_provider_instance_id x = sr_instance_id rt" "pr_external_resource_id x = sa_id a" "pr_id x = rid"
      by blast
    from f' f Inr x show ?thesis
      by (auto simp: store_activation_def Let_def catch_run transaction_run lift_error_run bnd_run ret_run bought_outcome_def)
  qed
qed

text \<open>
  C7. A purchase is never forgotten. When the provider is asked the operation is already stored as running,
  beside an otherwise unchanged database. When the request returns, the operation has the status it reports, and
  that status and its cause are those of the answer: a failed request is failed or, when the transport cannot
  tell, unknown, with its cause timeout or transport; an answer that is no activation is failed (contract); an
  activation is succeeded exactly when the transaction that stores it commits, and then the mailbox is in the inventory,
  and unknown (finalize) when it does not. An error is raised only before the provider is asked, and leaves
  nothing behind. The idempotency key is fresh and other requests leave the running operation alone.
\<close>
theorem replenish_is_accounted_for:
  fixes env s actor
  defines "rt \<equiv> rn_runtime env s" and "i \<equiv> rn_operation_id env"
  defines "reply \<equiv> rn_send env (runtime_key rt) (activation_request rt)"
  assumes "operation_by_key (oq_idempotency_key (replenish_request env rt)) s = None"
    and "\<And>u. operation_row i (rn_others env u) = operation_row i u"
  shows "(\<exists>e. replenish_one env actor s = (Inl e, s))
    \<or> (\<exists>u o1 out t o2. u = s\<lparr>operations := operations s @ [o1]\<rparr> \<and> operation_row i u = Some o1 \<and> po_status o1 = OpRunning
       \<and> replenish_one env actor s = (Inr out, t) \<and> settle_purchase env rt actor i reply (rn_others env u) = (Inr out, t)
       \<and> operation_row i t = Some o2 \<and> po_status o2 = ro_status out
       \<and> (case reply of
            Inl f \<Rightarrow> out = failed_outcome i (if sf_is_unknown f then OpUnknown else OpFailed) (if sf_is_timeout f then ''timeout'' else ''transport'')
          | Inr v \<Rightarrow> (case parse_smsbower_activation (rn_lib env) v of
                None \<Rightarrow> out = failed_outcome i OpFailed ''contract''
              | Some a \<Rightarrow> (case fst (stored_purchase env rt actor i a (rn_others env u)) of
                    Inl _ \<Rightarrow> out = failed_outcome i OpUnknown ''finalize''
                  | Inr rid \<Rightarrow> out = bought_outcome i a rid \<and> (\<exists>x \<in> set (resources t).
                        pr_provider_instance_id x = sr_instance_id rt \<and> pr_external_resource_id x = sa_id a \<and> pr_id x = rid)))))"
proof (cases "sr_enabled rt \<and> runtime_key rt \<noteq> [] \<and> (\<exists>j u. open_operation env rt s = (Inr j, u))")
  case False
  then have "\<exists>e. replenish_one env actor s = (Inl e, s)"
    by (cases "open_operation env rt s"; cases "fst (open_operation env rt s)")
      (auto simp: replenish_one_def ensure_configured_def bnd_run andthen_run asks_run require_run rt_def [symmetric] dest: open_operation_fails)
  then show ?thesis ..
next
  case True
  then obtain u where opened: "open_operation env rt s = (Inr i, u)" using open_operation_run assms(4) i_def by blast
  then obtain o1 where u: "u = s\<lparr>operations := operations s @ [o1]\<rparr>" "operation_row i u = Some o1" "po_status o1 = OpRunning"
    using open_operation_run assms(4) by blast
  have run: "replenish_one env actor s = settle_purchase env rt actor i reply (rn_others env u)"
    using True opened
    by (simp add: replenish_one_def ensure_configured_def bnd_run andthen_run asks_run require_run modify_run rt_def [symmetric] reply_def)
  have row: "operation_row i (rn_others env u) = Some o1" using u(2) assms(5) by simp
  note failed = failure_row [OF row, of env, folded failed_outcome_def]
  show ?thesis
  proof (cases reply)
    case (Inl f)
    with failed [of "if sf_is_timeout f then ''timeout'' else ''transport''" "sf_is_unknown f"] run u show ?thesis
      by (fastforce simp: settle_purchase_def failed_outcome_def)
  next
    case (Inr v)
    show ?thesis
    proof (cases "parse_smsbower_activation (rn_lib env) v")
      case None
      with Inr failed [of "''contract''" False] run u show ?thesis by (fastforce simp: settle_purchase_def failed_outcome_def)
    next
      case (Some a)
      from store_row [OF row, of env rt actor a] Some Inr run u show ?thesis
        by (cases "fst (stored_purchase env rt actor i a (rn_others env u))")
          (fastforce simp: settle_purchase_def failed_outcome_def bought_outcome_def)+
    qed
  qed
qed


subsection \<open>What is read as a code\<close>

function scanned_texts :: "sms_lib \<Rightarrow> json \<Rightarrow> string list" where
  \<comment> \<open>the texts of an answer in the order of preference: the named entries, then the whole answer\<close>
  "scanned_texts lib v =
     (case v of
        JNull \<Rightarrow> []
      | JObj kvs \<Rightarrow> concat (map (\<lambda>k. scanned_texts lib (jget v k)) code_keys) @ [sl_dumps lib v]
      | _ \<Rightarrow> [str_of_json lib v])"
  by pat_completeness auto
termination
proof (relation "measure (\<lambda>(lib, v). size v)")
  show "((lib, jget v k), lib, v) \<in> measure (\<lambda>(lib, v). size v)" if "v = JObj kvs" "k \<in> set code_keys" for lib v kvs k
    using that by (auto dest: map_of_size split: option.split)
qed simp

declare scanned_texts.simps [simp del]

lemma first_some_append: "first_some f (xs @ ys) = (case first_some f xs of None \<Rightarrow> first_some f ys | Some y \<Rightarrow> Some y)"
  by (induction xs) (auto split: option.split)

lemma first_some_concat: "first_some f (concat (map g ks)) = first_some (\<lambda>k. first_some f (g k)) ks"
  by (induction ks) (auto simp: first_some_append split: option.split)

lemma extract_is_first: "extract_smsbower_code lib v = first_some six_digits (scanned_texts lib v)"
proof (induction lib v rule: extract_smsbower_code.induct)
  case (1 lib v)
  show ?case
  proof (cases v)
    case (JObj kvs)
    have "first_some (\<lambda>k. extract_smsbower_code lib (jget v k)) code_keys
        = first_some (\<lambda>k. first_some six_digits (scanned_texts lib (jget v k))) code_keys"
      by (rule first_some_cong) (use 1 JObj in auto)
    then show ?thesis
      by (subst extract_smsbower_code.simps, subst scanned_texts.simps)
        (simp add: JObj first_some_append first_some_concat split: option.split)
  qed (subst extract_smsbower_code.simps, subst scanned_texts.simps, simp split: option.split)+
qed

definition isolated_six :: "string \<Rightarrow> nat \<Rightarrow> string \<Rightarrow> bool" where
  \<comment> \<open>six digits at a position that are no part of a longer run\<close>
  "isolated_six x i c \<longleftrightarrow> length c = 6 \<and> list_all is_ascii_digit c
     \<and> (\<exists>u w. length u = i \<and> x = u @ c @ w \<and> (u = [] \<or> \<not> is_ascii_digit (last u)) \<and> (w = [] \<or> \<not> is_ascii_digit (hd w)))"

definition first_six :: "string \<Rightarrow> string \<Rightarrow> bool" where
  \<comment> \<open>the leftmost such run\<close>
  "first_six x c \<longleftrightarrow> (\<exists>i. isolated_six x i c \<and> (\<forall>k < i. \<nexists>d. isolated_six x k d))"

lemma rx_group_leftmost:
  assumes "rx_group pre grp post t = Some w"
  shows "\<exists>i a b. i \<le> length t \<and> a \<in> set (pre t i) \<and> b \<in> set (grp t a) \<and> post t b \<noteq> [] \<and> w = take (b - a) (drop a t)
    \<and> (\<forall>k < i. rx_seq [pre, grp, post] t k = [])"
proof -
  from assms obtain i a b where i: "find (\<lambda>i. rx_seq [pre, grp, post] t i \<noteq> []) [0..<Suc (length t)] = Some i"
    and ab: "find (\<lambda>(a, b). post t b \<noteq> []) (concat (map (\<lambda>a. map (\<lambda>b. (a, b)) (grp t a)) (pre t i))) = Some (a, b)"
    and w: "w = take (b - a) (drop a t)"
    by (auto simp: rx_group_def split: option.splits)
  from i obtain n where n: "n < length [0..<Suc (length t)]" "i = [0..<Suc (length t)] ! n"
    "\<forall>k < n. \<not> rx_seq [pre, grp, post] t ([0..<Suc (length t)] ! k) \<noteq> []"
    unfolding find_Some_iff by blast
  then have "i = n" "i \<le> length t" by (simp_all del: upt_Suc)
  moreover from this n(3) have "\<forall>k < i. rx_seq [pre, grp, post] t k = []" by (simp del: upt_Suc rx_seq.simps)
  moreover from find_some_mem [OF ab] have "a \<in> set (pre t i)" "b \<in> set (grp t a)" "post t b \<noteq> []" by auto
  ultimately show ?thesis using w by blast
qed

lemma isolated_matches:
  assumes "isolated_six x i c"
  shows "rx_seq [not_after_digit, rx_many is_ascii_digit 6 (Some 6), not_before_digit] x i \<noteq> [] \<and> i \<le> length x"
proof -
  from assms obtain u w where x: "length u = i" "x = u @ c @ w" "length c = 6" "list_all is_ascii_digit c"
    "u = [] \<or> \<not> is_ascii_digit (last u)" "w = [] \<or> \<not> is_ascii_digit (hd w)"
    by (auto simp: isolated_six_def)
  have pre: "not_after_digit x (length u) = [length u]"
    using x(5) by (auto simp: not_after_digit_def x(2) nth_append last_conv_nth)
  have "6 \<le> run_length is_ascii_digit x (length u)"
    using x(3,4) by (simp add: run_length_def x(2) takeWhile_append2 list_all_iff)
  then have grp: "rx_many is_ascii_digit 6 (Some 6) x (length u) = [length u + 6]" by (simp add: rx_many_def Let_def min_def)
  have post: "not_before_digit x (length u + 6) = [length u + 6]"
    using x(3,6) by (auto simp: not_before_digit_def x(2) nth_append hd_conv_nth)
  have "rx_seq [not_after_digit, rx_many is_ascii_digit 6 (Some 6), not_before_digit] x (length u) \<noteq> []"
    by (simp add: pre grp post)
  moreover have "length u \<le> length x" by (simp add: x(2))
  ultimately show ?thesis using x(1) by simp
qed

lemma six_digits_sound:
  assumes "six_digits x = Some c"
  shows "first_six x c"
proof -
  from rx_group_leftmost [OF assms [unfolded six_digits_def]] obtain i a b where ab: "a \<in> set (not_after_digit x i)"
    "b \<in> set (rx_many is_ascii_digit 6 (Some 6) x a)" "not_before_digit x b \<noteq> []" "c = take (b - a) (drop a x)"
    and left: "\<forall>k < i. rx_seq [not_after_digit, rx_many is_ascii_digit 6 (Some 6), not_before_digit] x k = []" by blast
  have ai: "a = i" using ab(1) by (auto simp: not_after_digit_def split: if_splits)
  from rx_many_text [OF ab(2)] ab(4) have c: "list_all is_ascii_digit c" "length c = 6" "b = a + 6"
    by (auto simp: list_all_iff)
  have len: "a + 6 \<le> length x" using c ab(4) by simp
  have "x = take a x @ c @ drop b x" using ab(4) c(3) by (metis add_diff_cancel_left' append_take_drop_id drop_drop add.commute)
  moreover have "take a x = [] \<or> \<not> is_ascii_digit (last (take a x))"
    using ab(1) len by (cases "a = 0") (auto simp: not_after_digit_def last_conv_nth min_def split: if_splits)
  moreover have "drop b x = [] \<or> \<not> is_ascii_digit (hd (drop b x))"
    using ab(3) by (auto simp: not_before_digit_def hd_drop_conv_nth split: if_splits)
  moreover have "length (take a x) = a" using len by simp
  ultimately have "isolated_six x a c" using c unfolding isolated_six_def by metis
  moreover have "\<forall>k < a. \<nexists>d. isolated_six x k d" using left isolated_matches unfolding ai by blast
  ultimately show ?thesis unfolding first_six_def by blast
qed

lemma six_digits_complete:
  assumes "isolated_six x i c"
  shows "six_digits x \<noteq> None"
  using isolated_matches [OF assms] rx_group_None [of not_after_digit _ not_before_digit x i] by (auto simp: six_digits_def)

lemma first_some_None_iff: "first_some f xs = None \<longleftrightarrow> (\<forall>x \<in> set xs. f x = None)"
  by (induction xs) (auto split: option.split)

lemma first_some_prefix:
  "first_some f xs = Some y \<Longrightarrow> \<exists>us x vs. xs = us @ x # vs \<and> f x = Some y \<and> (\<forall>u \<in> set us. f u = None)"
proof (induction xs)
  case (Cons a xs)
  show ?case
  proof (cases "f a")
    case None
    with Cons obtain us x vs where "xs = us @ x # vs" "f x = Some y" "\<forall>u \<in> set us. f u = None" by auto
    with None show ?thesis by (intro exI [of _ "a # us"] exI [of _ x] exI [of _ vs]) simp
  next
    case (Some b)
    with Cons.prems show ?thesis by (intro exI [of _ "[]"] exI [of _ a] exI [of _ xs]) simp
  qed
qed simp

text \<open>
  C8. The code read from an answer of SMSBower is the leftmost run of exactly six digits in the first of its
  texts that has one: the texts are the entries code, otp, verification_code, sms, text and message, in that
  order and at any depth, and the whole answer as JSON last. No code is read exactly when no text has such a run.
\<close>
theorem smsbower_code_is_first_isolated_run:
  "case extract_smsbower_code lib v of
     None \<Rightarrow> \<forall>x \<in> set (scanned_texts lib v). \<nexists>i c. isolated_six x i c
   | Some c \<Rightarrow> \<exists>us x vs. scanned_texts lib v = us @ x # vs \<and> first_six x c \<and> (\<forall>u \<in> set us. \<nexists>i d. isolated_six u i d)"
proof (cases "extract_smsbower_code lib v")
  case None
  then have "\<forall>x \<in> set (scanned_texts lib v). six_digits x = None" by (simp add: extract_is_first first_some_None_iff)
  with None six_digits_complete show ?thesis by fastforce
next
  case (Some c)
  then obtain us x vs where x: "scanned_texts lib v = us @ x # vs" "six_digits x = Some c" "\<forall>u \<in> set us. six_digits u = None"
    using first_some_prefix [of six_digits "scanned_texts lib v" c] by (auto simp: extract_is_first)
  with six_digits_sound [OF x(2)] six_digits_complete show ?thesis
    by (simp add: Some) (metis option.distinct(1))
qed


subsection \<open>Witnesses\<close>

definition flat_dumps :: "json \<Rightarrow> string" where
  \<comment> \<open>\<open>json.dumps\<close> of an object of plain strings\<close>
  "flat_dumps v = (case v of
     JObj kvs \<Rightarrow> ''{'' @ join_with '', '' (map (\<lambda>(k, x). case x of
         JStr y \<Rightarrow> [CHR 0x22] @ k @ [CHR 0x22] @ '': '' @ [CHR 0x22] @ y @ [CHR 0x22] | _ \<Rightarrow> []) kvs) @ ''}''
   | _ \<Rightarrow> [])"

definition flat_lib :: sms_lib where
  "flat_lib = \<lparr>sl_dumps = flat_dumps, sl_str = (\<lambda>_. []), sl_float = (\<lambda>_. None)\<rparr>"

definition activation_answer :: json where
  "activation_answer = JObj [(''mailId'', JStr ''123456''), (''status'', JStr ''ok''), (''mail'', JStr ''a@gmail.com'')]"

text \<open>An answer without a code whose mail id has six digits: the id is read as the code.\<close>

lemma mail_id_taken_for_code: "extract_smsbower_code flat_lib activation_answer = Some ''123456''"
  by code_simp

theorem smsbower_code_is_first_isolated_run_witness:
  "extract_smsbower_code flat_lib activation_answer = Some ''123456''
   \<and> (\<exists>x \<in> set (scanned_texts flat_lib activation_answer). first_six x ''123456'')"
  using smsbower_code_is_first_isolated_run [of flat_lib activation_answer] mail_id_taken_for_code by auto

definition sample_replenish :: replenish_env where
  "sample_replenish = \<lparr>rn_now = int, rn_key_id = ''k'', rn_operation_id = ''op'', rn_resource_id = ''res'',
     rn_runtime = (\<lambda>_. \<lparr>sr_enabled = True, sr_instance_id = ''default'', sr_api_base = smsbower_default_base_url,
        sr_api_key = Some ''key'', sr_service = ''openai'', sr_domain = ''gmail.com'', sr_max_price = None,
        sr_request_timeout_seconds = 30, sr_has_api_key = True, sr_from_database = False\<rparr>),
     rn_lib = flat_lib, rn_send = (\<lambda>_ _. Inr activation_answer), rn_encrypt = (\<lambda>x. x), rn_others = (\<lambda>s. s)\<rparr>"

theorem replenish_is_accounted_for_witness:
  "\<exists>out t o1 o2. replenish_one sample_replenish ''adm'' empty_db = (Inr out, t) \<and> po_status o1 = OpRunning
     \<and> settle_purchase sample_replenish (rn_runtime sample_replenish empty_db) ''adm'' ''op'' (Inr activation_answer) (empty_db\<lparr>operations := [o1]\<rparr>)
         = (Inr out, t)
     \<and> operation_row ''op'' t = Some o2 \<and> po_status o2 = OpSucceeded"
proof -
  have r: "map_prod (map_sum id ro_status) (\<lambda>_. ()) (replenish_one sample_replenish ''adm'' empty_db) = (Inr OpSucceeded, ())"
    by code_simp
  have "operation_by_key (oq_idempotency_key (replenish_request sample_replenish (rn_runtime sample_replenish empty_db))) empty_db = None"
    by (simp add: operation_by_key_def empty_db_def row_by_def)
  note fresh = this
  have e: "rn_operation_id sample_replenish = ''op''" "rn_send sample_replenish k q = Inr activation_answer"
      "rn_others sample_replenish u = u" for k q u
    by (simp_all add: sample_replenish_def)
  note facts = replenish_is_accounted_for [OF fresh, where actor = "''adm''", unfolded e, OF refl]
  have none: "operations empty_db = []" by (simp add: empty_db_def)
  obtain out where out: "fst (replenish_one sample_replenish ''adm'' empty_db) = Inr out" "ro_status out = OpSucceeded"
    using r by (cases "replenish_one sample_replenish ''adm'' empty_db") (auto simp: map_sum_def split: sum.splits)
  show ?thesis using facts unfolding none append_Nil
  proof (elim disjE exE conjE)
    fix err assume "replenish_one sample_replenish ''adm'' empty_db = (Inl err, empty_db)"
    with out(1) show ?thesis by simp
  next
    fix u o1 out' t o2
    assume "u = empty_db\<lparr>operations := [o1]\<rparr>" "po_status o1 = OpRunning"
      and run: "replenish_one sample_replenish ''adm'' empty_db = (Inr out', t)"
      and "settle_purchase sample_replenish (rn_runtime sample_replenish empty_db) ''adm'' ''op'' (Inr activation_answer) u = (Inr out', t)"
      and "operation_row ''op'' t = Some o2" "po_status o2 = ro_status out'"
    moreover have "out' = out" using out(1) run by simp
    ultimately show ?thesis using out(2) by (intro exI [of _ out'] exI [of _ t] exI [of _ o1] exI [of _ o2]) simp
  qed
qed

end
