(* ===== verification/ProviderSettings.thy ===== *)
theory ProviderSettings
  imports SmsBower "HOL-Library.AList"
begin

text \<open>
  The provider instance settings (\<open>provider_settings_service.py\<close>): the rows an administrator writes over
  the environment's defaults, the runtime configuration the SMSBower provider and the on-demand providers
  read from them, the views without secrets, and the two update requests of \<open>main.py\<close>. The cipher,
  the JSON text and \<open>float\<close> of a text are parameters; a Python \<open>float\<close> is a real number. The row is
  changed in place, as the session's object is: an update is an operation on the row.
\<close>

subsection \<open>Environment\<close>

record env_settings =
  cfg_smsbower_enabled :: bool
  cfg_smsbower_api_base :: string
  cfg_smsbower_api_key :: "string option"
  cfg_smsbower_service :: string
  cfg_smsbower_domain :: string
  cfg_smsbower_max_price :: "real option"
  cfg_smsbower_instance_id :: string
  cfg_smsbower_request_timeout_seconds :: real

record settings_cipher =
  sc_encrypt :: "string \<Rightarrow> string"
  sc_decrypt :: "string \<Rightarrow> string option"   \<comment> \<open>\<open>None\<close>: it raises\<close>

record settings_env =
  stg_cfg :: env_settings
  stg_cipher :: "settings_cipher option"
  stg_now :: time
  stg_str :: "json \<Rightarrow> string"                \<comment> \<open>\<open>str(v)\<close> of a value that is no string\<close>
  stg_parse_float :: "string \<Rightarrow> real option"  \<comment> \<open>\<open>float(text)\<close>\<close>
  stg_dumps :: "json \<Rightarrow> string"              \<comment> \<open>\<open>json.dumps(v, ensure_ascii=False)\<close>\<close>
  stg_loads :: "string \<Rightarrow> json option"        \<comment> \<open>\<open>json.loads\<close>\<close>

datatype settings_error =
    SettingsProviderNotFound   \<comment> \<open>404 \<open>PROVIDER_NOT_FOUND\<close>\<close>
  | SettingsNoCipher           \<comment> \<open>\<open>RuntimeError\<close>, 503 \<open>CREDENTIAL_ENCRYPTION_NOT_CONFIGURED\<close>\<close>
  | SettingsPython             \<comment> \<open>a \<open>TypeError\<close>, \<open>ValueError\<close> or \<open>AttributeError\<close> nothing catches: 500\<close>

datatype settings_source = FromDatabase | FromEnvironment | FromDefaults | FromImport

definition str_value :: "settings_env \<Rightarrow> json \<Rightarrow> string" where
  "str_value env v = (case v of JStr x \<Rightarrow> x | _ \<Rightarrow> stg_str env v)"

definition text_or_blank :: "settings_env \<Rightarrow> json \<Rightarrow> string" where
  \<comment> \<open>\<open>str(v or "")\<close>\<close>
  "text_or_blank env v = (if truthy v then str_value env v else [])"

definition float_value :: "settings_env \<Rightarrow> json \<Rightarrow> real option" where
  "float_value env v =
     (case v of JReal x \<Rightarrow> Some x | JInt n \<Rightarrow> Some (of_int n) | JBool b \<Rightarrow> Some (if b then 1 else 0)
      | JStr x \<Rightarrow> stg_parse_float env x | _ \<Rightarrow> None)"

definition decrypted_text :: "settings_env \<Rightarrow> string option \<Rightarrow> string option" where
  \<comment> \<open>a ciphertext that is present and readable with the configured cipher\<close>
  "decrypted_text env v =
     (case (v, stg_cipher env) of (Some x, Some c) \<Rightarrow> if x = [] then None else sc_decrypt c x | _ \<Rightarrow> None)"

definition nonempty :: "string \<Rightarrow> string option" where
  \<comment> \<open>\<open>s or None\<close>\<close>
  "nonempty x = (if x = [] then None else Some x)"

subsection \<open>Rows\<close>

definition instance_key :: "instance_row \<Rightarrow> string \<times> string" where
  "instance_key r = (ir_provider_type r, ir_instance_id r)"

definition instance_row_of :: "string \<Rightarrow> string \<Rightarrow> db \<Rightarrow> instance_row option" where
  "instance_row_of t i s = row_by instance_key (t, i) (instance_settings s)"

definition write_instance :: "instance_row \<Rightarrow> db \<Rightarrow> db" where
  "write_instance r s =
     s\<lparr>instance_settings := (case row_by instance_key (instance_key r) (instance_settings s) of
          None \<Rightarrow> instance_settings s @ [r] | Some _ \<Rightarrow> put_row instance_key r (instance_settings s))\<rparr>"

type_synonym row_update = "(instance_row, settings_error, unit) action"

definition on_instance :: "instance_row \<Rightarrow> row_update \<Rightarrow> (db, settings_error, unit) action" where
  \<comment> \<open>\<open>session.get\<close>, or \<open>session.add\<close> of a fresh row, and the changes of the row\<close>
  "on_instance fresh upd =
     (\<lambda>s. let r0 = (case instance_row_of (ir_provider_type fresh) (ir_instance_id fresh) s of None \<Rightarrow> fresh | Some r \<Rightarrow> r)
          in case upd r0 of (res, r) \<Rightarrow> (res, write_instance r s))"

definition when_some :: "'a option \<Rightarrow> ('a \<Rightarrow> row_update) \<Rightarrow> row_update" where
  "when_some v f = (case v of None \<Rightarrow> ret () | Some x \<Rightarrow> f x)"

definition need_cipher :: "settings_env \<Rightarrow> (settings_cipher \<Rightarrow> row_update) \<Rightarrow> row_update" where
  "need_cipher env f = (case stg_cipher env of None \<Rightarrow> throw SettingsNoCipher | Some c \<Rightarrow> f c)"

subsection \<open>SMSBower\<close>

definition env_instance_id :: "settings_env \<Rightarrow> string" where
  "env_instance_id env = strip (or_text (Some (cfg_smsbower_instance_id (stg_cfg env))) ''default'')"

definition env_api_key :: "settings_env \<Rightarrow> string option" where
  "env_api_key env = nonempty (strip (or_text (cfg_smsbower_api_key (stg_cfg env)) []))"

definition smsbower_row :: "settings_env \<Rightarrow> db \<Rightarrow> instance_row option" where
  "smsbower_row env s = instance_row_of ''smsbower_gmail'' (env_instance_id env) s"

definition environment_runtime :: "settings_env \<Rightarrow> sms_runtime" where
  "environment_runtime env =
     \<lparr>sr_enabled = cfg_smsbower_enabled (stg_cfg env), sr_instance_id = env_instance_id env,
      sr_api_base = normalize_smsbower_base_url (Some (cfg_smsbower_api_base (stg_cfg env))),
      sr_api_key = env_api_key env,
      sr_service = strip (or_text (Some (cfg_smsbower_service (stg_cfg env))) ''openai''),
      sr_domain = strip (or_text (Some (cfg_smsbower_domain (stg_cfg env))) ''gmail.com''),
      sr_max_price = cfg_smsbower_max_price (stg_cfg env),
      sr_request_timeout_seconds = cfg_smsbower_request_timeout_seconds (stg_cfg env),
      sr_has_api_key = env_api_key env \<noteq> None, sr_from_database = False\<rparr>"

definition row_api_key :: "settings_env \<Rightarrow> instance_row \<Rightarrow> string option" where
  \<comment> \<open>the row's key, or the environment's when there is none or it cannot be read\<close>
  "row_api_key env r =
     (case decrypted_text env (ir_api_key_ciphertext r) of
        None \<Rightarrow> env_api_key env
      | Some k \<Rightarrow> if strip k = [] then env_api_key env else Some (strip k))"

definition row_runtime :: "settings_env \<Rightarrow> instance_row \<Rightarrow> sms_runtime" where
  "row_runtime env r =
     (let cfg = stg_cfg env; key = row_api_key env r in
      \<lparr>sr_enabled = ir_enabled r,
       sr_instance_id = strip (or_text (Some (ir_instance_id r)) (env_instance_id env)),
       sr_api_base = normalize_smsbower_base_url (Some (or_text (ir_api_base r)
           (or_text (Some (cfg_smsbower_api_base cfg)) smsbower_default_base_url))),
       sr_api_key = key,
       sr_service = strip (or_text (ir_service_code r) (or_text (Some (cfg_smsbower_service cfg)) ''openai'')),
       sr_domain = strip (or_text (ir_domain r) (or_text (Some (cfg_smsbower_domain cfg)) ''gmail.com'')),
       sr_max_price = (case ir_max_price r of None \<Rightarrow> cfg_smsbower_max_price cfg | Some x \<Rightarrow> Some x),
       sr_request_timeout_seconds = (if ir_request_timeout_seconds r = 0 then cfg_smsbower_request_timeout_seconds cfg
                                     else ir_request_timeout_seconds r),
       sr_has_api_key = key \<noteq> None, sr_from_database = True\<rparr>)"

definition resolve_smsbower_runtime :: "settings_env \<Rightarrow> db \<Rightarrow> sms_runtime" where
  "resolve_smsbower_runtime env s =
     (case smsbower_row env s of None \<Rightarrow> environment_runtime env | Some r \<Rightarrow> row_runtime env r)"

record smsbower_view =
  bv_runtime :: sms_runtime   \<comment> \<open>its fields, without the key\<close>
  bv_env_enabled_default :: bool
  bv_updated_at :: "time option"

definition get_smsbower_admin_view :: "settings_env \<Rightarrow> db \<Rightarrow> smsbower_view" where
  "get_smsbower_admin_view env s =
     \<lparr>bv_runtime = (resolve_smsbower_runtime env s)\<lparr>sr_api_key := None\<rparr>,
      bv_env_enabled_default = cfg_smsbower_enabled (stg_cfg env),
      bv_updated_at = map_option ir_updated_at (smsbower_row env s)\<rparr>"

record smsbower_update =
  bu_enabled :: "bool option"
  bu_api_base :: "string option"
  bu_service :: "string option"
  bu_domain :: "string option"
  bu_max_price :: "real option"
  bu_clear_max_price :: bool
  bu_request_timeout_seconds :: "real option"
  bu_api_key :: "string option"
  bu_clear_api_key :: bool

definition seeded_row :: "settings_env \<Rightarrow> db \<Rightarrow> instance_row" where
  \<comment> \<open>a new row starts from the environment\<close>
  "seeded_row env s =
     (let rt = resolve_smsbower_runtime env s in
      \<lparr>ir_provider_type = ''smsbower_gmail'', ir_instance_id = env_instance_id env, ir_enabled = sr_enabled rt,
       ir_api_base = Some (sr_api_base rt),
       ir_api_key_ciphertext = (case (sr_api_key rt, stg_cipher env) of
           (Some k, Some c) \<Rightarrow> if k = [] then None else Some (sc_encrypt c k) | _ \<Rightarrow> None),
       ir_secrets_ciphertext = None, ir_service_code = Some (sr_service rt), ir_domain = Some (sr_domain rt),
       ir_max_price = sr_max_price rt, ir_request_timeout_seconds = sr_request_timeout_seconds rt,
       ir_config_json = JNull, ir_created_at = stg_now env, ir_updated_at = stg_now env\<rparr>)"

definition set_api_key :: "settings_env \<Rightarrow> smsbower_update \<Rightarrow> row_update" where
  "set_api_key env u =
     (if bu_clear_api_key u then modify (ir_api_key_ciphertext_update (\<lambda>_. None))
      else when_some (bu_api_key u) (\<lambda>k.
        if strip k = [] then modify (ir_api_key_ciphertext_update (\<lambda>_. None))
        else need_cipher env (\<lambda>c. modify (ir_api_key_ciphertext_update (\<lambda>_. Some (sc_encrypt c (strip k)))))))"

definition update_smsbower_row :: "settings_env \<Rightarrow> smsbower_update \<Rightarrow> row_update" where
  "update_smsbower_row env u =
     andthen (when_some (bu_enabled u) (\<lambda>b. modify (ir_enabled_update (\<lambda>_. b))))
    (andthen (when_some (bu_api_base u) (\<lambda>x. modify (ir_api_base_update (\<lambda>_. Some
        (if strip x = [] then smsbower_default_base_url else normalize_smsbower_base_url (Some (strip x)))))))
    (andthen (when_some (bu_service u) (\<lambda>x. modify (ir_service_code_update (\<lambda>_. Some (or_text (Some (strip x)) ''openai'')))))
    (andthen (when_some (bu_domain u) (\<lambda>x. modify (ir_domain_update (\<lambda>_. Some (or_text (Some (strip x)) ''gmail.com'')))))
    (andthen (if bu_clear_max_price u then modify (ir_max_price_update (\<lambda>_. None))
              else when_some (bu_max_price u) (\<lambda>x. modify (ir_max_price_update (\<lambda>_. Some x))))
    (andthen (when_some (bu_request_timeout_seconds u) (\<lambda>x. modify (ir_request_timeout_seconds_update (\<lambda>_. x))))
    (andthen (set_api_key env u)
       (modify (ir_updated_at_update (\<lambda>_. stg_now env)))))))))"

definition update_smsbower :: "settings_env \<Rightarrow> smsbower_update \<Rightarrow> (db, settings_error, smsbower_view) action" where
  "update_smsbower env u =
     (\<lambda>s. (andthen (on_instance (seeded_row env s) (update_smsbower_row env u)) (asks (get_smsbower_admin_view env))) s)"


subsection \<open>On-demand providers: reading\<close>

definition bag_of :: "settings_env \<Rightarrow> instance_row \<Rightarrow> (string \<times> json) list" where
  \<comment> \<open>the secondary secrets; empty when they cannot be decrypted or parsed\<close>
  "bag_of env r =
     (case decrypted_text env (ir_secrets_ciphertext r) of
        None \<Rightarrow> []
      | Some x \<Rightarrow> (case stg_loads env x of Some (JObj kvs) \<Rightarrow> kvs | _ \<Rightarrow> []))"

fun merge_bag :: "settings_env \<Rightarrow> (string \<times> json) list \<Rightarrow> (string \<times> string) list \<Rightarrow> (string \<times> string) list" where
  "merge_bag env [] m = m"
| "merge_bag env ((k, v) # kvs) m =
     (let x = strip (text_or_blank env v) in merge_bag env kvs (if x = [] then m else AList.update k x m))"

definition decrypt_secrets :: "settings_env \<Rightarrow> provider_definition \<Rightarrow> instance_row option \<Rightarrow> (string \<times> string) list" where
  "decrypt_secrets env d row =
     (case row of
        None \<Rightarrow> []
      | Some r \<Rightarrow> merge_bag env (bag_of env r)
          (case decrypted_text env (ir_api_key_ciphertext r) of None \<Rightarrow> [] | Some x \<Rightarrow> [(pd_primary_secret_key d, x)]))"

record instance_fields =
  vf_values :: "(string \<times> json) list"
  vf_secret_flags :: "(string \<times> bool) list"
  vf_source :: settings_source
  vf_enabled :: bool
  vf_timeout :: real

definition default_values :: "provider_definition \<Rightarrow> (string \<times> json) list" where
  "default_values d =
     fold (\<lambda>f vs. case fs_default f of None \<Rightarrow> vs | Some v \<Rightarrow> if fs_secret f then vs else AList.update (fs_key f) v vs) (pd_fields d) []"

definition config_of :: "instance_row \<Rightarrow> (string \<times> json) list" where
  "config_of r = (case ir_config_json r of JObj kvs \<Rightarrow> kvs | _ \<Rightarrow> [])"

definition row_timeout :: "instance_row \<Rightarrow> real" where
  "row_timeout r = (if ir_request_timeout_seconds r = 0 then 30 else ir_request_timeout_seconds r)"

definition row_values :: "provider_definition \<Rightarrow> instance_row \<Rightarrow> (string \<times> json) list" where
  "row_values d r =
     (let configured = fold (\<lambda>f vs. if fs_secret f then vs else
              (case map_of (config_of r) (fs_key f) of None \<Rightarrow> vs | Some v \<Rightarrow> AList.update (fs_key f) v vs))
            (pd_fields d) (default_values d);
          based = (let x = or_text (ir_api_base r) [] in if x = [] then configured else AList.update ''api_base'' (JStr x) configured);
          placed = (let x = or_text (ir_domain r) [] in
            if x = [] \<or> map_of based ''domain'' \<noteq> None then based else AList.update ''domain'' (JStr x) based)
      in AList.update ''request_timeout_seconds'' (JReal (row_timeout r)) placed)"

definition secret_flag :: "settings_env \<Rightarrow> provider_definition \<Rightarrow> instance_row \<Rightarrow> string \<Rightarrow> bool" where
  "secret_flag env d r k \<longleftrightarrow>
     (k = pd_primary_secret_key d \<and> or_text (ir_api_key_ciphertext r) [] \<noteq> [])
     \<or> list_ex (\<lambda>(k', v). k' = k \<and> strip (text_or_blank env v) \<noteq> []) (bag_of env r)"

definition read_instance_fields :: "settings_env \<Rightarrow> provider_definition \<Rightarrow> instance_row option \<Rightarrow> instance_fields" where
  "read_instance_fields env d row =
     (let flags = (\<lambda>flag. map (\<lambda>f. (fs_key f, flag (fs_key f))) (filter fs_secret (pd_fields d))) in
      case row of
        None \<Rightarrow> \<lparr>vf_values = default_values d, vf_secret_flags = flags (\<lambda>_. False), vf_source = FromDefaults,
                 vf_enabled = False, vf_timeout = 30\<rparr>
      | Some r \<Rightarrow> \<lparr>vf_values = row_values d r, vf_secret_flags = flags (secret_flag env d r), vf_source = FromDatabase,
                 vf_enabled = ir_enabled r, vf_timeout = row_timeout r\<rparr>)"

definition effective_instance :: "string option \<Rightarrow> string" where
  "effective_instance i = strip (or_text i ''default'')"

definition instance_runtime :: "settings_env \<Rightarrow> provider_definition \<Rightarrow> string \<Rightarrow> db \<Rightarrow> od_runtime" where
  "instance_runtime env d i s =
     (let row = instance_row_of (pd_provider_type d) i s;
          vf = read_instance_fields env d row;
          secrets = decrypt_secrets env d row; p = pd_primary_secret_key d in
      \<lparr>rt_provider_type = pd_provider_type d, rt_instance_id = i, rt_enabled = vf_enabled vf, rt_values = vf_values vf,
       rt_secrets = (if p \<noteq> [] \<and> map_of secrets p = None
          then (case Option.bind row (\<lambda>r. decrypted_text env (ir_api_key_ciphertext r)) of
                  None \<Rightarrow> secrets | Some x \<Rightarrow> AList.update p x secrets)
          else secrets),
       rt_timeout_seconds = vf_timeout vf\<rparr>)"

definition resolve_on_demand_runtime :: "settings_env \<Rightarrow> string \<Rightarrow> string option \<Rightarrow> db \<Rightarrow> settings_error + od_runtime" where
  "resolve_on_demand_runtime env t i s =
     (case get_provider_definition t of
        Inl _ \<Rightarrow> Inl SettingsProviderNotFound
      | Inr d \<Rightarrow> Inr (instance_runtime env d (effective_instance i) s))"

record provider_view =
  vw_provider_type :: string
  vw_instance_id :: string
  vw_enabled :: bool
  vw_source :: settings_source
  vw_secret_flags :: "(string \<times> bool) list"
  vw_values :: "(string \<times> json) list"
  vw_timeout :: "real option"
  vw_updated_at :: "time option"
  vw_fields :: "field_schema list"

definition has_any_secret :: "provider_view \<Rightarrow> bool" where
  "has_any_secret v = list_ex snd (vw_secret_flags v)"

definition instance_view :: "settings_env \<Rightarrow> provider_definition \<Rightarrow> string \<Rightarrow> db \<Rightarrow> provider_view" where
  "instance_view env d i s =
     (let row = instance_row_of (pd_provider_type d) i s; vf = read_instance_fields env d row in
      \<lparr>vw_provider_type = pd_provider_type d, vw_instance_id = i, vw_enabled = vf_enabled vf, vw_source = vf_source vf,
       vw_secret_flags = vf_secret_flags vf, vw_values = vf_values vf, vw_timeout = Some (vf_timeout vf),
       vw_updated_at = map_option ir_updated_at row, vw_fields = pd_fields d\<rparr>)"

definition smsbower_provider_view :: "settings_env \<Rightarrow> db \<Rightarrow> provider_view" where
  "smsbower_provider_view env s =
     (let v = get_smsbower_admin_view env s; rt = bv_runtime v in
      \<lparr>vw_provider_type = ''smsbower_gmail'', vw_instance_id = sr_instance_id rt, vw_enabled = sr_enabled rt,
       vw_source = (if sr_from_database rt then FromDatabase else FromEnvironment),
       vw_secret_flags = [(''api_key'', sr_has_api_key rt)],
       vw_values = [(''api_base'', JStr (sr_api_base rt)), (''service'', JStr (sr_service rt)), (''domain'', JStr (sr_domain rt)),
         (''max_price'', case sr_max_price rt of None \<Rightarrow> JNull | Some x \<Rightarrow> JReal x),
         (''request_timeout_seconds'', JReal (sr_request_timeout_seconds rt))],
       vw_timeout = None, vw_updated_at = bv_updated_at v, vw_fields = []\<rparr>)"

definition get_provider_admin_view :: "settings_env \<Rightarrow> string \<Rightarrow> string option \<Rightarrow> db \<Rightarrow> settings_error + provider_view" where
  "get_provider_admin_view env t i s =
     (if t = ''smsbower_gmail'' then Inr (smsbower_provider_view env s)
      else case get_provider_definition t of
          Inl _ \<Rightarrow> Inl SettingsProviderNotFound
        | Inr d \<Rightarrow> Inr (instance_view env d (effective_instance i) s))"


subsection \<open>On-demand providers: writing\<close>

definition normalize_field_value :: "settings_env \<Rightarrow> field_type \<Rightarrow> json \<Rightarrow> settings_error + json" where
  "normalize_field_value env ft v =
     (case ft of
        FieldList \<Rightarrow> Inr (JArr (map JStr (case v of
            JArr vs \<Rightarrow> nonblank (map (str_value env) vs)
          | _ \<Rightarrow> nonblank (split_on (\<lambda>c. c = newline \<or> c = CHR '','') [] (text_or_blank env v)))))
      | FieldBool \<Rightarrow> Inr (JBool (case v of JBool b \<Rightarrow> b
            | _ \<Rightarrow> strip_lower (str_value env v) \<in> set [''1'', ''true'', ''yes'', ''on'']))
      | FieldNumber \<Rightarrow>
          (if v = JNull \<or> v = JStr [] then Inr JNull
           else case float_value env v of None \<Rightarrow> Inl SettingsPython | Some x \<Rightarrow> Inr (JReal x))
      | _ \<Rightarrow> Inr (if v = JNull then JNull else JStr (strip (str_value env v))))"

fun put_fields :: "settings_env \<Rightarrow> (string \<times> json) list \<Rightarrow> field_schema list \<Rightarrow> (string \<times> json) list
    \<Rightarrow> settings_error + (string \<times> json) list" where
  "put_fields env vs [] config = Inr config"
| "put_fields env vs (f # fs) config =
     (case (fs_secret f, map_of vs (fs_key f)) of
        (False, Some v) \<Rightarrow> (case normalize_field_value env (fs_field_type f) v of
            Inl e \<Rightarrow> Inl e
          | Inr w \<Rightarrow> put_fields env vs fs (AList.update (fs_key f) w config))
      | _ \<Rightarrow> put_fields env vs fs config)"

definition has_domain_list :: "provider_definition \<Rightarrow> bool" where
  "has_domain_list d = list_ex (\<lambda>f. fs_key f = ''domain'' \<and> fs_field_type f = FieldList) (pd_fields d)"

definition write_columns :: "settings_env \<Rightarrow> provider_definition \<Rightarrow> (string \<times> json) list \<Rightarrow> row_update" where
  "write_columns env d vs =
     (let given_value = (\<lambda>k. case map_of vs k of None \<Rightarrow> None | Some v \<Rightarrow> if v = JNull then None else Some v) in
      andthen (when_some (given_value ''request_timeout_seconds'') (\<lambda>v. case float_value env v of
          None \<Rightarrow> throw SettingsPython | Some x \<Rightarrow> modify (ir_request_timeout_seconds_update (\<lambda>_. x))))
     (andthen (when_some (given_value ''api_base'') (\<lambda>v. modify (ir_api_base_update (\<lambda>_. nonempty (strip (str_value env v))))))
        (when_some (map_of vs ''domain'') (\<lambda>v. if has_domain_list d then ret ()
           else modify (ir_domain_update (\<lambda>_. nonempty (strip (text_or_blank env v))))))))"

definition write_values :: "settings_env \<Rightarrow> provider_definition \<Rightarrow> (string \<times> json) list \<Rightarrow> row_update" where
  "write_values env d vs =
     bnd (\<lambda>r. (put_fields env vs (pd_fields d) (config_of r), r)) (\<lambda>config.
     andthen (write_columns env d vs) (modify (ir_config_json_update (\<lambda>_. JObj config))))"

type_synonym secret_state = "(string \<times> string) list \<times> instance_row"

definition clear_secret :: "string \<Rightarrow> string \<Rightarrow> secret_state \<Rightarrow> secret_state" where
  "clear_secret p k = (\<lambda>(m, r). (AList.delete k m, if k = p then r\<lparr>ir_api_key_ciphertext := None\<rparr> else r))"

definition put_secret :: "settings_cipher \<Rightarrow> string \<Rightarrow> string \<times> string \<Rightarrow> secret_state \<Rightarrow> secret_state" where
  "put_secret c p = (\<lambda>(k, plaintext) (m, r). let x = strip plaintext in
     if x = [] then clear_secret p k (m, r)
     else (AList.update k x m, if k = p then r\<lparr>ir_api_key_ciphertext := Some (sc_encrypt c x)\<rparr> else r))"

definition secret_bag :: "(string \<times> string) list \<Rightarrow> json" where
  "secret_bag m = JObj (map (\<lambda>(k, x). (k, JStr x)) m)"

definition store_bag :: "settings_env \<Rightarrow> string \<Rightarrow> (string \<times> string) list \<Rightarrow> row_update" where
  \<comment> \<open>the bag of every secret but the primary one, or none\<close>
  "store_bag env p m =
     (let secondary = filter (\<lambda>(k, _). k \<noteq> p) m in
      if secondary = [] then modify (ir_secrets_ciphertext_update (\<lambda>_. None))
      else need_cipher env (\<lambda>c. modify (ir_secrets_ciphertext_update (\<lambda>_. Some (sc_encrypt c (stg_dumps env (secret_bag secondary)))))))"

definition write_secrets :: "settings_env \<Rightarrow> provider_definition \<Rightarrow> (string \<times> string) list \<Rightarrow> string list \<Rightarrow> row_update" where
  "write_secrets env d secrets clears =
     (\<lambda>r0. let p = pd_primary_secret_key d; (m, r) = fold (clear_secret p) clears (decrypt_secrets env d (Some r0), r0) in
        if secrets = [] then store_bag env p m r
        else case stg_cipher env of
            None \<Rightarrow> (Inl SettingsNoCipher, r)
          | Some c \<Rightarrow> (let (m', r') = fold (put_secret c p) secrets (m, r) in store_bag env p m' r'))"

record instance_update =
  iu_enabled :: "bool option"
  iu_values :: "(string \<times> json) list"
  iu_secrets :: "(string \<times> string) list"
  iu_clear_secrets :: "string list"

definition fresh_instance :: "settings_env \<Rightarrow> string \<Rightarrow> string \<Rightarrow> instance_row" where
  "fresh_instance env t i =
     \<lparr>ir_provider_type = t, ir_instance_id = i, ir_enabled = False, ir_api_base = None, ir_api_key_ciphertext = None,
      ir_secrets_ciphertext = None, ir_service_code = None, ir_domain = None, ir_max_price = None,
      ir_request_timeout_seconds = 30, ir_config_json = JObj [], ir_created_at = stg_now env, ir_updated_at = stg_now env\<rparr>"

definition update_instance_row :: "settings_env \<Rightarrow> provider_definition \<Rightarrow> instance_update \<Rightarrow> row_update" where
  "update_instance_row env d u =
     andthen (when_some (iu_enabled u) (\<lambda>b. modify (ir_enabled_update (\<lambda>_. b))))
    (andthen (write_values env d (iu_values u))
    (andthen (write_secrets env d (iu_secrets u) (iu_clear_secrets u))
       (modify (ir_updated_at_update (\<lambda>_. stg_now env)))))"

definition text_argument :: "(string \<times> json) list \<Rightarrow> string \<Rightarrow> settings_error + string option" where
  \<comment> \<open>\<open>payload.get(key)\<close>, on which \<open>strip\<close> is called\<close>
  "text_argument vs k =
     (case map_of vs k of None \<Rightarrow> Inr None | Some JNull \<Rightarrow> Inr None | Some (JStr x) \<Rightarrow> Inr (Some x) | Some _ \<Rightarrow> Inl SettingsPython)"

definition number_argument :: "settings_env \<Rightarrow> (string \<times> json) list \<Rightarrow> string \<Rightarrow> settings_error + real option" where
  "number_argument env vs k =
     (case map_of vs k of
        None \<Rightarrow> Inr None
      | Some v \<Rightarrow> if v = JNull then Inr None else (case float_value env v of None \<Rightarrow> Inl SettingsPython | Some x \<Rightarrow> Inr (Some x)))"

definition smsbower_update_of :: "settings_env \<Rightarrow> instance_update \<Rightarrow> settings_error + smsbower_update" where
  "smsbower_update_of env u =
     (let vs = iu_values u;
          clear_price = (case map_of vs ''clear_max_price'' of None \<Rightarrow> False | Some v \<Rightarrow> truthy v) in
      case (text_argument vs ''api_base'', text_argument vs ''service'', text_argument vs ''domain'',
            if clear_price then Inr None else number_argument env vs ''max_price'', number_argument env vs ''request_timeout_seconds'') of
        (Inr base, Inr service, Inr domain, Inr price, Inr timeout) \<Rightarrow>
          Inr \<lparr>bu_enabled = iu_enabled u, bu_api_base = base, bu_service = service, bu_domain = domain, bu_max_price = price,
               bu_clear_max_price = clear_price, bu_request_timeout_seconds = timeout,
               bu_api_key = map_of (iu_secrets u) ''api_key'',
               bu_clear_api_key = ''api_key'' \<in> set (iu_clear_secrets u)\<rparr>
      | _ \<Rightarrow> Inl SettingsPython)"

definition of_sum :: "'e + 'a \<Rightarrow> ('s, 'e, 'a) action" where
  "of_sum x = (case x of Inl e \<Rightarrow> throw e | Inr v \<Rightarrow> ret v)"

definition update_provider_instance ::
    "settings_env \<Rightarrow> string \<Rightarrow> string option \<Rightarrow> instance_update \<Rightarrow> (db, settings_error, provider_view) action" where
  "update_provider_instance env t i u =
     (if t = ''smsbower_gmail'' then
        bnd (of_sum (smsbower_update_of env u)) (\<lambda>b.
        andthen (update_smsbower env b) (asks (smsbower_provider_view env)))
      else case get_provider_definition t of
          Inl _ \<Rightarrow> throw SettingsProviderNotFound
        | Inr d \<Rightarrow>
            andthen (on_instance (fresh_instance env t (effective_instance i)) (update_instance_row env d u))
              (asks (instance_view env d (effective_instance i))))"

subsection \<open>The catalog of the administrator and the requests\<close>

record provider_summary =
  ps_definition :: provider_definition
  ps_configurable_in_ui :: bool
  ps_enabled :: bool
  ps_has_api_key :: bool
  ps_instance_id :: string
  ps_source :: settings_source
  ps_fields :: "field_schema list"

definition provider_summary_of :: "settings_env \<Rightarrow> db \<Rightarrow> provider_definition \<Rightarrow> provider_summary" where
  "provider_summary_of env s d =
     (if pd_provider_type d = ''microsoft'' then
        \<lparr>ps_definition = d, ps_configurable_in_ui = False, ps_enabled = True, ps_has_api_key = False,
         ps_instance_id = ''default'', ps_source = FromImport, ps_fields = []\<rparr>
      else let v = (if pd_provider_type d = ''smsbower_gmail'' then smsbower_provider_view env s
                    else instance_view env d (effective_instance None) s) in
        \<lparr>ps_definition = d, ps_configurable_in_ui = pd_configurable_in_ui d, ps_enabled = vw_enabled v,
         ps_has_api_key = has_any_secret v, ps_instance_id = vw_instance_id v, ps_source = vw_source v, ps_fields = pd_fields d\<rparr>)"

definition list_provider_summaries :: "settings_env \<Rightarrow> db \<Rightarrow> provider_summary list" where
  "list_provider_summaries env s = map (provider_summary_of env s) provider_definitions"

definition configurable_provider :: "string \<Rightarrow> bool" where
  "configurable_provider t \<longleftrightarrow> t \<in> set all_provider_types \<and> t \<noteq> ''microsoft''"

definition admin_get_provider_instance :: "settings_env \<Rightarrow> string \<Rightarrow> string \<Rightarrow> (db, settings_error, provider_view) action" where
  "admin_get_provider_instance env t i =
     andthen (require (configurable_provider t) SettingsProviderNotFound)
       (bnd (asks (get_provider_admin_view env t (Some i))) of_sum)"

definition audit_settings :: "string \<Rightarrow> string \<Rightarrow> (string \<times> json) list \<Rightarrow> (db, settings_error, unit) action" where
  "audit_settings admin_id target kvs =
     write_audit_event ''admin'' (Some admin_id) ''provider.settings_updated'' ''provider_instance'' (Some target) (Some (JObj kvs)) None"

definition admin_update_provider_instance ::
    "settings_env \<Rightarrow> string \<Rightarrow> string \<Rightarrow> string \<Rightarrow> instance_update \<Rightarrow> (db, settings_error, provider_view) action" where
  "admin_update_provider_instance env admin_id t i u =
     transaction (
       andthen (require (configurable_provider t) SettingsProviderNotFound)
      (bnd (update_provider_instance env t (Some i) u) (\<lambda>v.
       andthen (audit_settings admin_id (t @ '':'' @ i)
           [(''provider_type'', JStr t), (''enabled'', JBool (vw_enabled v)), (''has_any_secret'', JBool (has_any_secret v)),
            (''cleared_secrets'', JArr (map JStr (iu_clear_secrets u))),
            (''updated_value_keys'', JArr (map JStr (sort (map fst (iu_values u))))),
            (''updated_secret_keys'', JArr (map JStr (sort (map fst (iu_secrets u)))))])
         (ret v))))"

definition admin_update_smsbower_settings ::
    "settings_env \<Rightarrow> string \<Rightarrow> string list \<Rightarrow> smsbower_update \<Rightarrow> (db, settings_error, smsbower_view) action" where
  \<comment> \<open>\<open>fields_set\<close>: the names of the fields the request gives\<close>
  "admin_update_smsbower_settings env admin_id fields_set u =
     transaction (bnd (update_smsbower env u) (\<lambda>v.
       andthen (audit_settings admin_id (''smsbower_gmail:'' @ sr_instance_id (bv_runtime v))
           [(''provider_type'', JStr ''smsbower_gmail''), (''updated_fields'', JArr (map JStr (sort fields_set))),
            (''has_api_key'', JBool (sr_has_api_key (bv_runtime v))), (''enabled'', JBool (sr_enabled (bv_runtime v)))])
         (ret v)))"

definition request_text :: "string option \<Rightarrow> string option" where
  \<comment> \<open>the validator of \<open>SmsbowerSettingsUpdate\<close>: a blank text is no text\<close>
  "request_text v = (case v of None \<Rightarrow> None | Some x \<Rightarrow> nonempty (strip x))"


subsection \<open>Rows are found again\<close>

lemma instance_row_write:
  "instance_row_of t i (write_instance r s) = (if (t, i) = instance_key r then Some r else instance_row_of t i s)"
  by (auto simp: instance_row_of_def write_instance_def row_by_append row_by_put_row split: option.split)

lemma instance_row_key: "instance_row_of t i s = Some r \<Longrightarrow> instance_key r = (t, i) \<and> r \<in> set (instance_settings s)"
  by (auto simp: instance_row_of_def row_by_def find_Some_iff)

lemma set_write_instance: "x \<in> set (instance_settings (write_instance r s)) \<Longrightarrow> x = r \<or> x \<in> set (instance_settings s)"
  by (auto simp: write_instance_def dest: set_put_row split: option.splits)

lemma when_some_run [run]: "when_some v f r = (case v of None \<Rightarrow> (Inr (), r) | Some x \<Rightarrow> f x r)"
  by (simp add: when_some_def run split: option.split)

lemma need_cipher_run [run]: "need_cipher env f r = (case stg_cipher env of None \<Rightarrow> (Inl SettingsNoCipher, r) | Some c \<Rightarrow> f c r)"
  by (simp add: need_cipher_def run split: option.split)

definition keeps_key :: "row_update \<Rightarrow> bool" where
  "keeps_key m \<longleftrightarrow> (\<forall>r. instance_key (snd (m r)) = instance_key r)"

lemma keeps_key_steps: "keeps_key m \<longleftrightarrow> steps (\<lambda>r r'. instance_key r' = instance_key r) m"
  by (simp add: keeps_key_def steps_def)

interpretation same_key: frame_relation "\<lambda>r r'. instance_key r' = instance_key r"
  by unfold_locales simp_all

lemma instance_row_updated:
  assumes "on_instance fresh upd s = (res, t)" and "keeps_key upd"
  shows "instance_row_of (ir_provider_type fresh) (ir_instance_id fresh) t
     = Some (snd (upd (case instance_row_of (ir_provider_type fresh) (ir_instance_id fresh) s of None \<Rightarrow> fresh | Some r \<Rightarrow> r)))"
proof -
  let ?r0 = "case instance_row_of (ir_provider_type fresh) (ir_instance_id fresh) s of None \<Rightarrow> fresh | Some r \<Rightarrow> r"
  have "instance_key ?r0 = instance_key fresh"
    by (auto simp: instance_key_def dest: instance_row_key split: option.split)
  then have "instance_key (snd (upd ?r0)) = (ir_provider_type fresh, ir_instance_id fresh)"
    using assms(2) by (simp add: keeps_key_def instance_key_def)
  then show ?thesis
    using assms(1) by (auto simp: on_instance_def instance_row_write Let_def split: prod.splits)
qed

lemma set_on_instance:
  assumes "on_instance fresh upd s = (res, t)" and "x \<in> set (instance_settings t)"
  shows "x \<in> set (instance_settings s)
     \<or> x = snd (upd (case instance_row_of (ir_provider_type fresh) (ir_instance_id fresh) s of None \<Rightarrow> fresh | Some r \<Rightarrow> r))"
  using assms by (auto simp: on_instance_def Let_def dest: set_write_instance split: prod.splits)

subsection \<open>The SMSBower settings override the environment\<close>

definition cipher_ok :: "settings_cipher option \<Rightarrow> bool" where
  "cipher_ok z = (case z of None \<Rightarrow> True | Some c \<Rightarrow> \<forall>x. sc_decrypt c (sc_encrypt c x) = Some x \<and> sc_encrypt c x \<noteq> [])"

definition chosen :: "'a option \<Rightarrow> 'a \<Rightarrow> 'a" where
  "chosen v x = (case v of None \<Rightarrow> x | Some y \<Rightarrow> y)"

definition seeded_runtime :: "sms_runtime \<Rightarrow> sms_runtime" where
  \<comment> \<open>the environment's settings once they are stored: the base URL is normalized again when it is read\<close>
  "seeded_runtime rt = rt\<lparr>sr_from_database := True, sr_api_base := normalize_smsbower_base_url (Some (sr_api_base rt))\<rparr>"

definition overridden_key :: "settings_env \<Rightarrow> smsbower_update \<Rightarrow> string option \<Rightarrow> string option" where
  "overridden_key env u old =
     (if bu_clear_api_key u then env_api_key env
      else case bu_api_key u of None \<Rightarrow> old | Some k \<Rightarrow> if strip k = [] then env_api_key env else Some (strip k))"

definition overridden :: "settings_env \<Rightarrow> smsbower_update \<Rightarrow> sms_runtime \<Rightarrow> sms_runtime" where
  \<comment> \<open>what an update promises: the fields it gives replace those in effect, a cleared one falls back to the environment\<close>
  "overridden env u rt =
     rt\<lparr>sr_enabled := chosen (bu_enabled u) (sr_enabled rt),
        sr_api_base := chosen (map_option (\<lambda>x. normalize_smsbower_base_url (Some
            (if strip x = [] then smsbower_default_base_url else normalize_smsbower_base_url (Some (strip x))))) (bu_api_base u)) (sr_api_base rt),
        sr_service := chosen (map_option (\<lambda>x. or_text (Some (strip x)) ''openai'') (bu_service u)) (sr_service rt),
        sr_domain := chosen (map_option (\<lambda>x. or_text (Some (strip x)) ''gmail.com'') (bu_domain u)) (sr_domain rt),
        sr_max_price := (if bu_clear_max_price u then cfg_smsbower_max_price (stg_cfg env)
                         else chosen (map_option Some (bu_max_price u)) (sr_max_price rt)),
        sr_request_timeout_seconds := chosen (map_option (\<lambda>x. if x = 0 then cfg_smsbower_request_timeout_seconds (stg_cfg env) else x)
            (bu_request_timeout_seconds u)) (sr_request_timeout_seconds rt),
        sr_api_key := overridden_key env u (sr_api_key rt),
        sr_has_api_key := overridden_key env u (sr_api_key rt) \<noteq> None\<rparr>"

lemma normalized_base_not_empty [simp]: "normalize_smsbower_base_url v \<noteq> []"
  by (auto simp: normalize_smsbower_base_url_def smsbower_default_base_url_def urlunsplit_def Let_def split: option.split)

lemma update_smsbower_row_keeps_key: "keeps_key (update_smsbower_row env u)"
  unfolding keeps_key_steps update_smsbower_row_def set_api_key_def when_some_def need_cipher_def
  by (intro same_key.andthen same_key.if_then_else same_key.option same_key.modify same_key.ret same_key.throw)
     (simp_all add: instance_key_def)

lemma set_api_key_Inr:
  assumes "set_api_key env u r = (Inr (), r')" and "cipher_ok (stg_cipher env)"
  shows "row_api_key env r' = overridden_key env u (row_api_key env r) \<and> (\<exists>k. r' = r\<lparr>ir_api_key_ciphertext := k\<rparr>)"
  using assms
  by (auto simp: set_api_key_def overridden_key_def row_api_key_def decrypted_text_def cipher_ok_def run
        split: if_splits option.splits intro: exI [of _ "ir_api_key_ciphertext r"])

lemma or_text_Some [simp]: "x \<noteq> [] \<Longrightarrow> or_text (Some x) d = x"
  by (simp add: or_text_def)

lemma strip_or_text: "strip (or_text (Some (strip x)) d) = or_text (Some (strip x)) (strip d)"
  by (simp add: or_text_def)


definition set_columns :: "smsbower_update \<Rightarrow> instance_row \<Rightarrow> instance_row" where
  \<comment> \<open>the row before its key is written\<close>
  "set_columns u r =
     r\<lparr>ir_enabled := chosen (bu_enabled u) (ir_enabled r),
       ir_api_base := chosen (map_option (\<lambda>x. Some (if strip x = [] then smsbower_default_base_url
           else normalize_smsbower_base_url (Some (strip x)))) (bu_api_base u)) (ir_api_base r),
       ir_service_code := chosen (map_option (\<lambda>x. Some (or_text (Some (strip x)) ''openai'')) (bu_service u)) (ir_service_code r),
       ir_domain := chosen (map_option (\<lambda>x. Some (or_text (Some (strip x)) ''gmail.com'')) (bu_domain u)) (ir_domain r),
       ir_max_price := (if bu_clear_max_price u then None else chosen (map_option Some (bu_max_price u)) (ir_max_price r)),
       ir_request_timeout_seconds := chosen (bu_request_timeout_seconds u) (ir_request_timeout_seconds r)\<rparr>"

lemma when_modify: "andthen (when_some v (\<lambda>x. modify (f x))) k r = k (case v of None \<Rightarrow> r | Some x \<Rightarrow> f x r)"
  by (simp add: run split: option.split)

lemma if_when_modify:
  "andthen (if b then modify g else when_some v (\<lambda>x. modify (f x))) k r
   = k (if b then g r else case v of None \<Rightarrow> r | Some x \<Rightarrow> f x r)"
  by (simp add: run split: option.split)

lemma set_columns_steps:
  "(let r1 = (case bu_enabled u of None \<Rightarrow> r | Some b \<Rightarrow> ir_enabled_update (\<lambda>_. b) r);
        r2 = (case bu_api_base u of None \<Rightarrow> r1 | Some x \<Rightarrow> ir_api_base_update (\<lambda>_. Some
           (if strip x = [] then smsbower_default_base_url else normalize_smsbower_base_url (Some (strip x)))) r1);
        r3 = (case bu_service u of None \<Rightarrow> r2 | Some x \<Rightarrow> ir_service_code_update (\<lambda>_. Some (or_text (Some (strip x)) ''openai'')) r2);
        r4 = (case bu_domain u of None \<Rightarrow> r3 | Some x \<Rightarrow> ir_domain_update (\<lambda>_. Some (or_text (Some (strip x)) ''gmail.com'')) r3);
        r5 = (if bu_clear_max_price u then ir_max_price_update (\<lambda>_. None) r4
              else case bu_max_price u of None \<Rightarrow> r4 | Some x \<Rightarrow> ir_max_price_update (\<lambda>_. Some x) r4)
    in case bu_request_timeout_seconds u of None \<Rightarrow> r5 | Some x \<Rightarrow> ir_request_timeout_seconds_update (\<lambda>_. x) r5)
   = set_columns u r"
  by (rule instance_row.equality) (simp_all add: set_columns_def chosen_def Let_def split: option.split)

lemma update_smsbower_row_run:
  "update_smsbower_row env u r =
     (case set_api_key env u (set_columns u r) of (res, r') \<Rightarrow>
        (case res of Inl e \<Rightarrow> (Inl e, r') | Inr _ \<Rightarrow> (Inr (), r'\<lparr>ir_updated_at := stg_now env\<rparr>)))"
  unfolding update_smsbower_row_def when_modify if_when_modify
  by (simp add: set_columns_steps [unfolded Let_def] andthen_run modify_run split: prod.split sum.split)

lemma stored_text: "strip d = d \<Longrightarrow> d \<noteq> [] \<Longrightarrow> strip (or_text (Some (or_text (Some (strip x)) d)) e) = or_text (Some (strip x)) d"
  by (simp add: or_text_def)

lemma set_columns_runtime:
  "row_runtime env ((set_columns u r)\<lparr>ir_api_key_ciphertext := k, ir_updated_at := n\<rparr>)
   = (overridden env u (row_runtime env r))
       \<lparr>sr_api_key := row_api_key env ((set_columns u r)\<lparr>ir_api_key_ciphertext := k\<rparr>),
        sr_has_api_key := row_api_key env ((set_columns u r)\<lparr>ir_api_key_ciphertext := k\<rparr>) \<noteq> None\<rparr>"
proof -
  have d: "strip ''openai'' = ''openai''" "strip ''gmail.com'' = ''gmail.com''" by code_simp+
  have ne: "smsbower_default_base_url \<noteq> []" by (simp add: smsbower_default_base_url_def)
  show ?thesis
    by (simp add: row_runtime_def overridden_def set_columns_def row_api_key_def chosen_def Let_def ne d stored_text
        split: option.split)
qed


lemma row_api_key_columns: "row_api_key env (set_columns u r) = row_api_key env r"
  by (simp add: row_api_key_def set_columns_def)

lemma updated_row_runtime:
  assumes "update_smsbower_row env u r = (Inr (), r')" and "cipher_ok (stg_cipher env)"
  shows "row_runtime env r' = overridden env u (row_runtime env r)"
proof -
  obtain k where k: "set_api_key env u (set_columns u r) = (Inr (), (set_columns u r)\<lparr>ir_api_key_ciphertext := k\<rparr>)"
    and r': "r' = (set_columns u r)\<lparr>ir_api_key_ciphertext := k, ir_updated_at := stg_now env\<rparr>"
    using assms set_api_key_Inr [OF _ assms(2)]
    by (fastforce simp: update_smsbower_row_run split: prod.splits sum.splits)
  have key: "row_api_key env ((set_columns u r)\<lparr>ir_api_key_ciphertext := k\<rparr>) = overridden_key env u (row_api_key env r)"
    using set_api_key_Inr [OF k assms(2)] by (simp add: row_api_key_columns)
  have old: "sr_api_key (row_runtime env r) = row_api_key env r" by (simp add: row_runtime_def Let_def)
  show ?thesis
    by (rule sms_runtime.equality) (simp_all add: r' set_columns_runtime key overridden_def old)
qed

lemma env_api_key_stripped: "env_api_key env = Some k \<Longrightarrow> strip k = k \<and> k \<noteq> []"
  by (auto simp: env_api_key_def nonempty_def split: if_splits)

lemma seeded_row_runtime:
  assumes "smsbower_row env s = None" and "cipher_ok (stg_cipher env)"
  shows "row_runtime env (seeded_row env s) = seeded_runtime (resolve_smsbower_runtime env s)"
proof -
  have rt: "resolve_smsbower_runtime env s = environment_runtime env" using assms(1) by (simp add: resolve_smsbower_runtime_def)
  have key: "row_api_key env (seeded_row env s) = env_api_key env"
    using assms(2) by (auto simp: row_api_key_def seeded_row_def rt environment_runtime_def decrypted_text_def cipher_ok_def Let_def
        dest: env_api_key_stripped split: option.split)
  have d: "strip ''openai'' = ''openai''" "strip ''gmail.com'' = ''gmail.com''" "strip ''default'' = ''default''" by code_simp+
  have blank: "strip (or_text (Some (strip (or_text (Some x) e))) (or_text (Some x) e)) = strip (or_text (Some x) e)" for x e
    by (auto simp: or_text_def)
  have again: "strip (or_text (Some (strip y)) (strip y)) = strip y" for y by (simp add: or_text_def)
  show ?thesis
    unfolding rt
    by (rule sms_runtime.equality)
       (simp_all add: row_runtime_def key, simp_all add: seeded_row_def rt environment_runtime_def seeded_runtime_def Let_def
          env_instance_id_def blank again d split: option.split)
qed

lemma smsbower_row_updated:
  assumes "update_smsbower env u s = (Inr v, t)"
  shows "\<exists>r'. update_smsbower_row env u (case smsbower_row env s of None \<Rightarrow> seeded_row env s | Some r \<Rightarrow> r) = (Inr (), r')
     \<and> smsbower_row env t = Some r'"
proof -
  obtain t' where "on_instance (seeded_row env s) (update_smsbower_row env u) s = (Inr (), t')" and "t = t'"
    using assms by (auto simp: update_smsbower_def run split: prod.splits sum.splits)
  then show ?thesis
    using instance_row_updated [OF _ update_smsbower_row_keeps_key, of "seeded_row env s" env u s "Inr ()" t]
    by (cases "update_smsbower_row env u (case smsbower_row env s of None \<Rightarrow> seeded_row env s | Some r \<Rightarrow> r)")
       (auto simp: on_instance_def smsbower_row_def seeded_row_def Let_def split: prod.splits option.splits)
qed

lemma smsbower_update_effect:
  assumes "update_smsbower env u s = (Inr v, t)" and "cipher_ok (stg_cipher env)"
  shows "resolve_smsbower_runtime env t = overridden env u
     (case smsbower_row env s of None \<Rightarrow> seeded_runtime (resolve_smsbower_runtime env s) | Some _ \<Rightarrow> resolve_smsbower_runtime env s)"
proof -
  let ?r = "case smsbower_row env s of None \<Rightarrow> seeded_row env s | Some r \<Rightarrow> r"
  obtain r' where r': "update_smsbower_row env u ?r = (Inr (), r')" "smsbower_row env t = Some r'"
    using smsbower_row_updated [OF assms(1)] by blast
  have "row_runtime env ?r = (case smsbower_row env s of None \<Rightarrow> seeded_runtime (resolve_smsbower_runtime env s)
      | Some _ \<Rightarrow> resolve_smsbower_runtime env s)"
    using seeded_row_runtime [OF _ assms(2)] by (auto simp: resolve_smsbower_runtime_def split: option.split)
  with updated_row_runtime [OF r'(1) assms(2)] r'(2) show ?thesis by (simp add: resolve_smsbower_runtime_def)
qed

definition clears_key :: "smsbower_update \<Rightarrow> bool" where
  "clears_key u \<longleftrightarrow> bu_clear_api_key u \<or> (case bu_api_key u of None \<Rightarrow> False | Some k \<Rightarrow> strip k = [])"

definition requested :: "smsbower_update \<Rightarrow> sms_runtime \<Rightarrow> sms_runtime" where
  \<comment> \<open>what the fields of the request promise; the environment does not occur\<close>
  "requested u rt =
     (let key = (if clears_key u then None else chosen (map_option (\<lambda>k. Some (strip k)) (bu_api_key u)) (sr_api_key rt)) in
      rt\<lparr>sr_enabled := chosen (bu_enabled u) (sr_enabled rt),
        sr_api_base := chosen (map_option (\<lambda>x. normalize_smsbower_base_url (Some
            (if strip x = [] then smsbower_default_base_url else normalize_smsbower_base_url (Some (strip x))))) (bu_api_base u)) (sr_api_base rt),
        sr_service := chosen (map_option (\<lambda>x. or_text (Some (strip x)) ''openai'') (bu_service u)) (sr_service rt),
        sr_domain := chosen (map_option (\<lambda>x. or_text (Some (strip x)) ''gmail.com'') (bu_domain u)) (sr_domain rt),
        sr_max_price := (if bu_clear_max_price u then None else chosen (map_option Some (bu_max_price u)) (sr_max_price rt)),
        sr_request_timeout_seconds := chosen (bu_request_timeout_seconds u) (sr_request_timeout_seconds rt),
        sr_api_key := key, sr_has_api_key := key \<noteq> None\<rparr>)"

text \<open>
  C5. An update of the SMSBower settings replaces, in the configuration the provider runs with, exactly the
  fields the request gives: a given field has the new value, stripped or normalized; a cleared price limit is
  none and a cleared or blank key is none; what the request does not give stays as it was, also when this first
  update stores the environment's settings in the database (the base URL, normalized when it was read, is then
  normalized a second time). This holds where the environment configures nothing to take the place of what is cleared:
  when the key is cleared it has no key, when the price limit is cleared it has no limit. The timeout, when it is given, is not
  zero, which the validation of the request ensures.
\<close>
theorem smsbower_update_overrides:
  assumes "update_smsbower env u s = (Inr v, t)" and "cipher_ok (stg_cipher env)"
    and "clears_key u \<Longrightarrow> env_api_key env = None"
    and "bu_clear_max_price u \<Longrightarrow> cfg_smsbower_max_price (stg_cfg env) = None"
    and "bu_request_timeout_seconds u \<noteq> Some 0"
  shows "resolve_smsbower_runtime env t = requested u
     (case smsbower_row env s of None \<Rightarrow> seeded_runtime (resolve_smsbower_runtime env s) | Some _ \<Rightarrow> resolve_smsbower_runtime env s)"
proof -
  have key: "overridden_key env u old = (if clears_key u then None else chosen (map_option (\<lambda>k. Some (strip k)) (bu_api_key u)) old)" for old
    using assms(3) by (simp add: overridden_key_def clears_key_def chosen_def split: option.split)
  have "overridden env u rt = requested u rt" for rt
    using assms(4,5)
    by (intro sms_runtime.equality)
      (simp_all add: overridden_def requested_def Let_def key, simp_all add: chosen_def split: option.split)
  then show ?thesis using smsbower_update_effect [OF assms(1,2)] by simp
qed


subsection \<open>Secrets of the on-demand providers\<close>

text \<open>
  The secrets of an instance are an association list that implements a map: every operation has one
  equation for its lookups. \<open>clean p m\<close>: every secret but the primary one is stripped and not blank.
\<close>

definition clean :: "string \<Rightarrow> (string \<times> string) list \<Rightarrow> bool" where
  "clean p m \<longleftrightarrow> distinct (map fst m) \<and> (\<forall>(k, x) \<in> set m. k = p \<or> (strip x = x \<and> x \<noteq> []))"

definition texts_ok :: "(json \<Rightarrow> string) \<Rightarrow> (string \<Rightarrow> json option) \<Rightarrow> bool" where
  \<comment> \<open>\<open>json.loads\<close> reads back what \<open>json.dumps\<close> wrote of a \<open>dict[str, str]\<close>\<close>
  "texts_ok dumps loads \<longleftrightarrow> (\<forall>m. distinct (map fst m) \<longrightarrow> loads (dumps (secret_bag m)) = Some (secret_bag m))"

lemma set_update_subset: "set (AList.update k x m) \<subseteq> insert (k, x) (set m)"
  by (induction m) auto

lemma clean_update: "clean p m \<Longrightarrow> strip x = x \<Longrightarrow> x \<noteq> [] \<Longrightarrow> clean p (AList.update k x m)"
  using set_update_subset [of k x m] unfolding clean_def by (fastforce intro: distinct_update)

lemma clean_delete: "clean p m \<Longrightarrow> clean p (AList.delete k m)"
  unfolding clean_def by (auto simp: AList.delete_eq intro: distinct_map_filter)

lemma clean_merge: "clean p m \<Longrightarrow> clean p (merge_bag env kvs m)"
  by (induction env kvs m rule: merge_bag.induct) (simp_all add: Let_def clean_update)

lemma clean_base: "clean p []" "clean p [(p, x)]"
  by (simp_all add: clean_def)

lemma clean_decrypted: "clean (pd_primary_secret_key d) (decrypt_secrets env d row)"
  unfolding decrypt_secrets_def by (simp add: clean_base clean_merge split: option.split)

lemma text_or_blank_JStr [simp]: "text_or_blank env (JStr x) = x"
  by (simp add: text_or_blank_def str_value_def)

lemma map_of_merge_texts:
  assumes "distinct (map fst xs)" and "\<forall>(k, x) \<in> set xs. strip x = x \<and> x \<noteq> []"
  shows "map_of (merge_bag env (map (\<lambda>(k, x). (k, JStr x)) xs) m) k = (case map_of xs k of None \<Rightarrow> map_of m k | Some x \<Rightarrow> Some x)"
  using assms
proof (induction xs arbitrary: m)
  case (Cons a xs)
  have "map_of xs (fst a) = None" using Cons.prems(1) by (auto simp: map_of_eq_None_iff)
  with Cons show ?case by (cases a) (auto simp: update_conv' Let_def split: option.split)
qed simp

lemma fold_clear:
  "fold (clear_secret p) ks (m, r) = (m', r') \<Longrightarrow>
     map_of m' = (\<lambda>k. if k \<in> set ks then None else map_of m k)
     \<and> r' = (if p \<in> set ks then r\<lparr>ir_api_key_ciphertext := None\<rparr> else r) \<and> (clean p m \<longrightarrow> clean p m')"
proof (induction ks arbitrary: m r)
  case (Cons a ks)
  from Cons.IH [of "AList.delete a m" "if a = p then r\<lparr>ir_api_key_ciphertext := None\<rparr> else r"] Cons.prems show ?case
    by (auto simp: clear_secret_def delete_conv' fun_eq_iff intro: clean_delete)
qed auto

definition stored_primary :: "settings_cipher \<Rightarrow> string \<Rightarrow> (string \<times> string) list \<Rightarrow> instance_row \<Rightarrow> instance_row" where
  "stored_primary c p kvs r =
     (case map_of kvs p of
        None \<Rightarrow> r
      | Some x \<Rightarrow> r\<lparr>ir_api_key_ciphertext := (if strip x = [] then None else Some (sc_encrypt c (strip x)))\<rparr>)"

lemma fold_put:
  "distinct (map fst kvs) \<Longrightarrow> fold (put_secret c p) kvs (m, r) = (m', r') \<Longrightarrow>
     map_of m' = (\<lambda>k. case map_of kvs k of None \<Rightarrow> map_of m k | Some x \<Rightarrow> if strip x = [] then None else Some (strip x))
     \<and> r' = stored_primary c p kvs r \<and> (clean p m \<longrightarrow> clean p m')"
proof (induction kvs arbitrary: m r)
  case Nil
  then show ?case by (simp add: stored_primary_def fun_eq_iff)
next
  case (Cons a kvs)
  obtain k x where a: "a = (k, x)" by (cases a)
  obtain m1 r1 where st: "put_secret c p (k, x) (m, r) = (m1, r1)" by (cases "put_secret c p (k, x) (m, r)")
  have new: "map_of kvs k = None" using Cons.prems(1) a by (simp add: map_of_eq_None_iff)
  have m1: "map_of m1 = (map_of m)(k := if strip x = [] then None else Some (strip x))"
    and c1: "clean p m \<longrightarrow> clean p m1"
    and r1: "r1 = stored_primary c p [(k, x)] r"
    using st by (auto simp: put_secret_def clear_secret_def Let_def delete_conv' update_conv' stored_primary_def
        clean_delete clean_update split: if_splits)
  from Cons.IH [of m1 r1] Cons.prems st a
  have "map_of m' = (\<lambda>k. case map_of kvs k of None \<Rightarrow> map_of m1 k | Some x \<Rightarrow> if strip x = [] then None else Some (strip x))
     \<and> r' = stored_primary c p kvs r1 \<and> (clean p m1 \<longrightarrow> clean p m')" by simp
  then show ?case using new m1 c1 r1 a by (auto simp: fun_eq_iff stored_primary_def split: option.split)
qed


definition secondary :: "string \<Rightarrow> (string \<times> string) list \<Rightarrow> (string \<times> string) list" where
  "secondary p m = filter (\<lambda>(k, _). k \<noteq> p) m"

definition stored_bag :: "settings_env \<Rightarrow> settings_cipher \<Rightarrow> string \<Rightarrow> (string \<times> string) list \<Rightarrow> string option" where
  "stored_bag env c p m =
     (if secondary p m = [] then None else Some (sc_encrypt c (stg_dumps env (secret_bag (secondary p m)))))"

lemma map_of_secondary: "map_of (secondary p m) k = (if k = p then None else map_of m k)"
  unfolding secondary_def by (induction m) auto

lemma clean_secondary:
  "clean p m \<Longrightarrow> distinct (map fst (secondary p m)) \<and> (\<forall>(k, x) \<in> set (secondary p m). strip x = x \<and> x \<noteq> [])"
  unfolding clean_def secondary_def by (auto intro: distinct_map_filter)

definition spec_secrets :: "(string \<times> string) list \<Rightarrow> string list \<Rightarrow> (string \<Rightarrow> string option) \<Rightarrow> string \<Rightarrow> string option" where
  \<comment> \<open>what an update of the secrets promises\<close>
  "spec_secrets ss cleared old k =
     (case map_of ss k of
        Some x \<Rightarrow> if strip x = [] then None else Some (strip x)
      | None \<Rightarrow> if k \<in> set cleared then None else old k)"

lemma write_secrets_result:
  assumes "write_secrets env d ss cs r0 = (res, r)" and "stg_cipher env = Some c" and "distinct (map fst ss)"
  shows "\<exists>m. res = Inr () \<and> clean (pd_primary_secret_key d) m
     \<and> map_of m = spec_secrets ss cs (map_of (decrypt_secrets env d (Some r0)))
     \<and> r = (stored_primary c (pd_primary_secret_key d) ss
             (if pd_primary_secret_key d \<in> set cs then r0\<lparr>ir_api_key_ciphertext := None\<rparr> else r0))
           \<lparr>ir_secrets_ciphertext := stored_bag env c (pd_primary_secret_key d) m\<rparr>"
proof -
  let ?p = "pd_primary_secret_key d"
  obtain m1 r1 where st1: "fold (clear_secret ?p) cs (decrypt_secrets env d (Some r0), r0) = (m1, r1)" by force
  obtain m2 r2 where st2: "fold (put_secret c ?p) ss (m1, r1) = (m2, r2)" by force
  have run: "write_secrets env d ss cs r0 = store_bag env ?p m2 r2"
    using st1 st2 assms(2) by (auto simp: write_secrets_def Let_def)
  have "store_bag env ?p m2 r2 = (Inr (), r2\<lparr>ir_secrets_ciphertext := stored_bag env c ?p m2\<rparr>)"
    using assms(2) by (simp add: store_bag_def stored_bag_def secondary_def Let_def modify_run need_cipher_run)
  with run assms(1) have out: "res = Inr ()" "r = r2\<lparr>ir_secrets_ciphertext := stored_bag env c ?p m2\<rparr>" by auto
  from fold_clear [OF st1] fold_put [OF assms(3) st2] clean_decrypted
  have m2: "clean ?p m2" "map_of m2 = spec_secrets ss cs (map_of (decrypt_secrets env d (Some r0)))"
    and r2: "r2 = stored_primary c ?p ss (if ?p \<in> set cs then r0\<lparr>ir_api_key_ciphertext := None\<rparr> else r0)"
    by (auto simp: spec_secrets_def fun_eq_iff split: option.split)
  show ?thesis using out m2 r2 by blast
qed

definition settings_env_ok :: "settings_cipher \<Rightarrow> settings_env \<Rightarrow> bool" where
  "settings_env_ok c env \<longleftrightarrow> stg_cipher env = Some c \<and> cipher_ok (Some c) \<and> texts_ok (stg_dumps env) (stg_loads env)"

lemma decrypted_bag:
  assumes "settings_env_ok c env" and "clean p m"
  shows "bag_of env (r\<lparr>ir_secrets_ciphertext := stored_bag env c p m\<rparr>) = map (\<lambda>(k, x). (k, JStr x)) (secondary p m)"
  using assms clean_secondary [OF assms(2)]
  by (auto simp: settings_env_ok_def bag_of_def stored_bag_def decrypted_text_def cipher_ok_def texts_ok_def secret_bag_def)

definition primary_text :: "settings_env \<Rightarrow> instance_row \<Rightarrow> string option" where
  "primary_text env r = decrypted_text env (ir_api_key_ciphertext r)"

lemma decrypt_secrets_written:
  assumes "settings_env_ok c env" and "clean (pd_primary_secret_key d) m"
  shows "map_of (decrypt_secrets env d (Some (r\<lparr>ir_secrets_ciphertext := stored_bag env c (pd_primary_secret_key d) m\<rparr>))) k
     = (if k = pd_primary_secret_key d then primary_text env r else map_of m k)"
  using clean_secondary [OF assms(2)]
  by (auto simp: decrypt_secrets_def decrypted_bag [OF assms] map_of_merge_texts map_of_secondary primary_text_def
      decrypted_text_def split: option.split)

lemma runtime_secret:
  "map_of (rt_secrets (instance_runtime env d i s)) k = map_of (decrypt_secrets env d (instance_row_of (pd_provider_type d) i s)) k"
proof -
  let ?row = "instance_row_of (pd_provider_type d) i s" and ?p = "pd_primary_secret_key d"
  have keep: "map_of m k' \<noteq> None \<Longrightarrow> map_of (merge_bag env kvs m) k' \<noteq> None" for k' kvs m
    by (induction env kvs m rule: merge_bag.induct) (auto simp: Let_def update_conv')
  have "Option.bind ?row (\<lambda>r. decrypted_text env (ir_api_key_ciphertext r)) = None"
    if "map_of (decrypt_secrets env d ?row) ?p = None"
  proof (cases ?row)
    case (Some r)
    with that keep [of "[(?p, x)]" ?p "bag_of env r" for x] show ?thesis
      by (cases "decrypted_text env (ir_api_key_ciphertext r)") (auto simp: decrypt_secrets_def)
  qed simp
  then show ?thesis by (auto simp: instance_runtime_def Let_def)
qed

lemma merge_bag_other: "map_of kvs k = None \<Longrightarrow> map_of (merge_bag env kvs m) k = map_of m k"
  by (induction env kvs m rule: merge_bag.induct) (auto simp: Let_def update_conv' split: if_splits)

definition primary_apart :: "settings_env \<Rightarrow> provider_definition \<Rightarrow> instance_row option \<Rightarrow> bool" where
  \<comment> \<open>the encrypted bag holds only secrets beside the primary one, as \<open>write_secrets\<close> leaves it\<close>
  "primary_apart env d row \<longleftrightarrow> (case row of None \<Rightarrow> True | Some r \<Rightarrow> map_of (bag_of env r) (pd_primary_secret_key d) = None)"

lemma primary_secret: "primary_apart env d (Some r) \<Longrightarrow> map_of (decrypt_secrets env d (Some r)) (pd_primary_secret_key d) = primary_text env r"
  by (simp add: primary_apart_def decrypt_secrets_def merge_bag_other primary_text_def split: option.split)

lemma primary_text_stored:
  assumes "settings_env_ok c env" and "map_of ss p \<noteq> None \<or> p \<in> set cs \<or> primary_text env r = old p"
  shows "primary_text env (stored_primary c p ss (if p \<in> set cs then r\<lparr>ir_api_key_ciphertext := None\<rparr> else r))
     = spec_secrets ss cs old p"
  using assms
  by (auto simp: primary_text_def stored_primary_def spec_secrets_def settings_env_ok_def cipher_ok_def decrypted_text_def
      split: option.split)

definition same_secrets :: "instance_row \<Rightarrow> instance_row \<Rightarrow> bool" where
  "same_secrets r r' \<longleftrightarrow> instance_key r' = instance_key r \<and> ir_api_key_ciphertext r' = ir_api_key_ciphertext r
     \<and> ir_secrets_ciphertext r' = ir_secrets_ciphertext r"

interpretation values_frame: frame_relation same_secrets
  by unfold_locales (simp_all add: same_secrets_def)

lemma write_values_frame: "steps same_secrets (write_values env d vs)"
proof -
  have cols: "steps same_secrets (write_columns env d vs)"
    unfolding write_columns_def when_some_def Let_def
    by (intro values_frame.andthen values_frame.option values_frame.if_then_else values_frame.modify values_frame.ret values_frame.throw)
       (simp_all add: same_secrets_def instance_key_def)
  show ?thesis
    unfolding write_values_def
    by (intro values_frame.bnd values_frame.andthen cols values_frame.modify)
       (simp_all add: steps_def same_secrets_def instance_key_def)
qed

lemma fold_clear_key: "instance_key (snd (fold (clear_secret p) ks st)) = instance_key (snd st)"
  by (induction ks arbitrary: st) (auto simp: clear_secret_def instance_key_def split: prod.split)

lemma fold_put_key: "instance_key (snd (fold (put_secret c p) kvs st)) = instance_key (snd st)"
  by (induction kvs arbitrary: st)
     (auto simp: put_secret_def clear_secret_def instance_key_def Let_def split: prod.split)

lemma store_bag_key: "keeps_key (store_bag env p m)"
  unfolding keeps_key_steps store_bag_def need_cipher_def Let_def
  by (intro same_key.if_then_else same_key.option same_key.modify same_key.throw) (simp_all add: instance_key_def)

lemma write_secrets_key: "keeps_key (write_secrets env d ss cs)"
proof -
  have "instance_key (snd (write_secrets env d ss cs r0)) = instance_key r0" for r0
  proof -
    obtain m r where st: "fold (clear_secret (pd_primary_secret_key d)) cs (decrypt_secrets env d (Some r0), r0) = (m, r)" by force
    then have r: "instance_key r = instance_key r0" by (metis fold_clear_key snd_conv)
    have put: "instance_key r' = instance_key r" if "fold (put_secret c (pd_primary_secret_key d)) ss (m, r) = (m', r')" for c m' r'
      using that by (metis fold_put_key snd_conv)
    show ?thesis
      using st r store_bag_key [unfolded keeps_key_def]
      by (auto simp: write_secrets_def Let_def put split: option.split prod.split)
  qed
  then show ?thesis by (simp add: keeps_key_def)
qed

lemma update_instance_row_key: "keeps_key (update_instance_row env d u)"
proof -
  have "steps (\<lambda>r r'. instance_key r' = instance_key r) (write_values env d (iu_values u))"
    using write_values_frame by (auto simp: steps_def same_secrets_def)
  then show ?thesis
    unfolding keeps_key_steps update_instance_row_def when_some_def
    by (intro same_key.andthen same_key.option same_key.modify same_key.ret write_secrets_key [unfolded keeps_key_steps])
       (simp_all add: instance_key_def)
qed

lemma update_instance_row_result:
  assumes "update_instance_row env d u r0 = (Inr x, r)"
  shows "\<exists>r1 r2. same_secrets r0 r1 \<and> write_secrets env d (iu_secrets u) (iu_clear_secrets u) r1 = (Inr (), r2)
     \<and> r = r2\<lparr>ir_updated_at := stg_now env\<rparr>"
proof -
  let ?q = "case iu_enabled u of None \<Rightarrow> r0 | Some b \<Rightarrow> ir_enabled_update (\<lambda>_. b) r0"
  obtain r1 where r1: "write_values env d (iu_values u) ?q = (Inr (), r1)"
    and rest: "andthen (write_secrets env d (iu_secrets u) (iu_clear_secrets u)) (modify (ir_updated_at_update (\<lambda>_. stg_now env))) r1 = (Inr x, r)"
    using assms unfolding update_instance_row_def when_modify
    by (auto simp: andthen_run split: prod.splits sum.splits)
  have "same_secrets ?q r1" using stepsD_eq [OF write_values_frame r1] .
  then have "same_secrets r0 r1" by (auto simp: same_secrets_def instance_key_def split: option.splits)
  with rest show ?thesis by (auto simp: run split: prod.splits sum.splits)
qed

lemma decrypt_secrets_same: "same_secrets r r' \<Longrightarrow> decrypt_secrets env d (Some r') = decrypt_secrets env d (Some r)"
  by (simp add: decrypt_secrets_def bag_of_def same_secrets_def)

lemma updated_instance:
  assumes "update_provider_instance env t i u s = (Inr v, s')" and "t \<noteq> ''smsbower_gmail''"
  shows "\<exists>d r r2. get_provider_definition t = Inr d
     \<and> same_secrets (case instance_row_of t (effective_instance i) s of None \<Rightarrow> fresh_instance env t (effective_instance i) | Some r0 \<Rightarrow> r0) r
     \<and> write_secrets env d (iu_secrets u) (iu_clear_secrets u) r = (Inr (), r2)
     \<and> instance_row_of t (effective_instance i) s' = Some (r2\<lparr>ir_updated_at := stg_now env\<rparr>)"
proof -
  let ?f = "fresh_instance env t (effective_instance i)"
  let ?r0 = "case instance_row_of t (effective_instance i) s of None \<Rightarrow> ?f | Some r0 \<Rightarrow> r0"
  have f: "ir_provider_type ?f = t" "ir_instance_id ?f = effective_instance i" by (simp_all add: fresh_instance_def)
  obtain d where d: "get_provider_definition t = Inr d"
    and on: "on_instance ?f (update_instance_row env d u) s = (Inr (), s')"
    using assms by (auto simp: update_provider_instance_def run split: prod.splits sum.splits)
  have row: "instance_row_of t (effective_instance i) s' = Some (snd (update_instance_row env d u ?r0))"
    using instance_row_updated [OF on update_instance_row_key] by (simp add: f)
  obtain r' where "update_instance_row env d u ?r0 = (Inr (), r')"
    using on by (auto simp: on_instance_def f Let_def split: prod.splits)
  from update_instance_row_result [OF this] d row this show ?thesis by auto
qed


lemma definition_type: "get_provider_definition t = Inr d \<Longrightarrow> pd_provider_type d = t"
  by (auto simp: get_provider_definition_def dest: row_by_Some split: option.splits)

lemma fresh_secrets: "decrypt_secrets env d (Some (fresh_instance env t i)) = []"
  by (simp add: decrypt_secrets_def bag_of_def decrypted_text_def fresh_instance_def)

lemma decrypt_secrets_default:
  "decrypt_secrets env d (Some (case row of None \<Rightarrow> fresh_instance env t i | Some r \<Rightarrow> r)) = decrypt_secrets env d row"
  by (simp add: fresh_secrets split: option.split) (simp add: decrypt_secrets_def)

lemma decrypt_secrets_updated_at: "decrypt_secrets env d (Some (r\<lparr>ir_updated_at := n\<rparr>)) = decrypt_secrets env d (Some r)"
  by (simp add: decrypt_secrets_def bag_of_def)

lemma primary_apart_same: "same_secrets r r' \<Longrightarrow> primary_apart env d (Some r') = primary_apart env d (Some r)"
  by (simp add: primary_apart_def bag_of_def same_secrets_def)

lemma primary_apart_default:
  "primary_apart env d (Some (case row of None \<Rightarrow> fresh_instance env t i | Some r \<Rightarrow> r)) = primary_apart env d row"
  by (simp add: primary_apart_def bag_of_def fresh_instance_def decrypted_text_def split: option.split)

lemma primary_apart_written:
  assumes "settings_env_ok c env" and "clean (pd_primary_secret_key d) m"
  shows "primary_apart env d (Some (r\<lparr>ir_secrets_ciphertext := stored_bag env c (pd_primary_secret_key d) m\<rparr>))"
  using decrypted_bag [OF assms, of r] by (auto simp: primary_apart_def map_of_eq_None_iff secondary_def)

lemma primary_apart_updated_at: "primary_apart env d (Some (r\<lparr>ir_updated_at := n\<rparr>)) = primary_apart env d (Some r)"
  by (simp add: primary_apart_def bag_of_def)

text \<open>
  C4. After an update of an on-demand provider the runtime configuration holds, for every key - the primary
  secret's, which has a column of its own, and every other - the secret the request gave (stripped; a blank
  one removes it), no secret when the request clears the key, and otherwise the secret it held before.
  The encryption key is configured, the cipher and the JSON text read back what they wrote, and the primary secret is
  not also in the encrypted bag of the others; every update leaves it so.
\<close>
theorem updated_secrets_read_back:
  assumes "update_provider_instance env t i u s = (Inr v, s')" and "t \<noteq> ''smsbower_gmail''"
    and "get_provider_definition t = Inr d" and "settings_env_ok c env" and "distinct (map fst (iu_secrets u))"
    and "primary_apart env d (instance_row_of t (effective_instance i) s)"
  shows "map_of (rt_secrets (instance_runtime env d (effective_instance i) s'))
     = spec_secrets (iu_secrets u) (iu_clear_secrets u) (map_of (rt_secrets (instance_runtime env d (effective_instance i) s)))
     \<and> primary_apart env d (instance_row_of t (effective_instance i) s')"
proof -
  let ?p = "pd_primary_secret_key d" and ?i = "effective_instance i"
  let ?old = "map_of (rt_secrets (instance_runtime env d ?i s))"
  obtain r r2 where r: "same_secrets (case instance_row_of t ?i s of None \<Rightarrow> fresh_instance env t ?i | Some r0 \<Rightarrow> r0) r"
    and w: "write_secrets env d (iu_secrets u) (iu_clear_secrets u) r = (Inr (), r2)"
    and row: "instance_row_of t ?i s' = Some (r2\<lparr>ir_updated_at := stg_now env\<rparr>)"
    using updated_instance [OF assms(1,2)] assms(3) by auto
  have c: "stg_cipher env = Some c" using assms(4) by (simp add: settings_env_ok_def)
  have old: "map_of (decrypt_secrets env d (Some r)) = ?old"
    using decrypt_secrets_same [OF r, of env d] definition_type [OF assms(3)]
    by (simp add: fun_eq_iff runtime_secret decrypt_secrets_default)
  have p: "primary_text env r = ?old ?p"
    using primary_secret [of env d r] primary_apart_same [OF r] assms(6) old by (simp add: primary_apart_default)
  obtain m where m: "clean ?p m" "map_of m = spec_secrets (iu_secrets u) (iu_clear_secrets u) ?old"
    and r2: "r2 = (stored_primary c ?p (iu_secrets u) (if ?p \<in> set (iu_clear_secrets u) then r\<lparr>ir_api_key_ciphertext := None\<rparr> else r))
        \<lparr>ir_secrets_ciphertext := stored_bag env c ?p m\<rparr>"
    using write_secrets_result [OF w c assms(5)] old by metis
  have "map_of (rt_secrets (instance_runtime env d ?i s')) k = spec_secrets (iu_secrets u) (iu_clear_secrets u) ?old k" for k
  proof -
    have "map_of (rt_secrets (instance_runtime env d ?i s')) k = map_of (decrypt_secrets env d (Some r2)) k"
      using row definition_type [OF assms(3)] by (simp add: runtime_secret decrypt_secrets_updated_at)
    then show ?thesis
      unfolding r2 decrypt_secrets_written [OF assms(4) m(1)]
      using m(2) primary_text_stored [of c env "iu_secrets u" ?p "iu_clear_secrets u" r ?old] assms(4) p by simp
  qed
  moreover have "primary_apart env d (instance_row_of t ?i s')"
    unfolding row primary_apart_updated_at r2 by (rule primary_apart_written [OF assms(4) m(1)])
  ultimately show ?thesis by auto
qed

text \<open>
  Without the encryption key an update still succeeds, whatever it is about, and erases the stored
  secondary secrets of the instance: the secrets it cannot read are written back as none.
\<close>
theorem keyless_update_erases_secrets:
  assumes "update_provider_instance env t i u s = (Inr v, s')" and "t \<noteq> ''smsbower_gmail''" and "stg_cipher env = None"
  shows "map_option ir_secrets_ciphertext (instance_row_of t (effective_instance i) s') = Some None"
proof -
  obtain d r r2 where w: "write_secrets env d (iu_secrets u) (iu_clear_secrets u) r = (Inr (), r2)"
    and row: "instance_row_of t (effective_instance i) s' = Some (r2\<lparr>ir_updated_at := stg_now env\<rparr>)"
    using updated_instance [OF assms(1,2)] by auto
  from w have "ir_secrets_ciphertext r2 = None"
    using assms(3) by (auto simp: write_secrets_def store_bag_def need_cipher_run modify_run Let_def split: prod.splits if_splits)
  with row show ?thesis by simp
qed


subsection \<open>What the administrator sees is what the provider needs\<close>

definition readable_key :: "settings_cipher \<Rightarrow> string option \<Rightarrow> bool" where
  "readable_key c v \<longleftrightarrow> v = None \<or> (\<exists>k. v = Some (sc_encrypt c k) \<and> strip k = k \<and> k \<noteq> [])"

definition readable_bag :: "settings_cipher \<Rightarrow> (json \<Rightarrow> string) \<Rightarrow> string option \<Rightarrow> bool" where
  "readable_bag c dumps v \<longleftrightarrow> v = None \<or>
     (\<exists>m. v = Some (sc_encrypt c (dumps (secret_bag m))) \<and> distinct (map fst m) \<and> (\<forall>(k, x) \<in> set m. strip x = x \<and> x \<noteq> []))"

definition readable_row :: "settings_cipher \<Rightarrow> (json \<Rightarrow> string) \<Rightarrow> instance_row \<Rightarrow> bool" where
  "readable_row c dumps r \<longleftrightarrow> readable_key c (ir_api_key_ciphertext r) \<and> readable_bag c dumps (ir_secrets_ciphertext r)"

definition keyed_with :: "settings_cipher \<Rightarrow> (json \<Rightarrow> string) \<Rightarrow> (string \<Rightarrow> json option) \<Rightarrow> settings_env \<Rightarrow> bool" where
  "keyed_with c dumps loads env \<longleftrightarrow> stg_cipher env = Some c \<and> stg_dumps env = dumps \<and> stg_loads env = loads"

inductive settings_step ::
    "settings_cipher \<Rightarrow> (json \<Rightarrow> string) \<Rightarrow> (string \<Rightarrow> json option) \<Rightarrow> db \<Rightarrow> db \<Rightarrow> bool" for c dumps loads where
  instance_updated: "keyed_with c dumps loads env \<Longrightarrow> distinct (map fst (iu_secrets u)) \<Longrightarrow>
     settings_step c dumps loads s (snd (admin_update_provider_instance env a t i u s))"
| smsbower_updated: "keyed_with c dumps loads env \<Longrightarrow>
     settings_step c dumps loads s (snd (admin_update_smsbower_settings env a names b s))"

lemma readable_stored_primary: "readable_row c dumps r \<Longrightarrow> readable_row c dumps (stored_primary c p kvs r)"
  by (auto simp: readable_row_def readable_key_def stored_primary_def split: option.split)

lemma readable_written:
  assumes "write_secrets env d ss cs r0 = (res, r)" and "keyed_with c dumps loads env" and "distinct (map fst ss)"
    and "readable_row c dumps r0"
  shows "readable_row c dumps r"
proof -
  let ?p = "pd_primary_secret_key d"
  obtain m where m: "clean ?p m"
    and r: "r = (stored_primary c ?p ss (if ?p \<in> set cs then r0\<lparr>ir_api_key_ciphertext := None\<rparr> else r0))
        \<lparr>ir_secrets_ciphertext := stored_bag env c ?p m\<rparr>"
    using write_secrets_result [OF assms(1) _ assms(3)] assms(2) by (auto simp: keyed_with_def)
  have "readable_bag c dumps (stored_bag env c ?p m)"
    using clean_secondary [OF m] assms(2) by (auto simp: readable_bag_def stored_bag_def keyed_with_def)
  moreover have "readable_row c dumps (stored_primary c ?p ss (if ?p \<in> set cs then r0\<lparr>ir_api_key_ciphertext := None\<rparr> else r0))"
    using assms(4) by (intro readable_stored_primary) (auto simp: readable_row_def readable_key_def)
  ultimately show ?thesis unfolding r by (simp add: readable_row_def)
qed

lemma readable_same: "same_secrets r r' \<Longrightarrow> readable_row c dumps r' = readable_row c dumps r"
  by (simp add: readable_row_def same_secrets_def)

lemma readable_update_instance:
  assumes "update_instance_row env d u r0 = (Inr x, r)" and "keyed_with c dumps loads env" and "distinct (map fst (iu_secrets u))"
    and "readable_row c dumps r0"
  shows "readable_row c dumps r"
proof -
  obtain r1 r2 where "same_secrets r0 r1" "write_secrets env d (iu_secrets u) (iu_clear_secrets u) r1 = (Inr (), r2)"
    and r: "r = r2\<lparr>ir_updated_at := stg_now env\<rparr>"
    using update_instance_row_result [OF assms(1)] by blast
  with readable_written [OF _ assms(2,3)] assms(4) have "readable_row c dumps r2" by (simp add: readable_same)
  then show ?thesis by (simp add: r readable_row_def)
qed

lemma readable_seeded: "readable_row c dumps (seeded_row env s)" if "keyed_with c dumps loads env" "smsbower_row env s = None"
  using that
  by (auto simp: readable_row_def readable_key_def readable_bag_def seeded_row_def keyed_with_def Let_def
      resolve_smsbower_runtime_def environment_runtime_def dest: env_api_key_stripped split: option.split)

lemma readable_smsbower:
  assumes "update_smsbower_row env u r0 = (Inr x, r)" and "keyed_with c dumps loads env" and "readable_row c dumps r0"
  shows "readable_row c dumps r"
  using assms
  by (auto simp: update_smsbower_row_run set_api_key_def set_columns_def readable_row_def readable_key_def keyed_with_def run
      split: if_splits option.splits prod.splits sum.splits)

definition all_readable :: "settings_cipher \<Rightarrow> (json \<Rightarrow> string) \<Rightarrow> db \<Rightarrow> bool" where
  "all_readable c dumps s \<longleftrightarrow> (\<forall>r \<in> set (instance_settings s). readable_row c dumps r)"

lemma on_instance_readable:
  assumes "on_instance fresh upd s = (Inr x, t)" and "all_readable c dumps s"
    and "\<And>r0 r. upd r0 = (Inr x, r) \<Longrightarrow> readable_row c dumps r0 \<Longrightarrow> readable_row c dumps r"
    and "instance_row_of (ir_provider_type fresh) (ir_instance_id fresh) s = None \<Longrightarrow> readable_row c dumps fresh"
  shows "all_readable c dumps t"
proof -
  let ?r0 = "case instance_row_of (ir_provider_type fresh) (ir_instance_id fresh) s of None \<Rightarrow> fresh | Some r \<Rightarrow> r"
  have "readable_row c dumps ?r0"
    using assms(2,4) by (auto simp: all_readable_def dest: instance_row_key split: option.split)
  moreover obtain r where r: "upd ?r0 = (Inr x, r)"
    using assms(1) by (auto simp: on_instance_def Let_def split: prod.splits)
  ultimately have "readable_row c dumps r" using assms(3) by blast
  then show ?thesis
    using set_on_instance [OF assms(1)] assms(2) r by (auto simp: all_readable_def)
qed

lemma update_smsbower_readable:
  assumes "update_smsbower env b s = (Inr v, t)" and "keyed_with c dumps loads env" and "all_readable c dumps s"
  shows "all_readable c dumps t"
proof -
  have "on_instance (seeded_row env s) (update_smsbower_row env b) s = (Inr (), t)"
    using assms(1) by (auto simp: update_smsbower_def run split: prod.splits sum.splits)
  then show ?thesis
  proof (rule on_instance_readable [OF _ assms(3)])
    show "readable_row c dumps (seeded_row env s)"
      if "instance_row_of (ir_provider_type (seeded_row env s)) (ir_instance_id (seeded_row env s)) s = None"
      using that readable_seeded [OF assms(2), of s] by (simp add: smsbower_row_def) (simp add: seeded_row_def Let_def)
  qed (rule readable_smsbower [OF _ assms(2)])
qed

lemma update_provider_readable:
  assumes "update_provider_instance env t i u s = (Inr v, s')" and "keyed_with c dumps loads env"
    and "distinct (map fst (iu_secrets u))" and "all_readable c dumps s"
  shows "all_readable c dumps s'"
proof (cases "t = ''smsbower_gmail''")
  case True
  then obtain b v' where "update_smsbower env b s = (Inr v', s')"
    using assms(1) by (auto simp: update_provider_instance_def of_sum_def run split: prod.splits sum.splits)
  then show ?thesis by (rule update_smsbower_readable [OF _ assms(2,4)])
next
  case False
  then obtain d where "on_instance (fresh_instance env t (effective_instance i)) (update_instance_row env d u) s = (Inr (), s')"
    using assms(1) by (auto simp: update_provider_instance_def run split: prod.splits sum.splits)
  then show ?thesis
  proof (rule on_instance_readable [OF _ assms(4)])
    show "readable_row c dumps (fresh_instance env t (effective_instance i))"
      by (simp add: fresh_instance_def readable_row_def readable_key_def readable_bag_def)
  qed (rule readable_update_instance [OF _ assms(2,3)])
qed

lemma all_readable_audit [simp]: "all_readable c dumps (s\<lparr>audit_logs := l\<rparr>) = all_readable c dumps s"
  by (simp add: all_readable_def)

lemma settings_step_readable: "settings_step c dumps loads s t \<Longrightarrow> all_readable c dumps s \<Longrightarrow> all_readable c dumps t"
proof (induction rule: settings_step.induct)
  case (instance_updated env u s a t i)
  then show ?case
    using update_provider_readable [OF _ instance_updated(1,2), of t "Some i" s]
    by (auto simp: admin_update_provider_instance_def audit_settings_def write_audit_event_def run split: prod.splits sum.splits if_splits)
next
  case (smsbower_updated env s a names b)
  then show ?case
    using update_smsbower_readable [OF _ smsbower_updated(1), of b s]
    by (auto simp: admin_update_smsbower_settings_def audit_settings_def write_audit_event_def run split: prod.splits sum.splits)
qed

lemma settings_history_readable:
  "(settings_step c dumps loads)\<^sup>*\<^sup>* s t \<Longrightarrow> all_readable c dumps s \<Longrightarrow> all_readable c dumps t"
  by (induction rule: rtranclp_induct) (auto intro: settings_step_readable)

lemma strip_empty: "strip [] = []"
  by (simp add: strip_def lstrip_def rstrip_def)

lemma flag_is_secret:
  assumes "readable_row c dumps r" and "keyed_with c dumps loads env" and "cipher_ok (Some c)" and "texts_ok dumps loads"
  shows "secret_flag env d r k \<longleftrightarrow> strip (lookup (decrypt_secrets env d (Some r)) k) \<noteq> []"
proof -
  obtain m where m: "distinct (map fst m)" "\<forall>(k, x) \<in> set m. strip x = x \<and> x \<noteq> []"
    and bag: "bag_of env r = map (\<lambda>(k, x). (k, JStr x)) m"
  proof (cases "ir_secrets_ciphertext r")
    case None
    then show ?thesis using that [of "[]"] by (simp add: bag_of_def decrypted_text_def)
  next
    case (Some y)
    with assms(1) obtain m where "y = sc_encrypt c (dumps (secret_bag m))" "distinct (map fst m)"
        "\<forall>(k, x) \<in> set m. strip x = x \<and> x \<noteq> []"
      by (auto simp: readable_row_def readable_bag_def)
    with Some assms(2-4) show ?thesis
      by (intro that [of m]) (auto simp: bag_of_def decrypted_text_def keyed_with_def cipher_ok_def texts_ok_def secret_bag_def)
  qed
  have flagged: "list_ex (\<lambda>(k', v). k' = k \<and> strip (text_or_blank env v) \<noteq> []) (bag_of env r) \<longleftrightarrow> map_of m k \<noteq> None"
    using m(2) by (force simp: bag list_ex_iff map_of_eq_None_iff)
  have found: "map_of m k = Some x \<Longrightarrow> strip x \<noteq> []" for x
    using m(2) by (auto dest!: map_of_SomeD)
  obtain pk where pk: "ir_api_key_ciphertext r = map_option (sc_encrypt c) pk" "\<forall>x. pk = Some x \<longrightarrow> strip x \<noteq> []"
  proof (cases "ir_api_key_ciphertext r")
    case None
    then show ?thesis using that [of None] by simp
  next
    case (Some y)
    with assms(1) obtain x where "y = sc_encrypt c x" "strip x = x" "x \<noteq> []" by (auto simp: readable_row_def readable_key_def)
    with Some show ?thesis by (intro that [of "Some x"]) simp_all
  qed
  then have key: "decrypted_text env (ir_api_key_ciphertext r) = pk" "or_text (ir_api_key_ciphertext r) [] \<noteq> [] \<longleftrightarrow> pk \<noteq> None"
    using assms(2,3) by (auto simp: decrypted_text_def keyed_with_def cipher_ok_def or_text_def split: option.splits)
  have "map_of (decrypt_secrets env d (Some r)) k
      = (case map_of m k of Some x \<Rightarrow> Some x | None \<Rightarrow> if k = pd_primary_secret_key d then pk else None)"
    using m by (auto simp: decrypt_secrets_def bag map_of_merge_texts key(1) split: option.split)
  then show ?thesis
    using found pk(2) by (auto simp: strip_empty secret_flag_def flagged key(2) lookup_def split: option.splits)
qed

definition shown_configured :: "provider_view \<Rightarrow> field_schema \<Rightarrow> bool" where
  \<comment> \<open>what the administrator's view shows of a field: a set flag, or a value that is not empty\<close>
  "shown_configured v f =
     (if fs_secret f then map_of (vw_secret_flags v) (fs_key f) = Some True
      else (case map_of (vw_values v) (fs_key f) of None \<Rightarrow> False | Some x \<Rightarrow> x \<notin> {JNull, JStr [], JArr []}))"

lemma map_of_flags: "fs_secret f \<Longrightarrow> f \<in> set fs \<Longrightarrow> map_of (map (\<lambda>f. (fs_key f, q (fs_key f))) (filter fs_secret fs)) (fs_key f) = Some (q (fs_key f))"
  by (induction fs) auto

lemma lookup_cong: "map_of xs k = map_of ys k \<Longrightarrow> lookup xs k = lookup ys k"
  by (simp add: lookup_def)

text \<open>
  C3. Over any history of settings requests that starts without settings and uses one encryption key, the
  administrator's view of an on-demand provider tells exactly whether the provider can be used: its
  mailbox operations pass the configuration check if and only if the view shows the provider enabled and
  every required field set.
\<close>
theorem settings_view_tells_usable:
  assumes "(settings_step c dumps loads)\<^sup>*\<^sup>* s t" and "instance_settings s = []"
    and "cipher_ok (Some c)" and "texts_ok dumps loads" and "keyed_with c dumps loads env" and "ty \<noteq> ''smsbower_gmail''"
    and "get_provider_admin_view env ty i t = Inr v" and "resolve_on_demand_runtime env ty i t = Inr rt"
    and "get_provider_definition ty = Inr d"
  shows "require_configured rt d n = (Inr (), n) \<longleftrightarrow> vw_enabled v \<and> list_all (shown_configured v) (filter fs_required (vw_fields v))"
proof -
  let ?i = "effective_instance i"
  have v: "v = instance_view env d ?i t" and rt: "rt = instance_runtime env d ?i t"
    using assms(6-9) by (simp_all add: get_provider_admin_view_def resolve_on_demand_runtime_def)
  have ready: "all_readable c dumps t"
    by (rule settings_history_readable [OF assms(1)]) (simp add: all_readable_def assms(2))
  have same: "field_present rt f = shown_configured v f" if "f \<in> set (pd_fields d)" for f
  proof (cases "fs_secret f")
    case False
    then show ?thesis
      by (simp add: field_present_def shown_configured_def v rt instance_view_def instance_runtime_def Let_def)
  next
    case secret: True
    let ?row = "instance_row_of (pd_provider_type d) ?i t"
    have secret_of: "lookup (rt_secrets rt) (fs_key f) = lookup (decrypt_secrets env d ?row) (fs_key f)"
      unfolding rt by (rule lookup_cong [OF runtime_secret])
    show ?thesis
    proof (cases ?row)
      case None
      with strip_empty show ?thesis
        using secret map_of_flags [OF secret that, of "\<lambda>_. False"] secret_of
        by (simp add: field_present_def shown_configured_def v instance_view_def read_instance_fields_def Let_def
            decrypt_secrets_def lookup_def)
    next
      case (Some r)
      then have "readable_row c dumps r" using ready by (auto simp: all_readable_def dest: instance_row_key)
      from flag_is_secret [OF this assms(5,3,4), of d "fs_key f"] Some show ?thesis
        using secret map_of_flags [OF secret that, of "secret_flag env d r"] secret_of
        by (simp add: field_present_def shown_configured_def v instance_view_def read_instance_fields_def Let_def)
    qed
  qed
  have enabled: "rt_enabled rt = vw_enabled v" by (simp add: v rt instance_view_def instance_runtime_def Let_def)
  have fields: "vw_fields v = pd_fields d" by (simp add: v instance_view_def Let_def)
  have "require_configured rt d n = (Inr (), n)
      \<longleftrightarrow> rt_enabled rt \<and> find (\<lambda>f. fs_required f \<and> \<not> field_present rt f) (pd_fields d) = None"
    by (auto simp: require_configured_def run split: option.splits)
  also have "\<dots> \<longleftrightarrow> vw_enabled v \<and> list_all (shown_configured v) (filter fs_required (vw_fields v))"
    using same by (auto simp: enabled fields find_None_iff list_all_iff)
  finally show ?thesis .
qed


subsection \<open>Runs\<close>

text \<open>
  A text of string dictionaries that is read back: every character is marked, every string is ended, and
  a dictionary is the texts of its keys and values.
\<close>

fun encode_text :: "string \<Rightarrow> string" where
  "encode_text [] = ''.''"
| "encode_text (x # xs) = CHR ''_'' # x # encode_text xs"

fun decode_text :: "string \<Rightarrow> string \<Rightarrow> string \<times> string" where
  "decode_text acc (a # b # xs) = (if a = CHR ''_'' then decode_text (acc @ [b]) xs else (acc, b # xs))"
| "decode_text acc [a] = (acc, [])"
| "decode_text acc [] = (acc, [])"

lemma decode_encode: "decode_text acc (encode_text x @ rest) = (acc @ x, rest)"
proof (induction x arbitrary: acc)
  case Nil
  then show ?case by (cases rest) simp_all
next
  case (Cons a x)
  then show ?case by simp
qed

fun encode_dict :: "(string \<times> json) list \<Rightarrow> string" where
  "encode_dict [] = []"
| "encode_dict ((k, v) # kvs) = encode_text k @ encode_text (case v of JStr x \<Rightarrow> x | _ \<Rightarrow> []) @ encode_dict kvs"

fun decode_dict :: "nat \<Rightarrow> string \<Rightarrow> (string \<times> json) list" where
  \<comment> \<open>at most as many entries as characters\<close>
  "decode_dict 0 s = []"
| "decode_dict (Suc n) s =
     (if s = [] then [] else case decode_text [] s of (k, s1) \<Rightarrow> case decode_text [] s1 of (x, s2) \<Rightarrow> (k, JStr x) # decode_dict n s2)"

lemma encode_text_ne [simp]: "encode_text x \<noteq> []"
  by (cases x) simp_all

lemma decode_encode_dict: "length m \<le> n \<Longrightarrow> decode_dict n (encode_dict (map (\<lambda>(k, x). (k, JStr x)) m)) = map (\<lambda>(k, x). (k, JStr x)) m"
proof (induction m arbitrary: n)
  case Nil
  then show ?case by (cases n) simp_all
next
  case (Cons a m)
  then show ?case by (cases n) (auto simp: decode_encode split: prod.split)
qed

lemma length_encode_dict: "length kvs \<le> length (encode_dict kvs)"
proof (induction kvs rule: encode_dict.induct)
  case (2 k v kvs)
  have "0 < length (encode_text k)" by simp
  with 2 show ?case by (simp del: length_greater_0_conv)
qed simp

definition toy_dumps :: "json \<Rightarrow> string" where
  "toy_dumps v = (case v of JObj kvs \<Rightarrow> encode_dict kvs | _ \<Rightarrow> [])"

definition toy_loads :: "string \<Rightarrow> json option" where
  "toy_loads s = Some (JObj (decode_dict (length s) s))"

lemma toy_texts_ok: "texts_ok toy_dumps toy_loads"
proof -
  have "toy_loads (toy_dumps (secret_bag m)) = Some (secret_bag m)" for m
    using length_encode_dict [of "map (\<lambda>(k, x). (k, JStr x)) m"]
    by (simp add: toy_loads_def toy_dumps_def secret_bag_def decode_encode_dict)
  then show ?thesis by (simp add: texts_ok_def)
qed

definition marking_cipher :: settings_cipher where
  "marking_cipher = \<lparr>sc_encrypt = (\<lambda>x. CHR ''#'' # x),
     sc_decrypt = (\<lambda>x. case x of [] \<Rightarrow> None | c # y \<Rightarrow> if c = CHR ''#'' then Some y else None)\<rparr>"

lemma marking_cipher_ok: "cipher_ok (Some marking_cipher)"
  by (simp add: cipher_ok_def marking_cipher_def)

definition settings_sample :: "settings_cipher option \<Rightarrow> settings_env" where
  "settings_sample z = \<lparr>stg_cfg = \<lparr>cfg_smsbower_enabled = False, cfg_smsbower_api_base = ''smsbower.app/api/mail/'',
       cfg_smsbower_api_key = Some ''env-key'', cfg_smsbower_service = ''openai'', cfg_smsbower_domain = ''gmail.com'',
       cfg_smsbower_max_price = Some 2, cfg_smsbower_instance_id = ''default'', cfg_smsbower_request_timeout_seconds = 30\<rparr>,
     stg_cipher = z, stg_now = 5, stg_str = (\<lambda>_. ''?''), stg_parse_float = (\<lambda>_. None), stg_dumps = toy_dumps, stg_loads = toy_loads\<rparr>"

lemma sample_env_ok: "settings_env_ok marking_cipher (settings_sample (Some marking_cipher))"
  and sample_keyed: "keyed_with marking_cipher toy_dumps toy_loads (settings_sample (Some marking_cipher))"
  using marking_cipher_ok toy_texts_ok by (simp_all add: settings_env_ok_def keyed_with_def settings_sample_def)

definition plain_update :: smsbower_update where
  "plain_update = \<lparr>bu_enabled = None, bu_api_base = None, bu_service = None, bu_domain = None, bu_max_price = None,
     bu_clear_max_price = False, bu_request_timeout_seconds = None, bu_api_key = None, bu_clear_api_key = False\<rparr>"

definition set_price_and_key :: smsbower_update where
  "set_price_and_key = plain_update\<lparr>bu_service := Some '' amazon '', bu_max_price := Some 3, bu_api_key := Some '' k1 ''\<rparr>"

definition clear_price_and_key :: smsbower_update where
  "clear_price_and_key = plain_update\<lparr>bu_clear_max_price := True, bu_clear_api_key := True\<rparr>"

definition unset_sample :: settings_env where
  \<comment> \<open>an environment with neither a key nor a price limit\<close>
  "unset_sample = (let e = settings_sample (Some marking_cipher) in
     e\<lparr>stg_cfg := (stg_cfg e)\<lparr>cfg_smsbower_api_key := None, cfg_smsbower_max_price := None\<rparr>\<rparr>)"

lemma smsbower_update_returns:
  "\<exists>t v. update_smsbower unset_sample set_price_and_key s = (Inr v, t)"
  "\<exists>t v. update_smsbower unset_sample clear_price_and_key s = (Inr v, t)"
proof -
  have c: "stg_cipher unset_sample = Some marking_cipher" by (simp add: unset_sample_def settings_sample_def Let_def)
  show "\<exists>t v. update_smsbower unset_sample set_price_and_key s = (Inr v, t)"
    by (auto simp: update_smsbower_def on_instance_def update_smsbower_row_run set_api_key_def set_price_and_key_def plain_update_def
        run c Let_def split: prod.splits sum.splits option.splits)
  show "\<exists>t v. update_smsbower unset_sample clear_price_and_key s = (Inr v, t)"
    by (auto simp: update_smsbower_def on_instance_def update_smsbower_row_run set_api_key_def clear_price_and_key_def plain_update_def
        run c Let_def split: prod.splits sum.splits option.splits)
qed

theorem smsbower_update_overrides_witness:
  "\<exists>t t' v v'. update_smsbower unset_sample set_price_and_key empty_db = (Inr v, t)
     \<and> sr_api_key (resolve_smsbower_runtime unset_sample t) = Some ''k1'' \<and> sr_max_price (resolve_smsbower_runtime unset_sample t) = Some 3
     \<and> update_smsbower unset_sample clear_price_and_key t = (Inr v', t')
     \<and> sr_api_key (resolve_smsbower_runtime unset_sample t') = None \<and> sr_max_price (resolve_smsbower_runtime unset_sample t') = None
     \<and> sr_service (resolve_smsbower_runtime unset_sample t') = ''amazon''"
proof -
  let ?e = unset_sample
  obtain t v where t: "update_smsbower ?e set_price_and_key empty_db = (Inr v, t)" using smsbower_update_returns(1) by blast
  obtain t' v' where t': "update_smsbower ?e clear_price_and_key t = (Inr v', t')" using smsbower_update_returns(2) by blast
  have c: "cipher_ok (stg_cipher ?e)" using marking_cipher_ok by (simp add: unset_sample_def settings_sample_def Let_def)
  have env: "env_api_key ?e = None" "cfg_smsbower_max_price (stg_cfg ?e) = None"
    by (simp_all add: env_api_key_def unset_sample_def settings_sample_def Let_def or_text_def nonempty_def, code_simp)
  have text_: "strip '' k1 '' = ''k1''" "strip '' amazon '' = ''amazon''" by code_simp+
  have kept: "\<not> clears_key set_price_and_key" using text_ by (simp add: clears_key_def set_price_and_key_def plain_update_def)
  obtain rt where rt: "resolve_smsbower_runtime ?e t = requested set_price_and_key rt"
    using smsbower_update_overrides [OF t c] kept by (auto simp: set_price_and_key_def plain_update_def)
  have row: "smsbower_row ?e t \<noteq> None" using smsbower_row_updated [OF t] by auto
  have "resolve_smsbower_runtime ?e t' = requested clear_price_and_key (resolve_smsbower_runtime ?e t)"
    using smsbower_update_overrides [OF t' c] env row by (auto simp: clear_price_and_key_def plain_update_def)
  then have "sr_api_key (resolve_smsbower_runtime ?e t') = None" "sr_max_price (resolve_smsbower_runtime ?e t') = None"
    "sr_service (resolve_smsbower_runtime ?e t') = sr_service (resolve_smsbower_runtime ?e t)"
    by (simp_all add: requested_def clear_price_and_key_def plain_update_def chosen_def clears_key_def)
  moreover have "sr_api_key (resolve_smsbower_runtime ?e t) = Some ''k1''" "sr_max_price (resolve_smsbower_runtime ?e t) = Some 3"
    "sr_service (resolve_smsbower_runtime ?e t) = ''amazon''"
    using kept text_ by (simp_all add: rt requested_def set_price_and_key_def plain_update_def chosen_def or_text_def)
  ultimately show ?thesis using t t' by auto
qed

definition cloudflare_update :: instance_update where
  "cloudflare_update = \<lparr>iu_enabled = Some True,
     iu_values = [(''api_base'', JStr '' https://cf.io ''), (''domain'', JStr ''a.io, b.io'')],
     iu_secrets = [(''admin_password'', '' pw ''), (''jwt'', ''j'')], iu_clear_secrets = []\<rparr>"

definition configured_db :: db where
  "configured_db = snd (admin_update_provider_instance (settings_sample (Some marking_cipher)) ''adm'' ''cloudflare_temp_email'' ''default''
     cloudflare_update empty_db)"

text \<open>The generic request reaches the SMSBower row of the environment whatever instance it names.\<close>

lemma smsbower_instance_ignored: "update_provider_instance env ''smsbower_gmail'' i u = update_provider_instance env ''smsbower_gmail'' j u"
  by (simp add: update_provider_instance_def)


definition cloudflare_run :: "db \<Rightarrow> (settings_error + provider_view) \<times> db" where
  "cloudflare_run = update_provider_instance (settings_sample (Some marking_cipher)) ''cloudflare_temp_email'' (Some ''default'') cloudflare_update"

lemma cloudflare_returns: "map_prod (map_sum id vw_enabled) (\<lambda>_. ()) (cloudflare_run empty_db) = (Inr True, ())"
  by code_simp

lemma cloudflare_definition:
  "map_sum id pd_primary_secret_key (get_provider_definition ''cloudflare_temp_email'') = Inr ''admin_password''"
  by code_simp

definition jwt_update :: "db \<Rightarrow> (settings_error + provider_view) \<times> db" where
  \<comment> \<open>names neither the primary secret nor a value\<close>
  "jwt_update = update_provider_instance (settings_sample (Some marking_cipher)) ''cloudflare_temp_email'' (Some ''default'')
     \<lparr>iu_enabled = None, iu_values = [], iu_secrets = [(''jwt'', ''j2'')], iu_clear_secrets = []\<rparr>"

lemma jwt_returns: "map_prod (map_sum id vw_enabled) (\<lambda>_. ()) (jwt_update (snd (cloudflare_run empty_db))) = (Inr True, ())"
  by code_simp

theorem updated_secrets_read_back_witness:
  "\<exists>v t v' t' d. cloudflare_run empty_db = (Inr v, t) \<and> jwt_update t = (Inr v', t')
     \<and> get_provider_definition ''cloudflare_temp_email'' = Inr d
     \<and> map_of (rt_secrets (instance_runtime (settings_sample (Some marking_cipher)) d ''default'' t')) ''admin_password'' = Some ''pw''
     \<and> map_of (rt_secrets (instance_runtime (settings_sample (Some marking_cipher)) d ''default'' t')) ''jwt'' = Some ''j2''"
proof -
  let ?e = "settings_sample (Some marking_cipher)"
  obtain v t where r: "cloudflare_run empty_db = (Inr v, t)"
    using cloudflare_returns by (cases "cloudflare_run empty_db") (auto simp: map_sum_def split: sum.splits)
  then obtain v' t' where r': "jwt_update t = (Inr v', t')"
    using jwt_returns by (cases "jwt_update t") (auto simp: map_sum_def split: sum.splits)
  obtain d where d: "get_provider_definition ''cloudflare_temp_email'' = Inr d" "pd_primary_secret_key d = ''admin_password''"
    using cloudflare_definition by (auto simp: map_sum_def split: sum.splits)
  have i: "effective_instance (Some ''default'') = ''default''" and pw: "strip '' pw '' = ''pw''" "strip ''j2'' = ''j2''" by code_simp+
  have e: "primary_apart ?e d (instance_row_of ''cloudflare_temp_email'' ''default'' empty_db)"
    by (simp add: primary_apart_def instance_row_of_def empty_db_def row_by_def)
  from updated_secrets_read_back [OF r [unfolded cloudflare_run_def] _ d(1) sample_env_ok, unfolded i] e
  have one: "map_of (rt_secrets (instance_runtime ?e d ''default'' t)) ''admin_password'' = Some ''pw''"
      "primary_apart ?e d (instance_row_of ''cloudflare_temp_email'' ''default'' t)"
    using pw by (simp_all add: cloudflare_update_def spec_secrets_def)
  from updated_secrets_read_back [OF r' [unfolded jwt_update_def] _ d(1) sample_env_ok, unfolded i] one
  have "map_of (rt_secrets (instance_runtime ?e d ''default'' t')) ''admin_password'' = Some ''pw''"
    "map_of (rt_secrets (instance_runtime ?e d ''default'' t')) ''jwt'' = Some ''j2''"
    using pw by (simp_all add: spec_secrets_def)
  with r r' d(1) show ?thesis by blast
qed

definition keyless_enable :: "db \<Rightarrow> (settings_error + provider_view) \<times> db" where
  "keyless_enable = update_provider_instance (settings_sample None) ''cloudflare_temp_email'' (Some ''default'')
     \<lparr>iu_enabled = Some False, iu_values = [], iu_secrets = [], iu_clear_secrets = []\<rparr>"

theorem keyless_update_erases_secrets_witness:
  "map_option (\<lambda>r. ir_secrets_ciphertext r \<noteq> None) (instance_row_of ''cloudflare_temp_email'' ''default'' (snd (cloudflare_run empty_db))) = Some True
   \<and> map_option ir_secrets_ciphertext (instance_row_of ''cloudflare_temp_email'' ''default'' (snd (keyless_enable (snd (cloudflare_run empty_db))))) = Some None"
proof
  show "map_option (\<lambda>r. ir_secrets_ciphertext r \<noteq> None) (instance_row_of ''cloudflare_temp_email'' ''default'' (snd (cloudflare_run empty_db))) = Some True"
    by code_simp
  have "map_prod (map_sum id vw_enabled) (\<lambda>_. ()) (keyless_enable (snd (cloudflare_run empty_db))) = (Inr False, ())"
    by code_simp
  then obtain v t where r: "keyless_enable (snd (cloudflare_run empty_db)) = (Inr v, t)"
    by (cases "keyless_enable (snd (cloudflare_run empty_db))") (auto simp: map_sum_def split: sum.splits)
  have i: "effective_instance (Some ''default'') = ''default''" by code_simp
  from keyless_update_erases_secrets [OF r [unfolded keyless_enable_def]] r i
  show "map_option ir_secrets_ciphertext (instance_row_of ''cloudflare_temp_email'' ''default'' (snd (keyless_enable (snd (cloudflare_run empty_db))))) = Some None"
    by (simp add: settings_sample_def)
qed

lemma configured_view:
  "map_sum id (\<lambda>v. vw_enabled v \<and> list_all (shown_configured v) (filter fs_required (vw_fields v)))
     (get_provider_admin_view (settings_sample (Some marking_cipher)) ''cloudflare_temp_email'' None configured_db) = Inr True"
  by code_simp

theorem settings_view_tells_usable_witness:
  "\<exists>rt d. resolve_on_demand_runtime (settings_sample (Some marking_cipher)) ''cloudflare_temp_email'' None configured_db = Inr rt
     \<and> get_provider_definition ''cloudflare_temp_email'' = Inr d \<and> require_configured rt d 0 = (Inr (), 0)"
proof -
  let ?e = "settings_sample (Some marking_cipher)" and ?ty = "''cloudflare_temp_email''"
  obtain v where v: "get_provider_admin_view ?e ?ty None configured_db = Inr v"
      "vw_enabled v \<and> list_all (shown_configured v) (filter fs_required (vw_fields v))"
    using configured_view by (auto simp: map_sum_def split: sum.splits)
  obtain d where d: "get_provider_definition ?ty = Inr d" using cloudflare_definition by (auto simp: map_sum_def split: sum.splits)
  obtain rt where rt: "resolve_on_demand_runtime ?e ?ty None configured_db = Inr rt" by (simp add: resolve_on_demand_runtime_def d)
  have step: "(settings_step marking_cipher toy_dumps toy_loads)\<^sup>*\<^sup>* empty_db configured_db"
    unfolding configured_db_def
    by (rule r_into_rtranclp, rule settings_step.instance_updated [OF sample_keyed]) (simp add: cloudflare_update_def)
  have "require_configured rt d 0 = (Inr (), 0)"
    using settings_view_tells_usable [OF step _ marking_cipher_ok toy_texts_ok sample_keyed _ v(1) rt d, of 0] v(2)
    by (simp add: empty_db_def)
  with rt d show ?thesis by blast
qed

end
