(* ===== verification/ProviderHealth.thy ===== *)
theory ProviderHealth
  imports ProviderSettings Security
begin

text \<open>
  The health of the provider instances (\<open>provider_health_service.py\<close>): the inventory count of the
  Microsoft mailboxes, the configuration check of SMSBower, and the on-demand probe, which lists the domains
  of an instance from its settings or from its remote interface. The JSON client
  (\<open>providers/http_client.py\<close>) is written out over the answer of \<open>httpx\<close>; a database that
  cannot be reached is not modelled.
\<close>

subsection \<open>The JSON client\<close>

datatype httpx_reply = HttpxError | HttpxReply int string string   \<comment> \<open>status, content type, text\<close>

definition client_json :: "(string \<Rightarrow> json option) \<Rightarrow> od_request \<Rightarrow> httpx_reply \<Rightarrow> json option" where
  \<comment> \<open>\<open>HttpxJsonHttpClient.request_json\<close>; \<open>None\<close>: it raises \<open>ProviderHttpError\<close>\<close>
  "client_json parse q reply =
     (case reply of
        HttpxError \<Rightarrow> None
      | HttpxReply status content_type body \<Rightarrow>
          if status \<notin> set (rq_expected q) then None
          else if status = 204 \<or> strip body = [] then Some (JObj [])
          else if contains (lower_str content_type) ''application/json'' \<or> contains ''{['' (take 1 body) then parse body
          else Some (JStr body))"

definition with_client :: "(string \<Rightarrow> json option) \<Rightarrow> (nat \<Rightarrow> od_request \<Rightarrow> httpx_reply) \<Rightarrow> od_env \<Rightarrow> od_env" where
  \<comment> \<open>the environment of the adapters whose requests go through this client\<close>
  "with_client parse httpx env = env\<lparr>oe_http := (\<lambda>n q. client_json parse q (httpx n q))\<rparr>"

subsection \<open>Domains\<close>

definition item_domain :: "od_env \<Rightarrow> json \<Rightarrow> string list" where
  "item_domain env v =
     (case v of
        JStr x \<Rightarrow> if strip x = [] then [] else [strip x]
      | JObj kvs \<Rightarrow> (let domain = jor [jget v ''domain'', jget v ''name'', jget v ''id''] in
          if truthy domain then [strip (py_str (oe_lib env) domain)] else [])
      | _ \<Rightarrow> [])"

definition nested_keys :: "string list" where
  "nested_keys = [''domains'', ''items'', ''data'', ''results'']"

function domains_from_payload :: "od_env \<Rightarrow> json \<Rightarrow> string list" where
  "domains_from_payload env v =
     (case v of
        JArr vs \<Rightarrow> filter (\<lambda>x. x \<noteq> []) (concat (map (item_domain env) vs))
      | JObj kvs \<Rightarrow>
          (case find (\<lambda>k. jget (JObj kvs) k \<noteq> JNull) nested_keys of
             Some k \<Rightarrow> domains_from_payload env (jget (JObj kvs) k)
           | None \<Rightarrow> (case jget (JObj kvs) ''domain'' of JStr x \<Rightarrow> if strip x = [] then [] else [strip x] | _ \<Rightarrow> []))
      | _ \<Rightarrow> [])"
  by pat_completeness auto

termination domains_from_payload
  by (relation "measure (size \<circ> snd)") (auto simp: find_Some_iff dest: map_of_size split: option.splits)

declare domains_from_payload.simps [simp del]

definition string_list_from_runtime :: "od_env \<Rightarrow> od_runtime \<Rightarrow> string \<Rightarrow> string list" where
  "string_list_from_runtime env rt k =
     (case map_of (rt_values rt) k of
        Some (JStr x) \<Rightarrow> nonblank (split_on (\<lambda>c. c = CHR '','') [] (map (\<lambda>c. if c = newline then CHR '','' else c) x))
      | Some (JArr vs) \<Rightarrow> nonblank (map (py_str (oe_lib env)) vs)
      | _ \<Rightarrow> [])"

definition auth_headers_for_runtime :: "od_runtime \<Rightarrow> (string \<times> string) list" where
  \<comment> \<open>the first secret that is not blank decides\<close>
  "auth_headers_for_runtime rt =
     (let value = (\<lambda>k. strip (lookup (rt_secrets rt) k)) in
      accept_json # (case find (\<lambda>k. value k \<noteq> []) [''api_key'', ''admin_password'', ''jwt'', ''token''] of
          None \<Rightarrow> []
        | Some k \<Rightarrow> if k = ''admin_password'' then [(''x-admin-auth'', value k), bearer (value k)]
                    else [bearer (value k), (''X-API-Key'', value k)]))"

fun first_domains :: "od_env \<Rightarrow> (string \<times> string) list \<Rightarrow> od_error option \<Rightarrow> string list \<Rightarrow> string list adapter" where
  \<comment> \<open>the candidate endpoints in order; the last error is raised when none lists a domain\<close>
  "first_domains env headers failure [] = (case failure of None \<Rightarrow> ret [] | Some e \<Rightarrow> throw e)"
| "first_domains env headers failure (url # urls) =
     (\<lambda>n. case http_get env url headers [] n of
        (Inl e, n') \<Rightarrow> first_domains env headers (Some e) urls n'
      | (Inr v, n') \<Rightarrow>
          (if domains_from_payload env v \<noteq> [] then (Inr (domains_from_payload env v), n')
           else first_domains env headers failure urls n'))"

definition configured_domains :: "od_env \<Rightarrow> od_runtime \<Rightarrow> string list" where
  "configured_domains env rt =
     (if string_list_from_runtime env rt ''domain'' \<noteq> [] then string_list_from_runtime env rt ''domain''
      else if string_list_from_runtime env rt ''cf_domain'' \<noteq> [] then string_list_from_runtime env rt ''cf_domain''
      else let x = strip (py_str (oe_lib env) (jor [rt_value rt ''default_domain'' JNull, JStr []])) in if x = [] then [] else [x])"

definition list_on_demand_domains :: "od_env \<Rightarrow> od_runtime \<Rightarrow> string list adapter" where
  "list_on_demand_domains env rt =
     (let t = rt_provider_type rt; api_base = rstrip_slash (value_text env rt ''api_base'' []) in
      if configured_domains env rt \<noteq> [] then ret (configured_domains env rt)
      else if t = ''duckmail'' then
        bnd (http_get env ''https://api.duckmail.sbs/domains'' [] []) (\<lambda>v. ret (domains_from_payload env v))
      else if t = ''gptmail'' \<or> t = ''tempmail_lol'' \<or> api_base = [] then ret []
      else first_domains env (auth_headers_for_runtime rt) None
          [api_base @ ''/api/domains'', api_base @ ''/domains'', api_base @ ''/admin/domains''])"


subsection \<open>Probes\<close>

datatype health_status = HealthOk | HealthDegraded | HealthDown | HealthSkipped | HealthUnknown

record health_result =
  hr_provider_type :: string
  hr_instance_id :: string
  hr_enabled :: bool
  hr_status :: health_status
  hr_latency_ms :: "int option"
  hr_checked_at :: "time option"
  hr_domains_preview :: "string list"
  hr_error_summary :: "string option"
  hr_detail :: "(string \<times> json) list"
  hr_supply_mode :: "supply_mode option"

record health_env =
  hl_settings :: settings_env
  hl_adapter :: od_env
  hl_now :: time
  hl_latency :: int                       \<comment> \<open>the measured milliseconds\<close>
  hl_class :: "od_error \<Rightarrow> string"        \<comment> \<open>class name and message of a raised error\<close>
  hl_message :: "od_error \<Rightarrow> string"

definition count_rows :: "('r \<Rightarrow> bool) \<Rightarrow> 'r list \<Rightarrow> int" where
  "count_rows q rows = int (length (filter q rows))"

definition probed :: "health_env \<Rightarrow> string \<Rightarrow> string \<Rightarrow> bool \<Rightarrow> health_status \<Rightarrow> supply_mode option \<Rightarrow> health_result" where
  "probed e t i enabled status mode =
     \<lparr>hr_provider_type = t, hr_instance_id = i, hr_enabled = enabled, hr_status = status, hr_latency_ms = None,
      hr_checked_at = Some (hl_now e), hr_domains_preview = [], hr_error_summary = None, hr_detail = [], hr_supply_mode = mode\<rparr>"

definition probe_microsoft_inventory :: "health_env \<Rightarrow> db \<Rightarrow> health_result" where
  "probe_microsoft_inventory e s =
     (let active = (\<lambda>m. mb_status m = MbActive);
          usable = count_rows (\<lambda>m. active m \<and> mb_capability m \<in> {Some CapImap, Some CapGraph}) (mailboxes s);
          total = count_rows (\<lambda>_. True) (mailboxes s)
      in (probed e ''microsoft'' ''default'' True (if 0 < usable \<or> total = 0 then HealthOk else HealthDegraded) (Some InventoryImport))
           \<lparr>hr_latency_ms := Some (hl_latency e),
            hr_detail := [(''total'', JInt total), (''active'', JInt (count_rows active (mailboxes s))), (''usable'', JInt usable),
              (''unprobed'', JInt (count_rows (\<lambda>m. active m \<and> mb_capability m \<in> {None, Some CapUnknown}) (mailboxes s)))]\<rparr>)"

definition probe_smsbower :: "health_env \<Rightarrow> string \<Rightarrow> db \<Rightarrow> health_result" where
  "probe_smsbower e i s =
     (let rt = resolve_smsbower_runtime (hl_settings e) s;
          base = probed e ''smsbower_gmail'' i (sr_enabled rt) HealthOk (Some InventoryReplenish);
          domains = (if sr_domain rt = [] then [] else [sr_domain rt])
      in if \<not> sr_enabled rt then base\<lparr>hr_status := HealthSkipped, hr_error_summary := Some ''provider disabled''\<rparr>
         else if runtime_key rt = [] then
           base\<lparr>hr_status := HealthDegraded, hr_error_summary := Some ''api_key not configured'', hr_domains_preview := domains\<rparr>
         else base\<lparr>hr_latency_ms := Some (hl_latency e), hr_domains_preview := domains,
                hr_detail := [(''api_base'', JStr (sr_api_base rt)), (''service'', JStr (sr_service rt))]\<rparr>)"

definition error_summary :: "health_env \<Rightarrow> od_error \<Rightarrow> string" where
  "error_summary e err =
     (let x = summarize_text 240 (Some (hl_message e err)) in if x = [] then summarize_exception 200 (hl_class e err) (hl_message e err) else x)"

definition probe_on_demand :: "health_env \<Rightarrow> provider_definition \<Rightarrow> string \<Rightarrow> db \<Rightarrow> nat \<Rightarrow> health_result \<times> nat" where
  "probe_on_demand e d i s n =
     (let rt = instance_runtime (hl_settings e) d i s;
          base = probed e (pd_provider_type d) i True HealthOk (Some OnDemand)
      in if \<not> rt_enabled rt then (base\<lparr>hr_enabled := False, hr_status := HealthSkipped, hr_error_summary := Some ''provider disabled''\<rparr>, n)
         else case list_on_demand_domains (hl_adapter e) rt n of
            (Inl err, n') \<Rightarrow> (base\<lparr>hr_status := HealthDown, hr_latency_ms := Some (hl_latency e),
                hr_error_summary := Some (error_summary e err)\<rparr>, n')
          | (Inr domains, n') \<Rightarrow> (base\<lparr>hr_status := (if domains = [] then HealthDegraded else HealthOk),
                hr_latency_ms := Some (hl_latency e), hr_domains_preview := take 5 domains,
                hr_detail := [(''domain_count'', JInt (int (length domains)))],
                hr_error_summary := (if domains = [] then Some ''domains empty'' else None)\<rparr>, n'))"

definition check_one :: "health_env \<Rightarrow> string \<Rightarrow> string option \<Rightarrow> bool \<Rightarrow> db \<Rightarrow> nat \<Rightarrow> health_result \<times> nat" where
  "check_one e t i check s n =
     (let j = effective_instance i in
      case get_provider_definition t of
        Inl _ \<Rightarrow> ((probed e t j False HealthSkipped None)\<lparr>hr_checked_at := (if check then Some (hl_now e) else None),
            hr_error_summary := Some ''unknown provider''\<rparr>, n)
      | Inr d \<Rightarrow>
          if \<not> check then
            ((probed e t j (t = ''microsoft'') HealthUnknown (Some (pd_supply_mode d)))\<lparr>hr_checked_at := None\<rparr>, n)
          else if t = ''microsoft'' then (probe_microsoft_inventory e s, n)
          else if t = ''smsbower_gmail'' then (probe_smsbower e j s, n)
          else if t \<in> set on_demand_provider_types then probe_on_demand e d j s n
          else ((probed e t j False HealthSkipped (Some (pd_supply_mode d)))\<lparr>hr_error_summary := Some ''no probe for provider''\<rparr>, n))"

fun check_each :: "health_env \<Rightarrow> provider_definition list \<Rightarrow> bool \<Rightarrow> db \<Rightarrow> nat \<Rightarrow> health_result list \<times> nat" where
  "check_each e [] check s n = ([], n)"
| "check_each e (d # ds) check s n =
     (case check_one e (pd_provider_type d) (Some ''default'') check s n of (r, n') \<Rightarrow>
        map_prod (Cons r) id (check_each e ds check s n'))"

definition check_all :: "health_env \<Rightarrow> bool \<Rightarrow> db \<Rightarrow> nat \<Rightarrow> health_result list \<times> nat" where
  "check_all e = check_each e provider_definitions"

definition list_domains :: "health_env \<Rightarrow> string \<Rightarrow> string option \<Rightarrow> db \<Rightarrow> string list adapter" where
  "list_domains e t i s =
     (if t = ''microsoft'' then ret []
      else if t = ''smsbower_gmail'' then
        (let x = strip (sr_domain (resolve_smsbower_runtime (hl_settings e) s)) in ret (if x = [] then [] else [x]))
      else if t \<notin> set on_demand_provider_types then ret []
      else case resolve_on_demand_runtime (hl_settings e) t i s of
          Inl _ \<Rightarrow> throw OdPython
        | Inr rt \<Rightarrow> andthen (require (rt_enabled rt) (OdProvider (t @ '' is not enabled''))) (list_on_demand_domains (hl_adapter e) rt))"

subsection \<open>What a probe says\<close>

lemma split_on_cong:
  "(\<And>c. P (f c) = Q c) \<Longrightarrow> (\<And>c. \<not> Q c \<Longrightarrow> f c = c) \<Longrightarrow> split_on P cur (map f x) = split_on Q cur x"
  by (induction x arbitrary: cur) auto

lemma string_list_from_runtime: "string_list_from_runtime env rt k = string_list env rt k"
proof -
  have "split_on (\<lambda>c. c = CHR '','') [] (map (\<lambda>c. if c = newline then CHR '','' else c) x)
      = split_on (\<lambda>c. c = newline \<or> c = CHR '','') [] x" for x
    by (rule split_on_cong) auto
  moreover have "nonblank (split_on P [] []) = []" for P by (simp add: nonblank_def strip_empty)
  moreover have "nonblank [] = []" by (simp add: nonblank_def)
  ultimately show ?thesis
    by (auto simp: string_list_from_runtime_def string_list_def rt_value_def split: option.split json.split)
qed

text \<open>
  A live probe of an on-demand provider whose settings name a domain reports it healthy without a single
  request to the provider: whatever the remote interface would answer, and with any secrets.
\<close>
theorem configured_domain_reported_healthy:
  assumes "get_provider_definition t = Inr d" and "t \<in> set on_demand_provider_types"
    and "rt = instance_runtime (hl_settings e) d (effective_instance i) s" and "rt_enabled rt"
    and "configured_domains (hl_adapter e) rt \<noteq> []"
  shows "hr_status (fst (check_one e t i True s n)) = HealthOk \<and> snd (check_one e t i True s n) = n"
proof -
  have "t \<noteq> ''microsoft''" "t \<noteq> ''smsbower_gmail''"
    using assms(2) by (auto simp: on_demand_provider_types_def provider_definitions_def)
  then have "check_one e t i True s n = probe_on_demand e d (effective_instance i) s n"
    using assms(1,2) by (simp add: check_one_def Let_def)
  then show ?thesis
    using assms(3-5) by (simp add: probe_on_demand_def list_on_demand_domains_def ret_run Let_def)
qed


definition silent_adapter :: od_env where
  \<comment> \<open>every request but the first fails; the first answers an empty list\<close>
  "silent_adapter = \<lparr>oe_lib = \<lparr>pl_str = (\<lambda>_. ''?''), pl_date = (\<lambda>_. None), pl_timestamp = (\<lambda>_. None)\<rparr>,
     oe_http = (\<lambda>n _. if n = 0 then Some (JArr []) else None), oe_pick = hd, oe_random = (\<lambda>_. ''x''), oe_password = ''pw'', oe_int = (\<lambda>_. None)\<rparr>"

text \<open>One endpoint that fails makes the listing fail, although another answered that there are no domains.\<close>

lemma failure_hides_answer: "first_domains silent_adapter [] None [''a'', ''b'', ''c''] 0 = (Inl OdHttp, 3)"
  by code_simp

definition sample_health :: health_env where
  "sample_health = \<lparr>hl_settings = settings_sample (Some marking_cipher), hl_adapter = silent_adapter, hl_now = 9, hl_latency = 0,
     hl_class = (\<lambda>_. ''ProviderHttpError''), hl_message = (\<lambda>_. ''HTTP request failed'')\<rparr>"

theorem configured_domain_reported_healthy_witness:
  "hr_status (fst (check_one sample_health ''cloudflare_temp_email'' None True configured_db 4)) = HealthOk"
proof -
  let ?e = "settings_sample (Some marking_cipher)" and ?ty = "''cloudflare_temp_email''"
  obtain d where d: "get_provider_definition ?ty = Inr d" using cloudflare_definition by (auto simp: map_sum_def split: sum.splits)
  have on: "?ty \<in> set on_demand_provider_types" by code_simp
  have "map_sum id (\<lambda>d. let rt = instance_runtime ?e d (effective_instance None) configured_db
      in rt_enabled rt \<and> configured_domains silent_adapter rt \<noteq> []) (get_provider_definition ?ty) = Inr True"
    by code_simp
  then have "rt_enabled (instance_runtime ?e d (effective_instance None) configured_db)"
      "configured_domains silent_adapter (instance_runtime ?e d (effective_instance None) configured_db) \<noteq> []"
    using d by (simp_all add: Let_def)
  with configured_domain_reported_healthy [OF d on refl, of sample_health None configured_db 4] show ?thesis
    by (simp add: sample_health_def)
qed

end
