(* ===== verification/Migrations.thy ===== *)
theory Migrations
  imports PyText
begin

text \<open>
  The schema migrations at startup (\<open>migration_runner.py\<close>): discovery of the numbered SQL files, the
  advisory lock, and the application of the pending ones with their record in \<open>schema_migrations\<close>.
  The database the scripts change is a type variable and running a script a parameter: it says whether the
  script raised and what is left of it, since MySQL commits each statement. Locating the directory and the
  connection parameters are not modelled.
\<close>

record migration_script =
  ms_version :: string
  ms_filename :: string
  ms_checksum :: string
  ms_sql_text :: string

record migration_row =
  mr_version :: string
  mr_filename :: string
  mr_checksum :: string
  mr_applied_at :: time

datatype migration_error =
    DuplicateVersion string string   \<comment> \<open>version, file name\<close>
  | MigrationLockUnavailable
  | MigrationFailed string           \<comment> \<open>file name\<close>

datatype sql_dialect = Sqlite | Mysql | OtherDialect

record 'w migration_env =
  mg_auto_migrate :: bool
  mg_dialect :: sql_dialect
  mg_files :: "(string \<times> string) list"       \<comment> \<open>name and text of the files \<open>glob("*.sql")\<close> finds\<close>
  mg_checksum :: "string \<Rightarrow> string"
  mg_now :: "string \<Rightarrow> time"                 \<comment> \<open>the clock when a version is recorded\<close>
  mg_lock_granted :: bool                    \<comment> \<open>\<open>GET_LOCK\<close> answers 1\<close>
  mg_exec :: "string \<Rightarrow> 'w \<Rightarrow> bool \<times> 'w"    \<comment> \<open>whether the script ran through, and the database after it\<close>

record 'w schema_state =
  sm_applied :: "migration_row list"
  sm_world :: 'w
  sm_lock_held :: bool

subsection \<open>Discovery\<close>

definition ends_with :: "string \<Rightarrow> string \<Rightarrow> bool" where
  "ends_with s p \<longleftrightarrow> length p \<le> length s \<and> drop (length s - length p) s = p"

definition migration_version :: "string \<Rightarrow> string option" where
  \<comment> \<open>\<open>^(?P<version>\d{3,})_.+\.sql$\<close>\<close>
  "migration_version name =
     (let v = takeWhile is_ascii_digit name; r = drop (length v) name; body = take (length (tl r) - 4) (tl r)
      in if 3 \<le> length v \<and> r \<noteq> [] \<and> hd r = CHR ''_'' \<and> ends_with (tl r) ''.sql'' \<and> body \<noteq> [] \<and> CHR 0x0A \<notin> set body
         then Some v else None)"

definition script_of :: "'w migration_env \<Rightarrow> string \<times> string \<Rightarrow> migration_script option" where
  "script_of env f =
     map_option (\<lambda>v. \<lparr>ms_version = v, ms_filename = fst f, ms_checksum = mg_checksum env (snd f), ms_sql_text = snd f\<rparr>)
       (migration_version (fst f))"

fun assert_unique_versions :: "string list \<Rightarrow> migration_script list \<Rightarrow> migration_error + unit" where
  "assert_unique_versions seen [] = Inr ()"
| "assert_unique_versions seen (m # ms) =
     (if ms_version m \<in> set seen then Inl (DuplicateVersion (ms_version m) (ms_filename m))
      else assert_unique_versions (ms_version m # seen) ms)"

definition ordered_scripts :: "'w migration_env \<Rightarrow> migration_script list" where
  "ordered_scripts env = sort_key (\<lambda>m. (ms_version m, ms_filename m)) (List.map_filter (script_of env) (mg_files env))"

definition discover_migration_scripts :: "'w migration_env \<Rightarrow> migration_error + migration_script list" where
  "discover_migration_scripts env =
     map_sum id (\<lambda>_. ordered_scripts env) (assert_unique_versions [] (ordered_scripts env))"

subsection \<open>Application\<close>

definition execute_sql_script :: "'w migration_env \<Rightarrow> migration_script \<Rightarrow> ('w schema_state, migration_error, unit) action" where
  "execute_sql_script env m =
     (\<lambda>s. if strip (ms_sql_text m) = [] then (Inr (), s)
          else if mg_dialect env = OtherDialect then (Inl (MigrationFailed (ms_filename m)), s)
          else case mg_exec env (strip (ms_sql_text m)) (sm_world s) of
              (good, w) \<Rightarrow> (if good then Inr () else Inl (MigrationFailed (ms_filename m)), s\<lparr>sm_world := w\<rparr>))"

definition record_applied_migration :: "'w migration_env \<Rightarrow> migration_script \<Rightarrow> ('w schema_state, migration_error, unit) action" where
  \<comment> \<open>the primary key refuses a version that is recorded\<close>
  "record_applied_migration env m =
     (\<lambda>s. if ms_version m \<in> mr_version ` set (sm_applied s) then (Inl (MigrationFailed (ms_filename m)), s)
          else (Inr (), s\<lparr>sm_applied := sm_applied s @ [\<lparr>mr_version = ms_version m, mr_filename = ms_filename m,
                  mr_checksum = ms_checksum m, mr_applied_at = mg_now env (ms_version m)\<rparr>]\<rparr>))"

fun apply_each :: "'w migration_env \<Rightarrow> migration_script list \<Rightarrow> ('w schema_state, migration_error, string list) action" where
  \<comment> \<open>each script is executed and recorded before the next one\<close>
  "apply_each env [] = ret []"
| "apply_each env (m # ms) =
     andthen (execute_sql_script env m)
    (andthen (record_applied_migration env m)
    (bnd (apply_each env ms) (\<lambda>vs. ret (ms_version m # vs))))"

definition acquire_migration_lock :: "'w migration_env \<Rightarrow> ('w schema_state, migration_error, bool) action" where
  "acquire_migration_lock env =
     (if mg_dialect env \<noteq> Mysql then ret False
      else if \<not> mg_lock_granted env then throw MigrationLockUnavailable
      else andthen (modify (sm_lock_held_update (\<lambda>_. True))) (ret True))"

definition release_migration_lock :: "bool \<Rightarrow> ('w schema_state, migration_error, unit) action" where
  "release_migration_lock acquired = (if acquired then modify (sm_lock_held_update (\<lambda>_. False)) else ret ())"

definition pending_scripts :: "migration_script list \<Rightarrow> 'w schema_state \<Rightarrow> migration_script list" where
  "pending_scripts ms s = filter (\<lambda>m. ms_version m \<notin> mr_version ` set (sm_applied s)) ms"

definition run_pending_migrations :: "'w migration_env \<Rightarrow> ('w schema_state, migration_error, string list) action" where
  "run_pending_migrations env =
     (if \<not> mg_auto_migrate env then ret []
      else case discover_migration_scripts env of
          Inl e \<Rightarrow> throw e
        | Inr ms \<Rightarrow>
            if ms = [] then ret []
            else bnd (acquire_migration_lock env) (\<lambda>acquired. \<lambda>s.
              case apply_each env (pending_scripts ms s) s of
                (r, s') \<Rightarrow> (r, snd (release_migration_lock acquired s'))))"

subsection \<open>What a run leaves behind\<close>


















subsection \<open>Runs\<close>

text \<open>
  A database of executed texts; the third script of the directory fails. The name that does not fit the
  pattern is skipped.
\<close>

definition sample_migrations :: "(string \<times> string) list" where
  "sample_migrations = [(''001_users.sql'', ''A''), (''002_leases.sql'', '' ''), (''003_bad.sql'', ''X''), (''004_more.sql'', ''D''), (''x1_no.sql'', ''Z'')]"

definition migration_sample :: "string list migration_env" where
  "migration_sample = \<lparr>mg_auto_migrate = True, mg_dialect = Mysql, mg_files = sample_migrations, mg_checksum = id, mg_now = (\<lambda>_. 0),
     mg_lock_granted = True, mg_exec = (\<lambda>x w. (x \<noteq> ''X'', w @ [x]))\<rparr>"





text \<open>The order is the order of texts, so a fourth digit sorts before the three-digit versions above it.\<close>

lemma version_order_is_textual:
  "map ms_version (ordered_scripts (migration_sample\<lparr>mg_files := [(''999_a.sql'', ''A''), (''1000_b.sql'', ''B'')]\<rparr>)) = [''1000'', ''999'']"
  by code_simp

text \<open>The recorded checksum is never compared: a changed text of an applied version is not noticed.\<close>

lemma checksum_not_compared:
  "run_pending_migrations (migration_sample\<lparr>mg_files := [(''001_users.sql'', ''other'')]\<rparr>)
     \<lparr>sm_applied = [\<lparr>mr_version = ''001'', mr_filename = ''001_users.sql'', mr_checksum = ''A'', mr_applied_at = 0\<rparr>], sm_world = w, sm_lock_held = False\<rparr>
   = (Inr [], \<lparr>sm_applied = [\<lparr>mr_version = ''001'', mr_filename = ''001_users.sql'', mr_checksum = ''A'', mr_applied_at = 0\<rparr>], sm_world = w, sm_lock_held = False\<rparr>)"
  by code_simp

end
