(* ===== verification/Schedulers.thy ===== *)
theory Schedulers
  imports PoolFrame JobLease TokenBatch
begin

text \<open>
  The two background jobs (\<open>proxy_scheduler.py\<close>, \<open>token_keepalive_scheduler.py\<close>): one run of the
  proxy health sweep and of the refresh-token keepalive under the cluster-wide job lease. Other processes
  work between the transactions: \<open>meanwhile\<close> is what they leave of the job table when the run gives
  its lease back. The process-local trigger (APScheduler) and the log are not modelled.
\<close>

record sched_state =
  sd_jobs :: job_table
  sd_db :: db

subsection \<open>One run under the job lease\<close>

definition under_job_lease ::
    "string \<Rightarrow> string \<Rightarrow> int \<Rightarrow> time \<Rightarrow> time \<Rightarrow> (job_table \<Rightarrow> job_table) \<Rightarrow> (db, 'e, 'a) action
       \<Rightarrow> (sched_state, 'e, 'a option) action" where
  \<comment> \<open>\<open>None\<close>: another owner holds the lease; the \<open>finally\<close> block releases however the body ends\<close>
  "under_job_lease job owner ttl start stop meanwhile body =
     (\<lambda>s. case try_acquire job owner ttl start (sd_jobs s) of
        (None, _) \<Rightarrow> (Inr None, s)
      | (Some h, tbl) \<Rightarrow>
          (case body (sd_db s) of
             (r, d) \<Rightarrow> (map_sum id Some r, \<lparr>sd_jobs = release h stop (meanwhile tbl), sd_db = d\<rparr>)))"

subsection \<open>The health sweep\<close>

record sweep_env =
  sw_settings :: proxy_settings
  sw_cipher :: "(string \<Rightarrow> string option) option"
  sw_now :: "nat \<Rightarrow> time"
  sw_ids :: "nat \<Rightarrow> string \<times> string"           \<comment> \<open>fresh uuids of the \<open>k\<close>-th observation\<close>
  sw_handshake :: "nat \<Rightarrow> resolved_proxy \<Rightarrow> int \<Rightarrow> bool"
  sw_summary :: string

definition sweep_ids :: "nat \<Rightarrow> db \<Rightarrow> string list" where
  "sweep_ids batch_size s =
     map px_id (take batch_size (sort_key (\<lambda>p. (px_priority p, px_id p)) (filter px_enabled (proxies s))))"

definition probe_proxy :: "sweep_env \<Rightarrow> nat \<Rightarrow> string \<Rightarrow> (db, proxy_error, unit) action" where
  \<comment> \<open>only a failure that is raised while a failed handshake is recorded escapes\<close>
  "probe_proxy env k i =
     (\<lambda>s. case test_proxy_connectivity (sw_settings env) (sw_cipher env) (sw_now env k) (fst (sw_ids env k)) (snd (sw_ids env k))
              (sw_handshake env k) i s of
        (Inr _, t) \<Rightarrow> (Inr (), t)
      | (Inl e, t) \<Rightarrow>
          if e = ProxyTransport then
            transaction (\<lambda>_. record_proxy_failure (sw_settings env) (sw_now env k) (fst (sw_ids env k)) (snd (sw_ids env k)) i (sw_summary env) t) s
          else (Inr (), s))"

fun probe_each :: "sweep_env \<Rightarrow> nat \<Rightarrow> string list \<Rightarrow> (db, proxy_error, unit) action" where
  "probe_each env k [] = ret ()"
| "probe_each env k (i # is) = andthen (probe_proxy env k i) (probe_each env (Suc k) is)"

definition sweep :: "sweep_env \<Rightarrow> nat \<Rightarrow> (db, proxy_error, unit) action" where
  "sweep env batch_size = bnd (asks (sweep_ids batch_size)) (probe_each env 0)"

definition health_probe_run ::
    "sweep_env \<Rightarrow> nat \<Rightarrow> string \<Rightarrow> int \<Rightarrow> time \<Rightarrow> time \<Rightarrow> (job_table \<Rightarrow> job_table) \<Rightarrow> (sched_state, proxy_error, unit option) action" where
  "health_probe_run env batch_size owner ttl start stop meanwhile =
     under_job_lease ''egress-proxy-health-probe'' owner ttl start stop meanwhile (sweep env batch_size)"

subsection \<open>The keepalive\<close>

definition keepalive_run ::
    "bool \<Rightarrow> bool \<Rightarrow> (nat \<Rightarrow> token_env) \<Rightarrow> (service_error \<Rightarrow> string) \<Rightarrow> int \<Rightarrow> nat \<Rightarrow> time \<Rightarrow> string \<Rightarrow> int \<Rightarrow> time \<Rightarrow> time
       \<Rightarrow> (job_table \<Rightarrow> job_table) \<Rightarrow> (sched_state, service_error, batch_result option) action" where
  \<comment> \<open>\<open>configured\<close>: an encryption key is configured\<close>
  "keepalive_run enabled configured envs say lead_days batch_size now owner ttl start stop meanwhile =
     (if \<not> enabled \<or> \<not> configured then ret None
      else under_job_lease ''refresh-token-keepalive'' owner ttl start stop meanwhile
             (\<lambda>d. case run_refresh_token_keepalive_batch envs say lead_days batch_size now d of (r, d') \<Rightarrow> (Inr r, d')))"

subsection \<open>The sweep within the pool\<close>

context pool_frame
begin

lemma probed_proxy: "steps R (probe_proxy env k i)"
proof (rule stepsI)
  fix s
  let ?t = "test_proxy_connectivity (sw_settings env) (sw_cipher env) (sw_now env k) (fst (sw_ids env k)) (snd (sw_ids env k)) (sw_handshake env k) i"
  have st: "R s (snd (?t s))" by (rule stepsD [OF test])
  have rec: "R u (snd (record_proxy_failure (sw_settings env) (sw_now env k) (fst (sw_ids env k)) (snd (sw_ids env k)) i (sw_summary env) u))" for u
    by (rule stepsD [OF recorded(2)])
  show "R s (snd (probe_proxy env k i s))"
  proof (cases "?t s")
    case (Pair r t)
    with st have "R s t" by simp
    then have "R s (snd (record_proxy_failure (sw_settings env) (sw_now env k) (fst (sw_ids env k)) (snd (sw_ids env k)) i (sw_summary env) t))"
      by (rule trans [OF _ rec])
    with Pair \<open>R s t\<close> show ?thesis by (auto simp: probe_proxy_def transaction_run refl split: prod.splits sum.splits)
  qed
qed

lemma probes: "steps R (probe_each env k is)"
  by (induction env k "is" rule: probe_each.induct) (auto intro: rules probed_proxy)

lemma swept: "steps R (sweep env n)"
  unfolding sweep_def by (intro rules probes)

end

subsection \<open>Which proxies a sweep reaches\<close>

definition ranks :: "db \<Rightarrow> (string \<times> bool \<times> int) list" where
  "ranks s = map (\<lambda>p. (px_id p, probe_rank p)) (proxies s)"

definition same_ranks :: "db \<Rightarrow> db \<Rightarrow> bool" where
  "same_ranks s t \<longleftrightarrow> (distinct (map px_id (proxies s)) \<longrightarrow> ranks t = ranks s)"

lemma ranks_ids: "map px_id (proxies s) = map fst (ranks s)"
  by (simp add: ranks_def)

lemma put_row_same_rank:
  assumes "p \<in> set rows" and "distinct (map px_id rows)" and "px_id q = px_id p" and "probe_rank q = probe_rank p"
  shows "map (\<lambda>p. (px_id p, probe_rank p)) (put_row px_id q rows) = map (\<lambda>p. (px_id p, probe_rank p)) rows"
proof -
  have "probe_rank r = probe_rank q" if "r \<in> set rows" "px_id r = px_id q" for r
    using assms that by (auto simp: distinct_map dest: inj_onD)
  then show ?thesis by (simp add: put_row_def update_where_def)
qed

interpretation rk: pool_frame same_ranks
proof unfold_locales
  show "same_ranks s t \<Longrightarrow> same_ranks t u \<Longrightarrow> same_ranks s u" for s t u
    unfolding same_ranks_def ranks_ids by auto
  show "same_ranks s (write_proxy q s)"
    if "p \<in> set (proxies s)" "proxy_identity q = proxy_identity p" "probe_rank q = probe_rank p" for p s q
    using that put_row_same_rank [of p "proxies s" q]
    by (auto simp: same_ranks_def ranks_def write_proxy_def proxy_identity_def)
qed (simp_all add: same_ranks_def ranks_def put_mailbox_def)

lemma sweep_ids_ranks:
  "sweep_ids n s = map fst (take n (sort_key (\<lambda>(i, e, pr). (pr, i)) (filter (\<lambda>(i, e, pr). e) (ranks s))))"
  by (simp add: sweep_ids_def ranks_def filter_map map_sort_key take_map comp_def probe_rank_def)

text \<open>
  A sweep does not change which proxies the next sweep reaches: as long as no administrator acts, every
  sweep probes the same first proxies by priority, and an enabled proxy beyond the batch size is never probed.
\<close>
theorem sweep_reaches_same_proxies:
  assumes "sweep env n s = (r, t)" and "distinct (map px_id (proxies s))"
  shows "sweep_ids m t = sweep_ids m s"
  using stepsD_eq [OF rk.swept assms(1)] assms(2) by (simp add: same_ranks_def sweep_ids_ranks)

subsection \<open>The lease of a run\<close>

text \<open>
  A run that does not get the job lease changes nothing; a run that gets it has, however its sweep ends and
  whatever other processes did to the lease meanwhile, no lease of its own left that outlasts it.
\<close>
theorem sweep_run_gives_lease_back:
  assumes "health_probe_run env n owner ttl start stop meanwhile s = (r, t)"
  shows "case try_acquire ''egress-proxy-health-probe'' owner ttl start (sd_jobs s) of
       (None, _) \<Rightarrow> r = Inr None \<and> t = s
     | (Some h, _) \<Rightarrow> (case job_row ''egress-proxy-health-probe'' (sd_jobs t) of
            None \<Rightarrow> True | Some row \<Rightarrow> \<not> owns h row \<or> jl_lease_until row = stop)"
proof (cases "try_acquire ''egress-proxy-health-probe'' owner ttl start (sd_jobs s)")
  case (Pair ho tbl)
  show ?thesis
  proof (cases ho)
    case None
    with Pair assms show ?thesis by (simp add: health_probe_run_def under_job_lease_def)
  next
    case (Some h)
    then have j: "jh_job_name h = ''egress-proxy-health-probe''"
      using Pair by (auto simp: try_acquire_def Let_def split: option.splits if_splits)
    have "sd_jobs t = release h stop (meanwhile tbl)"
      using assms Pair Some by (auto simp: health_probe_run_def under_job_lease_def split: prod.splits)
    then show ?thesis
      using Pair Some j
      by (auto simp: release_def job_row_put owns_def dest: job_row_name split: option.splits if_splits)
  qed
qed


subsection \<open>Runs\<close>

definition two_proxies :: db where
  "two_proxies = empty_db\<lparr>proxies := [sample_proxy ''b'', sample_proxy ''a'']\<rparr>"

definition failing_sweep :: sweep_env where
  \<comment> \<open>every handshake fails\<close>
  "failing_sweep = \<lparr>sw_settings = sample_settings, sw_cipher = None, sw_now = (\<lambda>k. int k), sw_ids = (\<lambda>k. (replicate (Suc k) CHR ''o'', replicate (Suc k) CHR ''e'')),
     sw_handshake = (\<lambda>_ _ _. False), sw_summary = ''ProxyError''\<rparr>"

lemma sample_sweep: "map_prod id (\<lambda>t. map (\<lambda>e. (he_proxy_id e, he_outcome e)) (health_events t)) (sweep failing_sweep 20 two_proxies)
    = (Inr (), [(''a'', ''failure''), (''b'', ''failure'')])"
  by code_simp

theorem sweep_reaches_same_proxies_witness:
  "sweep_ids 1 (snd (sweep failing_sweep 1 two_proxies)) = [''a'']"
proof -
  have d: "distinct (map px_id (proxies two_proxies))" and a: "sweep_ids 1 two_proxies = [''a'']" by code_simp+
  have "sweep failing_sweep 1 two_proxies = (fst (sweep failing_sweep 1 two_proxies), snd (sweep failing_sweep 1 two_proxies))" by simp
  from sweep_reaches_same_proxies [OF this d, of 1] a show ?thesis by simp
qed

definition run_beside :: "job_table \<Rightarrow> (proxy_error + unit option) \<times> sched_state" where
  \<comment> \<open>during the run, after its lease has expired, another process takes the job\<close>
  "run_beside tbl = health_probe_run failing_sweep 20 ''me'' 60 0 (secs 90)
     (\<lambda>u. snd (try_acquire ''egress-proxy-health-probe'' ''other'' 60 (secs 70) u)) \<lparr>sd_jobs = tbl, sd_db = two_proxies\<rparr>"

text \<open>The lease is neither renewed nor checked during a sweep: a sweep that outlasts it is doubled.\<close>

lemma sweep_outlasts_lease:
  "map_prod id (\<lambda>t. (map jl_owner_id (sd_jobs t), length (health_events (sd_db t)))) (run_beside []) = (Inr (Some ()), ([''other''], 2))"
  by code_simp

definition run_alone :: "(proxy_error + unit option) \<times> sched_state" where
  "run_alone = health_probe_run failing_sweep 20 ''me'' 60 0 (secs 90) (\<lambda>u. u) \<lparr>sd_jobs = [], sd_db = two_proxies\<rparr>"

theorem sweep_run_gives_lease_back_witness:
  "map_option jl_lease_until (job_row ''egress-proxy-health-probe'' (sd_jobs (snd run_alone))) = Some (secs 90)"
proof -
  let ?h = "\<lparr>jh_job_name = ''egress-proxy-health-probe'', jh_owner_id = ''me'', jh_fencing_token = 1\<rparr>"
  have run: "run_alone = (fst run_alone, snd run_alone)" by simp
  have acq: "fst (try_acquire ''egress-proxy-health-probe'' ''me'' 60 0 []) = Some ?h" by code_simp
  have "map_option (owns ?h) (job_row ''egress-proxy-health-probe'' (sd_jobs (snd run_alone))) = Some True" by code_simp
  then obtain row where "job_row ''egress-proxy-health-probe'' (sd_jobs (snd run_alone)) = Some row" "owns ?h row" by auto
  then show ?thesis
    using sweep_run_gives_lease_back [OF run [unfolded run_alone_def]] acq
    by (auto simp: run_alone_def split: prod.splits)
qed

end
