(* ===== verification/ReleaseFlow.thy ===== *)
theory ReleaseFlow
  imports SmsBower LeaseRelease
begin

text \<open>
  The release request of a client (\<open>main.py\<close>: \<open>release_external_lease\<close> and
  \<open>_maybe_finalize_smsbower_release\<close>): the lease is released in one transaction, the activation is
  closed at SmsBower between transactions, and a second transaction records the answer. The remote
  call, the clock of each transaction and what other requests commit meanwhile are parameters.
\<close>

record release_env =
  rf_now :: "nat \<Rightarrow> time"                 \<comment> \<open>the clock of the release and of the finalization\<close>
  rf_operation_id :: string                 \<comment> \<open>a drawn id\<close>
  rf_runtime :: "db \<Rightarrow> sms_runtime"
  rf_send :: "string \<Rightarrow> sms_request \<Rightarrow> (sms_failure + json) option"   \<comment> \<open>\<open>None\<close>: any other exception\<close>
  rf_others :: "db \<Rightarrow> db"

definition remote_result :: "release_env \<Rightarrow> sms_runtime \<Rightarrow> string \<Rightarrow> int \<Rightarrow> release_outcome \<times> string option" where
  \<comment> \<open>\<open>provider.finalize\<close> with its handler: the outcome and the error class\<close>
  "remote_result env rt external_id status =
     (case rf_send env (runtime_key rt) (build_set_status_request (normalize_smsbower_base_url (Some (sr_api_base rt))) external_id status) of
        None \<Rightarrow> (OutcomeOther, Some ''exception'')
      | Some (Inr _) \<Rightarrow> (OutcomeSucceeded, None)
      | Some (Inl f) \<Rightarrow>
          if sf_is_unknown f \<or> sf_is_timeout f
          then (OutcomeOther, Some (if sf_is_timeout f then ''timeout'' else ''transport_unknown''))
          else (OutcomeFailed, Some ''transport''))"

definition latest_release :: "string \<Rightarrow> db \<Rightarrow> provider_operation option" where
  "latest_release lease_id s = least_by (\<lambda>o1. - po_created_at o1)
     (filter (\<lambda>o1. po_lease_id o1 = Some lease_id \<and> po_operation_type o1 = Release) (operations s))"

definition first_number :: "int option \<Rightarrow> int \<Rightarrow> int" where
  \<comment> \<open>\<open>int(a or b or 0)\<close>\<close>
  "first_number a b = (case a of None \<Rightarrow> b | Some n \<Rightarrow> if n = 0 then b else n)"

definition record_error_class :: "time \<Rightarrow> string \<Rightarrow> release_outcome \<times> string option \<Rightarrow> (db, 'e, unit) action" where
  "record_error_class now i result =
     (if given (snd result) \<and> fst result \<noteq> OutcomeSucceeded then
        bnd (asks (operation_row i)) (\<lambda>row. case row of
          None \<Rightarrow> ret ()
        | Some o1 \<Rightarrow> modify (write_operation (o1\<lparr>po_last_error_class := snd result, po_updated_at := now\<rparr>)))
      else ret ())"

definition store_release_result ::
    "release_env \<Rightarrow> provider_operation \<Rightarrow> provider_resource \<Rightarrow> release_outcome \<times> string option \<Rightarrow> (db, ops_error, unit) action" where
  \<comment> \<open>a session of its own, whose failure is swallowed\<close>
  "store_release_result env o1 r result =
     catch (transaction (andthen
         (bnd (finalize_release_cas (rf_now env 1) (po_id o1) (pr_id r)
             (first_number (po_resource_generation o1) (pr_resource_generation r))
             (first_number (po_expected_state_version o1) (pr_state_version r))
             (fst result) (fst result = OutcomeSucceeded)) (\<lambda>_. ret ()))
         (record_error_class (rf_now env 1) (po_id o1) result)))
       (\<lambda>_. ret ())"

definition finalized_resource :: "lease \<Rightarrow> provider_operation \<Rightarrow> db \<Rightarrow> provider_resource option" where
  "finalized_resource l o1 s =
     (let i = or_text (ls_provider_resource_id l) (or_text (po_provider_resource_id o1) []) in
      if i = [] then None else resource_row i s)"

definition maybe_finalize_smsbower_release :: "release_env \<Rightarrow> string \<Rightarrow> (db, lease_error, unit) action" where
  "maybe_finalize_smsbower_release env lease_id =
     bnd (asks (row_by ls_id lease_id \<circ> leases)) (\<lambda>lrow. case lrow of
       None \<Rightarrow> ret ()
     | Some l \<Rightarrow>
         if (if ls_provider_type l = [] then ''microsoft'' else ls_provider_type l) \<noteq> ''smsbower_gmail'' then ret ()
         else bnd (asks (latest_release lease_id)) (\<lambda>orow. case orow of
           None \<Rightarrow> ret ()
         | Some o1 \<Rightarrow>
             if po_status o1 \<notin> {OpPending, OpRunning, OpUnknown} then ret ()
             else bnd (asks (finalized_resource l o1)) (\<lambda>rrow. case rrow of
               None \<Rightarrow> ret ()
             | Some r \<Rightarrow>
                 bnd (asks (\<lambda>s. remote_result env (rf_runtime env s) (pr_external_resource_id r) 3)) (\<lambda>result.
                 andthen (modify (rf_others env))
                   (lift_error ReleaseFailure (store_release_result env o1 r result))))))"

definition release_external_lease :: "release_env \<Rightarrow> principal \<Rightarrow> string \<Rightarrow> (db, lease_error, lease_release_result) action" where
  "release_external_lease env p lease_id =
     bnd (transaction (release_lease (rf_operation_id env) (rf_now env 0) p lease_id)) (\<lambda>res.
     andthen (maybe_finalize_smsbower_release env lease_id) (ret res))"

subsection \<open>What the release transaction leaves for the finalization\<close>

lemma released_smsbower:
  assumes "release_lease op now p lid s = (Inr res, t)"
    and "owned_lease p lid s = Some l" and "ls_released_at l = None" and "ls_provider_type l = ''smsbower_gmail''"
    and "ls_provider_resource_id l = Some i" and "i \<noteq> []" and "resource_row i s = Some r"
    and "pr_lifecycle_state r \<in> {Claimed, Available}"
    and "operation_by_key (release_key lid (pr_resource_generation r)) s = None"
  shows "\<exists>o1. operations t = operations s @ [o1] \<and> op \<notin> po_id ` set (operations s)
     \<and> po_id o1 = op \<and> po_lease_id o1 = Some lid \<and> po_operation_type o1 = Release \<and> po_status o1 = OpPending \<and> po_last_error_class o1 = None
     \<and> po_resource_generation o1 = Some (pr_resource_generation r)
     \<and> leases t = put_row ls_id (l\<lparr>ls_released_at := Some now\<rparr>) (leases s)
     \<and> resource_row i t = Some (r\<lparr>pr_lifecycle_state := Releasing, pr_state_version := pr_state_version r + 1, pr_updated_at := now\<rparr>)"
proof -
  have r: "release_lease_internal op now p lid s = (Inr res, t)"
    using assms(1) by (auto simp: release_lease_def require_scope_def returns)
  obtain l' where "load_owned_lease_mailbox_first now p lid False s = (Inr l', s)"
    using r load_mailbox_first_state by (auto simp: release_lease_internal_def returns)
  with assms(2) have ld: "load_owned_lease_mailbox_first now p lid False s = (Inr l, s)" by (simp add: load_mailbox_first_Inr)
  have id: "ls_id l = lid" using owned_leaseD [OF assms(2)] by simp
  have rid: "pr_id r = i" using resource_row_id [OF assms(7)] by simp
  let ?s1 = "write_lease (l\<lparr>ls_released_at := Some now\<rparr>) s"
  let ?s2 = "?s1\<lparr>claims := delete_where (\<lambda>c. lc_lease_id c = lid) (claims ?s1)\<rparr>"
  obtain u where u: "release_provider_side op now p l ?s2 = (Inr (), u)"
      "write_audit_log p ''lease.released'' lid (JObj [(''mailbox_id'', jopt (ls_mailbox_id l)),
         (''provider_resource_id'', jopt (ls_provider_resource_id l))]) u = (Inr (), t)"
    using r ld assms(3) id
    by (auto simp: release_lease_internal_def bnd_Inr_iff andthen_Inr_iff modify_Inr_iff ret_Inr_iff delete_lease_claim_for_lease_def)
  have row: "lease_resource l ?s2 = Some r" "resource_row i ?s2 = Some r"
    using assms(5-7) by (simp_all add: lease_resource_def present_def resource_row_def write_lease_def)
  have key: "operation_by_key (release_key lid (pr_resource_generation r)) ?s2 = None"
    using assms(9) by (simp add: operation_by_key_def write_lease_def)
  have t: "operations t = operations u" "leases t = leases u" "resources t = resources u"
    using u(2) by (auto simp: write_audit_log_def write_audit_event_def run)
  obtain snap inst pid where b: "begin_release_operation op now lid i ''smsbower_gmail'' inst (pr_external_resource_id r)
      (pr_resource_generation r) (pr_state_version r) pid None ?s2 = (Inr snap, u)"
    using u(1) assms(4,8) row(1) id rid
    by (auto simp: release_provider_side_def default_provider_type_def bnd_run asks_run lift_error_run ret_run split: sum.splits prod.splits)
  let ?o = "release_operation op now lid i ''smsbower_gmail'' inst (pr_external_resource_id r) (pr_resource_generation r) (pr_state_version r) None"
  let ?r = "r\<lparr>pr_lifecycle_state := Releasing, pr_state_version := pr_state_version r + 1, pr_updated_at := now\<rparr>"
  have fresh: "op \<notin> po_id ` set (operations s)" and eq: "operations u = operations s @ [?o]"
      "leases u = leases ?s1" "resources u = resources (write_resource ?r ?s2)"
    using b unfolding begin_release_new [OF key row(2)] Let_def
    by (auto simp: write_lease_def write_resource_def split: if_splits)
  have "resource_row i t = resource_row i (write_resource ?r ?s2)" by (simp add: resource_row_def t eq)
  also have "\<dots> = Some ?r" using row(2) rid by simp
  finally have "resource_row i t = Some ?r" .
  with fresh t eq show ?thesis by (intro exI [of _ ?o]) (simp add: release_operation_def write_lease_def)
qed

definition settled_operation :: "release_outcome \<Rightarrow> operation_status" where
  "settled_operation outcome = (case outcome of OutcomeSucceeded \<Rightarrow> OpSucceeded | OutcomeFailed \<Rightarrow> OpFailed | OutcomeOther \<Rightarrow> OpUnknown)"

definition settled_resource :: "release_outcome \<Rightarrow> resource_lifecycle" where
  "settled_resource outcome = (case outcome of OutcomeSucceeded \<Rightarrow> Available | OutcomeFailed \<Rightarrow> ResCooldown | OutcomeOther \<Rightarrow> ReleaseUnknown)"

lemma remote_result_class:
  "snd (remote_result env rt ext st) = None \<longleftrightarrow> fst (remote_result env rt ext st) = OutcomeSucceeded"
  "fst (remote_result env rt ext st) \<noteq> OutcomeSucceeded \<Longrightarrow> given (snd (remote_result env rt ext st))"
  by (auto simp: remote_result_def given_def or_text_def split: option.split sum.split)

lemma find_refined: "row_by key k rows = Some x \<Longrightarrow> q x \<Longrightarrow> find (\<lambda>y. key y = k \<and> q y) rows = Some x"
  by (induction rows) (auto simp: row_by_def split: if_splits)

lemma store_release_result_run:
  assumes "resource_row (pr_id r) s = Some r'" and "operation_row (po_id o1) s = Some o'"
    and "pr_resource_generation r' = pr_resource_generation r" and "po_resource_generation o1 = Some (pr_resource_generation r)"
    and "pr_lifecycle_state r' \<in> {Releasing, ReleaseUnknown}"
    and "fst result = OutcomeSucceeded \<or> given (snd result)"
  shows "\<exists>t r2 o2. store_release_result env o1 r result s = (Inr (), t)
     \<and> resource_row (pr_id r) t = Some r2 \<and> operation_row (po_id o1) t = Some o2
     \<and> pr_lifecycle_state r2 = settled_resource (fst result) \<and> pr_readiness r2 = (if fst result = OutcomeSucceeded then Ready else NotReady)
     \<and> pr_resource_generation r2 = pr_resource_generation r + (if fst result = OutcomeSucceeded then 1 else 0)
     \<and> pr_encrypted_secret r2 = (if fst result = OutcomeSucceeded then None else pr_encrypted_secret r')
     \<and> po_status o2 = settled_operation (fst result)
     \<and> po_last_error_class o2 = (if fst result = OutcomeSucceeded then po_last_error_class o' else snd result)"
  using assms resource_row_id [OF assms(1)] operation_row_id [OF assms(2)]
  by (cases "fst result")
    (auto simp: store_release_result_def finalize_release_cas_def record_error_class_def first_number_def run
      settled_resource_def settled_operation_def)

text \<open>
  C2. A release ends what SMSBower was told: after the release of a running lease on one of its mailboxes, whatever
  other requests do to other rows meanwhile, the durable operation carries exactly the outcome and the error
  class of the remote answer. The mailbox is available again - under the next generation, without its
  secret - exactly if the activation was closed; refused, it cools down, and without a definite answer
  it stays in the unknown state.
\<close>

theorem release_settles_resource:
  assumes "release_external_lease env p lid s = (Inr res, t)"
    and "row_by ls_id lid (leases s) = Some l" and "ls_client_key_id l = Some (client_key_id p)" and "ls_released_at l = None"
    and "ls_provider_type l = ''smsbower_gmail''" and "ls_provider_resource_id l = Some i" and "i \<noteq> []"
    and "resource_row i s = Some r" and "pr_lifecycle_state r \<in> {Claimed, Available}" and "latest_release lid s = None"
    and "operation_by_key (release_key lid (pr_resource_generation r)) s = None"
    and "resource_row i \<circ> rf_others env = resource_row i"
    and "operation_row (rf_operation_id env) \<circ> rf_others env = operation_row (rf_operation_id env)"
    and "result = remote_result env (rf_runtime env (snd (release_lease (rf_operation_id env) (rf_now env 0) p lid s)))
           (pr_external_resource_id r) 3"
  shows "\<exists>r2 o2. resource_row i t = Some r2 \<and> operation_row (rf_operation_id env) t = Some o2
     \<and> pr_lifecycle_state r2 = settled_resource (fst result) \<and> (pr_readiness r2 = Ready \<longleftrightarrow> fst result = OutcomeSucceeded)
     \<and> pr_resource_generation r2 = pr_resource_generation r + (if fst result = OutcomeSucceeded then 1 else 0)
     \<and> pr_encrypted_secret r2 = (if fst result = OutcomeSucceeded then None else pr_encrypted_secret r)
     \<and> po_status o2 = settled_operation (fst result) \<and> po_last_error_class o2 = snd result"
proof -
  let ?op = "rf_operation_id env"
  obtain u where u: "release_lease ?op (rf_now env 0) p lid s = (Inr res, u)" "maybe_finalize_smsbower_release env lid u = (Inr (), t)"
    using assms(1) by (auto simp: release_external_lease_def bnd_run andthen_run transaction_run ret_run split: sum.splits prod.splits)
  have own: "owned_lease p lid s = Some l"
    using find_refined [OF assms(2)] assms(3) by (simp add: owned_lease_def)
  let ?r = "r\<lparr>pr_lifecycle_state := Releasing, pr_state_version := pr_state_version r + 1, pr_updated_at := rf_now env 0\<rparr>"
  obtain o1 where o1: "operations u = operations s @ [o1]" "?op \<notin> po_id ` set (operations s)" "po_id o1 = ?op"
      "po_lease_id o1 = Some lid" "po_operation_type o1 = Release" "po_status o1 = OpPending" "po_last_error_class o1 = None"
      "po_resource_generation o1 = Some (pr_resource_generation r)"
      "leases u = put_row ls_id (l\<lparr>ls_released_at := Some (rf_now env 0)\<rparr>) (leases s)" "resource_row i u = Some ?r"
    using released_smsbower [OF u(1) own assms(4-9,11)] by blast
  have lease: "row_by ls_id lid (leases u) = Some (l\<lparr>ls_released_at := Some (rf_now env 0)\<rparr>)"
    using assms(2) row_by_Some [OF assms(2)] by (simp add: o1(9))
  have latest: "latest_release lid u = Some o1"
    using assms(10) o1(1,4,5) by (simp add: latest_release_def)
  have id: "pr_id r = i" using resource_row_id [OF assms(8)] by simp
  have op: "operation_row ?op u = Some o1"
    using o1(1-3) by (simp add: operation_row_def row_by_append_new)
  have at: "resource_row i (rf_others env u) = Some ?r" "operation_row ?op (rf_others env u) = Some o1"
    using fun_cong [OF assms(12), of u] fun_cong [OF assms(13), of u] o1(10) op by simp_all
  have "store_release_result env o1 ?r result (rf_others env u) = (Inr (), t)"
    using u(2) assms(5-7,14) lease latest o1(6,10) u(1)
    by (simp add: maybe_finalize_smsbower_release_def run finalized_resource_def or_text_def split: sum.splits prod.splits)
  moreover have "fst result = OutcomeSucceeded \<or> given (snd result)" "snd result = None \<longleftrightarrow> fst result = OutcomeSucceeded"
    unfolding assms(14) using remote_result_class by blast+
  ultimately show ?thesis
    using store_release_result_run [of ?r "rf_others env u" ?r o1 o1 result env] at id o1(3,7,8) by auto
qed

definition release_sample :: release_env where
  \<comment> \<open>SMSBower cannot be reached\<close>
  "release_sample = \<lparr>rf_now = (\<lambda>k. 5 + int k), rf_operation_id = ''op'', rf_runtime = rn_runtime sample_replenish,
     rf_send = (\<lambda>_ _. Some (Inl \<lparr>sf_is_timeout = True, sf_is_unknown = True\<rparr>)), rf_others = (\<lambda>s. s)\<rparr>"

definition claimed_sample :: provider_resource where
  "claimed_sample = \<lparr>pr_id = ''res'', pr_provider_type = ''smsbower_gmail'', pr_provider_instance_id = ''default'',
     pr_external_resource_id = ''ext'', pr_primary_email = ''a@gmail.com'', pr_lifecycle_state = Claimed, pr_readiness = Ready,
     pr_state_version = 1, pr_resource_generation = 0, pr_encrypted_secret = Some ''x'', pr_metadata_json = None,
     pr_last_verification_code = None, pr_last_code_checked_at = None, pr_last_code_message_id = None,
     pr_created_at = 0, pr_updated_at = 0\<rparr>"

definition smsbower_leased :: db where
  "smsbower_leased = empty_db\<lparr>resources := [claimed_sample],
     leases := [(sample_lease ''l'' [] MailRead)\<lparr>ls_mailbox_id := None, ls_provider_resource_id := Some ''res'',
       ls_provider_type := ''smsbower_gmail''\<rparr>]\<rparr>"

theorem release_settles_resource_witness:
  "\<exists>t r2 o2. release_external_lease release_sample sample_principal ''l'' smsbower_leased = (Inr \<lparr>rr_lease_id = ''l'', rr_released_at = 5\<rparr>, t)
     \<and> resource_row ''res'' t = Some r2 \<and> pr_lifecycle_state r2 = ReleaseUnknown \<and> pr_encrypted_secret r2 = Some ''x''
     \<and> operation_row ''op'' t = Some o2 \<and> po_last_error_class o2 = Some ''timeout''"
proof -
  let ?f = "release_external_lease release_sample sample_principal ''l'' smsbower_leased"
  have "fst ?f = Inr \<lparr>rr_lease_id = ''l'', rr_released_at = 5\<rparr>" by code_simp
  then obtain t where t: "?f = (Inr \<lparr>rr_lease_id = ''l'', rr_released_at = 5\<rparr>, t)" by (metis prod.collapse)
  note rows = smsbower_leased_def claimed_sample_def sample_lease_def row_by_def empty_db_def
  have row: "resource_row ''res'' smsbower_leased = Some claimed_sample" by (simp add: rows resource_row_def)
  have "\<exists>r2 o2. resource_row ''res'' t = Some r2 \<and> operation_row ''op'' t = Some o2
     \<and> pr_lifecycle_state r2 = settled_resource OutcomeOther \<and> (pr_readiness r2 = Ready \<longleftrightarrow> OutcomeOther = OutcomeSucceeded)
     \<and> pr_resource_generation r2 = 0 + (if OutcomeOther = OutcomeSucceeded then 1 else 0)
     \<and> pr_encrypted_secret r2 = (if OutcomeOther = OutcomeSucceeded then None else Some ''x'')
     \<and> po_status o2 = settled_operation OutcomeOther \<and> po_last_error_class o2 = Some ''timeout''"
    using release_settles_resource [OF t, of "hd (leases smsbower_leased)" "''res''" claimed_sample "(OutcomeOther, Some ''timeout'')"]
    by (simp add: row) (simp add: rows latest_release_def operation_by_key_def release_sample_def remote_result_def comp_def)
  with t show ?thesis by (auto simp: settled_resource_def)
qed

end
