(* ===== verification/AdminViews.thy ===== *)
theory AdminViews
  imports ReleaseFlow ProxyPool Security "HOL-Library.Multiset"
begin

text \<open>
  What the administration console shows (\<open>main.py\<close>: \<open>get_dashboard_summary\<close>, \<open>get_proxy_dashboard\<close>,
  \<open>list_mailboxes\<close>, \<open>list_leases\<close>, \<open>list_egress_proxies\<close>, with the response models of \<open>schemas.py\<close>). A
  list is read page by page; \<open>ORDER BY\<close> is a stable sort, although the database leaves the order of
  equal rows open. Each request reads the clock once.
\<close>

subsection \<open>Pages\<close>

definition total_pages :: "nat \<Rightarrow> nat \<Rightarrow> nat" where
  "total_pages amount page_size = max 1 ((amount + page_size - 1) div page_size)"

definition page_of :: "nat \<Rightarrow> nat \<Rightarrow> 'r list \<Rightarrow> 'r list" where
  \<comment> \<open>\<open>page\<close> counts from 1; the interface admits no smaller one\<close>
  "page_of page page_size rows = take page_size (drop ((page - 1) * page_size) rows)"

record 'r listing =
  lg_total :: nat
  lg_page :: nat
  lg_page_size :: nat
  lg_total_pages :: nat
  lg_items :: "'r list"

definition listing_of :: "nat \<Rightarrow> nat \<Rightarrow> nat \<Rightarrow> 'r list \<Rightarrow> 'r listing" where
  "listing_of amount page page_size rows = \<lparr>lg_total = amount, lg_page = page, lg_page_size = page_size,
     lg_total_pages = total_pages amount page_size, lg_items = page_of page page_size rows\<rparr>"

subsection \<open>The dashboard\<close>

record dashboard =
  ds_total_mailbox_count :: nat
  ds_active_mailbox_count :: nat
  ds_usable_mailbox_count :: nat
  ds_invalid_mailbox_count :: nat
  ds_disabled_mailbox_count :: nat
  ds_cooldown_mailbox_count :: nat
  ds_imap_capable_mailbox_count :: nat
  ds_graph_capable_mailbox_count :: nat
  ds_unusable_mailbox_count :: nat
  ds_unprobed_capability_mailbox_count :: nat
  ds_active_lease_count :: nat
  ds_expired_lease_count :: nat
  ds_total_proxy_count :: nat
  ds_healthy_proxy_count :: nat
  ds_cooldown_proxy_count :: nat
  ds_bound_mailbox_count :: nat
  ds_recent_audit_count :: nat

definition running_lease :: "time \<Rightarrow> lease \<Rightarrow> bool" where
  "running_lease now l \<longleftrightarrow> ls_released_at l = None \<and> now < ls_expires_at l"

definition get_dashboard_summary :: "time \<Rightarrow> db \<Rightarrow> dashboard" where
  "get_dashboard_summary now s =
     (let ms = mailboxes s; status = (\<lambda>st. rowcount (\<lambda>m. mb_status m = st) ms);
          capability = (\<lambda>c. rowcount (\<lambda>m. mb_capability m = c) ms) in
      \<lparr>ds_total_mailbox_count = length ms, ds_active_mailbox_count = status MbActive,
       ds_usable_mailbox_count =
         rowcount (\<lambda>m. mb_status m = MbActive \<and> mb_capability m \<in> {Some CapImap, Some CapGraph}) ms,
       ds_invalid_mailbox_count = status MbInvalid, ds_disabled_mailbox_count = status MbDisabled,
       ds_cooldown_mailbox_count = status MbCooldown,
       ds_imap_capable_mailbox_count = capability (Some CapImap), ds_graph_capable_mailbox_count = capability (Some CapGraph),
       ds_unusable_mailbox_count = capability (Some CapUnusable), ds_unprobed_capability_mailbox_count = capability None,
       ds_active_lease_count = rowcount (running_lease now) (leases s),
       ds_expired_lease_count = rowcount (\<lambda>l. ls_released_at l = None \<and> ls_expires_at l \<le> now) (leases s),
       ds_total_proxy_count = length (proxies s),
       ds_healthy_proxy_count = rowcount (\<lambda>p. px_enabled p \<and> px_status p = PxHealthy) (proxies s),
       ds_cooldown_proxy_count = rowcount (\<lambda>p. px_status p = PxCooldown) (proxies s),
       ds_bound_mailbox_count = rowcount (\<lambda>m. mb_egress_proxy_id m \<noteq> None) ms,
       ds_recent_audit_count = length (audit_logs s)\<rparr>)"

record proxy_dashboard =
  pd_total_proxy_count :: nat
  pd_enabled_proxy_count :: nat
  pd_cooldown_proxy_count :: nat
  pd_bound_mailbox_count :: nat

definition get_proxy_dashboard :: "db \<Rightarrow> proxy_dashboard" where
  "get_proxy_dashboard s = \<lparr>pd_total_proxy_count = length (proxies s), pd_enabled_proxy_count = rowcount px_enabled (proxies s),
     pd_cooldown_proxy_count = rowcount (\<lambda>p. px_status p = PxCooldown) (proxies s),
     pd_bound_mailbox_count = rowcount (\<lambda>m. mb_egress_proxy_id m \<noteq> None) (mailboxes s)\<rparr>"

subsection \<open>Mailboxes\<close>

record mailbox_item =
  mt_id :: string
  mt_primary_email :: string
  mt_status :: mailbox_status
  mt_client_id :: "string option"
  mt_token_version :: int
  mt_egress_proxy_id :: "string option"
  mt_egress_proxy_name :: "string option"
  mt_proxy_bound_at :: "time option"
  mt_proxy_last_switch_at :: "time option"
  mt_has_access_token :: bool
  mt_access_token_expires_at :: "time option"
  mt_access_token_refreshed_at :: "time option"
  mt_refresh_token_updated_at :: "time option"
  mt_refresh_token_expires_at :: "time option"
  mt_scope :: "string option"
  mt_capability :: "mailbox_capability option"
  mt_capability_probed_at :: "time option"
  mt_capability_probe_error :: "string option"
  mt_active_lease_count :: nat
  mt_created_at :: time
  mt_updated_at :: time

definition mailbox_item_of :: "time \<Rightarrow> db \<Rightarrow> mailbox \<Rightarrow> mailbox_item" where
  "mailbox_item_of now s m = \<lparr>mt_id = mb_id m, mt_primary_email = mb_primary_email m, mt_status = mb_status m,
     mt_client_id = mb_client_id m, mt_token_version = mb_token_version m, mt_egress_proxy_id = mb_egress_proxy_id m,
     mt_egress_proxy_name = (case mb_egress_proxy_id m of None \<Rightarrow> None | Some i \<Rightarrow> map_option px_name (row_by px_id i (proxies s))),
     mt_proxy_bound_at = mb_proxy_bound_at m, mt_proxy_last_switch_at = mb_proxy_last_switch_at m,
     mt_has_access_token = (mb_access_token_ciphertext m \<noteq> None),
     mt_access_token_expires_at = mb_access_token_expires_at m, mt_access_token_refreshed_at = mb_access_token_refreshed_at m,
     mt_refresh_token_updated_at = mb_refresh_token_updated_at m, mt_refresh_token_expires_at = mb_refresh_token_expires_at m,
     mt_scope = mb_scope m, mt_capability = mb_capability m, mt_capability_probed_at = mb_capability_probed_at m,
     mt_capability_probe_error = mb_capability_probe_error m,
     mt_active_lease_count = rowcount (\<lambda>l. ls_mailbox_id l = Some (mb_id m) \<and> running_lease now l) (leases s),
     mt_created_at = mb_created_at m, mt_updated_at = mb_updated_at m\<rparr>"

definition listed_mailboxes :: "db \<Rightarrow> mailbox list" where
  \<comment> \<open>\<open>ORDER BY updated_at DESC, primary_email ASC\<close>\<close>
  "listed_mailboxes s = sort_key (\<lambda>m. (- mb_updated_at m, mb_primary_email m))
     (filter (\<lambda>m. mb_provider_type m = ''microsoft'') (mailboxes s))"

definition list_mailboxes :: "time \<Rightarrow> nat \<Rightarrow> nat \<Rightarrow> db \<Rightarrow> mailbox_item listing" where
  "list_mailboxes now page page_size s =
     listing_of (rowcount (\<lambda>m. mb_provider_type m = ''microsoft'') (mailboxes s)) page page_size
       (map (mailbox_item_of now s) (listed_mailboxes s))"

subsection \<open>Leases\<close>

datatype lease_status = StReleased | StExpired | StActive

record lease_item =
  lt_id :: string
  lt_mailbox_id :: "string option"
  lt_primary_email :: string
  lt_allocated_email :: "string option"
  lt_client_key_id :: "string option"
  lt_client_tag :: "string option"
  lt_purpose :: "string option"
  lt_mode :: lease_mode
  lt_status :: lease_status
  lt_expires_at :: time
  lt_released_at :: "time option"
  lt_created_at :: time

definition lease_item_of :: "time \<Rightarrow> lease \<Rightarrow> mailbox \<Rightarrow> lease_item" where
  "lease_item_of now l m = \<lparr>lt_id = ls_id l, lt_mailbox_id = ls_mailbox_id l, lt_primary_email = mb_primary_email m,
     lt_allocated_email = ls_allocated_email l, lt_client_key_id = ls_client_key_id l, lt_client_tag = ls_client_tag l,
     lt_purpose = ls_purpose l, lt_mode = ls_mode l,
     lt_status = (if ls_released_at l \<noteq> None then StReleased else if is_expired (ls_expires_at l) now then StExpired else StActive),
     lt_expires_at = ls_expires_at l, lt_released_at = ls_released_at l, lt_created_at = ls_created_at l\<rparr>"

definition lease_mailbox :: "db \<Rightarrow> lease \<Rightarrow> mailbox option" where
  "lease_mailbox s l = (case ls_mailbox_id l of None \<Rightarrow> None | Some i \<Rightarrow> mailbox_row i s)"

definition listed_leases :: "time \<Rightarrow> db \<Rightarrow> lease_item list" where
  \<comment> \<open>the inner join with the mailboxes\<close>
  "listed_leases now s = List.map_filter (\<lambda>l. map_option (lease_item_of now l) (lease_mailbox s l))
     (sort_key (\<lambda>l. - ls_created_at l) (leases s))"

definition list_leases :: "time \<Rightarrow> nat \<Rightarrow> nat \<Rightarrow> db \<Rightarrow> lease_item listing" where
  "list_leases now page page_size s = listing_of (length (leases s)) page page_size (listed_leases now s)"

subsection \<open>Proxies\<close>

record proxy_item =
  pt_id :: string
  pt_name :: string
  pt_protocol :: proxy_protocol
  pt_host :: string
  pt_host_preview :: string
  pt_port :: int
  pt_enabled :: bool
  pt_priority :: int
  pt_status :: proxy_status
  pt_has_credentials :: bool
  pt_consecutive_failure_count :: int
  pt_cooldown_until :: "time option"
  pt_last_success_at :: "time option"
  pt_last_failure_at :: "time option"
  pt_last_error_summary :: "string option"
  pt_bound_mailbox_count :: nat
  pt_created_at :: time
  pt_updated_at :: time

definition serialize_proxy :: "egress_proxy \<Rightarrow> nat \<Rightarrow> proxy_item" where
  "serialize_proxy p bound = \<lparr>pt_id = px_id p, pt_name = px_name p, pt_protocol = px_protocol p, pt_host = px_host p,
     pt_host_preview = redact_proxy_host (px_host p), pt_port = px_port p, pt_enabled = px_enabled p,
     pt_priority = px_priority p, pt_status = px_status p,
     pt_has_credentials = (px_username_ciphertext p \<noteq> None \<or> px_password_ciphertext p \<noteq> None),
     pt_consecutive_failure_count = px_consecutive_failure_count p, pt_cooldown_until = px_cooldown_until p,
     pt_last_success_at = px_last_success_at p, pt_last_failure_at = px_last_failure_at p,
     pt_last_error_summary = px_last_error_summary p, pt_bound_mailbox_count = bound,
     pt_created_at = px_created_at p, pt_updated_at = px_updated_at p\<rparr>"

definition count_bound_mailboxes :: "db \<Rightarrow> string \<Rightarrow> nat" where
  "count_bound_mailboxes s i = rowcount (\<lambda>m. mb_egress_proxy_id m = Some i) (mailboxes s)"

definition list_egress_proxies :: "db \<Rightarrow> proxy_item list" where
  "list_egress_proxies s = map (\<lambda>p. serialize_proxy p (count_bound_mailboxes s (px_id p)))
     (sort_key (\<lambda>p. (px_priority p, px_name p)) (proxies s))"

subsection \<open>Reading every page\<close>

text \<open>
  The contract of a list that is read page by page: a page is a slice of the rows, and the reported total is
  not below their number. Whoever reads the reported number of pages then has seen every row once.
\<close>

locale paged =
  fixes rows :: "'s \<Rightarrow> 'r list" and listing :: "nat \<Rightarrow> nat \<Rightarrow> 's \<Rightarrow> 'r listing" and amount :: "'s \<Rightarrow> nat"
  assumes items: "lg_items (listing page page_size s) = page_of page page_size (rows s)"
    and pages: "lg_total_pages (listing page page_size s) = total_pages (amount s) page_size"
    and enough: "length (rows s) \<le> amount s"
begin

lemma first_pages: "concat (map (\<lambda>k. lg_items (listing (Suc k) n s)) [0..<m]) = take (m * n) (rows s)"
  by (induction m) (simp_all add: items page_of_def take_add [symmetric] add.commute)

lemma all_pages:
  assumes "0 < n"
  shows "concat (map (\<lambda>k. lg_items (listing (Suc k) n s)) [0..<lg_total_pages (listing p n s)]) = rows s"
proof -
  have "amount s \<le> (amount s + n - 1) div n * n"
    using div_mult_mod_eq [of "amount s + n - 1" n] mod_less_divisor [OF assms, of "amount s + n - 1"] by arith
  also have "\<dots> \<le> total_pages (amount s) n * n" by (simp add: total_pages_def)
  finally have "length (rows s) \<le> total_pages (amount s) n * n" using enough le_trans by blast
  then show ?thesis by (simp add: first_pages pages)
qed

end

interpretation mailbox_pages: paged "\<lambda>s. map (mailbox_item_of now s) (listed_mailboxes s)" "list_mailboxes now"
    "\<lambda>s. rowcount (\<lambda>m. mb_provider_type m = ''microsoft'') (mailboxes s)" for now
  by unfold_locales (simp_all add: list_mailboxes_def listing_of_def listed_mailboxes_def rowcount_def)

lemma length_map_filter: "length (List.map_filter f xs) = rowcount (\<lambda>x. f x \<noteq> None) xs"
  by (simp add: List.map_filter_def rowcount_def)

lemma rowcount_sort [simp]: "rowcount p (sort_key f xs) = rowcount p xs"
proof -
  have "mset (filter p (sort_key f xs)) = mset (filter p xs)" by simp
  then show ?thesis unfolding rowcount_def by (metis size_mset)
qed

lemma rowcount_split: "rowcount p xs + rowcount (\<lambda>x. \<not> p x) xs = length xs"
  by (simp add: rowcount_def sum_length_filter_compl)

lemma rowcount_le: "rowcount p xs \<le> length xs"
  by (simp add: rowcount_def)

lemma listed_leases_length: "length (listed_leases now s) = rowcount (\<lambda>l. lease_mailbox s l \<noteq> None) (leases s)"
  by (simp add: listed_leases_def length_map_filter)

interpretation lease_pages: paged "listed_leases now" "list_leases now" "\<lambda>s. length (leases s)" for now
  by unfold_locales (simp_all add: list_leases_def listing_of_def listed_leases_length rowcount_le)

text \<open>
  Every Microsoft mailbox is shown exactly once: the pages the list reports, put together, are these mailboxes
  ordered by the time of their last change, newest first, and then by address, and their number is the
  reported total.
\<close>

theorem mailbox_list_complete:
  assumes "0 < page_size" and "p = list_mailboxes now 1 page_size s"
    and "shown = concat (map (\<lambda>k. lg_items (list_mailboxes now (Suc k) page_size s)) [0..<lg_total_pages p])"
  shows "mset shown = image_mset (mailbox_item_of now s) (filter_mset (\<lambda>m. mb_provider_type m = ''microsoft'') (mset (mailboxes s)))
     \<and> sorted (map (\<lambda>i. (- mt_updated_at i, mt_primary_email i)) shown) \<and> length shown = lg_total p"
proof -
  have shown: "shown = map (mailbox_item_of now s) (listed_mailboxes s)"
    unfolding assms(2,3) by (rule mailbox_pages.all_pages [OF assms(1)])
  have "map (\<lambda>i. (- mt_updated_at i, mt_primary_email i)) shown = map (\<lambda>m. (- mb_updated_at m, mb_primary_email m)) (listed_mailboxes s)"
    by (simp add: shown mailbox_item_of_def)
  moreover have "sorted \<dots>" by (simp only: listed_mailboxes_def sorted_sort_key)
  ultimately have "sorted (map (\<lambda>i. (- mt_updated_at i, mt_primary_email i)) shown)" by metis
  moreover have "lg_total p = length shown"
    by (simp add: shown assms(2) list_mailboxes_def listing_of_def listed_mailboxes_def rowcount_def)
  ultimately show ?thesis by (simp add: shown listed_mailboxes_def)
qed

text \<open>
  The lease list reports a total it does not show: over all pages it lists the leases whose mailbox exists,
  so every lease on a provider resource, and every one whose mailbox was deleted, is counted and never
  listed.
\<close>

theorem lease_list_accounts:
  assumes "0 < page_size" and "p = list_leases now 1 page_size s"
    and "shown = concat (map (\<lambda>k. lg_items (list_leases now (Suc k) page_size s)) [0..<lg_total_pages p])"
  shows "length shown + rowcount (\<lambda>l. lease_mailbox s l = None) (leases s) = lg_total p"
proof -
  have "shown = listed_leases now s" unfolding assms(2,3) by (rule lease_pages.all_pages [OF assms(1)])
  then show ?thesis
    using rowcount_split [of "\<lambda>l. lease_mailbox s l \<noteq> None" "leases s"]
    by (simp add: listed_leases_length assms(2) list_leases_def listing_of_def)
qed

subsection \<open>The figures agree\<close>

lemma rowcount_Cons [simp]: "rowcount p (x # xs) = (if p x then 1 else 0) + rowcount p xs"
  by (simp add: rowcount_def)

lemma rowcount_Nil [simp]: "rowcount p [] = 0"
  by (simp add: rowcount_def)

lemma rowcount_mono: "(\<And>x. p x \<Longrightarrow> q x) \<Longrightarrow> rowcount p xs \<le> rowcount q xs"
  by (induction xs) auto

lemma rowcount_groups:
  assumes "finite ks"
  shows "(\<Sum>k \<in> ks. rowcount (\<lambda>x. f x = Some k) xs) = rowcount (\<lambda>x. f x \<in> Some ` ks) xs"
proof (induction xs)
  case Nil
  then show ?case by simp
next
  case (Cons a xs)
  have "(\<Sum>k \<in> ks. if f a = Some k then 1 else 0) = (if f a \<in> Some ` ks then 1 else (0::nat))"
    using assms by (cases "f a") (simp_all add: inj_image_mem_iff)
  with Cons show ?case by (simp add: sum.distrib)
qed

lemma sum_list_sort [simp]: "sum_list (map g (sort_key f xs)) = (sum_list (map g xs) :: nat)"
  by (metis mset_sort mset_map sum_mset_sum_list)

definition bindings_resolve :: "db \<Rightarrow> bool" where
  "bindings_resolve s \<longleftrightarrow> distinct (map px_id (proxies s))
     \<and> list_all (\<lambda>m. mb_egress_proxy_id m \<in> insert None (Some ` px_id ` set (proxies s))) (mailboxes s)"

text \<open>
  The figures of the console agree with each other: every mailbox is counted under exactly one status, the
  usable ones are active ones, no lease is both active and expired, and where the bindings respect their
  foreign key the bound mailboxes of both dashboards are those the proxy list shows.
\<close>

theorem dashboard_figures_agree:
  assumes "bindings_resolve s" and "d = get_dashboard_summary now s"
  shows "ds_total_mailbox_count d = ds_active_mailbox_count d + ds_invalid_mailbox_count d
       + ds_disabled_mailbox_count d + ds_cooldown_mailbox_count d
     \<and> ds_usable_mailbox_count d \<le> ds_active_mailbox_count d
     \<and> ds_active_lease_count d + ds_expired_lease_count d = rowcount (\<lambda>l. ls_released_at l = None) (leases s)
     \<and> sum_list (map pt_bound_mailbox_count (list_egress_proxies s)) = ds_bound_mailbox_count d
     \<and> pd_bound_mailbox_count (get_proxy_dashboard s) = ds_bound_mailbox_count d"
proof -
  have "length ms = rowcount (\<lambda>m. mb_status m = MbActive) ms + rowcount (\<lambda>m. mb_status m = MbInvalid) ms
      + rowcount (\<lambda>m. mb_status m = MbDisabled) ms + rowcount (\<lambda>m. mb_status m = MbCooldown) ms" for ms
  proof (induction ms)
    case (Cons a ms)
    then show ?case by (cases "mb_status a") simp_all
  qed simp
  moreover have "rowcount (running_lease now) ls + rowcount (\<lambda>l. ls_released_at l = None \<and> ls_expires_at l \<le> now) ls
      = rowcount (\<lambda>l. ls_released_at l = None) ls" for ls
    by (induction ls) (auto simp: running_lease_def)
  moreover have "sum_list (map pt_bound_mailbox_count (list_egress_proxies s)) = rowcount (\<lambda>m. mb_egress_proxy_id m \<noteq> None) (mailboxes s)"
  proof -
    have "sum_list (map pt_bound_mailbox_count (list_egress_proxies s))
        = sum_list (map (\<lambda>i. rowcount (\<lambda>m. mb_egress_proxy_id m = Some i) (mailboxes s)) (map px_id (proxies s)))"
      by (simp add: list_egress_proxies_def comp_def serialize_proxy_def count_bound_mailboxes_def)
    also have "\<dots> = (\<Sum>i \<in> px_id ` set (proxies s). rowcount (\<lambda>m. mb_egress_proxy_id m = Some i) (mailboxes s))"
      using assms(1) by (subst sum_list_distinct_conv_sum_set) (simp_all add: bindings_resolve_def)
    also have "\<dots> = rowcount (\<lambda>m. mb_egress_proxy_id m \<in> Some ` px_id ` set (proxies s)) (mailboxes s)"
      by (rule rowcount_groups) simp
    also have "\<dots> = rowcount (\<lambda>m. mb_egress_proxy_id m \<noteq> None) (mailboxes s)"
      using assms(1) unfolding rowcount_def by (intro arg_cong [where f = length] filter_cong)
        (auto simp: bindings_resolve_def list_all_iff)
    finally show ?thesis .
  qed
  ultimately show ?thesis
    by (auto simp: assms(2) get_dashboard_summary_def get_proxy_dashboard_def Let_def intro: rowcount_mono)
qed

subsection \<open>No secret is shown\<close>

definition blank_mailbox :: "mailbox \<Rightarrow> mailbox" where
  "blank_mailbox m = m\<lparr>mb_mail_password_ciphertext := None, mb_refresh_token_ciphertext := None,
     mb_access_token_ciphertext := map_option (\<lambda>_. []) (mb_access_token_ciphertext m), mb_last_verification_code := None\<rparr>"

definition blank_proxy :: "egress_proxy \<Rightarrow> egress_proxy" where
  "blank_proxy p = p\<lparr>px_username_ciphertext := map_option (\<lambda>_. []) (px_username_ciphertext p),
     px_password_ciphertext := map_option (\<lambda>_. []) (px_password_ciphertext p), px_credential_fingerprint := []\<rparr>"

definition without_secrets :: "db \<Rightarrow> db" where
  \<comment> \<open>every stored secret replaced; of an access token and a proxy credential it stays visible that there is one\<close>
  "without_secrets s = s\<lparr>mailboxes := map blank_mailbox (mailboxes s), proxies := map blank_proxy (proxies s),
     client_keys := map (ck_secret_digest_update (\<lambda>_. [])) (client_keys s),
     resources := map (\<lambda>r. r\<lparr>pr_encrypted_secret := None, pr_last_verification_code := None\<rparr>) (resources s),
     instance_settings := []\<rparr>"

definition console_views ::
    "time \<Rightarrow> nat \<Rightarrow> nat \<Rightarrow> db \<Rightarrow> dashboard \<times> proxy_dashboard \<times> mailbox_item listing \<times> lease_item listing \<times> proxy_item list" where
  "console_views now page page_size s = (get_dashboard_summary now s, get_proxy_dashboard s, list_mailboxes now page page_size s,
     list_leases now page page_size s, list_egress_proxies s)"

lemma rowcount_map [simp]: "rowcount p (map f xs) = rowcount (\<lambda>x. p (f x)) xs"
  by (simp add: rowcount_def filter_map comp_def)

lemma row_by_map: "(\<And>r. key (f r) = key r) \<Longrightarrow> row_by key k (map f rows) = map_option f (row_by key k rows)"
  by (induction rows) (auto simp: row_by_def)

lemma blank_fields [simp]:
  "mb_id (blank_mailbox m) = mb_id m" "mb_status (blank_mailbox m) = mb_status m"
  "mb_capability (blank_mailbox m) = mb_capability m" "mb_egress_proxy_id (blank_mailbox m) = mb_egress_proxy_id m"
  "mb_provider_type (blank_mailbox m) = mb_provider_type m" "mb_updated_at (blank_mailbox m) = mb_updated_at m"
  "mb_primary_email (blank_mailbox m) = mb_primary_email m"
  "px_id (blank_proxy p) = px_id p" "px_name (blank_proxy p) = px_name p" "px_enabled (blank_proxy p) = px_enabled p"
  "px_status (blank_proxy p) = px_status p" "px_priority (blank_proxy p) = px_priority p"
  by (simp_all add: blank_mailbox_def blank_proxy_def)

lemma blank_tables [simp]:
  "mailboxes (without_secrets s) = map blank_mailbox (mailboxes s)" "proxies (without_secrets s) = map blank_proxy (proxies s)"
  "leases (without_secrets s) = leases s" "audit_logs (without_secrets s) = audit_logs s"
  by (simp_all add: without_secrets_def)

lemma blank_items:
  "mailbox_item_of now (without_secrets s) (blank_mailbox m) = mailbox_item_of now s m"
  "lease_item_of now l (blank_mailbox m) = lease_item_of now l m"
  "serialize_proxy (blank_proxy p) n = serialize_proxy p n"
  by (auto simp: mailbox_item_of_def lease_item_of_def serialize_proxy_def row_by_map option.map_comp comp_def
      blank_mailbox_def blank_proxy_def split: option.split)

lemma blank_lease_mailbox: "lease_mailbox (without_secrets s) l = map_option blank_mailbox (lease_mailbox s l)"
  by (simp add: lease_mailbox_def mailbox_row_def row_by_map split: option.split)

lemma blank_lists:
  "list_mailboxes now page n (without_secrets s) = list_mailboxes now page n s"
  "list_leases now page n (without_secrets s) = list_leases now page n s"
  "list_egress_proxies (without_secrets s) = list_egress_proxies s"
  by (simp_all add: list_mailboxes_def listed_mailboxes_def list_leases_def listed_leases_def list_egress_proxies_def
      count_bound_mailboxes_def filter_map map_sort_key comp_def blank_items blank_lease_mailbox option.map_comp)

text \<open>
  The mailbox, lease and proxy lists and the two dashboards show no secret: two databases that differ in stored
  passwords, tokens, codes, digests or proxy credentials only, and in which the same ones are present, give the
  same views.
\<close>

lemma console_hides_secrets: "console_views now page page_size (without_secrets s) = console_views now page page_size s"
  by (simp add: console_views_def get_dashboard_summary_def get_proxy_dashboard_def Let_def blank_lists)

subsection \<open>Runs\<close>

definition console_sample :: db where
  \<comment> \<open>one bound mailbox, its proxy, and a lease on a provider resource\<close>
  "console_sample = smsbower_leased\<lparr>mailboxes := [(sample_mailbox ''m'')\<lparr>mb_egress_proxy_id := Some ''p''\<rparr>],
     proxies := [\<lparr>px_id = ''p'', px_name = ''n'', px_protocol = Socks5, px_host = ''h.example'', px_port = 1080,
       px_username_ciphertext = Some ''u'', px_password_ciphertext = None, px_credential_fingerprint = ''f'', px_enabled = True,
       px_priority = 0, px_status = PxHealthy, px_consecutive_failure_count = 0, px_cooldown_until = None, px_last_success_at = None,
       px_last_failure_at = None, px_last_error_summary = None, px_last_observed_at = None, px_health_version = 0,
       px_created_at = 0, px_updated_at = 0\<rparr>]\<rparr>"

theorem mailbox_list_complete_witness:
  "length (concat (map (\<lambda>k. lg_items (list_mailboxes 5 (Suc k) 1 console_sample))
       [0..<lg_total_pages (list_mailboxes 5 1 1 console_sample)])) = 1"
proof -
  have "lg_total (list_mailboxes 5 1 1 console_sample) = 1"
    by (simp add: list_mailboxes_def listing_of_def console_sample_def sample_fields)
  with mailbox_list_complete [OF _ refl refl, of 1 5 console_sample] show ?thesis by simp
qed

theorem lease_list_accounts_witness:
  "length (concat (map (\<lambda>k. lg_items (list_leases 5 (Suc k) 1 console_sample))
       [0..<lg_total_pages (list_leases 5 1 1 console_sample)])) = 0 \<and> lg_total (list_leases 5 1 1 console_sample) = 1"
proof -
  have "rowcount (\<lambda>l. lease_mailbox console_sample l = None) (leases console_sample) = 1"
      "lg_total (list_leases 5 1 1 console_sample) = 1"
    by (simp_all add: list_leases_def listing_of_def console_sample_def smsbower_leased_def lease_mailbox_def)
  with lease_list_accounts [OF _ refl refl, of 1 5 console_sample] show ?thesis by simp
qed

theorem dashboard_figures_agree_witness: "sum_list (map pt_bound_mailbox_count (list_egress_proxies console_sample)) = 1"
proof -
  have "bindings_resolve console_sample" by (simp add: bindings_resolve_def console_sample_def)
  from dashboard_figures_agree [OF this refl, of 5]
  show ?thesis by (simp add: get_proxy_dashboard_def console_sample_def)
qed

end
