(* ===== verification/ApiSchemas.thy ===== *)
theory ApiSchemas
  imports LeaseAcquire CodePoll
begin

text \<open>
  The request bodies of the external interface and of its administration (\<open>schemas.py\<close>): the bounds of
  the fields and the validators that normalize them. A body here has passed pydantic's check of the JSON
  types; a validator returns the normalized body, or \<open>None\<close> where the request is answered with 422.
  Lengths are bounded before the text is normalized, as pydantic does.
\<close>

subsection \<open>Fields\<close>

definition optional_text :: "string option \<Rightarrow> string option" where
  \<comment> \<open>\<open>value.strip() or None\<close>\<close>
  "optional_text v = (case v of None \<Rightarrow> None | Some x \<Rightarrow> if strip x = [] then None else Some (strip x))"

definition optional_lower :: "string option \<Rightarrow> string option" where
  "optional_lower v = (case v of None \<Rightarrow> None | Some x \<Rightarrow> if strip_lower x = [] then None else Some (strip_lower x))"

definition at_most :: "nat \<Rightarrow> string option \<Rightarrow> bool" where
  "at_most n v \<longleftrightarrow> (case v of None \<Rightarrow> True | Some x \<Rightarrow> length x \<le> n)"

definition in_range :: "int \<Rightarrow> int \<Rightarrow> int \<Rightarrow> bool" where
  "in_range lo hi k \<longleftrightarrow> lo \<le> k \<and> k \<le> hi"

definition accept :: "bool \<Rightarrow> 'a \<Rightarrow> 'a option" where
  "accept ok x = (if ok then Some x else None)"

fun provider_type_list :: "string list \<Rightarrow> json list \<Rightarrow> unit + string list option" where
  \<comment> \<open>the loop; \<open>Inr None\<close> is the answer \<open>None\<close>, and \<open>Inl\<close> a \<open>ValueError\<close>\<close>
  "provider_type_list acc [] = Inr (if acc = [] then None else Some acc)"
| "provider_type_list acc (v # vs) =
     (case v of
        JNull \<Rightarrow> provider_type_list acc vs
      | JStr x \<Rightarrow>
          (let t = strip_lower x in
           if t = [] then provider_type_list acc vs
           else if t = ''all'' then Inr None
           else provider_type_list (if t \<in> set acc then acc else acc @ [t]) vs)
      | _ \<Rightarrow> Inl ())"

definition normalize_provider_type_list :: "json \<Rightarrow> unit + string list option" where
  "normalize_provider_type_list v =
     (case v of JNull \<Rightarrow> Inr None | JStr _ \<Rightarrow> provider_type_list [] [v] | JArr vs \<Rightarrow> provider_type_list [] vs | _ \<Rightarrow> Inl ())"

subsection \<open>Leases\<close>

record lease_acquire_body =
  lb_mode :: lease_mode
  lb_lease_ttl_seconds :: int
  lb_preferred_email :: "string option"
  lb_provider :: "string option"
  lb_client_tag :: "string option"
  lb_purpose :: "string option"

definition validate_lease_acquire :: "lease_acquire_body \<Rightarrow> lease_acquire_body option" where
  "validate_lease_acquire b = accept
     (lb_mode b \<in> {AccessToken, RefreshToken} \<and> in_range 60 86400 (lb_lease_ttl_seconds b) \<and> at_most 320 (lb_preferred_email b)
        \<and> at_most 64 (lb_provider b) \<and> at_most 100 (lb_client_tag b) \<and> at_most 100 (lb_purpose b))
     (b\<lparr>lb_preferred_email := optional_text (lb_preferred_email b), lb_provider := optional_lower (optional_text (lb_provider b)),
        lb_client_tag := optional_text (lb_client_tag b), lb_purpose := optional_text (lb_purpose b)\<rparr>)"

record mailbox_acquire_body =
  ab_lease_ttl_seconds :: int
  ab_preferred_email :: "string option"
  ab_use_plus_alias :: bool
  ab_alias_suffix :: "string option"
  ab_usage_site :: "string option"
  ab_client_tag :: "string option"
  ab_purpose :: "string option"

definition validate_mailbox_acquire ::
    "mailbox_acquire_body \<Rightarrow> json \<Rightarrow> json \<Rightarrow> (mailbox_acquire_body \<times> string list option \<times> string list option) option" where
  \<comment> \<open>the body, and its fields \<open>provider\<close> and \<open>exclude_providers\<close>, which take a text, a list or nothing\<close>
  "validate_mailbox_acquire b provider exclude =
     (case (normalize_provider_type_list provider, normalize_provider_type_list exclude) of
        (Inr ps, Inr xs) \<Rightarrow> accept
          (in_range 60 86400 (ab_lease_ttl_seconds b) \<and> at_most 320 (ab_preferred_email b) \<and> at_most 32 (ab_alias_suffix b)
             \<and> at_most 64 (ab_usage_site b) \<and> at_most 100 (ab_client_tag b) \<and> at_most 100 (ab_purpose b))
          (b\<lparr>ab_preferred_email := optional_text (ab_preferred_email b), ab_alias_suffix := optional_text (ab_alias_suffix b),
             ab_usage_site := optional_lower (optional_text (ab_usage_site b)),
             ab_client_tag := optional_text (ab_client_tag b), ab_purpose := optional_text (ab_purpose b)\<rparr>, ps, xs)
      | _ \<Rightarrow> None)"

record reacquire_body =
  qb_email :: string
  qb_lease_ttl_seconds :: int
  qb_client_tag :: "string option"
  qb_purpose :: "string option"

definition validate_reacquire :: "reacquire_body \<Rightarrow> reacquire_body option" where
  "validate_reacquire b = accept
     (3 \<le> length (qb_email b) \<and> length (qb_email b) \<le> 320 \<and> strip_lower (qb_email b) \<noteq> [] \<and> in_range 60 86400 (qb_lease_ttl_seconds b)
        \<and> at_most 100 (qb_client_tag b) \<and> at_most 100 (qb_purpose b))
     (b\<lparr>qb_email := strip_lower (qb_email b), qb_client_tag := optional_text (qb_client_tag b), qb_purpose := optional_text (qb_purpose b)\<rparr>)"

record refresh_token_body =
  tb_expected_token_version :: int
  tb_refresh_token :: string

definition validate_refresh_token :: "refresh_token_body \<Rightarrow> refresh_token_body option" where
  "validate_refresh_token b = accept
     (1 \<le> tb_expected_token_version b \<and> 1 \<le> length (tb_refresh_token b) \<and> length (tb_refresh_token b) \<le> 16384
        \<and> CHR 0x0A \<notin> set (tb_refresh_token b) \<and> CHR 0x0D \<notin> set (tb_refresh_token b) \<and> \<not> contains (tb_refresh_token b) ''----''
        \<and> strip (tb_refresh_token b) \<noteq> [])
     (b\<lparr>tb_refresh_token := strip (tb_refresh_token b)\<rparr>)"

subsection \<open>Verification codes\<close>

record code_body =
  cb_options :: lookup_options
  cb_pattern_type :: "pattern_type option"
  cb_pattern_minimum_length :: "int option"
  cb_pattern_maximum_length :: "int option"
  cb_pattern_prefix :: "string option"

definition optional_range :: "int \<Rightarrow> int \<Rightarrow> int option \<Rightarrow> bool" where
  "optional_range lo hi v \<longleftrightarrow> (case v of None \<Rightarrow> True | Some k \<Rightarrow> in_range lo hi k)"

definition validate_code_request :: "code_body \<Rightarrow> code_body option" where
  "validate_code_request b =
     (let q = cb_options b; regex = optional_text (lo_code_regex q) in
      accept
       (in_range 0 300 (lo_timeout_seconds q) \<and> in_range 30 3600 (lo_since_seconds q) \<and> in_range 1 30 (lo_poll_interval_seconds q)
          \<and> at_most 320 (lo_from_address q) \<and> at_most 200 (lo_subject_contains q) \<and> at_most 200 (lo_body_contains q)
          \<and> at_most 320 (lo_recipient q) \<and> at_most 200 (lo_code_regex q)
          \<and> (case regex of None \<Rightarrow> True | Some r \<Rightarrow> r \<in> fst ` set safe_code_regex_presets)
          \<and> optional_range 4 16 (cb_pattern_minimum_length b) \<and> optional_range 4 16 (cb_pattern_maximum_length b)
          \<and> at_most 32 (cb_pattern_prefix b))
       (b\<lparr>cb_options := q\<lparr>lo_from_address := optional_text (lo_from_address q), lo_subject_contains := optional_text (lo_subject_contains q),
            lo_body_contains := optional_text (lo_body_contains q), lo_recipient := optional_text (lo_recipient q), lo_code_regex := regex\<rparr>,
          cb_pattern_prefix := optional_text (cb_pattern_prefix b)\<rparr>))"

definition lookup_options_of :: "code_body \<Rightarrow> lookup_options" where
  \<comment> \<open>the handler builds the options without the four pattern fields\<close>
  "lookup_options_of b = cb_options b"

subsection \<open>Administration\<close>

record client_key_body =
  kb_name :: string
  kb_scopes :: "string list"
  kb_expires_at :: "time option"   \<comment> \<open>of a creation\<close>

definition validate_client_key :: "client_key_body \<Rightarrow> client_key_body option" where
  "validate_client_key b = accept (1 \<le> length (kb_name b) \<and> length (kb_name b) \<le> 100 \<and> strip (kb_name b) \<noteq> [] \<and> kb_scopes b \<noteq> [])
     (b\<lparr>kb_name := strip (kb_name b)\<rparr>)"

fun unique_ids :: "string list \<Rightarrow> string list \<Rightarrow> string list" where
  \<comment> \<open>the loop; the first argument holds the ids seen so far, in order\<close>
  "unique_ids seen [] = seen"
| "unique_ids seen (raw # ids) =
     (let x = strip raw in if x = [] \<or> x \<in> set seen then unique_ids seen ids else unique_ids (seen @ [x]) ids)"

definition validate_mailbox_ids :: "string list \<Rightarrow> string list option" where
  "validate_mailbox_ids ids =
     (let unique = unique_ids [] ids in
      accept (1 \<le> length ids \<and> length ids \<le> 500 \<and> unique \<noteq> [] \<and> length unique \<le> 500) unique)"

definition validate_unprobed_batch :: "int \<Rightarrow> int option" where
  "validate_unprobed_batch batch_size = accept (in_range 1 5000 batch_size) batch_size"

definition usage_site_code_chars :: string where
  "usage_site_code_chars = ''abcdefghijklmnopqrstuvwxyz0123456789._-''"

record usage_site_body =
  wb_code :: string
  wb_display_name :: string
  wb_enabled :: bool

definition validate_usage_site :: "usage_site_body \<Rightarrow> usage_site_body option" where
  "validate_usage_site b = accept
     (2 \<le> length (wb_code b) \<and> length (wb_code b) \<le> 64 \<and> 1 \<le> length (wb_display_name b) \<and> length (wb_display_name b) \<le> 100
        \<and> strip_lower (wb_code b) \<noteq> [] \<and> list_all (\<lambda>c. c \<in> set usage_site_code_chars) (strip_lower (wb_code b))
        \<and> strip (wb_display_name b) \<noteq> [])
     (b\<lparr>wb_code := strip_lower (wb_code b), wb_display_name := strip (wb_display_name b)\<rparr>)"

record usage_site_change =
  wc_display_name :: "string option"
  wc_enabled :: "bool option"

definition validate_usage_site_change :: "usage_site_change \<Rightarrow> usage_site_change option" where
  "validate_usage_site_change b = accept
     (case wc_display_name b of None \<Rightarrow> True | Some x \<Rightarrow> 1 \<le> length x \<and> length x \<le> 100 \<and> strip x \<noteq> [])
     (b\<lparr>wc_display_name := map_option strip (wc_display_name b)\<rparr>)"

record operator_session_body =
  ob_provider_type :: string
  ob_provider_instance_id :: "string option"
  ob_domain :: "string option"
  ob_local_part :: "string option"
  ob_label :: "string option"
  ob_ttl_seconds :: int

definition validate_operator_session :: "operator_session_body \<Rightarrow> operator_session_body option" where
  "validate_operator_session b = accept
     (1 \<le> length (ob_provider_type b) \<and> length (ob_provider_type b) \<le> 64 \<and> at_most 64 (ob_provider_instance_id b)
        \<and> at_most 255 (ob_domain b) \<and> at_most 64 (ob_local_part b) \<and> at_most 100 (ob_label b) \<and> in_range 60 86400 (ob_ttl_seconds b)) b"

subsection \<open>The lists of providers\<close>

lemma provider_type_list_texts:
  assumes "''all'' \<notin> set (map strip_lower ts)" and "distinct acc"
  shows "provider_type_list acc (map JStr ts)
     = (let r = acc @ filter (\<lambda>t. t \<notin> set acc) (dedup (filter (\<lambda>t. t \<noteq> []) (map strip_lower ts))) in Inr (if r = [] then None else Some r))"
  using assms
proof (induction ts arbitrary: acc)
  case Nil
  then show ?case by simp
next
  case (Cons t ts)
  show ?case
  proof (cases "strip_lower t = [] \<or> strip_lower t \<in> set acc")
    case True
    then show ?thesis using Cons by (auto simp: Let_def intro!: arg_cong [where f = "(@) acc"] filter_cong)
  next
    case False
    then show ?thesis using Cons by (auto simp: Let_def conj_commute)
  qed
qed

lemma provider_type_list_all:
  assumes "''all'' \<in> set (map strip_lower ts)"
  shows "provider_type_list acc (map JStr ts) = Inr None"
  using assms by (induction ts arbitrary: acc) (auto simp: Let_def)

text \<open>
  The list of provider types a request gives means the same to the validator and to the lease service: without
  the word all it is the service's own normalization of the list, and a list with it is no restriction.
\<close>

lemma provider_lists_agree:
  "normalize_provider_type_list (JArr (map JStr ts)) = Inr
     (if ''all'' \<in> set (map strip_lower ts) \<or> normalize_provider_input_list (ManyProviders ts) = [] then None
      else Some (normalize_provider_input_list (ManyProviders ts)))"
proof (cases "''all'' \<in> set (map strip_lower ts)")
  case True
  then show ?thesis by (simp add: normalize_provider_type_list_def provider_type_list_all)
next
  case False
  then have "filter (\<lambda>t. t \<noteq> [] \<and> t \<noteq> ''all'') (map strip_lower ts) = filter (\<lambda>t. t \<noteq> []) (map strip_lower ts)"
    by (intro filter_cong refl) metis
  with False show ?thesis
    by (simp add: normalize_provider_type_list_def provider_type_list_texts normalize_provider_input_list_def provider_tokens_def Let_def)
qed

text \<open>The word all in the list of excluded types drops the types named beside it.\<close>

lemma excluding_all_excludes_nothing:
  "normalize_provider_type_list (JArr [JStr ''smsbower_gmail'', JStr ''all'']) = Inr None"
  by code_simp

lemma unique_ids_dedup:
  "distinct seen \<Longrightarrow> unique_ids seen ids = seen @ filter (\<lambda>x. x \<notin> set seen) (dedup (filter (\<lambda>x. x \<noteq> []) (map strip ids)))"
proof (induction ids arbitrary: seen)
  case Nil
  then show ?case by simp
next
  case (Cons a ids)
  show ?case
  proof (cases "strip a = [] \<or> strip a \<in> set seen")
    case True
    then show ?thesis using Cons by (auto simp: Let_def intro!: arg_cong [where f = "(@) seen"] filter_cong)
  next
    case False
    then show ?thesis using Cons by (auto simp: Let_def conj_commute)
  qed
qed

lemma mailbox_ids_dedup: "validate_mailbox_ids ids = Some xs \<Longrightarrow> xs = dedup (filter (\<lambda>x. x \<noteq> []) (map strip ids)) \<and> xs \<noteq> []"
  by (auto simp: validate_mailbox_ids_def unique_ids_dedup accept_def Let_def split: if_splits)

subsection \<open>Validation is stable\<close>

lemma optional_again [simp]:
  "optional_text (optional_text v) = optional_text v" "optional_lower (optional_lower v) = optional_lower v"
  "optional_text (optional_lower v) = optional_lower v"
  by (auto simp: optional_text_def optional_lower_def split: option.split)

lemma length_strip: "length (strip x) \<le> length x"
  using length_rstrip [of "lstrip x"] length_lstrip [of x] by (simp add: strip_def)

lemma at_most_again [simp]:
  "at_most n v \<Longrightarrow> at_most n (optional_text v)" "at_most n v \<Longrightarrow> at_most n (optional_lower v)"
  by (auto simp: at_most_def optional_text_def optional_lower_def strip_lower_def split: option.split
      intro: le_trans [OF length_strip])

definition provider_json :: "string list option \<Rightarrow> json" where
  "provider_json v = (case v of None \<Rightarrow> JNull | Some ts \<Rightarrow> JArr (map JStr ts))"

definition normal_types :: "string list \<Rightarrow> bool" where
  "normal_types ts \<longleftrightarrow> distinct ts \<and> list_all (\<lambda>t. strip_lower t = t \<and> t \<noteq> [] \<and> t \<noteq> ''all'') ts"

lemma provider_list_result: "normal_types acc \<Longrightarrow> provider_type_list acc vs = Inr (Some ts) \<Longrightarrow> normal_types ts \<and> ts \<noteq> []"
proof (induction vs arbitrary: acc)
  case Nil
  then show ?case by (simp split: if_splits)
next
  case (Cons v vs)
  show ?case
  proof (cases v)
    case (JStr x)
    let ?t = "strip_lower x"
    have n: "normal_types (acc @ [?t])" if "?t \<noteq> []" "?t \<noteq> ''all''" "?t \<notin> set acc"
      using that Cons.prems(1) by (simp add: normal_types_def)
    show ?thesis
    proof (cases "?t = [] \<or> ?t \<in> set acc")
      case True
      then show ?thesis using Cons.prems Cons.IH [OF Cons.prems(1)] by (simp add: JStr Let_def split: if_splits)
    next
      case False
      then show ?thesis using Cons.prems(2) Cons.IH [OF n] by (simp add: JStr Let_def split: if_splits)
    qed
  qed (use Cons in simp_all)
qed

lemma provider_list_again:
  assumes "normalize_provider_type_list v = Inr ps"
  shows "normalize_provider_type_list (provider_json ps) = Inr ps"
proof (cases ps)
  case None
  then show ?thesis by (simp add: provider_json_def normalize_provider_type_list_def)
next
  case (Some ts)
  with assms obtain vs where "provider_type_list [] vs = Inr (Some ts)"
    by (auto simp: normalize_provider_type_list_def simp del: provider_type_list.simps split: json.splits)
  from provider_list_result [OF _ this]
  have ts: "distinct ts" "ts \<noteq> []" "list_all (\<lambda>t. strip_lower t = t \<and> t \<noteq> [] \<and> t \<noteq> ''all'') ts" by (simp_all add: normal_types_def)
  then have "map strip_lower ts = ts" by (simp add: map_idI list_all_iff)
  moreover have "filter (\<lambda>t. t \<noteq> [] \<and> t \<noteq> ''all'') ts = ts" using ts(3) by (simp add: filter_id_conv list_all_iff)
  moreover have "''all'' \<notin> set ts" using ts(3) unfolding list_all_iff by blast
  ultimately show ?thesis
    using ts(1,2) provider_lists_agree [of ts]
    by (simp add: Some provider_json_def normalize_provider_input_list_def provider_tokens_def dedup_distinct)
qed

text \<open>
  Validation is stable: what a validator returns passes it again unchanged, so a client that resends the
  normalized body of a request, its provider lists as texts, asks for the same.
\<close>

theorem validated_bodies_are_stable:
  assumes "validate_mailbox_acquire b v x = Some (b', ps, xs)" and "validate_lease_acquire q = Some q'"
    and "validate_reacquire a = Some a'" and "validate_code_request c = Some c'" and "validate_mailbox_ids ids = Some ids'"
  shows "validate_mailbox_acquire b' (provider_json ps) (provider_json xs) = Some (b', ps, xs)
     \<and> validate_lease_acquire q' = Some q' \<and> validate_code_request c' = Some c'
     \<and> (3 \<le> length (qb_email a') \<longrightarrow> validate_reacquire a' = Some a') \<and> validate_mailbox_ids ids' = Some ids'"
proof (intro conjI impI)
  show "validate_mailbox_acquire b' (provider_json ps) (provider_json xs) = Some (b', ps, xs)"
    using assms(1) provider_list_again [of v ps] provider_list_again [of x xs]
    by (auto simp: validate_mailbox_acquire_def accept_def split: sum.splits if_splits)
  show "validate_lease_acquire q' = Some q'"
    using assms(2) by (auto simp: validate_lease_acquire_def accept_def split: if_splits)
  show "validate_code_request c' = Some c'"
    using assms(4) by (auto simp: validate_code_request_def accept_def Let_def split: if_splits)
  show "validate_reacquire a' = Some a'" if "3 \<le> length (qb_email a')"
    using assms(3) that length_strip [of "qb_email a"]
    by (auto simp: validate_reacquire_def accept_def strip_lower_def strip_lower_str split: if_splits)
  have ids: "ids' = dedup (filter (\<lambda>x. x \<noteq> []) (map strip ids))" "ids' \<noteq> []" "length ids' \<le> 500"
    using mailbox_ids_dedup [OF assms(5)] assms(5) by (auto simp: validate_mailbox_ids_def accept_def Let_def split: if_splits)
  then have "map strip ids' = ids'" by (intro map_idI) auto
  moreover have "filter (\<lambda>x. x \<noteq> []) ids' = ids'" using ids(1) by (simp add: filter_id_conv)
  moreover have "distinct ids'" using ids(1) by simp
  ultimately show "validate_mailbox_ids ids' = Some ids'"
    using ids(2,3)
    by (simp add: validate_mailbox_ids_def accept_def Let_def unique_ids_dedup dedup_distinct Suc_le_eq)
qed

end
