(* ===== verification/HttpApi.thy ===== *)
theory HttpApi
  imports ApiSchemas ReleaseFlow LeaseTokens CodeRequest
begin

text \<open>
  The external HTTP interface (\<open>main.py\<close>): the authentication of a client, the order of the checks before
  a handler runs, the handlers over the lease service, and the status and code each failure is answered
  with. A response is its fields; headers are not modelled. FastAPI resolves the dependencies in the order of
  the parameters, so the key is checked before the encryption key and both before the body.
\<close>

subsection \<open>Failures as responses\<close>

record http_error =
  hx_status :: nat
  hx_code :: "string option"   \<comment> \<open>\<open>None\<close> for the list of a failed validation\<close>

definition answer :: "nat \<Rightarrow> string \<Rightarrow> http_error" where
  "answer status name = \<lparr>hx_status = status, hx_code = Some name\<rparr>"

definition token_failure_http :: "token_failure \<Rightarrow> http_error" where
  "token_failure_http f = (case f of
     TokNotMicrosoft \<Rightarrow> answer 409 ''PROVIDER_NOT_MICROSOFT''
   | TokInvalidGrant \<Rightarrow> answer 409 ''MICROSOFT_REFRESH_TOKEN_INVALID''
   | TokOAuth \<Rightarrow> answer 502 ''MICROSOFT_TOKEN_REFRESH_FAILED''
   | TokOther \<Rightarrow> answer 500 ''EXTERNAL_API_ERROR'')"

definition to_external_http_exception :: "lease_error \<Rightarrow> http_error" where
  "to_external_http_exception e = (case e of
     ScopeDenied _ \<Rightarrow> answer 403 ''CLIENT_SCOPE_REQUIRED''
   | LeaseProviderUnsupported \<Rightarrow> answer 400 ''PROVIDER_UNSUPPORTED''
   | LeaseProviderNotConfigured \<Rightarrow> answer 503 ''PROVIDER_NOT_CONFIGURED''
   | LeaseNotFound \<Rightarrow> answer 404 ''LEASE_NOT_FOUND''
   | LeaseEmailNotFound \<Rightarrow> answer 404 ''EMAIL_NOT_FOUND''
   | LeaseMailboxBusy \<Rightarrow> answer 409 ''MAILBOX_BUSY''
   | LeaseUsageSite \<Rightarrow> answer 400 ''INVALID_USAGE_SITE''
   | LeaseEmailSiteConflict \<Rightarrow> answer 409 ''EMAIL_SITE_IN_USE''
   | LeaseUnavailable _ \<Rightarrow> answer 409 ''NO_AVAILABLE_MAILBOX''
   | LeaseInactive \<Rightarrow> answer 409 ''LEASE_INACTIVE''
   | LeaseModeMismatch \<Rightarrow> answer 409 ''LEASE_MODE_MISMATCH''
   | LeaseVersionConflict \<Rightarrow> answer 409 ''TOKEN_VERSION_CONFLICT''
   | TokenFailure f \<Rightarrow> token_failure_http f
   | LeaseValueError \<Rightarrow> answer 422 ''INVALID_REQUEST''
   | _ \<Rightarrow> answer 500 ''EXTERNAL_API_ERROR'')"

definition denial_code :: "poll_denial \<Rightarrow> string" where
  "denial_code d = (case d of KeyScopeDenied \<Rightarrow> ''CLIENT_KEY_SCOPE_DENIED'' | KeyInactive \<Rightarrow> ''CLIENT_KEY_INACTIVE''
     | KeyExpired \<Rightarrow> ''CLIENT_KEY_EXPIRED'' | PollLeaseNotFound \<Rightarrow> ''LEASE_NOT_FOUND'' | PollModeMismatch \<Rightarrow> ''LEASE_MODE_MISMATCH''
     | PollLeaseInactive \<Rightarrow> ''LEASE_INACTIVE'')"

definition denial_http :: "poll_denial \<Rightarrow> http_error" where
  "denial_http d = answer (if take 10 (denial_code d) = ''CLIENT_KEY'' then 403 else 409) (denial_code d)"

definition poll_failure_http :: "poll_error \<Rightarrow> http_error" where
  "poll_failure_http e = (case e of
     PollDenied d \<Rightarrow> denial_http d
   | UnsupportedFilter \<Rightarrow> answer 400 ''PROVIDER_FILTER_UNSUPPORTED''
   | PatternRefused _ \<Rightarrow> answer 422 ''INVALID_REQUEST''
   | _ \<Rightarrow> answer 502 ''MAILBOX_INBOX_READ_FAILED'')"

definition code_request_http :: "request_error \<Rightarrow> http_error" where
  "code_request_http e = (case e of
     RequestDenied d \<Rightarrow> denial_http d
   | LeaseRefused x \<Rightarrow> to_external_http_exception x
   | NoPollSlot _ \<Rightarrow> answer 429 ''VERIFICATION_POLL_CAPACITY_EXCEEDED''
   | PollFailed x \<Rightarrow> poll_failure_http x)"

subsection \<open>Before a handler\<close>

record api_env =
  ap_digest :: "string \<Rightarrow> string"
  ap_now :: time
  ap_cipher_configured :: bool

definition get_client_principal :: "api_env \<Rightarrow> string option \<Rightarrow> (db, http_error, principal) action" where
  "get_client_principal env key =
     lift_error (\<lambda>_. answer 401 ''CLIENT_API_KEY_INVALID'') (authenticate (ap_digest env) (ap_now env) key)"

definition client_request ::
    "api_env \<Rightarrow> string option \<Rightarrow> 'b option \<Rightarrow> (principal \<Rightarrow> 'b \<Rightarrow> (db, http_error, 'a) action) \<Rightarrow> (db, http_error, 'a) action" where
  \<comment> \<open>a failure rolls the use of the key back; what the handler itself has committed stays\<close>
  "client_request env key body handler = (\<lambda>s.
     case get_client_principal env key s of
       (Inl e, _) \<Rightarrow> (Inl e, s)
     | (Inr p, s1) \<Rightarrow>
         if \<not> ap_cipher_configured env then (Inl (answer 503 ''CREDENTIAL_ENCRYPTION_NOT_CONFIGURED''), s)
         else (case body of
             None \<Rightarrow> (Inl \<lparr>hx_status = 422, hx_code = None\<rparr>, s)
           | Some b \<Rightarrow>
               (case handler p b s1 of
                  (Inl e, t) \<Rightarrow> (Inl e, t\<lparr>client_keys := client_keys s\<rparr>)
                | (Inr x, t) \<Rightarrow> (Inr x, t))))"

subsection \<open>Handlers\<close>

record mailbox_response =
  xr_lease_id :: string
  xr_mailbox_id :: "string option"
  xr_provider_resource_id :: "string option"
  xr_primary_email :: string
  xr_allocated_email :: string
  xr_address_kind :: "address_kind option"
  xr_usage_site :: "string option"
  xr_provider :: "string option"
  xr_expires_at :: time
  xr_created_at :: time

definition mailbox_response_of :: "acquire_result \<Rightarrow> mailbox_response" where
  "mailbox_response_of r = \<lparr>xr_lease_id = ar_lease_id r, xr_mailbox_id = ar_mailbox_id r,
     xr_provider_resource_id = ar_provider_resource_id r, xr_primary_email = ar_primary_email r,
     xr_allocated_email = or_text (ar_allocated_email r) (ar_primary_email r), xr_address_kind = ar_address_kind r,
     xr_usage_site = ar_usage_site r, xr_provider = ar_provider_type r, xr_expires_at = ar_expires_at r, xr_created_at = ar_created_at r\<rparr>"

definition provider_choice :: "string list option \<Rightarrow> provider_input" where
  "provider_choice v = (case v of None \<Rightarrow> NoProvider | Some ts \<Rightarrow> ManyProviders ts)"

definition acquire_mailbox_account ::
    "(nat \<Rightarrow> acquire_env) \<Rightarrow> (string list \<Rightarrow> string list) \<Rightarrow> principal \<Rightarrow> mailbox_acquire_body \<times> string list option \<times> string list option
       \<Rightarrow> (db, http_error, mailbox_response) action" where
  "acquire_mailbox_account env shuffle p = (\<lambda>(b, ps, xs).
     bnd (lift_error to_external_http_exception (acquire_endpoint env shuffle
         \<lparr>aq_mode = MailRead, aq_ttl_seconds = ab_lease_ttl_seconds b, aq_preferred_email = ab_preferred_email b,
          aq_client_tag = ab_client_tag b, aq_purpose = ab_purpose b, aq_use_plus_alias = ab_use_plus_alias b,
          aq_preferred_alias_suffix = ab_alias_suffix b, aq_usage_site = ab_usage_site b, aq_provider = provider_choice ps,
          aq_exclude_providers = provider_choice xs, aq_explicit_provider_request = (ps \<noteq> None)\<rparr> p))
       (\<lambda>r. ret (mailbox_response_of r)))"

definition list_enabled_sites :: "principal \<Rightarrow> unit \<Rightarrow> (db, http_error, (string \<times> string \<times> bool) list) action" where
  "list_enabled_sites p = (\<lambda>_. bnd (lift_error to_external_http_exception (request_session (list_enabled_usage_sites p)))
     (\<lambda>us. ret (map (\<lambda>u. (us_code u, us_display_name u, us_enabled u)) us)))"

definition reacquire_mailbox_account :: "acquire_env \<Rightarrow> principal \<Rightarrow> reacquire_body \<Rightarrow> (db, http_error, mailbox_response) action" where
  \<comment> \<open>the response names no provider, no resource and no site\<close>
  "reacquire_mailbox_account env p b =
     bnd (lift_error to_external_http_exception (request_session (reacquire_lease_by_email env p (qb_email b) (qb_lease_ttl_seconds b)
         (qb_client_tag b) (qb_purpose b))))
       (\<lambda>r. ret ((mailbox_response_of r)\<lparr>xr_provider_resource_id := None, xr_usage_site := None, xr_provider := None\<rparr>))"

datatype lease_credential =
    AccessCredential string time bool int
  | RefreshCredential string string int

definition lease_credential_of :: "acquire_result \<Rightarrow> (db, http_error, lease_credential) action" where
  "lease_credential_of r =
     (if ar_mode r = AccessToken then
        (case ar_access_token r of
           None \<Rightarrow> throw (answer 500 ''LEASE_CREDENTIAL_MISSING'')
         | Some a \<Rightarrow> ret (AccessCredential (at_access_token a) (at_expires_at a) (at_refreshed a) (at_token_version a)))
      else (case (ar_client_id r, ar_refresh_token r, ar_token_version r) of
           (Some c, Some t, Some v) \<Rightarrow> ret (RefreshCredential c t v)
         | _ \<Rightarrow> throw (answer 500 ''LEASE_CREDENTIAL_MISSING'')))"

definition acquire_external_lease ::
    "(nat \<Rightarrow> acquire_env) \<Rightarrow> (string list \<Rightarrow> string list) \<Rightarrow> principal \<Rightarrow> lease_acquire_body
       \<Rightarrow> (db, http_error, acquire_result \<times> lease_credential) action" where
  \<comment> \<open>the credential is built inside the request session: without one the lease of a refresh token is rolled back\<close>
  "acquire_external_lease env shuffle p b =
     (let session = (\<lambda>m. if lb_mode b = AccessToken then m else request_session m) in
      andthen (require (lb_provider b \<in> {None, Some ''microsoft''}) (answer 400 ''PROVIDER_UNSUPPORTED''))
        (session (bnd (lift_error to_external_http_exception (acquire_lease env shuffle True
             \<lparr>aq_mode = lb_mode b, aq_ttl_seconds = lb_lease_ttl_seconds b, aq_preferred_email = lb_preferred_email b,
              aq_client_tag = lb_client_tag b, aq_purpose = lb_purpose b, aq_use_plus_alias = False,
              aq_preferred_alias_suffix = None, aq_usage_site = None,
              aq_provider = OneProvider (or_text (lb_provider b) ''microsoft''), aq_exclude_providers = NoProvider,
              aq_explicit_provider_request = (lb_provider b \<noteq> None)\<rparr> p)) (\<lambda>r.
           bnd (lease_credential_of r) (\<lambda>c. ret (r, c))))))"

definition release_external :: "release_env \<Rightarrow> string \<Rightarrow> principal \<Rightarrow> unit \<Rightarrow> (db, http_error, lease_release_result) action" where
  "release_external env lease_id p = (\<lambda>_. lift_error to_external_http_exception (release_external_lease env p lease_id))"

definition get_external_lease_access_token ::
    "(string \<Rightarrow> (db, lease_error, access_token_result) action) \<Rightarrow> time \<Rightarrow> string \<Rightarrow> principal \<Rightarrow> unit
       \<Rightarrow> (db, http_error, string \<times> access_token_result) action" where
  "get_external_lease_access_token ensure now lease_id p = (\<lambda>_.
     bnd (lift_error to_external_http_exception (request_session (get_access_token ensure now p lease_id))) (\<lambda>r. ret (lease_id, r)))"

definition update_external_lease_refresh_token ::
    "(string \<Rightarrow> string option) \<Rightarrow> (string \<Rightarrow> string) \<Rightarrow> int \<Rightarrow> time \<Rightarrow> string \<Rightarrow> principal \<Rightarrow> refresh_token_body
       \<Rightarrow> (db, http_error, refresh_token_update_result) action" where
  "update_external_lease_refresh_token decrypt encrypt lifetime_days now lease_id p b =
     lift_error to_external_http_exception (request_session (update_refresh_token decrypt encrypt lifetime_days now p lease_id
       (tb_expected_token_version b) (tb_refresh_token b)))"

definition read_verification_code ::
    "request_env \<Rightarrow> code_service \<Rightarrow> string \<Rightarrow> principal \<Rightarrow> code_body \<Rightarrow> (db \<times> buckets, http_error, lookup_result option) action" where
  "read_verification_code e cs lease_id p b =
     lift_error code_request_http (get_lease_verification_code e cs p lease_id (lookup_options_of b))"

definition client_code_request ::
    "api_env \<Rightarrow> string option \<Rightarrow> code_body option \<Rightarrow> request_env \<Rightarrow> code_service \<Rightarrow> string
       \<Rightarrow> (db \<times> buckets, http_error, lookup_result option) action" where
  \<comment> \<open>the handler commits the use of the key with its first authorization, before it waits; until then a failure
    rolls it back\<close>
  "client_code_request env key body e cs lease_id = (\<lambda>(s, slots).
     case get_client_principal env key s of
       (Inl err, _) \<Rightarrow> (Inl err, (s, slots))
     | (Inr p, s1) \<Rightarrow>
         if \<not> ap_cipher_configured env then (Inl (answer 503 ''CREDENTIAL_ENCRYPTION_NOT_CONFIGURED''), (s, slots))
         else (case body of
             None \<Rightarrow> (Inl \<lparr>hx_status = 422, hx_code = None\<rparr>, (s, slots))
           | Some b \<Rightarrow>
               (case fst (authorize_request e p lease_id s1) of
                  Inl err \<Rightarrow> (Inl (code_request_http err), (s, slots))
                | Inr _ \<Rightarrow> read_verification_code e cs lease_id p b (s1, slots))))"

subsection \<open>A released lease serves nothing\<close>

lemma finished_history: "lease_history P now s now' t \<Longrightarrow> finished now l s \<Longrightarrow> finished now' l t"
proof (induction rule: lease_history.induct)
  case (request now1 s1 now2 p t1)
  then have "finished now2 l s1" using occupancy_ok_later [of now1 s1 now2] by (auto simp: finished_def)
  then show ?case using finished.step_keeps [OF request(4)] by simp
qed

lemma release_finishes:
  assumes "occupancy_ok now s0" and "release_lease op now p i s0 = (Inr res, s)"
  shows "\<exists>l. finished now l s \<and> ls_id l = i"
proof -
  have r: "release_lease_internal op now p i s0 = (Inr res, s)"
    using assms(2) by (auto simp: release_lease_def require_scope_def returns)
  obtain l where l: "owned_lease p i s = Some l" "ls_released_at l = Some (rr_released_at res)"
    using release_internal_result [OF r] by blast
  have "occupancy_ok now s" using keepsD [OF occupied.release_keeps assms(1)] r by (metis snd_conv)
  with l owned_leaseD [OF l(1)] show ?thesis by (intro exI [of _ l]) (simp add: finished_def)
qed

lemma finished_owned:
  assumes "finished now l t" and "ls_id l = i"
  shows "owned_lease q i t \<in> {None, Some l}"
proof (cases "owned_lease q i t")
  case (Some k)
  then have "k \<in> set (leases t)" "ls_id k = ls_id l" using owned_leaseD [OF Some] assms(2) by simp_all
  then have "k = l" using assms(1) by (auto simp: finished_def occupancy_ok_def distinct_map dest: inj_onD)
  with Some show ?thesis by simp
qed simp

lemma finished_row: "finished now l t \<Longrightarrow> ls_id l = i \<Longrightarrow> lease_row i t = Some l"
  using row_by_unique [of ls_id "leases t" l] by (auto simp: finished_def occupancy_ok_def lease_row_def)

lemma finished_not_loaded:
  assumes "finished now l t" and "ls_id l = i"
  shows "\<exists>e \<in> {LeaseNotFound, LeaseInactive}. load_owned_lease later q i True t = (Inl e, t)"
    and "\<exists>e \<in> {LeaseNotFound, LeaseInactive}. load_owned_lease_mailbox_first later q i True t = (Inl e, t)"
  using finished_owned [OF assms, of q] assms(1)
  by (auto simp: load_owned_lease_def load_owned_lease_mailbox_first_def run finished_def split: option.split)

lemma finished_not_authorized:
  assumes "finished now l t" and "ls_id l = i"
  shows "\<exists>d. revalidate_verification_authorization later q i t = (Inl d, t)"
proof -
  have "\<exists>d. check_lease later q i t = (Inl d, t)"
    using finished_row [OF assms] assms(1) by (auto simp: check_lease_def run finished_def)
  then show ?thesis
    by (auto simp: revalidate_verification_authorization_def check_client_key_def require_scope_def run split: option.split)
qed

lemma finished_under_keys: "finished now l t \<Longrightarrow> finished now l (t\<lparr>client_keys := ks\<rparr>)"
  using quiet_occupancy [of now t "t\<lparr>client_keys := ks\<rparr>"] by (simp add: finished_def quietI)

lemma authenticate_writes_keys: "authenticate digest now key s = (r, t) \<Longrightarrow> \<exists>ks. t = s\<lparr>client_keys := ks\<rparr>"
  by (auto simp: authenticate_def run Let_def write_key_def split: option.splits if_splits prod.splits intro: exI [of _ "client_keys s"])

lemma client_principal_run:
  "(\<exists>e u. get_client_principal env key t = (Inl e, u) \<and> hx_status e = 401)
   \<or> (\<exists>p ks. get_client_principal env key t = (Inr p, t\<lparr>client_keys := ks\<rparr>))"
  using authenticate_writes_keys [of "ap_digest env" "ap_now env" key t]
  by (cases "authenticate (ap_digest env) (ap_now env) key t")
    (auto simp: get_client_principal_def lift_error_run answer_def split: sum.splits)

lemma refused_request:
  assumes "\<And>p ks b. \<exists>e. handler p b (t\<lparr>client_keys := ks\<rparr>) = (Inl e, t\<lparr>client_keys := ks\<rparr>) \<and> hx_status e \<in> codes"
    and "ap_cipher_configured env"
  shows "\<exists>e. client_request env key body handler t = (Inl e, t) \<and> hx_status e \<in> insert 401 (insert 422 codes)"
  using client_principal_run [of env key t]
proof (elim disjE exE conjE)
  fix e u assume "get_client_principal env key t = (Inl e, u)" "hx_status e = 401"
  then show ?thesis by (simp add: client_request_def)
next
  fix p ks assume p: "get_client_principal env key t = (Inr p, t\<lparr>client_keys := ks\<rparr>)"
  show ?thesis
  proof (cases body)
    case None
    with p assms(2) show ?thesis by (simp add: client_request_def)
  next
    case (Some b)
    obtain e where "handler p b (t\<lparr>client_keys := ks\<rparr>) = (Inl e, t\<lparr>client_keys := ks\<rparr>)" "hx_status e \<in> codes"
      using assms(1) by blast
    with p Some assms(2) show ?thesis by (auto simp: client_request_def)
  qed
qed

lemma refused_code_request:
  assumes "\<And>p ks. \<exists>d. revalidate_verification_authorization (re_request_time e) p lease_id (t\<lparr>client_keys := ks\<rparr>) = (Inl d, t\<lparr>client_keys := ks\<rparr>)"
    and "ap_cipher_configured env"
  shows "\<exists>x. client_code_request env key body e cs lease_id (t, slots) = (Inl x, (t, slots)) \<and> hx_status x \<in> {401, 403, 409, 422}"
  using client_principal_run [of env key t]
proof (elim disjE exE conjE)
  fix x u assume "get_client_principal env key t = (Inl x, u)" "hx_status x = 401"
  then show ?thesis by (simp add: client_code_request_def)
next
  fix p ks assume p: "get_client_principal env key t = (Inr p, t\<lparr>client_keys := ks\<rparr>)"
  obtain d where "revalidate_verification_authorization (re_request_time e) p lease_id (t\<lparr>client_keys := ks\<rparr>) = (Inl d, t\<lparr>client_keys := ks\<rparr>)"
    using assms(1) by blast
  then have "fst (authorize_request e p lease_id (t\<lparr>client_keys := ks\<rparr>)) = Inl (RequestDenied d)"
    by (simp add: authorize_request_def run)
  with p assms(2) show ?thesis
    by (cases body) (auto simp: client_code_request_def code_request_http_def denial_http_def answer_def)
qed

text \<open>
  C1. A released lease serves nothing any more: after its release, and whatever requests of whatever clients
  follow, every request for an access token under it, for replacing its refresh token and for a verification code is
  refused with one of the client errors 401, 403, 404, 409 and 422 and leaves every table - and for the code request
  every place of the polls - as it was, whoever asks, with whatever key, with whatever body, at whatever time.
  The encryption key is configured; without one every such request is answered 503 before the lease is looked at.
\<close>

theorem released_lease_serves_nothing:
  assumes "occupancy_ok now s0" and "release_lease op now p lease_id s0 = (Inr res, s)"
    and "lease_history (\<lambda>_. True) now s now' t" and "ap_cipher_configured env"
  shows "\<exists>e1 e2 e3. client_request env key (Some ()) (get_external_lease_access_token ensure later lease_id) t = (Inl e1, t)
     \<and> client_request env key token_body (update_external_lease_refresh_token dec enc dys later lease_id) t = (Inl e2, t)
     \<and> client_code_request env key code_body e cs lease_id (t, slots) = (Inl e3, (t, slots))
     \<and> {hx_status e1, hx_status e2, hx_status e3} \<subseteq> {401, 403, 404, 409, 422}"
proof -
  obtain l where l: "finished now l s" "ls_id l = lease_id" using release_finishes [OF assms(1,2)] by blast
  have f: "finished now' l (t\<lparr>client_keys := ks\<rparr>)" for ks
    by (intro finished_under_keys finished_history [OF assms(3) l(1)])
  let ?codes = "{403, 404, 409} :: nat set"
  have "\<exists>e. get_external_lease_access_token ensure later lease_id p b (t\<lparr>client_keys := ks\<rparr>) = (Inl e, t\<lparr>client_keys := ks\<rparr>)
      \<and> hx_status e \<in> ?codes" for p b ks
    using finished_not_loaded(1) [OF f l(2), of later p ks]
    by (auto simp: get_external_lease_access_token_def get_access_token_def request_session_def require_scope_def run
        to_external_http_exception_def answer_def)
  from refused_request [of "get_external_lease_access_token ensure later lease_id" t ?codes, OF this assms(4)]
  obtain e1 where e1: "client_request env key (Some ()) (get_external_lease_access_token ensure later lease_id) t = (Inl e1, t)"
    "hx_status e1 \<in> insert 401 (insert 422 ?codes)" by blast
  have "\<exists>e. update_external_lease_refresh_token dec enc dys later lease_id p b (t\<lparr>client_keys := ks\<rparr>) = (Inl e, t\<lparr>client_keys := ks\<rparr>)
      \<and> hx_status e \<in> ?codes" for p b ks
    using finished_not_loaded(2) [OF f l(2), of later p ks]
    by (auto simp: update_external_lease_refresh_token_def update_refresh_token_def request_session_def require_scope_def run
        to_external_http_exception_def answer_def)
  from refused_request [of "update_external_lease_refresh_token dec enc dys later lease_id" t ?codes, OF this assms(4)]
  obtain e2 where e2: "client_request env key token_body (update_external_lease_refresh_token dec enc dys later lease_id) t = (Inl e2, t)"
    "hx_status e2 \<in> insert 401 (insert 422 ?codes)" by blast
  from refused_code_request [OF finished_not_authorized [OF f l(2)] assms(4)]
  obtain e3 where "client_code_request env key code_body e cs lease_id (t, slots) = (Inl e3, (t, slots))"
    "hx_status e3 \<in> {401, 403, 409, 422}" by blast
  with e1 e2 show ?thesis by (intro exI [of _ e1] exI [of _ e2] exI [of _ e3]) auto
qed

definition leased_sample :: db where
  "leased_sample = empty_db\<lparr>mailboxes := [sample_mailbox ''m''], leases := [sample_lease ''l'' ''m'' AccessToken]\<rparr>"

theorem released_lease_serves_nothing_witness:
  "\<exists>t e1 e2 e3. release_lease ''op'' 5 sample_principal ''l'' leased_sample = (Inr \<lparr>rr_lease_id = ''l'', rr_released_at = 5\<rparr>, t)
     \<and> client_request \<lparr>ap_digest = id, ap_now = 7, ap_cipher_configured = True\<rparr> (Some ''mbx_k.x'') (Some ())
         (get_external_lease_access_token (\<lambda>_. throw LeaseInactive) 7 ''l'') t = (Inl e1, t)
     \<and> client_request \<lparr>ap_digest = id, ap_now = 7, ap_cipher_configured = True\<rparr> (Some ''mbx_k.x'') None
         (update_external_lease_refresh_token Some id 90 7 ''l'') t = (Inl e2, t)
     \<and> client_code_request \<lparr>ap_digest = id, ap_now = 7, ap_cipher_configured = True\<rparr> (Some ''mbx_k.x'') None
         steady_env (reading_service []) ''l'' (t, idle_slots) = (Inl e3, (t, idle_slots))"
proof -
  have o: "occupancy_ok 5 leased_sample"
    by (simp add: occupancy_ok_def claims_ok_def leased_sample_def empty_db_def sample_fields)
  have "fst (release_lease ''op'' 5 sample_principal ''l'' leased_sample) = Inr \<lparr>rr_lease_id = ''l'', rr_released_at = 5\<rparr>"
    by code_simp
  then obtain t where t: "release_lease ''op'' 5 sample_principal ''l'' leased_sample = (Inr \<lparr>rr_lease_id = ''l'', rr_released_at = 5\<rparr>, t)"
    by (metis prod.collapse)
  have c: "ap_cipher_configured \<lparr>ap_digest = id, ap_now = 7, ap_cipher_configured = True\<rparr>" by simp
  from released_lease_serves_nothing [OF o t lease_history.start c] t show ?thesis by metis
qed

subsection \<open>Failures\<close>

lemma session_failure: "request_session m s = (Inl e, t) \<Longrightarrow> t = s"
  by (auto simp: request_session_def transaction_run split: prod.splits sum.splits)

lemma failed_in_session:
  assumes "client_request env key body handler s = (Inl e, t)"
    and "\<And>p b u x v. handler p b u = (Inl x, v) \<Longrightarrow> v = u"
  shows "t = s"
proof -
  obtain r u where g: "get_client_principal env key s = (r, u)" by force
  then obtain ks where u: "u = s\<lparr>client_keys := ks\<rparr>"
    using authenticate_writes_keys [of "ap_digest env" "ap_now env" key s]
    by (auto simp: get_client_principal_def lift_error_run split: prod.splits sum.splits)
  have "handler p b u = (Inl x, v) \<Longrightarrow> v\<lparr>client_keys := client_keys s\<rparr> = s" for p b x v
    using assms(2) u by force
  then show ?thesis
    using assms(1) by (auto simp: client_request_def g split: sum.splits if_splits option.splits prod.splits)
qed

text \<open>
  A request for a mailbox, a re-acquisition and a token update that fail leave the database exactly as it was,
  also the time at which the key was last used.
\<close>

lemma failed_request_leaves_no_trace:
  "client_request env key mb (acquire_mailbox_account aenv shuffle) s = (Inl e, t) \<Longrightarrow> t = s"
  "client_request env key rb (reacquire_mailbox_account benv) s = (Inl e, t) \<Longrightarrow> t = s"
  "client_request env key tb (update_external_lease_refresh_token dec enc dys now i) s = (Inl e, t) \<Longrightarrow> t = s"
  by (erule failed_in_session, auto simp: acquire_mailbox_account_def acquire_endpoint_def reacquire_mailbox_account_def
      update_external_lease_refresh_token_def bnd_run lift_error_run ret_run dest: session_failure split: prod.splits sum.splits)+

text \<open>A client that needs a token while no proxy is healthy is told of an internal error, not that the service is unavailable.\<close>

lemma missing_proxy_is_internal_error:
  "to_external_http_exception (TokenFailure (token_failure_of (ClientFailure NoHealthyProxy))) = answer 500 ''EXTERNAL_API_ERROR''"
  by (simp add: to_external_http_exception_def token_failure_of_def token_failure_http_def)

end
