(* ===== verification/Spec2Isabelle.thy ===== *)
theory Spec2Isabelle
  imports PollCapacity Deadline TxRetry JobLease TokenScopes CodeMatcher ClientKeys ProviderSelect LeaseTokens TokenBatch ProbeLabel MailReader VerificationAuth CodeRequest MailboxImport ProxyAdmin OperatorSessions SmsBower ProviderHealth Migrations Schedulers AdminViews HttpApi
begin

text \<open>
  The mailbox service: a verification library.

  The program. The service lends mailboxes. A client authenticates with a key, acquires a lease on a mailbox
  the service owns (Microsoft accounts, read over Graph or IMAP through a pool of egress proxies), on an
  activation bought from SMSBower, or on an address opened on demand at one of a dozen providers; it then
  gets an access token, a refresh token or verification codes under the lease and releases it. An
  administrator imports and deletes mailboxes, manages proxies, keys, registration sites and provider settings,
  and debugs providers in operator sessions. All source files named below are in \<open>src/mailbox_service/\<close>.

  The model. The database is the record \<open>db\<close> of its tables (\<open>Tables\<close>), a table the list of its rows, a row
  a record with the columns of \<open>models.py\<close>, an enumeration a datatype. An operation of a service class is an
  \<open>action\<close> of \<open>Prelude\<close>: a function from the state to an error or a value, and the new state. A Python
  exception that a caller can tell apart is a constructor of an error type; \<open>transaction\<close> is a block that
  rolls back when it raises. Machine integers do not occur: Python integers are \<open>int\<close> or, where they count,
  \<open>nat\<close>. Floats of deadlines and settings are real numbers without rounding. A string is a list of the code
  points up to U+00FF.

  Theories and the code they model.

  Foundations.
    \<open>Prelude\<close> has the actions, the calculus of preserved invariants and relations (\<open>keeps\<close>, \<open>steps\<close>) and of
    the answers an action can give (\<open>yields\<close>), and the table helpers; \<open>PyText\<close> and \<open>Json\<close> have the string operations of Python and JSON values; \<open>PyRegex\<close>
    has the constructs of \<open>re\<close> as backtracking matchers; \<open>Tables\<close> is \<open>models.py\<close> with
    \<open>audit_service.py\<close>; \<open>Catalog\<close> is \<open>providers/catalog.py\<close>, \<open>providers/registry.py\<close> and
    \<open>providers/microsoft_guards.py\<close>; \<open>Security\<close> is \<open>security.py\<close> without its cipher.

  Concurrency and time.
    \<open>PollCapacity\<close>: \<open>verification_poll_capacity.py\<close>, all interleavings of polls as a step relation.
    \<open>Deadline\<close>: \<open>operation_deadline.py\<close>. \<open>TxRetry\<close>: \<open>transaction_retry.py\<close>. \<open>JobLease\<close>:
    \<open>scheduler_lease_repository.py\<close>, ownership of a job with fencing tokens. \<open>Schedulers\<close>:
    \<open>proxy_scheduler.py\<close> and \<open>token_keepalive_scheduler.py\<close>. \<open>Migrations\<close>: \<open>migration_runner.py\<close>.

  Keys and leases.
    \<open>ClientKeys\<close>: \<open>client_key_service.py\<close>. \<open>SiteUsage\<close>, \<open>LeaseClaims\<close>, \<open>LeaseRelease\<close>,
    \<open>ProviderSelect\<close>, \<open>LeaseAcquire\<close> and \<open>LeaseReacquire\<close> are \<open>lease_service.py\<close> from top to bottom:
    registration sites, occupancy claims and plus-alias addresses, release and credentials, the choice of
    the provider type, acquiring and re-acquiring. \<open>LeaseOccupancy\<close>, \<open>LeaseInvariant\<close>, \<open>LeaseHistory\<close> and
    \<open>LeaseGrants\<close> hold the proofs over it. \<open>ReleaseFlow\<close> is the release request with the remote end of
    an activation, \<open>MailboxAdmin\<close> is \<open>mailbox_admin_service.py\<close>, \<open>MailboxImport\<close> the text import
    and export of \<open>main.py\<close>, \<open>OperatorSessions\<close> is \<open>operator_session_service.py\<close>.

  Tokens and the network.
    \<open>TokenScopes\<close>: \<open>access_token_scopes.py\<close>. \<open>TokenRepo\<close>: \<open>token_repository.py\<close>. \<open>TokenService\<close>
    and \<open>TokenBatch\<close>: \<open>token_service.py\<close>, one refresh and the batches. \<open>ProxyPool\<close>: \<open>proxy_service.py\<close>;
    \<open>ProxyAdmin\<close>: the proxy handlers of \<open>main.py\<close>. \<open>CapabilityProbe\<close>: \<open>capability_probe_service.py\<close>;
    \<open>ProbeLabel\<close> says which answers of the network its labels rest on.
    \<open>TokenFlow\<close> and \<open>LeaseTokens\<close> put these together.

  Mail and codes.
    \<open>CodeMatcher\<close>: \<open>verification_code_matcher.py\<close>. \<open>MailText\<close>, \<open>MailReader\<close> and \<open>CodePoll\<close>:
    \<open>verification_code_service.py\<close> with \<open>mail_body_sanitize.py\<close>: from a text to a code, reading a mailbox,
    waiting for a code. \<open>MailNormalize\<close>: \<open>mail_message_normalize.py\<close>. \<open>VerificationAuth\<close>:
    \<open>verification_authorization.py\<close>. \<open>ProviderPoll\<close>: the polling loops of the other providers and the code
    request of \<open>main.py\<close>; \<open>PollSafety\<close> and \<open>CodeRequest\<close> hold the proofs.

  Providers.
    \<open>ProviderOps\<close>: \<open>provider_operation_service.py\<close>. \<open>OnDemand\<close>: \<open>providers/ondemand_adapters.py\<close> and
    \<open>providers/ondemand_facade.py\<close>. \<open>SmsBower\<close>: \<open>providers/smsbower_contracts.py\<close>,
    \<open>smsbower_transport.py\<close> and \<open>smsbower_gmail.py\<close>. \<open>ProviderSettings\<close>:
    \<open>provider_settings_service.py\<close>. \<open>ProviderHealth\<close>: \<open>provider_health_service.py\<close> with
    \<open>providers/http_client.py\<close>.

  The HTTP interface.
    \<open>ApiSchemas\<close>: the request bodies of \<open>schemas.py\<close>. \<open>HttpApi\<close>: the external handlers of \<open>main.py\<close>,
    from the key in the header to the status of the answer. \<open>AdminViews\<close>: the dashboards and lists of the
    administrator.
\<close>

text \<open>
  What the lemmas show, and how the proofs are built.

  Interfaces. Where several operations share a contract, it is a locale, proved once and interpreted on
  the operations of the model. \<open>frame_relation\<close> (\<open>Prelude\<close>) is a relation between the states before and after
  that composes: interpreted on what leaves the claims, the keys, the lease tables, the mailboxes or a
  settings row alone. \<open>token_frame\<close> (\<open>TokenFlow\<close>) lifts such a relation to the whole token service. \<open>pool_frame\<close> extends it by the few writes of the proxy pool: whatever they respect,
  every outbound call respects; interpreted on the token columns (\<open>TokenFlow\<close>), the lease tables
  (\<open>LeaseTokens\<close>), the well-formedness of the pool (\<open>ProxyAdmin\<close>) and the order of a sweep (\<open>Schedulers\<close>).
  \<open>request_invariant\<close> (\<open>LeaseInvariant\<close>) asks of an invariant to survive five primitive changes and gives
  that every request of the lease service keeps it; interpreted on the occupancy rule, on the claim
  another client holds and on a released lease. \<open>versioned_writer\<close> (\<open>TokenRepo\<close>) says that a writer of the refresh
  token advances its version; \<open>generation_writer\<close> (\<open>ProviderOps\<close>), \<open>fencing\<close> (\<open>JobLease\<close>), \<open>tally\<close>
  (\<open>PollCapacity\<close>), \<open>atomic_attempts\<close> (\<open>TxRetry\<close>), \<open>delivering\<close> (\<open>PollSafety\<close>), \<open>import_invariant\<close>
  (\<open>MailboxImport\<close>) and \<open>paged\<close> (\<open>AdminViews\<close>) are the contracts of their components.

  Leases. \<open>occupancy_ok\<close> says that a mailbox has at most one exclusive live claim, that each claim is
  the image of an unreleased lease, and that holders exist; every request of clients, administrators and
  operators keeps it. From it follow isolation (no history of requests gives a leased mailbox away), that an acquired lease is
  recorded, that a failed token request takes its reservation back, and that a released lease serves nothing any more.
  The lemmas of \<open>HttpApi\<close> carry these over to the requests and their status codes.

  Tokens. A refresh token is only replaced by a newer version, a mailbox is refreshed by one worker at a
  time, every outcome of a refresh gives the claim back, and the token returned is the token stored.
  The theorems about a lost swap and about the probe show where the code departs from that discipline.

  Codes. The scanners agree with reference definitions over the runs of a text; a scan returns the first code within its byte
  budgets; a request ends, reports an unreachable inbox, and hands a code of a Microsoft mailbox only to
  a caller whose authorization held at a checkpoint after the code was read.

  The other properties: round trips (created keys, aliases, exports, secrets of a settings row), pool and settings
  invariants, refinements of the health of a proxy and of a settings update, the exact result of batches
  and probes, the durable accounts of purchases and releases, migrations applied once and in order, and
  that an import leaves alone what it may not touch and defeats a refresh that is under way.

  Loops. The structural loops are structural recursions; the scanners of \<open>CodeMatcher\<close> have measures. The
  polling loop takes one unit of fuel per round: each round sleeps at least a second, so a
  request with a timeout of \<open>t\<close> seconds needs at most \<open>t + 1\<close> rounds (\<open>code_request_returns\<close> proves it for a clock
  that advances). The chunks of the deletion of invalid mailboxes take one unit each and need one more
  than there are such mailboxes (\<open>invalid_mailboxes_are_deleted\<close>). The loops of the retry
  helper and of alias generation have the bounds of the source.

  Conventions. A request reads the clock once where the code reads it at every helper. Fresh ids, secrets,
  random choices, digests, ciphers and the rows other transactions hold locked are parameters, as are HTTP, IMAP,
  MIME and number parsing; the hypotheses about them are that ids are fresh, that decryption inverts encryption
  and that the clock advances. A block of the code under a row lock is one atomic step. Between such blocks
  other requests commit what a parameter of the environment says (\<open>te_others\<close>, \<open>pe_others\<close>, \<open>rn_others\<close>,
  \<open>rf_others\<close>, \<open>meanwhile\<close>). \<open>ORDER BY\<close> is a stable sort, although the database leaves ties open;
  comparisons follow a case-sensitive collation and the lengths of columns are not limited. Unique keys are checked where
  the code flushes; a deadlock is not modelled outside \<open>TxRetry\<close>. Log lines, progress events and
  the texts of messages are left out.
\<close>

text \<open>
  Not modelled. Of \<open>main.py\<close>: the generation of the OpenAPI documents, the lifespan of the application and the
  headers of responses, which wire up FastAPI. \<open>config.py\<close> beyond the settings the services read, the engine of
  \<open>database.py\<close>, \<open>providers/microsoft.py\<close> and the builders, which only construct objects. The
  cipher of \<open>security.py\<close> and the digests are library calls and parameters. The SQL of the migrations, the
  scripts, the tests and the frontend are not in the language of the model or hold no logic of the service.
\<close>

end
